(* ===== verification/Prelude.thy ===== *)
theory Prelude
  imports Main "HOL-Library.Finite_Map" "HOL-Library.List_Lexorder" "HOL-Library.Char_ord"
begin

text \<open>
  What every component shares: the Go string functions the sources call, decimal and
  hexadecimal numerals as the \<^verbatim>\<open>strconv\<close> and \<^verbatim>\<open>fmt\<close> packages read and write them, the
  length-prefixed encodings the two fingerprints hash, 64-bit wrap-around, and lemmas on finite
  maps and on filtered lists.

  A Go \<^verbatim>\<open>string\<close> is a sequence of bytes, and so is the HOL type \<^typ>\<open>string\<close> (a list of
  8-bit characters); comparison of strings is bytewise lexicographic in both.
\<close>

named_theorems go_string \<open>laws of the Go string functions\<close>
named_theorems go_map \<open>laws of Go maps modelled as finite maps\<close>

type_synonym 'v go_map = "(string, 'v) fmap"

section \<open>Package strings\<close>

definition HasPrefix :: "string \<Rightarrow> string \<Rightarrow> bool" where
  "HasPrefix s p \<longleftrightarrow> take (length p) s = p"

definition TrimPrefix :: "string \<Rightarrow> string \<Rightarrow> string" where
  "TrimPrefix s p = (if HasPrefix s p then drop (length p) s else s)"

definition HasSuffix :: "string \<Rightarrow> string \<Rightarrow> bool" where
  "HasSuffix s p \<longleftrightarrow> length p \<le> length s \<and> drop (length s - length p) s = p"

definition TrimSuffix :: "string \<Rightarrow> string \<Rightarrow> string" where
  "TrimSuffix s p = (if HasSuffix s p then take (length s - length p) s else s)"

definition TrimRight :: "string \<Rightarrow> char \<Rightarrow> string" where
  "TrimRight s c = rev (dropWhile (\<lambda>x. x = c) (rev s))"

fun Join :: "string list \<Rightarrow> string \<Rightarrow> string" where
  "Join [] sep = []"
| "Join [x] sep = x"
| "Join (x # y # zs) sep = x @ sep @ Join (y # zs) sep"

fun Split :: "string \<Rightarrow> char \<Rightarrow> string list" where
  "Split [] c = [[]]"
| "Split (x # xs) c =
     (if x = c then [] # Split xs c
      else (case Split xs c of [] \<Rightarrow> [[x]] | w # ws \<Rightarrow> (x # w) # ws))"

definition Contains :: "string \<Rightarrow> string \<Rightarrow> bool" where
  "Contains s sub \<longleftrightarrow> list_ex (\<lambda>i. take (length sub) (drop i s) = sub) [0 ..< Suc (length s)]"

lemma HasPrefix_append [simp, go_string]: "HasPrefix (p @ s) p"
  by (simp add: HasPrefix_def)

lemma HasPrefixD: "HasPrefix s p \<Longrightarrow> \<exists>r. s = p @ r"
  by (metis HasPrefix_def append_take_drop_id)

lemma HasPrefix_Cons [simp]: "HasPrefix (x # s) [c] \<longleftrightarrow> x = c"
  by (auto simp: HasPrefix_def)

lemma HasPrefix_Nil [simp]: "HasPrefix [] [c] \<longleftrightarrow> False"
  by (simp add: HasPrefix_def)

lemma TrimPrefix_append [simp, go_string]: "TrimPrefix (p @ s) p = s"
  by (simp add: TrimPrefix_def)

lemma TrimSuffix_append [simp, go_string]: "TrimSuffix (s @ p) p = s"
  by (simp add: TrimSuffix_def HasSuffix_def)

lemma TrimRight_idem [simp, go_string]: "TrimRight (TrimRight s c) c = TrimRight s c"
  by (simp add: TrimRight_def)

lemma TrimRight_last: "TrimRight s c \<noteq> [] \<Longrightarrow> last (TrimRight s c) \<noteq> c"
proof -
  assume "TrimRight s c \<noteq> []"
  then have "dropWhile (\<lambda>x. x = c) (rev s) \<noteq> []" by (simp add: TrimRight_def)
  then have "hd (dropWhile (\<lambda>x. x = c) (rev s)) \<noteq> c" by (rule hd_dropWhile)
  then show ?thesis by (simp add: TrimRight_def last_rev)
qed

lemma TrimRight_id: "s = [] \<or> last s \<noteq> c \<Longrightarrow> TrimRight s c = s"
  by (cases s rule: rev_cases) (auto simp: TrimRight_def)

lemma TrimRight_snoc [simp, go_string]: "TrimRight (s @ [c]) c = TrimRight s c"
  by (simp add: TrimRight_def)

lemma TrimRight_Nil [simp]: "TrimRight [] c = []"
  by (simp add: TrimRight_def)

lemma TrimRight_Cons: "TrimRight (x # s) c = (if TrimRight s c = [] \<and> x = c then [] else x # TrimRight s c)"
  by (auto simp: TrimRight_def dropWhile_append)

lemma Split_nonempty [simp]: "Split s c \<noteq> []"
  by (induction s c rule: Split.induct) (auto split: list.splits)

lemma Split_no_sep: "c \<notin> set s \<Longrightarrow> Split s c = [s]"
  by (induction s c rule: Split.induct) auto

lemma Split_append_sep: "c \<notin> set s \<Longrightarrow> Split (s @ c # t) c = s # Split t c"
  by (induction s) auto

text \<open>Splitting a joined list recovers it, as long as no member holds the separator.\<close>

lemma Split_Join [go_string]:
  assumes "xs \<noteq> []" and "\<forall>x \<in> set xs. c \<notin> set x"
  shows "Split (Join xs [c]) c = xs"
  using assms
proof (induction xs "[c]" rule: Join.induct)
  case (3 x y zs)
  then show ?case by (simp add: Split_append_sep)
qed (simp_all add: Split_no_sep)

section \<open>Package strconv: numerals\<close>

datatype num_error = ErrSyntax | ErrRange

definition digit_val :: "char \<Rightarrow> nat option" where
  "digit_val c = (let n = (of_char c :: nat) in
     if 48 \<le> n \<and> n \<le> 57 then Some (n - 48)
     else if 97 \<le> n \<and> n \<le> 122 then Some (n - 87)
     else if 65 \<le> n \<and> n \<le> 90 then Some (n - 55)
     else None)"

definition digit_char :: "nat \<Rightarrow> char" where
  "digit_char d = char_of (if d < 10 then 48 + d else 87 + d)"

fun parse_digits :: "nat \<Rightarrow> nat \<Rightarrow> nat \<Rightarrow> string \<Rightarrow> num_error + nat" where
  "parse_digits b mx acc [] = Inr acc"
| "parse_digits b mx acc (c # cs) =
     (case digit_val c of
        None \<Rightarrow> Inl ErrSyntax
      | Some d \<Rightarrow>
          if b \<le> d then Inl ErrSyntax
          else if mx < acc * b + d then Inl ErrRange
          else parse_digits b mx (acc * b + d) cs)"

text \<open>\<^verbatim>\<open>strconv.ParseUint(s, base, bitSize)\<close> for the bases the sources pass, 10 and 16.\<close>

definition ParseUint :: "string \<Rightarrow> nat \<Rightarrow> nat \<Rightarrow> num_error + nat" where
  "ParseUint s b bits = (if s = [] then Inl ErrSyntax else parse_digits b (2 ^ bits - 1) 0 s)"

text \<open>
  \<^verbatim>\<open>strconv.ParseInt(s, base, 64)\<close>: one sign, then an unsigned 64-bit numeral that must fit
  the signed range.
\<close>

definition ParseInt :: "string \<Rightarrow> nat \<Rightarrow> num_error + int" where
  "ParseInt s b =
     (if s = [] then Inl ErrSyntax
      else let neg = (hd s = CHR ''-'');
               body = (if hd s = CHR ''+'' \<or> hd s = CHR ''-'' then tl s else s)
           in (case ParseUint body b 64 of
                 Inl e \<Rightarrow> Inl e
               | Inr un \<Rightarrow>
                   if \<not> neg \<and> 2 ^ 63 \<le> un then Inl ErrRange
                   else if neg \<and> 2 ^ 63 < un then Inl ErrRange
                   else Inr (if neg then - int un else int un)))"

function show_base :: "nat \<Rightarrow> nat \<Rightarrow> string" where
  "show_base b n =
     (if n < b \<or> b < 2 then [digit_char n]
      else show_base b (n div b) @ [digit_char (n mod b)])"
  by pat_completeness auto
termination
  by (relation "measure snd") auto

declare show_base.simps [simp del]

abbreviation show_nat :: "nat \<Rightarrow> string" where
  "show_nat \<equiv> show_base 10"

text \<open>\<^verbatim>\<open>strconv.FormatInt(n, 10)\<close>\<close>

definition FormatInt :: "int \<Rightarrow> string" where
  "FormatInt n = (if n < 0 then CHR ''-'' # show_nat (nat (- n)) else show_nat (nat n))"

lemma digit_val_char [simp]: "d < 36 \<Longrightarrow> digit_val (digit_char d) = Some d"
  by (auto simp: digit_val_def digit_char_def Let_def of_char_of)

lemma digit_val_decimal: "d < 10 \<Longrightarrow> digit_char d = char_of (48 + d)"
  by (simp add: digit_char_def)

lemma digit_char_not_sign [simp]:
  assumes "d < 36"
  shows "digit_char d \<noteq> CHR ''-''" and "digit_char d \<noteq> CHR ''+''"
    and "digit_char d \<noteq> CHR '':''" and "digit_char d \<noteq> CHR '',''"
proof -
  have "digit_val (digit_char d) = Some d" using assms by simp
  then show "digit_char d \<noteq> CHR ''-''" and "digit_char d \<noteq> CHR ''+''"
    and "digit_char d \<noteq> CHR '':''" and "digit_char d \<noteq> CHR '',''"
    by (auto simp: digit_val_def)
qed

lemma parse_digits_append:
  "parse_digits b mx acc (xs @ ys) =
     (case parse_digits b mx acc xs of Inl e \<Rightarrow> Inl e | Inr a \<Rightarrow> parse_digits b mx a ys)"
  by (induction b mx acc xs rule: parse_digits.induct) (auto split: option.splits)

lemma parse_digits_bound: "acc \<le> mx \<Longrightarrow> parse_digits b mx acc s = Inr n \<Longrightarrow> n \<le> mx"
  by (induction b mx acc s rule: parse_digits.induct) (auto split: option.splits if_splits)

lemma show_base_nonempty [simp]: "show_base b n \<noteq> []"
  by (subst show_base.simps) simp

lemma show_base_digits: "2 \<le> b \<Longrightarrow> c \<in> set (show_base b n) \<Longrightarrow> \<exists>d < b. c = digit_char d"
proof (induction b n rule: show_base.induct)
  case (1 b n)
  show ?case
  proof (cases "n < b")
    case True
    with 1 show ?thesis by (auto simp: show_base.simps [of b n])
  next
    case False
    with 1 have "c \<in> set (show_base b (n div b)) \<or> c = digit_char (n mod b)"
      by (auto simp: show_base.simps [of b n])
    moreover have "n mod b < b" using "1.prems"(1) by simp
    moreover have "c \<in> set (show_base b (n div b)) \<Longrightarrow> \<exists>d < b. c = digit_char d"
      using "1.IH" "1.prems"(1) False by simp
    ultimately show ?thesis by blast
  qed
qed

text \<open>Reading back what was written: the numeral codec is a left inverse of the printer.\<close>

lemma parse_digits_show_base:
  assumes "2 \<le> b" and "b \<le> 36" and "n \<le> mx"
  shows "parse_digits b mx 0 (show_base b n) = Inr n"
  using assms
proof (induction b n rule: show_base.induct)
  case (1 b n)
  show ?case
  proof (cases "n < b")
    case True
    with 1 show ?thesis by (simp add: show_base.simps [of b n])
  next
    case False
    then have le: "n div b \<le> mx" using 1 by (meson div_le_dividend le_trans)
    have "parse_digits b mx 0 (show_base b (n div b)) = Inr (n div b)"
      using 1 False le by simp
    moreover have mb: "n mod b < b" using "1.prems" by simp
    moreover have "digit_val (digit_char (n mod b)) = Some (n mod b)"
      using less_le_trans [OF mb "1.prems"(2)] by (rule digit_val_char)
    ultimately show ?thesis
      using "1.prems" False by (simp add: show_base.simps [of b n] parse_digits_append not_le)
  qed
qed

lemma ParseUint_show_base:
  "2 \<le> b \<Longrightarrow> b \<le> 36 \<Longrightarrow> n < 2 ^ bits \<Longrightarrow> ParseUint (show_base b n) b bits = Inr n"
  by (simp add: ParseUint_def parse_digits_show_base)

lemma show_base_hd_not_sign:
  assumes "2 \<le> b" and "b \<le> 36"
  shows "hd (show_base b n) \<noteq> CHR ''-''" and "hd (show_base b n) \<noteq> CHR ''+''"
proof -
  have "hd (show_base b n) \<in> set (show_base b n)" by simp
  then obtain d where "d < b" and "hd (show_base b n) = digit_char d"
    using show_base_digits assms by blast
  then show "hd (show_base b n) \<noteq> CHR ''-''" and "hd (show_base b n) \<noteq> CHR ''+''"
    using assms by simp_all
qed

lemma ParseInt_FormatInt:
  assumes "- (2 ^ 63) \<le> n" and "n < 2 ^ 63"
  shows "ParseInt (FormatInt n) 10 = Inr n"
proof (cases "n < 0")
  case True
  then have "nat (- n) < 2 ^ 64" using assms by simp
  then have "ParseUint (show_nat (nat (- n))) 10 64 = Inr (nat (- n))"
    by (intro ParseUint_show_base) auto
  then show ?thesis using True assms by (simp add: FormatInt_def ParseInt_def)
next
  case False
  then have "nat n < 2 ^ 64" using assms by simp
  then have "ParseUint (show_nat (nat n)) 10 64 = Inr (nat n)"
    by (intro ParseUint_show_base) auto
  then show ?thesis
    using False assms show_base_hd_not_sign [of 10 "nat n"]
    by (simp add: FormatInt_def ParseInt_def nat_less_iff)
qed

lemma show_nat_inject: "show_nat m = show_nat n \<longleftrightarrow> m = n"
proof
  assume "show_nat m = show_nat n"
  then have "parse_digits 10 (max m n) 0 (show_nat m) = parse_digits 10 (max m n) 0 (show_nat n)"
    by simp
  then show "m = n" by (simp add: parse_digits_show_base)
qed simp

section \<open>64-bit arithmetic\<close>

text \<open>A Go \<^verbatim>\<open>int64\<close> is an \<^typ>\<open>int\<close> in the signed range; sums and products wrap.\<close>

definition in_int64 :: "int \<Rightarrow> bool" where
  "in_int64 x \<longleftrightarrow> - (2 ^ 63) \<le> x \<and> x < 2 ^ 63"

definition wrap64 :: "int \<Rightarrow> int" where
  "wrap64 x = (x + 2 ^ 63) mod 2 ^ 64 - 2 ^ 63"

lemma wrap64_in [simp]: "in_int64 (wrap64 x)"
proof -
  have "0 \<le> (x + 2 ^ 63) mod 2 ^ 64" and "(x + 2 ^ 63) mod 2 ^ 64 < (2 ^ 64 :: int)"
    by (simp_all add: pos_mod_bound)
  then show ?thesis by (simp add: wrap64_def in_int64_def)
qed

lemma wrap64_id: "in_int64 x \<Longrightarrow> wrap64 x = x"
  by (simp add: wrap64_def in_int64_def)

lemma wrap64_bounds: "- (2 ^ 63) \<le> x \<Longrightarrow> x < 2 ^ 63 \<Longrightarrow> wrap64 x = x"
  by (rule wrap64_id) (simp add: in_int64_def)

section \<open>Length-prefixed parts\<close>

text \<open>\<^verbatim>\<open>fmt.Fprintf(h, "%d:%s", len(value), value)\<close>\<close>

definition netstring :: "string \<Rightarrow> string" where
  "netstring v = show_nat (length v) @ CHR '':'' # v"

lemma colon_not_in_show_nat [simp]: "CHR '':'' \<notin> set (show_nat n)"
proof
  assume "CHR '':'' \<in> set (show_nat n)"
  then obtain d where "d < 10" and "CHR '':'' = digit_char d"
    using show_base_digits [of 10] by auto
  then show False using digit_char_not_sign(3) [of d] by simp
qed

lemma append_sep_inject:
  assumes "c \<notin> set xs" and "c \<notin> set ys" and "xs @ c # s = ys @ c # t"
  shows "xs = ys \<and> s = t"
  using assms
proof (induction xs arbitrary: ys)
  case Nil
  then show ?case by (cases ys) auto
next
  case (Cons x xs)
  then show ?case by (cases ys) auto
qed

lemma netstring_inject: "netstring a @ s = netstring b @ t \<longleftrightarrow> a = b \<and> s = t"
proof
  assume "netstring a @ s = netstring b @ t"
  then have "show_nat (length a) @ CHR '':'' # (a @ s) = show_nat (length b) @ CHR '':'' # (b @ t)"
    by (simp add: netstring_def)
  then have "show_nat (length a) = show_nat (length b) \<and> a @ s = b @ t"
    by (rule append_sep_inject [rotated 2]) simp_all
  then show "a = b \<and> s = t" by (auto simp: show_nat_inject)
qed simp

section \<open>Finite maps\<close>

text \<open>The Go zero value of a missing key: \<^verbatim>\<open>m[k]\<close> on a \<^verbatim>\<open>map[string]string\<close>.\<close>

definition lookup_default :: "'v \<Rightarrow> 'v go_map \<Rightarrow> string \<Rightarrow> 'v" where
  "lookup_default z m k = (case fmlookup m k of None \<Rightarrow> z | Some v \<Rightarrow> v)"

abbreviation map_get :: "string go_map \<Rightarrow> string \<Rightarrow> string" where
  "map_get \<equiv> lookup_default []"

definition sorted_keys :: "'v go_map \<Rightarrow> string list" where
  "sorted_keys m = sorted_list_of_fset (fmdom m)"

lemma set_sorted_keys [simp, go_map]: "set (sorted_keys m) = fmdom' m"
  by (simp add: sorted_keys_def fmdom'_alt_def)

lemma distinct_sorted_keys [simp]: "distinct (sorted_keys m)"
  by (simp add: sorted_keys_def sorted_list_of_fset.rep_eq)

lemma sorted_sorted_keys [simp]: "sorted (sorted_keys m)"
  by (simp add: sorted_keys_def sorted_list_of_fset.rep_eq)

lemma sorted_keys_empty_iff [go_map]: "sorted_keys m = [] \<longleftrightarrow> m = fmempty"
proof
  assume "sorted_keys m = []"
  then have "fmdom' m = {}" using set_sorted_keys [of m] by simp
  then have "fmlookup m k = None" for k using fmlookup_dom'_iff [of k m] by auto
  then show "m = fmempty" by (intro fmap_ext) simp
qed (simp add: sorted_keys_def sorted_list_of_fset.rep_eq)

lemma map_get_Some: "fmlookup m k = Some v \<Longrightarrow> map_get m k = v"
  by (simp add: lookup_default_def)

lemma fmpred_map_get [go_map]: "fmpred P m \<longleftrightarrow> (\<forall>k \<in> fmdom' m. P k (map_get m k))"
proof -
  have "P k v \<longleftrightarrow> P k (map_get m k)" if "fmlookup m k = Some v" for k v
    using map_get_Some [OF that] by simp
  then show ?thesis unfolding fmpred_iff Ball_def fmlookup_dom'_iff by blast
qed

lemma fmpred_empty_filter: "fmfilter P m = fmempty \<longleftrightarrow> fmpred (\<lambda>k v. \<not> P k) m"
proof
  assume "fmfilter P m = fmempty"
  then show "fmpred (\<lambda>k v. \<not> P k) m"
  proof (intro fmpredI notI)
    fix k v
    assume "fmlookup m k = Some v" and "P k"
    then have "fmlookup (fmfilter P m) k = Some v" by simp
    with \<open>fmfilter P m = fmempty\<close> show False by simp
  qed
next
  assume *: "fmpred (\<lambda>k v. \<not> P k) m"
  have "fmlookup (fmfilter P m) k = None" for k
    using * by (cases "fmlookup m k") (auto dest: fmpredD)
  then show "fmfilter P m = fmempty" by (intro fmap_ext) simp
qed

section \<open>Lists\<close>

lemma filter_eq_self: "(\<forall>x \<in> set xs. P x) \<Longrightarrow> filter P xs = xs"
  by (induction xs) auto

lemma distinct_map_filter: "distinct (map f xs) \<Longrightarrow> distinct (map f (filter P xs))"
  by (induction xs) auto

lemma distinct_map_inj: "distinct (map f xs) \<Longrightarrow> x \<in> set xs \<Longrightarrow> y \<in> set xs \<Longrightarrow> f x = f y \<Longrightarrow> x = y"
  by (auto simp: distinct_map dest: inj_onD)

lemma find_Some_iff_distinct:
  "distinct (map f xs) \<Longrightarrow> find (\<lambda>x. f x = a) xs = Some x \<longleftrightarrow> x \<in> set xs \<and> f x = a"
  by (induction xs) auto

lemma find_SomeD: "find P xs = Some x \<Longrightarrow> x \<in> set xs \<and> P x"
  by (induction xs) (auto split: if_splits)

lemma find_None_all: "find P xs = None \<longleftrightarrow> (\<forall>x \<in> set xs. \<not> P x)"
  by (auto simp: find_None_iff)

end
