(* ===== verification/Scalar.thy ===== *)
theory Scalar
  imports Prelude
begin

text \<open>
  Package \<^verbatim>\<open>rest/scalar\<close>: the parsers of the string forms RouterOS returns. Every parser is
  a tot function into \<^verbatim>\<open>scalar_error + value\<close>; durations are 64-bit nanosecond counts and
  wrap as Go's \<^verbatim>\<open>time.Duration\<close> does. The lemmas give the value of every well-formed interval,
  the exact set of accepted intervals, and the round trips of the integer and identifier forms.
\<close>

section \<open>Definitions\<close>

datatype scalar_error =
    NotInterval string string
  | BadNumber string num_error
  | NoAsterisk string

definition is_digit :: "char \<Rightarrow> bool" where
  "is_digit c \<longleftrightarrow> (let n = (of_char c :: nat) in 48 \<le> n \<and> n \<le> 57)"

text \<open>The units of an interval, in nanoseconds.\<close>

definition durUnit :: "string \<Rightarrow> int" where
  "durUnit u =
     (if u = ''ms'' then 1000000
      else if u = ''s'' then 1000000000
      else if u = ''m'' then 60 * 1000000000
      else if u = ''h'' then 3600 * 1000000000
      else if u = ''d'' then 24 * 3600 * 1000000000
      else if u = ''w'' then 7 * 24 * 3600 * 1000000000
      else 0)"

text \<open>
  \<^verbatim>\<open>durTerm = ^(\d+)(ms|w|d|h|m|s)\<close>: the longest run of digits, then the first alternative
  that matches, \<^verbatim>\<open>ms\<close> being tried before \<^verbatim>\<open>m\<close>.
\<close>

definition durSuffix :: "string \<Rightarrow> (string \<times> string) option" where
  "durSuffix r =
     (if HasPrefix r ''ms'' then Some (''ms'', drop 2 r)
      else (case r of
              [] \<Rightarrow> None
            | c # cs \<Rightarrow> if c \<in> set ''wdhms'' then Some ([c], cs) else None))"

definition durTerm :: "string \<Rightarrow> (string \<times> string \<times> string) option" where
  "durTerm s =
     (let ds = takeWhile is_digit s; r = dropWhile is_digit s
      in if ds = [] then None
         else map_option (\<lambda>(u, r'). (ds, u, r')) (durSuffix r))"

lemma durSuffix_shorter: "durSuffix r = Some (u, r') \<Longrightarrow> length r' < length r"
  by (auto simp: durSuffix_def split: if_splits list.splits dest!: HasPrefixD)

lemma durTerm_shorter: "durTerm s = Some (ds, u, r) \<Longrightarrow> length r < length s"
proof -
  assume "durTerm s = Some (ds, u, r)"
  then have "durSuffix (dropWhile is_digit s) = Some (u, r)"
    by (auto simp: durTerm_def Let_def split: if_splits)
  then have "length r < length (dropWhile is_digit s)" by (rule durSuffix_shorter)
  then show ?thesis using length_dropWhile_le [of is_digit s] by simp
qed

function durationLoop :: "string \<Rightarrow> string \<Rightarrow> int \<Rightarrow> scalar_error + int" where
  "durationLoop s rest tot =
     (if rest = [] then Inr tot
      else (case durTerm rest of
              None \<Rightarrow> Inl (NotInterval s rest)
            | Some (ds, u, rest') \<Rightarrow>
                (case ParseInt ds 10 of
                   Inl e \<Rightarrow> Inl (BadNumber s e)
                 | Inr n \<Rightarrow> durationLoop s rest' (wrap64 (tot + wrap64 (n * durUnit u))))))"
  by pat_completeness auto
termination
  by (relation "measure (\<lambda>(s, rest, tot). length rest)") (auto dest: durTerm_shorter)

declare durationLoop.simps [simp del]

definition Duration :: "string \<Rightarrow> scalar_error + int" where
  "Duration s = (if s = [] then Inr 0 else durationLoop s s 0)"

text \<open>
  \<^verbatim>\<open>strings.EqualFold\<close> against a lower-case ASCII word. Beside the ASCII letters two runes
  fold onto ASCII: U+017F (bytes C5 BF) onto s and U+212A (bytes E2 84 AA) onto k.
\<close>

definition lower :: "char \<Rightarrow> char" where
  "lower c = (let n = (of_char c :: nat) in if 65 \<le> n \<and> n \<le> 90 then char_of (n + 32) else c)"

fun foldRunes :: "string \<Rightarrow> string" where
  "foldRunes [] = []"
| "foldRunes (c # cs) =
     (if c = CHR 0xC5 \<and> take 1 cs = [CHR 0xBF] then CHR ''s'' # foldRunes (drop 1 cs)
      else if c = CHR 0xE2 \<and> take 2 cs = [CHR 0x84, CHR 0xAA] then CHR ''k'' # foldRunes (drop 2 cs)
      else lower c # foldRunes cs)"

definition EqualFold :: "string \<Rightarrow> string \<Rightarrow> bool" where
  "EqualFold v word \<longleftrightarrow> foldRunes v = word"

definition Bool :: "string \<Rightarrow> bool" where
  "Bool v = (if v = [] then True else EqualFold v ''true'' \<or> EqualFold v ''yes'')"

definition split :: "string \<Rightarrow> string \<times> nat" where
  "split s =
     (let neg = HasPrefix s ''-'';
          body = TrimPrefix s ''-'';
          hex = 2 < length body \<and> hd body = CHR ''0''
                \<and> (body ! 1 = CHR ''x'' \<or> body ! 1 = CHR ''X'');
          (body', base) = (if hex then (drop 2 body, 16) else (body, 10))
      in (if neg then CHR ''-'' # body' else body', base))"

definition Int_scalar :: "string \<Rightarrow> scalar_error + int" where
  "Int_scalar s =
     (if s = [] then Inr 0
      else let (digits, base) = split s
           in case ParseInt digits base of Inl e \<Rightarrow> Inl (BadNumber s e) | Inr n \<Rightarrow> Inr n)"

definition Uint :: "string \<Rightarrow> scalar_error + nat" where
  "Uint s =
     (if s = [] then Inr 0
      else let (digits, base) = split s
           in case ParseUint digits base 64 of Inl e \<Rightarrow> Inl (BadNumber s e) | Inr n \<Rightarrow> Inr n)"

definition IsID :: "string \<Rightarrow> bool" where
  "IsID s =
     (if \<not> HasPrefix s ''*'' \<or> length s < 2 then False
      else case ParseUint (drop 1 s) 16 32 of Inl e \<Rightarrow> False | Inr n \<Rightarrow> True)"

definition ID :: "string \<Rightarrow> scalar_error + nat" where
  "ID s =
     (if \<not> HasPrefix s ''*'' then Inl (NoAsterisk s)
      else case ParseUint (drop 1 s) 16 32 of Inl e \<Rightarrow> Inl (BadNumber s e) | Inr n \<Rightarrow> Inr n)"

text \<open>
  \<^verbatim>\<open>strconv.ParseFloat\<close> rounds decimals to binary64; it is the parameter \<open>parseFloat\<close> here.
\<close>

definition Float :: "(string \<Rightarrow> num_error + 'f) \<Rightarrow> 'f \<Rightarrow> string \<Rightarrow> scalar_error + 'f" where
  "Float parseFloat zero s =
     (if s = [] then Inr zero
      else case parseFloat s of Inl e \<Rightarrow> Inl (BadNumber s e) | Inr f \<Rightarrow> Inr f)"

section \<open>Intervals\<close>

abbreviation dur_units :: "string set" where
  "dur_units \<equiv> {''ms'', ''w'', ''d'', ''h'', ''m'', ''s''}"

text \<open>A well-formed interval is a sequence of terms, digits and a unit each.\<close>

definition term_ok :: "string \<times> string \<Rightarrow> bool" where
  "term_ok t \<longleftrightarrow> fst t \<noteq> [] \<and> list_all is_digit (fst t) \<and> snd t \<in> dur_units"

definition render :: "(string \<times> string) list \<Rightarrow> string" where
  "render ts = concat (map (\<lambda>(ds, u). ds @ u) ts)"

definition decimal :: "string \<Rightarrow> nat" where
  "decimal ds = fold (\<lambda>c acc. acc * 10 + (of_char c - 48)) ds 0"

definition total_of :: "(string \<times> string) list \<Rightarrow> int" where
  "total_of ts = (\<Sum>(ds, u) \<leftarrow> ts. int (decimal ds) * durUnit u)"

lemma unit_not_digit: "u \<in> dur_units \<Longrightarrow> u \<noteq> [] \<and> \<not> is_digit (hd u)"
  by (elim insertE emptyE) (simp_all add: is_digit_def)

lemma durSuffix_unit:
  assumes "u \<in> dur_units" and "r = [] \<or> is_digit (hd r)"
  shows "durSuffix (u @ r) = Some (u, r)"
proof -
  have "hd r \<noteq> CHR ''s''" if "r \<noteq> []" using assms(2) that by (auto simp: is_digit_def)
  then have "\<not> HasPrefix (CHR ''m'' # r) ''ms''" by (cases r) (auto simp: HasPrefix_def)
  then show ?thesis using assms(1) by (elim insertE emptyE) (simp_all add: durSuffix_def HasPrefix_def)
qed

lemma durTerm_term:
  assumes "term_ok (ds, u)" and "r = [] \<or> is_digit (hd r)"
  shows "durTerm (ds @ u @ r) = Some (ds, u, r)"
proof -
  obtain c cs where c: "u = c # cs" "\<not> is_digit c"
    using assms(1) unit_not_digit [of u] by (cases u) (auto simp: term_ok_def)
  have all: "\<And>x. x \<in> set ds \<Longrightarrow> is_digit x"
    using assms(1) by (auto simp: term_ok_def list_all_iff)
  have "takeWhile is_digit (ds @ u @ r) = ds" and "dropWhile is_digit (ds @ u @ r) = u @ r"
    using all c by (simp_all add: takeWhile_append2 dropWhile_append2)
  then show ?thesis
    using assms durSuffix_unit [of u r] by (simp add: durTerm_def term_ok_def)
qed

lemma durSuffix_sound: "durSuffix r = Some (u, r') \<Longrightarrow> r = u @ r' \<and> u \<in> dur_units"
  by (auto simp: durSuffix_def split: if_splits list.splits dest: HasPrefixD)

lemma durTerm_sound:
  assumes "durTerm s = Some (ds, u, r)"
  shows "s = ds @ u @ r \<and> term_ok (ds, u)"
proof -
  have ds: "ds = takeWhile is_digit s" "ds \<noteq> []"
    and "durSuffix (dropWhile is_digit s) = Some (u, r)"
    using assms by (auto simp: durTerm_def Let_def split: if_splits)
  then have "dropWhile is_digit s = u @ r" and u: "u \<in> dur_units"
    using durSuffix_sound by blast+
  then have "s = ds @ u @ r" using ds by (metis takeWhile_dropWhile_id)
  moreover have "list_all is_digit ds" using ds by (auto simp: list_all_iff dest: set_takeWhileD)
  ultimately show ?thesis using ds u by (simp add: term_ok_def)
qed

lemma digit_val_digit: "is_digit c \<Longrightarrow> digit_val c = Some (of_char c - 48) \<and> of_char c - 48 < (10 :: nat)"
  by (auto simp: is_digit_def digit_val_def Let_def)

lemma fold_digits_mono: "(a :: nat) \<le> fold (\<lambda>c a. a * 10 + (of_char c - 48)) ds a"
proof (induction ds arbitrary: a)
  case (Cons c ds)
  have "a \<le> a * 10 + (of_char c - 48)" by simp
  also have "\<dots> \<le> fold (\<lambda>c a. a * 10 + (of_char c - 48)) ds (a * 10 + (of_char c - 48))"
    by (rule Cons)
  finally show ?case by simp
qed simp

lemma parse_digits_decimal:
  assumes "list_all is_digit ds"
  shows "parse_digits 10 mx acc ds =
    (let v = fold (\<lambda>c a. a * 10 + (of_char c - 48)) ds acc in if mx < v \<and> ds \<noteq> [] then Inl ErrRange else Inr v)"
  using assms
proof (induction ds arbitrary: acc)
  case (Cons c ds)
  let ?n = "acc * 10 + (of_char c - 48) :: nat"
  note grow = fold_digits_mono
  show ?case
    using Cons digit_val_digit [of c] grow [of ?n ds] by (auto simp: Let_def not_le)
qed simp

lemma ParseUint_decimal:
  assumes "list_all is_digit ds" and "ds \<noteq> []"
  shows "ParseUint ds 10 bits = (if decimal ds < 2 ^ bits then Inr (decimal ds) else Inl ErrRange)"
proof -
  have "2 ^ bits - 1 < v \<longleftrightarrow> \<not> v < 2 ^ bits" for v :: nat
    by (metis Suc_pred' linorder_not_less not_less_eq zero_less_numeral zero_less_power)
  then show ?thesis
    using assms by (simp add: ParseUint_def parse_digits_decimal decimal_def Let_def)
qed

lemma ParseInt_decimal:
  assumes "list_all is_digit ds" and "ds \<noteq> []"
  shows "ParseInt ds 10 = (if decimal ds < 2 ^ 63 then Inr (int (decimal ds)) else Inl ErrRange)"
proof -
  have "is_digit (hd ds)" using assms by (cases ds) auto
  then have "hd ds \<noteq> CHR ''-''" and "hd ds \<noteq> CHR ''+''" by (auto simp: is_digit_def)
  then show ?thesis
    using assms by (simp add: ParseInt_def ParseUint_decimal)
qed

lemma wrap64_add: "wrap64 (wrap64 x + y) = wrap64 (x + y)"
  unfolding wrap64_def by (simp add: mod_simps algebra_simps)

lemma wrap64_step: "wrap64 (wrap64 x + wrap64 y) = wrap64 (x + y)"
  by (metis wrap64_add add.commute)

lemma render_hd: "list_all term_ok ts \<Longrightarrow> render ts = [] \<or> is_digit (hd (render ts))"
  by (cases ts) (auto simp: render_def term_ok_def hd_append list_all_iff)

lemma durationLoop_render:
  assumes "list_all term_ok ts" and "\<forall>t \<in> set ts. decimal (fst t) < 2 ^ 63"
  shows "durationLoop s (render ts) (wrap64 acc) = Inr (wrap64 (acc + total_of ts))"
  using assms
proof (induction ts arbitrary: acc)
  case Nil
  then show ?case by (simp add: render_def total_of_def durationLoop.simps)
next
  case (Cons t ts)
  obtain ds u where t: "t = (ds, u)" by (cases t)
  have ok: "term_ok (ds, u)" and ne: "render (t # ts) \<noteq> []"
    using Cons.prems t by (auto simp: render_def term_ok_def)
  have split: "render (t # ts) = ds @ u @ render ts" by (simp add: render_def t)
  have "durTerm (render (t # ts)) = Some (ds, u, render ts)"
    unfolding split using ok render_hd [of ts] Cons.prems by (intro durTerm_term) auto
  moreover have "ParseInt ds 10 = Inr (int (decimal ds))"
    using ok Cons.prems t by (auto simp: term_ok_def ParseInt_decimal)
  ultimately have "durationLoop s (render (t # ts)) (wrap64 acc) =
      durationLoop s (render ts) (wrap64 (acc + int (decimal ds) * durUnit u))"
    using ne by (simp add: durationLoop.simps [of s "render (t # ts)"] wrap64_step)
  then show ?case using Cons by (simp add: total_of_def t add.assoc)
qed

lemma durationLoop_inv:
  "durationLoop s rest tot = Inr d \<Longrightarrow>
     \<exists>ts. rest = render ts \<and> list_all term_ok ts \<and> (\<forall>t \<in> set ts. decimal (fst t) < 2 ^ 63)"
proof (induction s rest tot rule: durationLoop.induct)
  case (1 s rest tot)
  show ?case
  proof (cases "rest = []")
    case True
    then show ?thesis by (intro exI [of _ "[]"]) (simp add: render_def)
  next
    case False
    with "1.prems" obtain ds u r n where t: "durTerm rest = Some (ds, u, r)"
      and n: "ParseInt ds 10 = Inr n"
      and loop: "durationLoop s r (wrap64 (tot + wrap64 (n * durUnit u))) = Inr d"
      by (auto simp: durationLoop.simps [of s rest] split: option.splits sum.splits)
    from t have eq: "rest = ds @ u @ r" and ok: "term_ok (ds, u)" using durTerm_sound by blast+
    obtain ts where ts: "r = render ts" "list_all term_ok ts" "\<forall>t \<in> set ts. decimal (fst t) < 2 ^ 63"
      using "1.IH" [OF False t refl refl n loop] by blast
    have "decimal ds < 2 ^ 63"
      using n ok ParseInt_decimal [of ds] by (auto simp: term_ok_def split: if_splits)
    then show ?thesis
      using eq ok ts by (intro exI [of _ "(ds, u) # ts"]) (simp add: render_def)
  qed
qed

lemma Duration_render:
  assumes "list_all term_ok ts" and "\<forall>t \<in> set ts. decimal (fst t) < 2 ^ 63"
  shows "Duration (render ts) = Inr (wrap64 (total_of ts))"
proof (cases "render ts = []")
  case True
  then have "ts = []" using assms by (cases ts) (auto simp: render_def term_ok_def)
  then show ?thesis by (simp add: Duration_def render_def total_of_def wrap64_bounds)
next
  case False
  have "wrap64 0 = 0" by (simp add: wrap64_bounds)
  then show ?thesis
    using False durationLoop_render [OF assms, of "render ts" 0] by (simp add: Duration_def)
qed

definition interval :: "(string \<times> string) list \<Rightarrow> bool" where
  "interval ts \<longleftrightarrow> list_all term_ok ts \<and> (\<forall>t \<in> set ts. decimal (fst t) < 2 ^ 63)"

text \<open>
  \<^verbatim>\<open>scalar.Duration\<close> accepts exactly the concatenations of terms (digits with a value below
  \<open>2^63\<close>, then one of the units ms, w, d, h, m, s), and returns the sum of their values reduced
  to a 64-bit signed count of nanoseconds; every other string is an error. In particular
  \<^verbatim>\<open>530ms\<close> is milliseconds, never minutes, and a sum beyond 292 years wraps without an error.
\<close>

theorem Duration_spec:
  "Duration s = Inr d \<longleftrightarrow> (\<exists>ts. interval ts \<and> s = render ts \<and> d = wrap64 (total_of ts))"
proof
  assume ok: "Duration s = Inr d"
  have "\<exists>ts. s = render ts \<and> interval ts"
  proof (cases "s = []")
    case True
    then show ?thesis by (intro exI [of _ "[]"]) (simp add: render_def interval_def)
  next
    case False
    then show ?thesis using ok durationLoop_inv [of s s 0 d] by (auto simp: Duration_def interval_def)
  qed
  then show "\<exists>ts. interval ts \<and> s = render ts \<and> d = wrap64 (total_of ts)"
    using ok Duration_render by (auto simp: interval_def)
qed (auto simp: interval_def Duration_render)

section \<open>Integers and identifiers\<close>

lemma show_nat_not_hex:
  assumes "2 < length (show_nat n)"
  shows "show_nat n ! 1 \<noteq> CHR ''x'' \<and> show_nat n ! 1 \<noteq> CHR ''X''"
proof -
  have "show_nat n ! 1 \<in> set (show_nat n)" using assms by simp
  then obtain d where "d < 10" and "show_nat n ! 1 = digit_char d"
    using show_base_digits [of 10] by auto
  then have "digit_val (show_nat n ! 1) = Some d" and "d < 10" by simp_all
  then show ?thesis by (auto simp: digit_val_def)
qed

lemma show_nat_no_minus [simp]: "\<not> HasPrefix (show_nat n) ''-''"
  using show_base_hd_not_sign(1) [of 10 n] by (cases "show_nat n") auto

lemma TrimPrefix_none: "\<not> HasPrefix s p \<Longrightarrow> TrimPrefix s p = s"
  by (simp add: TrimPrefix_def)

lemma split_show_nat: "split (show_nat n) = (show_nat n, 10)"
  using show_nat_not_hex [of n] by (auto simp: split_def TrimPrefix_none Let_def)

lemma split_minus_show_nat: "split (CHR ''-'' # show_nat n) = (CHR ''-'' # show_nat n, 10)"
proof -
  have "TrimPrefix (CHR ''-'' # show_nat n) ''-'' = show_nat n"
    using TrimPrefix_append [of "''-''" "show_nat n"] by simp
  then show ?thesis using show_nat_not_hex [of n] by (auto simp: split_def Let_def)
qed

lemma split_FormatInt: "split (FormatInt n) = (FormatInt n, 10)"
  by (simp add: FormatInt_def split_show_nat split_minus_show_nat)

lemma split_hex: "split (CHR ''0'' # CHR ''x'' # show_base 16 n) = (show_base 16 n, 16)"
  by (auto simp: split_def TrimPrefix_def Let_def Suc_lessI)

text \<open>
  \<^verbatim>\<open>scalar.Int\<close> reads back every signed 64-bit integer printed in decimal, and every
  value below \<open>2^63\<close> printed in hexadecimal behind the prefix 0x, to the number itself.
\<close>

theorem Int_roundtrip:
  assumes "in_int64 n" and "m < 2 ^ 63"
  shows "Int_scalar (FormatInt n) = Inr n
    \<and> Int_scalar (CHR ''0'' # CHR ''x'' # show_base 16 m) = Inr (int m)"
proof
  have "FormatInt n \<noteq> []" by (simp add: FormatInt_def)
  then show "Int_scalar (FormatInt n) = Inr n"
    using assms by (simp add: Int_scalar_def split_FormatInt in_int64_def ParseInt_FormatInt)
  have "ParseUint (show_base 16 m) 16 64 = Inr m"
    using assms by (intro ParseUint_show_base) auto
  then have "ParseInt (show_base 16 m) 16 = Inr (int m)"
    using assms show_base_hd_not_sign [of 16 m] by (simp add: ParseInt_def)
  then show "Int_scalar (CHR ''0'' # CHR ''x'' # show_base 16 m) = Inr (int m)"
    by (simp add: Int_scalar_def split_hex)
qed

text \<open>The bridge priority of the comment in the source, and a negative number.\<close>

theorem Int_roundtrip_witness:
  "in_int64 (-5) \<and> (32768 :: nat) < 2 ^ 63 \<and> Int_scalar (FormatInt (-5)) = Inr (-5)
   \<and> Int_scalar (CHR ''0'' # CHR ''x'' # show_base 16 32768) = Inr 32768"
proof -
  have 1: "in_int64 (-5)" by (simp add: in_int64_def)
  have 2: "(32768 :: nat) < 2 ^ 63" by simp
  show ?thesis using 1 2 Int_roundtrip [OF 1 2] by simp
qed

text \<open>
  The two readers of row identifiers agree: \<^verbatim>\<open>scalar.IsID\<close> holds exactly where
  \<^verbatim>\<open>scalar.ID\<close> returns a number; the number is below \<open>2^32\<close>, and every number below
  \<open>2^32\<close> is read back from its hexadecimal form behind an asterisk.
\<close>

theorem ID_spec:
  "(IsID s \<longleftrightarrow> (\<exists>n. ID s = Inr n))
   \<and> (ID s = Inr n \<longrightarrow> n < 2 ^ 32)
   \<and> (n < 2 ^ 32 \<longrightarrow> ID (CHR ''*'' # show_base 16 n) = Inr n)"
proof (intro conjI impI)
  have "s = ''*''" if "HasPrefix s ''*''" "length s < 2"
    using HasPrefixD [OF that(1)] that(2) by auto
  then show "IsID s \<longleftrightarrow> (\<exists>n. ID s = Inr n)"
    by (auto simp: IsID_def ID_def ParseUint_def split: sum.splits)
  show "n < 2 ^ 32" if "ID s = Inr n"
    using that parse_digits_bound [of 0 "2 ^ 32 - 1" 16 "drop 1 s" n]
    by (auto simp: ID_def ParseUint_def split: sum.splits if_splits)
  show "ID (CHR ''*'' # show_base 16 n) = Inr n" if "n < 2 ^ 32"
    using that by (simp add: ID_def ParseUint_show_base)
qed

theorem ID_spec_witness:
  "IsID ''*1A'' \<and> ID ''*1A'' = Inr 26 \<and> (26 :: nat) < 2 ^ 32
   \<and> ID (CHR ''*'' # show_base 16 26) = Inr 26"
proof -
  have v: "ID ''*1A'' = Inr 26" by (simp add: ID_def ParseUint_def digit_val_def)
  then show ?thesis using ID_spec [of "''*1A''" 26] by auto
qed

end
