(* ===== verification/Rest_Record.thy ===== *)
theory Rest_Record
  imports Scalar
begin

text \<open>
  Package \<^verbatim>\<open>rest\<close>, files record.go and query.go: a row as the router returns it, its typed
  accessors, and the body of a filtered listing. A \<^verbatim>\<open>Record\<close> is a finite map from field names
  to values; the three encodings of a boolean (a word, present and empty, absent) are told apart by
  the map. A JSON document is the datatype \<open>json\<close>.
\<close>

section \<open>Rows\<close>

type_synonym Record = "string go_map"

definition IDField :: string where
  "IDField = ''.id''"

definition Record_ID :: "Record \<Rightarrow> string" where
  "Record_ID r = map_get r IDField"

definition Has :: "Record \<Rightarrow> string \<Rightarrow> bool" where
  "Has r key \<longleftrightarrow> fmlookup r key \<noteq> None"

definition Record_String :: "Record \<Rightarrow> string \<Rightarrow> string" where
  "Record_String r key = map_get r key"

definition Record_Bool :: "Record \<Rightarrow> string \<Rightarrow> bool" where
  "Record_Bool r key = (case fmlookup r key of None \<Rightarrow> False | Some v \<Rightarrow> Bool v)"

definition Record_Duration :: "Record \<Rightarrow> string \<Rightarrow> int" where
  "Record_Duration r key = (case Duration (map_get r key) of Inl e \<Rightarrow> 0 | Inr d \<Rightarrow> d)"

definition Record_Int :: "Record \<Rightarrow> string \<Rightarrow> int" where
  "Record_Int r key = (case Int_scalar (map_get r key) of Inl e \<Rightarrow> 0 | Inr n \<Rightarrow> n)"

definition Record_Uint :: "Record \<Rightarrow> string \<Rightarrow> nat" where
  "Record_Uint r key = (case Uint (map_get r key) of Inl e \<Rightarrow> 0 | Inr n \<Rightarrow> n)"

definition FloatOK :: "(string \<Rightarrow> num_error + 'f) \<Rightarrow> 'f \<Rightarrow> Record \<Rightarrow> string \<Rightarrow> 'f \<times> bool" where
  "FloatOK parseFloat zero r key =
     (case fmlookup r key of
        None \<Rightarrow> (zero, False)
      | Some v \<Rightarrow>
          if v = [] then (zero, False)
          else (case Float parseFloat zero v of Inl e \<Rightarrow> (zero, False) | Inr f \<Rightarrow> (f, True)))"

definition Record_Float :: "(string \<Rightarrow> num_error + 'f) \<Rightarrow> 'f \<Rightarrow> Record \<Rightarrow> string \<Rightarrow> 'f" where
  "Record_Float parseFloat zero r key = fst (FloatOK parseFloat zero r key)"

text \<open>
  \<^verbatim>\<open>Record.FloatOK\<close> reports a reading exactly when the key is present with a non-empty
  value that parses, so an absent key, an empty value and a word such as no-input are never
  published as a measurement, and a reading of zero is.
\<close>

theorem FloatOK_iff_reading:
  "FloatOK pf zero r key = (f, True) \<longleftrightarrow>
     (\<exists>v. fmlookup r key = Some v \<and> v \<noteq> [] \<and> pf v = Inr f)"
  by (auto simp: FloatOK_def Float_def split: option.splits sum.splits if_splits)

section \<open>JSON documents\<close>

datatype json =
    JNull
  | JBool bool
  | JInt int
  | JNumber string
  | JStr string
  | JArr "json list"
  | JObj "(string \<times> json) list"

definition json_of_record :: "Record \<Rightarrow> json" where
  "json_of_record r = JObj (map (\<lambda>k. (k, JStr (map_get r k))) (sorted_keys r))"

section \<open>Filtered listings\<close>

record query =
  filters :: "string list"
  props :: "string list"
  count :: bool

datatype QueryOpt = Where string string | WhereRaw string | Props "string list"

definition query_empty :: "query \<Rightarrow> bool" where
  "query_empty q \<longleftrightarrow> filters q = [] \<and> props q = [] \<and> \<not> count q"

fun apply_opt :: "QueryOpt \<Rightarrow> query \<Rightarrow> query" where
  "apply_opt (Where field val) q = q\<lparr>filters := filters q @ [field @ ''='' @ val]\<rparr>"
| "apply_opt (WhereRaw t) q = q\<lparr>filters := filters q @ [t]\<rparr>"
| "apply_opt (Props names) q = q\<lparr>props := props q @ names\<rparr>"

definition newQuery :: "QueryOpt list \<Rightarrow> query" where
  "newQuery opts = fold apply_opt opts \<lparr>filters = [], props = [], count = False\<rparr>"

definition withID :: "string list \<Rightarrow> string list" where
  "withID ps = (if IDField \<in> set ps then ps else IDField # ps)"

definition query_body :: "query \<Rightarrow> json" where
  "query_body q = JObj (
     (if filters q \<noteq> [] then [(''.query'', JArr (map JStr (filters q)))] else [])
     @ (if props q \<noteq> [] then [(''.proplist'', JArr (map JStr (withID (props q))))] else [])
     @ (if count q then [(''count-only'', JStr [])] else []))"

lemma withID_has [simp]: "IDField \<in> set (withID ps)"
  by (simp add: withID_def)

section \<open>Query strings\<close>

definition unreserved :: "char \<Rightarrow> bool" where
  "unreserved c \<longleftrightarrow> (let n = (of_char c :: nat) in
     (48 \<le> n \<and> n \<le> 57) \<or> (65 \<le> n \<and> n \<le> 90) \<or> (97 \<le> n \<and> n \<le> 122) \<or> c \<in> set ''-_.~'')"

definition upperHex :: "nat \<Rightarrow> char" where
  "upperHex d = char_of (if d < 10 then 48 + d else 55 + d)"

text \<open>\<^verbatim>\<open>url.QueryEscape\<close>, byte by byte.\<close>

definition escapeByte :: "char \<Rightarrow> string" where
  "escapeByte c =
     (if unreserved c then [c]
      else if c = CHR '' '' then ''+''
      else [CHR ''%'', upperHex (of_char c div 16), upperHex (of_char c mod 16)])"

definition QueryEscape :: "string \<Rightarrow> string" where
  "QueryEscape v = concat (map escapeByte v)"

definition ReplacePlus :: "string \<Rightarrow> string" where
  "ReplacePlus s = concat (map (\<lambda>c. if c = CHR ''+'' then ''%20'' else [c]) s)"

definition escapeQuery :: "string \<Rightarrow> string" where
  "escapeQuery v = ReplacePlus (QueryEscape v)"

text \<open>Percent-decoding as RFC 3986 has it, the reading the router applies.\<close>

fun percentDecode :: "string \<Rightarrow> string option" where
  "percentDecode [] = Some []"
| "percentDecode (c # cs) =
     (if c = CHR ''%'' then
        (case cs of
           a # b # ds \<Rightarrow>
             (case (digit_val a, digit_val b) of
                (Some x, Some y) \<Rightarrow>
                  if x < 16 \<and> y < 16 then map_option ((#) (char_of (x * 16 + y))) (percentDecode ds)
                  else None
              | _ \<Rightarrow> None)
         | _ \<Rightarrow> None)
      else map_option ((#) c) (percentDecode cs))"

lemma digit_val_upperHex [simp]: "d < 16 \<Longrightarrow> digit_val (upperHex d) = Some d"
  by (auto simp: digit_val_def upperHex_def Let_def of_char_of)

lemma upperHex_unreserved: "d < 16 \<Longrightarrow> unreserved (upperHex d)"
  by (auto simp: unreserved_def upperHex_def Let_def of_char_of)

lemma escapeByte_decode:
  "percentDecode (ReplacePlus (escapeByte c) @ s) = map_option ((#) c) (percentDecode s)"
proof -
  have nib: "of_char c div 16 < (16 :: nat)" "of_char c mod 16 < (16 :: nat)"
    using nat_of_char_less_256 [of c] by (auto simp: less_mult_imp_div_less)
  have plus: "upperHex d \<noteq> CHR ''+''" if "d < 16" for d
    using digit_val_upperHex [OF that] by (auto simp: digit_val_def)
  have c: "char_of (of_char c div 16 * 16 + of_char c mod 16 :: nat) = c" by simp
  consider "unreserved c" | "\<not> unreserved c" "c = CHR '' ''" | "\<not> unreserved c" "c \<noteq> CHR '' ''"
    by blast
  then show ?thesis
  proof cases
    case 1
    then have "c \<noteq> CHR ''+''" and "c \<noteq> CHR ''%''" by (auto simp: unreserved_def)
    with 1 show ?thesis by (simp add: escapeByte_def ReplacePlus_def)
  next
    case 2
    moreover have "char_of (32 :: nat) = CHR '' ''" by code_simp
    ultimately show ?thesis
      by (simp add: escapeByte_def ReplacePlus_def digit_val_def)
  next
    case 3
    then have "percentDecode (ReplacePlus (escapeByte c) @ s) =
        map_option ((#) (char_of (of_char c div 16 * 16 + of_char c mod 16 :: nat))) (percentDecode s)"
      using nib plus by (simp add: escapeByte_def ReplacePlus_def del: div_mult_mod_eq)
    then show ?thesis unfolding c .
  qed
qed

lemma ReplacePlus_append: "ReplacePlus (a @ b) = ReplacePlus a @ ReplacePlus b"
  by (simp add: ReplacePlus_def)

lemma escapeByte_alphabet: "x \<in> set (ReplacePlus (escapeByte c)) \<Longrightarrow> unreserved x \<or> x = CHR ''%''"
proof -
  assume x: "x \<in> set (ReplacePlus (escapeByte c))"
  have nib: "of_char c div 16 < (16 :: nat)" "of_char c mod 16 < (16 :: nat)"
    using nat_of_char_less_256 [of c] by (auto simp: less_mult_imp_div_less)
  have two: "unreserved (CHR ''2'')" "unreserved (CHR ''0'')" by (simp_all add: unreserved_def)
  show ?thesis
    using x nib [THEN upperHex_unreserved] two
    by (auto simp: escapeByte_def ReplacePlus_def split: if_splits)
qed

lemma percentDecode_escapeQuery: "percentDecode (escapeQuery v) = Some v"
  by (induction v)
    (simp_all add: escapeQuery_def QueryEscape_def ReplacePlus_append escapeByte_decode, simp add: ReplacePlus_def)

text \<open>
  \<^verbatim>\<open>escapeQuery\<close> produces strict RFC 3986 text: percent-decoding it gives back the value
  for every byte string, and its alphabet is the unreserved characters and the percent sign, so
  no separator of a query string and no plus sign survives.
\<close>

theorem escapeQuery_roundtrip:
  "percentDecode (escapeQuery v) = Some v
   \<and> set (escapeQuery v) \<subseteq> {c. unreserved c} \<union> {CHR ''%''}"
proof
  show "percentDecode (escapeQuery v) = Some v" by (rule percentDecode_escapeQuery)
  show "set (escapeQuery v) \<subseteq> {c. unreserved c} \<union> {CHR ''%''}"
  proof (induction v)
    case (Cons c v)
    then show ?case
      using escapeByte_alphabet [of _ c]
      by (auto simp: escapeQuery_def QueryEscape_def ReplacePlus_append)
  qed (simp add: escapeQuery_def QueryEscape_def ReplacePlus_def)
qed

end
