(* ===== verification/Menu_Plan.thy ===== *)
theory Menu_Plan
  imports Rest_Record "HOL-Library.Sublist"
begin

text \<open>
  Package \<^verbatim>\<open>rest\<close>, file menu.go, the part without I/O: what it takes to make a menu match a
  list of desired rows. \<open>plan\<close> is a pure function of the specification, the desired rows and one
  reading of the device, as in the source. The lemmas say which device row every desired row
  resolves to, that no step of a plan names an ignored row, which rows a prune deletes, and that an
  empty plan means the menu already matches.
\<close>

section \<open>Definitions\<close>

definition UnlistedTolerate :: string where
  "UnlistedTolerate = ''tolerate''"

definition UnlistedPrune :: string where
  "UnlistedPrune = ''prune''"

record MenuSpec =
  Path :: string
  Ordered :: bool
  Unlisted :: string
  Key :: string
  Ignore :: "Record list"

datatype Op = OpCreate | OpUpdate | OpDelete | OpMove | OpOther string

fun op_string :: "Op \<Rightarrow> string" where
  "op_string OpCreate = ''create''"
| "op_string OpUpdate = ''update''"
| "op_string OpDelete = ''delete''"
| "op_string OpMove = ''move''"
| "op_string (OpOther s) = s"

record Step =
  stOp :: Op
  stID :: string
  stRow :: Record
  stOrder :: "string list"
  stBefore :: string
  stWhy :: string

record Plan =
  Steps :: "Step list"
  Matched :: "(nat, string) fmap"

definition emptyPlan :: Plan where
  "emptyPlan = \<lparr>Steps = [], Matched = fmempty\<rparr>"

definition Plan_Empty :: "Plan \<Rightarrow> bool" where
  "Plan_Empty p \<longleftrightarrow> Steps p = []"

definition Counts :: "Plan \<Rightarrow> Op \<Rightarrow> nat" where
  "Counts p o' = length (filter (\<lambda>s. stOp s = o') (Steps p))"

datatype plan_error =
    ErrNoUnlistedPolicy
  | ErrEmptyIgnoreSelector
  | AmbiguousError string nat Record "string list"

fun byID :: "Record list \<Rightarrow> string \<Rightarrow> Record" where
  "byID [] rid = fmempty"
| "byID (r # rows) rid = (if Record_ID r = rid then r else byID rows rid)"

definition selects :: "Record \<Rightarrow> Record \<Rightarrow> bool" where
  "selects selector row \<longleftrightarrow> fmpred (\<lambda>k v. fmlookup row k = Some v) selector"

definition ignored :: "MenuSpec \<Rightarrow> Record \<Rightarrow> bool" where
  "ignored spec row \<longleftrightarrow> list_ex (\<lambda>selector. selects selector row) (Ignore spec)"

definition subset_rec :: "Record \<Rightarrow> Record \<Rightarrow> bool" where
  "subset_rec want row \<longleftrightarrow> fmpred (\<lambda>k v. k = IDField \<or> fmlookup row k = Some v) want"

definition changes :: "Record \<Rightarrow> Record \<Rightarrow> Record" where
  "changes want row = fmfilter (\<lambda>k. k \<noteq> IDField \<and> fmlookup row k \<noteq> fmlookup want k) want"

definition same_but_id :: "Record \<Rightarrow> Record \<Rightarrow> bool" where
  "same_but_id first other \<longleftrightarrow>
     fmpred (\<lambda>k v. k = IDField \<or> fmlookup other k = Some v) first \<and>
     fmpred (\<lambda>k v. k = IDField \<or> fmlookup first k \<noteq> None) other"

definition indistinguishable :: "Record list \<Rightarrow> string list \<Rightarrow> bool" where
  "indistinguishable current ids \<longleftrightarrow>
     list_all (\<lambda>rid. same_but_id (byID current (hd ids)) (byID current rid)) (tl ids)"

fun candidates :: "MenuSpec \<Rightarrow> Record \<Rightarrow> Record list \<Rightarrow> string set \<Rightarrow> string list" where
  "candidates spec want [] claimed = []"
| "candidates spec want (row # rows) claimed =
     (let rid = Record_ID row in
      if rid = [] \<or> rid \<in> claimed \<or> ignored spec row then candidates spec want rows claimed
      else if Key spec \<noteq> [] then
        (case fmlookup want (Key spec) of
           None \<Rightarrow> candidates spec want rows claimed
         | Some v \<Rightarrow>
             if fmlookup row (Key spec) = Some v then [rid] else candidates spec want rows claimed)
      else if subset_rec want row then rid # candidates spec want rows claimed
      else candidates spec want rows claimed)"

text \<open>The first loop of \<^verbatim>\<open>plan\<close>: every desired row is resolved before any step is emitted.\<close>

fun resolve ::
  "MenuSpec \<Rightarrow> Record list \<Rightarrow> nat \<Rightarrow> Record list \<Rightarrow> string set \<Rightarrow> (nat, string) fmap
   \<Rightarrow> plan_error + (string set \<times> (nat, string) fmap)" where
  "resolve spec current i [] claimed matched = Inr (claimed, matched)"
| "resolve spec current i (want # desired) claimed matched =
     (let ids = candidates spec want current claimed in
      if 1 < length ids \<and> \<not> indistinguishable current ids
      then Inl (AmbiguousError (Path spec) i want ids)
      else (case ids of
              [] \<Rightarrow> resolve spec current (Suc i) desired claimed matched
            | rid # _ \<Rightarrow>
                resolve spec current (Suc i) desired (insert rid claimed) (fmupd i rid matched)))"

text \<open>The second loop: creates and updates in desired order.\<close>

definition createStep :: "Record \<Rightarrow> Step" where
  "createStep want = \<lparr>stOp = OpCreate, stID = [], stRow = want, stOrder = [], stBefore = [],
     stWhy = ''no device row matches''\<rparr>"

definition updateStep :: "string \<Rightarrow> Record \<Rightarrow> Step" where
  "updateStep rid diff = \<lparr>stOp = OpUpdate, stID = rid, stRow = diff, stOrder = [], stBefore = [],
     stWhy = ''differs in '' @ Join (sorted_keys diff) '', ''\<rparr>"

fun edits :: "MenuSpec \<Rightarrow> Record list \<Rightarrow> (nat, string) fmap \<Rightarrow> nat \<Rightarrow> Record list \<Rightarrow> Step list" where
  "edits spec current matched i [] = []"
| "edits spec current matched i (want # desired) =
     (case fmlookup matched i of
        None \<Rightarrow> createStep want # edits spec current matched (Suc i) desired
      | Some rid \<Rightarrow>
          if Key spec = [] then edits spec current matched (Suc i) desired
          else let diff = changes want (byID current rid) in
            if diff \<noteq> fmempty
            then updateStep rid diff # edits spec current matched (Suc i) desired
            else edits spec current matched (Suc i) desired)"

definition deleteStep :: "Record \<Rightarrow> Step" where
  "deleteStep row = \<lparr>stOp = OpDelete, stID = Record_ID row, stRow = row, stOrder = [], stBefore = [],
     stWhy = ''not in the spec, and policy is prune''\<rparr>"

definition deletes :: "MenuSpec \<Rightarrow> Record list \<Rightarrow> string set \<Rightarrow> Step list" where
  "deletes spec current claimed =
     map deleteStep (filter (\<lambda>row. Record_ID row \<noteq> [] \<and> Record_ID row \<notin> claimed \<and> \<not> ignored spec row)
       current)"

definition moveStep :: "string list \<Rightarrow> string \<Rightarrow> string \<Rightarrow> Step" where
  "moveStep ids before why = \<lparr>stOp = OpMove, stID = [], stRow = fmempty, stOrder = ids,
     stBefore = before, stWhy = why\<rparr>"

definition anchored :: "string list \<Rightarrow> Step list" where
  "anchored want =
     map (\<lambda>i. moveStep [want ! i] (want ! Suc i)
            ''unmanaged rows are tolerated here, so only the managed order is corrected'')
       (rev [0 ..< length want - 1])"

definition wanted :: "Record list \<Rightarrow> (nat, string) fmap \<Rightarrow> string list" where
  "wanted desired matched = List.map_filter (fmlookup matched) [0 ..< length desired]"

definition reorder ::
  "MenuSpec \<Rightarrow> Record list \<Rightarrow> Record list \<Rightarrow> (nat, string) fmap \<Rightarrow> string set \<Rightarrow> Step list" where
  "reorder spec desired current matched claimed =
     (let want = wanted desired matched;
          have = filter (\<lambda>rid. rid \<in> claimed) (map Record_ID current)
      in if length want < 2 then []
         else if want = have then []
         else if length have = length current
           then [moveStep want [] ''the resource owns every row, so one move sorts the menu'']
         else anchored want)"

definition plan :: "MenuSpec \<Rightarrow> Record list \<Rightarrow> Record list \<Rightarrow> plan_error + Plan" where
  "plan spec desired current =
     (if Unlisted spec \<noteq> UnlistedTolerate \<and> Unlisted spec \<noteq> UnlistedPrune
      then Inl ErrNoUnlistedPolicy
      else if list_ex (\<lambda>selector. selector = fmempty) (Ignore spec) then Inl ErrEmptyIgnoreSelector
      else (case resolve spec current 0 desired {} fmempty of
              Inl e \<Rightarrow> Inl e
            | Inr (claimed, matched) \<Rightarrow>
                Inr \<lparr>Steps =
                       edits spec current matched 0 desired
                       @ (if Unlisted spec = UnlistedPrune then deletes spec current claimed else [])
                       @ (if Ordered spec then reorder spec desired current matched claimed else []),
                     Matched = matched\<rparr>))"

section \<open>Rows and selectors\<close>

lemma subset_rec_iff:
  "subset_rec want row \<longleftrightarrow> (\<forall>k v. fmlookup want k = Some v \<longrightarrow> k \<noteq> IDField \<longrightarrow> fmlookup row k = Some v)"
  by (auto simp: subset_rec_def fmpred_iff)

lemma changes_empty_iff: "changes want row = fmempty \<longleftrightarrow> subset_rec want row"
proof -
  have "changes want row = fmempty \<longleftrightarrow>
      fmpred (\<lambda>k v. \<not> (k \<noteq> IDField \<and> fmlookup row k \<noteq> fmlookup want k)) want"
    unfolding changes_def by (rule fmpred_empty_filter)
  also have "\<dots> \<longleftrightarrow> subset_rec want row" by (auto simp: subset_rec_iff fmpred_iff)
  finally show ?thesis .
qed

lemma subset_rec_update: "subset_rec want (row ++\<^sub>f changes want row)"
  by (auto simp: subset_rec_iff changes_def fmdom'_filter split: option.splits)

lemma byID_in: "i \<in> Record_ID ` set rows \<Longrightarrow> byID rows i \<in> set rows \<and> Record_ID (byID rows i) = i"
  by (induction rows) auto

lemma byID_distinct: "distinct (map Record_ID rows) \<Longrightarrow> r \<in> set rows \<Longrightarrow> byID rows (Record_ID r) = r"
  by (induction rows) auto

text \<open>A row a plan may look at: it has an id and no selector covers it.\<close>

definition live :: "MenuSpec \<Rightarrow> Record \<Rightarrow> bool" where
  "live spec row \<longleftrightarrow> Record_ID row \<noteq> [] \<and> \<not> ignored spec row"

definition matches :: "MenuSpec \<Rightarrow> Record \<Rightarrow> Record \<Rightarrow> bool" where
  "matches spec want row \<longleftrightarrow>
     (if Key spec = [] then subset_rec want row
      else \<exists>v. fmlookup want (Key spec) = Some v \<and> fmlookup row (Key spec) = Some v)"

text \<open>The loop of \<^verbatim>\<open>candidates\<close> is a filter, cut after its first hit when there is a key.\<close>

lemma candidates_unkeyed:
  "Key spec = [] \<Longrightarrow> candidates spec want current claimed =
     map Record_ID (filter (\<lambda>row. live spec row \<and> Record_ID row \<notin> claimed \<and> matches spec want row) current)"
  by (induction current) (simp_all add: Let_def live_def matches_def)

lemma candidates_keyed:
  "Key spec \<noteq> [] \<Longrightarrow> candidates spec want current claimed =
     take 1 (map Record_ID
       (filter (\<lambda>row. live spec row \<and> Record_ID row \<notin> claimed \<and> matches spec want row) current))"
proof (induction current)
  case (Cons row current)
  then show ?case
    by (cases "fmlookup want (Key spec)") (simp_all add: Let_def live_def matches_def)
qed simp

lemma candidates_sound:
  assumes "rid \<in> set (candidates spec want current claimed)"
  shows "rid \<notin> claimed \<and> (\<exists>row \<in> set current. Record_ID row = rid \<and> live spec row \<and> matches spec want row)"
proof -
  have "rid \<in> set (map Record_ID
      (filter (\<lambda>row. live spec row \<and> Record_ID row \<notin> claimed \<and> matches spec want row) current))"
    using assms by (cases "Key spec = []") (auto simp: candidates_unkeyed candidates_keyed dest: in_set_takeD)
  then show ?thesis by auto
qed

lemma candidates_empty:
  "candidates spec want current claimed = [] \<longleftrightarrow>
     (\<forall>row \<in> set current. live spec row \<longrightarrow> matches spec want row \<longrightarrow> Record_ID row \<in> claimed)"
  by (cases "Key spec = []") (auto simp: candidates_unkeyed candidates_keyed filter_empty_conv)

lemma candidates_keyed_length: "Key spec \<noteq> [] \<Longrightarrow> length (candidates spec want current claimed) \<le> 1"
  by (simp add: candidates_keyed)

section \<open>Resolution\<close>

text \<open>The resolution as a list, one entry per desired row.\<close>

fun assign :: "MenuSpec \<Rightarrow> Record list \<Rightarrow> string set \<Rightarrow> Record list \<Rightarrow> string option list" where
  "assign spec current claimed [] = []"
| "assign spec current claimed (want # desired) =
     (case candidates spec want current claimed of
        [] \<Rightarrow> None # assign spec current claimed desired
      | rid # _ \<Rightarrow> Some rid # assign spec current (insert rid claimed) desired)"

definition somes :: "'a option list \<Rightarrow> 'a list" where
  "somes as = List.map_filter (\<lambda>x. x) as"

lemma somes_simps [simp]:
  "somes [] = []" "somes (None # as) = somes as" "somes (Some a # as) = a # somes as"
  by (simp_all add: somes_def map_filter_simps)

lemma set_somes [simp]: "set (somes as) = {a. Some a \<in> set as}"
proof (induction as)
  case (Cons a as)
  then show ?case by (cases a) auto
qed simp

lemma somes_inj:
  "distinct (somes as) \<Longrightarrow> i < length as \<Longrightarrow> j < length as \<Longrightarrow> as ! i = Some a \<Longrightarrow> as ! j = Some a \<Longrightarrow> i = j"
proof (induction as arbitrary: i j)
  case (Cons x as)
  then show ?case by (cases x; cases i; cases j) (auto dest: nth_mem)
qed simp

lemma somes_all: "None \<notin> set as \<Longrightarrow> somes as = map the as"
proof (induction as)
  case (Cons x as)
  then show ?case by (cases x) auto
qed simp

lemma length_assign [simp]: "length (assign spec current claimed desired) = length desired"
  by (induction desired arbitrary: claimed) (auto split: list.splits)

lemma resolve_claimed:
  "resolve spec current i desired claimed matched = Inr (claimed', matched') \<Longrightarrow>
     claimed' = claimed \<union> set (somes (assign spec current claimed desired))"
proof (induction desired arbitrary: i claimed matched)
  case (Cons want desired)
  then show ?case
    by (cases "candidates spec want current claimed") (auto simp: Let_def split: if_splits)
qed simp

lemma resolve_matched:
  assumes "resolve spec current i desired claimed matched = Inr (claimed', matched')"
    and "\<And>j. i \<le> j \<Longrightarrow> fmlookup matched j = None"
  shows "fmlookup matched' j =
      (if i \<le> j \<and> j < i + length desired then assign spec current claimed desired ! (j - i)
       else fmlookup matched j)"
  using assms
proof (induction desired arbitrary: i claimed matched)
  case Nil
  then show ?case by auto
next
  case (Cons want desired)
  show ?case
  proof (cases "candidates spec want current claimed")
    case Nil
    with Cons.prems have
      *: "resolve spec current (Suc i) desired claimed matched = Inr (claimed', matched')"
      by simp
    show ?thesis using Cons.IH [OF *] Cons.prems(2) Nil by (auto simp: nth_Cons')
  next
    case C: (Cons rid ids)
    with Cons.prems have
      *: "resolve spec current (Suc i) desired (insert rid claimed) (fmupd i rid matched)
        = Inr (claimed', matched')"
      by (simp add: Let_def split: if_splits)
    show ?thesis using Cons.IH [OF *] Cons.prems(2) C by (auto simp: nth_Cons')
  qed
qed

lemma assign_distinct:
  "distinct (somes (assign spec current claimed desired))
   \<and> set (somes (assign spec current claimed desired)) \<inter> claimed = {}"
proof (induction desired arbitrary: claimed)
  case (Cons want desired)
  show ?case
  proof (cases "candidates spec want current claimed")
    case Nil
    then show ?thesis using Cons by simp
  next
    case C: (Cons rid ids)
    then have "rid \<notin> claimed" using candidates_sound [of rid spec want current claimed] by simp
    then show ?thesis using C Cons [of "insert rid claimed"] by auto
  qed
qed simp

lemma assign_inj:
  assumes "i < length desired" and "j < length desired"
    and "assign spec current claimed desired ! i = Some rid"
    and "assign spec current claimed desired ! j = Some rid"
  shows "i = j"
  by (rule somes_inj [OF assign_distinct [THEN conjunct1]]) (use assms in simp_all)

lemma assign_Some:
  assumes "i < length desired" and "assign spec current claimed desired ! i = Some rid"
  shows "\<exists>row \<in> set current. Record_ID row = rid \<and> live spec row \<and> matches spec (desired ! i) row"
  using assms
proof (induction desired arbitrary: claimed i)
  case (Cons want desired)
  show ?case
  proof (cases "candidates spec want current claimed")
    case Nil
    with Cons show ?thesis by (cases i) auto
  next
    case C: (Cons x ids)
    have "rid = x" if "i = 0" using Cons.prems C that by simp
    then show ?thesis
      using C Cons candidates_sound [of x spec want current claimed] by (cases i) auto
  qed
qed simp

lemma assign_None:
  assumes "i < length desired" and "assign spec current claimed desired ! i = None"
    and "row \<in> set current" and "live spec row" and "matches spec (desired ! i) row"
  shows "Record_ID row \<in> claimed \<union> set (somes (take i (assign spec current claimed desired)))"
  using assms
proof (induction desired arbitrary: claimed i)
  case (Cons want desired)
  show ?case
  proof (cases "candidates spec want current claimed")
    case Nil
    have "Record_ID row \<in> claimed" if "i = 0"
      using that Nil Cons.prems candidates_empty [of spec want current claimed] by auto
    then show ?thesis using Nil Cons by (cases i) auto
  next
    case C: (Cons x ids)
    from Cons.prems C obtain j where i: "i = Suc j" by (cases i) auto
    show ?thesis using Cons.IH [of j "insert x claimed"] Cons.prems C i by auto
  qed
qed simp

lemma resolve_ambiguous:
  "resolve spec current i desired claimed matched = Inl e \<Longrightarrow>
     \<exists>j want ids. e = AmbiguousError (Path spec) j want ids \<and> i \<le> j \<and> j < i + length desired
       \<and> want = desired ! (j - i) \<and> 1 < length ids \<and> \<not> indistinguishable current ids \<and> Key spec = []
       \<and> (\<forall>x \<in> set ids. \<exists>row \<in> set current. Record_ID row = x \<and> live spec row \<and> matches spec want row)"
proof (induction desired arbitrary: i claimed matched)
  case (Cons want desired)
  let ?ids = "candidates spec want current claimed"
  show ?case
  proof (cases "1 < length ?ids \<and> \<not> indistinguishable current ?ids")
    case True
    then have "Key spec = []" using candidates_keyed_length [of spec want current claimed] by linarith
    moreover have "e = AmbiguousError (Path spec) i want ?ids" using Cons.prems True by (simp add: Let_def)
    ultimately show ?thesis
      using True candidates_sound [of _ spec want current claimed] by auto
  next
    case False
    then obtain claimed' matched' where
      "resolve spec current (Suc i) desired claimed' matched' = Inl e"
      using Cons.prems by (cases ?ids) (auto simp: Let_def split: if_splits)
    from Cons.IH [OF this] obtain j ids where
      *: "e = AmbiguousError (Path spec) j (desired ! (j - Suc i)) ids" "Suc i \<le> j"
         "j < Suc i + length desired" "1 < length ids" "\<not> indistinguishable current ids" "Key spec = []"
         "\<forall>x \<in> set ids. \<exists>row \<in> set current. Record_ID row = x \<and> live spec row
            \<and> matches spec (desired ! (j - Suc i)) row"
      by blast
    have "(want # desired) ! (j - i) = desired ! (j - Suc i)" using *(2) by (simp add: nth_Cons')
    then show ?thesis using * by (intro exI [of _ j] exI [of _ "desired ! (j - Suc i)"] exI [of _ ids]) auto
  qed
qed simp

section \<open>What a plan consists of\<close>

lemma wanted_somes:
  assumes "\<And>j. j < length desired \<Longrightarrow> fmlookup matched j = as ! j" and "length as = length desired"
  shows "wanted desired matched = somes as"
proof -
  have "map (fmlookup matched) [0 ..< length desired] = as"
    using assms by (intro nth_equalityI) auto
  moreover have "List.map_filter f xs = somes (map f xs)" for f :: "nat \<Rightarrow> string option" and xs
    by (induction xs) (auto simp: map_filter_simps split: option.splits)
  ultimately show ?thesis by (simp add: wanted_def)
qed

lemma plan_parts:
  assumes "plan spec desired current = Inr p"
  defines "as \<equiv> assign spec current {} desired"
  shows "fmlookup (Matched p) j = (if j < length desired then as ! j else None)"
    and "wanted desired (Matched p) = somes as"
    and "Steps p = edits spec current (Matched p) 0 desired
      @ (if Unlisted spec = UnlistedPrune then deletes spec current (set (somes as)) else [])
      @ (if Ordered spec then reorder spec desired current (Matched p) (set (somes as)) else [])"
    and "Unlisted spec = UnlistedTolerate \<or> Unlisted spec = UnlistedPrune"
    and "fmempty \<notin> set (Ignore spec)"
proof -
  have ok: "Unlisted spec = UnlistedTolerate \<or> Unlisted spec = UnlistedPrune"
    using assms(1) unfolding plan_def by (simp split: if_splits)
  have ig: "fmempty \<notin> set (Ignore spec)"
    using assms(1) unfolding plan_def list_ex_iff by (simp split: if_splits)
  have body: "plan spec desired current = (case resolve spec current 0 desired {} fmempty of
      Inl e \<Rightarrow> Inl e
    | Inr (claimed, matched) \<Rightarrow>
        Inr \<lparr>Steps = edits spec current matched 0 desired
               @ (if Unlisted spec = UnlistedPrune then deletes spec current claimed else [])
               @ (if Ordered spec then reorder spec desired current matched claimed else []),
             Matched = matched\<rparr>)"
  proof -
    have "\<not> (Unlisted spec \<noteq> UnlistedTolerate \<and> Unlisted spec \<noteq> UnlistedPrune)" using ok by blast
    moreover have "\<not> list_ex (\<lambda>selector. selector = fmempty) (Ignore spec)"
      using ig by (auto simp: list_ex_iff)
    ultimately show ?thesis by (simp only: plan_def if_False)
  qed
  obtain claimed matched where rm: "resolve spec current 0 desired {} fmempty = Inr (claimed, matched)"
    using assms(1) unfolding body by (cases "resolve spec current 0 desired {} fmempty") auto
  have p: "p = \<lparr>Steps = edits spec current matched 0 desired
               @ (if Unlisted spec = UnlistedPrune then deletes spec current claimed else [])
               @ (if Ordered spec then reorder spec desired current matched claimed else []),
             Matched = matched\<rparr>"
    using assms(1) unfolding body rm by (simp only: sum.case prod.case sum.inject)
  have r: "resolve spec current 0 desired {} fmempty = Inr (claimed, Matched p)"
    using rm by (simp add: p)
  have st: "Steps p = edits spec current (Matched p) 0 desired
      @ (if Unlisted spec = UnlistedPrune then deletes spec current claimed else [])
      @ (if Ordered spec then reorder spec desired current (Matched p) claimed else [])"
    by (simp only: p Plan.simps)
  have c: "claimed = set (somes as)" using resolve_claimed [OF r] by (simp add: as_def)
  show m: "fmlookup (Matched p) j = (if j < length desired then as ! j else None)" for j
    using resolve_matched [OF r, of j] by (simp add: as_def)
  show "wanted desired (Matched p) = somes as"
    by (rule wanted_somes) (simp_all add: m, simp add: as_def)
  show "Steps p = edits spec current (Matched p) 0 desired
      @ (if Unlisted spec = UnlistedPrune then deletes spec current (set (somes as)) else [])
      @ (if Ordered spec then reorder spec desired current (Matched p) (set (somes as)) else [])"
    using st c by simp
  show "Unlisted spec = UnlistedTolerate \<or> Unlisted spec = UnlistedPrune" by (rule ok)
  show "fmempty \<notin> set (Ignore spec)" by (rule ig)
qed

lemma edits_iff:
  "s \<in> set (edits spec current matched i desired) \<longleftrightarrow>
     (\<exists>j < length desired.
        (fmlookup matched (i + j) = None \<and> s = createStep (desired ! j)) \<or>
        (\<exists>rid. fmlookup matched (i + j) = Some rid \<and> Key spec \<noteq> []
           \<and> \<not> subset_rec (desired ! j) (byID current rid)
           \<and> s = updateStep rid (changes (desired ! j) (byID current rid))))"
proof (induction desired arbitrary: i)
  case (Cons want desired)
  have split: "(\<exists>j < length (want # desired). Q j) \<longleftrightarrow> Q 0 \<or> (\<exists>j < length desired. Q (Suc j))" for Q
    using less_Suc_eq_0_disj by auto
  show ?case
    unfolding split
    using Cons.IH [of "Suc i"]
    by (cases "fmlookup matched i") (auto simp: Let_def changes_empty_iff)
qed simp

lemma anchored_steps:
  assumes "s \<in> set (anchored want)"
  shows "stOp s = OpMove \<and> stID s = [] \<and> set (stOrder s) \<subseteq> set want \<and> stBefore s \<in> set want"
proof -
  obtain i where i: "i < length want - 1" and s: "stOrder s = [want ! i]" "stBefore s = want ! Suc i"
    "stOp s = OpMove" "stID s = []"
    using assms by (auto simp: anchored_def moveStep_def)
  have "want ! i \<in> set want" "want ! Suc i \<in> set want" using i by (simp_all add: nth_mem)
  then show ?thesis using s by simp
qed

lemma reorder_steps:
  assumes "s \<in> set (reorder spec desired current matched claimed)"
  shows "stOp s = OpMove \<and> stID s = [] \<and> set (stOrder s) \<subseteq> set (wanted desired matched)
    \<and> (stBefore s = [] \<or> stBefore s \<in> set (wanted desired matched))"
  using assms anchored_steps
  by (auto simp: reorder_def Let_def moveStep_def split: if_splits)

lemma edits_ops: "s \<in> set (edits spec current matched i desired) \<Longrightarrow> stOp s = OpCreate \<or> stOp s = OpUpdate"
  by (auto simp: edits_iff createStep_def updateStep_def)

lemma deletes_ops: "s \<in> set (deletes spec current claimed) \<Longrightarrow> stOp s = OpDelete"
  by (auto simp: deletes_def deleteStep_def)

text \<open>The ids a step addresses.\<close>

definition step_ids :: "Step \<Rightarrow> string set" where
  "step_ids s = ({stID s, stBefore s} \<union> set (stOrder s)) - {[]}"

lemma assign_live:
  assumes "Some rid \<in> set (assign spec current claimed desired)"
  shows "\<exists>row \<in> set current. Record_ID row = rid \<and> live spec row"
proof -
  obtain i where "i < length desired" and "assign spec current claimed desired ! i = Some rid"
    using assms by (auto simp: in_set_conv_nth)
  then show ?thesis using assign_Some by blast
qed

lemma plan_step_live:
  assumes p: "plan spec desired current = Inr p" and s: "s \<in> set (Steps p)" and r: "rid \<in> step_ids s"
  shows "\<exists>row \<in> set current. Record_ID row = rid \<and> live spec row"
proof -
  let ?as = "assign spec current {} desired"
  note parts = plan_parts [OF p]
  consider "s \<in> set (edits spec current (Matched p) 0 desired)"
    | "s \<in> set (deletes spec current (set (somes ?as)))"
    | "s \<in> set (reorder spec desired current (Matched p) (set (somes ?as)))"
    using s parts(3) by (auto split: if_splits)
  then show ?thesis
  proof cases
    case 1
    then obtain j where "j < length desired" "fmlookup (Matched p) j = Some rid"
      using r by (auto simp: edits_iff step_ids_def createStep_def updateStep_def)
    then have "Some rid \<in> set ?as" using parts(1) [of j] by (metis length_assign nth_mem)
    then show ?thesis by (rule assign_live)
  next
    case 2
    then show ?thesis using r by (auto simp: deletes_def deleteStep_def step_ids_def live_def)
  next
    case 3
    then have "rid \<in> set (somes ?as)"
      using r reorder_steps [OF 3] parts(2) by (auto simp: step_ids_def)
    then show ?thesis using assign_live [of rid spec current "{}" desired] by simp
  qed
qed

section \<open>A sample menu\<close>

text \<open>
  A pruned, ordered filter chain with one dynamic row, one unlisted row and two desired rows the
  device holds in the wrong order; the properties below are evaluated on it.
\<close>

definition exSpec :: MenuSpec where
  "exSpec = \<lparr>Path = ''ip/firewall/filter'', Ordered = True, Unlisted = UnlistedPrune, Key = [],
     Ignore = [fmap_of_list [(''dynamic'', ''true'')]]\<rparr>"

definition exRow :: "string \<Rightarrow> string \<Rightarrow> Record" where
  "exRow rid c = fmap_of_list [(IDField, rid), (''chain'', c)]"

definition exCurrent :: "Record list" where
  "exCurrent = [fmap_of_list [(IDField, ''*1''), (''chain'', ''input''), (''dynamic'', ''true'')],
     exRow ''*2'' ''output'', exRow ''*3'' ''input'', exRow ''*4'' ''forward'']"

definition exDesired :: "Record list" where
  "exDesired = [fmap_of_list [(''chain'', ''input'')], fmap_of_list [(''chain'', ''output'')]]"

definition exPlan :: Plan where
  "exPlan = \<lparr>Steps = [deleteStep (exRow ''*4'' ''forward''),
       moveStep [''*3''] ''*2'' ''unmanaged rows are tolerated here, so only the managed order is corrected''],
     Matched = fmap_of_list [(0, ''*3''), (1, ''*2'')]\<rparr>"

lemma exPlan: "plan exSpec exDesired exCurrent = Inr exPlan"
  by code_simp

section \<open>Properties\<close>

text \<open>
  No step of a plan, whatever its operation, addresses an ignored row. On a menu whose row
  ids are distinct, a row named by any step as its target, in its order or as its anchor has an id
  and is covered by no ignore selector; device-owned dynamic rows are left alone.
\<close>

theorem plan_never_touches_ignored:
  assumes "plan spec desired current = Inr p" and "distinct (map Record_ID current)"
    and "row \<in> set current" and "ignored spec row"
  shows "\<forall>s \<in> set (Steps p). Record_ID row \<notin> step_ids s"
proof (intro ballI notI)
  fix s
  assume "s \<in> set (Steps p)" and "Record_ID row \<in> step_ids s"
  then obtain r where "r \<in> set current" "Record_ID r = Record_ID row" "live spec r"
    using plan_step_live [OF assms(1)] by blast
  then have "r = row" using distinct_map_inj [OF assms(2)] assms(3) by blast
  then show False using \<open>live spec r\<close> assms(4) by (simp add: live_def)
qed

theorem plan_never_touches_ignored_witness:
  "ignored exSpec (hd exCurrent) \<and> ''*1'' \<notin> \<Union> (step_ids ` set (Steps exPlan))"
proof -
  have i: "ignored exSpec (hd exCurrent)" by code_simp
  have d: "distinct (map Record_ID exCurrent)" by code_simp
  have "hd exCurrent \<in> set exCurrent" by (simp add: exCurrent_def)
  from plan_never_touches_ignored [OF exPlan d this i]
  have "\<forall>s \<in> set (Steps exPlan). Record_ID (hd exCurrent) \<notin> step_ids s" .
  moreover have "Record_ID (hd exCurrent) = ''*1''" by code_simp
  ultimately show ?thesis using i by simp
qed

text \<open>
  C16: the deletes of a plan. Under the tolerate policy there are none; under prune the rows
  deleted are exactly the rows with an id that no ignore selector covers and that no desired row
  resolved to.
\<close>

theorem plan_deletes_exactly_unlisted:
  assumes p: "plan spec desired current = Inr p"
  shows "{stID s | s. s \<in> set (Steps p) \<and> stOp s = OpDelete} =
    (if Unlisted spec = UnlistedPrune
     then {Record_ID row | row. row \<in> set current \<and> live spec row
             \<and> Record_ID row \<notin> set (wanted desired (Matched p))}
     else {})"
proof -
  let ?as = "assign spec current {} desired"
  note parts = plan_parts [OF p]
  have "{s \<in> set (Steps p). stOp s = OpDelete} =
      (if Unlisted spec = UnlistedPrune then set (deletes spec current (set (somes ?as))) else {})"
    unfolding parts(3)
    by (auto dest: edits_ops deletes_ops reorder_steps split: if_splits)
  moreover have "stID ` set (deletes spec current (set (somes ?as))) =
      {Record_ID row | row. row \<in> set current \<and> live spec row \<and> Record_ID row \<notin> set (somes ?as)}"
    by (auto simp: deletes_def deleteStep_def live_def image_iff)
  moreover have "{stID s | s. s \<in> set (Steps p) \<and> stOp s = OpDelete} =
      stID ` {s \<in> set (Steps p). stOp s = OpDelete}"
    by auto
  ultimately show ?thesis unfolding parts(2) by simp
qed

theorem plan_deletes_exactly_unlisted_witness:
  "{stID s | s. s \<in> set (Steps exPlan) \<and> stOp s = OpDelete} =
    {Record_ID row | row. row \<in> set exCurrent \<and> live exSpec row
       \<and> Record_ID row \<notin> set (wanted exDesired (Matched exPlan))}"
proof -
  have "Unlisted exSpec = UnlistedPrune" by code_simp
  then show ?thesis using plan_deletes_exactly_unlisted [OF exPlan] by simp
qed

text \<open>Soundness and completeness of the resolution, in the terms of the plan.\<close>

lemma matched_parts:
  assumes p: "plan spec desired current = Inr p"
  shows "inj_on (fmlookup (Matched p)) (fmdom' (Matched p))"
    and "fmlookup (Matched p) i = Some rid \<Longrightarrow> i < length desired \<and>
      (\<exists>row \<in> set current. Record_ID row = rid \<and> live spec row \<and> matches spec (desired ! i) row)"
    and "i < length desired \<Longrightarrow> fmlookup (Matched p) i = None \<Longrightarrow> row \<in> set current \<Longrightarrow> live spec row
      \<Longrightarrow> matches spec (desired ! i) row \<Longrightarrow> Record_ID row \<in> fmran' (Matched p)"
proof -
  let ?as = "assign spec current {} desired"
  note m = plan_parts(1) [OF p]
  show sound: "i < length desired \<and>
      (\<exists>row \<in> set current. Record_ID row = rid \<and> live spec row \<and> matches spec (desired ! i) row)"
    if "fmlookup (Matched p) i = Some rid" for i rid
    using that assign_Some [of i desired spec current "{}" rid] m [of i] by (auto split: if_splits)
  show "inj_on (fmlookup (Matched p)) (fmdom' (Matched p))"
  proof (rule inj_onI)
    fix i j
    assume ij: "i \<in> fmdom' (Matched p)" "j \<in> fmdom' (Matched p)"
      "fmlookup (Matched p) i = fmlookup (Matched p) j"
    then obtain rid where "i < length desired" "j < length desired"
      and "?as ! i = Some rid" "?as ! j = Some rid"
      using m [of i] m [of j] by (auto simp: fmlookup_dom'_iff split: if_splits)
    then show "i = j" by (rule assign_inj)
  qed
  show "Record_ID row \<in> fmran' (Matched p)"
    if "i < length desired" "fmlookup (Matched p) i = None" "row \<in> set current" "live spec row"
      "matches spec (desired ! i) row"
  proof -
    have "Record_ID row \<in> set (somes (take i ?as))"
      using that assign_None [of i desired spec current "{}" row] m [of i] by simp
    then obtain k where "k < length desired" "?as ! k = Some (Record_ID row)"
      by (auto simp: in_set_conv_nth)
    then show ?thesis using m [of k] by (auto simp: fmran'I)
  qed
qed

text \<open>
  Every entry of \<^verbatim>\<open>Plan.Matched\<close> is sound and no device row is claimed twice. A desired
  row resolves to a row of the reading that has an id, is not ignored, and agrees with it on the
  key, or, without a key, holds every field the desired row sets; distinct desired rows resolve to
  distinct ids; and a desired row left unmatched has no unclaimed row it could have been.
\<close>

theorem plan_matched_sound:
  assumes "plan spec desired current = Inr p"
  shows "inj_on (fmlookup (Matched p)) (fmdom' (Matched p))
    \<and> (\<forall>i rid. fmlookup (Matched p) i = Some rid \<longrightarrow> i < length desired \<and>
        (\<exists>row \<in> set current. Record_ID row = rid \<and> live spec row \<and> matches spec (desired ! i) row))
    \<and> (\<forall>i < length desired. \<forall>row \<in> set current. fmlookup (Matched p) i = None \<longrightarrow> live spec row
        \<longrightarrow> matches spec (desired ! i) row \<longrightarrow> Record_ID row \<in> fmran' (Matched p))"
  using matched_parts [OF assms] by blast

theorem plan_matched_sound_witness:
  "inj_on (fmlookup (Matched exPlan)) (fmdom' (Matched exPlan))
   \<and> (\<exists>row \<in> set exCurrent. Record_ID row = ''*3'' \<and> live exSpec row \<and> matches exSpec (exDesired ! 0) row)"
proof -
  have "fmlookup (Matched exPlan) 0 = Some ''*3''" by (simp add: exPlan_def)
  then show ?thesis using plan_matched_sound [OF exPlan] by blast
qed

text \<open>
  C17: \<^verbatim>\<open>plan\<close> refuses a specification that has not chosen a policy and one with an empty
  ignore selector, before it looks at any row; and the only other refusal is an ambiguity: a
  desired row of an unkeyed menu with several candidates that differ in more than their id. Every
  id the error lists is a row the desired row really matches, and nothing is planned.
\<close>

theorem plan_refusals:
  "(Unlisted spec \<notin> {UnlistedTolerate, UnlistedPrune} \<longrightarrow>
      plan spec desired current = Inl ErrNoUnlistedPolicy)
   \<and> (Unlisted spec \<in> {UnlistedTolerate, UnlistedPrune} \<longrightarrow> fmempty \<in> set (Ignore spec) \<longrightarrow>
      plan spec desired current = Inl ErrEmptyIgnoreSelector)
   \<and> (Unlisted spec \<in> {UnlistedTolerate, UnlistedPrune} \<longrightarrow> fmempty \<notin> set (Ignore spec) \<longrightarrow>
      plan spec desired current = Inl e \<longrightarrow>
      (\<exists>i ids. e = AmbiguousError (Path spec) i (desired ! i) ids \<and> i < length desired \<and> Key spec = []
         \<and> 1 < length ids \<and> \<not> indistinguishable current ids
         \<and> (\<forall>x \<in> set ids. \<exists>row \<in> set current. Record_ID row = x \<and> live spec row
               \<and> matches spec (desired ! i) row)))"
proof (intro conjI impI)
  assume "Unlisted spec \<in> {UnlistedTolerate, UnlistedPrune}" "fmempty \<notin> set (Ignore spec)"
    and "plan spec desired current = Inl e"
  then have "resolve spec current 0 desired {} fmempty = Inl e"
    by (auto simp: plan_def list_ex_iff split: sum.splits)
  from resolve_ambiguous [OF this]
  show "\<exists>i ids. e = AmbiguousError (Path spec) i (desired ! i) ids \<and> i < length desired \<and> Key spec = []
         \<and> 1 < length ids \<and> \<not> indistinguishable current ids
         \<and> (\<forall>x \<in> set ids. \<exists>row \<in> set current. Record_ID row = x \<and> live spec row
               \<and> matches spec (desired ! i) row)"
    by auto
qed (auto simp: plan_def list_ex_iff)

text \<open>Two rules that differ in an unmanaged field: the plan of a resource that sets only the chain.\<close>

definition exTwins :: "Record list" where
  "exTwins = [exRow ''*2'' ''input'', fmupd ''comment'' ''mine'' (exRow ''*3'' ''input'')]"

theorem plan_refusals_witness:
  "plan exSpec exDesired exTwins = Inl (AmbiguousError (Path exSpec) 0 (exDesired ! 0) [''*2'', ''*3''])
   \<and> (\<exists>row \<in> set exTwins. Record_ID row = ''*2'' \<and> live exSpec row \<and> matches exSpec (exDesired ! 0) row)"
proof -
  have p: "plan exSpec exDesired exTwins = Inl (AmbiguousError (Path exSpec) 0 (exDesired ! 0) [''*2'', ''*3''])"
    by code_simp
  have "Unlisted exSpec \<in> {UnlistedTolerate, UnlistedPrune}" "fmempty \<notin> set (Ignore exSpec)" by code_simp+
  with plan_refusals [of exSpec exDesired exTwins
      "AmbiguousError (Path exSpec) 0 (exDesired ! 0) [''*2'', ''*3'']"] p
  show ?thesis by auto
qed

section \<open>Convergence\<close>

text \<open>
  What the two policies promise. \<open>exact_menu\<close>: the rows the resource may own are the desired
  rows, in order. \<open>contains_menu\<close>: the desired rows are among them, in order.
\<close>

definition exact_menu :: "MenuSpec \<Rightarrow> Record list \<Rightarrow> Record list \<Rightarrow> bool" where
  "exact_menu spec desired rows \<longleftrightarrow> list_all2 subset_rec desired (filter (live spec) rows)"

definition contains_menu :: "MenuSpec \<Rightarrow> Record list \<Rightarrow> Record list \<Rightarrow> bool" where
  "contains_menu spec desired rows \<longleftrightarrow>
     (\<exists>rs. subseq rs (filter (live spec) rows) \<and> list_all2 subset_rec desired rs)"

definition satisfied :: "MenuSpec \<Rightarrow> Record list \<Rightarrow> Record list \<Rightarrow> bool" where
  "satisfied spec desired rows \<longleftrightarrow>
     (if Unlisted spec = UnlistedPrune then exact_menu spec desired rows
      else contains_menu spec desired rows)"

text \<open>Rows arranged in the order of the ids they were resolved to.\<close>

lemma arranged_rows:
  assumes ids: "distinct (map Record_ID rows)"
    and order: "filter (\<lambda>i. i \<in> set want) (map Record_ID rows) = want"
    and len: "length want = length desired"
    and sub: "\<And>j. j < length desired \<Longrightarrow> subset_rec (desired ! j) (byID rows (want ! j))"
  shows "list_all2 subset_rec desired (filter (\<lambda>r. Record_ID r \<in> set want) rows)"
proof -
  let ?rs = "filter (\<lambda>r. Record_ID r \<in> set want) rows"
  have eq: "map Record_ID ?rs = want" using order by (simp add: filter_map o_def)
  have "byID rows (want ! j) = ?rs ! j" if "j < length desired" for j
  proof -
    have j: "j < length ?rs" using that len eq by (metis length_map)
    then have "want ! j = Record_ID (?rs ! j)" using eq by (metis nth_map)
    moreover have "?rs ! j \<in> set rows" using nth_mem [OF j] by simp
    ultimately show ?thesis using byID_distinct [OF ids] by simp
  qed
  moreover have "length ?rs = length desired" using eq len by (metis length_map)
  ultimately show ?thesis using sub by (auto simp: list_all2_conv_all_nth)
qed

lemma satisfied_arranged:
  assumes "distinct (map Record_ID rows)"
    and "filter (\<lambda>i. i \<in> set want) (map Record_ID rows) = want"
    and "length want = length desired"
    and "\<And>j. j < length desired \<Longrightarrow> subset_rec (desired ! j) (byID rows (want ! j))"
    and "\<And>r. r \<in> set rows \<Longrightarrow> Record_ID r \<in> set want \<Longrightarrow> live spec r"
    and "Unlisted spec = UnlistedPrune \<Longrightarrow> (\<And>r. r \<in> set rows \<Longrightarrow> live spec r \<Longrightarrow> Record_ID r \<in> set want)"
  shows "satisfied spec desired rows"
proof -
  let ?rs = "filter (\<lambda>r. Record_ID r \<in> set want) rows"
  have all: "list_all2 subset_rec desired ?rs" by (rule arranged_rows) (use assms in auto)
  show ?thesis
  proof (cases "Unlisted spec = UnlistedPrune")
    case True
    then have "?rs = filter (live spec) rows" using assms(5,6) by (auto intro: filter_cong)
    then show ?thesis using all True by (simp add: satisfied_def exact_menu_def)
  next
    case False
    have "?rs = filter (\<lambda>r. Record_ID r \<in> set want) (filter (live spec) rows)"
      using assms(5) by (auto intro: filter_cong)
    then have "subseq ?rs (filter (live spec) rows)" by (metis subseq_filter_left)
    then show ?thesis using all False by (auto simp: satisfied_def contains_menu_def)
  qed
qed

lemma filter_single: "distinct xs \<Longrightarrow> x \<in> set xs \<Longrightarrow> filter (\<lambda>i. i = x) xs = [x]"
proof (induction xs)
  case (Cons y xs)
  then show ?case by (cases "x = y") (auto simp: filter_empty_conv)
qed simp

lemma reorder_nil:
  assumes "reorder spec desired current matched (set want) = []" and "want = wanted desired matched"
    and "distinct (map Record_ID current)" and "set want \<subseteq> Record_ID ` set current"
  shows "filter (\<lambda>i. i \<in> set want) (map Record_ID current) = want"
proof -
  consider "want = []" | x where "want = [x]" | "2 \<le> length want"
    by (cases want; cases "tl want") auto
  then show ?thesis
  proof cases
    case 1
    then show ?thesis by simp
  next
    case 2
    then have "x \<in> set (map Record_ID current)" using assms(4) by auto
    then show ?thesis using 2 filter_single [OF assms(3)] by simp
  next
    case 3
    then have "anchored want \<noteq> []" by (simp add: anchored_def)
    then show ?thesis using assms(1,2) 3 by (auto simp: reorder_def Let_def split: if_splits)
  qed
qed

text \<open>A plan that holds nothing but moves: everything desired is there, and nothing else is.\<close>

lemma no_move_nil:
  assumes "set ss \<subseteq> set all_steps" and "\<forall>s \<in> set all_steps. stOp s = OpMove"
    and "\<And>s. s \<in> set ss \<Longrightarrow> stOp s \<noteq> OpMove"
  shows "ss = []"
  using assms by (cases ss) auto

lemma plan_only_moves:
  assumes p: "plan spec desired current = Inr p" and moves: "\<forall>s \<in> set (Steps p). stOp s = OpMove"
    and ids: "distinct (map Record_ID current)"
  defines "want \<equiv> wanted desired (Matched p)"
  shows "length want = length desired"
    and "distinct want"
    and "set want \<subseteq> Record_ID ` set current"
    and "j < length desired \<Longrightarrow> subset_rec (desired ! j) (byID current (want ! j))"
    and "r \<in> set current \<Longrightarrow> Record_ID r \<in> set want \<Longrightarrow> live spec r"
    and "Unlisted spec = UnlistedPrune \<Longrightarrow> r \<in> set current \<Longrightarrow> live spec r \<Longrightarrow> Record_ID r \<in> set want"
    and "Steps p = (if Ordered spec then reorder spec desired current (Matched p) (set want) else [])"
proof -
  let ?as = "assign spec current {} desired"
  note parts = plan_parts [OF p]
  have want: "want = somes ?as" using parts(2) by (simp add: want_def)
  have e: "edits spec current (Matched p) 0 desired = []"
  proof (rule no_move_nil)
    show "set (edits spec current (Matched p) 0 desired) \<subseteq> set (Steps p)" using parts(3) by simp
  qed (use moves in \<open>auto dest: edits_ops\<close>)
  have d: "deletes spec current (set want) = []" if "Unlisted spec = UnlistedPrune"
  proof (rule no_move_nil)
    show "set (deletes spec current (set want)) \<subseteq> set (Steps p)" using parts(3) that by (auto simp: want)
  qed (use moves in \<open>auto dest: deletes_ops\<close>)
  have matched: "\<exists>rid. fmlookup (Matched p) j = Some rid \<and> (Key spec = [] \<or> subset_rec (desired ! j) (byID current rid))"
    if "j < length desired" for j
    using that edits_iff [of _ spec current "Matched p" 0 desired] e
    by (cases "fmlookup (Matched p) j") fastforce+
  have none: "None \<notin> set ?as"
  proof
    assume "None \<in> set ?as"
    then obtain j where "j < length desired" "?as ! j = None" by (auto simp: in_set_conv_nth)
    then show False using matched [of j] parts(1) [of j] by simp
  qed
  then have nth: "want ! j = the (?as ! j)" "?as ! j = Some (want ! j)" if "j < length desired" for j
    using that matched [of j] parts(1) [of j] by (auto simp: want somes_all)
  show "length want = length desired" using none by (simp add: want somes_all)
  show "distinct want" using assign_distinct by (simp add: want)
  have live_want: "\<exists>row \<in> set current. Record_ID row = i \<and> live spec row" if "i \<in> set want" for i
    using that assign_live [of i spec current "{}" desired] by (simp add: want)
  then show "set want \<subseteq> Record_ID ` set current" by blast
  show "subset_rec (desired ! j) (byID current (want ! j))" if j: "j < length desired" for j
  proof (cases "Key spec = []")
    case True
    obtain row where "row \<in> set current" "Record_ID row = want ! j" "matches spec (desired ! j) row"
      using assign_Some [OF j nth(2) [OF j]] by blast
    then show ?thesis using byID_distinct [OF ids] True by (metis matches_def)
  next
    case False
    then show ?thesis using matched [OF j] nth(2) [OF j] parts(1) [of j] j by auto
  qed
  show "live spec r" if "r \<in> set current" "Record_ID r \<in> set want" for r
    using live_want [OF that(2)] distinct_map_inj [OF ids] that(1) by metis
  show "Record_ID r \<in> set want"
    if "Unlisted spec = UnlistedPrune" "r \<in> set current" "live spec r" for r
    using d [OF that(1)] that(2,3) by (auto simp: deletes_def live_def filter_empty_conv)
  show "Steps p = (if Ordered spec then reorder spec desired current (Matched p) (set want) else [])"
    using parts(3) e d by (auto simp: want)
qed

text \<open>
  An empty plan is the fixpoint the reconciler reports as current. On an ordered menu with
  distinct ids, when \<^verbatim>\<open>plan\<close> succeeds with no steps the menu already satisfies the
  specification: under prune its static rows are the desired rows, one for one and in order,
  under tolerate the desired rows occur among them in order.
\<close>

theorem plan_empty_satisfied:
  assumes p: "plan spec desired current = Inr p" and none: "Plan_Empty p" and ord: "Ordered spec"
    and ids: "distinct (map Record_ID current)"
  shows "satisfied spec desired current"
proof -
  have moves: "\<forall>s \<in> set (Steps p). stOp s = OpMove" using none by (simp add: Plan_Empty_def)
  note only = plan_only_moves [OF p moves ids]
  have "reorder spec desired current (Matched p) (set (wanted desired (Matched p))) = []"
    using only(7) none ord by (simp add: Plan_Empty_def)
  from reorder_nil [OF this refl ids only(3)]
  show ?thesis by (rule satisfied_arranged [OF ids _ only(1) only(4) only(5) only(6)])
qed

theorem plan_empty_satisfied_witness:
  "satisfied exSpec exDesired [hd exCurrent, exRow ''*3'' ''input'', exRow ''*2'' ''output'']"
proof (rule plan_empty_satisfied)
  show "plan exSpec exDesired [hd exCurrent, exRow ''*3'' ''input'', exRow ''*2'' ''output''] =
      Inr \<lparr>Steps = [], Matched = Matched exPlan\<rparr>"
    by code_simp
  show "distinct (map Record_ID [hd exCurrent, exRow ''*3'' ''input'', exRow ''*2'' ''output''])" by code_simp
qed (simp_all add: Plan_Empty_def exSpec_def)

end
