(* ===== verification/Rest_Client.thy ===== *)
theory Rest_Client
  imports Menu_Plan
begin

text \<open>
  Package \<^verbatim>\<open>rest\<close>, files client.go and error.go: one HTTP exchange, how a reply is classified as
  data or as an error, and the operations on menus built on it. The HTTP transport is a parameter
  \<open>Do\<close>: it takes the client's transport, a request and the state of the far side, and returns what
  the exchange yields with the state it leaves. A reply is the document the JSON tokenizer reads
  from it; the member and type rules of \<^verbatim>\<open>encoding/json/v2\<close> that the code leans on (duplicate names
  and invalid UTF-8 rejected, null as the zero value, numbers that are not integers refused for an
  \<^verbatim>\<open>int\<close>) are written out.
\<close>

section \<open>JSON decoding\<close>

fun utf8 :: "nat list \<Rightarrow> bool" where
  "utf8 [] = True"
| "utf8 (a # bs) =
     (if a < 128 then utf8 bs
      else if 194 \<le> a \<and> a \<le> 223 then
        (case bs of b # cs \<Rightarrow> 128 \<le> b \<and> b \<le> 191 \<and> utf8 cs | _ \<Rightarrow> False)
      else if 224 \<le> a \<and> a \<le> 239 then
        (case bs of
           b # c # ds \<Rightarrow>
             (if a = 224 then 160 else 128) \<le> b \<and> b \<le> (if a = 237 then 159 else 191)
             \<and> 128 \<le> c \<and> c \<le> 191 \<and> utf8 ds
         | _ \<Rightarrow> False)
      else if 240 \<le> a \<and> a \<le> 244 then
        (case bs of
           b # c # d # es \<Rightarrow>
             (if a = 240 then 144 else 128) \<le> b \<and> b \<le> (if a = 244 then 143 else 191)
             \<and> 128 \<le> c \<and> c \<le> 191 \<and> 128 \<le> d \<and> d \<le> 191 \<and> utf8 es
         | _ \<Rightarrow> False)
      else False)"

definition valid_utf8 :: "string \<Rightarrow> bool" where
  "valid_utf8 s \<longleftrightarrow> utf8 (map of_char s)"

text \<open>What the tokenizer accepts at its defaults: valid UTF-8 and no member named twice.\<close>

fun json_ok :: "json \<Rightarrow> bool" where
  "json_ok (JStr s) \<longleftrightarrow> valid_utf8 s"
| "json_ok (JArr js) \<longleftrightarrow> list_all json_ok js"
| "json_ok (JObj kvs) \<longleftrightarrow>
     distinct (map fst kvs) \<and> list_all (\<lambda>(k, v). valid_utf8 k \<and> json_ok v) kvs"
| "json_ok _ \<longleftrightarrow> True"

text \<open>
  A reply body: nothing but white space, bytes the tokenizer rejects (with their first byte, which
  \<^verbatim>\<open>decode\<close> looks at), or a document.
\<close>

datatype Body = Blank | Malformed char | Doc json

definition unmarshal :: "(json \<Rightarrow> 'a option) \<Rightarrow> Body \<Rightarrow> 'a option" where
  "unmarshal f b = (case b of Doc j \<Rightarrow> if json_ok j then f j else None | _ \<Rightarrow> None)"

fun as_string :: "json \<Rightarrow> string option" where
  "as_string JNull = Some []"
| "as_string (JStr s) = Some s"
| "as_string _ = None"

fun as_int_ptr :: "json \<Rightarrow> int option option" where
  "as_int_ptr JNull = Some None"
| "as_int_ptr (JInt n) = (if in_int64 n then Some (Some n) else None)"
| "as_int_ptr _ = None"

text \<open>A struct member: the zero value when the name is absent.\<close>

definition member :: "string \<Rightarrow> 'a \<Rightarrow> (json \<Rightarrow> 'a option) \<Rightarrow> (string \<times> json) list \<Rightarrow> 'a option" where
  "member name zero f kvs = (case map_of kvs name of None \<Rightarrow> Some zero | Some j \<Rightarrow> f j)"

fun as_record :: "json \<Rightarrow> Record option" where
  "as_record JNull = Some fmempty"
| "as_record (JObj kvs) =
     (if list_all (\<lambda>(k, v). as_string v \<noteq> None) kvs
      then Some (fmap_of_list (map (\<lambda>(k, v). (k, the (as_string v))) kvs)) else None)"
| "as_record _ = None"

fun as_records :: "json \<Rightarrow> Record list option" where
  "as_records JNull = Some []"
| "as_records (JArr js) =
     (if list_all (\<lambda>j. as_record j \<noteq> None) js then Some (map (the \<circ> as_record) js) else None)"
| "as_records _ = None"

record errorBody =
  ebCode :: "int option"
  ebMessage :: string
  ebDetail :: string

fun as_errorBody :: "json \<Rightarrow> errorBody option" where
  "as_errorBody JNull = Some \<lparr>ebCode = None, ebMessage = [], ebDetail = []\<rparr>"
| "as_errorBody (JObj kvs) =
     (case (member ''error'' None as_int_ptr kvs, member ''message'' [] as_string kvs,
            member ''detail'' [] as_string kvs) of
        (Some c, Some m, Some d) \<Rightarrow> Some \<lparr>ebCode = c, ebMessage = m, ebDetail = d\<rparr>
      | _ \<Rightarrow> None)"
| "as_errorBody _ = None"

fun as_ret :: "json \<Rightarrow> string option" where
  "as_ret JNull = Some []"
| "as_ret (JObj kvs) = member ''ret'' [] as_string kvs"
| "as_ret _ = None"

section \<open>Errors\<close>

record Error =
  errOp :: string
  errStatus :: int
  errCode :: int
  errMessage :: string
  errDetail :: string

datatype transport = EOF | UnexpectedEOF | Other string

text \<open>
  The errors of the package. A constructor with an error inside is a
  \<^verbatim>\<open>fmt.Errorf("...: %w", ..., err)\<close>; \<open>Caller\<close> is an error a caller's approval function returns.
\<close>

datatype error =
    EmptyEndpoint
  | EncodeRequest string
  | BadRequestURL string
  | Transport string transport
  | AddressRejected string
  | Router Error
  | DecodeRows string
  | DecodeRecord string
  | NotFound string
  | DecodeCount string
  | CountNotNumber string string num_error
  | PlanError plan_error
  | ApprovalRequired
  | Caller string
  | NotApproved string error
  | MutationStep string nat nat Op error
  | OrderingStep string nat nat Op error
  | PlanStep string nat nat Op error
  | PlanningOrder string error
  | NotConverged string Op
  | UnknownStep string

definition StatusText :: "int \<Rightarrow> string" where
  "StatusText code = (case map_of [
     (100 :: int, ''Continue''), (101, ''Switching Protocols''), (102, ''Processing''), (103, ''Early Hints''),
     (200, ''OK''), (201, ''Created''), (202, ''Accepted''), (203, ''Non-Authoritative Information''),
     (204, ''No Content''), (205, ''Reset Content''), (206, ''Partial Content''), (207, ''Multi-Status''),
     (208, ''Already Reported''), (226, ''IM Used''),
     (300, ''Multiple Choices''), (301, ''Moved Permanently''), (302, ''Found''), (303, ''See Other''),
     (304, ''Not Modified''), (305, ''Use Proxy''), (307, ''Temporary Redirect''), (308, ''Permanent Redirect''),
     (400, ''Bad Request''), (401, ''Unauthorized''), (402, ''Payment Required''), (403, ''Forbidden''),
     (404, ''Not Found''), (405, ''Method Not Allowed''), (406, ''Not Acceptable''),
     (407, ''Proxy Authentication Required''), (408, ''Request Timeout''), (409, ''Conflict''), (410, ''Gone''),
     (411, ''Length Required''), (412, ''Precondition Failed''), (413, ''Request Entity Too Large''),
     (414, ''Request URI Too Long''), (415, ''Unsupported Media Type''),
     (416, ''Requested Range Not Satisfiable''), (417, ''Expectation Failed''), (418, CHR ''I'' # CHR 0x27 # ''m a teapot''),
     (421, ''Misdirected Request''), (422, ''Unprocessable Entity''), (423, ''Locked''),
     (424, ''Failed Dependency''), (425, ''Too Early''), (426, ''Upgrade Required''),
     (428, ''Precondition Required''), (429, ''Too Many Requests''),
     (431, ''Request Header Fields Too Large''), (451, ''Unavailable For Legal Reasons''),
     (500, ''Internal Server Error''), (501, ''Not Implemented''), (502, ''Bad Gateway''),
     (503, ''Service Unavailable''), (504, ''Gateway Timeout''), (505, ''HTTP Version Not Supported''),
     (506, ''Variant Also Negotiates''), (507, ''Insufficient Storage''), (508, ''Loop Detected''),
     (510, ''Not Extended''), (511, ''Network Authentication Required'')] code of
     None \<Rightarrow> [] | Some t \<Rightarrow> t)"

definition cmpOr :: "string list \<Rightarrow> string" where
  "cmpOr ss = (case find (\<lambda>s. s \<noteq> []) ss of None \<Rightarrow> [] | Some s \<Rightarrow> s)"

definition Error_Error :: "Error \<Rightarrow> string" where
  "Error_Error e =
     ''rest: '' @ errOp e @ '': ''
     @ cmpOr [errDetail e, errMessage e, StatusText (errStatus e)]
     @ '' (error '' @ FormatInt (errCode e) @ '', http '' @ FormatInt (errStatus e) @ '')''"

definition Error_Is_NotFound :: "Error \<Rightarrow> bool" where
  "Error_Is_NotFound e \<longleftrightarrow> errStatus e = 404 \<or> errCode e = 404"

text \<open>\<^verbatim>\<open>errors.Is\<close> walks the wrapped errors.\<close>

fun Is_NotFound :: "error \<Rightarrow> bool" where
  "Is_NotFound (NotFound _) \<longleftrightarrow> True"
| "Is_NotFound (Router e) \<longleftrightarrow> Error_Is_NotFound e"
| "Is_NotFound (NotApproved _ e) \<longleftrightarrow> Is_NotFound e"
| "Is_NotFound (MutationStep _ _ _ _ e) \<longleftrightarrow> Is_NotFound e"
| "Is_NotFound (OrderingStep _ _ _ _ e) \<longleftrightarrow> Is_NotFound e"
| "Is_NotFound (PlanStep _ _ _ _ e) \<longleftrightarrow> Is_NotFound e"
| "Is_NotFound (PlanningOrder _ e) \<longleftrightarrow> Is_NotFound e"
| "Is_NotFound _ \<longleftrightarrow> False"

fun Is_AddressRejected :: "error \<Rightarrow> bool" where
  "Is_AddressRejected (AddressRejected _) \<longleftrightarrow> True"
| "Is_AddressRejected (NotApproved _ e) \<longleftrightarrow> Is_AddressRejected e"
| "Is_AddressRejected (MutationStep _ _ _ _ e) \<longleftrightarrow> Is_AddressRejected e"
| "Is_AddressRejected (OrderingStep _ _ _ _ e) \<longleftrightarrow> Is_AddressRejected e"
| "Is_AddressRejected (PlanStep _ _ _ _ e) \<longleftrightarrow> Is_AddressRejected e"
| "Is_AddressRejected (PlanningOrder _ e) \<longleftrightarrow> Is_AddressRejected e"
| "Is_AddressRejected _ \<longleftrightarrow> False"

definition asError :: "string \<Rightarrow> int \<Rightarrow> Body \<Rightarrow> error option" where
  "asError op status body =
     (let eb = unmarshal as_errorBody body;
          byStatus = (if 400 \<le> status
            then Some (Router \<lparr>errOp = op, errStatus = status, errCode = 0,
                   errMessage = StatusText status, errDetail = []\<rparr>)
            else None)
      in case eb of
           None \<Rightarrow> byStatus
         | Some b \<Rightarrow>
             (case ebCode b of
                None \<Rightarrow> byStatus
              | Some code \<Rightarrow>
                  Some (Router \<lparr>errOp = op, errStatus = status, errCode = code,
                    errMessage = ebMessage b, errDetail = ebDetail b\<rparr>)))"

fun transportError :: "string \<Rightarrow> transport \<Rightarrow> error" where
  "transportError op EOF = AddressRejected op"
| "transportError op UnexpectedEOF = AddressRejected op"
| "transportError op (Other e) = Transport op (Other e)"

section \<open>The client\<close>

text \<open>
  A client holds its transport \<^verbatim>\<open>*http.Client\<close>, an abstract value of type \<open>'h\<close>; the transport
  \<^verbatim>\<open>New\<close> builds for itself is the argument \<open>httpClient\<close>, a function of the timeout.
\<close>

record 'h Client =
  cbase :: string
  chttp :: 'h
  cuser :: string
  cpass :: string

datatype 'h Option = WithHTTPClient "'h option" | WithBasicAuth string string

fun apply_option :: "'h Option \<Rightarrow> 'h Client \<Rightarrow> 'h Client" where
  "apply_option (WithHTTPClient h) c = (case h of None \<Rightarrow> c | Some t \<Rightarrow> c\<lparr>chttp := t\<rparr>)"
| "apply_option (WithBasicAuth user pass) c = c\<lparr>cuser := user, cpass := pass\<rparr>"

definition defaultTimeout :: int where
  "defaultTimeout = 75 * 1000000000"

definition New :: "(int \<Rightarrow> 'h) \<Rightarrow> string \<Rightarrow> 'h Option list \<Rightarrow> error + 'h Client" where
  "New httpClient endpoint opts =
     (let base = TrimSuffix (TrimRight endpoint (CHR ''/'')) ''/rest''
      in if base = [] then Inl EmptyEndpoint
         else Inr (fold apply_option opts
           \<lparr>cbase = base @ ''/rest'', chttp = httpClient defaultTimeout, cuser = [], cpass = []\<rparr>))"

definition menuPath :: "string \<Rightarrow> string" where
  "menuPath p =
     (let p' = TrimRight p (CHR ''/'') in if HasPrefix p' ''/'' then p' else ''/'' @ p')"

record Request =
  reqMethod :: string
  reqURL :: string
  reqUser :: string
  reqPass :: string
  reqHeaders :: "(string \<times> string) list"
  reqBody :: "json option"

text \<open>
  What an exchange yields: the URL does not parse, the round trip fails, or a reply arrives whose
  body is read or fails to be read.
\<close>

datatype Outcome =
    NewRequestFailed
  | DoFailed transport
  | ReadFailed int transport
  | Replied int Body

type_synonym ('h, 'd) transport_fn = "'h \<Rightarrow> Request \<Rightarrow> 'd \<Rightarrow> Outcome \<times> 'd"

definition mkRequest :: "'h Client \<Rightarrow> string \<Rightarrow> string \<Rightarrow> json option \<Rightarrow> Request" where
  "mkRequest c meth path body =
     \<lparr>reqMethod = meth, reqURL = cbase c @ path, reqUser = cuser c, reqPass = cpass c,
      reqHeaders = (''Accept'', ''application/json'')
        # (if body \<noteq> None then [(''Content-Type'', ''application/json'')] else []),
      reqBody = body\<rparr>"

text \<open>The part of \<^verbatim>\<open>roundTrip\<close> after the exchange.\<close>

fun classify :: "string \<Rightarrow> Outcome \<Rightarrow> error + Body" where
  "classify op NewRequestFailed = Inl (BadRequestURL op)"
| "classify op (DoFailed e) = Inl (transportError op e)"
| "classify op (ReadFailed status e) = Inl (transportError op e)"
| "classify op (Replied status body) =
     (if body = Blank then
        (if 400 \<le> status
         then Inl (Router \<lparr>errOp = op, errStatus = status, errCode = 0,
                errMessage = StatusText status, errDetail = []\<rparr>)
         else Inr Blank)
      else (case asError op status body of Some e \<Rightarrow> Inl e | None \<Rightarrow> Inr body))"

definition roundTrip ::
  "('h, 'd) transport_fn \<Rightarrow> 'h Client \<Rightarrow> string \<Rightarrow> string \<Rightarrow> json option \<Rightarrow> 'd \<Rightarrow> (error + Body) \<times> 'd" where
  "roundTrip Do c meth path body d =
     (let op = meth @ '' '' @ path in
      if (case body of None \<Rightarrow> False | Some j \<Rightarrow> \<not> json_ok j) then (Inl (EncodeRequest op), d)
      else (let (out, d') = Do (chttp c) (mkRequest c meth path body) d in (classify op out, d')))"

fun decode :: "string \<Rightarrow> Body \<Rightarrow> error + Record list" where
  "decode op Blank = Inr []"
| "decode op (Malformed ch) = Inl (if ch = CHR ''['' then DecodeRows op else DecodeRecord op)"
| "decode op (Doc j) =
     (case j of
        JArr _ \<Rightarrow> (case unmarshal as_records (Doc j) of None \<Rightarrow> Inl (DecodeRows op) | Some rs \<Rightarrow> Inr rs)
      | _ \<Rightarrow> (case unmarshal as_record (Doc j) of None \<Rightarrow> Inl (DecodeRecord op) | Some r \<Rightarrow> Inr [r]))"

definition do ::
  "('h, 'd) transport_fn \<Rightarrow> 'h Client \<Rightarrow> string \<Rightarrow> string \<Rightarrow> json option \<Rightarrow> 'd \<Rightarrow> (error + Record list) \<times> 'd" where
  "do Do c meth path body d =
     (case roundTrip Do c meth path body d of
        (Inl e, d') \<Rightarrow> (Inl e, d')
      | (Inr raw, d') \<Rightarrow> (decode (meth @ '' '' @ path) raw, d'))"

fun first :: "Record list \<Rightarrow> Record" where
  "first [] = fmempty"
| "first (r # rs) = r"

definition List ::
  "('h, 'd) transport_fn \<Rightarrow> 'h Client \<Rightarrow> string \<Rightarrow> QueryOpt list \<Rightarrow> 'd \<Rightarrow> (error + Record list) \<times> 'd" where
  "List Do c path opts d =
     (let q = newQuery opts
      in if query_empty q then do Do c ''GET'' (menuPath path) None d
         else do Do c ''POST'' (menuPath path @ ''/print'') (Some (query_body q)) d)"

definition Get :: "('h, 'd) transport_fn \<Rightarrow> 'h Client \<Rightarrow> string \<Rightarrow> 'd \<Rightarrow> (error + Record) \<times> 'd" where
  "Get Do c path d =
     (case do Do c ''GET'' (menuPath path) None d of
        (Inl e, d') \<Rightarrow> (Inl e, d')
      | (Inr [], d') \<Rightarrow> (Inl (NotFound (''GET '' @ menuPath path)), d')
      | (Inr (r # _), d') \<Rightarrow> (Inr r, d'))"

definition Count ::
  "('h, 'd) transport_fn \<Rightarrow> 'h Client \<Rightarrow> string \<Rightarrow> QueryOpt list \<Rightarrow> 'd \<Rightarrow> (error + int) \<times> 'd" where
  "Count Do c path opts d =
     (let q = (newQuery opts)\<lparr>count := True, props := []\<rparr>;
          op = ''POST '' @ menuPath path @ ''/print''
      in case roundTrip Do c ''POST'' (menuPath path @ ''/print'') (Some (query_body q)) d of
           (Inl e, d') \<Rightarrow> (Inl e, d')
         | (Inr body, d') \<Rightarrow>
             (case unmarshal as_ret body of
                None \<Rightarrow> (Inl (DecodeCount op), d')
              | Some ret \<Rightarrow>
                  (case ParseInt ret 10 of
                     Inl e \<Rightarrow> (Inl (CountNotNumber op ret e), d')
                   | Inr n \<Rightarrow> (Inr n, d'))))"

definition Create :: "('h, 'd) transport_fn \<Rightarrow> 'h Client \<Rightarrow> string \<Rightarrow> Record \<Rightarrow> 'd \<Rightarrow> (error + Record) \<times> 'd" where
  "Create Do c path r d =
     (case do Do c ''PUT'' (menuPath path) (Some (json_of_record r)) d of
        (Inl e, d') \<Rightarrow> (Inl e, d')
      | (Inr recs, d') \<Rightarrow> (Inr (first recs), d'))"

definition Update ::
  "('h, 'd) transport_fn \<Rightarrow> 'h Client \<Rightarrow> string \<Rightarrow> string \<Rightarrow> Record \<Rightarrow> 'd \<Rightarrow> (error + Record) \<times> 'd" where
  "Update Do c path rid r d =
     (case do Do c ''PATCH'' (menuPath path @ ''/'' @ rid) (Some (json_of_record r)) d of
        (Inl e, d') \<Rightarrow> (Inl e, d')
      | (Inr recs, d') \<Rightarrow> (Inr (first recs), d'))"

definition Delete :: "('h, 'd) transport_fn \<Rightarrow> 'h Client \<Rightarrow> string \<Rightarrow> string \<Rightarrow> 'd \<Rightarrow> (error + unit) \<times> 'd" where
  "Delete Do c path rid d =
     (case do Do c ''DELETE'' (menuPath path @ ''/'' @ rid) None d of
        (Inl e, d') \<Rightarrow> (Inl e, d')
      | (Inr recs, d') \<Rightarrow> (Inr (), d'))"

definition Set :: "('h, 'd) transport_fn \<Rightarrow> 'h Client \<Rightarrow> string \<Rightarrow> Record \<Rightarrow> 'd \<Rightarrow> (error + unit) \<times> 'd" where
  "Set Do c path r d =
     (case do Do c ''POST'' (menuPath path @ ''/set'') (Some (json_of_record r)) d of
        (Inl e, d') \<Rightarrow> (Inl e, d')
      | (Inr recs, d') \<Rightarrow> (Inr (), d'))"

text \<open>A nil argument record is an empty one, and both marshal to the empty object.\<close>

definition Command ::
  "('h, 'd) transport_fn \<Rightarrow> 'h Client \<Rightarrow> string \<Rightarrow> string \<Rightarrow> Record \<Rightarrow> 'd \<Rightarrow> (error + Record list) \<times> 'd" where
  "Command Do c path cmd args d =
     do Do c ''POST'' (menuPath path @ ''/'' @ cmd) (Some (json_of_record args)) d"

section \<open>Records on the wire\<close>

definition rec_utf8 :: "Record \<Rightarrow> bool" where
  "rec_utf8 r \<longleftrightarrow> fmpred (\<lambda>k v. valid_utf8 k \<and> valid_utf8 v) r"

lemma json_of_record_ok [simp]: "json_ok (json_of_record r) \<longleftrightarrow> rec_utf8 r"
proof -
  have "json_ok (json_of_record r) \<longleftrightarrow> (\<forall>k \<in> fmdom' r. valid_utf8 k \<and> valid_utf8 (map_get r k))"
    by (simp add: json_of_record_def list_all_iff o_def)
  then show ?thesis by (simp add: rec_utf8_def fmpred_map_get)
qed

lemma map_of_record:
  "map_of (map (\<lambda>k. (k, JStr (map_get r k))) (sorted_keys r)) k = map_option JStr (fmlookup r k)"
proof -
  have "map_of (map (\<lambda>k. (k, JStr (map_get r k))) (sorted_keys r)) =
      (\<lambda>k. Some (JStr (map_get r k))) |` fmdom' r"
    by (simp add: map_of_map_restrict o_def)
  then show ?thesis
    by (cases "fmlookup r k") (auto simp: restrict_map_def fmlookup_dom'_iff map_get_Some)
qed

lemma as_record_json_of_record [simp]: "as_record (json_of_record r) = Some r"
proof -
  have "fmap_of_list (map (\<lambda>k. (k, map_get r k)) (sorted_keys r)) = r"
  proof (rule fmap_ext)
    fix k
    show "fmlookup (fmap_of_list (map (\<lambda>k. (k, map_get r k)) (sorted_keys r))) k = fmlookup r k"
      by (cases "fmlookup r k")
        (auto simp: fmlookup_of_list map_of_map_restrict restrict_map_def fmlookup_dom'_iff map_get_Some)
  qed
  then show ?thesis by (simp add: json_of_record_def list_all_iff o_def)
qed

lemma as_errorBody_json_of_record:
  "as_errorBody (json_of_record r) = Some b \<Longrightarrow> ebCode b = None"
  by (cases "fmlookup r ''error''")
    (auto simp: json_of_record_def member_def map_of_record split: option.splits)

lemma as_records_rows [simp]: "as_records (JArr (map json_of_record rs)) = Some rs"
  by (simp add: list_all_iff o_def)

lemma asError_record: "status < 400 \<Longrightarrow> asError op status (Doc (json_of_record r)) = None"
  using as_errorBody_json_of_record
  by (auto simp: asError_def unmarshal_def Let_def split: option.splits if_splits)

lemma asError_array: "status < 400 \<Longrightarrow> asError op status (Doc (JArr js)) = None"
  by (simp add: asError_def unmarshal_def)

lemma decode_record: "rec_utf8 r \<Longrightarrow> decode op (Doc (json_of_record r)) = Inr [r]"
  using as_record_json_of_record [of r] json_of_record_ok [of r]
  by (simp add: json_of_record_def unmarshal_def)

lemma decode_rows: "list_all rec_utf8 rs \<Longrightarrow> decode op (Doc (JArr (map json_of_record rs))) = Inr rs"
  by (simp add: unmarshal_def list_all_iff o_def del: as_records.simps)

text \<open>
  What a router stores is what a caller reads. A reply of status below 400 that carries the
  stored rows as an array of objects, or one row as an object, is decoded to exactly those rows,
  also when a row has a string field named \<^verbatim>\<open>error\<close>; and encoding a row for a request always
  succeeds when its strings are valid UTF-8, and never silently alters one that is not.
\<close>

theorem reply_roundtrip:
  assumes "status < 400" and "list_all rec_utf8 rs" and "rec_utf8 r"
    and "\<And>s. Do (chttp c) (mkRequest c meth path None) s = (Replied status (Doc (JArr (map json_of_record rs))), s)"
    and "\<And>s. Do (chttp c) (mkRequest c meth path (Some (json_of_record r))) s = (Replied status (Doc (json_of_record r)), s)"
  shows "do Do c meth path None d = (Inr rs, d)
    \<and> do Do c meth path (Some (json_of_record r)) d = (Inr [r], d)
    \<and> (\<not> rec_utf8 bad \<longrightarrow>
         do Do c meth path (Some (json_of_record bad)) d = (Inl (EncodeRequest (meth @ '' '' @ path)), d))"
  using assms
  by (simp add: do_def roundTrip_def asError_array asError_record decode_rows decode_record del: decode.simps)

definition error_object :: "Body \<Rightarrow> bool" where
  "error_object b \<longleftrightarrow>
     (\<exists>kvs n. b = Doc (JObj kvs) \<and> json_ok (JObj kvs) \<and> map_of kvs ''error'' = Some (JInt n) \<and> in_int64 n
       \<and> (\<forall>k \<in> {''message'', ''detail''}. \<forall>j. map_of kvs k = Some j \<longrightarrow> as_string j \<noteq> None))"

lemma as_int_ptr_Some: "as_int_ptr j = Some (Some n) \<longleftrightarrow> j = JInt n \<and> in_int64 n"
  by (cases j) auto

lemma error_object_iff: "error_object b \<longleftrightarrow> (\<exists>eb n. unmarshal as_errorBody b = Some eb \<and> ebCode eb = Some n)"
proof (cases b)
  case (Doc j)
  show ?thesis
  proof (cases j)
    case (JObj kvs)
    then show ?thesis
      by (auto simp: Doc error_object_def unmarshal_def member_def as_int_ptr_Some split: option.splits)
  qed (auto simp: Doc error_object_def unmarshal_def)
qed (auto simp: error_object_def unmarshal_def)

text \<open>
  Data and errors are told apart by status and body together. A reply that is not blank is
  handed on as data exactly when its status is below 400 and its body is not the router's error
  object: a well-formed object whose \<^verbatim>\<open>error\<close> member is a 64-bit integer and whose \<^verbatim>\<open>message\<close> and
  \<^verbatim>\<open>detail\<close>, if present, are strings or null. A body that is an error object is an error whatever
  the status, so an error is never decoded as a row.
\<close>

theorem reply_is_data_iff:
  "classify op (Replied status body) = Inr b \<longleftrightarrow> b = body \<and> status < 400 \<and> \<not> error_object body"
  by (cases "unmarshal as_errorBody body")
    (auto simp: error_object_iff asError_def Let_def unmarshal_def split: option.splits if_splits)

definition echo :: "unit \<Rightarrow> Request \<Rightarrow> unit \<Rightarrow> Outcome \<times> unit" where
  "echo h req s = (case reqBody req of
     None \<Rightarrow> (Replied 200 (Doc (JArr (map json_of_record [fmap_of_list [(''.id'', ''*1''), (''error'', ''none'')]]))), s)
   | Some j \<Rightarrow> (Replied 200 (Doc j), s))"

definition echoClient :: "unit Client" where
  "echoClient = \<lparr>cbase = ''https://10.0.10.1/rest'', chttp = (), cuser = ''admin'', cpass = []\<rparr>"

theorem reply_roundtrip_witness:
  "do echo echoClient ''GET'' ''/ip/address'' None () =
     (Inr [fmap_of_list [(''.id'', ''*1''), (''error'', ''none'')]], ())
   \<and> do echo echoClient ''GET'' ''/ip/address'' (Some (json_of_record (fmap_of_list [(''comment'', ''lan'')]))) () =
     (Inr [fmap_of_list [(''comment'', ''lan'')]], ())"
proof -
  have 1: "list_all rec_utf8 [fmap_of_list [(''.id'', ''*1''), (''error'', ''none'')]]" by code_simp
  have 2: "rec_utf8 (fmap_of_list [(''comment'', ''lan'')])" by code_simp
  show ?thesis
    using reply_roundtrip [OF _ 1 2, where Do = echo and c = echoClient and status = 200
        and meth = "''GET''" and path = "''/ip/address''" and d = "()"]
    by (simp add: echo_def mkRequest_def)
qed

section \<open>Endpoints and paths\<close>

text \<open>
  The spelling of a menu does not matter. \<^verbatim>\<open>menuPath\<close> always yields a leading slash and no
  trailing one (the root menu apart), is idempotent, and gives the same path with or without the
  leading slash and with or without a trailing one.
\<close>

lemma menuPath_normal:
  "HasPrefix (menuPath p) ''/''
   \<and> menuPath (menuPath p) = menuPath p
   \<and> menuPath (p @ ''/'') = menuPath p
   \<and> (menuPath p = ''/'' \<or> last (menuPath p) \<noteq> CHR ''/'')
   \<and> (HasPrefix p ''/'' \<or> menuPath (''/'' @ p) = menuPath p)"
proof -
  let ?t = "TrimRight p (CHR ''/'')"
  have lead: "HasPrefix (menuPath p) ''/''" by (simp add: menuPath_def Let_def)
  have end_cases: "menuPath p = ''/'' \<or> last (menuPath p) \<noteq> CHR ''/''"
    using TrimRight_last [of p "CHR ''/''"] by (cases "?t = []") (auto simp: menuPath_def Let_def)
  have "menuPath (menuPath p) = menuPath p"
    using end_cases
  proof
    assume "menuPath p = ''/''"
    then show ?thesis by (simp add: menuPath_def TrimRight_def)
  next
    assume "last (menuPath p) \<noteq> CHR ''/''"
    then have "TrimRight (menuPath p) (CHR ''/'') = menuPath p" by (intro TrimRight_id) simp
    then show ?thesis using lead by (metis menuPath_def)
  qed
  moreover have "menuPath (p @ ''/'') = menuPath p" by (simp add: menuPath_def)
  moreover have "HasPrefix p ''/'' \<or> menuPath (''/'' @ p) = menuPath p"
    by (cases p) (auto simp: menuPath_def Let_def TrimRight_Cons)
  ultimately show ?thesis using lead end_cases by blast
qed

text \<open>
  The base URL of a client. \<^verbatim>\<open>New\<close> fails exactly on an endpoint that is empty but for slashes
  and one \<^verbatim>\<open>/rest\<close>; otherwise the base ends in \<^verbatim>\<open>/rest\<close>, an endpoint already written with
  \<^verbatim>\<open>/rest\<close> and trailing slashes gives the same client as without, and the credentials are the
  last ones the options give.
\<close>

theorem New_base:
  assumes "e \<noteq> []" and "last e \<noteq> CHR ''/''" and "\<not> HasSuffix e ''/rest''"
  shows "New hc (e @ ''/rest'' @ replicate n (CHR ''/'')) opts = New hc e opts
    \<and> New hc (e @ replicate n (CHR ''/'')) opts = New hc e opts
    \<and> (\<exists>c. New hc e [WithBasicAuth u0 p0, WithHTTPClient t, WithBasicAuth u p] = Inr c
         \<and> cbase c = e @ ''/rest'' \<and> cuser c = u \<and> cpass c = p
         \<and> chttp c = (case t of None \<Rightarrow> hc defaultTimeout | Some h \<Rightarrow> h))
    \<and> New hc (replicate n (CHR ''/'')) opts = Inl EmptyEndpoint"
proof -
  have strip: "TrimRight (x @ replicate n (CHR ''/'')) (CHR ''/'') = TrimRight x (CHR ''/'')" for x
    by (induction n) (simp_all add: replicate_append_same [symmetric] flip: append_assoc)
  have e: "TrimRight e (CHR ''/'') = e" using assms by (simp add: TrimRight_id)
  have r: "TrimRight (e @ ''/rest'') (CHR ''/'') = e @ ''/rest''" by (simp add: TrimRight_id)
  have "New hc (e @ ''/rest'' @ replicate n (CHR ''/'')) opts = New hc e opts"
    using strip [of "e @ ''/rest''"] e r assms(3) TrimSuffix_append [of e "''/rest''"]
    by (simp add: New_def TrimSuffix_def)
  moreover have "New hc (e @ replicate n (CHR ''/'')) opts = New hc e opts"
    using strip [of e] by (simp add: New_def)
  moreover have "New hc (replicate n (CHR ''/'')) opts = Inl EmptyEndpoint"
    using strip [of "[]"] by (simp add: New_def TrimSuffix_def HasSuffix_def TrimRight_def)
  moreover have "\<exists>c. New hc e [WithBasicAuth u0 p0, WithHTTPClient t, WithBasicAuth u p] = Inr c
         \<and> cbase c = e @ ''/rest'' \<and> cuser c = u \<and> cpass c = p
         \<and> chttp c = (case t of None \<Rightarrow> hc defaultTimeout | Some h \<Rightarrow> h)"
    using assms e by (auto simp: New_def TrimSuffix_def split: option.splits)
  ultimately show ?thesis by blast
qed

theorem New_base_witness:
  "New (\<lambda>t. t) ''https://10.0.10.1/rest/'' [] = New (\<lambda>t. t) ''https://10.0.10.1'' []"
proof -
  have "''https://10.0.10.1'' \<noteq> []" "last ''https://10.0.10.1'' \<noteq> CHR ''/''"
    "\<not> HasSuffix ''https://10.0.10.1'' ''/rest''" by code_simp+
  from New_base [OF this, where n = 1 and hc = "\<lambda>t. t" and opts = "[]"]
  show ?thesis by simp
qed

section \<open>Failed exchanges\<close>

text \<open>
  When a client reports that the router rejected its address. Exactly when the round trip or
  the reading of the body ended in an EOF: a reset or any other transport failure keeps its own
  error, and so does every failure the router answered with. The second disjunct is a reply whose
  status line and headers did arrive and whose body was cut short.
\<close>

theorem address_rejected_iff:
  "(\<exists>e. classify op out = Inl e \<and> Is_AddressRejected e) \<longleftrightarrow>
     out \<in> {DoFailed EOF, DoFailed UnexpectedEOF} \<or> (\<exists>status. out \<in> {ReadFailed status EOF, ReadFailed status UnexpectedEOF})"
proof (cases out)
  case (DoFailed t)
  then show ?thesis by (cases t) auto
next
  case (ReadFailed status t)
  then show ?thesis by (cases t) auto
qed (auto simp: asError_def Let_def split: option.splits if_splits)

text \<open>
  What \<^verbatim>\<open>errors.Is(err, ErrNotFound)\<close> means for an exchange: the router answered 404, as the
  HTTP status or as the code of its error object; no transport failure and no malformed reply is
  ever read as an absent row.
\<close>

theorem not_found_iff:
  "(\<exists>e. classify op out = Inl e \<and> Is_NotFound e) \<longleftrightarrow>
     (\<exists>status body. out = Replied status body \<and>
        (status = 404 \<or> (\<exists>eb. unmarshal as_errorBody body = Some eb \<and> ebCode eb = Some 404)))"
proof (cases out)
  case (DoFailed t)
  then show ?thesis by (cases t) auto
next
  case (ReadFailed status t)
  then show ?thesis by (cases t) auto
next
  case (Replied status body)
  then show ?thesis
    by (cases "unmarshal as_errorBody body"; cases "body = Blank")
      (auto simp: asError_def Let_def Error_Is_NotFound_def unmarshal_def split: option.splits if_splits)
qed auto

end
