(* ===== verification/Menu_Apply.thy ===== *)
theory Menu_Apply
  imports Rest_Client
begin

text \<open>
  Package \<^verbatim>\<open>rest\<close>, file menu.go, the part that writes: \<^verbatim>\<open>Plan\<close>, \<^verbatim>\<open>Apply\<close>, \<^verbatim>\<open>ApplyChecked\<close> and
  \<^verbatim>\<open>step\<close> over the client. What the code relies on of RouterOS is the locale \<open>router\<close>: a request that
  fails has had its effect once or not at all, a request that succeeds has had it. The lemmas show what
  an apply leaves untouched on every path, success or failure, and what it has reached when it succeeds.
\<close>

section \<open>Definitions\<close>

definition Client_Plan ::
  "('h, 'd) transport_fn \<Rightarrow> 'h Client \<Rightarrow> MenuSpec \<Rightarrow> Record list \<Rightarrow> 'd \<Rightarrow> (error + Plan) \<times> 'd" where
  "Client_Plan Do c spec desired d =
     (case List Do c (Path spec) [] d of
        (Inl e, d') \<Rightarrow> (Inl e, d')
      | (Inr current, d') \<Rightarrow>
          ((case plan spec desired current of Inl e \<Rightarrow> Inl (PlanError e) | Inr p \<Rightarrow> Inr p), d'))"

definition move_args :: "string list \<Rightarrow> string \<Rightarrow> Record" where
  "move_args order before =
     (let args = fmap_of_list [(''numbers'', Join order '','')]
      in if before \<noteq> [] then fmupd ''destination'' before args else args)"

fun ignore_result :: "(error + 'a) \<times> 'd \<Rightarrow> error option \<times> 'd" where
  "ignore_result (Inl e, d) = (Some e, d)"
| "ignore_result (Inr _, d) = (None, d)"

definition step ::
  "('h, 'd) transport_fn \<Rightarrow> 'h Client \<Rightarrow> MenuSpec \<Rightarrow> Step \<Rightarrow> 'd \<Rightarrow> error option \<times> 'd" where
  "step Do c spec s d =
     (case stOp s of
        OpCreate \<Rightarrow> ignore_result (Create Do c (Path spec) (stRow s) d)
      | OpUpdate \<Rightarrow> ignore_result (Update Do c (Path spec) (stID s) (stRow s) d)
      | OpDelete \<Rightarrow> ignore_result (Delete Do c (Path spec) (stID s) d)
      | OpMove \<Rightarrow> ignore_result (Command Do c (Path spec) ''move'' (move_args (stOrder s) (stBefore s)) d)
      | OpOther s' \<Rightarrow> (Some (UnknownStep s'), d))"

text \<open>The three loops over steps: the first failure stops, wrapped with the step's position.\<close>

fun runSteps ::
  "('h, 'd) transport_fn \<Rightarrow> 'h Client \<Rightarrow> MenuSpec \<Rightarrow> (nat \<Rightarrow> Op \<Rightarrow> error \<Rightarrow> error) \<Rightarrow> nat \<Rightarrow> Step list \<Rightarrow> 'd
   \<Rightarrow> error option \<times> 'd" where
  "runSteps Do c spec wrap i [] d = (None, d)"
| "runSteps Do c spec wrap i (s # ss) d =
     (case step Do c spec s d of
        (Some e, d') \<Rightarrow> (Some (wrap (i + 1) (stOp s) e), d')
      | (None, d') \<Rightarrow> runSteps Do c spec wrap (i + 1) ss d')"

definition is_structural :: "Step \<Rightarrow> bool" where
  "is_structural s \<longleftrightarrow> stOp s = OpCreate \<or> stOp s = OpDelete"

definition apply_menu ::
  "('h, 'd) transport_fn \<Rightarrow> 'h Client \<Rightarrow> MenuSpec \<Rightarrow> Record list \<Rightarrow> (Plan \<Rightarrow> error option) option \<Rightarrow> 'd
   \<Rightarrow> (Plan \<times> error option) \<times> 'd" where
  "apply_menu Do c spec desired approve d =
     (case Client_Plan Do c spec desired d of
        (Inl e, d1) \<Rightarrow> ((emptyPlan, Some e), d1)
      | (Inr p, d1) \<Rightarrow>
          (case (case approve of None \<Rightarrow> None | Some f \<Rightarrow> f p) of
             Some e \<Rightarrow> ((p, Some (NotApproved (Path spec) e)), d1)
           | None \<Rightarrow>
               if Ordered spec \<and> list_ex is_structural (Steps p) then
                 (let mutations = filter (\<lambda>s. stOp s \<noteq> OpMove) (Steps p);
                      p1 = p\<lparr>Steps := mutations\<rparr>
                  in case runSteps Do c spec (\<lambda>i. MutationStep (Path spec) i (length mutations)) 0 mutations d1 of
                       (Some e, d2) \<Rightarrow> ((p1, Some e), d2)
                     | (None, d2) \<Rightarrow>
                         (case Client_Plan Do c spec desired d2 of
                            (Inl e, d3) \<Rightarrow> ((p1, Some (PlanningOrder (Path spec) e)), d3)
                          | (Inr ordered, d3) \<Rightarrow>
                              (case find (\<lambda>s. stOp s \<noteq> OpMove) (Steps ordered) of
                                 Some s \<Rightarrow> ((p1, Some (NotConverged (Path spec) (stOp s))), d3)
                               | None \<Rightarrow>
                                   (let p2 = p1\<lparr>Matched := Matched ordered, Steps := mutations @ Steps ordered\<rparr>;
                                        (r, d4) = runSteps Do c spec
                                          (\<lambda>i. OrderingStep (Path spec) i (length (Steps ordered))) 0 (Steps ordered) d3
                                    in ((p2, r), d4)))))
               else
                 (let (r, d2) = runSteps Do c spec (\<lambda>i. PlanStep (Path spec) i (length (Steps p))) 0 (Steps p) d1
                  in ((p, r), d2))))"

definition Apply ::
  "('h, 'd) transport_fn \<Rightarrow> 'h Client \<Rightarrow> MenuSpec \<Rightarrow> Record list \<Rightarrow> 'd \<Rightarrow> (Plan \<times> error option) \<times> 'd" where
  "Apply Do c spec desired d = apply_menu Do c spec desired None d"

definition ApplyChecked ::
  "('h, 'd) transport_fn \<Rightarrow> 'h Client \<Rightarrow> MenuSpec \<Rightarrow> Record list \<Rightarrow> (Plan \<Rightarrow> error option) option \<Rightarrow> 'd
   \<Rightarrow> (Plan \<times> error option) \<times> 'd" where
  "ApplyChecked Do c spec desired approve d =
     (case approve of
        None \<Rightarrow> ((emptyPlan, Some ApprovalRequired), d)
      | Some f \<Rightarrow> apply_menu Do c spec desired (Some f) d)"

section \<open>Moving blocks of rows\<close>

text \<open>
  The console command \<^verbatim>\<open>move\<close> as reorder's comment states it: the named rows are taken out and put
  back as a block, in the order they are named, in front of the destination or at the end.
\<close>

definition move_ids :: "string list \<Rightarrow> string \<Rightarrow> string list \<Rightarrow> string list" where
  "move_ids ids before xs =
     (let remaining = filter (\<lambda>x. x \<notin> set ids) xs
      in if before = [] then remaining @ ids
         else takeWhile (\<lambda>x. x \<noteq> before) remaining @ ids @ dropWhile (\<lambda>x. x \<noteq> before) remaining)"

definition move_rows :: "string list \<Rightarrow> string \<Rightarrow> Record list \<Rightarrow> Record list" where
  "move_rows ids before rows = map (byID rows) (move_ids ids before (map Record_ID rows))"

lemma move_ids_others:
  assumes "set ids \<inter> S = {}"
  shows "filter (\<lambda>x. x \<in> S) (move_ids ids before xs) = filter (\<lambda>x. x \<in> S) xs"
proof -
  let ?rem = "filter (\<lambda>x. x \<notin> set ids) xs"
  have ids: "filter (\<lambda>x. x \<in> S) ids = []" using assms by (auto simp: filter_empty_conv)
  have "filter (\<lambda>x. x \<in> S) (takeWhile P ?rem) @ filter (\<lambda>x. x \<in> S) (dropWhile P ?rem) = filter (\<lambda>x. x \<in> S) ?rem" for P
    by (metis filter_append takeWhile_dropWhile_id)
  moreover have "filter (\<lambda>x. x \<in> S) ?rem = filter (\<lambda>x. x \<in> S) xs"
    using assms by (auto intro: filter_cong)
  ultimately show ?thesis by (simp add: move_ids_def Let_def ids)
qed

lemma move_ids_end: "filter (\<lambda>x. x \<in> set ids) (move_ids ids [] xs) = ids"
  by (auto simp: move_ids_def filter_empty_conv filter_id_conv)

text \<open>Putting \<open>x\<close> in front of the first of the rows already in order extends the order by one.\<close>

lemma move_ids_before:
  assumes "filter (\<lambda>z. z \<in> S) xs = y # zs" and "x \<notin> S" and "y \<noteq> []"
  shows "filter (\<lambda>z. z \<in> insert x S) (move_ids [x] y xs) = x # y # zs"
proof -
  let ?rem = "filter (\<lambda>z. z \<noteq> x) xs"
  let ?A = "takeWhile (\<lambda>z. z \<noteq> y) ?rem" and ?B = "dropWhile (\<lambda>z. z \<noteq> y) ?rem"
  have drop_x: "filter (\<lambda>z. z = x \<or> z \<in> S) zs' = filter (\<lambda>z. z \<in> S) zs'" if "x \<notin> set zs'" for zs'
    using that by (auto intro: filter_cong)
  have rem: "filter (\<lambda>z. z \<in> S) ?A @ filter (\<lambda>z. z \<in> S) ?B = y # zs"
  proof -
    have "filter (\<lambda>z. z \<in> S) ?rem = y # zs" using assms(1,2) by (simp add: filter_eq_Cons_iff) (metis (mono_tags, lifting) filter_cong)
    then show ?thesis by (metis filter_append takeWhile_dropWhile_id)
  qed
  have "y \<notin> set ?A" by (auto dest: set_takeWhileD)
  then have "filter (\<lambda>z. z \<in> S) ?A = []"
    using rem by (cases "filter (\<lambda>z. z \<in> S) ?A") (auto simp: filter_eq_Cons_iff)
  moreover have "x \<notin> set ?A" "x \<notin> set ?B"
    by (auto dest: set_takeWhileD set_dropWhileD)
  ultimately show ?thesis
    using assms(2,3) rem by (simp add: move_ids_def Let_def drop_x)
qed

lemma takeWhile_dropWhile_set: "set (takeWhile P xs) \<union> set (dropWhile P xs) = set xs"
  by (metis set_append takeWhile_dropWhile_id)

lemma set_move_ids: "set ids \<subseteq> set xs \<Longrightarrow> set (move_ids ids before xs) = set xs"
  using takeWhile_dropWhile_set [of "\<lambda>x. x \<noteq> before" "filter (\<lambda>x. x \<notin> set ids) xs"]
  by (auto simp: move_ids_def Let_def)

lemma distinct_move_ids:
  assumes "distinct ids" and "distinct xs"
  shows "distinct (move_ids ids before xs)"
proof -
  let ?rem = "filter (\<lambda>x. x \<notin> set ids) xs"
  have "set (takeWhile P ?rem) \<inter> set (dropWhile P ?rem) = {}" for P
    by (metis assms(2) distinct_append distinct_filter takeWhile_dropWhile_id)
  then show ?thesis
    using assms by (auto simp: move_ids_def Let_def dest: set_takeWhileD set_dropWhileD)
qed

lemma move_rows_ids:
  assumes "set ids \<subseteq> Record_ID ` set rows"
  shows "map Record_ID (move_rows ids before rows) = move_ids ids before (map Record_ID rows)"
  using set_move_ids [of ids "map Record_ID rows" before] assms byID_in
  by (auto simp: move_rows_def intro!: map_idI)

lemma set_move_rows:
  assumes "distinct (map Record_ID rows)" and "set ids \<subseteq> Record_ID ` set rows"
  shows "set (move_rows ids before rows) = set rows"
proof -
  have "set (move_rows ids before rows) = byID rows ` Record_ID ` set rows"
    using set_move_ids [of ids "map Record_ID rows" before] assms(2) by (simp add: move_rows_def)
  also have "\<dots> = set rows" using byID_distinct [OF assms(1)] by (force simp: image_iff)
  finally show ?thesis .
qed

text \<open>The rows outside the block keep their relative order.\<close>

lemma filter_rows_ids:
  assumes "distinct (map Record_ID xs)" and "set ys = set xs"
    and "filter (\<lambda>i. i \<in> U) (map Record_ID ys) = filter (\<lambda>i. i \<in> U) (map Record_ID xs)"
  shows "filter (\<lambda>r. Record_ID r \<in> U) ys = filter (\<lambda>r. Record_ID r \<in> U) xs"
proof -
  have "map Record_ID (filter (\<lambda>r. Record_ID r \<in> U) ys) = map Record_ID (filter (\<lambda>r. Record_ID r \<in> U) xs)"
    using assms(3) by (simp add: filter_map o_def)
  then show ?thesis
    by (rule inj_on_map_eq_map [THEN iffD1, rotated])
      (use assms(1,2) in \<open>auto simp: distinct_map intro: inj_on_subset\<close>)
qed

lemma move_rows_others:
  assumes "distinct (map Record_ID rows)" and "set ids \<subseteq> Record_ID ` set rows" and "set ids \<inter> U = {}"
  shows "filter (\<lambda>r. Record_ID r \<in> U) (move_rows ids before rows) = filter (\<lambda>r. Record_ID r \<in> U) rows"
  using assms by (intro filter_rows_ids) (simp_all add: set_move_rows move_rows_ids move_ids_others)

text \<open>A sequence of moves, on the ids of the menu.\<close>

definition exec_moves :: "Step list \<Rightarrow> string list \<Rightarrow> string list" where
  "exec_moves ss = fold (\<lambda>s. move_ids (stOrder s) (stBefore s)) ss"

definition valid_move :: "string set \<Rightarrow> Step \<Rightarrow> bool" where
  "valid_move I s \<longleftrightarrow> stOrder s \<noteq> [] \<and> distinct (stOrder s) \<and> set (stOrder s) \<subseteq> I \<and> (stBefore s = [] \<or> stBefore s \<in> I - set (stOrder s))"

lemma exec_anchored:
  assumes want: "distinct want" "set want \<subseteq> set xs" "[] \<notin> set want" "want \<noteq> []" and xs: "distinct xs"
  shows "filter (\<lambda>x. x \<in> set want) (exec_moves (anchored want) xs) = want"
proof -
  let ?f = "\<lambda>i. moveStep [want ! i] (want ! Suc i)
      ''unmanaged rows are tolerated here, so only the managed order is corrected''"
  have suffix: "filter (\<lambda>x. x \<in> set (drop (length want - 1 - k) want))
      (exec_moves (map ?f (rev [length want - 1 - k ..< length want - 1])) xs) = drop (length want - 1 - k) want"
    if "k \<le> length want - 1" for k
    using that
  proof (induction k)
    case 0
    have "drop (length want - 1) want = [last want]"
      using want(4) by (cases want rule: rev_cases) auto
    then show ?case using filter_single [OF xs, of "last want"] want(2) last_in_set [OF want(4)] by (auto simp: exec_moves_def)
  next
    case (Suc k)
    let ?i = "length want - 1 - Suc k"
    have i: "length want - 1 - k = Suc ?i" "Suc ?i < length want" using Suc.prems by auto
    let ?ys = "exec_moves (map ?f (rev [Suc ?i ..< length want - 1])) xs"
    have split: "exec_moves (map ?f (rev [?i ..< length want - 1])) xs = move_ids [want ! ?i] (want ! Suc ?i) ?ys"
      using i by (simp add: exec_moves_def upt_conv_Cons moveStep_def)
    have d: "drop ?i want = want ! ?i # drop (Suc ?i) want"
      "drop (Suc ?i) want = want ! Suc ?i # drop (Suc (Suc ?i)) want"
      using i by (simp_all add: Cons_nth_drop_Suc)
    have "want ! ?i \<notin> set (drop (Suc ?i) want)" using want(1) d(1) by (metis distinct.simps(2) distinct_drop)
    moreover have "want ! Suc ?i \<noteq> []" using want(3) i nth_mem by metis
    moreover have "filter (\<lambda>x. x \<in> set (drop (Suc ?i) want)) ?ys = want ! Suc ?i # drop (Suc (Suc ?i)) want"
      using Suc.IH Suc.prems i d(2) by simp
    ultimately show ?case
      using move_ids_before [of "set (drop (Suc ?i) want)" ?ys "want ! Suc ?i" _ "want ! ?i"] d split by simp
  qed
  show ?thesis using suffix [of "length want - 1"] by (simp add: anchored_def)
qed

lemma exec_reorder:
  assumes "distinct want" and "set want \<subseteq> Record_ID ` set current" and "[] \<notin> set want"
    and "distinct (map Record_ID current)" and "want = wanted desired matched"
  shows "filter (\<lambda>x. x \<in> set want)
    (exec_moves (reorder spec desired current matched (set want)) (map Record_ID current)) = want"
proof (cases "reorder spec desired current matched (set want) = []")
  case True
  then show ?thesis using reorder_nil [OF True assms(5,4,2)] by (simp add: exec_moves_def)
next
  case False
  then have "want \<noteq> []" using assms(5) by (auto simp: reorder_def)
  then show ?thesis
    using exec_anchored [of want "map Record_ID current"] assms False move_ids_end [of want]
    by (auto simp: reorder_def Let_def exec_moves_def moveStep_def split: if_splits)
qed

lemma reorder_valid:
  assumes "s \<in> set (reorder spec desired current matched claimed)" and "distinct (wanted desired matched)"
    and "set (wanted desired matched) \<subseteq> I"
  shows "valid_move I s"
proof -
  let ?w = "wanted desired matched"
  have nth: "?w ! i \<in> I" if "i < length ?w" for i using that assms(3) nth_mem by blast
  have "?w ! Suc i \<noteq> ?w ! i" if "Suc i < length ?w" for i
    using that assms(2) by (simp add: nth_eq_iff_index_eq)
  then show ?thesis
    using assms nth
    by (auto simp: reorder_def Let_def anchored_def moveStep_def valid_move_def split: if_splits)
qed

lemma plan_valid_moves:
  assumes p: "plan spec desired current = Inr p" and "s \<in> set (Steps p)" and "stOp s = OpMove"
  shows "valid_move (Record_ID ` set current) s"
proof -
  let ?as = "assign spec current {} desired"
  note parts = plan_parts [OF p]
  have "s \<in> set (reorder spec desired current (Matched p) (set (somes ?as)))"
    using assms(2,3) unfolding parts(3) by (auto dest: edits_ops deletes_ops split: if_splits)
  moreover have "distinct (wanted desired (Matched p))" using assign_distinct parts(2) by simp
  moreover have "set (wanted desired (Matched p)) \<subseteq> Record_ID ` set current"
    unfolding parts(2) using assign_live by fastforce
  ultimately show ?thesis by (rule reorder_valid)
qed

lemma plan_ops:
  assumes p: "plan spec desired current = Inr p" and s: "s \<in> set (Steps p)"
  shows "stOp s \<in> {OpCreate, OpUpdate, OpDelete, OpMove}"
    and "stOp s = OpMove \<Longrightarrow> Ordered spec"
    and "stOp s = OpUpdate \<Longrightarrow> Key spec \<noteq> []"
proof -
  note parts = plan_parts [OF p]
  show "stOp s \<in> {OpCreate, OpUpdate, OpDelete, OpMove}" "stOp s = OpMove \<Longrightarrow> Ordered spec"
    using s unfolding parts(3) by (auto dest: edits_ops deletes_ops reorder_steps split: if_splits)
  show "Key spec \<noteq> []" if "stOp s = OpUpdate"
    using s that unfolding parts(3)
    by (auto simp: edits_iff createStep_def updateStep_def dest: deletes_ops reorder_steps split: if_splits)
qed

section \<open>What the router does with a request\<close>

text \<open>The rows a step changes, deletes or repositions, and those it changes or deletes.\<close>

definition acted :: "Step \<Rightarrow> string set" where
  "acted s = (if stOp s = OpMove then set (stOrder s)
              else if stOp s = OpUpdate \<or> stOp s = OpDelete then {stID s} else {})"

definition edited :: "Step \<Rightarrow> string set" where
  "edited s = (if stOp s = OpUpdate \<or> stOp s = OpDelete then {stID s} else {})"

lemma edited_acted: "edited s \<subseteq> acted s"
  by (simp add: edited_def acted_def)

lemma acted_step_ids: "acted s - {[]} \<subseteq> step_ids s"
  by (auto simp: acted_def step_ids_def)

text \<open>A change to the one row with id \<open>i\<close>.\<close>

definition change_at :: "string \<Rightarrow> (Record \<Rightarrow> Record) \<Rightarrow> Record list \<Rightarrow> Record list" where
  "change_at i f rows = map (\<lambda>row. if Record_ID row = i then f row else row) rows"

lemma change_at_others:
  "\<forall>row. Record_ID (f row) = Record_ID row \<Longrightarrow> i \<notin> U \<Longrightarrow>
     filter (\<lambda>r. Record_ID r \<in> U) (change_at i f rows) = filter (\<lambda>r. Record_ID r \<in> U) rows"
  by (induction rows) (auto simp: change_at_def)

lemma change_at_keeps: "r \<in> set rows \<Longrightarrow> Record_ID r \<noteq> i \<Longrightarrow> r \<in> set (change_at i f rows)"
  by (auto simp: change_at_def image_iff)

lemma change_at_ids:
  "\<forall>row. Record_ID (f row) = Record_ID row \<Longrightarrow> map Record_ID (change_at i f rows) = map Record_ID rows"
  by (simp add: change_at_def)

text \<open>
  The documented behaviour of a RouterOS menu, as seen through the client: every row has an id of
  its own; a listing returns the rows and changes nothing; a request addressed to a row changes no
  other row; new rows are appended; \<^verbatim>\<open>move\<close> places a block. A failed request may or may not have had
  its effect, since a reply can be lost; a successful one has had it.
\<close>

locale router =
  fixes Do :: "('h, 'd) transport_fn" and c :: "'h Client" and path :: string
    and rows :: "'d \<Rightarrow> Record list" and inv :: "'d \<Rightarrow> bool"
  assumes row_ids: "inv d \<Longrightarrow> distinct (map Record_ID (rows d)) \<and> [] \<notin> Record_ID ` set (rows d)"
    and list_reads: "inv d \<Longrightarrow> List Do c path [] d = (r, d') \<Longrightarrow>
      inv d' \<and> rows d' = rows d \<and> (\<forall>rs. r = Inr rs \<longrightarrow> rs = rows d)"
    and create_appends: "inv d \<Longrightarrow> Create Do c path w d = (r1, d') \<Longrightarrow>
      inv d' \<and> ((\<exists>e. r1 = Inl e) \<and> rows d' = rows d \<or> (\<exists>row. rows d' = rows d @ [row]))"
    and update_local: "inv d \<Longrightarrow> Update Do c path i w d = (r1, d') \<Longrightarrow>
      inv d' \<and> (\<exists>f. (\<forall>row. Record_ID (f row) = Record_ID row)
        \<and> rows d' = change_at i f (rows d))"
    and delete_removes: "inv d \<Longrightarrow> Delete Do c path i d = (r2, d') \<Longrightarrow>
      inv d' \<and> ((\<exists>e. r2 = Inl e) \<and> rows d' = rows d \<or> rows d' = filter (\<lambda>row. Record_ID row \<noteq> i) (rows d))"
    and move_places: "inv d \<Longrightarrow> ids \<noteq> [] \<Longrightarrow> distinct ids \<Longrightarrow> set ids \<subseteq> Record_ID ` set (rows d) \<Longrightarrow>
      before = [] \<or> before \<in> Record_ID ` set (rows d) - set ids \<Longrightarrow>
      Command Do c path ''move'' (move_args ids before) d = (r, d') \<Longrightarrow>
      inv d' \<and> ((\<exists>e. r = Inl e) \<and> rows d' = rows d \<or> rows d' = move_rows ids before (rows d))"
begin

abbreviation ids :: "'d \<Rightarrow> string set" where
  "ids d \<equiv> Record_ID ` set (rows d)"

abbreviation part :: "string set \<Rightarrow> 'd \<Rightarrow> Record list" where
  "part U d \<equiv> filter (\<lambda>r. Record_ID r \<in> U) (rows d)"

text \<open>
  What an operation keeps: the rows with an id in \<open>U\<close>, unchanged and in their order, and the rows
  with an id in \<open>W\<close>, unchanged.
\<close>

abbreviation kept :: "string set \<Rightarrow> string set \<Rightarrow> 'd \<Rightarrow> 'd \<Rightarrow> bool" where
  "kept U W d d' \<equiv> inv d' \<and> part U d' = part U d
     \<and> (\<forall>r \<in> set (rows d). Record_ID r \<in> W \<longrightarrow> r \<in> set (rows d'))"

lemma ignore_resultD: "ignore_result x = (r, d') \<Longrightarrow>
    (\<exists>y. x = (y, d') \<and> (case y of Inl e \<Rightarrow> r = Some e | Inr _ \<Rightarrow> r = None))"
  by (cases x; cases "fst x") auto

lemma step_keeps:
  assumes inv: "inv d" and st: "step Do c spec s d = (r, d')" and path: "Path spec = path"
    and mv: "stOp s = OpMove \<Longrightarrow> valid_move (ids d) s"
    and U: "U \<subseteq> ids d" "acted s \<inter> U = {}" and W: "edited s \<inter> W = {}"
  shows "kept U W d d'"
proof (cases "stOp s")
  case OpCreate
  then obtain y where y: "Create Do c path (stRow s) d = (y, d')"
    using st path by (auto simp: step_def dest!: ignore_resultD)
  from create_appends [OF inv y] consider "inv d'" "rows d' = rows d" | row where "inv d'" "rows d' = rows d @ [row]"
    by blast
  then show ?thesis
  proof cases
    case 2
    then have "Record_ID row \<notin> ids d" using row_ids [of d'] by auto
    then show ?thesis using 2 U(1) by auto
  qed simp
next
  case OpUpdate
  then obtain y where y: "Update Do c path (stID s) (stRow s) d = (y, d')"
    using st path by (auto simp: step_def dest!: ignore_resultD)
  obtain f where "inv d'" and f: "\<forall>row. Record_ID (f row) = Record_ID row"
    and rows: "rows d' = change_at (stID s) f (rows d)"
    using update_local [OF inv y] by blast
  have "stID s \<notin> U" using U(2) OpUpdate by (simp add: acted_def)
  then have "part U d' = part U d" unfolding rows using change_at_others [OF f] by simp
  moreover have "stID s \<notin> W" using W OpUpdate by (simp add: edited_def)
  ultimately show ?thesis using \<open>inv d'\<close> change_at_keeps [of _ "rows d" "stID s" f] by (metis rows)
next
  case OpDelete
  then obtain y where y: "Delete Do c path (stID s) d = (y, d')"
    using st path by (auto simp: step_def dest!: ignore_resultD)
  have "stID s \<notin> U" using U(2) OpDelete by (simp add: acted_def)
  then have "filter (\<lambda>r. Record_ID r \<in> U) (filter (\<lambda>row. Record_ID row \<noteq> stID s) (rows d)) = part U d"
    by (auto intro: filter_cong)
  moreover have "stID s \<notin> W" using W OpDelete by (simp add: edited_def)
  ultimately show ?thesis using delete_removes [OF inv y] by auto
next
  case OpMove
  then obtain y where y: "Command Do c path ''move'' (move_args (stOrder s) (stBefore s)) d = (y, d')"
    using st path by (auto simp: step_def dest!: ignore_resultD)
  have v: "stOrder s \<noteq> []" "distinct (stOrder s)" "set (stOrder s) \<subseteq> ids d" "stBefore s = [] \<or> stBefore s \<in> ids d - set (stOrder s)"
    using mv [OF OpMove] by (auto simp: valid_move_def)
  have "set (stOrder s) \<inter> U = {}" using U(2) OpMove by (simp add: acted_def)
  then have "filter (\<lambda>r. Record_ID r \<in> U) (move_rows (stOrder s) (stBefore s) (rows d)) = part U d"
    using move_rows_others row_ids [OF inv] v(3) by blast
  then show ?thesis using move_places [OF inv v y] set_move_rows row_ids [OF inv] v(3) by auto
next
  case (OpOther o')
  then show ?thesis using st inv by (simp add: step_def)
qed

lemma step_keeps_ids:
  assumes "inv d" and "step Do c spec s d = (r, d')" and "Path spec = path"
    and "stOp s = OpMove \<or> stOp s = OpUpdate" and "stOp s = OpMove \<Longrightarrow> valid_move (ids d) s"
  shows "ids d' = ids d"
  using assms(4)
proof
  assume m: "stOp s = OpMove"
  then obtain y where y: "Command Do c path ''move'' (move_args (stOrder s) (stBefore s)) d = (y, d')"
    using assms(2,3) by (auto simp: step_def dest!: ignore_resultD)
  have v: "stOrder s \<noteq> []" "distinct (stOrder s)" "set (stOrder s) \<subseteq> ids d" "stBefore s = [] \<or> stBefore s \<in> ids d - set (stOrder s)"
    using assms(5) [OF m] by (auto simp: valid_move_def)
  then show ?thesis
    using move_places [OF assms(1) v y] set_move_rows row_ids [OF assms(1)] by metis
next
  assume "stOp s = OpUpdate"
  then obtain y where y: "Update Do c path (stID s) (stRow s) d = (y, d')"
    using assms(2,3) by (auto simp: step_def dest!: ignore_resultD)
  then obtain f where "\<forall>row. Record_ID (f row) = Record_ID row" "rows d' = change_at (stID s) f (rows d)"
    using update_local [OF assms(1) y] by blast
  then have "map Record_ID (rows d') = map Record_ID (rows d)" by (simp add: change_at_ids)
  then show ?thesis by (metis set_map)
qed

lemma runSteps_keeps:
  assumes "inv d" and "runSteps Do c spec wrap i ss d = (r, d')" and "Path spec = path"
    and "(\<forall>s \<in> set ss. stOp s \<noteq> OpMove) \<or>
      (\<forall>s \<in> set ss. stOp s = OpMove \<or> stOp s = OpUpdate) \<and> (\<forall>s \<in> set ss. stOp s = OpMove \<longrightarrow> valid_move (ids d) s)"
    and "U \<subseteq> ids d" and "\<forall>s \<in> set ss. acted s \<inter> U = {} \<and> edited s \<inter> W = {}"
  shows "kept U W d d'"
  using assms
proof (induction ss arbitrary: d i)
  case (Cons s ss)
  obtain r1 d1 where s: "step Do c spec s d = (r1, d1)" by fastforce
  have k: "kept U W d d1"
    by (rule step_keeps [OF Cons.prems(1) s Cons.prems(3)]) (use Cons.prems(4,5,6) in auto)
  have "U \<subseteq> ids d1"
  proof
    fix u
    assume "u \<in> U"
    then obtain row where "row \<in> set (part U d)" "Record_ID row = u" using Cons.prems(5) by auto
    then show "u \<in> ids d1" using k by (metis (no_types, lifting) filter_is_subset imageI subsetD)
  qed
  moreover have "(\<forall>s \<in> set ss. stOp s \<noteq> OpMove) \<or>
      (\<forall>s \<in> set ss. stOp s = OpMove \<or> stOp s = OpUpdate) \<and> (\<forall>s \<in> set ss. stOp s = OpMove \<longrightarrow> valid_move (ids d1) s)"
    using Cons.prems(4) step_keeps_ids [OF Cons.prems(1) s Cons.prems(3)] by auto
  ultimately show ?case
    using Cons.IH [of d1 "i + 1"] Cons.prems(2,3,6) k s by (auto split: option.splits)
qed simp

end

section \<open>The phases of an apply\<close>

abbreviation mutations_of :: "Plan \<Rightarrow> Step list" where
  "mutations_of p \<equiv> filter (\<lambda>s. stOp s \<noteq> OpMove) (Steps p)"

text \<open>
  How an apply can end: no plan, refused, all steps run or one failed, the structural phase failed,
  the second planning failed or found more to do, and the ordering phase finished or failed.
\<close>

lemma apply_phases:
  assumes "apply_menu Do c spec desired approve d = ((p, e), d')"
  obtains (NoPlan) err where "Client_Plan Do c spec desired d = (Inl err, d')" "p = emptyPlan" "e = Some err"
  | (Refused) f err where "Client_Plan Do c spec desired d = (Inr p, d')" "approve = Some f" "f p = Some err"
      "e = Some (NotApproved (Path spec) err)"
  | (Plain) d1 wrap where "Client_Plan Do c spec desired d = (Inr p, d1)"
      "\<not> (Ordered spec \<and> list_ex is_structural (Steps p))" "\<forall>f. approve = Some f \<longrightarrow> f p = None"
      "runSteps Do c spec wrap 0 (Steps p) d1 = (e, d')"
  | (Mutating) p0 d1 wrap where "Client_Plan Do c spec desired d = (Inr p0, d1)" "\<forall>f. approve = Some f \<longrightarrow> f p0 = None"
      "p = p0\<lparr>Steps := mutations_of p0\<rparr>" "e \<noteq> None" "Ordered spec" "list_ex is_structural (Steps p0)"
      "runSteps Do c spec wrap 0 (mutations_of p0) d1 = (e, d')"
  | (Replanning) p0 d1 wrap d2 res where "Client_Plan Do c spec desired d = (Inr p0, d1)" "\<forall>f. approve = Some f \<longrightarrow> f p0 = None"
      "p = p0\<lparr>Steps := mutations_of p0\<rparr>" "e \<noteq> None" "Ordered spec" "list_ex is_structural (Steps p0)"
      "runSteps Do c spec wrap 0 (mutations_of p0) d1 = (None, d2)"
      "Client_Plan Do c spec desired d2 = (res, d')"
      "\<forall>ordered. res = Inr ordered \<longrightarrow> \<not> (\<forall>s \<in> set (Steps ordered). stOp s = OpMove)"
  | (Ordering) p0 d1 wrap d2 ordered d3 wrap' where "Client_Plan Do c spec desired d = (Inr p0, d1)"
      "\<forall>f. approve = Some f \<longrightarrow> f p0 = None" "Ordered spec" "list_ex is_structural (Steps p0)"
      "runSteps Do c spec wrap 0 (mutations_of p0) d1 = (None, d2)"
      "Client_Plan Do c spec desired d2 = (Inr ordered, d3)" "\<forall>s \<in> set (Steps ordered). stOp s = OpMove"
      "p = p0\<lparr>Steps := mutations_of p0 @ Steps ordered, Matched := Matched ordered\<rparr>"
      "runSteps Do c spec wrap' 0 (Steps ordered) d3 = (e, d')"
proof -
  obtain r1 d1 where r1: "Client_Plan Do c spec desired d = (r1, d1)" by fastforce
  show thesis
  proof (cases r1)
    case (Inl err)
    then show thesis using NoPlan assms r1 by (simp add: apply_menu_def)
  next
    case (Inr p0)
    show thesis
    proof (cases "case approve of None \<Rightarrow> None | Some f \<Rightarrow> f p0")
      case (Some err)
      then obtain f where "approve = Some f" "f p0 = Some err" by (cases approve) auto
      then show thesis using Refused assms r1 Inr by (simp add: apply_menu_def)
    next
      case None
      then have ok: "\<forall>f. approve = Some f \<longrightarrow> f p0 = None" by (cases approve) auto
      show thesis
      proof (cases "Ordered spec \<and> list_ex is_structural (Steps p0)")
        case False
        have "\<exists>wrap. p = p0 \<and> runSteps Do c spec wrap 0 (Steps p0) d1 = (e, d')"
          using assms by (auto simp: apply_menu_def r1 Inr None False split: prod.splits)
        then show thesis using Plain False r1 Inr ok by blast
      next
        case True
        let ?wrap = "\<lambda>i. MutationStep (Path spec) i (length (mutations_of p0))"
        obtain r2 d2 where r2: "runSteps Do c spec ?wrap 0 (mutations_of p0) d1 = (r2, d2)" by fastforce
        obtain r3 d3 where r3: "Client_Plan Do c spec desired d2 = (r3, d3)" by fastforce
        show thesis
        proof (cases r2)
          case (Some err)
          then have "p = p0\<lparr>Steps := mutations_of p0\<rparr>" "e = r2" "d' = d2"
            using assms True r1 r2 Inr None by (simp_all add: apply_menu_def)
          then show thesis using Mutating [of p0 d1 ?wrap] ok r1 r2 Inr True Some by simp
        next
          case r2N: None
          show thesis
          proof (cases "\<exists>ordered. r3 = Inr ordered \<and> find (\<lambda>s. stOp s \<noteq> OpMove) (Steps ordered) = None")
            case True': True
            then obtain ordered where o: "r3 = Inr ordered" "find (\<lambda>s. stOp s \<noteq> OpMove) (Steps ordered) = None" by blast
            have "\<exists>wrap'. p = p0\<lparr>Steps := mutations_of p0 @ Steps ordered, Matched := Matched ordered\<rparr>
                \<and> runSteps Do c spec wrap' 0 (Steps ordered) d3 = (e, d')"
              using assms by (auto simp: apply_menu_def r1 Inr None True r2 r2N r3 o split: prod.splits)
            then obtain wrap' where w: "p = p0\<lparr>Steps := mutations_of p0 @ Steps ordered, Matched := Matched ordered\<rparr>"
                "runSteps Do c spec wrap' 0 (Steps ordered) d3 = (e, d')"
              by blast
            have "\<forall>s \<in> set (Steps ordered). stOp s = OpMove" using o(2) by (simp add: find_None_iff)
            then show thesis
              using Ordering [OF _ ok _ _ r2 [unfolded r2N] r3 [unfolded o(1)] _ w] r1 Inr True by simp
          next
            case False
            then have "p = p0\<lparr>Steps := mutations_of p0\<rparr> \<and> e \<noteq> None \<and> d3 = d'"
              using assms by (auto simp: apply_menu_def Let_def r1 Inr None True r2 r2N r3 split: sum.splits option.splits)
            moreover have "\<forall>ordered. r3 = Inr ordered \<longrightarrow> \<not> (\<forall>s \<in> set (Steps ordered). stOp s = OpMove)"
              using False by (auto simp: find_None_iff)
            ultimately show thesis
              using Replanning [of p0 d1 ?wrap d2 r3] ok r1 r2 r2N r3 Inr True by simp
          qed
        qed
      qed
    qed
  qed
qed

context router
begin

lemma plan_reads:
  assumes "inv d" and "Client_Plan Do c spec desired d = (r, d')" and "Path spec = path"
  shows "inv d' \<and> rows d' = rows d \<and> (\<forall>p. r = Inr p \<longrightarrow> plan spec desired (rows d) = Inr p)"
proof -
  obtain r0 d0 where l: "List Do c path [] d = (r0, d0)" by fastforce
  then show ?thesis
    using list_reads [OF assms(1) l] assms(2,3)
    by (auto simp: Client_Plan_def split: sum.splits)
qed

lemma mutations_keep:
  assumes "inv d" and "runSteps Do c spec wrap i (mutations_of p) d = (r, d')" and "Path spec = path"
    and "U \<subseteq> ids d" and "\<forall>s \<in> set (mutations_of p). acted s \<inter> U = {} \<and> edited s \<inter> W = {}"
  shows "kept U W d d'"
  using assms(5) by (intro runSteps_keeps [OF assms(1,2,3) _ assms(4)]) auto

lemma moves_keep:
  assumes "inv d" and "runSteps Do c spec wrap i (Steps p) d = (r, d')" and "Path spec = path"
    and "plan spec desired (rows d) = Inr p" and "\<not> (Ordered spec \<and> list_ex is_structural (Steps p))"
    and "U \<subseteq> ids d" and "\<forall>s \<in> set (Steps p). acted s \<inter> U = {} \<and> edited s \<inter> W = {}"
  shows "kept U W d d'"
proof (rule runSteps_keeps [OF assms(1,2,3) _ assms(6,7)])
  show "(\<forall>s \<in> set (Steps p). stOp s \<noteq> OpMove) \<or>
      (\<forall>s \<in> set (Steps p). stOp s = OpMove \<or> stOp s = OpUpdate)
      \<and> (\<forall>s \<in> set (Steps p). stOp s = OpMove \<longrightarrow> valid_move (ids d) s)"
    using plan_ops [OF assms(4)] plan_valid_moves [OF assms(4)] assms(5)
    by (cases "Ordered spec") (auto simp: list_ex_iff is_structural_def)
qed

lemma part_subset:
  assumes "part U d' = part U d" and "U \<subseteq> ids d"
  shows "U \<subseteq> ids d'"
proof
  fix u
  assume "u \<in> U"
  then obtain row where "row \<in> set (part U d)" "Record_ID row = u" using assms(2) by auto
  then show "u \<in> ids d'" using assms(1) by (metis (no_types, lifting) filter_is_subset imageI subsetD)
qed

text \<open>The plan an apply returns accounts for every row it changes, removes or repositions.\<close>

lemma apply_accounts:
  assumes inv: "inv d" and path: "Path spec = path"
    and run: "apply_menu Do c spec desired approve d = ((p, e), d')"
    and U: "U \<subseteq> ids d" "\<forall>s \<in> set (Steps p). acted s \<inter> U = {} \<and> edited s \<inter> W = {}"
  shows "kept U W d d'"
  using run
proof (cases rule: apply_phases)
  case (NoPlan err)
  then show ?thesis using plan_reads [OF inv NoPlan(1) path] by simp
next
  case (Refused f err)
  then show ?thesis using plan_reads [OF inv Refused(1) path] by simp
next
  case (Plain d1 wrap)
  note r = plan_reads [OF inv Plain(1) path]
  have "kept U W d1 d'"
    by (rule moves_keep [OF _ Plain(4) path _ Plain(2)]) (use r U in auto)
  then show ?thesis using r by simp
next
  case (Mutating p0 d1 wrap)
  note r = plan_reads [OF inv Mutating(1) path]
  have "kept U W d1 d'"
    by (rule mutations_keep [OF _ Mutating(7) path]) (use r U Mutating(3) in auto)
  then show ?thesis using r by simp
next
  case (Replanning p0 d1 wrap d2 res)
  note r = plan_reads [OF inv Replanning(1) path]
  have m: "kept U W d1 d2"
    by (rule mutations_keep [OF _ Replanning(7) path]) (use r U Replanning(3) in auto)
  then show ?thesis using r plan_reads [OF _ Replanning(8) path] by simp
next
  case (Ordering p0 d1 wrap d2 ordered d3 wrap')
  note r = plan_reads [OF inv Ordering(1) path]
  have m: "kept U W d1 d2"
    by (rule mutations_keep [OF _ Ordering(5) path]) (use r U Ordering(8) in auto)
  note r2 = plan_reads [OF conjunct1 [OF m] Ordering(6) path]
  have "kept U W d3 d'"
  proof (rule moves_keep [OF _ Ordering(9) path])
    show "\<not> (Ordered spec \<and> list_ex is_structural (Steps ordered))"
      using Ordering(7) by (auto simp: list_ex_iff is_structural_def)
    show "U \<subseteq> ids d3" using part_subset [of U d2 d] m r r2 U(1) by simp
  qed (use r2 U Ordering(8) in auto)
  then show ?thesis using m r r2 by simp
qed

end

context router
begin

lemma run_moves:
  assumes "inv d" and "runSteps Do c spec wrap i ss d = (None, d')" and "Path spec = path"
    and "\<forall>s \<in> set ss. stOp s = OpMove \<and> valid_move (ids d) s"
  shows "inv d' \<and> map Record_ID (rows d') = exec_moves ss (map Record_ID (rows d)) \<and> set (rows d') = set (rows d)"
  using assms
proof (induction ss arbitrary: d i)
  case (Cons s ss)
  have m: "stOp s = OpMove" and v: "stOrder s \<noteq> []" "distinct (stOrder s)" "set (stOrder s) \<subseteq> ids d"
      "stBefore s = [] \<or> stBefore s \<in> ids d - set (stOrder s)"
    using Cons.prems(4) by (auto simp: valid_move_def)
  obtain r1 d1 where s: "step Do c spec s d = (r1, d1)" by fastforce
  then have "r1 = None" using Cons.prems(2) by (auto split: option.splits)
  then obtain y where y: "Command Do c path ''move'' (move_args (stOrder s) (stBefore s)) d = (Inr y, d1)"
    using s m Cons.prems(3) by (auto simp: step_def dest!: ignore_resultD split: sum.splits)
  have d1: "inv d1" "rows d1 = move_rows (stOrder s) (stBefore s) (rows d)"
    using move_places [OF Cons.prems(1) v y] by auto
  have set1: "set (rows d1) = set (rows d)"
    using d1(2) set_move_rows row_ids [OF Cons.prems(1)] v(3) by simp
  have ids1: "map Record_ID (rows d1) = move_ids (stOrder s) (stBefore s) (map Record_ID (rows d))"
    using d1(2) move_rows_ids v(3) by simp
  have "runSteps Do c spec wrap (i + 1) ss d1 = (None, d')"
    using Cons.prems(2) s \<open>r1 = None\<close> by simp
  from Cons.IH [OF d1(1) this Cons.prems(3)] show ?case
    using Cons.prems(4) set1 ids1 by (simp add: exec_moves_def)
qed (simp add: exec_moves_def)

lemma ordering_satisfies:
  assumes inv: "inv d" and run: "runSteps Do c spec wrap i (Steps p) d = (None, d')" and path: "Path spec = path"
    and p: "plan spec desired (rows d) = Inr p" and moves: "\<forall>s \<in> set (Steps p). stOp s = OpMove"
    and ord: "Ordered spec"
  shows "inv d' \<and> satisfied spec desired (rows d')"
proof -
  have dist: "distinct (map Record_ID (rows d))" and ne: "[] \<notin> ids d" using row_ids [OF inv] by auto
  note only = plan_only_moves [OF p moves dist]
  let ?want = "wanted desired (Matched p)"
  have fin: "inv d'" "map Record_ID (rows d') = exec_moves (Steps p) (map Record_ID (rows d))"
      "set (rows d') = set (rows d)"
    using run_moves [OF inv run path] moves plan_valid_moves [OF p] by auto
  have dist': "distinct (map Record_ID (rows d'))" using row_ids [OF fin(1)] by simp
  have order: "filter (\<lambda>x. x \<in> set ?want) (map Record_ID (rows d')) = ?want"
    unfolding fin(2) only(7) using ord exec_reorder [OF only(2,3) _ dist refl] only(3) ne by auto
  have same: "byID (rows d') x = byID (rows d) x" if x: "x \<in> set ?want" for x
  proof -
    obtain r where r: "r \<in> set (rows d)" "Record_ID r = x" using x only(3) by auto
    then show ?thesis using byID_distinct [OF dist r(1)] byID_distinct [OF dist', of r] fin(3) by simp
  qed
  have "satisfied spec desired (rows d')"
  proof (rule satisfied_arranged [OF dist' order only(1)])
    show "subset_rec (desired ! j) (byID (rows d') (?want ! j))" if "j < length desired" for j
      using only(4) [OF that] same [of "?want ! j"] only(1) that by simp
  qed (use only(5,6) fin(3) in auto)
  then show ?thesis using fin(1) by simp
qed

text \<open>
  When an apply of an ordered menu returns without an error, the menu satisfies the specification.
  Nothing is assumed about what the router stores for a created row: the second reading decides.
\<close>

lemma apply_satisfies:
  assumes inv: "inv d" and path: "Path spec = path" and ord: "Ordered spec" and key: "Key spec = []"
    and run: "apply_menu Do c spec desired approve d = ((p, None), d')"
  shows "inv d' \<and> satisfied spec desired (rows d')"
  using run
proof (cases rule: apply_phases)
  case (Plain d1 wrap)
  note r = plan_reads [OF inv Plain(1) path]
  have "plan spec desired (rows d) = Inr p" using r by simp
  from plan_ops [OF this] have "\<forall>s \<in> set (Steps p). stOp s = OpMove"
    using Plain(2) ord key by (auto simp: list_ex_iff is_structural_def)
  then show ?thesis
    using ordering_satisfies [OF _ Plain(4) path _ _ ord, of desired] r by simp
next
  case (Ordering p0 d1 wrap d2 ordered d3 wrap')
  note r = plan_reads [OF inv Ordering(1) path]
  have "kept {} {} d1 d2"
    by (rule mutations_keep [OF _ Ordering(5) path]) (use r in auto)
  then have "inv d2" by simp
  note r2 = plan_reads [OF this Ordering(6) path]
  show ?thesis
    using ordering_satisfies [OF _ Ordering(9) path _ Ordering(7) ord, of desired] r2 by simp
qed auto

lemma ignored_not_acted:
  assumes "inv d" and "plan spec desired (rows d) = Inr p" and "U \<subseteq> ids d"
    and "\<forall>r \<in> set (part U d). ignored spec r"
  shows "\<forall>s \<in> set (Steps p). acted s \<inter> U = {}"
proof (intro ballI equals0I)
  fix s u
  assume s: "s \<in> set (Steps p)" and u: "u \<in> acted s \<inter> U"
  then obtain r where r: "r \<in> set (rows d)" "Record_ID r = u" using assms(3) by auto
  then have "ignored spec r" using assms(4) u by auto
  moreover have "u \<noteq> []" using row_ids [OF assms(1)] r by (metis imageI)
  then have "u \<in> step_ids s" using u acted_step_ids [of s] by auto
  then obtain r' where "r' \<in> set (rows d)" "Record_ID r' = u" "live spec r'"
    using plan_step_live [OF assms(2) s] by blast
  moreover have "distinct (map Record_ID (rows d))" using row_ids [OF assms(1)] by simp
  ultimately show False using r distinct_map_inj by (metis live_def)
qed

text \<open>Ignored rows survive an apply, unchanged and in their order, whatever it returns.\<close>

lemma apply_keeps_ignored:
  assumes inv: "inv d" and path: "Path spec = path"
    and run: "apply_menu Do c spec desired approve d = ((p, e), d')"
    and U: "U = Record_ID ` {r \<in> set (rows d). ignored spec r}"
  shows "part U d' = filter (ignored spec) (rows d)"
proof -
  have dist: "distinct (map Record_ID (rows d))" using row_ids [OF inv] by simp
  have mem: "Record_ID r \<in> U \<longleftrightarrow> ignored spec r" if "r \<in> set (rows d)" for r
    using that distinct_map_inj [OF dist] by (auto simp: U)
  have part: "part U d = filter (ignored spec) (rows d)" using mem by (auto intro: filter_cong)
  have Uids: "U \<subseteq> ids d" by (auto simp: U)
  have avoid: "\<forall>s \<in> set (Steps q). acted s \<inter> U = {}"
    if "inv x" "plan spec desired (rows x) = Inr q" "part U x = part U d" for x q
    using that(1,2)
  proof (rule ignored_not_acted)
    show "U \<subseteq> ids x" using part_subset that(3) Uids by simp
    show "\<forall>r \<in> set (part U x). ignored spec r" unfolding that(3) part by simp
  qed
  have "\<forall>s \<in> set (Steps p). acted s \<inter> U = {}"
    using run
  proof (cases rule: apply_phases)
    case NoPlan
    then show ?thesis by (simp add: emptyPlan_def)
  next
    case Refused
    then show ?thesis using avoid [OF inv] plan_reads [OF inv Refused(1) path] by simp
  next
    case Plain
    then show ?thesis using avoid [OF inv] plan_reads [OF inv Plain(1) path] by simp
  next
    case Mutating
    then show ?thesis using avoid [OF inv] plan_reads [OF inv Mutating(1) path] by simp
  next
    case Replanning
    then show ?thesis using avoid [OF inv] plan_reads [OF inv Replanning(1) path] by simp
  next
    case (Ordering p0 d1 wrap d2 ordered d3 wrap')
    note r = plan_reads [OF inv Ordering(1) path]
    have p0: "\<forall>s \<in> set (Steps p0). acted s \<inter> U = {}" using avoid [OF inv] r by simp
    have m: "kept U {} d1 d2"
      by (rule mutations_keep [OF _ Ordering(5) path]) (use r p0 Uids in auto)
    then have "\<forall>s \<in> set (Steps ordered). acted s \<inter> U = {}"
      using avoid [of d2] plan_reads [OF _ Ordering(6) path] r by simp
    then show ?thesis using p0 Ordering(8) by auto
  qed
  then show ?thesis using apply_accounts [OF inv path run Uids, of "{}"] part by simp
qed

end

lemma tolerate_steps:
  assumes p: "plan spec desired current = Inr p" and pol: "Unlisted spec = UnlistedTolerate" and key: "Key spec = []"
    and s: "s \<in> set (Steps p)"
  shows "edited s = {} \<and> acted s \<subseteq> fmran' (Matched p) \<and> (stOp s \<noteq> OpMove \<longrightarrow> acted s = {})"
proof -
  let ?as = "assign spec current {} desired"
  note parts = plan_parts [OF p]
  have "Unlisted spec \<noteq> UnlistedPrune" by (simp add: pol UnlistedPrune_def UnlistedTolerate_def)
  then consider "s \<in> set (edits spec current (Matched p) 0 desired)"
    | "s \<in> set (reorder spec desired current (Matched p) (set (somes ?as)))"
    using s parts(3) by (auto split: if_splits)
  then show ?thesis
  proof cases
    case 1
    then show ?thesis using key by (auto simp: edits_iff createStep_def edited_def acted_def)
  next
    case 2
    have "set (wanted desired (Matched p)) \<subseteq> fmran' (Matched p)"
    proof
      fix x
      assume "x \<in> set (wanted desired (Matched p))"
      then obtain j where "j < length desired" "?as ! j = Some x"
        unfolding parts(2) by (auto simp: in_set_conv_nth)
      then show "x \<in> fmran' (Matched p)" using parts(1) [of j] by (auto simp: fmran'I)
    qed
    then show ?thesis using reorder_steps [OF 2] by (auto simp: edited_def acted_def)
  qed
qed

context router
begin

text \<open>
  An unkeyed menu under the tolerate policy: nothing on the device is edited or lost, and the rows
  no desired row resolved to keep their relative order.
\<close>

lemma apply_tolerates:
  assumes inv: "inv d" and path: "Path spec = path" and pol: "Unlisted spec = UnlistedTolerate" and key: "Key spec = []"
    and run: "apply_menu Do c spec desired approve d = ((p, e), d')"
  shows "kept (ids d - fmran' (Matched p)) (ids d) d d'"
proof -
  note tol = tolerate_steps [OF _ pol key]
  have "\<forall>s \<in> set (Steps p). edited s = {} \<and> acted s \<subseteq> fmran' (Matched p)"
    using run
  proof (cases rule: apply_phases)
    case NoPlan
    then show ?thesis by (simp add: emptyPlan_def)
  next
    case Refused
    then show ?thesis using tol plan_reads [OF inv Refused(1) path] by blast
  next
    case Plain
    then show ?thesis using tol plan_reads [OF inv Plain(1) path] by blast
  next
    case Mutating
    then show ?thesis using tol plan_reads [OF inv Mutating(1) path] by fastforce
  next
    case Replanning
    then show ?thesis using tol plan_reads [OF inv Replanning(1) path] by fastforce
  next
    case (Ordering p0 d1 wrap d2 ordered d3 wrap')
    note r = plan_reads [OF inv Ordering(1) path]
    have p0: "\<forall>s \<in> set (mutations_of p0). edited s = {} \<and> acted s = {}" using tol r by auto
    have "kept {} {} d1 d2"
      by (rule mutations_keep [OF _ Ordering(5) path]) (use r in auto)
    then have "\<forall>s \<in> set (Steps ordered). edited s = {} \<and> acted s \<subseteq> fmran' (Matched ordered)"
      using tol plan_reads [OF _ Ordering(6) path] by blast
    then show ?thesis using p0 Ordering(8) by auto
  qed
  then show ?thesis by (intro apply_accounts [OF inv path run]) auto
qed

end

context router
begin

text \<open>A row is edited or deleted only by a step of the plan of the reading the apply started from.\<close>

lemma apply_edits_planned:
  assumes inv: "inv d" and path: "Path spec = path"
    and run: "apply_menu Do c spec desired approve d = ((p, e), d')"
    and s: "s \<in> set (Steps p)" "edited s \<noteq> {}"
  shows "\<exists>p0. plan spec desired (rows d) = Inr p0 \<and> s \<in> set (Steps p0)"
  using run
proof (cases rule: apply_phases)
  case NoPlan
  then show ?thesis using s by (simp add: emptyPlan_def)
next
  case Refused
  then show ?thesis using s plan_reads [OF inv Refused(1) path] by blast
next
  case Plain
  then show ?thesis using s plan_reads [OF inv Plain(1) path] by blast
next
  case Mutating
  then show ?thesis using s plan_reads [OF inv Mutating(1) path] by fastforce
next
  case Replanning
  then show ?thesis using s plan_reads [OF inv Replanning(1) path] by fastforce
next
  case (Ordering p0 d1 wrap d2 ordered d3 wrap')
  have "s \<notin> set (Steps ordered)" using s(2) Ordering(7) by (auto simp: edited_def)
  then have "s \<in> set (Steps p0)" using s(1) Ordering(8) by auto
  then show ?thesis using plan_reads [OF inv Ordering(1) path] by blast
qed

lemma lost_row:
  assumes inv: "inv d" and path: "Path spec = path"
    and run: "apply_menu Do c spec desired approve d = ((p, e), d')"
    and row: "row \<in> set (rows d)" "row \<notin> set (rows d')"
  shows "\<exists>p0 s. plan spec desired (rows d) = Inr p0 \<and> s \<in> set (Steps p0) \<and> Record_ID row \<in> edited s
    \<and> (\<forall>f. approve = Some f \<longrightarrow> f p0 = None)"
proof -
  have "\<exists>s \<in> set (Steps p). Record_ID row \<in> edited s"
    using apply_accounts [OF inv path run, of "{}" "{Record_ID row}"] row by auto
  then obtain s p0 where s: "s \<in> set (Steps p)" "Record_ID row \<in> edited s" "plan spec desired (rows d) = Inr p0" "s \<in> set (Steps p0)"
    using apply_edits_planned [OF inv path run] by blast
  have ne: "rows d' \<noteq> rows d" using row by auto
  from run have "\<forall>f. approve = Some f \<longrightarrow> f p0 = None"
  proof (cases rule: apply_phases)
    case (NoPlan err)
    then show ?thesis using plan_reads [OF inv NoPlan(1) path] ne by simp
  next
    case (Refused f err)
    then show ?thesis using plan_reads [OF inv Refused(1) path] ne by simp
  next
    case Plain
    then show ?thesis using plan_reads [OF inv Plain(1) path] s(3) by simp
  next
    case Mutating
    then show ?thesis using plan_reads [OF inv Mutating(1) path] s(3) by simp
  next
    case Replanning
    then show ?thesis using plan_reads [OF inv Replanning(1) path] s(3) by simp
  next
    case Ordering
    then show ?thesis using plan_reads [OF inv Ordering(1) path] s(3) by simp
  qed
  then show ?thesis using s by blast
qed

end

end
