(* ===== verification/Ordering_Router.thy ===== *)
theory Ordering_Router
  imports Menu_Apply
begin

text \<open>
  The router of the package's own tests, \<^verbatim>\<open>orderingRouter\<close> of menu_test.go: the slice of RouterOS an
  apply exercises, as a function from a request and a menu to a reply and a menu. Listing, creating
  and moving are the test's; PATCH and DELETE of a row, which that test does not need, are added so
  that every request of \<^verbatim>\<open>step\<close> has an answer. The locale \<open>router\<close> is interpreted on the client
  talking to this router: the laws are discharged by running the client's own code.
\<close>

section \<open>Definitions\<close>

record orderingRouter =
  orRows :: "Record list"
  nextID :: nat

definition or_move :: "string list \<Rightarrow> string \<Rightarrow> Record list \<Rightarrow> Record list" where
  "or_move order before rows =
     (let block = map (byID rows) order;
          remaining = filter (\<lambda>row. Record_ID row \<notin> set order) rows
      in if before = [] then remaining @ block
         else if list_ex (\<lambda>row. Record_ID row = before) remaining
         then takeWhile (\<lambda>row. Record_ID row \<noteq> before) remaining @ block
                @ dropWhile (\<lambda>row. Record_ID row \<noteq> before) remaining
         else rows)"

definition or_path :: string where
  "or_path = ''/ip/firewall/filter''"

definition or_url :: string where
  "or_url = ''http://router/rest'' @ or_path"

definition new_id :: "nat \<Rightarrow> string" where
  "new_id n = CHR ''*'' # show_nat n"

definition body_record :: "Request \<Rightarrow> Record" where
  "body_record req =
     (case reqBody req of
        None \<Rightarrow> fmempty
      | Some j \<Rightarrow> (case unmarshal as_record (Doc j) of None \<Rightarrow> fmempty | Some r \<Rightarrow> r))"

definition merge :: "Record \<Rightarrow> Record \<Rightarrow> Record" where
  "merge changed row = row ++\<^sub>f fmdrop IDField changed"

definition serveHTTP :: "unit \<Rightarrow> Request \<Rightarrow> orderingRouter \<Rightarrow> Outcome \<times> orderingRouter" where
  "serveHTTP h req d =
     (let m = reqMethod req; url = reqURL req; rid = TrimPrefix url (or_url @ ''/'');
          known = list_ex (\<lambda>row. Record_ID row = rid) (orRows d)
      in if m = ''GET'' \<and> url = or_url
         then (Replied 200 (Doc (JArr (map json_of_record (orRows d)))), d)
         else if m = ''PUT'' \<and> url = or_url then
           (let n = nextID d + 1; created = fmupd IDField (new_id n) (body_record req)
            in (Replied 201 (Doc (json_of_record created)), d\<lparr>orRows := orRows d @ [created], nextID := n\<rparr>))
         else if m = ''POST'' \<and> url = or_url @ ''/move'' then
           (let args = body_record req
            in (Replied 200 (Doc (JArr [])),
                d\<lparr>orRows := or_move (Split (map_get args ''numbers'') (CHR '','')) (map_get args ''destination'') (orRows d)\<rparr>))
         else if m = ''PATCH'' \<and> HasPrefix url (or_url @ ''/'') \<and> known then
           (let rows = change_at rid (merge (body_record req)) (orRows d)
            in (Replied 200 (Doc (json_of_record (byID rows rid))), d\<lparr>orRows := rows\<rparr>))
         else if m = ''DELETE'' \<and> HasPrefix url (or_url @ ''/'') \<and> known then
           (Replied 204 Blank, d\<lparr>orRows := filter (\<lambda>row. Record_ID row \<noteq> rid) (orRows d)\<rparr>)
         else (Replied 404 (Malformed (CHR ''u'')), d))"

definition or_client :: "unit Client" where
  "or_client = \<lparr>cbase = ''http://router/rest'', chttp = (), cuser = ''admin'', cpass = []\<rparr>"

definition or_inv :: "orderingRouter \<Rightarrow> bool" where
  "or_inv d \<longleftrightarrow> distinct (map Record_ID (orRows d)) \<and> list_all rec_utf8 (orRows d)
     \<and> list_all (\<lambda>row. \<exists>n \<in> {1 .. nextID d}. Record_ID row = new_id n) (orRows d)"

section \<open>Ids and strings\<close>

lemma utf8_ascii: "\<forall>b \<in> set bs. b < 128 \<Longrightarrow> utf8 bs"
  by (induction bs) auto

lemma digit_ascii: "d < 10 \<Longrightarrow> of_char (digit_char d) < (128 :: nat)"
  by (simp add: digit_val_decimal of_char_of take_bit_eq_mod)

lemma valid_utf8_ascii: "\<forall>c \<in> set s. of_char c < (128 :: nat) \<Longrightarrow> valid_utf8 s"
  unfolding valid_utf8_def by (rule utf8_ascii) simp

lemma valid_utf8_new_id [simp]: "valid_utf8 (new_id n)"
  using show_base_digits [of 10 _ n] digit_ascii
  by (intro valid_utf8_ascii) (auto simp: new_id_def)

lemma new_id_inject [simp]: "new_id m = new_id n \<longleftrightarrow> m = n"
  by (simp add: new_id_def show_nat_inject)

lemma new_id_nonempty [simp]: "new_id n \<noteq> []"
  by (simp add: new_id_def)

lemma comma_digit: "d < 10 \<Longrightarrow> digit_char d \<noteq> CHR '',''"
  by (auto simp: digit_val_decimal char_of_eq_iff take_bit_eq_mod)

lemma new_id_no_comma: "CHR '','' \<notin> set (new_id n)"
  using show_base_digits [of 10 "CHR '',''" n] comma_digit by (fastforce simp: new_id_def)

section \<open>The laws of a router\<close>

lemma or_move_rows:
  assumes "distinct (map Record_ID rows)" and "before = [] \<or> before \<in> Record_ID ` set rows - set order"
  shows "or_move order before rows = move_rows order before rows"
proof -
  let ?rem = "filter (\<lambda>row. Record_ID row \<notin> set order) rows"
  have rem: "filter (\<lambda>x. x \<notin> set order) (map Record_ID rows) = map Record_ID ?rem"
    by (simp add: filter_map o_def)
  have by_map: "map (byID rows) (map Record_ID rs) = rs" if "set rs \<subseteq> set rows" for rs
    using that byID_distinct [OF assms(1)] by (induction rs) auto
  have "set (takeWhile P ?rem) \<subseteq> set rows" "set (dropWhile P ?rem) \<subseteq> set rows" for P
    by (auto dest: set_takeWhileD set_dropWhileD)
  moreover have "list_ex (\<lambda>row. Record_ID row = before) ?rem" if "before \<noteq> []"
    using assms(2) that by (auto simp: list_ex_iff)
  ultimately show ?thesis
    using by_map [of ?rem] by_map
    by (simp add: or_move_def move_rows_def move_ids_def Let_def rem takeWhile_map dropWhile_map o_def del: map_map)
qed

lemma menuPath_or [simp]: "menuPath or_path = or_path"
  by code_simp

lemma or_url_parts: "cbase or_client @ or_path = or_url"
  by (simp add: or_url_def or_client_def)

lemma or_client_simps [simp]: "chttp or_client = ()" "cbase or_client = ''http://router/rest''"
  by (simp_all add: or_client_def)

lemma mkRequest_simps [simp]:
  "reqMethod (mkRequest c m p b) = m" "reqURL (mkRequest c m p b) = cbase c @ p" "reqBody (mkRequest c m p b) = b"
  by (simp_all add: mkRequest_def)

lemma body_record_json: "reqBody req = Some (json_of_record r) \<Longrightarrow> rec_utf8 r \<Longrightarrow> body_record req = r"
  by (simp add: body_record_def unmarshal_def)

lemma newQuery_Nil [simp]: "query_empty (newQuery [])"
  by (simp add: newQuery_def query_empty_def)

lemma or_List: "or_inv d \<Longrightarrow> List serveHTTP or_client or_path [] d = (Inr (orRows d), d)"
  using decode_rows [of "orRows d"]
  by (simp add: List_def do_def roundTrip_def serveHTTP_def Let_def or_url_def asError_array or_inv_def
      del: decode.simps)

lemma rec_utf8_upd: "rec_utf8 r \<Longrightarrow> valid_utf8 k \<Longrightarrow> valid_utf8 v \<Longrightarrow> rec_utf8 (fmupd k v r)"
  by (simp add: rec_utf8_def fmpred_upd)

lemma valid_utf8_IDField [simp]: "valid_utf8 IDField"
  by code_simp

lemma or_Create:
  "Create serveHTTP or_client or_path w d =
     (if rec_utf8 w
      then (let n = nextID d + 1; created = fmupd IDField (new_id n) w
            in (Inr created, d\<lparr>orRows := orRows d @ [created], nextID := n\<rparr>))
      else (Inl (EncodeRequest (''PUT '' @ or_path)), d))"
  using decode_record [of "fmupd IDField (new_id (nextID d + 1)) w"] body_record_json [of "mkRequest or_client ''PUT'' or_path (Some (json_of_record w))" w]
  by (simp add: Create_def do_def roundTrip_def serveHTTP_def Let_def or_url_def asError_record rec_utf8_upd
      del: decode.simps)

lemma TrimPrefix_url: "TrimPrefix (''http://router/rest'' @ or_path @ CHR ''/'' # i) (or_url @ ''/'') = i"
  using TrimPrefix_append [of "or_url @ ''/''" i] by (simp add: or_url_def)

lemma HasPrefix_url: "HasPrefix (''http://router/rest'' @ or_path @ CHR ''/'' # i) (or_url @ ''/'')"
  using HasPrefix_append [of "or_url @ ''/''" i] by (simp add: or_url_def)

lemma or_Delete:
  "i \<in> Record_ID ` set (orRows d) \<Longrightarrow>
     Delete serveHTTP or_client or_path i d = (Inr (), d\<lparr>orRows := filter (\<lambda>row. Record_ID row \<noteq> i) (orRows d)\<rparr>)"
  "i \<notin> Record_ID ` set (orRows d) \<Longrightarrow> \<exists>e. Delete serveHTTP or_client or_path i d = (Inl e, d)"
  using TrimPrefix_url [of i] HasPrefix_url [of i]
  by (auto simp: Delete_def do_def roundTrip_def serveHTTP_def Let_def list_ex_iff asError_def unmarshal_def image_iff)

lemma Record_ID_merge [simp]: "Record_ID (merge w row) = Record_ID row"
  by (simp add: merge_def Record_ID_def lookup_default_def)

lemma rec_utf8_merge: "rec_utf8 w \<Longrightarrow> rec_utf8 row \<Longrightarrow> rec_utf8 (merge w row)"
  by (simp add: rec_utf8_def merge_def fmpred_add fmpred_drop)

lemma or_Update:
  assumes "or_inv d" and w: "rec_utf8 w" and i: "i \<in> Record_ID ` set (orRows d)"
  shows "Update serveHTTP or_client or_path i w d =
    (Inr (byID (change_at i (merge w) (orRows d)) i), d\<lparr>orRows := change_at i (merge w) (orRows d)\<rparr>)"
proof -
  let ?rows = "change_at i (merge w) (orRows d)"
  have "i \<in> Record_ID ` set ?rows" using i change_at_ids [of "merge w" i "orRows d"] by (metis Record_ID_merge set_map)
  then have "byID ?rows i \<in> set ?rows" using byID_in by blast
  moreover have "\<forall>r \<in> set ?rows. rec_utf8 r"
    using assms rec_utf8_merge by (auto simp: change_at_def or_inv_def list_all_iff)
  ultimately have "rec_utf8 (byID ?rows i)" by blast
  then show ?thesis
    using w i TrimPrefix_url [of i] HasPrefix_url [of i] decode_record [of "byID ?rows i"]
      body_record_json [of "mkRequest or_client ''PATCH'' (or_path @ ''/'' @ i) (Some (json_of_record w))" w]
    by (auto simp: Update_def do_def roundTrip_def serveHTTP_def Let_def list_ex_iff asError_record image_iff
        simp del: decode.simps)
qed

lemma or_Update_fails:
  "\<not> (rec_utf8 w \<and> i \<in> Record_ID ` set (orRows d)) \<Longrightarrow> \<exists>e. Update serveHTTP or_client or_path i w d = (Inl e, d)"
  using TrimPrefix_url [of i] HasPrefix_url [of i]
  by (auto simp: Update_def do_def roundTrip_def serveHTTP_def Let_def list_ex_iff asError_def unmarshal_def image_iff)

lemma Join_chars: "ch \<in> set (Join xs sep) \<Longrightarrow> ch \<in> set sep \<or> (\<exists>x \<in> set xs. ch \<in> set x)"
  by (induction xs sep rule: Join.induct) auto

lemma new_id_ascii: "ch \<in> set (new_id n) \<Longrightarrow> of_char ch < (128 :: nat)"
  using show_base_digits [of 10 ch n] digit_ascii by (auto simp: new_id_def)

lemma rec_utf8_move_args:
  assumes "\<forall>x \<in> set order. \<exists>n. x = new_id n" and "before = [] \<or> (\<exists>n. before = new_id n)"
  shows "rec_utf8 (move_args order before)"
proof -
  have "valid_utf8 (Join order '','')"
    using Join_chars [of _ order "'',''"] assms(1) new_id_ascii
    by (intro valid_utf8_ascii) fastforce
  moreover have "valid_utf8 []" by (simp add: valid_utf8_def)
  then have "valid_utf8 before" using assms(2) by auto
  moreover have "valid_utf8 ''numbers''" "valid_utf8 ''destination''" by code_simp+
  ultimately show ?thesis by (simp add: move_args_def Let_def rec_utf8_def fmpred_upd fmap_of_list_simps)
qed

lemma or_Command_move:
  assumes inv: "or_inv d" and order: "order \<noteq> []" "distinct order" "set order \<subseteq> Record_ID ` set (orRows d)"
    and before: "before = [] \<or> before \<in> Record_ID ` set (orRows d) - set order"
  shows "Command serveHTTP or_client or_path ''move'' (move_args order before) d =
    (Inr [], d\<lparr>orRows := move_rows order before (orRows d)\<rparr>)"
proof -
  have ids: "\<exists>n. x = new_id n" if "x \<in> Record_ID ` set (orRows d)" for x
    using inv that by (auto simp: or_inv_def list_all_iff)
  have utf: "rec_utf8 (move_args order before)"
  proof (rule rec_utf8_move_args)
    show "\<forall>x \<in> set order. \<exists>n. x = new_id n" using ids order(3) by (metis subsetD)
    show "before = [] \<or> (\<exists>n. before = new_id n)" using ids before by (metis DiffD1)
  qed
  have split: "Split (map_get (move_args order before) ''numbers'') (CHR '','') = order"
  proof -
    have "map_get (move_args order before) ''numbers'' = Join order '',''"
      by (simp add: move_args_def Let_def lookup_default_def fmlookup_of_list)
    moreover have "\<forall>x \<in> set order. CHR '','' \<notin> set x" using ids order(3) new_id_no_comma by (metis subsetD)
    ultimately show ?thesis using Split_Join order(1) by simp
  qed
  have dest: "map_get (move_args order before) ''destination'' = before"
    by (simp add: move_args_def Let_def lookup_default_def fmlookup_of_list)
  have "or_move order before (orRows d) = move_rows order before (orRows d)"
    using inv before by (intro or_move_rows) (auto simp: or_inv_def)
  then show ?thesis
    using body_record_json [of "mkRequest or_client ''POST'' (or_path @ ''/move'') (Some (json_of_record (move_args order before)))"
        "move_args order before"] utf
    by (simp add: Command_def do_def roundTrip_def serveHTTP_def Let_def or_url_def asError_array split dest unmarshal_def)
qed

section \<open>The router keeps its invariant\<close>

lemma or_inv_create:
  assumes "or_inv d" and "rec_utf8 w"
  shows "or_inv (d\<lparr>orRows := orRows d @ [fmupd IDField (new_id (nextID d + 1)) w], nextID := nextID d + 1\<rparr>)"
proof -
  have "new_id (nextID d + 1) \<notin> Record_ID ` set (orRows d)"
    using assms(1) by (auto simp: or_inv_def list_all_iff)
  moreover have "Record_ID (fmupd IDField i w) = i" for i by (simp add: Record_ID_def lookup_default_def)
  ultimately show ?thesis
    using assms by (fastforce simp: or_inv_def list_all_iff rec_utf8_upd)
qed

lemma or_inv_rows:
  assumes "or_inv d" and "distinct (map Record_ID rows')" and "Record_ID ` set rows' \<subseteq> Record_ID ` set (orRows d)"
    and "list_all rec_utf8 rows'"
  shows "or_inv (d\<lparr>orRows := rows'\<rparr>)"
proof -
  have "\<exists>n \<in> {1 .. nextID d}. x = new_id n" if "x \<in> Record_ID ` set (orRows d)" for x
    using assms(1) that by (auto simp: or_inv_def list_all_iff)
  then show ?thesis using assms(2,3,4) by (auto simp: or_inv_def list_all_iff)
qed

lemma or_inv_update: "or_inv d \<Longrightarrow> rec_utf8 w \<Longrightarrow> or_inv (d\<lparr>orRows := change_at i (merge w) (orRows d)\<rparr>)"
proof (rule or_inv_rows)
  assume inv: "or_inv d" and w: "rec_utf8 w"
  have ids: "map Record_ID (change_at i (merge w) (orRows d)) = map Record_ID (orRows d)"
    by (simp add: change_at_ids)
  then show "distinct (map Record_ID (change_at i (merge w) (orRows d)))" using inv by (simp add: or_inv_def)
  show "Record_ID ` set (change_at i (merge w) (orRows d)) \<subseteq> Record_ID ` set (orRows d)"
    using ids by (metis order_refl set_map)
  show "list_all rec_utf8 (change_at i (merge w) (orRows d))"
    using inv w rec_utf8_merge by (auto simp: change_at_def or_inv_def list_all_iff)
qed

lemma or_inv_delete: "or_inv d \<Longrightarrow> or_inv (d\<lparr>orRows := filter P (orRows d)\<rparr>)"
  by (rule or_inv_rows) (auto simp: or_inv_def list_all_iff distinct_map_filter)

lemma or_inv_move:
  assumes inv: "or_inv d" and "distinct order" and sub: "set order \<subseteq> Record_ID ` set (orRows d)"
  shows "or_inv (d\<lparr>orRows := move_rows order before (orRows d)\<rparr>)"
proof (rule or_inv_rows [OF inv])
  have dist: "distinct (map Record_ID (orRows d))" using inv by (simp add: or_inv_def)
  note set = set_move_rows [OF dist sub, of before]
  show "distinct (map Record_ID (move_rows order before (orRows d)))"
    using move_rows_ids [OF sub] distinct_move_ids assms(2) dist by simp
  show "Record_ID ` set (move_rows order before (orRows d)) \<subseteq> Record_ID ` set (orRows d)" by (simp add: set)
  show "list_all rec_utf8 (move_rows order before (orRows d))"
    using inv set by (simp add: or_inv_def list_all_iff)
qed

interpretation oring: router serveHTTP or_client or_path orRows or_inv
proof
  show "distinct (map Record_ID (orRows d)) \<and> [] \<notin> Record_ID ` set (orRows d)" if "or_inv d" for d
    using that by (auto simp: or_inv_def list_all_iff) (metis new_id_nonempty)
  show "or_inv d' \<and> orRows d' = orRows d \<and> (\<forall>rs. r = Inr rs \<longrightarrow> rs = orRows d)"
    if "or_inv d" "List serveHTTP or_client or_path [] d = (r, d')" for d r d'
    using that or_List by auto
  show "or_inv d' \<and> ((\<exists>e. r = Inl e) \<and> orRows d' = orRows d \<or> (\<exists>row. orRows d' = orRows d @ [row]))"
    if "or_inv d" "Create serveHTTP or_client or_path w d = (r, d')" for d w r d'
    using that or_inv_create [of d w] by (auto simp: or_Create Let_def split: if_splits)
  show "or_inv d' \<and> (\<exists>f. (\<forall>row. Record_ID (f row) = Record_ID row) \<and> orRows d' = change_at i f (orRows d))"
    if u: "or_inv d" "Update serveHTTP or_client or_path i w d = (r, d')" for d i w r d'
  proof (cases "rec_utf8 w \<and> i \<in> Record_ID ` set (orRows d)")
    case True
    then have d': "d' = d\<lparr>orRows := change_at i (merge w) (orRows d)\<rparr>" using or_Update [OF u(1), of w i] u(2) by simp
    then show ?thesis
      using or_inv_update [OF u(1), of w i] True by (intro conjI exI [of _ "merge w"]) (simp_all add: d')
  next
    case False
    then have "d' = d" using or_Update_fails [OF False] u(2) by auto
    then show ?thesis using u(1) by (auto simp: change_at_def intro!: exI [of _ "\<lambda>x. x"])
  qed
  show "or_inv d' \<and> ((\<exists>e. r = Inl e) \<and> orRows d' = orRows d \<or> orRows d' = filter (\<lambda>row. Record_ID row \<noteq> i) (orRows d))"
    if "or_inv d" "Delete serveHTTP or_client or_path i d = (r, d')" for d i r d'
    using that or_Delete [of i d] or_inv_delete [of d]
    by (cases "i \<in> Record_ID ` set (orRows d)") auto
  show "or_inv d' \<and> ((\<exists>e. r = Inl e) \<and> orRows d' = orRows d \<or> orRows d' = move_rows order before (orRows d))"
    if "or_inv d" "order \<noteq> []" "distinct order" "set order \<subseteq> Record_ID ` set (orRows d)"
      "before = [] \<or> before \<in> Record_ID ` set (orRows d) - set order"
      "Command serveHTTP or_client or_path ''move'' (move_args order before) d = (r, d')" for d order before r d'
    using that or_Command_move [OF that(1-5)] or_inv_move [OF that(1,3,4)] by auto
qed

end
