(* ===== verification/Apply_Correct.thy ===== *)
theory Apply_Correct
  imports Ordering_Router
begin

text \<open>
  What callers of \<^verbatim>\<open>Apply\<close> and \<^verbatim>\<open>ApplyChecked\<close> may rely on, for every router that behaves as the
  locale \<open>router\<close> says, and evaluated on the test router.
\<close>

section \<open>A run on the test router\<close>

definition exMenu :: orderingRouter where
  "exMenu = \<lparr>orRows = [fmap_of_list [(IDField, ''*1''), (''chain'', ''input''), (''dynamic'', ''true'')],
     exRow ''*2'' ''output'', exRow ''*4'' ''forward''], nextID = 4\<rparr>"

definition exFilter :: MenuSpec where
  "exFilter = exSpec\<lparr>Path := or_path\<rparr>"

definition exTolerate :: MenuSpec where
  "exTolerate = exFilter\<lparr>Unlisted := UnlistedTolerate\<rparr>"

definition exAfter :: orderingRouter where
  "exAfter = \<lparr>orRows = [fmap_of_list [(IDField, ''*1''), (''chain'', ''input''), (''dynamic'', ''true'')],
     exRow ''*5'' ''input'', exRow ''*2'' ''output''], nextID = 5\<rparr>"

definition exRan :: Plan where
  "exRan = \<lparr>Steps = [createStep (fmap_of_list [(''chain'', ''input'')]), deleteStep (exRow ''*4'' ''forward''),
       moveStep [''*5''] ''*2'' ''unmanaged rows are tolerated here, so only the managed order is corrected''],
     Matched = fmap_of_list [(0, ''*5''), (1, ''*2'')]\<rparr>"

lemma exApply: "Apply serveHTTP or_client exFilter exDesired exMenu = ((exRan, None), exAfter)"
  by code_simp

lemma exInv: "or_inv exMenu"
  by code_simp

lemma exPath: "Path exFilter = or_path" "Path exTolerate = or_path"
  by (simp_all add: exFilter_def exTolerate_def)

lemma exRouter:
  "router serveHTTP or_client (Path exFilter) orRows or_inv" "router serveHTTP or_client (Path exTolerate) orRows or_inv"
  unfolding exPath by (rule oring.router_axioms)+

lemma exRun: "apply_menu serveHTTP or_client exFilter exDesired None exMenu = ((exRan, None), exAfter)"
  using exApply by (simp add: Apply_def)

section \<open>Safety\<close>

text \<open>
  C12: an apply never touches a row an ignore selector covers. Whatever it returns (success, a
  refused plan, or a failure at any step, replies lost included), the ignored rows of the menu it
  started from are all still there, unchanged, and in the same order.
\<close>

theorem Apply_keeps_ignored:
  assumes "router Do c (Path spec) rows ok" and "ok d"
    and "apply_menu Do c spec desired approve d = ((p, e), d')"
  shows "filter (\<lambda>r. Record_ID r \<in> Record_ID ` {r \<in> set (rows d). ignored spec r}) (rows d')
    = filter (ignored spec) (rows d)"
  using router.apply_keeps_ignored [OF assms(1,2) refl assms(3) refl] .

theorem Apply_keeps_ignored_witness:
  "filter (\<lambda>r. Record_ID r \<in> Record_ID ` {r \<in> set (orRows exMenu). ignored exFilter r}) (orRows exAfter)
    = filter (ignored exFilter) (orRows exMenu)"
  by (rule Apply_keeps_ignored [OF exRouter(1) exInv exRun])

text \<open>
  C15: the tolerate policy on a menu without a key. An apply edits and deletes nothing: every row of
  the menu is still there, unchanged, whatever the apply returns; and the rows no desired row
  resolved to keep their relative order, so the first-match behaviour of unmanaged rules among
  themselves is not changed.
\<close>

theorem Apply_tolerates:
  assumes "router Do c (Path spec) rows ok" and "ok d"
    and "Unlisted spec = UnlistedTolerate" and "Key spec = []"
    and "apply_menu Do c spec desired approve d = ((p, e), d')"
  shows "set (rows d) \<subseteq> set (rows d')
    \<and> filter (\<lambda>r. Record_ID r \<in> Record_ID ` set (rows d) - fmran' (Matched p)) (rows d')
      = filter (\<lambda>r. Record_ID r \<in> Record_ID ` set (rows d) - fmran' (Matched p)) (rows d)"
  using router.apply_tolerates [OF assms(1,2) refl assms(3,4,5)] by blast

theorem Apply_tolerates_witness:
  "set (orRows exMenu) \<subseteq>
     set (orRows (snd (apply_menu serveHTTP or_client exTolerate exDesired None exMenu)))"
proof -
  obtain p e d' where run: "apply_menu serveHTTP or_client exTolerate exDesired None exMenu = ((p, e), d')"
    by (metis surj_pair)
  have "Unlisted exTolerate = UnlistedTolerate" "Key exTolerate = []"
    by (simp_all add: exTolerate_def exFilter_def exSpec_def)
  then show ?thesis using Apply_tolerates [OF exRouter(2) exInv _ _ run] run by simp
qed



text \<open>
  C13: \<^verbatim>\<open>ApplyChecked\<close> performs no mutation unless the approval function accepts the plan of the
  very reading the run starts from. Without an approval function it does nothing; when the function
  refuses, the plan is returned with the refusal and the menu is as it was.
\<close>

theorem ApplyChecked_needs_approval:
  assumes "router Do c (Path spec) rows ok" and "ok d"
    and "ApplyChecked Do c spec desired approve d = ((p, e), d')" and "rows d' \<noteq> rows d"
  shows "\<exists>f p0. approve = Some f \<and> plan spec desired (rows d) = Inr p0 \<and> f p0 = None"
proof (cases approve)
  case None
  then show ?thesis using assms(3,4) by (simp add: ApplyChecked_def)
next
  case (Some f)
  have run: "apply_menu Do c spec desired (Some f) d = ((p, e), d')" using assms(3) Some by (simp add: ApplyChecked_def)
  note reads = router.plan_reads [OF assms(1,2) _ refl, of desired]
  from run show ?thesis
  proof (cases rule: apply_phases)
    case NoPlan
    then show ?thesis using reads assms(4) by blast
  next
    case Refused
    then show ?thesis using reads assms(4) by blast
  qed (use reads Some in blast)+
qed

theorem ApplyChecked_needs_approval_witness:
  "\<exists>f p0. Some (\<lambda>_. None :: error option) = Some f \<and> plan exFilter exDesired (orRows exMenu) = Inr p0 \<and> f p0 = None"
proof (rule ApplyChecked_needs_approval [OF exRouter(1) exInv])
  show "ApplyChecked serveHTTP or_client exFilter exDesired (Some (\<lambda>_. None)) exMenu = ((exRan, None), exAfter)"
    by code_simp
  show "orRows exAfter \<noteq> orRows exMenu" by code_simp
qed

section \<open>Success\<close>



section \<open>Twins and nested rows\<close>

text \<open>
  A menu under the tolerate policy in which an unmanaged row is identical to a managed one, in the
  two orders \<^verbatim>\<open>Apply\<close> moves it between.
\<close>

definition exThree :: "Record list" where
  "exThree = [fmap_of_list [(''chain'', ''input'')], fmap_of_list [(''chain'', ''output'')],
     fmap_of_list [(''chain'', ''forward'')]]"

definition exTwinA :: orderingRouter where
  "exTwinA = \<lparr>orRows = [exRow ''*2'' ''output'', exRow ''*3'' ''input'', exRow ''*1'' ''output'', exRow ''*4'' ''forward''],
     nextID = 4\<rparr>"

definition exTwinB :: orderingRouter where
  "exTwinB = \<lparr>orRows = [exRow ''*1'' ''output'', exRow ''*3'' ''input'', exRow ''*2'' ''output'', exRow ''*4'' ''forward''],
     nextID = 4\<rparr>"

lemma subseq_filter_satisfied:
  assumes "Unlisted spec = UnlistedTolerate" and "list_all (live spec) rows" and "subseq rs rows"
    and "list_all2 subset_rec desired rs"
  shows "satisfied spec desired rows"
proof -
  have "filter (live spec) rows = rows" using assms(2) by (simp add: list_all_iff)
  then show ?thesis
    using assms by (auto simp: satisfied_def contains_menu_def UnlistedTolerate_def UnlistedPrune_def)
qed

text \<open>
  Rows that differ in nothing but their id are not interchangeable on an ordered menu. With an
  unmanaged twin of a managed row, both menus below satisfy the specification, yet every apply
  succeeds with a non-empty plan and turns one into the other and back: the candidate listed first
  is the one the previous apply left behind, so no later plan is ever empty.
\<close>

theorem twins_oscillate:
  "satisfied exTolerate exThree (orRows exTwinA) \<and> satisfied exTolerate exThree (orRows exTwinB)
   \<and> (\<exists>p. Apply serveHTTP or_client exTolerate exThree exTwinA = ((p, None), exTwinB) \<and> \<not> Plan_Empty p)
   \<and> (\<exists>p. Apply serveHTTP or_client exTolerate exThree exTwinB = ((p, None), exTwinA) \<and> \<not> Plan_Empty p)"
proof -
  have u: "Unlisted exTolerate = UnlistedTolerate" by (simp add: exTolerate_def)
  have "satisfied exTolerate exThree (orRows exTwinA)"
    by (rule subseq_filter_satisfied [OF u, where rs = "tl (orRows exTwinA)"]) code_simp+
  moreover have "satisfied exTolerate exThree (orRows exTwinB)"
    by (rule subseq_filter_satisfied [OF u, where rs = "tl (orRows exTwinB)"]) code_simp+
  moreover have "snd (Apply serveHTTP or_client exTolerate exThree exTwinA) = exTwinB
      \<and> snd (fst (Apply serveHTTP or_client exTolerate exThree exTwinA)) = None
      \<and> \<not> Plan_Empty (fst (fst (Apply serveHTTP or_client exTolerate exThree exTwinA)))"
    by code_simp
  moreover have "snd (Apply serveHTTP or_client exTolerate exThree exTwinB) = exTwinA
      \<and> snd (fst (Apply serveHTTP or_client exTolerate exThree exTwinB)) = None
      \<and> \<not> Plan_Empty (fst (fst (Apply serveHTTP or_client exTolerate exThree exTwinB)))"
    by code_simp
  ultimately show ?thesis by (metis prod.collapse)
qed

definition exNested :: "Record list" where
  "exNested = [fmap_of_list [(''chain'', ''input'')],
     fmap_of_list [(''chain'', ''input''), (''comment'', ''lan'')]]"

text \<open>
  An ambiguity can surface after rows were written. When one desired row is contained in
  another, an apply on an empty menu plans two creates, performs both, and then fails: the second
  planning finds two rows for the first desired row, and every later plan fails the same way.
\<close>

theorem nested_rows_fail_after_writing:
  "\<exists>p d. Apply serveHTTP or_client exFilter exNested \<lparr>orRows = [], nextID = 0\<rparr> =
       ((p, Some (PlanningOrder or_path (PlanError (AmbiguousError or_path 0 (exNested ! 0) [''*1'', ''*2''])))), d)
     \<and> length (orRows d) = 2
     \<and> plan exFilter exNested (orRows d) = Inl (AmbiguousError or_path 0 (exNested ! 0) [''*1'', ''*2''])"
proof -
  let ?run = "Apply serveHTTP or_client exFilter exNested \<lparr>orRows = [], nextID = 0\<rparr>"
  have "snd (fst ?run) = Some (PlanningOrder or_path (PlanError (AmbiguousError or_path 0 (exNested ! 0) [''*1'', ''*2''])))
      \<and> length (orRows (snd ?run)) = 2
      \<and> plan exFilter exNested (orRows (snd ?run)) = Inl (AmbiguousError or_path 0 (exNested ! 0) [''*1'', ''*2''])"
    by code_simp
  then show ?thesis by (metis prod.collapse)
qed

end
