(* ===== verification/Apply_Live.thy ===== *)
theory Apply_Live
  imports Apply_Correct
begin

text \<open>
  Convergence: on a router that answers every well-formed request, an apply of desired rows no device
  row could satisfy two of succeeds in one run, and what it leaves is a fixpoint under prune: the
  next plan is empty.
\<close>

section \<open>Desired rows that exclude each other\<close>

definition conflict :: "Record \<Rightarrow> Record \<Rightarrow> bool" where
  "conflict a b \<longleftrightarrow> \<not> fmpred (\<lambda>k v. k = IDField \<or> fmlookup b k = None \<or> fmlookup b k = Some v) a"

lemma conflict_iff:
  "conflict a b \<longleftrightarrow> (\<exists>k v u. k \<noteq> IDField \<and> fmlookup a k = Some v \<and> fmlookup b k = Some u \<and> v \<noteq> u)"
  by (auto simp: conflict_def fmpred_iff) (metis option.inject)

lemma conflict_excludes: "conflict a b \<Longrightarrow> subset_rec a r \<Longrightarrow> \<not> subset_rec b r"
  by (fastforce simp: conflict_iff subset_rec_iff)

lemma conflict_irrefl: "\<not> conflict a a"
  by (auto simp: conflict_iff)

lemma conflict_sym: "conflict a b \<Longrightarrow> conflict b a"
  by (auto simp: conflict_iff)

lemma conflict_pair:
  "sorted_wrt conflict desired \<Longrightarrow> v \<in> set desired \<Longrightarrow> w \<in> set desired \<Longrightarrow> v \<noteq> w \<Longrightarrow> conflict v w"
  by (induction desired) (auto intro: conflict_sym)

lemma conflict_distinct: "sorted_wrt conflict desired \<Longrightarrow> distinct desired"
  by (induction desired) (auto simp: conflict_irrefl)

definition hits :: "MenuSpec \<Rightarrow> Record \<Rightarrow> Record list \<Rightarrow> string list" where
  "hits spec w rows = map Record_ID (filter (\<lambda>r. live spec r \<and> subset_rec w r) rows)"

definition hit :: "MenuSpec \<Rightarrow> Record list \<Rightarrow> Record \<Rightarrow> string option" where
  "hit spec rows w = (case hits spec w rows of [] \<Rightarrow> None | x # _ \<Rightarrow> Some x)"

definition decided :: "MenuSpec \<Rightarrow> Record list \<Rightarrow> Record \<Rightarrow> bool" where
  "decided spec rows w \<longleftrightarrow> length (hits spec w rows) \<le> 1 \<or> indistinguishable rows (hits spec w rows)"

lemma hit_row:
  assumes "hit spec rows w = Some x"
  shows "\<exists>r \<in> set rows. Record_ID r = x \<and> live spec r \<and> subset_rec w r"
proof -
  have "x \<in> set (hits spec w rows)" using assms by (auto simp: hit_def split: list.splits)
  then show ?thesis by (auto simp: hits_def)
qed

lemma hit_None: "hit spec rows w = None \<longleftrightarrow> (\<forall>r \<in> set rows. live spec r \<longrightarrow> \<not> subset_rec w r)"
proof -
  have "hit spec rows w = None \<longleftrightarrow> filter (\<lambda>r. live spec r \<and> subset_rec w r) rows = []"
    by (cases "filter (\<lambda>r. live spec r \<and> subset_rec w r) rows") (simp_all add: hit_def hits_def)
  then show ?thesis by (simp add: filter_empty_conv)
qed

text \<open>No desired row takes a row from another, so resolution does not depend on what is claimed.\<close>

lemma candidates_hits:
  assumes "Key spec = []" and "\<forall>r \<in> set rows. Record_ID r \<in> claimed \<longrightarrow> \<not> subset_rec w r"
  shows "candidates spec w rows claimed = hits spec w rows"
  using assms by (auto simp: candidates_unkeyed hits_def matches_def intro!: arg_cong [where f = "map Record_ID"] filter_cong)

lemma claimed_step:
  assumes "distinct (map Record_ID rows)" and "\<forall>v \<in> set desired. conflict w v"
    and "\<forall>r \<in> set rows. Record_ID r \<in> claimed \<longrightarrow> (\<forall>v \<in> set (w # desired). \<not> subset_rec v r)"
    and "hit spec rows w = Some x"
  shows "\<forall>r \<in> set rows. Record_ID r \<in> insert x claimed \<longrightarrow> (\<forall>v \<in> set desired. \<not> subset_rec v r)"
proof -
  obtain r0 where "r0 \<in> set rows" "Record_ID r0 = x" "subset_rec w r0" using hit_row [OF assms(4)] by blast
  then show ?thesis
    using assms(2,3) conflict_excludes distinct_map_inj [OF assms(1)] by (metis insertE list.set_intros(2))
qed

lemma resolve_hits:
  assumes "Key spec = []" and "distinct (map Record_ID rows)" and "sorted_wrt conflict desired"
    and "\<forall>r \<in> set rows. Record_ID r \<in> claimed \<longrightarrow> (\<forall>v \<in> set desired. \<not> subset_rec v r)"
  shows "assign spec rows claimed desired = map (hit spec rows) desired"
    and "(\<exists>cm. resolve spec rows i desired claimed m = Inr cm) \<longleftrightarrow> (\<forall>w \<in> set desired. decided spec rows w)"
  using assms(3,4)
proof (induction desired arbitrary: claimed i m)
  case (Cons w desired)
  {
    case 1
    have c: "candidates spec w rows claimed = hits spec w rows"
      using 1 by (intro candidates_hits assms(1)) auto
    show ?case
    proof (cases "hits spec w rows")
      case Nil
      then show ?thesis using c Cons.IH(1) [of claimed] 1 by (simp add: hit_def)
    next
      case (Cons x xs)
      then have x: "hit spec rows w = Some x" by (simp add: hit_def)
      have "assign spec rows (insert x claimed) desired = map (hit spec rows) desired"
        using Cons.IH(1) claimed_step [OF assms(2) _ 1(2) x] 1(1) by simp
      then show ?thesis using c Cons x by simp
    qed
  next
    case 2
    have c: "candidates spec w rows claimed = hits spec w rows"
      using 2 by (intro candidates_hits assms(1)) auto
    show ?case
    proof (cases "hits spec w rows")
      case Nil
      then show ?thesis using c Cons.IH(2) [of claimed "Suc i" m] 2 by (simp add: decided_def)
    next
      case C: (Cons x xs)
      then have x: "hit spec rows w = Some x" by (simp add: hit_def)
      have "(\<exists>cm. resolve spec rows (Suc i) desired (insert x claimed) (fmupd i x m) = Inr cm)
          \<longleftrightarrow> (\<forall>w \<in> set desired. decided spec rows w)"
        using Cons.IH(2) claimed_step [OF assms(2) _ 2(2) x] 2(1) by simp
      then show ?thesis using c C by (auto simp: Let_def decided_def)
    qed
  }
qed auto

lemma edits_unkeyed:
  assumes "Key spec = []" and "\<forall>j < length desired. fmlookup matched (i + j) = f (desired ! j)"
  shows "edits spec current matched i desired = map createStep (filter (\<lambda>w. f w = None) desired)"
  using assms(2)
proof (induction desired arbitrary: i)
  case (Cons w desired)
  have "fmlookup matched i = f w" using Cons.prems by force
  moreover have "\<forall>j < length desired. fmlookup matched (Suc i + j) = f (desired ! j)" using Cons.prems by force
  ultimately show ?case using Cons.IH [of "Suc i"] assms(1) by (simp split: option.splits)
qed simp

lemma plan_hits:
  assumes p: "plan spec desired rows = Inr p" and key: "Key spec = []" and dist: "distinct (map Record_ID rows)"
    and conf: "sorted_wrt conflict desired"
  shows "\<forall>w \<in> set desired. decided spec rows w"
    and "filter (\<lambda>s. stOp s \<noteq> OpMove) (Steps p) =
      map createStep (filter (\<lambda>w. hit spec rows w = None) desired)
      @ (if Unlisted spec = UnlistedPrune
         then deletes spec rows {x. Some x \<in> hit spec rows ` set desired} else [])"
proof -
  have as: "assign spec rows {} desired = map (hit spec rows) desired"
    by (rule resolve_hits(1) [OF key dist conf]) simp
  have res: "(\<exists>cm. resolve spec rows 0 desired {} fmempty = Inr cm) \<longleftrightarrow> (\<forall>w \<in> set desired. decided spec rows w)"
    by (rule resolve_hits(2) [OF key dist conf]) simp
  have "\<exists>cm. resolve spec rows 0 desired {} fmempty = Inr cm"
    using p by (cases "resolve spec rows 0 desired {} fmempty") (auto simp: plan_def split: if_splits)
  then show "\<forall>w \<in> set desired. decided spec rows w" using res by simp
  note parts = plan_parts [OF p, unfolded as]
  have e: "edits spec rows (Matched p) 0 desired = map createStep (filter (\<lambda>w. hit spec rows w = None) desired)"
    by (rule edits_unkeyed [OF key]) (use parts(1) in simp)
  have "filter (\<lambda>s. stOp s \<noteq> OpMove) (map createStep ws) = map createStep ws" for ws
    by (simp add: filter_id_conv createStep_def)
  moreover have "filter (\<lambda>s. stOp s \<noteq> OpMove) (deletes spec rows cl) = deletes spec rows cl" for cl
    by (auto simp: filter_id_conv dest: deletes_ops)
  moreover have "filter (\<lambda>s. stOp s \<noteq> OpMove) (reorder spec desired rows (Matched p) cl) = []" for cl
    by (auto simp: filter_empty_conv dest: reorder_steps)
  ultimately show "filter (\<lambda>s. stOp s \<noteq> OpMove) (Steps p) =
      map createStep (filter (\<lambda>w. hit spec rows w = None) desired)
      @ (if Unlisted spec = UnlistedPrune
         then deletes spec rows {x. Some x \<in> hit spec rows ` set desired} else [])"
    unfolding parts(3) e by simp
qed

text \<open>When every desired row has its row and, under prune, every row its desired row, only order is left.\<close>

lemma plan_settled:
  assumes key: "Key spec = []" and dist: "distinct (map Record_ID rows)" and conf: "sorted_wrt conflict desired"
    and pol: "Unlisted spec = UnlistedTolerate \<or> Unlisted spec = UnlistedPrune" "fmempty \<notin> set (Ignore spec)"
    and dec: "\<forall>w \<in> set desired. decided spec rows w \<and> hit spec rows w \<noteq> None"
    and prune: "Unlisted spec = UnlistedPrune \<Longrightarrow> \<forall>r \<in> set rows. live spec r \<longrightarrow> Some (Record_ID r) \<in> hit spec rows ` set desired"
  shows "\<exists>p. plan spec desired rows = Inr p \<and> (\<forall>s \<in> set (Steps p). stOp s = OpMove)"
proof -
  have "\<exists>cm. resolve spec rows 0 desired {} fmempty = Inr cm"
    by (subst resolve_hits(2) [OF key dist conf]) (use dec in auto)
  then obtain p where p: "plan spec desired rows = Inr p"
    using pol by (auto simp: plan_def list_ex_iff)
  have "deletes spec rows {x. Some x \<in> hit spec rows ` set desired} = []" if "Unlisted spec = UnlistedPrune"
    using prune [OF that] by (auto simp: deletes_def filter_empty_conv live_def)
  moreover have "filter (\<lambda>w. hit spec rows w = None) desired = []" using dec by (auto simp: filter_empty_conv)
  ultimately have "filter (\<lambda>s. stOp s \<noteq> OpMove) (Steps p) = []" by (simp add: plan_hits(2) [OF p key dist conf])
  then show ?thesis using p by (auto simp: filter_empty_conv)
qed

section \<open>After the structural phase\<close>

text \<open>
  The menu after the creates and deletes of a plan: what was kept, then one new row per desired row
  that had none. Every desired row now has its row, and no choice is left open.
\<close>

definition survives :: "MenuSpec \<Rightarrow> Record list \<Rightarrow> Record list \<Rightarrow> Record \<Rightarrow> bool" where
  "survives spec desired rows r \<longleftrightarrow>
     Unlisted spec \<noteq> UnlistedPrune \<or> \<not> live spec r \<or> Some (Record_ID r) \<in> hit spec rows ` set desired"

lemma byID_append: "x \<in> Record_ID ` set rows \<Longrightarrow> byID (rows @ cs) x = byID rows x"
  by (induction rows) auto

lemma hits_append: "hits spec w (xs @ ys) = hits spec w xs @ hits spec w ys"
  by (simp add: hits_def)

lemma hits_ids: "set (hits spec w rows) \<subseteq> Record_ID ` set rows"
  by (auto simp: hits_def)

text \<open>Two desired rows never share a device row.\<close>

lemma shared_row:
  "sorted_wrt conflict desired \<Longrightarrow> v \<in> set desired \<Longrightarrow> w \<in> set desired \<Longrightarrow> subset_rec v r \<Longrightarrow> subset_rec w r \<Longrightarrow> v = w"
  using conflict_pair conflict_excludes by blast

lemma hits_survivors:
  assumes dist: "distinct (map Record_ID rows)" and conf: "sorted_wrt conflict desired" and w: "w \<in> set desired"
    and x: "hit spec rows w = Some x" and prune: "Unlisted spec = UnlistedPrune"
  shows "hits spec w (filter (survives spec desired rows) rows) = [x]"
proof -
  have same: "Record_ID r = x" if t: "r \<in> set rows" "live spec r" "subset_rec w r" "survives spec desired rows r" for r
  proof -
    obtain v where v: "v \<in> set desired" "hit spec rows v = Some (Record_ID r)"
      using t(2,4) prune by (auto simp: survives_def)
    then obtain r' where "r' \<in> set rows" "Record_ID r' = Record_ID r" "subset_rec v r'" using hit_row by blast
    then have "subset_rec v r" using distinct_map_inj [OF dist] t(1) by metis
    then have "v = w" using shared_row conf v(1) w t(3) by blast
    then show ?thesis using v(2) x by simp
  qed
  obtain r0 where r0: "r0 \<in> set rows" "Record_ID r0 = x" "live spec r0" "subset_rec w r0" using hit_row [OF x] by blast
  have "filter (\<lambda>r. live spec r \<and> subset_rec w r) (filter (survives spec desired rows) rows) = filter (\<lambda>r. r = r0) rows"
    unfolding filter_filter
  proof (rule filter_cong [OF refl])
    fix r
    assume r: "r \<in> set rows"
    have "survives spec desired rows r0" using w x r0(2) by (force simp: survives_def image_iff)
    then show "(survives spec desired rows r \<and> live spec r \<and> subset_rec w r) = (r = r0)"
      using same [OF r] r0 distinct_map_inj [OF dist r r0(1)] by auto
  qed
  also have "\<dots> = [r0]" using filter_single [of rows r0] dist r0(1) by (simp add: distinct_map)
  finally show ?thesis using r0(2) by (simp add: hits_def)
qed

lemma hits_created:
  assumes conf: "sorted_wrt conflict desired" and ws: "distinct ws" "set ws \<subseteq> set desired"
    and cs: "list_all2 subset_rec ws cs" "\<forall>r \<in> set cs. live spec r" "distinct cs" and j: "j < length ws"
  shows "hits spec (ws ! j) cs = [Record_ID (cs ! j)]"
proof -
  have len: "length cs = length ws" using cs(1) by (simp add: list_all2_lengthD)
  have sub: "subset_rec (ws ! k) (cs ! k)" if "k < length ws" for k using cs(1) that by (simp add: list_all2_nthD)
  have "subset_rec (ws ! j) r \<longleftrightarrow> r = cs ! j" if r: "r \<in> set cs" for r
  proof
    assume s: "subset_rec (ws ! j) r"
    obtain k where k: "k < length ws" "r = cs ! k" using r len by (metis in_set_conv_nth)
    then have "ws ! k = ws ! j" using shared_row [OF conf, of "ws ! k" "ws ! j" r] sub [of k] s ws(2) j by (auto simp: subset_iff)
    then show "r = cs ! j" using ws(1) k j by (simp add: nth_eq_iff_index_eq)
  qed (use sub j in simp)
  then have "filter (\<lambda>r. live spec r \<and> subset_rec (ws ! j) r) cs = filter (\<lambda>r. r = cs ! j) cs"
    using cs(2) by (intro filter_cong) auto
  also have "\<dots> = [cs ! j]" using filter_single [OF cs(3)] j len by simp
  finally show ?thesis by (simp add: hits_def)
qed

lemma after_structural:
  assumes dist: "distinct (map Record_ID rows)" and conf: "sorted_wrt conflict desired"
    and dec: "\<forall>w \<in> set desired. decided spec rows w"
    and cs: "list_all2 subset_rec (filter (\<lambda>w. hit spec rows w = None) desired) cs" "\<forall>r \<in> set cs. live spec r" "distinct cs"
  defines "rows2 \<equiv> filter (survives spec desired rows) rows @ cs"
  shows "w \<in> set desired \<Longrightarrow> decided spec rows2 w \<and> hit spec rows2 w \<noteq> None"
    and "Unlisted spec = UnlistedPrune \<Longrightarrow> r \<in> set rows2 \<Longrightarrow> live spec r \<Longrightarrow> Some (Record_ID r) \<in> hit spec rows2 ` set desired"
proof -
  let ?ws = "filter (\<lambda>w. hit spec rows w = None) desired"
  have ws: "distinct ?ws" "set ?ws \<subseteq> set desired" using conflict_distinct [OF conf] by auto
  have new: "hits spec (?ws ! j) rows2 = [Record_ID (cs ! j)]" if "j < length ?ws" for j
  proof -
    have "hit spec rows (?ws ! j) = None" using nth_mem [OF that] by simp
    then have "hits spec (?ws ! j) (filter (survives spec desired rows) rows) = []"
      by (auto simp: hit_None hits_def filter_empty_conv)
    then show ?thesis using hits_created [OF conf ws cs that] by (simp add: rows2_def hits_append)
  qed
  have none: "hits spec w cs = []" if "w \<in> set desired" "hit spec rows w = Some x" for w x
  proof -
    have "\<not> subset_rec w r" if r: "r \<in> set cs" for r
    proof
      assume s: "subset_rec w r"
      obtain k where "k < length cs" "r = cs ! k" using r by (metis in_set_conv_nth)
      then have "?ws ! k \<in> set ?ws" "subset_rec (?ws ! k) r"
        using list_all2_nthD2 [OF cs(1)] list_all2_lengthD [OF cs(1)] by (simp_all only: nth_mem)
      then obtain v where "v \<in> set ?ws" "subset_rec v r" by blast
      then show False using shared_row [OF conf, of v w r] s \<open>w \<in> set desired\<close> \<open>hit spec rows w = Some x\<close> by auto
    qed
    then show ?thesis by (auto simp: hits_def filter_empty_conv)
  qed
  have old: "hits spec w rows2 = (if Unlisted spec = UnlistedPrune then [x] else hits spec w rows)"
    if "w \<in> set desired" "hit spec rows w = Some x" for w x
    using hits_survivors [OF dist conf that] none [OF that]
    by (auto simp: rows2_def hits_append survives_def)
  show "decided spec rows2 w \<and> hit spec rows2 w \<noteq> None" if w: "w \<in> set desired"
  proof (cases "hit spec rows w")
    case None
    then have "w \<in> set ?ws" using w by simp
    then obtain j where "j < length ?ws" "w = ?ws ! j" by (metis in_set_conv_nth)
    then show ?thesis using new [of j] by (simp add: decided_def hit_def)
  next
    case (Some x)
    have "indistinguishable rows2 (hits spec w rows)" if "indistinguishable rows (hits spec w rows)" "Unlisted spec \<noteq> UnlistedPrune"
    proof -
      have "rows2 = rows @ cs" using that(2) by (simp add: rows2_def survives_def)
      then have "byID rows2 y = byID rows y" if "y \<in> set (hits spec w rows)" for y
        using that hits_ids [of spec w rows] byID_append by (metis subsetD)
      then show ?thesis
        using that(1) Some by (cases "hits spec w rows") (auto simp: indistinguishable_def hit_def list_all_iff)
    qed
    then show ?thesis using old [OF w Some] dec w Some by (auto simp: decided_def hit_def)
  qed
  show "Some (Record_ID r) \<in> hit spec rows2 ` set desired"
    if prune: "Unlisted spec = UnlistedPrune" and r: "r \<in> set rows2" "live spec r"
  proof (cases "r \<in> set cs")
    case True
    then obtain j where j: "j < length ?ws" "r = cs ! j" using cs(1) by (metis in_set_conv_nth list_all2_lengthD)
    then have "hit spec rows2 (?ws ! j) = Some (Record_ID r)" using new [of j] by (simp add: hit_def)
    moreover have "?ws ! j \<in> set desired" using j ws(2) nth_mem by blast
    ultimately show ?thesis by (metis imageI)
  next
    case False
    then obtain w where "w \<in> set desired" "hit spec rows w = Some (Record_ID r)"
      using r prune by (auto simp: rows2_def survives_def image_iff)
    then show ?thesis using old [of w "Record_ID r"] prune by (force simp: hit_def image_iff)
  qed
qed

section \<open>A router that answers\<close>

text \<open>
  Beside the laws of a router: a request that makes sense is answered. \<open>adm\<close> says which rows the
  router accepts for creation; what it stores for one has every field asked for and is not one of
  the rows \<open>ign\<close> the specification ignores (a created row is static).
\<close>

locale live_router = router Do c path rows inv
  for Do :: "('h, 'd) transport_fn" and c :: "'h Client" and path :: string
    and rows :: "'d \<Rightarrow> Record list" and inv :: "'d \<Rightarrow> bool" +
  fixes adm :: "Record \<Rightarrow> bool" and ign :: "Record \<Rightarrow> bool"
  assumes list_answers: "inv d \<Longrightarrow> \<exists>d'. List Do c path [] d = (Inr (rows d), d')"
    and create_answers: "inv d \<Longrightarrow> adm w \<Longrightarrow> \<exists>stored row d'. Create Do c path w d = (Inr stored, d')
      \<and> rows d' = rows d @ [row] \<and> subset_rec w row \<and> \<not> ign row"
    and delete_answers: "inv d \<Longrightarrow> i \<in> Record_ID ` set (rows d) \<Longrightarrow> \<exists>d'. Delete Do c path i d = (Inr (), d')"
    and move_answers: "inv d \<Longrightarrow> order \<noteq> [] \<Longrightarrow> distinct order \<Longrightarrow> set order \<subseteq> Record_ID ` set (rows d) \<Longrightarrow>
      before = [] \<or> before \<in> Record_ID ` set (rows d) - set order \<Longrightarrow>
      \<exists>r d'. Command Do c path ''move'' (move_args order before) d = (Inr r, d')"
begin

lemma run_append:
  "runSteps Do c spec wrap i (xs @ ys) d =
     (case runSteps Do c spec wrap i xs d of
        (Some e, d') \<Rightarrow> (Some e, d') | (None, d') \<Rightarrow> runSteps Do c spec wrap (i + length xs) ys d')"
  by (induction xs arbitrary: i d) (auto split: prod.splits option.splits)

lemma plan_answers:
  assumes "inv d" and "Path spec = path" and "plan spec desired (rows d) = Inr p"
  shows "\<exists>d'. Client_Plan Do c spec desired d = (Inr p, d') \<and> inv d' \<and> rows d' = rows d"
proof -
  obtain d' where l: "List Do c path [] d = (Inr (rows d), d')" using list_answers [OF assms(1)] by blast
  then show ?thesis using list_reads [OF assms(1) l] assms(2,3) by (simp add: Client_Plan_def)
qed

lemma run_creates:
  assumes "inv d" and "Path spec = path" and "\<forall>w \<in> set ws. adm w"
  shows "\<exists>d' cs. runSteps Do c spec wrap i (map createStep ws) d = (None, d') \<and> inv d'
    \<and> rows d' = rows d @ cs \<and> list_all2 subset_rec ws cs \<and> (\<forall>r \<in> set cs. \<not> ign r)"
  using assms
proof (induction ws arbitrary: d i)
  case (Cons w ws)
  obtain stored row d1 where cr: "Create Do c path w d = (Inr stored, d1)"
    and row: "rows d1 = rows d @ [row]" "subset_rec w row" "\<not> ign row"
    using create_answers [OF Cons.prems(1), of w] Cons.prems(3) by auto
  have "inv d1" using create_appends [OF Cons.prems(1) cr] by simp
  then obtain d' cs where "runSteps Do c spec wrap (i + 1) (map createStep ws) d1 = (None, d')" "inv d'"
      "rows d' = rows d1 @ cs" "list_all2 subset_rec ws cs" "\<forall>r \<in> set cs. \<not> ign r"
    using Cons.IH [of d1 "i + 1"] Cons.prems(2,3) by auto
  moreover have "step Do c spec (createStep w) d = (None, d1)"
    using cr Cons.prems(2) by (simp add: step_def createStep_def)
  ultimately show ?case using row by (intro exI [of _ d'] exI [of _ "row # cs"]) auto
qed simp

lemma run_deletes:
  assumes "inv d" and "Path spec = path" and "Record_ID ` set rs \<subseteq> ids d" and "distinct (map Record_ID rs)"
  shows "\<exists>d'. runSteps Do c spec wrap i (map deleteStep rs) d = (None, d') \<and> inv d'
    \<and> rows d' = filter (\<lambda>r. Record_ID r \<notin> Record_ID ` set rs) (rows d)"
  using assms
proof (induction rs arbitrary: d i)
  case (Cons r rs)
  obtain d1 where de: "Delete Do c path (Record_ID r) d = (Inr (), d1)"
    using delete_answers [OF Cons.prems(1), of "Record_ID r"] Cons.prems(3) by auto
  have d1: "inv d1" "rows d1 = filter (\<lambda>row. Record_ID row \<noteq> Record_ID r) (rows d)"
    using delete_removes [OF Cons.prems(1) de] by auto
  have "Record_ID ` set rs \<subseteq> ids d1"
  proof
    fix x
    assume x: "x \<in> Record_ID ` set rs"
    then obtain row where "row \<in> set (rows d)" "Record_ID row = x" using Cons.prems(3) by auto
    moreover have "x \<noteq> Record_ID r" using Cons.prems(4) x by (metis distinct.simps(2) list.set_map list.simps(9))
    ultimately show "x \<in> ids d1" by (auto simp: d1(2))
  qed
  then obtain d' where "runSteps Do c spec wrap (i + 1) (map deleteStep rs) d1 = (None, d')" "inv d'"
      "rows d' = filter (\<lambda>r. Record_ID r \<notin> Record_ID ` set rs) (rows d1)"
    using Cons.IH [OF d1(1) Cons.prems(2), of "i + 1"] Cons.prems(4) by auto
  moreover have "step Do c spec (deleteStep r) d = (None, d1)"
    using de Cons.prems(2) by (simp add: step_def deleteStep_def)
  ultimately show ?case by (auto simp: d1(2) intro: filter_cong)
qed simp

lemma run_moves_answer:
  assumes "inv d" and "Path spec = path" and "\<forall>s \<in> set ss. stOp s = OpMove \<and> valid_move (ids d) s"
  shows "\<exists>d'. runSteps Do c spec wrap i ss d = (None, d')"
  using assms
proof (induction ss arbitrary: d i)
  case (Cons s ss)
  have v: "stOrder s \<noteq> []" "distinct (stOrder s)" "set (stOrder s) \<subseteq> ids d"
      "stBefore s = [] \<or> stBefore s \<in> ids d - set (stOrder s)" and m: "stOp s = OpMove"
    using Cons.prems(3) by (auto simp: valid_move_def)
  obtain r d1 where mv: "Command Do c path ''move'' (move_args (stOrder s) (stBefore s)) d = (Inr r, d1)"
    using move_answers [OF Cons.prems(1) v] by blast
  have s: "step Do c spec s d = (None, d1)" using mv m Cons.prems(2) by (simp add: step_def)
  have "inv d1" using move_places [OF Cons.prems(1) v mv] by simp
  moreover have "ids d1 = ids d"
    using step_keeps_ids [OF Cons.prems(1) s Cons.prems(2)] Cons.prems(3) by simp
  ultimately show ?case using Cons.IH [of d1 "i + 1"] Cons.prems(2,3) s by simp
qed simp

text \<open>The structural phase of a plan, run to its end.\<close>

lemma run_structural:
  assumes inv: "inv d" and path: "Path spec = path" and key: "Key spec = []" and conf: "sorted_wrt conflict desired"
    and adm: "\<forall>w \<in> set desired. adm w" and p: "plan spec desired (rows d) = Inr p" and ign: "ign = ignored spec"
  shows "\<exists>d' cs. runSteps Do c spec wrap 0 (mutations_of p) d = (None, d') \<and> inv d'
    \<and> rows d' = filter (survives spec desired (rows d)) (rows d) @ cs
    \<and> list_all2 subset_rec (filter (\<lambda>w. hit spec (rows d) w = None) desired) cs \<and> (\<forall>r \<in> set cs. live spec r) \<and> distinct cs"
proof -
  have dist: "distinct (map Record_ID (rows d))" using row_ids [OF inv] by simp
  let ?ws = "filter (\<lambda>w. hit spec (rows d) w = None) desired"
  let ?gone = "filter (\<lambda>r. \<not> survives spec desired (rows d) r) (rows d)"
  have muts: "mutations_of p = map createStep ?ws @ map deleteStep ?gone"
  proof -
    have "(if Unlisted spec = UnlistedPrune then deletes spec (rows d) {x. Some x \<in> hit spec (rows d) ` set desired} else [])
        = map deleteStep ?gone"
      by (auto simp: deletes_def survives_def live_def intro!: arg_cong [where f = "map deleteStep"] filter_cong)
    then show ?thesis using plan_hits(2) [OF p key dist conf] by simp
  qed
  obtain d1 cs where d1: "runSteps Do c spec wrap 0 (map createStep ?ws) d = (None, d1)" "inv d1"
      "rows d1 = rows d @ cs" "list_all2 subset_rec ?ws cs" "\<forall>r \<in> set cs. \<not> ign r"
    using run_creates [OF inv path, of ?ws wrap 0] adm by auto
  have dist1: "distinct (map Record_ID (rows d1))" "[] \<notin> ids d1" using row_ids [OF d1(2)] by auto
  obtain d2 where d2: "runSteps Do c spec wrap (length ?ws) (map deleteStep ?gone) d1 = (None, d2)" "inv d2"
      "rows d2 = filter (\<lambda>r. Record_ID r \<notin> Record_ID ` set ?gone) (rows d1)"
    using run_deletes [OF d1(2) path, of ?gone wrap "length ?ws"] dist distinct_map_filter d1(3) by auto
  have "filter (\<lambda>r. Record_ID r \<notin> Record_ID ` set ?gone) (rows d) = filter (survives spec desired (rows d)) (rows d)"
    using distinct_map_inj [OF dist] by (intro filter_cong refl) (auto simp: image_iff)
  moreover have "filter (\<lambda>r. Record_ID r \<notin> Record_ID ` set ?gone) cs = cs"
    using dist1(1) by (auto simp: d1(3) filter_id_conv)
  ultimately have "rows d2 = filter (survives spec desired (rows d)) (rows d) @ cs" by (simp add: d2(3) d1(3))
  moreover have "\<forall>r \<in> set cs. Record_ID r \<noteq> []" using dist1(2) by (metis UnI2 d1(3) imageI set_append)
  then have "\<forall>r \<in> set cs. live spec r" using d1(5) ign by (simp add: live_def)
  moreover have "distinct cs" using dist1(1) by (auto simp: d1(3) distinct_map)
  ultimately show ?thesis using d1 d2 by (intro exI [of _ d2] exI [of _ cs]) (auto simp: muts run_append)
qed

lemma apply_live:
  assumes inv: "inv d" and path: "Path spec = path" and ord: "Ordered spec" and key: "Key spec = []"
    and conf: "sorted_wrt conflict desired" and adm: "\<forall>w \<in> set desired. adm w" and ign: "ign = ignored spec"
    and p: "plan spec desired (rows d) = Inr p"
  shows "\<exists>q d'. Apply Do c spec desired d = ((q, None), d')"
proof -
  obtain d1 where d1: "Client_Plan Do c spec desired d = (Inr p, d1)" "inv d1" "rows d1 = rows d"
    using plan_answers [OF inv path p] by blast
  have run_moves: "\<exists>x'. runSteps Do c spec wrap 0 (Steps q) x = (None, x')"
    if "inv x" "plan spec desired (rows x) = Inr q" "\<forall>s \<in> set (Steps q). stOp s = OpMove" for x q wrap
    using that plan_valid_moves [OF that(2)] by (intro run_moves_answer [OF _ path]) auto
  show ?thesis
  proof (cases "list_ex is_structural (Steps p)")
    case False
    then have "\<forall>s \<in> set (Steps p). stOp s = OpMove"
      using plan_ops [OF p] key by (fastforce simp: list_ex_iff is_structural_def)
    then obtain d' where "runSteps Do c spec (\<lambda>i. PlanStep (Path spec) i (length (Steps p))) 0 (Steps p) d1 = (None, d')"
      using run_moves [OF d1(2)] p d1(3) by metis
    then show ?thesis using False d1(1) by (simp add: Apply_def apply_menu_def)
  next
    case True
    let ?wrap = "\<lambda>i. MutationStep (Path spec) i (length (mutations_of p))"
    have p1: "plan spec desired (rows d1) = Inr p" using p d1(3) by simp
    from run_structural [OF d1(2) path key conf adm p1 ign, of ?wrap] obtain d2 cs where
      d2: "runSteps Do c spec ?wrap 0 (mutations_of p) d1 = (None, d2)" "inv d2"
        "rows d2 = filter (survives spec desired (rows d1)) (rows d1) @ cs"
        "list_all2 subset_rec (filter (\<lambda>w. hit spec (rows d1) w = None) desired) cs"
        "\<forall>r \<in> set cs. live spec r" "distinct cs"
      by metis
    have dist: "distinct (map Record_ID (rows x))" if "inv x" for x using row_ids [OF that] by simp
    note after = after_structural [OF dist [OF d1(2)] conf plan_hits(1) [OF p1 key dist [OF d1(2)] conf] d2(4,5,6)]
    have "\<exists>q. plan spec desired (rows d2) = Inr q \<and> (\<forall>s \<in> set (Steps q). stOp s = OpMove)"
      using plan_parts(4,5) [OF p] after
      by (intro plan_settled [OF key dist [OF d2(2)] conf]) (simp_all add: d2(3))
    then obtain q where q: "plan spec desired (rows d2) = Inr q" "\<forall>s \<in> set (Steps q). stOp s = OpMove" by blast
    obtain d3 where d3: "Client_Plan Do c spec desired d2 = (Inr q, d3)" "inv d3" "rows d3 = rows d2"
      using plan_answers [OF d2(2) path q(1)] by blast
    obtain d4 where "runSteps Do c spec (\<lambda>i. OrderingStep (Path spec) i (length (Steps q))) 0 (Steps q) d3 = (None, d4)"
      using run_moves [OF d3(2)] q d3(3) by metis
    moreover have "find (\<lambda>s. stOp s \<noteq> OpMove) (Steps q) = None" using q(2) by (simp add: find_None_iff)
    ultimately show ?thesis using True ord d1(1) d2(1) d3(1) by (simp add: Apply_def apply_menu_def)
  qed
qed

end

lemma subset_rec_upd_id: "subset_rec w (fmupd IDField i w)"
  by (simp add: subset_rec_iff)

interpretation olive: live_router serveHTTP or_client or_path orRows or_inv
  "\<lambda>w. rec_utf8 w \<and> (\<forall>i. \<not> ignored spec (fmupd IDField i w))" "ignored spec" for spec
proof
  show "\<exists>d'. List serveHTTP or_client or_path [] d = (Inr (orRows d), d')" if "or_inv d" for d
    using or_List [OF that] by blast
  show "\<exists>stored row d'. Create serveHTTP or_client or_path w d = (Inr stored, d') \<and> orRows d' = orRows d @ [row]
      \<and> subset_rec w row \<and> \<not> ignored spec row"
    if "or_inv d" "rec_utf8 w \<and> (\<forall>i. \<not> ignored spec (fmupd IDField i w))" for d w
    using that subset_rec_upd_id by (simp add: or_Create Let_def)
  show "\<exists>d'. Delete serveHTTP or_client or_path i d = (Inr (), d')"
    if "or_inv d" "i \<in> Record_ID ` set (orRows d)" for d i
    using or_Delete(1) [OF that(2)] by blast
  show "\<exists>r d'. Command serveHTTP or_client or_path ''move'' (move_args order before) d = (Inr r, d')"
    if "or_inv d" "order \<noteq> []" "distinct order" "set order \<subseteq> Record_ID ` set (orRows d)"
      "before = [] \<or> before \<in> Record_ID ` set (orRows d) - set order" for d order before
    using or_Command_move [OF that] by blast
qed

section \<open>The fixpoint\<close>

lemma hits_live: "hits spec w (filter (live spec) rows) = hits spec w rows"
  by (auto simp: hits_def intro!: arg_cong [where f = "map Record_ID"] filter_cong)

lemma exact_menu_settled:
  assumes key: "Key spec = []" and dist: "distinct (map Record_ID rows)" and conf: "sorted_wrt conflict desired"
    and pol: "Unlisted spec = UnlistedPrune" "fmempty \<notin> set (Ignore spec)" and ord: "Ordered spec"
    and sat: "satisfied spec desired rows"
  shows "\<exists>p. plan spec desired rows = Inr p \<and> Plan_Empty p"
proof -
  let ?ls = "filter (live spec) rows"
  have ls: "list_all2 subset_rec desired ?ls" using sat pol(1) by (simp add: satisfied_def exact_menu_def)
  have len: "length ?ls = length desired" using list_all2_lengthD [OF ls] by simp
  have "distinct ?ls" using dist by (simp add: distinct_map)
  then have h: "hits spec (desired ! j) rows = [Record_ID (?ls ! j)]" if "j < length desired" for j
    using hits_created [OF conf conflict_distinct [OF conf] _ ls _ _ that, of spec] hits_live [of spec "desired ! j" rows] by simp
  then have hit: "hit spec rows (desired ! j) = Some (Record_ID (?ls ! j))" if "j < length desired" for j
    using that by (simp add: hit_def)
  have maps: "map (hit spec rows) desired = map Some (map Record_ID ?ls)"
    using hit len by (intro nth_equalityI) simp_all
  have "\<exists>p. plan spec desired rows = Inr p \<and> (\<forall>s \<in> set (Steps p). stOp s = OpMove)"
  proof (rule plan_settled [OF key dist conf _ pol(2)])
    show "\<forall>w \<in> set desired. decided spec rows w \<and> hit spec rows w \<noteq> None"
      using h hit by (metis decided_def in_set_conv_nth le_numeral_extra(4) length_Cons list.size(3) One_nat_def option.distinct(1))
    have "hit spec rows ` set desired = Some ` Record_ID ` set ?ls" using maps by (metis list.set_map)
    then show "\<forall>r \<in> set rows. live spec r \<longrightarrow> Some (Record_ID r) \<in> hit spec rows ` set desired" by auto
  qed (use pol in simp)
  then obtain p where p: "plan spec desired rows = Inr p" and mv: "\<forall>s \<in> set (Steps p). stOp s = OpMove" by blast
  note only = plan_only_moves [OF p mv dist]
  have "assign spec rows {} desired = map Some (map Record_ID ?ls)"
    using resolve_hits(1) [OF key dist conf, of "{}"] maps by simp
  moreover have "somes (map Some xs) = xs" for xs :: "string list" by (induction xs) auto
  ultimately have want: "wanted desired (Matched p) = map Record_ID ?ls"
    using plan_parts(2) [OF p] by (simp del: map_map)
  have "filter (\<lambda>x. x \<in> set (map Record_ID ?ls)) (map Record_ID rows) = map Record_ID ?ls"
    using only(5) distinct_map_inj [OF dist] by (auto simp: filter_map o_def intro!: arg_cong [where f = "map Record_ID"] filter_cong)
  then have "Steps p = []" using only(7) ord want by (simp add: reorder_def Let_def)
  then show ?thesis using p by (simp add: Plan_Empty_def)
qed

section \<open>Properties\<close>



end
