(* ===== verification/Firewall_Types.thy ===== *)
theory Firewall_Types
  imports Menu_Plan
begin

text \<open>
  The API types of the native controller, src/native/api/v1alpha1/firewallfiltermenu_types.go: the
  specification and status of a \<^verbatim>\<open>FirewallFilterMenu\<close>, and \<^verbatim>\<open>Fields\<close>, which turns a rule into the
  record the planner compares with the device. A pointer field is an option; \<^verbatim>\<open>nil\<close> is \<open>None\<close>.
\<close>

section \<open>Rules\<close>

record FirewallFilterRule =
  Action :: "string option"
  AddressList :: "string option"
  AddressListTimeout :: "string option"
  Chain :: "string option"
  Comment :: "string option"
  ConnectionBytes :: "string option"
  ConnectionLimit :: "string option"
  ConnectionMark :: "string option"
  ConnectionNatState :: "string option"
  ConnectionRate :: "string option"
  ConnectionState :: "string option"
  ConnectionType :: "string option"
  Content :: "string option"
  Disabled :: "bool option"
  Dscp :: "string option"
  DstAddress :: "string option"
  DstAddressList :: "string option"
  DstAddressType :: "string option"
  DstLimit :: "string option"
  DstPort :: "string option"
  Fragment :: "bool option"
  Hotspot :: "string option"
  IcmpOptions :: "string option"
  InBridgePort :: "string option"
  InBridgePortList :: "string option"
  InInterface :: "string option"
  InInterfaceList :: "string option"
  IngressPriority :: "string option"
  IpsecPolicy :: "string option"
  Ipv4Options :: "string option"
  JumpTarget :: "string option"
  Layer7Protocol :: "string option"
  Limit :: "string option"
  Log :: "bool option"
  LogPrefix :: "string option"
  Nth :: "string option"
  OutBridgePort :: "string option"
  OutBridgePortList :: "string option"
  OutInterface :: "string option"
  OutInterfaceList :: "string option"
  P2P :: "string option"
  PacketMark :: "string option"
  PacketSize :: "string option"
  PerConnectionClassifier :: "string option"
  Port :: "string option"
  Priority :: "string option"
  Protocol :: "string option"
  PSD :: "string option"
  Random :: "string option"
  Realm :: "string option"
  RejectWith :: "string option"
  RoutingMark :: "string option"
  SrcAddress :: "string option"
  SrcAddressList :: "string option"
  SrcAddressType :: "string option"
  SrcMACAddress :: "string option"
  SrcPort :: "string option"
  TCPFlags :: "string option"
  TCPMSS :: "string option"
  Time :: "string option"
  TLSHost :: "string option"
  TOS :: "string option"
  TTL :: "string option"

definition FormatBool :: "bool \<Rightarrow> string" where
  "FormatBool b = (if b then ''true'' else ''false'')"

definition putString :: "string \<Rightarrow> string option \<Rightarrow> Record \<Rightarrow> Record" where
  "putString name v out = (case v of None \<Rightarrow> out | Some s \<Rightarrow> fmupd name s out)"

definition putBool :: "string \<Rightarrow> bool option \<Rightarrow> Record \<Rightarrow> Record" where
  "putBool name v out = (case v of None \<Rightarrow> out | Some b \<Rightarrow> fmupd name (FormatBool b) out)"

definition Fields :: "FirewallFilterRule \<Rightarrow> Record" where
  "Fields r = fold (\<lambda>put. put) [
      putString ''action'' (Action r), putString ''address-list'' (AddressList r),
      putString ''address-list-timeout'' (AddressListTimeout r), putString ''chain'' (Chain r),
      putString ''comment'' (Comment r), putString ''connection-bytes'' (ConnectionBytes r),
      putString ''connection-limit'' (ConnectionLimit r),
      putString ''connection-mark'' (ConnectionMark r),
      putString ''connection-nat-state'' (ConnectionNatState r),
      putString ''connection-rate'' (ConnectionRate r),
      putString ''connection-state'' (ConnectionState r),
      putString ''connection-type'' (ConnectionType r), putString ''content'' (Content r),
      putBool ''disabled'' (Disabled r), putString ''dscp'' (Dscp r),
      putString ''dst-address'' (DstAddress r),
      putString ''dst-address-list'' (DstAddressList r),
      putString ''dst-address-type'' (DstAddressType r), putString ''dst-limit'' (DstLimit r),
      putString ''dst-port'' (DstPort r), putBool ''fragment'' (Fragment r),
      putString ''hotspot'' (Hotspot r), putString ''icmp-options'' (IcmpOptions r),
      putString ''in-bridge-port'' (InBridgePort r),
      putString ''in-bridge-port-list'' (InBridgePortList r),
      putString ''in-interface'' (InInterface r),
      putString ''in-interface-list'' (InInterfaceList r),
      putString ''ingress-priority'' (IngressPriority r),
      putString ''ipsec-policy'' (IpsecPolicy r), putString ''ipv4-options'' (Ipv4Options r),
      putString ''jump-target'' (JumpTarget r),
      putString ''layer7-protocol'' (Layer7Protocol r), putString ''limit'' (Limit r),
      putBool ''log'' (Log r), putString ''log-prefix'' (LogPrefix r),
      putString ''nth'' (Nth r), putString ''out-bridge-port'' (OutBridgePort r),
      putString ''out-bridge-port-list'' (OutBridgePortList r),
      putString ''out-interface'' (OutInterface r),
      putString ''out-interface-list'' (OutInterfaceList r), putString ''p2p'' (P2P r),
      putString ''packet-mark'' (PacketMark r), putString ''packet-size'' (PacketSize r),
      putString ''per-connection-classifier'' (PerConnectionClassifier r),
      putString ''port'' (Port r), putString ''priority'' (Priority r),
      putString ''protocol'' (Protocol r), putString ''psd'' (PSD r),
      putString ''random'' (Random r), putString ''realm'' (Realm r),
      putString ''reject-with'' (RejectWith r), putString ''routing-mark'' (RoutingMark r),
      putString ''src-address'' (SrcAddress r),
      putString ''src-address-list'' (SrcAddressList r),
      putString ''src-address-type'' (SrcAddressType r),
      putString ''src-mac-address'' (SrcMACAddress r), putString ''src-port'' (SrcPort r),
      putString ''tcp-flags'' (TCPFlags r), putString ''tcp-mss'' (TCPMSS r),
      putString ''time'' (Time r), putString ''tls-host'' (TLSHost r),
      putString ''tos'' (TOS r), putString ''ttl'' (TTL r)] fmempty"

section \<open>Menus\<close>

text \<open>The policies keep the strings of the API, where any other string can arrive as well.\<close>

definition PolicyTolerate :: string where
  "PolicyTolerate = ''Tolerate''"

definition PolicyPrune :: string where
  "PolicyPrune = ''Prune''"

definition DeletionOrphan :: string where
  "DeletionOrphan = ''Orphan''"

definition DeletionDelete :: string where
  "DeletionDelete = ''Delete''"

record FirewallFilterMenuSpec =
  ProviderConfigRef :: string
  specUnlisted :: string
  DeletionPolicy :: string
  specRows :: "FirewallFilterRule list"

record FirewallFilterRowStatus =
  rowIndex :: int
  rowID :: string

record FirewallFilterDeletePreview =
  pvID :: string
  pvChain :: string
  pvAction :: string
  pvComment :: string

record FirewallFilterPlanStatus =
  ApprovalToken :: string
  Creates :: int
  Updates :: int
  Deletes :: int
  Moves :: int
  DeleteRows :: "FirewallFilterDeletePreview list"
  DeleteRowsTruncated :: bool

text \<open>A status condition, \<^verbatim>\<open>metav1.Condition\<close>.\<close>

record Condition =
  condType :: string
  condStatus :: string
  condObservedGeneration :: int
  condLastTransition :: int
  condReason :: string
  condMessage :: string

record FirewallFilterMenuStatus =
  ObservedGeneration :: int
  Adopted :: bool
  AdoptedConnection :: string
  PendingPlan :: "FirewallFilterPlanStatus option"
  statusRows :: "FirewallFilterRowStatus list"
  Conditions :: "Condition list"

text \<open>
  A menu object with the metadata the controller reads: the key, the UID, the generation, the
  creation time in nanoseconds, whether a deletion timestamp is set, finalizers and annotations.
\<close>

record FirewallFilterMenu =
  Namespace :: string
  Name :: string
  UID :: string
  Generation :: int
  CreationTimestamp :: int
  Deleting :: bool
  Finalizers :: "string list"
  Annotations :: Record
  Spec :: FirewallFilterMenuSpec
  Status :: FirewallFilterMenuStatus

section \<open>What a rule says\<close>

lemma fmlookup_putString:
  "fmlookup (putString name v out) k = (if name = k \<and> v \<noteq> None then v else fmlookup out k)"
  by (auto simp: putString_def split: option.splits)

lemma putBool_putString: "putBool name v = putString name (map_option FormatBool v)"
  by (rule ext) (simp add: putBool_def putString_def split: option.splits)

lemma fmlookup_puts:
  "distinct (map fst es) \<Longrightarrow> fmlookup (fold (\<lambda>(n, v). putString n v) es m) k =
     (case map_of es k of Some (Some s) \<Rightarrow> Some s | _ \<Rightarrow> fmlookup m k)"
proof (induction es arbitrary: m)
  case (Cons e es)
  obtain n v where e: "e = (n, v)" by fastforce
  have "map_of es n = None" using Cons.prems e by (simp add: map_of_eq_None_iff)
  then show ?case using Cons e by (auto simp: fmlookup_putString split: option.splits)
qed simp

text \<open>The rule a record describes, the inverse of \<^verbatim>\<open>Fields\<close>.\<close>

definition ParseFlag :: "string \<Rightarrow> bool" where
  "ParseFlag s \<longleftrightarrow> s = ''true''"

lemma ParseFlag_FormatBool [simp]: "ParseFlag (FormatBool b) = b"
  by (simp add: ParseFlag_def FormatBool_def)

definition ruleOf :: "Record \<Rightarrow> FirewallFilterRule" where
  "ruleOf m = \<lparr>
     Action = fmlookup m ''action'', AddressList = fmlookup m ''address-list'',
     AddressListTimeout = fmlookup m ''address-list-timeout'', Chain = fmlookup m ''chain'',
     Comment = fmlookup m ''comment'', ConnectionBytes = fmlookup m ''connection-bytes'',
     ConnectionLimit = fmlookup m ''connection-limit'',
     ConnectionMark = fmlookup m ''connection-mark'',
     ConnectionNatState = fmlookup m ''connection-nat-state'',
     ConnectionRate = fmlookup m ''connection-rate'',
     ConnectionState = fmlookup m ''connection-state'',
     ConnectionType = fmlookup m ''connection-type'', Content = fmlookup m ''content'',
     Disabled = map_option ParseFlag (fmlookup m ''disabled''), Dscp = fmlookup m ''dscp'',
     DstAddress = fmlookup m ''dst-address'', DstAddressList = fmlookup m ''dst-address-list'',
     DstAddressType = fmlookup m ''dst-address-type'', DstLimit = fmlookup m ''dst-limit'',
     DstPort = fmlookup m ''dst-port'',
     Fragment = map_option ParseFlag (fmlookup m ''fragment''),
     Hotspot = fmlookup m ''hotspot'', IcmpOptions = fmlookup m ''icmp-options'',
     InBridgePort = fmlookup m ''in-bridge-port'',
     InBridgePortList = fmlookup m ''in-bridge-port-list'',
     InInterface = fmlookup m ''in-interface'',
     InInterfaceList = fmlookup m ''in-interface-list'',
     IngressPriority = fmlookup m ''ingress-priority'',
     IpsecPolicy = fmlookup m ''ipsec-policy'', Ipv4Options = fmlookup m ''ipv4-options'',
     JumpTarget = fmlookup m ''jump-target'', Layer7Protocol = fmlookup m ''layer7-protocol'',
     Limit = fmlookup m ''limit'', Log = map_option ParseFlag (fmlookup m ''log''),
     LogPrefix = fmlookup m ''log-prefix'', Nth = fmlookup m ''nth'',
     OutBridgePort = fmlookup m ''out-bridge-port'',
     OutBridgePortList = fmlookup m ''out-bridge-port-list'',
     OutInterface = fmlookup m ''out-interface'',
     OutInterfaceList = fmlookup m ''out-interface-list'', P2P = fmlookup m ''p2p'',
     PacketMark = fmlookup m ''packet-mark'', PacketSize = fmlookup m ''packet-size'',
     PerConnectionClassifier = fmlookup m ''per-connection-classifier'',
     Port = fmlookup m ''port'', Priority = fmlookup m ''priority'',
     Protocol = fmlookup m ''protocol'', PSD = fmlookup m ''psd'',
     Random = fmlookup m ''random'', Realm = fmlookup m ''realm'',
     RejectWith = fmlookup m ''reject-with'', RoutingMark = fmlookup m ''routing-mark'',
     SrcAddress = fmlookup m ''src-address'', SrcAddressList = fmlookup m ''src-address-list'',
     SrcAddressType = fmlookup m ''src-address-type'',
     SrcMACAddress = fmlookup m ''src-mac-address'', SrcPort = fmlookup m ''src-port'',
     TCPFlags = fmlookup m ''tcp-flags'', TCPMSS = fmlookup m ''tcp-mss'',
     Time = fmlookup m ''time'', TLSHost = fmlookup m ''tls-host'', TOS = fmlookup m ''tos'',
     TTL = fmlookup m ''ttl''\<rparr>"

definition fieldNames :: "string list" where
  "fieldNames = [
     ''action'', ''address-list'', ''address-list-timeout'', ''chain'', ''comment'',
     ''connection-bytes'', ''connection-limit'', ''connection-mark'', ''connection-nat-state'',
     ''connection-rate'', ''connection-state'', ''connection-type'', ''content'', ''disabled'',
     ''dscp'', ''dst-address'', ''dst-address-list'', ''dst-address-type'', ''dst-limit'',
     ''dst-port'', ''fragment'', ''hotspot'', ''icmp-options'', ''in-bridge-port'',
     ''in-bridge-port-list'', ''in-interface'', ''in-interface-list'', ''ingress-priority'',
     ''ipsec-policy'', ''ipv4-options'', ''jump-target'', ''layer7-protocol'', ''limit'',
     ''log'', ''log-prefix'', ''nth'', ''out-bridge-port'', ''out-bridge-port-list'',
     ''out-interface'', ''out-interface-list'', ''p2p'', ''packet-mark'', ''packet-size'',
     ''per-connection-classifier'', ''port'', ''priority'', ''protocol'', ''psd'', ''random'',
     ''realm'', ''reject-with'', ''routing-mark'', ''src-address'', ''src-address-list'',
     ''src-address-type'', ''src-mac-address'', ''src-port'', ''tcp-flags'', ''tcp-mss'',
     ''time'', ''tls-host'', ''tos'', ''ttl'']"

definition entries :: "FirewallFilterRule \<Rightarrow> (string \<times> string option) list" where
  "entries r = [
     (''action'', Action r), (''address-list'', AddressList r),
     (''address-list-timeout'', AddressListTimeout r), (''chain'', Chain r),
     (''comment'', Comment r), (''connection-bytes'', ConnectionBytes r),
     (''connection-limit'', ConnectionLimit r), (''connection-mark'', ConnectionMark r),
     (''connection-nat-state'', ConnectionNatState r), (''connection-rate'', ConnectionRate r),
     (''connection-state'', ConnectionState r), (''connection-type'', ConnectionType r),
     (''content'', Content r), (''disabled'', map_option FormatBool (Disabled r)),
     (''dscp'', Dscp r), (''dst-address'', DstAddress r),
     (''dst-address-list'', DstAddressList r), (''dst-address-type'', DstAddressType r),
     (''dst-limit'', DstLimit r), (''dst-port'', DstPort r),
     (''fragment'', map_option FormatBool (Fragment r)), (''hotspot'', Hotspot r),
     (''icmp-options'', IcmpOptions r), (''in-bridge-port'', InBridgePort r),
     (''in-bridge-port-list'', InBridgePortList r), (''in-interface'', InInterface r),
     (''in-interface-list'', InInterfaceList r), (''ingress-priority'', IngressPriority r),
     (''ipsec-policy'', IpsecPolicy r), (''ipv4-options'', Ipv4Options r),
     (''jump-target'', JumpTarget r), (''layer7-protocol'', Layer7Protocol r),
     (''limit'', Limit r), (''log'', map_option FormatBool (Log r)),
     (''log-prefix'', LogPrefix r), (''nth'', Nth r), (''out-bridge-port'', OutBridgePort r),
     (''out-bridge-port-list'', OutBridgePortList r), (''out-interface'', OutInterface r),
     (''out-interface-list'', OutInterfaceList r), (''p2p'', P2P r),
     (''packet-mark'', PacketMark r), (''packet-size'', PacketSize r),
     (''per-connection-classifier'', PerConnectionClassifier r), (''port'', Port r),
     (''priority'', Priority r), (''protocol'', Protocol r), (''psd'', PSD r),
     (''random'', Random r), (''realm'', Realm r), (''reject-with'', RejectWith r),
     (''routing-mark'', RoutingMark r), (''src-address'', SrcAddress r),
     (''src-address-list'', SrcAddressList r), (''src-address-type'', SrcAddressType r),
     (''src-mac-address'', SrcMACAddress r), (''src-port'', SrcPort r),
     (''tcp-flags'', TCPFlags r), (''tcp-mss'', TCPMSS r), (''time'', Time r),
     (''tls-host'', TLSHost r), (''tos'', TOS r), (''ttl'', TTL r)]"

lemma fst_entries: "map fst (entries r) = fieldNames"
  by (simp add: entries_def fieldNames_def)

lemma distinct_fieldNames: "distinct fieldNames"
  by code_simp

lemma fmlookup_Fields: "fmlookup (Fields r) k = Option.bind (map_of (entries r) k) (\<lambda>v. v)"
proof -
  have "Fields r = fold (\<lambda>(n, v). putString n v) (entries r) fmempty"
    by (simp add: Fields_def entries_def putBool_putString)
  then show ?thesis
    using fmlookup_puts [of "entries r" fmempty k] distinct_fieldNames fst_entries [of r]
    by (simp split: option.splits)
qed

lemma Fields_lookup_None: "k \<notin> set fieldNames \<Longrightarrow> fmlookup (Fields r) k = None"
  by (metis bind.bind_lzero fmlookup_Fields fst_entries list.set_map map_of_eq_None_iff)

lemma map_of_entries: "distinct (map fst es) \<Longrightarrow> map (\<lambda>k. Option.bind (map_of es k) (\<lambda>v. v)) (map fst es) = map snd es"
  by (auto simp: map_of_is_SomeI)

lemma map_option_flag: "map_option ParseFlag (map_option FormatBool v) = v"
  by (cases v) simp_all

text \<open>
  \<^verbatim>\<open>Fields\<close> says exactly what the user declared. The rule can be read back from it, so an
  omitted field and an explicitly empty or false one stay apart and no two fields share a RouterOS
  name; nothing but the listed names is ever sent, in particular never an id.
\<close>

theorem Fields_roundtrip:
  "ruleOf (Fields r) = r \<and> fmdom' (Fields r) \<subseteq> set fieldNames \<and> IDField \<notin> fmdom' (Fields r)"
proof -
  have each: "map (fmlookup (Fields r)) fieldNames = map snd (entries r)"
    unfolding fst_entries [of r, symmetric] fmlookup_Fields
    using map_of_entries [of "entries r"] distinct_fieldNames fst_entries [of r] by simp
  have "ruleOf (Fields r) = r"
    using each unfolding fieldNames_def entries_def list.map list.inject snd_conv
    by (simp only: ruleOf_def map_option_flag FirewallFilterRule.surjective [symmetric] simp_thms) simp
  moreover have "fmdom' (Fields r) \<subseteq> set fieldNames"
    using Fields_lookup_None by (metis fmdom'I fmdom'_notI subsetI)
  moreover have "IDField \<notin> set fieldNames" by (simp add: fieldNames_def IDField_def)
  ultimately show ?thesis by blast
qed

end
