(* ===== verification/Plan_Token.thy ===== *)
theory Plan_Token
  imports Firewall_Types
begin

text \<open>
  The approval of a first prune, src/native/internal/controller/firewallfilter/reconciler.go:
  \<^verbatim>\<open>pendingPlan\<close> previews a plan in the object's status and \<^verbatim>\<open>planToken\<close> names it. The token is a
  SHA-256 over length-prefixed parts; the hash is the parameter \<open>sha256\<close>, and what is proved is that
  its input determines the connection and everything of the plan an approval is about.
\<close>

section \<open>Definitions\<close>

definition maxDeletePreviews :: nat where
  "maxDeletePreviews = 20"

definition volatileApprovalFields :: "string set" where
  "volatileApprovalFields = {''bytes'', ''dynamic'', ''invalid'', ''packets''}"

text \<open>\<^verbatim>\<open>writePart\<close> writes \<^verbatim>\<open>"%d:%s"\<close>, the length of the value and the value: \<open>netstring\<close>.\<close>

definition approvalKeys :: "Record \<Rightarrow> string list" where
  "approvalKeys row = filter (\<lambda>key. \<not> (key = IDField \<or> key \<in> volatileApprovalFields)) (sorted_keys row)"

definition stepParts :: "Step \<Rightarrow> string list" where
  "stepParts s =
     [op_string (stOp s), stID s, stBefore s, show_nat (length (stOrder s))]
     @ stOrder s
     @ (let keys = approvalKeys (stRow s)
        in show_nat (length keys) # concat (map (\<lambda>key. [key, map_get (stRow s) key]) keys))"

definition planParts :: "string \<Rightarrow> Plan \<Rightarrow> string list" where
  "planParts fp p = [fp, show_nat (length (Steps p))] @ concat (map stepParts (Steps p))"

definition EncodeToString :: "string \<Rightarrow> string" where
  "EncodeToString bs = concat (map (\<lambda>b. [digit_char (of_char b div 16), digit_char (of_char b mod 16)]) bs)"

definition planToken :: "(string \<Rightarrow> string) \<Rightarrow> string \<Rightarrow> Plan \<Rightarrow> string" where
  "planToken sha256 fp p = EncodeToString (sha256 (concat (map netstring (planParts fp p))))"

definition int32 :: "nat \<Rightarrow> int" where
  "int32 n = (int n + 2 ^ 31) mod 2 ^ 32 - 2 ^ 31"

definition deletePreview :: "Step \<Rightarrow> FirewallFilterDeletePreview" where
  "deletePreview s = \<lparr>pvID = stID s, pvChain = map_get (stRow s) ''chain'',
     pvAction = map_get (stRow s) ''action'', pvComment = map_get (stRow s) ''comment''\<rparr>"

fun deletePreviews :: "Step list \<Rightarrow> FirewallFilterDeletePreview list \<Rightarrow> FirewallFilterDeletePreview list" where
  "deletePreviews [] acc = acc"
| "deletePreviews (s # ss) acc =
     (if stOp s \<noteq> OpDelete \<or> maxDeletePreviews \<le> length acc then deletePreviews ss acc
      else deletePreviews ss (acc @ [deletePreview s]))"

definition pendingPlan :: "(string \<Rightarrow> string) \<Rightarrow> string \<Rightarrow> Plan \<Rightarrow> FirewallFilterPlanStatus" where
  "pendingPlan sha256 fp p =
     (let dels = int32 (Counts p OpDelete); rows = deletePreviews (Steps p) []
      in \<lparr>ApprovalToken = planToken sha256 fp p,
          Creates = int32 (Counts p OpCreate), Updates = int32 (Counts p OpUpdate),
          Deletes = dels, Moves = int32 (Counts p OpMove),
          DeleteRows = rows, DeleteRowsTruncated = int32 (length rows) < dels\<rparr>)"

section \<open>The input of the hash\<close>

lemma netstrings_inject: "concat (map netstring xs) = concat (map netstring ys) \<longleftrightarrow> xs = ys"
proof
  have ne: "netstring x \<noteq> []" for x by (simp add: netstring_def)
  show "concat (map netstring xs) = concat (map netstring ys) \<Longrightarrow> xs = ys"
  proof (induction xs arbitrary: ys)
    case Nil
    then show ?case using ne by (cases ys) auto
  next
    case (Cons x xs)
    then show ?case using ne by (cases ys) (auto simp: netstring_inject)
  qed
qed simp

text \<open>What an approval is about: the operation, the rows it addresses, and the stable fields it writes or removes.\<close>

definition approvalView :: "Step \<Rightarrow> string \<times> string \<times> string \<times> string list \<times> Record" where
  "approvalView s = (op_string (stOp s), stID s, stBefore s, stOrder s,
     fmfilter (\<lambda>k. \<not> (k = IDField \<or> k \<in> volatileApprovalFields)) (stRow s))"

lemma pairs_inject:
  assumes "length ks = length ls"
    and "concat (map (\<lambda>k. [k, f k]) ks) @ xs = concat (map (\<lambda>k. [k, g k]) ls) @ ys"
  shows "ks = ls \<and> (\<forall>k \<in> set ks. f k = g k) \<and> xs = ys"
  using assms
proof (induction ks ls rule: list_induct2)
  case (Cons k ks l ls)
  from Cons.prems have "k = l \<and> f k = g l
      \<and> concat (map (\<lambda>k. [k, f k]) ks) @ xs = concat (map (\<lambda>k. [k, g k]) ls) @ ys"
    unfolding list.map concat.simps append_assoc append_Cons append_Nil list.inject .
  with Cons.IH show ?case by auto
qed simp

lemma set_approvalKeys: "k \<in> set (approvalKeys row) \<longleftrightarrow> k \<in> fmdom' row \<and> \<not> (k = IDField \<or> k \<in> volatileApprovalFields)"
  by (auto simp: approvalKeys_def)

lemma approval_fields:
  assumes "approvalKeys a = approvalKeys b" and "\<forall>k \<in> set (approvalKeys a). map_get a k = map_get b k"
  shows "fmfilter (\<lambda>k. \<not> (k = IDField \<or> k \<in> volatileApprovalFields)) a
    = fmfilter (\<lambda>k. \<not> (k = IDField \<or> k \<in> volatileApprovalFields)) b"
proof (rule fmap_ext)
  fix k
  have dom: "k \<in> set (approvalKeys a) \<longleftrightarrow> k \<in> set (approvalKeys b)" using assms(1) by simp
  show "fmlookup (fmfilter (\<lambda>k. \<not> (k = IDField \<or> k \<in> volatileApprovalFields)) a) k =
      fmlookup (fmfilter (\<lambda>k. \<not> (k = IDField \<or> k \<in> volatileApprovalFields)) b) k"
  proof (cases "k \<in> set (approvalKeys a)")
    case True
    then obtain v w where "fmlookup a k = Some v" "fmlookup b k = Some w"
      using dom by (auto simp: set_approvalKeys fmlookup_dom'_iff)
    then show ?thesis using assms(2) True by (auto simp: map_get_Some)
  next
    case False
    then show ?thesis using dom by (auto simp: set_approvalKeys fmlookup_dom'_iff)
  qed
qed

lemma stepParts_inject:
  assumes "stepParts s @ xs = stepParts t @ ys"
  shows "approvalView s = approvalView t \<and> xs = ys"
proof -
  let ?ks = "approvalKeys (stRow s)" and ?ls = "approvalKeys (stRow t)"
  let ?kv = "concat (map (\<lambda>k. [k, map_get (stRow s) k]) ?ks)" and ?lv = "concat (map (\<lambda>k. [k, map_get (stRow t) k]) ?ls)"
  have head: "op_string (stOp s) = op_string (stOp t)" "stID s = stID t" "stBefore s = stBefore t"
    "length (stOrder s) = length (stOrder t)"
    and rest: "stOrder s @ show_nat (length ?ks) # ?kv @ xs = stOrder t @ show_nat (length ?ls) # ?lv @ ys"
    using assms unfolding stepParts_def Let_def append_assoc append_Cons append_Nil list.inject show_nat_inject
    by blast+
  have "stOrder s = stOrder t \<and> show_nat (length ?ks) # ?kv @ xs = show_nat (length ?ls) # ?lv @ ys"
    using rest append_eq_append_conv [OF disjI1 [OF head(4)]] by (rule iffD1 [rotated])
  then have order: "stOrder s = stOrder t" and tail: "length ?ks = length ?ls" "?kv @ xs = ?lv @ ys"
    unfolding list.inject show_nat_inject by blast+
  note kv = pairs_inject [OF tail]
  have "approvalView s = approvalView t"
    unfolding approvalView_def head order using approval_fields [of "stRow s" "stRow t"] kv by blast
  then show ?thesis using kv by blast
qed

lemma steps_inject:
  assumes "length ss = length ts" and "concat (map stepParts ss) = concat (map stepParts ts)"
  shows "map approvalView ss = map approvalView ts"
  using assms
proof (induction ss ts rule: list_induct2)
  case (Cons s ss t ts)
  then show ?case using stepParts_inject [of s "concat (map stepParts ss)" t "concat (map stepParts ts)"] by simp
qed simp

lemma planParts_inject:
  assumes "planParts fp p = planParts fp' p'"
  shows "fp = fp' \<and> map approvalView (Steps p) = map approvalView (Steps p')"
  using assms steps_inject [of "Steps p" "Steps p'"] by (simp add: planParts_def show_nat_inject)

section \<open>Hex and previews\<close>

lemma digit_char_inject:
  assumes "a < 16" and "b < 16"
  shows "digit_char a = digit_char b \<longleftrightarrow> a = b"
proof -
  have "digit_val (digit_char a) = Some a" "digit_val (digit_char b) = Some b" using assms by simp_all
  then show ?thesis by (metis option.inject)
qed

lemma EncodeToString_inject: "EncodeToString a = EncodeToString b \<longleftrightarrow> a = b"
proof
  have byte: "x = y" if "digit_char (of_char x div 16) = digit_char (of_char y div 16)"
      "digit_char (of_char x mod 16) = digit_char (of_char y mod 16)" for x y :: char
  proof -
    have "of_char x < (256 :: nat)" "of_char y < (256 :: nat)" by simp_all
    then have "of_char x div 16 < (16 :: nat)" "of_char y div 16 < (16 :: nat)" by (simp_all add: less_mult_imp_div_less)
    then have "of_char x div 16 = (of_char y div 16 :: nat)" "of_char x mod 16 = (of_char y mod 16 :: nat)"
      using that digit_char_inject by simp_all
    then have "of_char x = (of_char y :: nat)" by (metis div_mod_decomp)
    then show ?thesis by simp
  qed
  show "EncodeToString a = EncodeToString b \<Longrightarrow> a = b"
  proof (induction a arbitrary: b)
    case Nil
    then show ?case by (cases b) (simp_all add: EncodeToString_def)
  next
    case (Cons x a)
    then obtain y ys where b: "b = y # ys" by (cases b) (simp_all add: EncodeToString_def)
    from Cons.prems have "digit_char (of_char x div 16) = digit_char (of_char y div 16)"
        "digit_char (of_char x mod 16) = digit_char (of_char y mod 16)" "EncodeToString a = EncodeToString ys"
      by (simp_all add: b EncodeToString_def)
    then show ?case using byte [of x y] Cons.IH [of ys] b by blast
  qed
qed simp

lemma int32_small: "n < 2 ^ 31 \<Longrightarrow> int32 n = int n"
proof -
  assume "n < 2 ^ 31"
  then have "int n < 2 ^ 31" by (metis of_nat_less_iff of_nat_numeral of_nat_power)
  then show ?thesis by (simp add: int32_def)
qed

lemma deletePreviews_take:
  "deletePreviews ss acc = acc @ take (maxDeletePreviews - length acc) (map deletePreview (filter (\<lambda>s. stOp s = OpDelete) ss))"
proof (induction ss arbitrary: acc)
  case (Cons s ss)
  show ?case
  proof (cases "stOp s = OpDelete \<and> length acc < maxDeletePreviews")
    case True
    then have "maxDeletePreviews - length acc = Suc (maxDeletePreviews - Suc (length acc))" by linarith
    then show ?thesis using True Cons [of "acc @ [deletePreview s]"] by simp
  next
    case False
    then show ?thesis using Cons [of acc] by auto
  qed
qed simp

section \<open>Properties\<close>

definition planInput :: "string \<Rightarrow> Plan \<Rightarrow> string" where
  "planInput fp p = concat (map netstring (planParts fp p))"

text \<open>
  C19: an approval token binds the connection and the plan. Unless the hash collides on the two
  inputs, equal tokens come from the same connection fingerprint and from plans with the same
  steps in the same order: the same operations on the same rows, the same positions, and the same
  values of every field but the id and the counters and flags the router changes by itself. So an
  approval cannot be reused for another router or for other work.
\<close>

theorem planToken_binds:
  assumes "planToken sha256 fp p = planToken sha256 fp' p'"
    and "inj_on sha256 {planInput fp p, planInput fp' p'}"
  shows "fp = fp' \<and> map approvalView (Steps p) = map approvalView (Steps p')"
proof -
  have "sha256 (planInput fp p) = sha256 (planInput fp' p')"
    using assms(1) unfolding planToken_def planInput_def EncodeToString_inject .
  then have "planInput fp p = planInput fp' p'" by (rule inj_onD [OF assms(2)]) simp_all
  then have "planParts fp p = planParts fp' p'" unfolding planInput_def netstrings_inject .
  then show ?thesis by (rule planParts_inject)
qed

theorem planToken_binds_witness:
  "map approvalView (Steps exPlan) = map approvalView (Steps (exPlan\<lparr>Matched := fmempty\<rparr>))"
proof -
  have "planToken (\<lambda>x. x) ''fp'' exPlan = planToken (\<lambda>x. x) ''fp'' (exPlan\<lparr>Matched := fmempty\<rparr>)"
    by (simp add: planToken_def planParts_def)
  from planToken_binds [OF this] show ?thesis by (simp add: inj_on_def)
qed

text \<open>
  The preview of a pending prune. It shows the first twenty deletes of the plan in plan order,
  with the row's id, chain, action and comment; for every plan of fewer than \<open>2^31\<close> steps the counts
  are exact and the preview says it is cut exactly when there are more than twenty deletes.
\<close>

theorem pendingPlan_preview:
  assumes "length (Steps p) < 2 ^ 31"
  shows "DeleteRows (pendingPlan sha256 fp p) = map deletePreview (take 20 (filter (\<lambda>s. stOp s = OpDelete) (Steps p)))
    \<and> Deletes (pendingPlan sha256 fp p) = int (Counts p OpDelete)
    \<and> Creates (pendingPlan sha256 fp p) = int (Counts p OpCreate)
    \<and> Updates (pendingPlan sha256 fp p) = int (Counts p OpUpdate)
    \<and> Moves (pendingPlan sha256 fp p) = int (Counts p OpMove)
    \<and> (DeleteRowsTruncated (pendingPlan sha256 fp p) \<longleftrightarrow> 20 < Counts p OpDelete)"
proof -
  have rows: "deletePreviews (Steps p) [] = map deletePreview (take 20 (filter (\<lambda>s. stOp s = OpDelete) (Steps p)))"
    by (simp add: deletePreviews_take maxDeletePreviews_def take_map)
  have le: "Counts p o' \<le> length (Steps p)" for o' by (simp add: Counts_def)
  have c: "int32 (Counts p o') = int (Counts p o')" for o' using le [of o'] assms by (intro int32_small) linarith
  have "length (deletePreviews (Steps p) []) = min 20 (Counts p OpDelete)" by (simp add: rows Counts_def min.commute)
  moreover have "int32 (min 20 (Counts p OpDelete)) = int (min 20 (Counts p OpDelete))" by (rule int32_small) simp
  ultimately have "DeleteRowsTruncated (pendingPlan sha256 fp p) \<longleftrightarrow> 20 < Counts p OpDelete"
    by (simp add: pendingPlan_def Let_def c min_def)
  then show ?thesis using rows by (simp add: pendingPlan_def Let_def c)
qed

theorem pendingPlan_preview_witness:
  "Deletes (pendingPlan (\<lambda>x. x) ''fp'' exPlan) = 1 \<and> pvChain (hd (DeleteRows (pendingPlan (\<lambda>x. x) ''fp'' exPlan))) = ''forward''"
proof -
  have "length (Steps exPlan) < 2 ^ 31" by (simp add: exPlan_def)
  note pendingPlan_preview [OF this, of "\<lambda>x. x" "''fp''"]
  moreover have "Counts exPlan OpDelete = 1" "pvChain (deletePreview (deleteStep (exRow ''*4'' ''forward''))) = ''forward''"
    by code_simp+
  ultimately show ?thesis by (simp add: exPlan_def deleteStep_def moveStep_def)
qed

end
