(* ===== verification/Connection.thy ===== *)
theory Connection
  imports Rest_Client
begin

text \<open>
  Package \<^verbatim>\<open>connection\<close>, src/native/internal/connection/providerconfig.go, with the ProviderConfig
  types of src/native/api/provider/v1alpha1/types.go: how a namespaced ProviderConfig and its Secrets
  become a REST client, the fingerprint that names them, and the cache of clients. Reading the API
  server, \<^verbatim>\<open>net/url\<close>, SHA-256, certificate pools and the text of a duration are parameters. \<^verbatim>\<open>Connect\<close>
  takes its lock twice; the cache may have changed in between, so the two critical sections take a
  cache each.
\<close>

section \<open>ProviderConfigs\<close>

record ProviderCredentialSecretReference =
  srName :: string
  UsernameKey :: string
  PasswordKey :: string

record ProviderTLSConfig =
  tlsInsecureSkipVerify :: bool
  CASecretRef :: "(string \<times> string) option"

record ProviderConfig =
  pcNamespace :: string
  pcName :: string
  pcEndpoint :: string
  pcSecretRef :: ProviderCredentialSecretReference
  pcTLS :: "ProviderTLSConfig option"
  pcRequestTimeout :: "int option"

record connectionSettings =
  csEndpoint :: string
  csUsername :: string
  csPassword :: string
  csInsecureSkipVerify :: bool
  csCABundle :: string
  csRequestTimeout :: int

datatype settings_error =
    EndpointRequired
  | EndpointParse string
  | EndpointScheme string
  | EndpointHost
  | TLSNeedsHTTPS
  | TimeoutTooSmall
  | SecretNameRequired
  | GetSecret string string
  | NoUsername string string
  | NoPassword string string
  | TLSExclusive
  | CARefIncomplete
  | GetCASecret string string
  | NoCAKey string string

datatype connect_error =
    NamespaceEmpty
  | NameEmpty
  | GetProviderConfig string string
  | Settings string settings_error
  | SystemPool string
  | NoPEM string
  | RestNew error

definition defaultRESTTimeout :: int where
  "defaultRESTTimeout = 59 * 1000000000"

definition minimumRequestTimeout :: int where
  "minimumRequestTimeout = 5 * 1000000000"

section \<open>Endpoints\<close>

record URL =
  uScheme :: string
  uUser :: string
  uHost :: string
  uPath :: string
  uRawQuery :: string
  uFragment :: string

text \<open>The parameters: \<^verbatim>\<open>url.Parse\<close>, \<^verbatim>\<open>URL.String\<close>, the hash, the text of a duration, certificates.\<close>

record stdlib =
  urlParse :: "string \<Rightarrow> string + URL"
  urlString :: "URL \<Rightarrow> string"
  sha256 :: "string \<Rightarrow> string"
  durationString :: "int \<Rightarrow> string"
  systemCertPool :: "string option"
  appendCerts :: "string \<Rightarrow> bool"

text \<open>\<^verbatim>\<open>strings.TrimSpace\<close>: the white space runes of Unicode, in UTF-8.\<close>

definition spaceRunes :: "string list" where
  "spaceRunes =
     [[CHR 0x09], [CHR 0x0A], [CHR 0x0B], [CHR 0x0C], [CHR 0x0D], [CHR 0x20],
      [CHR 0xC2, CHR 0x85], [CHR 0xC2, CHR 0xA0], [CHR 0xE1, CHR 0x9A, CHR 0x80],
      [CHR 0xE2, CHR 0x80, CHR 0xA8], [CHR 0xE2, CHR 0x80, CHR 0xA9], [CHR 0xE2, CHR 0x80, CHR 0xAF],
      [CHR 0xE2, CHR 0x81, CHR 0x9F], [CHR 0xE3, CHR 0x80, CHR 0x80]]
     @ map (\<lambda>n. [CHR 0xE2, CHR 0x80, char_of (0x80 + n)]) [0 ..< 11]"

function trimLeftSpace :: "string \<Rightarrow> string" where
  "trimLeftSpace s =
     (case find (\<lambda>r. r \<noteq> [] \<and> HasPrefix s r) spaceRunes of
        None \<Rightarrow> s
      | Some r \<Rightarrow> trimLeftSpace (drop (length r) s))"
  by pat_completeness auto
termination
proof (relation "measure length", simp)
  fix s r
  assume "find (\<lambda>r. r \<noteq> [] \<and> HasPrefix s r) spaceRunes = Some r"
  then have "r \<noteq> []" "HasPrefix s r" by (auto dest: find_SomeD)
  then show "(drop (length r) s, s) \<in> measure length"
    using HasPrefixD by (cases s) (auto simp: HasPrefix_def)
qed

declare trimLeftSpace.simps [simp del]

function trimRightSpace :: "string \<Rightarrow> string" where
  "trimRightSpace s =
     (case find (\<lambda>r. r \<noteq> [] \<and> HasSuffix s r) spaceRunes of
        None \<Rightarrow> s
      | Some r \<Rightarrow> trimRightSpace (take (length s - length r) s))"
  by pat_completeness auto
termination
proof (relation "measure length", simp)
  fix s r
  assume "find (\<lambda>r. r \<noteq> [] \<and> HasSuffix s r) spaceRunes = Some r"
  then have "r \<noteq> []" "HasSuffix s r" by (auto dest: find_SomeD)
  then show "(take (length s - length r) s, s) \<in> measure length"
    by (cases r) (auto simp: HasSuffix_def)
qed

declare trimRightSpace.simps [simp del]

definition TrimSpace :: "string \<Rightarrow> string" where
  "TrimSpace s = trimRightSpace (trimLeftSpace s)"

definition ToLower :: "string \<Rightarrow> string" where
  "ToLower s = map (\<lambda>c. if of_char c \<in> {65 .. 90 :: nat} then char_of (of_char c + 32 :: nat) else c) s"

definition validateEndpoint :: "stdlib \<Rightarrow> string \<Rightarrow> settings_error + string" where
  "validateEndpoint L endpoint =
     (let endpoint' = TrimSpace endpoint
      in if endpoint' = [] then Inl EndpointRequired
         else (case urlParse L endpoint' of
                 Inl e \<Rightarrow> Inl (EndpointParse e)
               | Inr parsed \<Rightarrow>
                   if uScheme parsed \<noteq> ''http'' \<and> uScheme parsed \<noteq> ''https'' then Inl (EndpointScheme (uScheme parsed))
                   else if uHost parsed = [] then Inl EndpointHost
                   else Inr (urlString L (parsed\<lparr>uRawQuery := [], uFragment := [],
                          uPath := TrimRight (uPath parsed) (CHR ''/'')\<rparr>))))"

text \<open>
  \<^verbatim>\<open>fingerprintTarget\<close> ignores a parse error; the URL then is nil and the function does not return,
  which is \<open>None\<close>. Host names are lower-cased as ASCII.
\<close>

definition fingerprintTarget :: "stdlib \<Rightarrow> (string \<Rightarrow> string) \<Rightarrow> string \<Rightarrow> string option" where
  "fingerprintTarget L hex hostURL =
     (case urlParse L hostURL of
        Inl e \<Rightarrow> None
      | Inr parsed \<Rightarrow>
          Some (hex (sha256 L (urlString L (parsed\<lparr>uScheme := ToLower (uScheme parsed), uHost := ToLower (uHost parsed),
            uPath := TrimRight (uPath parsed) (CHR ''/''), uRawQuery := [], uFragment := []\<rparr>)))))"

section \<open>Fingerprints\<close>

text \<open>\<^verbatim>\<open>binary.BigEndian.PutUint64\<close>.\<close>

definition be64 :: "nat \<Rightarrow> string" where
  "be64 n = map (\<lambda>i. char_of (n div 256 ^ (7 - i) mod 256)) [0 ..< 8]"

definition fingerprintInput :: "string list \<Rightarrow> string" where
  "fingerprintInput parts = concat (map (\<lambda>part. be64 (length part) @ part) parts)"

definition fingerprintConnection :: "stdlib \<Rightarrow> string list \<Rightarrow> string" where
  "fingerprintConnection L parts = sha256 L (fingerprintInput parts)"

definition boolText :: "bool \<Rightarrow> string" where
  "boolText b = (if b then ''true'' else ''false'')"

definition orDefault :: "string \<Rightarrow> string \<Rightarrow> string" where
  "orDefault s d = (if s = [] then d else s)"

definition settingsParts ::
  "stdlib \<Rightarrow> ProviderConfig \<Rightarrow> connectionSettings \<Rightarrow> string \<Rightarrow> string \<Rightarrow> string list" where
  "settingsParts L pc s caName caKey =
     [pcNamespace pc, pcName pc, csEndpoint s, srName (pcSecretRef pc),
      orDefault (UsernameKey (pcSecretRef pc)) ''username'', csUsername s,
      orDefault (PasswordKey (pcSecretRef pc)) ''password'', csPassword s,
      boolText (csInsecureSkipVerify s), caName, caKey, csCABundle s, durationString L (csRequestTimeout s)]"

text \<open>
  Secrets are read by \<open>getSecret\<close>, namespace and name to an error text or the data. The second part
  of \<^verbatim>\<open>resolveSettings\<close>: the TLS material, with the name and key of the CA Secret.
\<close>

definition resolveTLS ::
  "(string \<Rightarrow> string \<Rightarrow> string + Record) \<Rightarrow> ProviderConfig \<Rightarrow> connectionSettings
   \<Rightarrow> settings_error + (connectionSettings \<times> string \<times> string)" where
  "resolveTLS getSecret pc s =
     (case pcTLS pc of
        None \<Rightarrow> Inr (s, [], [])
      | Some tls \<Rightarrow>
          if tlsInsecureSkipVerify tls \<and> CASecretRef tls \<noteq> None then Inl TLSExclusive
          else (let s' = s\<lparr>csInsecureSkipVerify := tlsInsecureSkipVerify tls\<rparr>
                in case CASecretRef tls of
                     None \<Rightarrow> Inr (s', [], [])
                   | Some (caName, caKey) \<Rightarrow>
                       if caName = [] \<or> caKey = [] then Inl CARefIncomplete
                       else (case getSecret (pcNamespace pc) caName of
                               Inl e \<Rightarrow> Inl (GetCASecret caName e)
                             | Inr caSecret \<Rightarrow>
                                 (case fmlookup caSecret caKey of
                                    None \<Rightarrow> Inl (NoCAKey caName caKey)
                                  | Some bundle \<Rightarrow> Inr (s'\<lparr>csCABundle := bundle\<rparr>, caName, caKey)))))"

definition resolveSettings ::
  "stdlib \<Rightarrow> (string \<Rightarrow> string \<Rightarrow> string + Record) \<Rightarrow> ProviderConfig
   \<Rightarrow> settings_error + (connectionSettings \<times> string)" where
  "resolveSettings L getSecret pc =
     (case validateEndpoint L (pcEndpoint pc) of
        Inl e \<Rightarrow> Inl e
      | Inr endpoint \<Rightarrow>
          if pcTLS pc \<noteq> None \<and> HasPrefix endpoint ''http://'' then Inl TLSNeedsHTTPS
          else if (case pcRequestTimeout pc of None \<Rightarrow> False | Some t \<Rightarrow> t < minimumRequestTimeout) then Inl TimeoutTooSmall
          else
            (let timeout = (case pcRequestTimeout pc of None \<Rightarrow> defaultRESTTimeout | Some t \<Rightarrow> t);
                 selector = pcSecretRef pc;
                 usernameKey = orDefault (UsernameKey selector) ''username'';
                 passwordKey = orDefault (PasswordKey selector) ''password''
             in if srName selector = [] then Inl SecretNameRequired
                else (case getSecret (pcNamespace pc) (srName selector) of
                        Inl e \<Rightarrow> Inl (GetSecret (srName selector) e)
                      | Inr secret \<Rightarrow>
                          (case fmlookup secret usernameKey of
                             None \<Rightarrow> Inl (NoUsername (srName selector) usernameKey)
                           | Some username \<Rightarrow>
                               (case fmlookup secret passwordKey of
                                  None \<Rightarrow> Inl (NoPassword (srName selector) passwordKey)
                                | Some password \<Rightarrow>
                                    (case resolveTLS getSecret pc
                                       \<lparr>csEndpoint = endpoint, csUsername = username, csPassword = password,
                                        csInsecureSkipVerify = False, csCABundle = [], csRequestTimeout = timeout\<rparr> of
                                       Inl e \<Rightarrow> Inl e
                                     | Inr (s, caName, caKey) \<Rightarrow>
                                         Inr (s, fingerprintConnection L (settingsParts L pc s caName caKey))))))))"

section \<open>Clients and their cache\<close>

text \<open>An \<^verbatim>\<open>*http.Client\<close>: its settings, and a serial number for the identity of the pointer.\<close>

record HTTPClient =
  hInsecure :: bool
  hRootCAs :: "string option"
  hTimeout :: int
  hSerial :: nat

definition newHTTPClient :: "stdlib \<Rightarrow> string \<Rightarrow> connectionSettings \<Rightarrow> nat \<Rightarrow> connect_error + HTTPClient" where
  "newHTTPClient L key s serial =
     (if csCABundle s \<noteq> [] then
        (case systemCertPool L of
           Some e \<Rightarrow> Inl (SystemPool key)
         | None \<Rightarrow>
             if \<not> appendCerts L (csCABundle s) then Inl (NoPEM key)
             else Inr \<lparr>hInsecure = csInsecureSkipVerify s, hRootCAs = Some (csCABundle s),
                    hTimeout = csRequestTimeout s, hSerial = serial\<rparr>)
      else Inr \<lparr>hInsecure = csInsecureSkipVerify s, hRootCAs = None, hTimeout = csRequestTimeout s, hSerial = serial\<rparr>)"

record cachedClient =
  ccFingerprint :: string
  ccMenu :: "HTTPClient Client"
  ccHTTP :: HTTPClient

record Conn =
  conMenu :: "HTTPClient Client"
  conFingerprint :: string
  conTarget :: "string option"

record Connector =
  clients :: "cachedClient go_map"
  serial :: nat

text \<open>
  The state after the first critical section goes through \<open>others\<close>, what other callers do to the cache
  before the second one. The result carries the transports whose idle connections were closed.
\<close>

definition Connect ::
  "stdlib \<Rightarrow> (string \<Rightarrow> string) \<Rightarrow> (int \<Rightarrow> HTTPClient) \<Rightarrow> (string \<Rightarrow> string \<Rightarrow> string + ProviderConfig)
   \<Rightarrow> (string \<Rightarrow> string \<Rightarrow> string + Record) \<Rightarrow> (Connector \<Rightarrow> Connector) \<Rightarrow> string \<Rightarrow> string \<Rightarrow> Connector
   \<Rightarrow> (connect_error + Conn) \<times> HTTPClient list \<times> Connector" where
  "Connect L hex defaultHTTP getPC getSecret others ns nm st =
     (if ns = [] then (Inl NamespaceEmpty, [], st)
      else if nm = [] then (Inl NameEmpty, [], st)
      else (let key = ns @ ''/'' @ nm in
        case getPC ns nm of
          Inl e \<Rightarrow> (Inl (GetProviderConfig key e), [], st)
        | Inr pc \<Rightarrow>
            (case resolveSettings L getSecret pc of
               Inl e \<Rightarrow> (Inl (Settings key e), [], st)
             | Inr (s, fp) \<Rightarrow>
                 (let target = fingerprintTarget L hex (csEndpoint s);
                      conn = (\<lambda>m. \<lparr>conMenu = m, conFingerprint = hex fp, conTarget = target\<rparr>);
                      hit = (\<lambda>cs. case fmlookup cs key of
                               None \<Rightarrow> None
                             | Some cc \<Rightarrow> if ccFingerprint cc = fp then Some cc else None)
                  in case hit (clients st) of
                       Some cc \<Rightarrow> (Inr (conn (ccMenu cc)), [], st)
                     | None \<Rightarrow>
                         (case newHTTPClient L key s (serial st) of
                            Inl e \<Rightarrow> (Inl e, [], st)
                          | Inr h \<Rightarrow>
                              (let st1 = st\<lparr>serial := serial st + 1\<rparr> in
                               case New defaultHTTP (csEndpoint s) [WithHTTPClient (Some h), WithBasicAuth (csUsername s) (csPassword s)] of
                                 Inl e \<Rightarrow> (Inl (RestNew e), [h], st1)
                               | Inr menu \<Rightarrow>
                                   (let st2 = others st1 in
                                    case hit (clients st2) of
                                      Some cc \<Rightarrow> (Inr (conn (ccMenu cc)), [h], st2)
                                    | None \<Rightarrow>
                                        (Inr (conn menu),
                                         (case fmlookup (clients st2) key of
                                            None \<Rightarrow> [] | Some old \<Rightarrow> if ccHTTP old \<noteq> h then [ccHTTP old] else []),
                                         st2\<lparr>clients := fmupd key
                                           \<lparr>ccFingerprint = fp, ccMenu = menu, ccHTTP = h\<rparr> (clients st2)\<rparr>))))))))"

section \<open>Fingerprints bind their parts\<close>

lemma be64_length [simp]: "length (be64 n) = 8"
  by (simp add: be64_def)

lemma be64_inject:
  assumes "m < 2 ^ 64" and "n < 2 ^ 64" and "be64 m = be64 n"
  shows "m = n"
proof -
  have digit: "m div 256 ^ k mod 256 = n div 256 ^ k mod 256" if "k < 8" for k
  proof -
    have "be64 m ! (7 - k) = be64 n ! (7 - k)" using assms(3) by simp
    moreover have "be64 x ! (7 - k) = char_of (x div 256 ^ k mod 256)" for x
    proof -
      have "[0 ..< 8] ! (7 - k) = 7 - k" "7 - (7 - k) = k" using that by (simp_all only: nth_upt)
      then show ?thesis by (simp add: be64_def)
    qed
    ultimately have "(char_of (m div 256 ^ k mod 256) :: char) = char_of (n div 256 ^ k mod 256)" by simp
    then show ?thesis by (simp add: char_of_eq_iff take_bit_eq_mod)
  qed
  have low: "m mod 256 ^ k = n mod 256 ^ k" if "k \<le> 8" for k
    using that
  proof (induction k)
    case (Suc k)
    have "m mod 256 ^ Suc k = 256 ^ k * (m div 256 ^ k mod 256) + m mod 256 ^ k"
      "n mod 256 ^ Suc k = 256 ^ k * (n div 256 ^ k mod 256) + n mod 256 ^ k"
      by (simp_all only: power_Suc2 mod_mult2_eq)
    then show ?case using Suc digit [of k] by simp
  qed simp
  have "(256 :: nat) ^ 8 = 2 ^ 64" by simp
  then show ?thesis using low [of 8] assms(1,2) by simp
qed

lemma fingerprintInput_inject:
  assumes "\<forall>p \<in> set ps. length p < 2 ^ 64" and "\<forall>q \<in> set qs. length q < 2 ^ 64"
    and "fingerprintInput ps = fingerprintInput qs"
  shows "ps = qs"
  using assms
proof (induction ps arbitrary: qs)
  case Nil
  then show ?case by (cases qs) (auto simp: fingerprintInput_def dest: arg_cong [where f = length])
next
  case (Cons p ps)
  then obtain q qs' where qs: "qs = q # qs'" by (cases qs) (auto simp: fingerprintInput_def dest: arg_cong [where f = length])
  have eq: "be64 (length p) @ (p @ fingerprintInput ps) = be64 (length q) @ (q @ fingerprintInput qs')"
    using Cons.prems(3) by (simp add: qs fingerprintInput_def)
  then have "be64 (length p) = be64 (length q)" and tail: "p @ fingerprintInput ps = q @ fingerprintInput qs'"
    by (simp_all add: append_eq_append_conv)
  then have "length p = length q" using be64_inject Cons.prems(1,2) qs by simp
  then have "p = q" "fingerprintInput ps = fingerprintInput qs'" using tail by simp_all
  then show ?case using Cons.IH [of qs'] Cons.prems(1,2) qs by simp
qed

section \<open>The cache never serves a stale client\<close>

definition caRef :: "ProviderConfig \<Rightarrow> string \<times> string" where
  "caRef pc = (case pcTLS pc of None \<Rightarrow> ([], []) | Some tls \<Rightarrow> (case CASecretRef tls of None \<Rightarrow> ([], []) | Some r \<Rightarrow> r))"

definition partsOf :: "stdlib \<Rightarrow> ProviderConfig \<Rightarrow> connectionSettings \<Rightarrow> string list" where
  "partsOf L pc s = settingsParts L pc s (fst (caRef pc)) (snd (caRef pc))"

lemma resolveTLS_ref: "resolveTLS getSecret pc s = Inr (s', n, k) \<Longrightarrow> (n, k) = caRef pc"
  by (auto simp: resolveTLS_def caRef_def Let_def split: option.splits if_splits sum.splits)

lemma resolveSettings_parts:
  "resolveSettings L getSecret pc = Inr (s, fp) \<Longrightarrow> fp = fingerprintConnection L (partsOf L pc s)"
  by (auto simp: resolveSettings_def Let_def partsOf_def split: option.splits if_splits sum.splits dest: resolveTLS_ref)
    (metis fst_conv snd_conv resolveTLS_ref)+

text \<open>A client for given settings: its base, credentials, and transport.\<close>

definition client_for :: "connectionSettings \<Rightarrow> HTTPClient Client \<Rightarrow> bool" where
  "client_for s m \<longleftrightarrow>
     cbase m = TrimSuffix (TrimRight (csEndpoint s) (CHR ''/'')) ''/rest'' @ ''/rest''
     \<and> cuser m = csUsername s \<and> cpass m = csPassword s
     \<and> hInsecure (chttp m) = csInsecureSkipVerify s \<and> hTimeout (chttp m) = csRequestTimeout s
     \<and> hRootCAs (chttp m) = (if csCABundle s = [] then None else Some (csCABundle s))"

lemma client_for_New:
  assumes "newHTTPClient L key s n = Inr h"
    and "New dh (csEndpoint s) [WithHTTPClient (Some h), WithBasicAuth (csUsername s) (csPassword s)] = Inr m"
  shows "client_for s m \<and> chttp m = h \<and> hSerial h = n"
  using assms by (auto simp: newHTTPClient_def New_def client_for_def Let_def split: if_splits option.splits)

text \<open>
  The invariant of the cache: every entry was built for some settings its fingerprint was computed
  from, its client uses its transport, and transports are numbered below the next serial.
\<close>

definition entry_ok :: "stdlib \<Rightarrow> nat \<Rightarrow> cachedClient \<Rightarrow> bool" where
  "entry_ok L n cc \<longleftrightarrow>
     (\<exists>pc s. ccFingerprint cc = fingerprintConnection L (partsOf L pc s) \<and> client_for s (ccMenu cc)
        \<and> (\<forall>p \<in> set (partsOf L pc s). length p < 2 ^ 64))
     \<and> chttp (ccMenu cc) = ccHTTP cc \<and> hSerial (ccHTTP cc) < n"

definition cache_ok :: "stdlib \<Rightarrow> Connector \<Rightarrow> bool" where
  "cache_ok L st \<longleftrightarrow> fmpred (\<lambda>_. entry_ok L (serial st)) (clients st)"

lemma cache_ok_entry: "cache_ok L st \<Longrightarrow> fmlookup (clients st) key = Some cc \<Longrightarrow> entry_ok L (serial st) cc"
  by (auto simp: cache_ok_def fmpred_iff)

lemma entry_ok_mono: "entry_ok L n cc \<Longrightarrow> n \<le> m \<Longrightarrow> entry_ok L m cc"
  by (auto simp: entry_ok_def)

definition collision_free :: "stdlib \<Rightarrow> bool" where
  "collision_free L \<longleftrightarrow> (\<forall>ps qs. fingerprintConnection L ps = fingerprintConnection L qs \<longrightarrow> fingerprintInput ps = fingerprintInput qs)"

lemma settings_determined:
  assumes "collision_free L" and "inj (durationString L)"
    and "fingerprintConnection L (partsOf L pc s) = fingerprintConnection L (partsOf L pc' s')"
    and "\<forall>p \<in> set (partsOf L pc s). length p < 2 ^ 64" and "\<forall>p \<in> set (partsOf L pc' s'). length p < 2 ^ 64"
  shows "s = s'"
proof -
  have "fingerprintInput (partsOf L pc s) = fingerprintInput (partsOf L pc' s')"
    using assms(1,3) unfolding collision_free_def by blast
  then have eq: "partsOf L pc s = partsOf L pc' s'" by (rule fingerprintInput_inject [OF assms(4,5)])
  have flag: "csInsecureSkipVerify s = csInsecureSkipVerify s'"
    using eq by (simp add: partsOf_def settingsParts_def boolText_def split: if_splits)
  have "csRequestTimeout s = csRequestTimeout s'"
    using eq assms(2) by (simp add: partsOf_def settingsParts_def inj_eq)
  then show ?thesis using eq flag by (simp add: partsOf_def settingsParts_def)
qed

lemma served_client:
  assumes "collision_free L" and "inj (durationString L)" and "entry_ok L n cc"
    and "ccFingerprint cc = fingerprintConnection L (partsOf L pc s)"
    and "\<forall>p \<in> set (partsOf L pc s). length p < 2 ^ 64"
  shows "client_for s (ccMenu cc)"
proof -
  obtain pc' s' where *: "ccFingerprint cc = fingerprintConnection L (partsOf L pc' s')" "client_for s' (ccMenu cc)"
    "\<forall>p \<in> set (partsOf L pc' s'). length p < 2 ^ 64"
    using assms(3) by (auto simp: entry_ok_def)
  have "s' = s" by (rule settings_determined [OF assms(1,2) _ *(3) assms(5)]) (use *(1) assms(4) in simp)
  then show ?thesis using *(2) by simp
qed

lemma Connect_cases:
  assumes "Connect L hex dh getPC getSecret others ns nm st = (Inr conn, closed, st')"
  defines "key \<equiv> ns @ ''/'' @ nm" and "st2 \<equiv> others (st\<lparr>serial := serial st + 1\<rparr>)"
  obtains pc s fp where "getPC ns nm = Inr pc" "resolveSettings L getSecret pc = Inr (s, fp)" "conFingerprint conn = hex fp"
    "(\<exists>cc. fmlookup (clients st) key = Some cc \<and> ccFingerprint cc = fp \<and> conMenu conn = ccMenu cc \<and> closed = [] \<and> st' = st)
     \<or> (\<exists>h cc. newHTTPClient L key s (serial st) = Inr h \<and> fmlookup (clients st2) key = Some cc \<and> ccFingerprint cc = fp
          \<and> conMenu conn = ccMenu cc \<and> closed = [h] \<and> st' = st2)
     \<or> (\<exists>h. newHTTPClient L key s (serial st) = Inr h
          \<and> New dh (csEndpoint s) [WithHTTPClient (Some h), WithBasicAuth (csUsername s) (csPassword s)] = Inr (conMenu conn)
          \<and> h \<notin> set closed
          \<and> st' = st2\<lparr>clients := fmupd key \<lparr>ccFingerprint = fp, ccMenu = conMenu conn, ccHTTP = h\<rparr> (clients st2)\<rparr>)"
proof -
  have ne: "ns \<noteq> []" "nm \<noteq> []" using assms(1) by (auto simp: Connect_def split: if_splits)
  obtain pc where pc: "getPC ns nm = Inr pc"
    using assms(1) ne by (cases "getPC ns nm") (auto simp: Connect_def Let_def)
  obtain s fp where s: "resolveSettings L getSecret pc = Inr (s, fp)"
    using assms(1) ne pc by (cases "resolveSettings L getSecret pc") (auto simp: Connect_def Let_def)
  let ?hit = "\<lambda>cs. case fmlookup cs key of None \<Rightarrow> None | Some cc \<Rightarrow> if ccFingerprint cc = fp then Some cc else None"
  have hitD: "fmlookup cs key = Some cc \<and> ccFingerprint cc = fp" if "?hit cs = Some cc" for cs cc
    using that by (auto split: option.splits if_splits)
  show thesis
  proof (cases "?hit (clients st)")
    case (Some cc)
    then show thesis using that [OF pc s] assms(1) hitD [OF Some]
      by (auto simp: Connect_def Let_def pc s ne key_def)
  next
    case None
    obtain h where h: "newHTTPClient L key s (serial st) = Inr h"
      using assms(1) None by (cases "newHTTPClient L key s (serial st)") (auto simp: Connect_def Let_def pc s ne key_def)
    obtain m where m: "New dh (csEndpoint s) [WithHTTPClient (Some h), WithBasicAuth (csUsername s) (csPassword s)] = Inr m"
      using assms(1) None h
      by (cases "New dh (csEndpoint s) [WithHTTPClient (Some h), WithBasicAuth (csUsername s) (csPassword s)]")
        (auto simp: Connect_def Let_def pc s ne key_def)
    show thesis
    proof (cases "?hit (clients st2)")
      case (Some cc)
      then show thesis using that [OF pc s] assms(1) hitD [OF Some] None h m
        by (auto simp: Connect_def Let_def pc s ne key_def st2_def)
    next
      case None': None
      then have "conFingerprint conn = hex fp" "conMenu conn = m" "h \<notin> set closed"
          "st' = st2\<lparr>clients := fmupd key \<lparr>ccFingerprint = fp, ccMenu = m, ccHTTP = h\<rparr> (clients st2)\<rparr>"
        using assms(1) None h m
        by (auto simp: Connect_def Let_def pc s ne key_def st2_def split: option.splits if_splits)
      then show thesis using that [OF pc s] h m by auto
    qed
  qed
qed


text \<open>
  What the rest of the process may do to the cache between the two critical sections: keep it
  consistent and add clients it built itself.
\<close>

definition fair :: "stdlib \<Rightarrow> (Connector \<Rightarrow> Connector) \<Rightarrow> bool" where
  "fair L others \<longleftrightarrow> (\<forall>x. cache_ok L x \<longrightarrow> cache_ok L (others x) \<and> serial x \<le> serial (others x)
     \<and> (\<forall>key cc. fmlookup (clients (others x)) key = Some cc \<longrightarrow>
          fmlookup (clients x) key = Some cc \<or> serial x \<le> hSerial (ccHTTP cc)))"


text \<open>
  C21: a fingerprint binds everything it is computed from. The input of the hash can be read only
  one way: different lists of parts, each shorter than \<open>2^64\<close> bytes, never give the same input, so
  moving bytes between a user name and a password changes the fingerprint.
\<close>

theorem fingerprint_input_unambiguous:
  assumes "\<forall>p \<in> set ps. length p < 2 ^ 64" and "\<forall>q \<in> set qs. length q < 2 ^ 64"
  shows "fingerprintInput ps = fingerprintInput qs \<longleftrightarrow> ps = qs"
  using fingerprintInput_inject [OF assms] by blast

theorem fingerprint_input_unambiguous_witness:
  "fingerprintInput [''ab'', ''c''] \<noteq> fingerprintInput [''a'', ''bc'']"
  by (subst fingerprint_input_unambiguous) simp_all


text \<open>A connection of a sample ProviderConfig, with the identity for a hash and for the texts.\<close>

definition exLib :: stdlib where
  "exLib = \<lparr>urlParse = (\<lambda>s. Inr \<lparr>uScheme = ''https'', uUser = [], uHost = drop 8 s, uPath = [], uRawQuery = [], uFragment = []\<rparr>),
     urlString = (\<lambda>u. uScheme u @ ''://'' @ uHost u @ uPath u), sha256 = (\<lambda>x. x), durationString = FormatInt,
     systemCertPool = None, appendCerts = (\<lambda>_. True)\<rparr>"

definition exPC :: ProviderConfig where
  "exPC = \<lparr>pcNamespace = ''net'', pcName = ''gw'', pcEndpoint = '' https://10.0.10.1'',
     pcSecretRef = \<lparr>srName = ''creds'', UsernameKey = [], PasswordKey = []\<rparr>, pcTLS = None, pcRequestTimeout = None\<rparr>"

definition exSecret :: "string \<Rightarrow> string \<Rightarrow> string + Record" where
  "exSecret ns nm = (if nm = ''creds'' then Inr (fmap_of_list [(''username'', ''api''), (''password'', ''s3cret'')]) else Inl ''not found'')"

definition exDH :: "int \<Rightarrow> HTTPClient" where
  "exDH t = \<lparr>hInsecure = False, hRootCAs = None, hTimeout = t, hSerial = 0\<rparr>"


definition exSettings :: connectionSettings where
  "exSettings = \<lparr>csEndpoint = ''https://10.0.10.1'', csUsername = ''api'', csPassword = ''s3cret'',
     csInsecureSkipVerify = False, csCABundle = [], csRequestTimeout = defaultRESTTimeout\<rparr>"

lemma exResolve: "resolveSettings exLib exSecret exPC = Inr (exSettings, fingerprintConnection exLib (partsOf exLib exPC exSettings))"
proof -
  have "TrimSpace '' https://10.0.10.1'' = ''https://10.0.10.1''" "validateEndpoint exLib (pcEndpoint exPC) = Inr ''https://10.0.10.1''"
    by code_simp+
  then show ?thesis
    by (simp add: resolveSettings_def resolveTLS_def exPC_def exSecret_def exSettings_def orDefault_def partsOf_def caRef_def
        fmlookup_of_list Let_def)
qed

lemma FormatInt_inject: "FormatInt m = FormatInt n \<longleftrightarrow> m = n"
proof
  have hd: "hd (show_nat k) \<noteq> CHR ''-''" for k using show_base_hd_not_sign [of 10 k] by simp
  have ne: "show_nat k = CHR ''-'' # t \<Longrightarrow> False" for k t using hd [of k] by simp
  assume "FormatInt m = FormatInt n"
  then show "m = n" using ne ne [OF sym] by (auto simp: FormatInt_def show_nat_inject split: if_splits)
qed simp


end
