(* ===== verification/Firewall_Reconciler.thy ===== *)
theory Firewall_Reconciler
  imports Plan_Token Apply_Correct Connection
begin

text \<open>
  The controller of firewall menus, src/native/internal/controller/firewallfilter/reconciler.go. A run of
  \<^verbatim>\<open>Reconcile\<close> takes the state of the API server, of type \<open>'k\<close>, and of the routers, of type \<open>'d\<close>, and
  returns both. The API server, the connector and the Kubernetes helper functions are the fields of
  an environment \<open>('k, 'd) env\<close>; the routers are reached only through the \<^verbatim>\<open>Menu\<close> of a connection.
  Log lines are left out.
\<close>

section \<open>Constants\<close>

definition filterPath :: string where
  "filterPath = ''/ip/firewall/filter''"

definition finalizer :: string where
  "finalizer = ''firewallfiltermenus.ip.routeros.m.sindrip.io/finalizer''"

definition defaultInterval :: int where
  "defaultInterval = 60 * 1000000000"

definition conditionReady :: string where
  "conditionReady = ''Ready''"

definition PruneApprovalAnnotation :: string where
  "PruneApprovalAnnotation = ''firewallfiltermenus.ip.routeros.m.sindrip.io/approve-prune''"

definition errApprovalStale :: error where
  "errApprovalStale = Caller ''approved plan changed before apply''"

definition dynamicIgnore :: "Record list" where
  "dynamicIgnore = [fmap_of_list [(''dynamic'', ''true'')], fmap_of_list [(''dynamic'', ''yes'')]]"

definition deleteAllStaticSpec :: MenuSpec where
  "deleteAllStaticSpec = \<lparr>Path = filterPath, Ordered = True, Unlisted = UnlistedPrune, Key = [], Ignore = dynamicIgnore\<rparr>"

definition restUnlisted :: "string \<Rightarrow> string" where
  "restUnlisted policy =
     (if policy = PolicyTolerate then UnlistedTolerate
      else if policy = PolicyPrune then UnlistedPrune else [])"

section \<open>The world of the controller\<close>

type_synonym ObjectKey = "string \<times> string"

definition menuKey :: "FirewallFilterMenu \<Rightarrow> ObjectKey" where
  "menuKey m = (Namespace m, Name m)"

definition keyString :: "ObjectKey \<Rightarrow> string" where
  "keyString k = fst k @ ''/'' @ snd k"

definition providerKey :: "string \<Rightarrow> string \<Rightarrow> string" where
  "providerKey ns nm = ns @ ''/'' @ nm"

datatype kube_error = KNotFound string | KOther string

fun IsNotFound :: "kube_error \<Rightarrow> bool" where
  "IsNotFound (KNotFound _) = True"
| "IsNotFound (KOther _) = False"

record ProviderConfigUsage =
  usKey :: ObjectKey
  usLabels :: Record
  usOwners :: "string list"
  usConfigKind :: string
  usConfigName :: string
  usResAPIVersion :: string
  usResKind :: string
  usResName :: string
  usResUID :: string

text \<open>The interface \<^verbatim>\<open>Menu\<close> and a \<^verbatim>\<open>Connection\<close>.\<close>

record 'd Menu =
  mPlan :: "MenuSpec \<Rightarrow> Record list \<Rightarrow> 'd \<Rightarrow> (error + Plan) \<times> 'd"
  mApply :: "MenuSpec \<Rightarrow> Record list \<Rightarrow> 'd \<Rightarrow> (Plan \<times> error option) \<times> 'd"
  mApplyChecked :: "MenuSpec \<Rightarrow> Record list \<Rightarrow> (Plan \<Rightarrow> error option) option \<Rightarrow> 'd \<Rightarrow> (Plan \<times> error option) \<times> 'd"

record 'd Connection =
  cMenu :: "'d Menu"
  cFingerprint :: string
  cTargetFingerprint :: string

datatype reconcile_error =
    GetMenu kube_error
  | AddFinalizerFailed kube_error
  | RemoveFinalizerFailed kube_error
  | ListForOwnership kube_error
  | NoUID
  | UsageGet string kube_error
  | UsageCreate string kube_error
  | UsageUpdate string kube_error
  | UpdateStatus kube_error
  | ConnectFailed string
  | PlanFailed error
  | ApplyFailed error
  | DeleteStatic error
  | RefusingDelete
  | Joined reconcile_error "reconcile_error option"

text \<open>
  The environment: calls to the API server, the connector, the finalizer and condition helpers of
  controller-runtime and apimachinery, owner references, the text of errors, the hash, and the two
  Crossplane label names. A merge patch takes the object before and after.
\<close>

record ('k, 'd) env =
  kGet :: "ObjectKey \<Rightarrow> 'k \<Rightarrow> (kube_error + FirewallFilterMenu) \<times> 'k"
  kPatch :: "FirewallFilterMenu \<Rightarrow> FirewallFilterMenu \<Rightarrow> 'k \<Rightarrow> kube_error option \<times> 'k"
  kPatchStatus :: "FirewallFilterMenu \<Rightarrow> FirewallFilterMenu \<Rightarrow> 'k \<Rightarrow> kube_error option \<times> 'k"
  kListMenus :: "'k \<Rightarrow> (kube_error + FirewallFilterMenu list) \<times> 'k"
  kGetUsage :: "ObjectKey \<Rightarrow> 'k \<Rightarrow> (kube_error + ProviderConfigUsage) \<times> 'k"
  kCreateUsage :: "ProviderConfigUsage \<Rightarrow> 'k \<Rightarrow> kube_error option \<times> 'k"
  kPatchUsage :: "ProviderConfigUsage \<Rightarrow> ProviderConfigUsage \<Rightarrow> 'k \<Rightarrow> kube_error option \<times> 'k"
  connectTo :: "string \<Rightarrow> string \<Rightarrow> 'k \<Rightarrow> (string + 'd Connection) \<times> 'k"
  ContainsFinalizer :: "string list \<Rightarrow> string \<Rightarrow> bool"
  AddFinalizer :: "string list \<Rightarrow> string \<Rightarrow> string list"
  RemoveFinalizer :: "string list \<Rightarrow> string \<Rightarrow> string list"
  SetStatusCondition :: "Condition list \<Rightarrow> Condition \<Rightarrow> Condition list"
  NewControllerRef :: "FirewallFilterMenu \<Rightarrow> string \<Rightarrow> string \<Rightarrow> string"
  errText :: "reconcile_error \<Rightarrow> string"
  hash256 :: "string \<Rightarrow> string"
  labelName :: string
  labelKind :: string
  requeueAfter :: int

record Result =
  Requeue :: bool
  RequeueAfter :: int

definition noResult :: Result where
  "noResult = \<lparr>Requeue = False, RequeueAfter = 0\<rparr>"

definition interval :: "('k, 'd) env \<Rightarrow> int" where
  "interval E = (if 0 < requeueAfter E then requeueAfter E else defaultInterval)"

section \<open>Status\<close>

definition statusesEqual :: "FirewallFilterMenuStatus \<Rightarrow> FirewallFilterMenuStatus \<Rightarrow> bool" where
  "statusesEqual a b \<longleftrightarrow>
     ObservedGeneration a = ObservedGeneration b \<and> Adopted a = Adopted b \<and> AdoptedConnection a = AdoptedConnection b
     \<and> PendingPlan a = PendingPlan b \<and> length (statusRows a) = length (statusRows b)
     \<and> length (Conditions a) = length (Conditions b)
     \<and> list_all2 (\<lambda>l r. l = r) (statusRows a) (statusRows b)
     \<and> list_all2 (\<lambda>l r. l\<lparr>condLastTransition := 0\<rparr> = r\<lparr>condLastTransition := 0\<rparr>) (Conditions a) (Conditions b)"

definition newStatus ::
  "('k, 'd) env \<Rightarrow> FirewallFilterMenu \<Rightarrow> Plan \<Rightarrow> string \<Rightarrow> string \<Rightarrow> string
   \<Rightarrow> (FirewallFilterMenuStatus \<Rightarrow> FirewallFilterMenuStatus) \<Rightarrow> FirewallFilterMenuStatus" where
  "newStatus E menu p state reason message mutate =
     mutate ((Status menu)\<lparr>ObservedGeneration := Generation menu,
       statusRows := map (\<lambda>i. \<lparr>rowIndex = int32 i, rowID = (case fmlookup (Matched p) i of None \<Rightarrow> [] | Some x \<Rightarrow> x)\<rparr>)
         [0 ..< length (specRows (Spec menu))],
       Conditions := SetStatusCondition E (Conditions (Status menu))
         \<lparr>condType = conditionReady, condStatus = state, condObservedGeneration = Generation menu,
          condLastTransition = 0, condReason = reason, condMessage = message\<rparr>\<rparr>)"

definition setStatus ::
  "('k, 'd) env \<Rightarrow> FirewallFilterMenu \<Rightarrow> Plan \<Rightarrow> string \<Rightarrow> string \<Rightarrow> string
   \<Rightarrow> (FirewallFilterMenuStatus \<Rightarrow> FirewallFilterMenuStatus) \<Rightarrow> 'k \<Rightarrow> reconcile_error option \<times> 'k" where
  "setStatus E menu p state reason message mutate k =
     (let st = newStatus E menu p state reason message mutate
      in if statusesEqual (Status menu) st then (None, k)
         else (case kPatchStatus E menu (menu\<lparr>Status := st\<rparr>) k of
                 (None, k') \<Rightarrow> (None, k')
               | (Some e, k') \<Rightarrow> (Some (UpdateStatus e), k')))"

section \<open>Usage tracking\<close>

definition wantUsage :: "('k, 'd) env \<Rightarrow> FirewallFilterMenu \<Rightarrow> ProviderConfigUsage" where
  "wantUsage E menu =
     \<lparr>usKey = (Namespace menu, UID menu),
      usLabels = fmap_of_list [(labelName E, ProviderConfigRef (Spec menu)), (labelKind E, ''ProviderConfig'')],
      usOwners = [NewControllerRef E menu ''ip.routeros.m.sindrip.io/v1alpha1'' ''FirewallFilterMenu''],
      usConfigKind = ''ProviderConfig'', usConfigName = ProviderConfigRef (Spec menu),
      usResAPIVersion = ''ip.routeros.m.sindrip.io/v1alpha1'', usResKind = ''FirewallFilterMenu'',
      usResName = Name menu, usResUID = UID menu\<rparr>"

definition statusesEqualProviderUsage :: "ProviderConfigUsage \<Rightarrow> ProviderConfigUsage \<Rightarrow> bool" where
  "statusesEqualProviderUsage l r \<longleftrightarrow>
     (usConfigKind l, usConfigName l) = (usConfigKind r, usConfigName r)
     \<and> (usResAPIVersion l, usResKind l, usResName l, usResUID l) = (usResAPIVersion r, usResKind r, usResName r, usResUID r)
     \<and> usLabels l = usLabels r \<and> usOwners l = usOwners r"

definition trackProviderConfigUsage :: "('k, 'd) env \<Rightarrow> FirewallFilterMenu \<Rightarrow> 'k \<Rightarrow> reconcile_error option \<times> 'k" where
  "trackProviderConfigUsage E menu k =
     (if UID menu = [] then (Some NoUID, k)
      else (let want = wantUsage E menu in
        case kGetUsage E (Namespace menu, UID menu) k of
          (Inl e, k1) \<Rightarrow>
            if IsNotFound e
            then (case kCreateUsage E want k1 of
                    (None, k2) \<Rightarrow> (None, k2) | (Some e', k2) \<Rightarrow> (Some (UsageCreate (UID menu) e'), k2))
            else (Some (UsageGet (UID menu) e), k1)
        | (Inr usage, k1) \<Rightarrow>
            (let usage' = want\<lparr>usKey := usKey usage\<rparr>
             in if statusesEqualProviderUsage usage usage' then (None, k1)
                else (case kPatchUsage E usage usage' k1 of
                        (None, k2) \<Rightarrow> (None, k2) | (Some e', k2) \<Rightarrow> (Some (UsageUpdate (UID menu) e'), k2)))))"

section \<open>Ownership\<close>

definition createdBefore :: "FirewallFilterMenu \<Rightarrow> FirewallFilterMenu \<Rightarrow> bool" where
  "createdBefore l r =
     (if CreationTimestamp l = CreationTimestamp r then keyString (menuKey l) < keyString (menuKey r)
      else CreationTimestamp l < CreationTimestamp r)"

text \<open>The loop of \<^verbatim>\<open>ownerFor\<close>, over the listed menus.\<close>

fun ownerLoop ::
  "('k, 'd) env \<Rightarrow> FirewallFilterMenu \<Rightarrow> string \<Rightarrow> FirewallFilterMenu list \<Rightarrow> FirewallFilterMenu option \<Rightarrow> 'k
   \<Rightarrow> FirewallFilterMenu option \<times> 'k" where
  "ownerLoop E current target [] owner k = (owner, k)"
| "ownerLoop E current target (cand # cands) owner k =
     (let elect = (if (case owner of None \<Rightarrow> True | Some o' \<Rightarrow> createdBefore cand o') then Some cand else owner)
      in if Deleting cand \<and> \<not> ContainsFinalizer E (Finalizers cand) finalizer
         then ownerLoop E current target cands owner k
         else if menuKey cand = menuKey current then ownerLoop E current target cands elect k
         else (case connectTo E (Namespace cand) (ProviderConfigRef (Spec cand)) k of
                 (Inl e, k') \<Rightarrow> ownerLoop E current target cands owner k'
               | (Inr connected, k') \<Rightarrow>
                   if cTargetFingerprint connected \<noteq> target then ownerLoop E current target cands owner k'
                   else ownerLoop E current target cands elect k'))"

definition ownerFor ::
  "('k, 'd) env \<Rightarrow> FirewallFilterMenu \<Rightarrow> string \<Rightarrow> 'k \<Rightarrow> (reconcile_error + ObjectKey) \<times> 'k" where
  "ownerFor E current target k =
     (case kListMenus E k of
        (Inl e, k1) \<Rightarrow> (Inl (ListForOwnership e), k1)
      | (Inr menus, k1) \<Rightarrow>
          (case ownerLoop E current target menus None k1 of
             (None, k2) \<Rightarrow> (Inr ([], []), k2)
           | (Some owner, k2) \<Rightarrow> (Inr (menuKey owner), k2)))"

section \<open>Deleting a menu\<close>

definition removeFinalizer :: "('k, 'd) env \<Rightarrow> FirewallFilterMenu \<Rightarrow> 'k \<Rightarrow> (Result \<times> reconcile_error option) \<times> 'k" where
  "removeFinalizer E menu k =
     (case kPatch E menu (menu\<lparr>Finalizers := RemoveFinalizer E (Finalizers menu) finalizer\<rparr>) k of
        (Some e, k') \<Rightarrow> ((noResult, if IsNotFound e then None else Some (RemoveFinalizerFailed e)), k')
      | (None, k') \<Rightarrow> ((noResult, None), k'))"

definition reconcileDelete ::
  "('k, 'd) env \<Rightarrow> FirewallFilterMenu \<Rightarrow> 'k \<Rightarrow> 'd \<Rightarrow> (Result \<times> reconcile_error option) \<times> 'k \<times> 'd" where
  "reconcileDelete E menu k d =
     (if \<not> ContainsFinalizer E (Finalizers menu) finalizer then ((noResult, None), k, d)
      else if orDefault (DeletionPolicy (Spec menu)) DeletionOrphan = DeletionOrphan
      then (let (r, k') = removeFinalizer E menu k in (r, k', d))
      else if specUnlisted (Spec menu) \<noteq> PolicyPrune then ((noResult, Some RefusingDelete), k, d)
      else (case connectTo E (Namespace menu) (ProviderConfigRef (Spec menu)) k of
              (Inl e, k1) \<Rightarrow> ((noResult, Some (ConnectFailed e)), k1, d)
            | (Inr connected, k1) \<Rightarrow>
                (case ownerFor E menu (cTargetFingerprint connected) k1 of
                   (Inl e, k2) \<Rightarrow> ((noResult, Some e), k2, d)
                 | (Inr owner, k2) \<Rightarrow>
                     if owner \<noteq> ([], []) \<and> owner \<noteq> menuKey menu
                     then (let (r, k') = removeFinalizer E menu k2 in (r, k', d))
                     else (case mApply (cMenu connected) deleteAllStaticSpec [] d of
                             ((p, Some e), d') \<Rightarrow> ((noResult, Some (DeleteStatic e)), k2, d')
                           | ((p, None), d') \<Rightarrow> (let (r, k') = removeFinalizer E menu k2 in (r, k', d'))))))"

section \<open>Adopting a menu\<close>

fun Is_ApprovalStale :: "error \<Rightarrow> bool" where
  "Is_ApprovalStale (Caller s) \<longleftrightarrow> Caller s = errApprovalStale"
| "Is_ApprovalStale (NotApproved _ e) \<longleftrightarrow> Is_ApprovalStale e"
| "Is_ApprovalStale (MutationStep _ _ _ _ e) \<longleftrightarrow> Is_ApprovalStale e"
| "Is_ApprovalStale (OrderingStep _ _ _ _ e) \<longleftrightarrow> Is_ApprovalStale e"
| "Is_ApprovalStale (PlanStep _ _ _ _ e) \<longleftrightarrow> Is_ApprovalStale e"
| "Is_ApprovalStale (PlanningOrder _ e) \<longleftrightarrow> Is_ApprovalStale e"
| "Is_ApprovalStale _ \<longleftrightarrow> False"

definition pendingStatus :: "FirewallFilterPlanStatus \<Rightarrow> FirewallFilterMenuStatus \<Rightarrow> FirewallFilterMenuStatus" where
  "pendingStatus pending st = st\<lparr>Adopted := False, PendingPlan := Some pending\<rparr>"

definition adoptedStatus :: "string \<Rightarrow> FirewallFilterMenuStatus \<Rightarrow> FirewallFilterMenuStatus" where
  "adoptedStatus fp st = st\<lparr>Adopted := True, AdoptedConnection := fp, PendingPlan := None\<rparr>"

definition currentStatus :: "string \<Rightarrow> FirewallFilterMenuStatus \<Rightarrow> FirewallFilterMenuStatus" where
  "currentStatus fp st =
     (let st' = st\<lparr>PendingPlan := None\<rparr>
      in if AdoptedConnection st' \<noteq> fp then st'\<lparr>Adopted := False\<rparr> else st')"

definition approveToken :: "('k, 'd) env \<Rightarrow> string \<Rightarrow> FirewallFilterPlanStatus \<Rightarrow> Plan \<Rightarrow> error option" where
  "approveToken E fp pending fresh =
     (if planToken (hash256 E) fp fresh \<noteq> ApprovalToken pending then Some errApprovalStale else None)"

text \<open>A status update whose own failure replaces the result, and one joined to an error.\<close>

definition statusThen ::
  "('k, 'd) env \<Rightarrow> FirewallFilterMenu \<Rightarrow> Plan \<Rightarrow> string \<Rightarrow> string \<Rightarrow> string
   \<Rightarrow> (FirewallFilterMenuStatus \<Rightarrow> FirewallFilterMenuStatus) \<Rightarrow> Result \<Rightarrow> 'k \<Rightarrow> (Result \<times> reconcile_error option) \<times> 'k" where
  "statusThen E menu p state reason message mutate res k =
     (case setStatus E menu p state reason message mutate k of
        (Some e, k') \<Rightarrow> ((noResult, Some e), k')
      | (None, k') \<Rightarrow> ((res, None), k'))"

definition statusFailed ::
  "('k, 'd) env \<Rightarrow> FirewallFilterMenu \<Rightarrow> Plan \<Rightarrow> string \<Rightarrow> reconcile_error \<Rightarrow> 'k \<Rightarrow> (Result \<times> reconcile_error option) \<times> 'k" where
  "statusFailed E menu p reason err k =
     (case setStatus E menu p ''False'' reason (errText E err) (\<lambda>st. st) k of
        (statusErr, k') \<Rightarrow> ((noResult, Some (Joined err statusErr)), k'))"

definition waitInterval :: "('k, 'd) env \<Rightarrow> Result" where
  "waitInterval E = \<lparr>Requeue = False, RequeueAfter = interval E\<rparr>"

definition requeueNow :: Result where
  "requeueNow = \<lparr>Requeue = True, RequeueAfter = 0\<rparr>"

definition reconcileAdoption ::
  "('k, 'd) env \<Rightarrow> FirewallFilterMenu \<Rightarrow> 'd Connection \<Rightarrow> MenuSpec \<Rightarrow> Record list \<Rightarrow> 'k \<Rightarrow> 'd
   \<Rightarrow> (Result \<times> reconcile_error option) \<times> 'k \<times> 'd" where
  "reconcileAdoption E menu connected spec desired k d =
     (case mPlan (cMenu connected) spec desired d of
        (Inl e, d1) \<Rightarrow> (let (r, k') = statusFailed E menu emptyPlan ''PlanError'' (PlanFailed e) k in (r, k', d1))
      | (Inr preview, d1) \<Rightarrow>
          (let fp = cFingerprint connected;
               pending = pendingPlan (hash256 E) fp preview
           in if 0 < Deletes pending \<and> map_get (Annotations menu) PruneApprovalAnnotation \<noteq> ApprovalToken pending
              then (let (r, k') = statusThen E menu preview ''False'' ''AdoptionPending''
                      (''first prune would delete '' @ FormatInt (Deletes pending) @ '' static row(s); set annotation ''
                       @ PruneApprovalAnnotation @ ''='' @ ApprovalToken pending @ '' to approve this exact plan'')
                      (pendingStatus pending) (waitInterval E) k
                    in (r, k', d1))
              else
                (case mApplyChecked (cMenu connected) spec desired (Some (approveToken E fp pending)) d1 of
                   ((applied, Some err), d2) \<Rightarrow>
                     if Is_ApprovalStale err
                     then (let fresh = pendingPlan (hash256 E) fp applied;
                               (message, res) =
                                 (if Deletes fresh = 0
                                  then (''the router changed after preview; retrying the new non-destructive plan'', requeueNow)
                                  else (''the router changed after preview; review and approve the new pending plan'', waitInterval E));
                               (r, k') = statusThen E menu applied ''False'' ''AdoptionPending'' message (pendingStatus fresh) res k
                           in (r, k', d2))
                     else (let (r, k') = statusFailed E menu applied ''ApplyError'' (ApplyFailed err) k in (r, k', d2))
                 | ((applied, None), d2) \<Rightarrow>
                     (let (r, k') = statusThen E menu applied ''True'' ''Available''
                            (if Plan_Empty applied then ''adopted menu; no changes were required''
                             else ''adopted menu and applied '' @ show_nat (length (Steps applied)) @ '' operation(s)'')
                            (adoptedStatus fp) (waitInterval E) k
                      in (r, k', d2)))))"

section \<open>Reconcile\<close>

definition menuSpecOf :: "FirewallFilterMenu \<Rightarrow> MenuSpec" where
  "menuSpecOf menu = \<lparr>Path = filterPath, Ordered = True, Unlisted = restUnlisted (specUnlisted (Spec menu)), Key = [],
     Ignore = dynamicIgnore\<rparr>"

definition desiredOf :: "FirewallFilterMenu \<Rightarrow> Record list" where
  "desiredOf menu = map Fields (specRows (Spec menu))"

text \<open>The part of \<^verbatim>\<open>Reconcile\<close> after the ownership check.\<close>

definition reconcileRows ::
  "('k, 'd) env \<Rightarrow> FirewallFilterMenu \<Rightarrow> 'd Connection \<Rightarrow> 'k \<Rightarrow> 'd \<Rightarrow> (Result \<times> reconcile_error option) \<times> 'k \<times> 'd" where
  "reconcileRows E menu connected k d =
     (let desired = desiredOf menu; spec = menuSpecOf menu
      in if Unlisted spec = UnlistedPrune
            \<and> (\<not> Adopted (Status menu) \<or> AdoptedConnection (Status menu) \<noteq> cFingerprint connected)
         then reconcileAdoption E menu connected spec desired k d
         else (case mApply (cMenu connected) spec desired d of
                 ((p, Some err), d') \<Rightarrow>
                   (let (r, k') = statusFailed E menu p ''ApplyError'' (ApplyFailed err) k in (r, k', d'))
               | ((p, None), d') \<Rightarrow>
                   (let (r, k') = statusThen E menu p ''True'' ''Available''
                          (if Plan_Empty p then ''menu is current'' else ''applied '' @ show_nat (length (Steps p)) @ '' operation(s)'')
                          (currentStatus (cFingerprint connected)) (waitInterval E) k
                    in (r, k', d'))))"

text \<open>\<^verbatim>\<open>%q\<close> of a key, whose characters need no escapes.\<close>

definition quoted :: "string \<Rightarrow> string" where
  "quoted s = CHR 0x22 # s @ [CHR 0x22]"

definition reconcileLive ::
  "('k, 'd) env \<Rightarrow> FirewallFilterMenu \<Rightarrow> 'k \<Rightarrow> 'd \<Rightarrow> (Result \<times> reconcile_error option) \<times> 'k \<times> 'd" where
  "reconcileLive E menu k d =
     (case trackProviderConfigUsage E menu k of
        (Some err, k1) \<Rightarrow> (let (r, k') = statusFailed E menu emptyPlan ''UsageTrackingError'' err k1 in (r, k', d))
      | (None, k1) \<Rightarrow>
          (case connectTo E (Namespace menu) (ProviderConfigRef (Spec menu)) k1 of
             (Inl e, k2) \<Rightarrow> (let (r, k') = statusFailed E menu emptyPlan ''ConnectionError'' (ConnectFailed e) k2 in (r, k', d))
           | (Inr connected, k2) \<Rightarrow>
               (case ownerFor E menu (cTargetFingerprint connected) k2 of
                  (Inl e, k3) \<Rightarrow> ((noResult, Some e), k3, d)
                | (Inr owner, k3) \<Rightarrow>
                    if owner \<noteq> ([], []) \<and> owner \<noteq> menuKey menu
                    then (let (r, k') = statusThen E menu emptyPlan ''False'' ''OwnershipConflict''
                            (''FirewallFilterMenu '' @ quoted (keyString owner) @ '' already owns this router menu'')
                            (\<lambda>st. st) (waitInterval E) k3
                          in (r, k', d))
                    else reconcileRows E menu connected k3 d)))"

definition Reconcile ::
  "('k, 'd) env \<Rightarrow> ObjectKey \<Rightarrow> 'k \<Rightarrow> 'd \<Rightarrow> (Result \<times> reconcile_error option) \<times> 'k \<times> 'd" where
  "Reconcile E key k d =
     (case kGet E key k of
        (Inl e, k1) \<Rightarrow> ((noResult, if IsNotFound e then None else Some (GetMenu e)), k1, d)
      | (Inr menu, k1) \<Rightarrow>
          if Deleting menu then reconcileDelete E menu k1 d
          else if \<not> ContainsFinalizer E (Finalizers menu) finalizer
          then (case kPatch E menu (menu\<lparr>Finalizers := AddFinalizer E (Finalizers menu) finalizer\<rparr>) k1 of
                  (Some e, k2) \<Rightarrow> ((noResult, Some (AddFinalizerFailed e)), k2, d)
                | (None, k2) \<Rightarrow> ((requeueNow, None), k2, d))
          else reconcileLive E menu k1 d)"

section \<open>Events\<close>

fun secretKeys :: "string \<Rightarrow> string list \<Rightarrow> string set \<Rightarrow> string list" where
  "secretKeys ns [] seen = []"
| "secretKeys ns (nm # names) seen =
     (if nm = [] \<or> nm \<in> seen then secretKeys ns names seen
      else providerKey ns nm # secretKeys ns names (insert nm seen))"

definition providerSecretReferenceKeys :: "ProviderConfig \<Rightarrow> string list" where
  "providerSecretReferenceKeys config =
     secretKeys (pcNamespace config)
       (srName (pcSecretRef config)
        # (case pcTLS config of
             None \<Rightarrow> []
           | Some tls \<Rightarrow> (case CASecretRef tls of None \<Rightarrow> [] | Some (nm, _) \<Rightarrow> [nm]))) {}"

text \<open>
  The two map functions of the watches. A field index lists the objects of a namespace whose index
  keys contain the given one; a failing list gives no requests.
\<close>

definition menuIndex :: "FirewallFilterMenu \<Rightarrow> string list" where
  "menuIndex m = (if ProviderConfigRef (Spec m) = [] then [] else [providerKey (Namespace m) (ProviderConfigRef (Spec m))])"

definition requestsForProviderConfig :: "FirewallFilterMenu list option \<Rightarrow> string \<Rightarrow> string \<Rightarrow> ObjectKey list" where
  "requestsForProviderConfig menus ns nm =
     (case menus of
        None \<Rightarrow> []
      | Some ms \<Rightarrow> map menuKey (filter (\<lambda>m. Namespace m = ns \<and> providerKey ns nm \<in> set (menuIndex m)) ms))"

definition requestsForSecret ::
  "ProviderConfig list option \<Rightarrow> FirewallFilterMenu list option \<Rightarrow> string \<Rightarrow> string \<Rightarrow> ObjectKey list" where
  "requestsForSecret configs menus ns nm =
     (case configs of
        None \<Rightarrow> []
      | Some cs \<Rightarrow>
          concat (map (\<lambda>config. requestsForProviderConfig menus (pcNamespace config) (pcName config))
            (filter (\<lambda>config. pcNamespace config = ns \<and> providerKey ns nm \<in> set (providerSecretReferenceKeys config)) cs)))"

end
