(* ===== verification/Firewall_Safety.thy ===== *)
theory Firewall_Safety
  imports Firewall_Reconciler
begin

text \<open>
  What the controller may do to a router and when. The locale \<open>controller\<close> says what the connector
  hands out: REST clients of routers that behave as \<open>router\<close> says, one per target fingerprint.
\<close>

section \<open>The REST client as a menu\<close>

definition restMenu :: "('h, 'd) transport_fn \<Rightarrow> 'h Client \<Rightarrow> 'd Menu" where
  "restMenu Do c = \<lparr>mPlan = Client_Plan Do c, mApply = Apply Do c, mApplyChecked = ApplyChecked Do c\<rparr>"

lemma restMenu_simps [simp]:
  "mPlan (restMenu Do c) = Client_Plan Do c" "mApply (restMenu Do c) = Apply Do c"
  "mApplyChecked (restMenu Do c) = ApplyChecked Do c"
  by (simp_all add: restMenu_def)

text \<open>Who may touch a router: the menu's own key or nobody is elected.\<close>

definition entitled :: "FirewallFilterMenu \<Rightarrow> ObjectKey \<Rightarrow> bool" where
  "entitled menu owner \<longleftrightarrow> owner = ([], []) \<or> owner = menuKey menu"

locale controller =
  fixes E :: "('k, 'd) env" and Do :: "('h, 'd) transport_fn" and rows :: "string \<Rightarrow> 'd \<Rightarrow> Record list"
    and ok :: "'d \<Rightarrow> bool"
  assumes connects: "connectTo E ns nm k = (Inr conn, k') \<Longrightarrow>
      \<exists>c. cMenu conn = restMenu Do c \<and> router Do c filterPath (rows (cTargetFingerprint conn)) ok"
    and isolated_plan: "connectTo E ns nm k = (Inr conn, k') \<Longrightarrow> ok d \<Longrightarrow> t \<noteq> cTargetFingerprint conn \<Longrightarrow>
      mPlan (cMenu conn) spec desired d = (r1, d') \<Longrightarrow> rows t d' = rows t d"
    and isolated_apply: "connectTo E ns nm k = (Inr conn, k') \<Longrightarrow> ok d \<Longrightarrow> t \<noteq> cTargetFingerprint conn \<Longrightarrow>
      mApply (cMenu conn) spec desired d = (r2, d') \<Longrightarrow> rows t d' = rows t d"
    and isolated_checked: "connectTo E ns nm k = (Inr conn, k') \<Longrightarrow> ok d \<Longrightarrow> t \<noteq> cTargetFingerprint conn \<Longrightarrow>
      mApplyChecked (cMenu conn) spec desired f d = (r2, d') \<Longrightarrow> rows t d' = rows t d"
begin

lemma plan_only_reads:
  assumes c: "connectTo E ns nm k = (Inr conn, k')" and d: "ok d" and spec: "Path spec = filterPath"
    and run: "mPlan (cMenu conn) spec desired d = (r, d')"
  shows "ok d' \<and> rows t d' = rows t d
    \<and> (\<forall>p. r = Inr p \<longrightarrow> plan spec desired (rows (cTargetFingerprint conn) d) = Inr p)"
proof -
  obtain cl where cl: "cMenu conn = restMenu Do cl" "router Do cl filterPath (rows (cTargetFingerprint conn)) ok"
    using connects [OF c] by blast
  have p: "Client_Plan Do cl spec desired d = (r, d')" using run cl(1) by simp
  note reads = router.plan_reads [OF cl(2) d p spec]
  show ?thesis
    using reads isolated_plan [OF c d _ run, of t] by (cases "t = cTargetFingerprint conn") auto
qed

lemma adoption_touches:
  assumes c: "connectTo E ns nm k0 = (Inr conn, k0')" and d: "ok d" and t: "t \<noteq> cTargetFingerprint conn"
    and spec: "Path spec = filterPath"
    and run: "reconcileAdoption E menu conn spec desired k d = (r, k', d')"
  shows "rows t d' = rows t d"
proof -
  obtain pr d1 where p: "mPlan (cMenu conn) spec desired d = (pr, d1)" by fastforce
  have ok1: "ok d1" and r1: "rows t d1 = rows t d" using plan_only_reads [OF c d spec p] by auto
  have "rows t d2 = rows t d" if "mApplyChecked (cMenu conn) spec desired f d1 = (x, d2)" for f x d2
    using isolated_checked [OF c ok1 t that] r1 by simp
  then show ?thesis
    using run r1 unfolding reconcileAdoption_def p
    by (auto simp: Let_def split: sum.splits if_splits prod.splits option.splits)
qed

lemma rows_touches:
  assumes c: "connectTo E ns nm k0 = (Inr conn, k0')" and d: "ok d" and t: "t \<noteq> cTargetFingerprint conn"
    and run: "reconcileRows E menu conn k d = (r, k', d')"
  shows "rows t d' = rows t d"
proof -
  have "rows t d2 = rows t d" if "mApply (cMenu conn) (menuSpecOf menu) (desiredOf menu) d = (x, d2)" for x d2
    using isolated_apply [OF c d t that] .
  moreover have "Path (menuSpecOf menu) = filterPath" by (simp add: menuSpecOf_def)
  note adoption_touches [OF c d t this, of menu "desiredOf menu" k r k' d']
  ultimately show ?thesis
    using run by (auto simp: reconcileRows_def Let_def split: sum.splits if_splits prod.splits option.splits)
qed

text \<open>Every path to a router goes through the finalizer, the policies, the usage record and the election.\<close>

lemma reconcile_guard:
  assumes d: "ok d" and run: "Reconcile E key k d = (r, k', d')" and changed: "rows t d' \<noteq> rows t d"
  shows "\<exists>menu k1 k2 conn k3 owner k4. kGet E key k = (Inr menu, k1) \<and> ContainsFinalizer E (Finalizers menu) finalizer
    \<and> connectTo E (Namespace menu) (ProviderConfigRef (Spec menu)) k2 = (Inr conn, k3) \<and> cTargetFingerprint conn = t
    \<and> ownerFor E menu t k3 = (Inr owner, k4) \<and> entitled menu owner
    \<and> (if Deleting menu
       then orDefault (DeletionPolicy (Spec menu)) DeletionOrphan \<noteq> DeletionOrphan \<and> specUnlisted (Spec menu) = PolicyPrune
       else trackProviderConfigUsage E menu k1 = (None, k2))"
proof -
  obtain menu k1 where m: "kGet E key k = (Inr menu, k1)"
    using run changed by (cases "kGet E key k"; cases "fst (kGet E key k)") (auto simp: Reconcile_def)
  show ?thesis
  proof (cases "Deleting menu")
    case True
    then have run': "reconcileDelete E menu k1 d = (r, k', d')" using run m by (simp add: Reconcile_def)
    have g: "ContainsFinalizer E (Finalizers menu) finalizer"
        "orDefault (DeletionPolicy (Spec menu)) DeletionOrphan \<noteq> DeletionOrphan" "specUnlisted (Spec menu) = PolicyPrune"
      using run' changed by (auto simp: reconcileDelete_def split: if_splits prod.splits)
    obtain conn k3 where c: "connectTo E (Namespace menu) (ProviderConfigRef (Spec menu)) k1 = (Inr conn, k3)"
      using run' changed g by (auto simp: reconcileDelete_def split: if_splits prod.splits sum.splits)
    obtain owner k4 where o: "ownerFor E menu (cTargetFingerprint conn) k3 = (Inr owner, k4)" "entitled menu owner"
      using run' changed g c
      by (auto simp: reconcileDelete_def entitled_def split: if_splits prod.splits sum.splits)
    have "cTargetFingerprint conn = t"
    proof (rule ccontr)
      assume t: "cTargetFingerprint conn \<noteq> t"
      have "rows t d2 = rows t d" if "mApply (cMenu conn) deleteAllStaticSpec [] d = (x, d2)" for x d2
        using isolated_apply [OF c d t [symmetric] that] .
      then show False
        using run' changed g c o by (auto simp: reconcileDelete_def split: if_splits prod.splits sum.splits option.splits)
    qed
    then show ?thesis
      using True m g c o
      by (intro exI [of _ menu] exI [of _ k1] exI [of _ conn] exI [of _ k3] exI [of _ owner] exI [of _ k4]) simp
  next
    case False
    have g: "ContainsFinalizer E (Finalizers menu) finalizer"
      using run changed m False by (auto simp: Reconcile_def split: if_splits prod.splits option.splits)
    then have run': "reconcileLive E menu k1 d = (r, k', d')" using run m False by (simp add: Reconcile_def)
    obtain k2 where u: "trackProviderConfigUsage E menu k1 = (None, k2)"
      using run' changed by (auto simp: reconcileLive_def split: prod.splits option.splits)
    obtain conn k3 where c: "connectTo E (Namespace menu) (ProviderConfigRef (Spec menu)) k2 = (Inr conn, k3)"
      using run' changed u by (auto simp: reconcileLive_def split: prod.splits sum.splits)
    obtain owner k4 where o: "ownerFor E menu (cTargetFingerprint conn) k3 = (Inr owner, k4)" "entitled menu owner"
      and rr: "reconcileRows E menu conn k4 d = (r, k', d')"
      using run' changed u c
      by (auto simp: reconcileLive_def entitled_def split: if_splits prod.splits sum.splits)
    have "cTargetFingerprint conn = t" using rows_touches [OF c d _ rr] changed by metis
    then show ?thesis
      using False m g u c o
      by (intro exI [of _ menu] exI [of _ k1] exI [of _ k2] exI [of _ conn] exI [of _ k3] exI [of _ owner] exI [of _ k4]) simp
  qed
qed

end

lemma deletes_count: "s \<in> set (Steps p) \<Longrightarrow> stOp s = OpDelete \<Longrightarrow> 0 < Counts p OpDelete"
  by (auto simp: Counts_def filter_empty_conv)

lemma Deletes_pending:
  assumes "length (Steps p) < 2 ^ 31"
  shows "Deletes (pendingPlan sha fp p) = int (Counts p OpDelete)"
proof -
  have "Counts p OpDelete \<le> length (Steps p)" by (simp add: Counts_def)
  then have "Counts p OpDelete < 2 ^ 31" using assms by linarith
  then show ?thesis by (simp add: pendingPlan_def Let_def int32_small)
qed

lemma ApplyChecked_Some: "ApplyChecked Do c spec desired (Some f) d = apply_menu Do c spec desired (Some f) d"
  by (simp add: ApplyChecked_def)

context controller
begin

text \<open>A first prune: a row disappears only when the exact plan was approved.\<close>

lemma adoption_loses_row:
  assumes c: "connectTo E ns nm k0 = (Inr conn, k0')" and d: "ok d" and spec: "Path spec = filterPath" "Key spec = []"
    and run: "reconcileAdoption E menu conn spec desired k d = (r, k', d')"
    and row: "row \<in> set (rows (cTargetFingerprint conn) d)" "row \<notin> set (rows (cTargetFingerprint conn) d')"
    and small: "\<And>p. plan spec desired (rows (cTargetFingerprint conn) d) = Inr p \<Longrightarrow> length (Steps p) < 2 ^ 31"
  shows "\<exists>p s. plan spec desired (rows (cTargetFingerprint conn) d) = Inr p \<and> s \<in> set (Steps p)
    \<and> stOp s = OpDelete \<and> stID s = Record_ID row
    \<and> map_get (Annotations menu) PruneApprovalAnnotation = planToken (hash256 E) (cFingerprint conn) p"
proof -
  let ?rows = "rows (cTargetFingerprint conn)" and ?fp = "cFingerprint conn"
  obtain cl where cl: "cMenu conn = restMenu Do cl" "router Do cl filterPath ?rows ok" using connects [OF c] by blast
  obtain pr d1 where p: "mPlan (cMenu conn) spec desired d = (pr, d1)" by fastforce
  have ok1: "ok d1" and rows1: "?rows d1 = ?rows d" and pl: "\<And>q. pr = Inr q \<Longrightarrow> plan spec desired (?rows d) = Inr q"
    using plan_only_reads [OF c d spec(1) p] by auto
  have ne: "?rows d' \<noteq> ?rows d1" using row rows1 by auto
  obtain preview where pv: "pr = Inr preview"
    using run ne unfolding reconcileAdoption_def p by (cases pr) (auto split: prod.splits)
  let ?pending = "pendingPlan (hash256 E) ?fp preview"
  have gate: "\<not> (0 < Deletes ?pending \<and> map_get (Annotations menu) PruneApprovalAnnotation \<noteq> ApprovalToken ?pending)"
    using run ne unfolding reconcileAdoption_def p pv by (auto simp: Let_def split: prod.splits if_splits)
  obtain x where "mApplyChecked (cMenu conn) spec desired (Some (approveToken E ?fp ?pending)) d1 = (x, d')"
    using run ne gate unfolding reconcileAdoption_def p pv
    by (auto simp: Let_def split: prod.splits if_splits option.splits)
  then have "apply_menu Do cl spec desired (Some (approveToken E ?fp ?pending)) d1 = ((fst x, snd x), d')"
    using cl(1) by (simp add: ApplyChecked_Some)
  from router.lost_row [OF cl(2) ok1 spec(1) this, of row] row rows1
  obtain p0 s where s: "plan spec desired (?rows d) = Inr p0" "s \<in> set (Steps p0)" "Record_ID row \<in> edited s" by auto
  have "p0 = preview" using s(1) pl [OF pv] by simp
  have "stOp s \<noteq> OpUpdate" using plan_ops(3) [OF s(1,2)] spec(2) by blast
  then have del: "stOp s = OpDelete" "stID s = Record_ID row" using s(3) by (auto simp: edited_def split: if_splits)
  have "0 < Deletes ?pending"
    using Deletes_pending [OF small [OF s(1)]] deletes_count [OF s(2) del(1)] \<open>p0 = preview\<close> by simp
  then have "map_get (Annotations menu) PruneApprovalAnnotation = planToken (hash256 E) ?fp p0"
    using gate \<open>p0 = preview\<close> by (simp add: pendingPlan_def Let_def)
  then show ?thesis using s(1,2) del by blast
qed

text \<open>Emptying the menu of a deleted owner.\<close>

lemma wiped:
  assumes c: "connectTo E ns nm k0 = (Inr conn, k0')" and d: "ok d"
    and run: "mApply (cMenu conn) deleteAllStaticSpec [] d = ((p, None), d')"
  shows "filter (live deleteAllStaticSpec) (rows (cTargetFingerprint conn) d') = []"
proof -
  obtain cl where cl: "cMenu conn = restMenu Do cl" "router Do cl filterPath (rows (cTargetFingerprint conn)) ok"
    using connects [OF c] by blast
  then have "apply_menu Do cl deleteAllStaticSpec [] None d = ((p, None), d')" using run by (simp add: Apply_def)
  from router.apply_satisfies [OF cl(2) d _ _ _ this]
  have "satisfied deleteAllStaticSpec [] (rows (cTargetFingerprint conn) d')" by (simp add: deleteAllStaticSpec_def)
  then show ?thesis by (simp add: satisfied_def exact_menu_def deleteAllStaticSpec_def)
qed

end

section \<open>The finalizer\<close>

text \<open>
  What is relied on of the API server for the finalizer: \<open>held key k\<close> says that the stored object has
  it, only a patch of the object's own metadata can take it away, and the helper that adds it does.
\<close>

locale finalizer_store = controller E Do rows ok
  for E :: "('k, 'd) env" and Do :: "('h, 'd) transport_fn" and rows :: "string \<Rightarrow> 'd \<Rightarrow> Record list" and ok :: "'d \<Rightarrow> bool" +
  fixes held :: "ObjectKey \<Rightarrow> 'k \<Rightarrow> bool"
  assumes get_key: "kGet E key k = (Inr menu, k') \<Longrightarrow> menuKey menu = key"
    and get_held: "kGet E key k = (r1, k') \<Longrightarrow> held x k \<Longrightarrow> held x k'"
    and list_held: "kListMenus E k = (r2, k') \<Longrightarrow> held x k \<Longrightarrow> held x k'"
    and usage_held: "kGetUsage E key k = (r3, k') \<Longrightarrow> held x k \<Longrightarrow> held x k'"
      "kCreateUsage E u k = (r4, k') \<Longrightarrow> held x k \<Longrightarrow> held x k'" "kPatchUsage E u v k = (r4, k') \<Longrightarrow> held x k \<Longrightarrow> held x k'"
    and connect_held: "connectTo E ns nm k = (r5, k') \<Longrightarrow> held x k \<Longrightarrow> held x k'"
    and status_held: "kPatchStatus E m m' k = (r4, k') \<Longrightarrow> held x k \<Longrightarrow> held x k'"
    and patch_held: "kPatch E m m' k = (r4, k') \<Longrightarrow> held x k \<Longrightarrow> held x k' \<or> \<not> ContainsFinalizer E (Finalizers m') finalizer"
    and adds: "ContainsFinalizer E (AddFinalizer E fs finalizer) finalizer"
begin

lemma setStatus_held: "setStatus E menu p st rs ms f k = (r, k') \<Longrightarrow> held x k \<Longrightarrow> held x k'"
  by (auto simp: setStatus_def Let_def split: if_splits prod.splits option.splits dest: status_held)

lemma statusThen_held: "statusThen E menu p st rs ms f res k = (r, k') \<Longrightarrow> held x k \<Longrightarrow> held x k'"
  by (auto simp: statusThen_def split: prod.splits option.splits dest: setStatus_held)

lemma statusFailed_held: "statusFailed E menu p rs err k = (r, k') \<Longrightarrow> held x k \<Longrightarrow> held x k'"
  by (auto simp: statusFailed_def split: prod.splits dest: setStatus_held)

lemma track_held: "trackProviderConfigUsage E menu k = (r, k') \<Longrightarrow> held x k \<Longrightarrow> held x k'"
  by (auto simp: trackProviderConfigUsage_def Let_def split: if_splits prod.splits option.splits sum.splits dest: usage_held)

lemma ownerLoop_held: "ownerLoop E current target cands owner k = (r, k') \<Longrightarrow> held x k \<Longrightarrow> held x k'"
  by (induction cands arbitrary: owner k)
    (auto simp: Let_def split: if_splits prod.splits sum.splits dest: connect_held)

lemma ownerFor_held: "ownerFor E current target k = (r, k') \<Longrightarrow> held x k \<Longrightarrow> held x k'"
  by (auto simp: ownerFor_def split: prod.splits sum.splits option.splits dest: list_held ownerLoop_held)

lemma adoption_held: "reconcileAdoption E menu conn spec desired k d = (r, k', d') \<Longrightarrow> held x k \<Longrightarrow> held x k'"
  by (auto simp: reconcileAdoption_def Let_def split: if_splits prod.splits sum.splits option.splits
      dest: statusThen_held statusFailed_held)

lemma reconcileRows_held: "reconcileRows E menu conn k d = (r, k', d') \<Longrightarrow> held x k \<Longrightarrow> held x k'"
  by (auto simp: reconcileRows_def Let_def split: if_splits prod.splits sum.splits option.splits
      dest: statusThen_held statusFailed_held adoption_held)

lemma live_held: "reconcileLive E menu k d = (r, k', d') \<Longrightarrow> held x k \<Longrightarrow> held x k'"
  by (auto simp: reconcileLive_def Let_def split: if_splits prod.splits sum.splits option.splits
      dest: statusThen_held statusFailed_held track_held connect_held ownerFor_held reconcileRows_held)

lemma finalizer_released:
  assumes d: "ok d" and run: "Reconcile E key k d = (r, k', d')" and held: "held key k" "\<not> held key k'"
  shows "\<exists>menu k1. kGet E key k = (Inr menu, k1) \<and> Deleting menu \<and>
    (orDefault (DeletionPolicy (Spec menu)) DeletionOrphan = DeletionOrphan
     \<or> (\<exists>conn k2. connectTo E (Namespace menu) (ProviderConfigRef (Spec menu)) k1 = (Inr conn, k2) \<and>
          ((\<exists>owner k3. ownerFor E menu (cTargetFingerprint conn) k2 = (Inr owner, k3) \<and> \<not> entitled menu owner)
           \<or> filter (live deleteAllStaticSpec) (rows (cTargetFingerprint conn) d') = [])))"
proof -
  obtain g k1 where g: "kGet E key k = (g, k1)" by fastforce
  have h1: "held key k1" using get_held [OF g held(1)] .
  obtain menu where m: "g = Inr menu" using run held(2) h1 g by (cases g) (auto simp: Reconcile_def)
  have del: "Deleting menu"
  proof (rule ccontr)
    assume nd: "\<not> Deleting menu"
    show False
    proof (cases "ContainsFinalizer E (Finalizers menu) finalizer")
      case True
      then have "reconcileLive E menu k1 d = (r, k', d')" using run g m nd by (simp add: Reconcile_def)
      then show False using live_held h1 held(2) by blast
    next
      case False
      obtain pr k2 where p: "kPatch E menu (menu\<lparr>Finalizers := AddFinalizer E (Finalizers menu) finalizer\<rparr>) k1 = (pr, k2)" by fastforce
      then have "k' = k2" using run g m nd False by (auto simp: Reconcile_def split: option.splits)
      then show False using patch_held [OF p h1] held(2) adds by simp
    qed
  qed
  then have run': "reconcileDelete E menu k1 d = (r, k', d')" using run g m by (simp add: Reconcile_def)
  show ?thesis
  proof (cases "orDefault (DeletionPolicy (Spec menu)) DeletionOrphan = DeletionOrphan")
    case True
    then show ?thesis using g m del by blast
  next
    case False
    then have g2: "ContainsFinalizer E (Finalizers menu) finalizer" "specUnlisted (Spec menu) = PolicyPrune"
      using run' h1 held(2) by (auto simp: reconcileDelete_def split: if_splits)
    obtain cr k2 where c: "connectTo E (Namespace menu) (ProviderConfigRef (Spec menu)) k1 = (cr, k2)" by fastforce
    obtain conn where conn: "cr = Inr conn"
      using run' held(2) connect_held [OF c h1] False g2 c by (cases cr) (auto simp: reconcileDelete_def)
    obtain rr k3 where o: "ownerFor E menu (cTargetFingerprint conn) k2 = (rr, k3)" by fastforce
    have h3: "held key k3" using ownerFor_held [OF o connect_held [OF c h1]] .
    obtain owner where ow: "rr = Inr owner"
      using run' held(2) h3 False g2 c conn o by (cases rr) (auto simp: reconcileDelete_def)
    show ?thesis
    proof (cases "entitled menu owner")
      case True
      obtain p d2 where "mApply (cMenu conn) deleteAllStaticSpec [] d = ((p, None), d2)" "d' = d2"
        using run' held(2) h3 False g2 c conn o ow True
        by (auto simp: reconcileDelete_def entitled_def Let_def split: prod.splits option.splits if_splits)
      then have "filter (live deleteAllStaticSpec) (rows (cTargetFingerprint conn) d') = []"
        using wiped [OF c [unfolded conn] d] by simp
      then show ?thesis using g m del c conn by blast
    next
      case False
      then show ?thesis using g m del c conn o ow by blast
    qed
  qed
qed

end

section \<open>Elections\<close>

text \<open>\<^verbatim>\<open>createdBefore\<close> orders menus by creation time, then by key.\<close>

lemma createdBefore_trans: "createdBefore a b \<Longrightarrow> createdBefore b c \<Longrightarrow> createdBefore a c"
  by (auto simp: createdBefore_def split: if_splits)

lemma createdBefore_irrefl: "\<not> createdBefore a a"
  by (simp add: createdBefore_def)

lemma createdBefore_linear:
  "\<not> createdBefore a b \<Longrightarrow> \<not> createdBefore b a \<Longrightarrow> CreationTimestamp a = CreationTimestamp b \<and> keyString (menuKey a) = keyString (menuKey b)"
  by (auto simp: createdBefore_def split: if_splits)

definition elect :: "FirewallFilterMenu \<Rightarrow> FirewallFilterMenu option \<Rightarrow> FirewallFilterMenu option" where
  "elect cand owner = (if (case owner of None \<Rightarrow> True | Some o' \<Rightarrow> createdBefore cand o') then Some cand else owner)"

text \<open>Which listed menus stand for election, when a ProviderConfig resolves to \<open>res\<close>.\<close>

definition eligible ::
  "('k, 'd) env \<Rightarrow> (string \<Rightarrow> string \<Rightarrow> string + 'd Connection) \<Rightarrow> FirewallFilterMenu \<Rightarrow> string \<Rightarrow> FirewallFilterMenu \<Rightarrow> bool" where
  "eligible E res current target cand \<longleftrightarrow>
     \<not> (Deleting cand \<and> \<not> ContainsFinalizer E (Finalizers cand) finalizer)
     \<and> (menuKey cand = menuKey current
        \<or> (\<exists>conn. res (Namespace cand) (ProviderConfigRef (Spec cand)) = Inr conn \<and> cTargetFingerprint conn = target))"

lemma ownerLoop_fold:
  assumes res: "\<And>ns nm k. fst (connectTo E ns nm k) = res ns nm"
  shows "fst (ownerLoop E current target cands owner k) = fold elect (filter (eligible E res current target) cands) owner"
proof (induction cands arbitrary: owner k)
  case (Cons cand cands)
  obtain k' where c: "connectTo E (Namespace cand) (ProviderConfigRef (Spec cand)) k
      = (res (Namespace cand) (ProviderConfigRef (Spec cand)), k')"
    by (metis prod.collapse res)
  show ?case
    using Cons by (cases "res (Namespace cand) (ProviderConfigRef (Spec cand))")
      (simp_all add: Let_def eligible_def elect_def c)
qed simp

lemma fold_elect:
  "fold elect xs (Some o') = Some w \<Longrightarrow> w \<in> insert o' (set xs) \<and> (\<forall>x \<in> insert o' (set xs). \<not> createdBefore x w)"
proof (induction xs arbitrary: o')
  case (Cons x xs)
  show ?case
  proof (cases "createdBefore x o'")
    case True
    then have *: "w \<in> insert x (set xs)" "\<forall>y \<in> insert x (set xs). \<not> createdBefore y w"
      using Cons by (simp_all add: elect_def)
    moreover have "\<not> createdBefore o' w" using * True createdBefore_trans by blast
    ultimately show ?thesis by auto
  next
    case False
    then have *: "w \<in> insert o' (set xs)" "\<forall>y \<in> insert o' (set xs). \<not> createdBefore y w"
      using Cons by (simp_all add: elect_def)
    moreover have "\<not> createdBefore x w"
    proof
      assume xw: "createdBefore x w"
      have "\<not> createdBefore o' w" using * by simp
      then have "createdBefore x o'"
        using xw by (auto simp: createdBefore_def split: if_splits)
      then show False using False by simp
    qed
    ultimately show ?thesis by auto
  qed
qed (simp add: createdBefore_irrefl)

lemma fold_elect_None:
  "fold elect xs None = (case xs of [] \<Rightarrow> None | x # xs' \<Rightarrow> fold elect xs' (Some x))"
  by (cases xs) (simp_all add: elect_def)

lemma fold_elect_Some: "\<exists>w. fold elect xs (Some o') = Some w"
  by (induction xs arbitrary: o') (auto simp: elect_def)

section \<open>Losing a row\<close>

lemma delete_needs_prune:
  assumes p: "plan spec desired current = Inr p" and s: "s \<in> set (Steps p)" "stOp s = OpDelete"
  shows "Unlisted spec = UnlistedPrune"
  using s unfolding plan_parts(3) [OF p] by (auto dest: edits_ops reorder_steps split: if_splits)

lemma restUnlisted_prune: "restUnlisted policy = UnlistedPrune \<Longrightarrow> policy = PolicyPrune"
  by (auto simp: restUnlisted_def UnlistedTolerate_def UnlistedPrune_def split: if_splits)

text \<open>Reporting a menu as not ready: a status with \<^verbatim>\<open>Ready=False\<close>.\<close>

definition unready :: "('k, 'd) env \<Rightarrow> FirewallFilterMenu \<Rightarrow> (Result \<times> reconcile_error option) \<times> 'k \<Rightarrow> bool" where
  "unready E menu out \<longleftrightarrow> (\<exists>p reason message f res k. out = statusThen E menu p ''False'' reason message f res k)
     \<or> (\<exists>p reason err k. out = statusFailed E menu p reason err k)"

context controller
begin

lemma live_rows:
  assumes d: "ok d" and run: "Reconcile E key k d = (r, k', d')" and g: "kGet E key k = (Inr menu, k1)"
    and nd: "\<not> Deleting menu" and changed: "rows t d' \<noteq> rows t d"
  shows "\<exists>conn k2 k3 k4. connectTo E (Namespace menu) (ProviderConfigRef (Spec menu)) k2 = (Inr conn, k3)
    \<and> cTargetFingerprint conn = t \<and> reconcileRows E menu conn k4 d = (r, k', d')"
proof -
  have run': "reconcileLive E menu k1 d = (r, k', d')"
    using run changed g nd by (auto simp: Reconcile_def split: if_splits prod.splits option.splits)
  obtain conn k2 k3 k4 where c: "connectTo E (Namespace menu) (ProviderConfigRef (Spec menu)) k2 = (Inr conn, k3)"
    and rr: "reconcileRows E menu conn k4 d = (r, k', d')"
    using run' changed by (auto simp: reconcileLive_def split: if_splits prod.splits option.splits sum.splits)
  have "cTargetFingerprint conn = t" using rows_touches [OF c d _ rr] changed by metis
  then show ?thesis using c rr by blast
qed

lemma live_loses_row:
  assumes d: "ok d" and run: "Reconcile E key k d = (r, k', d')" and g: "kGet E key k = (Inr menu, k1)"
    and nd: "\<not> Deleting menu" and row: "row \<in> set (rows t d)" "row \<notin> set (rows t d')"
    and small: "\<And>p. plan (menuSpecOf menu) (desiredOf menu) (rows t d) = Inr p \<Longrightarrow> length (Steps p) < 2 ^ 31"
  shows "specUnlisted (Spec menu) = PolicyPrune \<and>
    (\<exists>conn k2 k3 p s. connectTo E (Namespace menu) (ProviderConfigRef (Spec menu)) k2 = (Inr conn, k3)
      \<and> cTargetFingerprint conn = t \<and> plan (menuSpecOf menu) (desiredOf menu) (rows t d) = Inr p
      \<and> s \<in> set (Steps p) \<and> stOp s = OpDelete \<and> stID s = Record_ID row
      \<and> (Adopted (Status menu) \<and> AdoptedConnection (Status menu) = cFingerprint conn
         \<or> map_get (Annotations menu) PruneApprovalAnnotation = planToken (hash256 E) (cFingerprint conn) p))"
proof -
  have ne: "rows t d' \<noteq> rows t d" using row by auto
  obtain conn k2 k3 k4 where c: "connectTo E (Namespace menu) (ProviderConfigRef (Spec menu)) k2 = (Inr conn, k3)"
    and t: "cTargetFingerprint conn = t" and rr: "reconcileRows E menu conn k4 d = (r, k', d')"
    using live_rows [OF d run g nd ne] by blast
  let ?spec = "menuSpecOf menu" and ?owned = "Adopted (Status menu) \<and> AdoptedConnection (Status menu) = cFingerprint conn"
  have path: "Path ?spec = filterPath" "Key ?spec = []" by (simp_all add: menuSpecOf_def)
  have "\<exists>p s. plan ?spec (desiredOf menu) (rows t d) = Inr p \<and> s \<in> set (Steps p)
      \<and> stOp s = OpDelete \<and> stID s = Record_ID row
      \<and> (?owned \<or> map_get (Annotations menu) PruneApprovalAnnotation = planToken (hash256 E) (cFingerprint conn) p)"
  proof (cases "Unlisted ?spec = UnlistedPrune \<and> \<not> ?owned")
    case True
    then have "reconcileAdoption E menu conn ?spec (desiredOf menu) k4 d = (r, k', d')"
      using rr by (auto simp: reconcileRows_def Let_def)
    from adoption_loses_row [OF c d path this, unfolded t, OF row small] show ?thesis by blast
  next
    case False
    obtain cl where cl: "cMenu conn = restMenu Do cl" "router Do cl filterPath (rows t) ok" using connects [OF c] t by blast
    obtain p e where run2: "apply_menu Do cl ?spec (desiredOf menu) None d = ((p, e), d')"
      using rr False cl(1)
      by (auto simp: reconcileRows_def Apply_def Let_def split: prod.splits option.splits if_splits)
    from router.lost_row [OF cl(2) d path(1) run2 row] obtain p0 s where s: "plan ?spec (desiredOf menu) (rows t d) = Inr p0"
      "s \<in> set (Steps p0)" "Record_ID row \<in> edited s" by blast
    have "stOp s \<noteq> OpUpdate" using plan_ops(3) [OF s(1,2)] path(2) by blast
    then have del: "stOp s = OpDelete" "stID s = Record_ID row" using s(3) by (auto simp: edited_def split: if_splits)
    then have "?owned" using delete_needs_prune [OF s(1,2)] False by blast
    then show ?thesis using s del by blast
  qed
  then obtain p s where ps: "plan ?spec (desiredOf menu) (rows t d) = Inr p" "s \<in> set (Steps p)"
      "stOp s = OpDelete" "stID s = Record_ID row"
      "?owned \<or> map_get (Annotations menu) PruneApprovalAnnotation = planToken (hash256 E) (cFingerprint conn) p" by blast
  have "specUnlisted (Spec menu) = PolicyPrune"
    using delete_needs_prune [OF ps(1-3)] restUnlisted_prune by (simp add: menuSpecOf_def)
  then show ?thesis using c t ps by blast
qed

lemma unreadyI:
  "statusThen E menu p ''False'' reason message f res k = out \<Longrightarrow> unready E menu out"
  "statusFailed E menu p reason err k = out \<Longrightarrow> unready E menu out"
  unfolding unready_def by blast+

lemma apply_satisfied:
  assumes c: "connectTo E ns nm k0 = (Inr conn, k0')" and d: "ok d"
    and run: "mApply (cMenu conn) (menuSpecOf menu) (desiredOf menu) d = ((p, None), d')
      \<or> mApplyChecked (cMenu conn) (menuSpecOf menu) (desiredOf menu) (Some f) d = ((p, None), d')"
  shows "satisfied (menuSpecOf menu) (desiredOf menu) (rows (cTargetFingerprint conn) d')"
proof -
  obtain cl where cl: "cMenu conn = restMenu Do cl" "router Do cl filterPath (rows (cTargetFingerprint conn)) ok"
    using connects [OF c] by blast
  obtain g where "apply_menu Do cl (menuSpecOf menu) (desiredOf menu) g d = ((p, None), d')"
    using run cl(1) by (auto simp: Apply_def ApplyChecked_Some)
  from router.apply_satisfies [OF cl(2) d _ _ _ this] show ?thesis by (simp add: menuSpecOf_def)
qed

lemma rows_reported:
  assumes c: "connectTo E ns nm k0 = (Inr conn, k0')" and d: "ok d"
    and run: "reconcileRows E menu conn k d = (r, k', d')"
  shows "satisfied (menuSpecOf menu) (desiredOf menu) (rows (cTargetFingerprint conn) d') \<or> unready E menu (r, k')"
proof (rule disjCI)
  assume nr: "\<not> unready E menu (r, k')"
  note nr' = nr [THEN notE, OF unreadyI(1)] nr [THEN notE, OF unreadyI(2)]
  let ?spec = "menuSpecOf menu" and ?ds = "desiredOf menu"
  show "satisfied ?spec ?ds (rows (cTargetFingerprint conn) d')"
  proof (cases "Unlisted ?spec = UnlistedPrune \<and> (\<not> Adopted (Status menu) \<or> AdoptedConnection (Status menu) \<noteq> cFingerprint conn)")
    case True
    then have run': "reconcileAdoption E menu conn ?spec ?ds k d = (r, k', d')" using run by (simp add: reconcileRows_def Let_def)
    obtain pr d1 where p: "mPlan (cMenu conn) ?spec ?ds d = (pr, d1)" by fastforce
    have ok1: "ok d1" using plan_only_reads [OF c d _ p] by (simp add: menuSpecOf_def)
    obtain f applied where "mApplyChecked (cMenu conn) ?spec ?ds (Some f) d1 = ((applied, None), d')"
      using run' nr' unfolding reconcileAdoption_def p
      by (auto simp: Let_def split: sum.splits if_splits prod.splits option.splits)
    then show ?thesis using apply_satisfied [OF c ok1] by blast
  next
    case False
    then obtain applied where "mApply (cMenu conn) ?spec ?ds d = ((applied, None), d')"
      using run nr' by (auto simp: reconcileRows_def Let_def split: if_splits prod.splits option.splits)
    then show ?thesis using apply_satisfied [OF c d] by blast
  qed
qed

lemma reconcile_reports:
  assumes d: "ok d" and run: "Reconcile E key k d = (r, k', d')" and g: "kGet E key k = (Inr menu, k1)"
    and m: "\<not> Deleting menu" "ContainsFinalizer E (Finalizers menu) finalizer"
  shows "(\<exists>conn k2 k3. connectTo E (Namespace menu) (ProviderConfigRef (Spec menu)) k2 = (Inr conn, k3)
      \<and> satisfied (menuSpecOf menu) (desiredOf menu) (rows (cTargetFingerprint conn) d'))
    \<or> unready E menu (r, k') \<or> (\<exists>e. r = (noResult, Some (ListForOwnership e)))"
proof -
  have run': "reconcileLive E menu k1 d = (r, k', d')" using run g m by (simp add: Reconcile_def)
  have list: "\<exists>x. e = ListForOwnership x" if "ownerFor E menu t k2 = (Inl e, k3)" for t e k2 k3
    using that by (auto simp: ownerFor_def split: prod.splits sum.splits option.splits)
  show ?thesis
  proof (cases "unready E menu (r, k') \<or> (\<exists>e. r = (noResult, Some (ListForOwnership e)))")
    case False
    then have nr: "\<not> unready E menu (r, k')" and nle: "\<And>e. r \<noteq> (noResult, Some (ListForOwnership e))" by blast+
    have nl: "r \<noteq> (noResult, Some e)" if "ownerFor E menu t k2 = (Inl e, k3)" for t e k2 k3
      using list [OF that] nle by auto
    note nr' = nr [THEN notE, OF unreadyI(1)] nr [THEN notE, OF unreadyI(2)]
    obtain conn k2 k3 k4 where c: "connectTo E (Namespace menu) (ProviderConfigRef (Spec menu)) k2 = (Inr conn, k3)"
      and rr: "reconcileRows E menu conn k4 d = (r, k', d')"
      using run' nr' by (auto simp: reconcileLive_def split: if_splits prod.splits option.splits sum.splits dest: nl)
    then show ?thesis using rows_reported [OF c d rr] by blast
  qed blast
qed

end

end
