(* ===== verification/Firewall_Store.thy ===== *)
theory Firewall_Store
  imports Firewall_Safety
begin

text \<open>
  An API server in memory and a connector in the way of \<^verbatim>\<open>fakeConnector\<close> of
  src/native/internal/controller/firewallfilter/reconciler_test.go, which connects every
  ProviderConfig to the router of \<open>Ordering_Router\<close>. Both interfaces of \<open>Firewall_Safety\<close> hold of
  them. Then the controller's properties, each with a run on this server.
\<close>

section \<open>The server\<close>

record apiServer =
  apMenus :: "FirewallFilterMenu list"
  apUsages :: "ProviderConfigUsage list"

text \<open>A patch replaces the part of the stored object it is about; an object being deleted goes with its last finalizer.\<close>

definition patch_menu ::
  "(FirewallFilterMenu \<Rightarrow> FirewallFilterMenu) \<Rightarrow> ObjectKey \<Rightarrow> apiServer \<Rightarrow> kube_error option \<times> apiServer" where
  "patch_menu f key k =
     (if list_ex (\<lambda>m. menuKey m = key) (apMenus k)
      then (None, k\<lparr>apMenus := filter (\<lambda>m. \<not> (Deleting m \<and> Finalizers m = []))
        (map (\<lambda>m. if menuKey m = key then f m else m) (apMenus k))\<rparr>)
      else (Some (KNotFound (keyString key)), k))"

definition set_condition :: "Condition list \<Rightarrow> Condition \<Rightarrow> Condition list" where
  "set_condition cs c =
     (if list_ex (\<lambda>x. condType x = condType c) cs then map (\<lambda>x. if condType x = condType c then c else x) cs
      else cs @ [c])"

definition store_env :: "(apiServer, orderingRouter) env" where
  "store_env =
     \<lparr>kGet = (\<lambda>key k. (case find (\<lambda>m. menuKey m = key) (apMenus k) of
          None \<Rightarrow> Inl (KNotFound (keyString key)) | Some m \<Rightarrow> Inr m, k)),
      kPatch = (\<lambda>m m'. patch_menu (\<lambda>x. x\<lparr>Finalizers := Finalizers m'\<rparr>) (menuKey m)),
      kPatchStatus = (\<lambda>m m'. patch_menu (\<lambda>x. x\<lparr>Status := Status m'\<rparr>) (menuKey m)),
      kListMenus = (\<lambda>k. (Inr (apMenus k), k)),
      kGetUsage = (\<lambda>key k. (case find (\<lambda>u. usKey u = key) (apUsages k) of
          None \<Rightarrow> Inl (KNotFound (keyString key)) | Some u \<Rightarrow> Inr u, k)),
      kCreateUsage = (\<lambda>u k. (None, k\<lparr>apUsages := apUsages k @ [u]\<rparr>)),
      kPatchUsage = (\<lambda>u u' k. (None, k\<lparr>apUsages := map (\<lambda>x. if usKey x = usKey u then u' else x) (apUsages k)\<rparr>)),
      connectTo = (\<lambda>ns nm k. (Inr \<lparr>cMenu = restMenu serveHTTP or_client, cFingerprint = ''connection'',
          cTargetFingerprint = ''router''\<rparr>, k)),
      ContainsFinalizer = (\<lambda>fs f. f \<in> set fs),
      AddFinalizer = (\<lambda>fs f. if f \<in> set fs then fs else fs @ [f]),
      RemoveFinalizer = (\<lambda>fs f. filter (\<lambda>x. x \<noteq> f) fs),
      SetStatusCondition = set_condition,
      NewControllerRef = (\<lambda>m av kind. UID m),
      errText = (\<lambda>e. ''error''),
      hash256 = (\<lambda>s. [last s]),
      labelName = ''crossplane.io/provider-config'',
      labelKind = ''crossplane.io/provider-config-kind'',
      requeueAfter = 0\<rparr>"

definition store_rows :: "string \<Rightarrow> orderingRouter \<Rightarrow> Record list" where
  "store_rows t d = (if t = ''router'' then orRows d else [])"

definition store_held :: "ObjectKey \<Rightarrow> apiServer \<Rightarrow> bool" where
  "store_held key k \<longleftrightarrow> list_ex (\<lambda>m. menuKey m = key \<and> finalizer \<in> set (Finalizers m)) (apMenus k)"

lemma filterPath_or_path: "filterPath = or_path"
  by (simp add: filterPath_def or_path_def)

lemma menuKey_simps [simp]: "menuKey (m\<lparr>Finalizers := fs\<rparr>) = menuKey m" "menuKey (m\<lparr>Status := st\<rparr>) = menuKey m"
  by (simp_all add: menuKey_def)

lemma patch_held:
  assumes p: "patch_menu f key k = (r, k')" and h: "store_held x k" and f: "\<And>m. menuKey (f m) = menuKey m"
    and keeps: "\<And>m. finalizer \<in> set (Finalizers m) \<Longrightarrow> finalizer \<in> set (Finalizers (f m))"
  shows "store_held x k'"
proof (cases "list_ex (\<lambda>m. menuKey m = key) (apMenus k)")
  case True
  let ?g = "\<lambda>m. if menuKey m = key then f m else m"
  obtain m where m: "m \<in> set (apMenus k)" "menuKey m = x" "finalizer \<in> set (Finalizers m)"
    using h by (auto simp: store_held_def list_ex_iff)
  have "menuKey (?g m) = x" "finalizer \<in> set (Finalizers (?g m))" using m f keeps by auto
  moreover from this(2) have "Finalizers (?g m) \<noteq> []" by auto
  moreover have "apMenus k' = filter (\<lambda>m. \<not> (Deleting m \<and> Finalizers m = [])) (map ?g (apMenus k))"
    using p True by (auto simp: patch_menu_def)
  ultimately have "?g m \<in> set (apMenus k')" using imageI [OF m(1), of ?g] by (simp only: set_filter set_map) simp
  then show ?thesis using \<open>menuKey (?g m) = x\<close> \<open>finalizer \<in> set (Finalizers (?g m))\<close>
    unfolding store_held_def list_ex_iff by blast
next
  case False
  then show ?thesis using p h by (simp add: patch_menu_def)
qed

interpretation store: controller store_env serveHTTP store_rows or_inv
proof
  show "\<exists>c. cMenu conn = restMenu serveHTTP c \<and> router serveHTTP c filterPath (store_rows (cTargetFingerprint conn)) or_inv"
    if "connectTo store_env ns nm k = (Inr conn, k')" for ns nm k conn k'
  proof -
    have "store_rows ''router'' = orRows" by (simp add: store_rows_def fun_eq_iff)
    then show ?thesis
      using that oring.router_axioms by (auto simp: store_env_def filterPath_or_path)
  qed
qed (auto simp: store_env_def store_rows_def)

interpretation store_fin: finalizer_store store_env serveHTTP store_rows or_inv store_held
proof
  show "store_held x k' \<or> \<not> ContainsFinalizer store_env (Finalizers m') finalizer"
    if "kPatch store_env m m' k = (r4, k')" "store_held x k" for m m' k r4 k' x
    using that patch_held [of "\<lambda>x. x\<lparr>Finalizers := Finalizers m'\<rparr>" "menuKey m" k r4 k' x]
    by (auto simp: store_env_def)
  show "store_held x k'" if "kPatchStatus store_env m m' k = (r4, k')" "store_held x k" for m m' k r4 k' x
    using that patch_held [of "\<lambda>x. x\<lparr>Status := Status m'\<rparr>" "menuKey m" k r4 k' x] by (auto simp: store_env_def)
qed (auto simp: store_env_def store_held_def find_Some_iff split: option.splits)

section \<open>Sample objects\<close>

definition exRule :: "string \<Rightarrow> FirewallFilterRule" where
  "exRule chain = ruleOf (fmap_of_list [(''chain'', chain)])"

definition exStatus :: FirewallFilterMenuStatus where
  "exStatus = \<lparr>ObservedGeneration = 0, Adopted = False, AdoptedConnection = [], PendingPlan = None,
     statusRows = [], Conditions = []\<rparr>"

definition exFirewall :: FirewallFilterMenu where
  "exFirewall = \<lparr>Namespace = ''tenant-a'', Name = ''main'', UID = ''uid-main'', Generation = 3, CreationTimestamp = 10,
     Deleting = False, Finalizers = [finalizer], Annotations = fmempty,
     Spec = \<lparr>ProviderConfigRef = ''router'', specUnlisted = PolicyPrune, DeletionPolicy = DeletionDelete,
       specRows = [exRule ''input'', exRule ''output'']\<rparr>,
     Status = exStatus\<rparr>"

definition exOther :: FirewallFilterMenu where
  "exOther = exFirewall\<lparr>Namespace := ''tenant-b'', CreationTimestamp := 20\<rparr>"

definition exToken :: string where
  "exToken = ''64''"

definition exApproved :: FirewallFilterMenu where
  "exApproved = exFirewall\<lparr>Annotations := fmap_of_list [(PruneApprovalAnnotation, exToken)]\<rparr>"

definition exKey :: ObjectKey where
  "exKey = (''tenant-a'', ''main'')"

definition exServer :: "FirewallFilterMenu \<Rightarrow> apiServer" where
  "exServer m = \<lparr>apMenus = [m, exOther], apUsages = []\<rparr>"

definition exGone :: FirewallFilterMenu where
  "exGone = exFirewall\<lparr>Deleting := True\<rparr>"

definition exPreview :: Plan where
  "exPreview = \<lparr>Steps = [createStep (fmap_of_list [(''chain'', ''input'')]), deleteStep (exRow ''*4'' ''forward'')],
     Matched = fmap_of_list [(1, ''*2'')]\<rparr>"

lemma exDesiredOf: "desiredOf exApproved = exDesired"
  by code_simp

lemma exPreview: "plan (menuSpecOf exApproved) exDesired (orRows exMenu) = Inr exPreview"
  by code_simp

lemma exApproved_run:
  "(case Reconcile store_env exKey (exServer exApproved) exMenu of (r, k', d') \<Rightarrow> (r, d'))
     = ((waitInterval store_env, None), exAfter)"
  by code_simp

lemma exGone_run:
  "(case Reconcile store_env exKey (exServer exGone) exMenu of (r, k', d') \<Rightarrow> (r, store_held exKey k', map Record_ID (orRows d')))
     = ((noResult, None), False, [''*1''])"
  by code_simp

lemma exApproved_ran:
  obtains k' where "Reconcile store_env exKey (exServer exApproved) exMenu = ((waitInterval store_env, None), k', exAfter)"
  using exApproved_run by (auto split: prod.splits)

lemma exGone_ran:
  obtains r k' d' where "Reconcile store_env exKey (exServer exGone) exMenu = (r, k', d')" "\<not> store_held exKey k'"
  using exGone_run by (auto split: prod.splits)

lemma store_get: "kGet store_env (menuKey m) (exServer m) = (Inr m, exServer m)"
  by (simp add: store_env_def exServer_def)

definition exConn :: "orderingRouter Connection" where
  "exConn = \<lparr>cMenu = restMenu serveHTTP or_client, cFingerprint = ''connection'', cTargetFingerprint = ''router''\<rparr>"

lemma store_connect: "connectTo store_env ns nm k = (Inr exConn, k)"
  by (simp add: store_env_def exConn_def)

lemma exKeys: "exKey = menuKey exApproved" "exKey = menuKey exGone"
  by (simp_all add: exKey_def menuKey_def exApproved_def exGone_def exFirewall_def)

lemma exRows: "store_rows ''router'' exMenu = orRows exMenu" "store_rows ''router'' exAfter = orRows exAfter"
  by (simp_all add: store_rows_def)

section \<open>What a run may do to a router\<close>

text \<open>
  C1: the guard in front of every router. If a run changes any row of a router, then the menu's
  finalizer was already stored, the router is the one its ProviderConfig resolves to, the menu was
  entitled to it (it won the election, or nobody stood), and either the menu is live and the use of
  its ProviderConfig is recorded, or it is being deleted under the policies \<^verbatim>\<open>Delete\<close> and \<^verbatim>\<open>Prune\<close>.
\<close>

theorem Reconcile_guard:
  assumes "controller E Do rows ok" and "ok d" and "Reconcile E key k d = (r, k', d')" and "rows t d' \<noteq> rows t d"
  shows "\<exists>menu k1 k2 conn k3 owner k4. kGet E key k = (Inr menu, k1) \<and> ContainsFinalizer E (Finalizers menu) finalizer
    \<and> connectTo E (Namespace menu) (ProviderConfigRef (Spec menu)) k2 = (Inr conn, k3) \<and> cTargetFingerprint conn = t
    \<and> ownerFor E menu t k3 = (Inr owner, k4) \<and> entitled menu owner
    \<and> (if Deleting menu
       then orDefault (DeletionPolicy (Spec menu)) DeletionOrphan \<noteq> DeletionOrphan \<and> specUnlisted (Spec menu) = PolicyPrune
       else trackProviderConfigUsage E menu k1 = (None, k2))"
  by (rule controller.reconcile_guard [OF assms])

theorem Reconcile_guard_witness:
  "\<exists>k2 conn k3 owner k4. connectTo store_env ''tenant-a'' ''router'' k2 = (Inr conn, k3)
    \<and> ownerFor store_env exApproved ''router'' k3 = (Inr owner, k4) \<and> entitled exApproved owner"
proof -
  obtain k' where run: "Reconcile store_env exKey (exServer exApproved) exMenu = ((waitInterval store_env, None), k', exAfter)"
    by (rule exApproved_ran)
  have "length (orRows exAfter) = 3" "orRows exAfter \<noteq> orRows exMenu" by code_simp+
  then have "store_rows ''router'' exAfter \<noteq> store_rows ''router'' exMenu" by (simp add: exRows)
  from Reconcile_guard [OF store.controller_axioms, OF exInv run this] obtain k2 conn k3 owner k4
    where "connectTo store_env (Namespace exApproved) (ProviderConfigRef (Spec exApproved)) k2 = (Inr conn, k3)"
      "ownerFor store_env exApproved ''router'' k3 = (Inr owner, k4)" "entitled exApproved owner"
    using store_get [of exApproved] exKeys(1) by auto
  moreover have "Namespace exApproved = ''tenant-a''" "ProviderConfigRef (Spec exApproved) = ''router''"
    by (simp_all add: exApproved_def exFirewall_def)
  ultimately show ?thesis by metis
qed

text \<open>
  C2: nobody loses a rule by surprise. When a run for a live menu makes a row of a router disappear,
  the menu asks to prune, the plan for the rows the router had deletes exactly that row, and either
  the menu had already been adopted on this very connection, or its approval annotation is the token
  of that plan on that connection.
\<close>

theorem prune_needs_approval:
  assumes "controller E Do rows ok" and "ok d" and "Reconcile E key k d = (r, k', d')"
    and "kGet E key k = (Inr menu, k1)" and "\<not> Deleting menu"
    and "row \<in> set (rows t d)" and "row \<notin> set (rows t d')"
    and "\<And>p. plan (menuSpecOf menu) (desiredOf menu) (rows t d) = Inr p \<Longrightarrow> length (Steps p) < 2 ^ 31"
  shows "specUnlisted (Spec menu) = PolicyPrune \<and>
    (\<exists>conn k2 k3 p s. connectTo E (Namespace menu) (ProviderConfigRef (Spec menu)) k2 = (Inr conn, k3)
      \<and> cTargetFingerprint conn = t \<and> plan (menuSpecOf menu) (desiredOf menu) (rows t d) = Inr p
      \<and> s \<in> set (Steps p) \<and> stOp s = OpDelete \<and> stID s = Record_ID row
      \<and> (Adopted (Status menu) \<and> AdoptedConnection (Status menu) = cFingerprint conn
         \<or> map_get (Annotations menu) PruneApprovalAnnotation = planToken (hash256 E) (cFingerprint conn) p))"
  by (rule controller.live_loses_row [OF assms])

theorem prune_needs_approval_witness:
  "map_get (Annotations exApproved) PruneApprovalAnnotation = planToken (hash256 store_env) ''connection'' exPreview"
proof -
  obtain k' where run: "Reconcile store_env exKey (exServer exApproved) exMenu = ((waitInterval store_env, None), k', exAfter)"
    by (rule exApproved_ran)
  have live: "\<not> Deleting exApproved" "\<not> Adopted (Status exApproved)" by (simp_all add: exApproved_def exFirewall_def exStatus_def)
  have lost: "exRow ''*4'' ''forward'' \<in> set (store_rows ''router'' exMenu)" "exRow ''*4'' ''forward'' \<notin> set (store_rows ''router'' exAfter)"
    by code_simp+
  have small: "length (Steps p) < 2 ^ 31"
    if "plan (menuSpecOf exApproved) (desiredOf exApproved) (store_rows ''router'' exMenu) = Inr p" for p
    using that exPreview by (auto simp: exDesiredOf exRows exPreview_def)
  from prune_needs_approval [OF store.controller_axioms, OF exInv run store_get [of exApproved, folded exKeys(1)] live(1) lost small]
  show ?thesis using live(2) exPreview by (auto simp: exDesiredOf exRows) (auto simp: store_env_def)
qed



text \<open>
  C4: what a deleted menu leaves behind. A run takes the stored finalizer away only from a menu that
  is being deleted, and only if its policy is to orphan the rows, or the router belongs to another
  menu, or no static row is left on the router.
\<close>

theorem finalizer_protects:
  assumes "finalizer_store E Do rows ok held" and "ok d" and "Reconcile E key k d = (r, k', d')"
    and "held key k" and "\<not> held key k'"
  shows "\<exists>menu k1. kGet E key k = (Inr menu, k1) \<and> Deleting menu \<and>
    (orDefault (DeletionPolicy (Spec menu)) DeletionOrphan = DeletionOrphan
     \<or> (\<exists>conn k2. connectTo E (Namespace menu) (ProviderConfigRef (Spec menu)) k1 = (Inr conn, k2) \<and>
          ((\<exists>owner k3. ownerFor E menu (cTargetFingerprint conn) k2 = (Inr owner, k3) \<and> \<not> entitled menu owner)
           \<or> filter (live deleteAllStaticSpec) (rows (cTargetFingerprint conn) d') = [])))"
  by (rule finalizer_store.finalizer_released [OF assms])

theorem finalizer_protects_witness:
  "filter (live deleteAllStaticSpec) (orRows (snd (snd (Reconcile store_env exKey (exServer exGone) exMenu)))) = []"
proof -
  obtain r k' d' where run: "Reconcile store_env exKey (exServer exGone) exMenu = (r, k', d')" "\<not> store_held exKey k'"
    by (rule exGone_ran)
  have held: "store_held exKey (exServer exGone)" by code_simp
  have menu: "orDefault (DeletionPolicy (Spec exGone)) DeletionOrphan \<noteq> DeletionOrphan" by code_simp
  have owner: "fst (ownerFor store_env exGone ''router'' (exServer exGone)) = Inr (menuKey exGone)" by code_simp
  from finalizer_protects [OF store_fin.finalizer_store_axioms, OF exInv run(1) held run(2)]
  have "filter (live deleteAllStaticSpec) (store_rows ''router'' d') = []"
    using store_get [of exGone] exKeys(2) menu owner by (auto simp: entitled_def store_connect exConn_def)
  then show ?thesis using run(1) by (simp add: store_rows_def)
qed

text \<open>
  Deleting a menu that was never adopted. The menu \<open>exGone\<close> asks to prune and to delete, was never
  adopted, carries no approval, and was never applied; while it lives a run would only have reported
  a pending plan and left the router alone. Deleting it removes every static row of the router.
\<close>

theorem unadopted_delete_wipes:
  "\<not> Adopted (Status exGone) \<and> map_get (Annotations exGone) PruneApprovalAnnotation = []
    \<and> snd (snd (Reconcile store_env exKey (exServer (exGone\<lparr>Deleting := False\<rparr>)) exMenu)) = exMenu
    \<and> map Record_ID (orRows exMenu) = [''*1'', ''*2'', ''*4'']
    \<and> map Record_ID (orRows (snd (snd (Reconcile store_env exKey (exServer exGone) exMenu)))) = [''*1'']"
proof -
  have "\<not> Adopted (Status exGone)" "map_get (Annotations exGone) PruneApprovalAnnotation = []"
    by (simp_all add: exGone_def exFirewall_def exStatus_def lookup_default_def)
  moreover have "snd (snd (Reconcile store_env exKey (exServer (exGone\<lparr>Deleting := False\<rparr>)) exMenu)) = exMenu" by code_simp
  moreover have "map Record_ID (orRows exMenu) = [''*1'', ''*2'', ''*4'']" by code_simp
  moreover have "map Record_ID (orRows (snd (snd (Reconcile store_env exKey (exServer exGone) exMenu)))) = [''*1'']"
    using exGone_run by (auto split: prod.splits)
  ultimately show ?thesis by blast
qed

section \<open>Elections\<close>



section \<open>Requeueing and status\<close>

text \<open>
  A live menu is never forgotten. A run for an existing menu that is not being deleted either
  reports an error (and is retried) or asks to be run again, at once or after a positive time.
\<close>

theorem Reconcile_requeues:
  assumes "kGet E key k = (Inr menu, k1)" and "\<not> Deleting menu"
    and "Reconcile E key k d = ((res, None), k', d')"
  shows "Requeue res \<or> 0 < RequeueAfter res"
proof -
  have pos: "0 < interval E" by (simp add: interval_def defaultInterval_def)
  have th: "res = res'" if "statusThen E menu p st rs ms f res' x = ((res, None), x')" for p st rs ms f res' x x'
    using that by (auto simp: statusThen_def split: prod.splits option.splits)
  have fl: "False" if "statusFailed E menu p rs err x = ((res, None), x')" for p rs err x x'
    using that by (auto simp: statusFailed_def split: prod.splits)
  have ad: "res = waitInterval E \<or> res = requeueNow"
    if "reconcileAdoption E menu conn spec desired x d = ((res, None), x', y)" for conn spec desired x x' y
    using that th fl
    by (fastforce simp: reconcileAdoption_def Let_def split: if_splits prod.splits sum.splits option.splits)
  have rw: "res = waitInterval E \<or> res = requeueNow" if "reconcileRows E menu conn x d = ((res, None), x', y)" for conn x x' y
    using that th fl ad
    by (fastforce simp: reconcileRows_def Let_def split: if_splits prod.splits sum.splits option.splits)
  have lv: "res = waitInterval E \<or> res = requeueNow" if "reconcileLive E menu x d = ((res, None), x', y)" for x x' y
    using that th fl rw
    by (fastforce simp: reconcileLive_def Let_def split: if_splits prod.splits sum.splits option.splits)
  have "res = waitInterval E \<or> res = requeueNow"
    using assms lv by (auto simp: Reconcile_def split: if_splits prod.splits option.splits)
  then show ?thesis using pos by (auto simp: waitInterval_def requeueNow_def)
qed

theorem Reconcile_requeues_witness:
  "Requeue (waitInterval store_env) \<or> 0 < RequeueAfter (waitInterval store_env)"
proof -
  obtain k' where run: "Reconcile store_env exKey (exServer exApproved) exMenu = ((waitInterval store_env, None), k', exAfter)"
    by (rule exApproved_ran)
  have "\<not> Deleting exApproved" by (simp add: exApproved_def exFirewall_def)
  from Reconcile_requeues [OF store_get [of exApproved, folded exKeys(1)] this run] show ?thesis .
qed

text \<open>
  Status updates do not feed on themselves. When the condition helper does not change a
  condition it has just set, reporting the same outcome again for the status just written makes no
  request, so a watch on the menu does not trigger the next run.
\<close>

theorem setStatus_quiet:
  assumes stable: "\<And>cs c. list_all2 (\<lambda>l r. l\<lparr>condLastTransition := 0\<rparr> = r\<lparr>condLastTransition := 0\<rparr>)
      (SetStatusCondition E cs c) (SetStatusCondition E (SetStatusCondition E cs c) c)"
    and mutate: "mutate \<in> {\<lambda>st. st, pendingStatus pending, adoptedStatus fp, currentStatus fp}"
  shows "setStatus E (menu\<lparr>Status := newStatus E menu p state reason message mutate\<rparr>) p state reason message mutate k = (None, k)"
proof -
  let ?c = "\<lparr>condType = conditionReady, condStatus = state, condObservedGeneration = Generation menu,
    condLastTransition = 0, condReason = reason, condMessage = message\<rparr>"
  note cs = stable [of "Conditions (Status menu)" ?c]
  note len = list_all2_lengthD [OF cs]
  have "statusesEqual (newStatus E menu p state reason message mutate)
      (newStatus E (menu\<lparr>Status := newStatus E menu p state reason message mutate\<rparr>) p state reason message mutate)"
    using mutate cs len
    by (elim insertE emptyE) (simp_all add: statusesEqual_def newStatus_def pendingStatus_def adoptedStatus_def
        currentStatus_def Let_def list_all2_refl)
  then show ?thesis by (simp add: setStatus_def)
qed

lemma set_condition_idem: "set_condition (set_condition cs c) c = set_condition cs c"
proof (cases "list_ex (\<lambda>x. condType x = condType c) cs")
  case True
  then have "list_ex (\<lambda>x. condType x = condType c) (map (\<lambda>x. if condType x = condType c then c else x) cs)"
    by (fastforce simp: list_ex_iff)
  then show ?thesis using True by (simp add: set_condition_def)
next
  case False
  then show ?thesis by (simp add: set_condition_def list_ex_iff map_idI)
qed

theorem setStatus_quiet_witness:
  "setStatus store_env (exFirewall\<lparr>Status := newStatus store_env exFirewall exPreview ''True'' ''Available'' ''adopted'' (adoptedStatus ''fp'')\<rparr>)
     exPreview ''True'' ''Available'' ''adopted'' (adoptedStatus ''fp'') (exServer exFirewall) = (None, exServer exFirewall)"
  by (rule setStatus_quiet [where fp = "''fp''"]) (simp_all add: store_env_def set_condition_idem list_all2_refl)

section \<open>Events\<close>

lemma set_secretKeys: "set (secretKeys ns names seen) = providerKey ns ` {nm \<in> set names. nm \<noteq> [] \<and> nm \<notin> seen}"
  by (induction names arbitrary: seen) auto

text \<open>
  No change of a Secret is missed and no menu is woken for nothing. The requests a Secret event
  gives are exactly the menus of its namespace whose ProviderConfig, of the same namespace, takes its
  credentials or its CA bundle from that Secret.
\<close>

theorem requestsForSecret_exact:
  "set (requestsForSecret (Some configs) (Some menus) ns nm) =
     {menuKey m | m config. m \<in> set menus \<and> config \<in> set configs \<and> Namespace m = ns \<and> pcNamespace config = ns
        \<and> ProviderConfigRef (Spec m) = pcName config \<and> pcName config \<noteq> [] \<and> nm \<noteq> []
        \<and> (srName (pcSecretRef config) = nm \<or> (\<exists>tls key. pcTLS config = Some tls \<and> CASecretRef tls = Some (nm, key)))}"
proof -
  have key: "providerKey ns x = providerKey ns y \<longleftrightarrow> x = y" for x y by (simp add: providerKey_def)
  have refs: "providerKey ns nm \<in> set (providerSecretReferenceKeys config) \<longleftrightarrow> nm \<noteq> []
      \<and> (srName (pcSecretRef config) = nm \<or> (\<exists>tls key. pcTLS config = Some tls \<and> CASecretRef tls = Some (nm, key)))"
    if "pcNamespace config = ns" for config
    using that by (auto simp: providerSecretReferenceKeys_def set_secretKeys key image_iff eq_commute [of "Some _"] split: option.splits)
  have idx: "providerKey ns (pcName config) \<in> set (menuIndex m) \<longleftrightarrow> pcName config \<noteq> [] \<and> ProviderConfigRef (Spec m) = pcName config"
    if "Namespace m = ns" for m config
    using that by (auto simp: menuIndex_def key)
  have "set (requestsForSecret (Some configs) (Some menus) ns nm) =
      {menuKey m | m config. m \<in> set menus \<and> config \<in> set configs \<and> pcNamespace config = ns \<and> Namespace m = ns
        \<and> providerKey ns nm \<in> set (providerSecretReferenceKeys config) \<and> providerKey ns (pcName config) \<in> set (menuIndex m)}"
    unfolding requestsForSecret_def requestsForProviderConfig_def by fastforce
  then show ?thesis using refs idx by (auto 0 0) blast+
qed

end
