(* ===== verification/Row_Identity.thy ===== *)
theory Row_Identity
  imports Ordering_Router
begin

text \<open>
  How the upstream Terraform resources are given durable identities, src/config/comment_identity.go,
  interface_identity.go, factory_identity.go, certificate_removal.go, policy_expansion.go and
  move_sequence.go. A wrapper takes the CRUD callback it wraps and returns one. \<^verbatim>\<open>ResourceData\<close> of the
  plugin SDK is the record of what the wrappers use of it: the id and the attributes they read and
  write. The upstream client (lookups, deletes and the callbacks) is a parameter, over a state \<open>'m\<close> of
  the router.
\<close>

section \<open>The SDK and the upstream client\<close>

record ResourceData =
  dId :: string
  dGet :: "string go_map"
  dSequence :: "string list"
  dPolicy :: "string list"

datatype severity = SevError | SevWarning

datatype message =
    FromErr string
  | CommentRequired string
  | CommentExists string string string
  | CommentCleared string
  | CommentGone string string
  | CommentTaken string string string
  | IdentityAmbiguous nat string string string
  | InterfaceRequired string
  | InterfaceExists string string string
  | InterfaceCleared string
  | InterfaceGone string string
  | InterfaceTaken string string string
  | DefaultRuleLeft string string
  | NoInterface string string string
  | SequenceTooShort
  | SequenceTwice string
  | SequenceMissing string string
  | SequenceAmbiguous nat string string
  | Upstream string

type_synonym Diagnostics = "(severity \<times> message) list"

definition HasError :: "Diagnostics \<Rightarrow> bool" where
  "HasError dg \<longleftrightarrow> list_ex (\<lambda>d. fst d = SevError) dg"

definition Errorf :: "message \<Rightarrow> Diagnostics" where
  "Errorf msg = [(SevError, msg)]"

type_synonym 'm crud = "ResourceData \<Rightarrow> 'm \<Rightarrow> Diagnostics \<times> ResourceData \<times> 'm"

text \<open>The functions of the upstream package the wrappers call.\<close>

record 'm upstream =
  ReadItemsFiltered :: "string list \<Rightarrow> string \<Rightarrow> 'm \<Rightarrow> (string + Record list) \<times> 'm"
  ReadItems :: "string \<Rightarrow> 'm \<Rightarrow> (string + Record list) \<times> 'm"
  DeleteItem :: "string \<Rightarrow> string \<Rightarrow> 'm \<Rightarrow> string option \<times> 'm"
  GetID :: "Record \<Rightarrow> string"
  TransportREST :: bool

section \<open>Lookups\<close>

definition itemsByField :: "'m upstream \<Rightarrow> string \<Rightarrow> string \<Rightarrow> string \<Rightarrow> 'm \<Rightarrow> (string + Record list) \<times> 'm" where
  "itemsByField U path field value m =
     (let flt = (if TransportREST U then escapeQuery value else value)
      in ReadItemsFiltered U [field @ ''='' @ flt] path m)"

definition resolveByField ::
  "'m upstream \<Rightarrow> string \<Rightarrow> string \<Rightarrow> string \<Rightarrow> 'm \<Rightarrow> (Diagnostics + Record option) \<times> 'm" where
  "resolveByField U path field value m =
     (case itemsByField U path field value m of
        (Inl err, m') \<Rightarrow> (Inl (Errorf (FromErr err)), m')
      | (Inr items, m') \<Rightarrow>
          (case items of
             [] \<Rightarrow> (Inr None, m')
           | [item] \<Rightarrow> (Inr (Some item), m')
           | _ \<Rightarrow> (Inl (Errorf (IdentityAmbiguous (length items) path field value)), m')))"

section \<open>Comment identity\<close>

definition commentField :: string where
  "commentField = ''comment''"

definition itemsByComment :: "'m upstream \<Rightarrow> string \<Rightarrow> string \<Rightarrow> 'm \<Rightarrow> (string + Record list) \<times> 'm" where
  "itemsByComment U path comment = itemsByField U path commentField comment"

definition resolveByComment :: "'m upstream \<Rightarrow> string \<Rightarrow> string \<Rightarrow> 'm \<Rightarrow> (Diagnostics + Record option) \<times> 'm" where
  "resolveByComment U path comment = resolveByField U path commentField comment"

definition rejectExisting :: "'m upstream \<Rightarrow> string \<Rightarrow> string \<Rightarrow> 'm \<Rightarrow> Diagnostics option \<times> 'm" where
  "rejectExisting U path comment m =
     (case itemsByComment U path comment m of
        (Inl err, m') \<Rightarrow> (Some (Errorf (FromErr err)), m')
      | (Inr items, m') \<Rightarrow>
          (case items of
             [] \<Rightarrow> (None, m')
           | item # _ \<Rightarrow> (Some (Errorf (CommentTaken comment path (GetID U item))), m')))"

definition commentIdentityCreate :: "'m upstream \<Rightarrow> string \<Rightarrow> 'm crud \<Rightarrow> 'm crud" where
  "commentIdentityCreate U path create d m =
     (let comment = map_get (dGet d) commentField
      in if comment = [] then (Errorf (CommentRequired path), d, m)
         else (case resolveByComment U path comment m of
                 (Inl dg, m1) \<Rightarrow> (dg, d, m1)
               | (Inr (Some item), m1) \<Rightarrow> (Errorf (CommentExists comment path (GetID U item)), d, m1)
               | (Inr None, m1) \<Rightarrow>
                   (case create d m1 of
                      (dg, d', m2) \<Rightarrow> if HasError dg then (dg, d', m2) else (dg, d'\<lparr>dId := comment\<rparr>, m2))))"

definition commentIdentityRead :: "'m upstream \<Rightarrow> string \<Rightarrow> 'm crud \<Rightarrow> 'm crud" where
  "commentIdentityRead U path read d m =
     (case resolveByComment U path (dId d) m of
        (Inl dg, m1) \<Rightarrow> (dg, d, m1)
      | (Inr None, m1) \<Rightarrow> ([], d\<lparr>dId := []\<rparr>, m1)
      | (Inr (Some item), m1) \<Rightarrow>
          (case read (d\<lparr>dId := GetID U item\<rparr>) m1 of
             (dg, d', m2) \<Rightarrow>
               if HasError dg then (dg, d', m2)
               else (dg, if dId d' \<noteq> [] then d'\<lparr>dId := map_get (dGet d') commentField\<rparr> else d', m2)))"

definition commentIdentityUpdate :: "'m upstream \<Rightarrow> string \<Rightarrow> 'm crud \<Rightarrow> 'm crud" where
  "commentIdentityUpdate U path update d m =
     (let newComment = map_get (dGet d) commentField
      in if newComment = [] then (Errorf (CommentCleared path), d, m)
         else (case resolveByComment U path (dId d) m of
                 (Inl dg, m1) \<Rightarrow> (dg, d, m1)
               | (Inr None, m1) \<Rightarrow> (Errorf (CommentGone (dId d) path), d, m1)
               | (Inr (Some item), m1) \<Rightarrow>
                   (case (if newComment \<noteq> dId d then rejectExisting U path newComment m1 else (None, m1)) of
                      (Some dg, m2) \<Rightarrow> (dg, d, m2)
                    | (None, m2) \<Rightarrow>
                        (case update (d\<lparr>dId := GetID U item\<rparr>) m2 of
                           (dg, d', m3) \<Rightarrow> if HasError dg then (dg, d', m3) else (dg, d'\<lparr>dId := newComment\<rparr>, m3)))))"

definition commentIdentityDelete :: "'m upstream \<Rightarrow> string \<Rightarrow> 'm crud \<Rightarrow> 'm crud" where
  "commentIdentityDelete U path del d m =
     (case resolveByComment U path (dId d) m of
        (Inl dg, m1) \<Rightarrow> (dg, d, m1)
      | (Inr None, m1) \<Rightarrow> ([], d\<lparr>dId := []\<rparr>, m1)
      | (Inr (Some item), m1) \<Rightarrow> del (d\<lparr>dId := GetID U item\<rparr>) m1)"

section \<open>Interface identity\<close>

definition interfaceField :: string where
  "interfaceField = ''interface''"

definition defaultField :: string where
  "defaultField = ''default''"

definition routerTrue :: string where
  "routerTrue = ''true''"

definition interfaceIdentityCreate :: "'m upstream \<Rightarrow> string \<Rightarrow> 'm crud \<Rightarrow> 'm crud \<Rightarrow> 'm crud" where
  "interfaceIdentityCreate U path create update d m =
     (let iface = map_get (dGet d) interfaceField
      in if iface = [] then (Errorf (InterfaceRequired path), d, m)
         else (case resolveByField U path interfaceField iface m of
                 (Inl dg, m1) \<Rightarrow> (dg, d, m1)
               | (Inr None, m1) \<Rightarrow>
                   (case create d m1 of
                      (dg, d', m2) \<Rightarrow> if HasError dg then (dg, d', m2) else ([], d'\<lparr>dId := iface\<rparr>, m2))
               | (Inr (Some item), m1) \<Rightarrow>
                   if map_get item defaultField = routerTrue
                   then (case update (d\<lparr>dId := GetID U item\<rparr>) m1 of
                           (dg, d', m2) \<Rightarrow> if HasError dg then (dg, d', m2) else ([], d'\<lparr>dId := iface\<rparr>, m2))
                   else (Errorf (InterfaceExists iface path (GetID U item)), d, m1)))"

definition interfaceIdentityRead :: "'m upstream \<Rightarrow> string \<Rightarrow> 'm crud \<Rightarrow> 'm crud" where
  "interfaceIdentityRead U path read d m =
     (case resolveByField U path interfaceField (dId d) m of
        (Inl dg, m1) \<Rightarrow> (dg, d, m1)
      | (Inr None, m1) \<Rightarrow> ([], d\<lparr>dId := []\<rparr>, m1)
      | (Inr (Some item), m1) \<Rightarrow>
          (case read (d\<lparr>dId := GetID U item\<rparr>) m1 of
             (dg, d', m2) \<Rightarrow>
               if HasError dg then (dg, d', m2)
               else (dg, if dId d' \<noteq> [] then d'\<lparr>dId := map_get (dGet d') interfaceField\<rparr> else d', m2)))"

definition interfaceIdentityUpdate :: "'m upstream \<Rightarrow> string \<Rightarrow> 'm crud \<Rightarrow> 'm crud" where
  "interfaceIdentityUpdate U path update d m =
     (let newInterface = map_get (dGet d) interfaceField
      in if newInterface = [] then (Errorf (InterfaceCleared path), d, m)
         else (case resolveByField U path interfaceField (dId d) m of
                 (Inl dg, m1) \<Rightarrow> (dg, d, m1)
               | (Inr None, m1) \<Rightarrow> (Errorf (InterfaceGone (dId d) path), d, m1)
               | (Inr (Some item), m1) \<Rightarrow>
                   (case (if newInterface \<noteq> dId d then resolveByField U path interfaceField newInterface m1 else (Inr None, m1)) of
                      (Inl dg, m2) \<Rightarrow> (dg, d, m2)
                    | (Inr (Some existing), m2) \<Rightarrow> (Errorf (InterfaceTaken newInterface path (GetID U existing)), d, m2)
                    | (Inr None, m2) \<Rightarrow>
                        (case update (d\<lparr>dId := GetID U item\<rparr>) m2 of
                           (dg, d', m3) \<Rightarrow> if HasError dg then (dg, d', m3) else (dg, d'\<lparr>dId := newInterface\<rparr>, m3)))))"

definition interfaceIdentityDelete :: "'m upstream \<Rightarrow> string \<Rightarrow> 'm crud \<Rightarrow> 'm crud" where
  "interfaceIdentityDelete U path del d m =
     (case resolveByField U path interfaceField (dId d) m of
        (Inl dg, m1) \<Rightarrow> (dg, d, m1)
      | (Inr None, m1) \<Rightarrow> ([], d\<lparr>dId := []\<rparr>, m1)
      | (Inr (Some item), m1) \<Rightarrow>
          if map_get item defaultField = routerTrue
          then ([(SevWarning, DefaultRuleLeft (dId d) path)], d\<lparr>dId := []\<rparr>, m1)
          else del (d\<lparr>dId := GetID U item\<rparr>) m1)"

section \<open>Factory identity\<close>

definition factoryNameField :: string where
  "factoryNameField = ''factory_name''"

definition defaultNameREST :: string where
  "defaultNameREST = ''default-name''"

definition factoryIdentityCreate :: "'m crud \<Rightarrow> 'm crud" where
  "factoryIdentityCreate create d m =
     (case create d m of
        (dg, d', m') \<Rightarrow>
          if HasError dg then (dg, d', m') else (dg, d'\<lparr>dId := map_get (dGet d') factoryNameField\<rparr>, m'))"

definition factoryIdentityResolve :: "'m upstream \<Rightarrow> string \<Rightarrow> 'm crud \<Rightarrow> bool \<Rightarrow> 'm crud" where
  "factoryIdentityResolve U path op goneOK d m =
     (let factory = dId d
      in case resolveByField U path defaultNameREST factory m of
           (Inl dg, m1) \<Rightarrow> (dg, d, m1)
         | (Inr None, m1) \<Rightarrow>
             if goneOK then ([], d\<lparr>dId := []\<rparr>, m1) else (Errorf (NoInterface defaultNameREST factory path), d, m1)
         | (Inr (Some item), m1) \<Rightarrow>
             (case op (d\<lparr>dId := GetID U item\<rparr>) m1 of
                (dg, d', m2) \<Rightarrow>
                  if HasError dg then (dg, d', m2)
                  else (dg, if dId d' \<noteq> [] then d'\<lparr>dId := factory\<rparr> else d', m2)))"

section \<open>Certificates\<close>

definition KeyName :: string where
  "KeyName = ''name''"

definition certificateRemoval :: "'m upstream \<Rightarrow> string \<Rightarrow> 'm crud \<Rightarrow> 'm crud" where
  "certificateRemoval U path del d m =
     (let nm = map_get (dGet d) KeyName
      in case del d m of
           (dg, d', m1) \<Rightarrow>
             if HasError dg then (dg, d', m1)
             else if nm = [] then (dg, d', m1)
             else (case resolveByField U path KeyName nm m1 of
                     (Inl resolveDg, m2) \<Rightarrow> (dg @ resolveDg, d', m2)
                   | (Inr None, m2) \<Rightarrow> (dg, d', m2)
                   | (Inr (Some item), m2) \<Rightarrow>
                       (case DeleteItem U (GetID U item) path m2 of
                          (Some err, m3) \<Rightarrow> (dg @ Errorf (FromErr err), d', m3)
                        | (None, m3) \<Rightarrow> (dg, d', m3))))"

section \<open>Policies\<close>

text \<open>The set of the schema is its list of members; \<^verbatim>\<open>d.Set\<close> of a list of strings does not fail.\<close>

definition collapsePolicyRead :: "'m crud \<Rightarrow> 'm crud" where
  "collapsePolicyRead read d m =
     (case read d m of
        (dg, d', m') \<Rightarrow>
          if HasError dg \<or> dId d' = [] then (dg, d', m')
          else if dPolicy d' = [] then (dg, d', m')
          else (let granted = filter (\<lambda>s. \<not> HasPrefix s ''!'') (dPolicy d')
                in if length granted = length (dPolicy d') then (dg, d', m')
                   else (dg, d'\<lparr>dPolicy := granted\<rparr>, m')))"

section \<open>Sequences\<close>

fun resolveEntries ::
  "string \<Rightarrow> (string \<Rightarrow> string list) \<Rightarrow> bool \<Rightarrow> string list \<Rightarrow> string set \<Rightarrow> string list \<Rightarrow> string go_map
   \<Rightarrow> Diagnostics + (string list \<times> string go_map)" where
  "resolveEntries path byComment lenient [] seen ids back = Inr (ids, back)"
| "resolveEntries path byComment lenient (e # es) seen ids back =
     (if e \<in> seen then Inl (Errorf (SequenceTwice e))
      else if HasPrefix e ''*'' then resolveEntries path byComment lenient es (insert e seen) (ids @ [e]) (fmupd e e back)
      else (case byComment e of
              [rid] \<Rightarrow> resolveEntries path byComment lenient es (insert e seen) (ids @ [rid]) (fmupd rid e back)
            | [] \<Rightarrow>
                if lenient then resolveEntries path byComment lenient es (insert e seen) ids back
                else Inl (Errorf (SequenceMissing e path))
            | ms \<Rightarrow> Inl (Errorf (SequenceAmbiguous (length ms) path e))))"

definition byCommentOf :: "'m upstream \<Rightarrow> Record list \<Rightarrow> string \<Rightarrow> string list" where
  "byCommentOf U items c =
     (if c = [] then [] else map (GetID U) (filter (\<lambda>item. map_get item commentField = c) items))"

definition resolveSequence ::
  "'m upstream \<Rightarrow> string \<Rightarrow> string list \<Rightarrow> bool \<Rightarrow> 'm \<Rightarrow> (Diagnostics + (string list \<times> string go_map)) \<times> 'm" where
  "resolveSequence U path entries lenient m =
     (case ReadItems U path m of
        (Inl err, m') \<Rightarrow> (Inl (Errorf (FromErr err)), m')
      | (Inr items, m') \<Rightarrow> (resolveEntries path (byCommentOf U items) lenient entries {} [] fmempty, m'))"

definition restoreSequence :: "ResourceData \<Rightarrow> string go_map \<Rightarrow> ResourceData" where
  "restoreSequence d back =
     d\<lparr>dSequence := map (\<lambda>rid. case fmlookup back rid of Some e \<Rightarrow> e | None \<Rightarrow> rid) (dSequence d)\<rparr>"

definition resourcePathField :: string where
  "resourcePathField = ''resource_path''"

definition resourceNameField :: string where
  "resourceNameField = ''resource_name''"

definition resourcePrefix :: string where
  "resourcePrefix = ''routeros''"

text \<open>\<^verbatim>\<open>menuPath\<close> of move_sequence.go.\<close>

definition sequencePath :: "ResourceData \<Rightarrow> string" where
  "sequencePath d =
     (let p = map_get (dGet d) resourcePathField
      in if p \<noteq> [] then p
         else CHR ''/'' # map (\<lambda>c. if c = CHR ''_'' then CHR ''/'' else c)
                (TrimPrefix (map_get (dGet d) resourceNameField) (resourcePrefix @ ''_'')))"

definition commentSequenceWrite :: "'m upstream \<Rightarrow> 'm crud \<Rightarrow> 'm crud" where
  "commentSequenceWrite U inner d m =
     (let es = dSequence d
      in if length es < 2 then (Errorf SequenceTooShort, d, m)
         else (case resolveSequence U (sequencePath d) es False m of
                 (Inl dg, m1) \<Rightarrow> (dg, d, m1)
               | (Inr (ids, back), m1) \<Rightarrow>
                   (case inner (d\<lparr>dSequence := ids\<rparr>) m1 of
                      (dg, d', m2) \<Rightarrow> (dg, restoreSequence d' back, m2))))"

definition commentSequenceRead :: "'m upstream \<Rightarrow> 'm crud \<Rightarrow> 'm crud" where
  "commentSequenceRead U inner d m =
     (case resolveSequence U (sequencePath d) (dSequence d) True m of
        (Inl dg, m1) \<Rightarrow> (dg, d, m1)
      | (Inr (ids, back), m1) \<Rightarrow>
          (case inner (d\<lparr>dSequence := ids\<rparr>) m1 of
             (dg, d', m2) \<Rightarrow>
               if HasError dg \<or> dId d' = [] then (dg, d', m2) else ([], restoreSequence d' back, m2)))"

section \<open>Menus with an identity\<close>

text \<open>No two rows share a value of the identity field; rows without one do not count.\<close>

definition one_each :: "string \<Rightarrow> Record list \<Rightarrow> bool" where
  "one_each field rows \<longleftrightarrow> distinct (filter (\<lambda>v. v \<noteq> []) (map (\<lambda>r. map_get r field) rows))"

text \<open>The rows that do not carry an identity, and that they all survive, unchanged and in order.\<close>

definition others :: "string \<Rightarrow> string \<Rightarrow> Record list \<Rightarrow> Record list" where
  "others field v rows = filter (\<lambda>r. map_get r field \<noteq> v) rows"

definition keeps_others :: "string \<Rightarrow> string \<Rightarrow> Record list \<Rightarrow> Record list \<Rightarrow> bool" where
  "keeps_others field v rows rows' \<longleftrightarrow>
     filter (\<lambda>r. Record_ID r \<in> Record_ID ` set (others field v rows)) rows' = others field v rows"

lemma keeps_others_refl:
  assumes "distinct (map Record_ID rows)"
  shows "keeps_others field v rows rows"
  using assms by (auto simp: keeps_others_def others_def intro!: filter_cong dest: distinct_map_inj)

lemma keeps_others_snoc:
  assumes "distinct (map Record_ID (rows @ [row]))"
  shows "keeps_others field v rows (rows @ [row])"
proof -
  have "Record_ID row \<notin> Record_ID ` set (others field v rows)" using assms by (auto simp: others_def)
  then show ?thesis using keeps_others_refl [of rows field v] assms by (simp add: keeps_others_def)
qed

lemma one_each_snoc:
  "one_each field (rows @ [row]) \<longleftrightarrow>
     one_each field rows \<and> (map_get row field = [] \<or> filter (\<lambda>r. map_get r field = map_get row field) rows = [])"
  by (auto simp: one_each_def filter_empty_conv image_iff)

lemma one_each_mid:
  "one_each field (xs @ row # ys) \<longleftrightarrow>
     one_each field (xs @ ys) \<and> (map_get row field = [] \<or> (\<forall>r \<in> set xs \<union> set ys. map_get r field \<noteq> map_get row field))"
  by (auto simp: one_each_def image_iff)

lemma one_each_filter: "one_each field rows \<Longrightarrow> one_each field (filter P rows)"
  by (induction rows) (auto simp: one_each_def image_iff)

text \<open>Exactly one row carries the value: it is the one an operation on its id acts on.\<close>

lemma single_row:
  assumes ids: "distinct (map Record_ID rows)" and one: "filter (\<lambda>r. map_get r field = v) rows = [item]"
  shows "r \<in> set rows \<Longrightarrow> Record_ID r = Record_ID item \<longleftrightarrow> map_get r field = v"
proof -
  have item: "item \<in> set rows" "map_get item field = v"
    using arg_cong [OF one, of set] by auto
  assume r: "r \<in> set rows"
  show "Record_ID r = Record_ID item \<longleftrightarrow> map_get r field = v"
  proof
    assume "Record_ID r = Record_ID item"
    then have "r = item" using distinct_map_inj [OF ids r item(1)] by simp
    then show "map_get r field = v" using item(2) by simp
  next
    assume "map_get r field = v"
    then have "r \<in> set (filter (\<lambda>r. map_get r field = v) rows)" using r by simp
    then show "Record_ID r = Record_ID item" unfolding one by simp
  qed
qed

lemma change_single:
  assumes ids: "distinct (map Record_ID rows)" and one: "filter (\<lambda>r. map_get r field = v) rows = [item]"
    and f: "\<And>row. Record_ID (f row) = Record_ID row" "\<And>row. map_get (f row) field \<in> {map_get row field, new}"
  shows "keeps_others field v rows (change_at (Record_ID item) f rows)"
    and "one_each field rows \<Longrightarrow> new = v \<or> filter (\<lambda>r. map_get r field = new) rows = [] \<Longrightarrow>
      one_each field (change_at (Record_ID item) f rows)"
proof -
  note single = single_row [OF ids one]
  have "Record_ID item \<notin> Record_ID ` set (others field v rows)"
    using single by (force simp: others_def)
  then have "filter (\<lambda>r. Record_ID r \<in> Record_ID ` set (others field v rows)) (change_at (Record_ID item) f rows)
      = filter (\<lambda>r. Record_ID r \<in> Record_ID ` set (others field v rows)) rows"
    using f(1) by (intro change_at_others) auto
  then show "keeps_others field v rows (change_at (Record_ID item) f rows)"
    using keeps_others_refl [OF ids, of field v] by (simp add: keeps_others_def)
  assume each: "one_each field rows" and new: "new = v \<or> filter (\<lambda>r. map_get r field = new) rows = []"
  obtain xs ys where rows: "rows = xs @ item # ys" and none: "\<forall>r \<in> set xs \<union> set ys. map_get r field \<noteq> v"
    and v: "map_get item field = v"
    using one [unfolded filter_eq_Cons_iff] filter_empty_conv [of "\<lambda>r. map_get r field = v"] by (metis Un_iff)
  have neq: "Record_ID r \<noteq> Record_ID item" if "r \<in> set xs \<union> set ys" for r
    using ids that unfolding rows by (auto simp: image_iff)
  then have ch: "change_at (Record_ID item) f rows = xs @ f item # ys"
    unfolding rows change_at_def by (auto intro: map_idI)
  have "map_get (f item) field \<in> {v, new}" using f(2) [of item] v by simp
  moreover have "\<forall>r \<in> set xs \<union> set ys. map_get r field \<noteq> new"
    using new none unfolding rows filter_empty_conv by auto
  ultimately show "one_each field (change_at (Record_ID item) f rows)"
    using each [unfolded rows one_each_mid] none unfolding ch one_each_mid by auto
qed

locale identified_menu =
  fixes U :: "'m upstream" and path field :: string and items :: "'m \<Rightarrow> Record list" and ok :: "'m \<Rightarrow> bool"
    and create read update del :: "'m crud"
  assumes get_id: "GetID U = Record_ID"
    and row_ids: "ok m \<Longrightarrow> distinct (map Record_ID (items m))"
    and lookup: "ok m \<Longrightarrow> value \<noteq> [] \<Longrightarrow> itemsByField U path field value m = (r, m') \<Longrightarrow>
      ok m' \<and> items m' = items m \<and> (\<forall>rs. r = Inr rs \<longrightarrow> rs = filter (\<lambda>i. map_get i field = value) (items m))"
    and creates: "ok m \<Longrightarrow> create d m = (dg, d', m') \<Longrightarrow>
      ok m' \<and> (items m' = items m \<or> (\<exists>row. items m' = items m @ [row] \<and> map_get row field = map_get (dGet d) field))"
    and reads: "ok m \<Longrightarrow> read d m = (dg, d', m') \<Longrightarrow> ok m' \<and> items m' = items m"
    and updates: "ok m \<Longrightarrow> update d m = (dg, d', m') \<Longrightarrow>
      ok m' \<and> (\<exists>f. (\<forall>row. Record_ID (f row) = Record_ID row \<and> map_get (f row) field \<in> {map_get row field, map_get (dGet d) field})
        \<and> items m' = change_at (dId d) f (items m))"
    and deletes: "ok m \<Longrightarrow> del d m = (dg, d', m') \<Longrightarrow>
      ok m' \<and> (items m' = items m \<or> items m' = filter (\<lambda>r. Record_ID r \<noteq> dId d) (items m))"
begin

text \<open>What every operation promises: the state stays good, identities stay unique, other rows stay.\<close>

abbreviation safe :: "string \<Rightarrow> 'm \<Rightarrow> 'm \<Rightarrow> bool" where
  "safe v m m' \<equiv> ok m' \<and> (one_each field (items m) \<longrightarrow> one_each field (items m')) \<and> keeps_others field v (items m) (items m')"

lemma safe_same: "ok m \<Longrightarrow> ok m' \<Longrightarrow> items m' = items m \<Longrightarrow> safe v m m'"
  using keeps_others_refl [OF row_ids] by simp

lemma resolved:
  assumes "ok m" and "value \<noteq> []" and "resolveByField U path field value m = (r, m')"
  shows "ok m' \<and> items m' = items m
    \<and> (\<forall>i. r = Inr i \<longrightarrow> filter (\<lambda>r. map_get r field = value) (items m) = (case i of None \<Rightarrow> [] | Some item \<Rightarrow> [item]))"
proof -
  obtain x m1 where x: "itemsByField U path field value m = (x, m1)" by fastforce
  from lookup [OF assms(1,2) x] assms(3) x show ?thesis
    by (auto simp: resolveByField_def split: sum.splits list.splits)
qed

lemma safe_create:
  assumes "ok m" and "filter (\<lambda>r. map_get r field = map_get (dGet d) field) (items m) = []" and "create d m = (dg, d', m')"
  shows "safe v m m'"
proof -
  from creates [OF assms(1,3)] consider "ok m'" "items m' = items m"
    | row where "ok m'" "items m' = items m @ [row]" "map_get row field = map_get (dGet d) field" by blast
  then show ?thesis
  proof cases
    case 1
    then show ?thesis using safe_same [OF assms(1)] by blast
  next
    case 2
    then show ?thesis
      using assms(2) one_each_snoc [of field "items m" row] keeps_others_snoc [of "items m" row] row_ids [OF 2(1)] by simp
  qed
qed

lemma safe_update:
  assumes "ok m" and one: "filter (\<lambda>r. map_get r field = v) (items m) = [item]"
    and new: "map_get (dGet d) field = v \<or> filter (\<lambda>r. map_get r field = map_get (dGet d) field) (items m) = []"
    and run: "update (d\<lparr>dId := Record_ID item\<rparr>) m = (dg, d', m')"
  shows "safe v m m'"
proof -
  from updates [OF assms(1) run] obtain f where ok: "ok m'"
    and f: "\<And>row. Record_ID (f row) = Record_ID row" "\<And>row. map_get (f row) field \<in> {map_get row field, map_get (dGet d) field}"
    and items: "items m' = change_at (Record_ID item) f (items m)" by auto
  show ?thesis using ok change_single [OF row_ids [OF assms(1)] one f] new unfolding items by blast
qed

lemma safe_delete:
  assumes "ok m" and one: "filter (\<lambda>r. map_get r field = v) (items m) = [item]"
    and run: "del (d\<lparr>dId := Record_ID item\<rparr>) m = (dg, d', m')"
  shows "safe v m m'"
proof -
  from deletes [OF assms(1) run] consider "ok m'" "items m' = items m"
    | "ok m'" "items m' = filter (\<lambda>r. Record_ID r \<noteq> Record_ID item) (items m)" by auto
  then show ?thesis
  proof cases
    case 1
    then show ?thesis using safe_same [OF assms(1)] by blast
  next
    case 2
    have "items m' = others field v (items m)"
      unfolding 2(2) others_def using single_row [OF row_ids [OF assms(1)] one] by (auto intro: filter_cong)
    then show ?thesis using 2(1) one_each_filter by (auto simp: keeps_others_def others_def intro: filter_cong)
  qed
qed

end

section \<open>Comment identity\<close>

locale comment_menu = identified_menu U path commentField items ok create read update del
  for U :: "'m upstream" and path :: string and items :: "'m \<Rightarrow> Record list" and ok :: "'m \<Rightarrow> bool"
    and create read update del :: "'m crud"
begin

lemma resolvedC:
  assumes "ok m" and "value \<noteq> []" and "resolveByComment U path value m = (r, m')"
  shows "ok m' \<and> items m' = items m
    \<and> (\<forall>i. r = Inr i \<longrightarrow> filter (\<lambda>r. map_get r commentField = value) (items m) = (case i of None \<Rightarrow> [] | Some item \<Rightarrow> [item]))"
  using assms(3) resolved [OF assms(1,2)] by (simp add: resolveByComment_def)

lemma rejected:
  assumes "ok m" and "value \<noteq> []" and "rejectExisting U path value m = (r, m')"
  shows "ok m' \<and> items m' = items m \<and> (r = None \<longrightarrow> filter (\<lambda>r. map_get r commentField = value) (items m) = [])"
proof -
  obtain x m1 where x: "itemsByField U path commentField value m = (x, m1)" by fastforce
  from lookup [OF assms(1,2) x] assms(3) x show ?thesis
    by (auto simp: rejectExisting_def itemsByComment_def split: sum.splits list.splits)
qed

lemma create_safe:
  assumes ok: "ok m" and run: "commentIdentityCreate U path create d m = (dg, d', m')"
  shows "safe v m m'"
proof (cases "map_get (dGet d) commentField = []")
  case True
  then show ?thesis using run safe_same [OF ok ok] by (simp add: commentIdentityCreate_def)
next
  case False
  obtain r m1 where r: "resolveByComment U path (map_get (dGet d) commentField) m = (r, m1)" by fastforce
  note res = resolvedC [OF ok False r]
  show ?thesis
  proof (cases "r = Inr None")
    case True
    obtain dg2 d2 where "create d m1 = (dg2, d2, m')"
      using run False r True by (auto simp: commentIdentityCreate_def Let_def split: prod.splits if_splits)
    then show ?thesis using safe_create [of m1 d] res True by (auto simp: keeps_others_def)
  next
    case other: False
    then have "m' = m1" using run False r by (auto simp: commentIdentityCreate_def Let_def split: sum.splits option.splits)
    then show ?thesis using safe_same [OF ok] res by blast
  qed
qed

lemma update_safe:
  assumes ok: "ok m" and id: "dId d \<noteq> []" and run: "commentIdentityUpdate U path update d m = (dg, d', m')"
  shows "safe (dId d) m m'"
proof (cases "map_get (dGet d) commentField = []")
  case True
  then show ?thesis using run safe_same [OF ok ok] by (simp add: commentIdentityUpdate_def)
next
  case False
  let ?new = "map_get (dGet d) commentField"
  obtain r m1 where r: "resolveByComment U path (dId d) m = (r, m1)" by fastforce
  note res = resolvedC [OF ok id r]
  show ?thesis
  proof (cases "\<exists>item. r = Inr (Some item)")
    case True
    then obtain item where item: "r = Inr (Some item)" by blast
    obtain x m2 where x: "(if ?new \<noteq> dId d then rejectExisting U path ?new m1 else (None, m1)) = (x, m2)" by fastforce
    have same: "ok m2 \<and> items m2 = items m \<and> (x = None \<longrightarrow> ?new = dId d \<or> filter (\<lambda>r. map_get r commentField = ?new) (items m) = [])"
      using rejected [of m1 ?new x m2] x res False by (auto split: if_splits)
    show ?thesis
    proof (cases x)
      case None
      obtain dg2 d2 where "update (d\<lparr>dId := Record_ID item\<rparr>) m2 = (dg2, d2, m')"
        using run False r item x None get_id by (auto simp: commentIdentityUpdate_def Let_def split: prod.splits if_splits)
      then show ?thesis using safe_update [of m2 "dId d" item d] same res item None by (auto simp: keeps_others_def)
    next
      case (Some dg2)
      then have "m' = m2" using run False r item x by (auto simp: commentIdentityUpdate_def Let_def split: prod.splits if_splits)
      then show ?thesis using safe_same [OF ok] same by blast
    qed
  next
    case other: False
    then have "m' = m1" using run False r by (auto simp: commentIdentityUpdate_def Let_def split: sum.splits option.splits)
    then show ?thesis using safe_same [OF ok] res by blast
  qed
qed

lemma delete_safe:
  assumes ok: "ok m" and id: "dId d \<noteq> []" and run: "commentIdentityDelete U path del d m = (dg, d', m')"
  shows "safe (dId d) m m'"
proof -
  obtain r m1 where r: "resolveByComment U path (dId d) m = (r, m1)" by fastforce
  note res = resolvedC [OF ok id r]
  show ?thesis
  proof (cases "\<exists>item. r = Inr (Some item)")
    case True
    then obtain item where item: "r = Inr (Some item)" by blast
    then have "del (d\<lparr>dId := Record_ID item\<rparr>) m1 = (dg, d', m')" using run r get_id by (simp add: commentIdentityDelete_def)
    then show ?thesis using safe_delete [of m1 "dId d" item d] res item by (auto simp: keeps_others_def)
  next
    case False
    then have "m' = m1" using run r by (auto simp: commentIdentityDelete_def split: sum.splits option.splits)
    then show ?thesis using safe_same [OF ok] res by blast
  qed
qed

lemma read_safe:
  assumes ok: "ok m" and id: "dId d \<noteq> []" and run: "commentIdentityRead U path read d m = (dg, d', m')"
  shows "ok m' \<and> items m' = items m"
proof -
  obtain r m1 where r: "resolveByComment U path (dId d) m = (r, m1)" by fastforce
  note res = resolvedC [OF ok id r]
  show ?thesis
  proof (cases "\<exists>item. r = Inr (Some item)")
    case True
    then obtain item where item: "r = Inr (Some item)" by blast
    obtain dg2 d2 where "read (d\<lparr>dId := Record_ID item\<rparr>) m1 = (dg2, d2, m')"
      using run r item get_id by (auto simp: commentIdentityRead_def split: prod.splits if_splits)
    then show ?thesis using reads [of m1] res by auto
  next
    case False
    then have "m' = m1" using run r by (auto simp: commentIdentityRead_def split: sum.splits option.splits)
    then show ?thesis using res by blast
  qed
qed

text \<open>An operation that reports no error has found the row its comment names, and no other.\<close>

lemma update_finds:
  assumes ok: "ok m" and id: "dId d \<noteq> []" and run: "commentIdentityUpdate U path update d m = (dg, d', m')" and dg: "\<not> HasError dg"
  shows "(\<exists>item. filter (\<lambda>r. map_get r commentField = dId d) (items m) = [item]) \<and> dId d' = map_get (dGet d) commentField
    \<and> map_get (dGet d) commentField \<noteq> []"
proof -
  have new: "map_get (dGet d) commentField \<noteq> []"
    using run dg by (auto simp: commentIdentityUpdate_def HasError_def Errorf_def split: if_splits)
  obtain r m1 where r: "resolveByComment U path (dId d) m = (r, m1)" by fastforce
  note res = resolvedC [OF ok id r]
  have err: "HasError dg'" if "r = Inl dg'" for dg'
    using r that by (auto simp: resolveByComment_def resolveByField_def HasError_def Errorf_def split: prod.splits sum.splits list.splits)
  have rej: "HasError dg'" if "rejectExisting U path c x = (Some dg', y)" for c x y dg'
    using that by (auto simp: rejectExisting_def HasError_def Errorf_def split: prod.splits sum.splits list.splits)
  obtain item where item: "r = Inr (Some item)"
    using run r new dg err by (cases r) (auto simp: commentIdentityUpdate_def Let_def HasError_def Errorf_def split: option.splits)
  have "dId d' = map_get (dGet d) commentField"
    using run r new dg item rej by (auto simp: commentIdentityUpdate_def Let_def split: if_splits prod.splits option.splits)
  then show ?thesis using res item new by auto
qed

end

section \<open>Interface identity\<close>

locale interface_menu = identified_menu U path interfaceField items ok create read update del
  for U :: "'m upstream" and path :: string and items :: "'m \<Rightarrow> Record list" and ok :: "'m \<Rightarrow> bool"
    and create read update del :: "'m crud"
begin

lemma create_adopts:
  assumes ok: "ok m" and run: "interfaceIdentityCreate U path create update d m = (dg, d', m')"
  shows "safe (map_get (dGet d) interfaceField) m m'
    \<and> (filter (\<lambda>r. map_get r interfaceField = map_get (dGet d) interfaceField) (items m) = []
       \<or> map Record_ID (items m') = map Record_ID (items m))
    \<and> (items m' = items m \<or> list_all (\<lambda>r. map_get r defaultField = routerTrue)
         (filter (\<lambda>r. map_get r interfaceField = map_get (dGet d) interfaceField) (items m)))"
proof (cases "map_get (dGet d) interfaceField = []")
  case True
  then show ?thesis using run safe_same [OF ok ok] by (simp add: interfaceIdentityCreate_def)
next
  case False
  let ?new = "map_get (dGet d) interfaceField"
  obtain r m1 where r: "resolveByField U path interfaceField ?new m = (r, m1)" by fastforce
  note res = resolved [OF ok False r]
  consider (free) "r = Inr None" | (default) item where "r = Inr (Some item)" "map_get item defaultField = routerTrue"
    | (stop) "m' = m1"
    using run False r by (auto simp: interfaceIdentityCreate_def Let_def split: sum.splits option.splits if_splits prod.splits)
  then show ?thesis
  proof cases
    case free
    obtain dg2 d2 where "create d m1 = (dg2, d2, m')"
      using run False r free by (auto simp: interfaceIdentityCreate_def Let_def split: prod.splits if_splits)
    then show ?thesis using safe_create [of m1 d] res free by (auto simp: keeps_others_def)
  next
    case default
    obtain dg2 d2 where u: "update (d\<lparr>dId := Record_ID item\<rparr>) m1 = (dg2, d2, m')"
      using run False r default get_id by (auto simp: interfaceIdentityCreate_def Let_def split: prod.splits if_splits)
    have "map Record_ID (items m') = map Record_ID (items m1)"
      using updates [OF _ u] res change_at_ids by fastforce
    then show ?thesis using safe_update [of m1 ?new item d, OF _ _ _ u] res default by (auto simp: keeps_others_def)
  next
    case stop
    then show ?thesis using safe_same [OF ok, of m'] res by auto
  qed
qed

lemma delete_keeps_default:
  assumes ok: "ok m" and id: "dId d \<noteq> []" and run: "interfaceIdentityDelete U path del d m = (dg, d', m')"
    and row: "row \<in> set (items m)" "map_get row defaultField = routerTrue"
  shows "row \<in> set (items m')"
proof -
  obtain r m1 where r: "resolveByField U path interfaceField (dId d) m = (r, m1)" by fastforce
  note res = resolved [OF ok id r]
  show ?thesis
  proof (cases "\<exists>item. r = Inr (Some item) \<and> map_get item defaultField \<noteq> routerTrue")
    case True
    then obtain item where item: "r = Inr (Some item)" "map_get item defaultField \<noteq> routerTrue" by blast
    then have del: "del (d\<lparr>dId := Record_ID item\<rparr>) m1 = (dg, d', m')"
      using run r get_id by (simp add: interfaceIdentityDelete_def)
    have "item \<in> set (filter (\<lambda>r. map_get r interfaceField = dId d) (items m))" using res item by simp
    then have "item \<in> set (items m)" by simp
    then have "Record_ID row \<noteq> Record_ID item"
      using distinct_map_inj [OF row_ids [OF ok] row(1)] row(2) item(2) by auto
    then show ?thesis using deletes [OF _ del] res row(1) by auto
  next
    case False
    then have "m' = m1" using run r by (auto simp: interfaceIdentityDelete_def split: sum.splits option.splits if_splits)
    then show ?thesis using res row(1) by simp
  qed
qed

end

section \<open>Sequences\<close>

lemma resolveEntries_comments:
  assumes "list_all (\<lambda>e. \<not> HasPrefix e ''*'') es"
    and "resolveEntries path byComment False es seen ids bk = Inr (ids', bk')"
    and "distinct ids" and "set ids = fmdom' bk" and "fmdom' bk \<inter> \<Union> (set ` byComment ` (UNIV - seen)) = {}"
    and inj: "\<And>c c' i. i \<in> set (byComment c) \<Longrightarrow> i \<in> set (byComment c') \<Longrightarrow> c = c'"
  shows "map (\<lambda>i. fmlookup bk' i) ids' = map (\<lambda>i. fmlookup bk i) ids @ map Some es \<and> distinct ids'"
  using assms(1-5)
proof (induction es arbitrary: seen ids bk)
  case Nil
  then show ?case by simp
next
  case (Cons e es)
  have e: "e \<notin> seen" "\<not> HasPrefix e ''*''" using Cons.prems by (auto split: if_splits)
  then obtain i where i: "byComment e = [i]"
    using Cons.prems(2) by (auto split: list.splits)
  have fresh: "i \<notin> fmdom' bk" using Cons.prems(5) i e(1) by (auto simp: set_eq_iff) (metis DiffI UNIV_I imageI list.set_intros(1))
  have rest: "resolveEntries path byComment False es (insert e seen) (ids @ [i]) (fmupd i e bk) = Inr (ids', bk')"
    using Cons.prems(2) e i by simp
  have "fmdom' (fmupd i e bk) \<inter> \<Union> (set ` byComment ` (UNIV - insert e seen)) = {}"
    using Cons.prems(5) i inj [of i e] by auto
  then have "map (fmlookup bk') ids' = map (fmlookup (fmupd i e bk)) (ids @ [i]) @ map Some es \<and> distinct ids'"
    using Cons.IH [OF _ rest] Cons.prems(1,3,4) fresh by auto
  moreover have "map (fmlookup (fmupd i e bk)) ids = map (fmlookup bk) ids"
    using fresh Cons.prems(4) by auto
  ultimately show ?case by simp
qed

text \<open>
  Sequences of comments survive the detour through ids. When a strict resolution of a sequence of
  comments succeeds on a menu whose rows have distinct ids, it gives as many distinct ids as there
  were entries, and translating them back gives the entries, in their order.
\<close>

theorem sequence_roundtrip:
  assumes "distinct (map (GetID U) items)" and "ReadItems U path m = (Inr items, m1)"
    and "list_all (\<lambda>e. \<not> HasPrefix e ''*'') es"
    and "resolveSequence U path es False m = (Inr (ids, bk), m')"
  shows "distinct ids \<and> dSequence (restoreSequence (d\<lparr>dSequence := ids\<rparr>) bk) = es"
proof -
  have run: "resolveEntries path (byCommentOf U items) False es {} [] fmempty = Inr (ids, bk)"
    using assms(2,4) by (simp add: resolveSequence_def)
  have inj: "c = c'" if "i \<in> set (byCommentOf U items c)" "i \<in> set (byCommentOf U items c')" for c c' i
    using that distinct_map_inj [OF assms(1)] by (auto simp: byCommentOf_def split: if_splits)
  have "map (fmlookup bk) ids = map Some es \<and> distinct ids"
    using resolveEntries_comments [OF assms(3) run _ _ _ inj] by simp
  moreover have "map (\<lambda>rid. case fmlookup bk rid of Some e \<Rightarrow> e | None \<Rightarrow> rid) ids = es" if "map (fmlookup bk) ids = map Some es"
    using that by (induction ids arbitrary: es) (auto simp: map_eq_Cons_conv)
  ultimately show ?thesis by (simp add: restoreSequence_def)
qed

section \<open>Policies\<close>

text \<open>How the router stores a policy: the granted keywords and the negation of every other one.\<close>

definition expandPolicy :: "string list \<Rightarrow> string list \<Rightarrow> string list" where
  "expandPolicy keywords granted = granted @ map (\<lambda>k. CHR ''!'' # k) (filter (\<lambda>k. k \<notin> set granted) keywords)"

text \<open>
  Observed policies converge. After a read that found the resource, the policy has no negated
  member and every granted one; when the router answered with the expansion of what the spec grants,
  the observation is what the spec grants, so nothing is left to write.
\<close>

theorem policy_collapses:
  assumes "read d m = (dg, d1, m')" and "\<not> HasError dg" and "dId d1 \<noteq> []"
    and "dPolicy d1 = expandPolicy keywords granted" and "list_all (\<lambda>k. \<not> HasPrefix k ''!'') granted"
  shows "collapsePolicyRead read d m = (dg, d1\<lparr>dPolicy := granted\<rparr>, m')"
proof -
  let ?p = "dPolicy d1" and ?g = "filter (\<lambda>s. \<not> HasPrefix s ''!'') (dPolicy d1)"
  have g: "?g = granted"
    using assms(5) by (auto simp: assms(4) expandPolicy_def list_all_iff filter_empty_conv intro: filter_True)
  have "?p = ?g" if "length ?g = length ?p" using that by (metis filter_True length_filter_less nat_neq_iff)
  then show ?thesis
    using assms g by (auto simp: collapsePolicyRead_def Let_def)
qed

section \<open>An upstream client in memory\<close>

text \<open>
  The rows of the test router behind the interface of the upstream package: a filter \<^verbatim>\<open>field=value\<close> with
  a percent-encoded value, rows created with a new id, patched by id and deleted by id.
\<close>

definition mem_up :: "orderingRouter upstream" where
  "mem_up =
     \<lparr>ReadItemsFiltered = (\<lambda>terms path m.
        (case terms of
           [t] \<Rightarrow>
             (let field = takeWhile (\<lambda>c. c \<noteq> CHR ''='') t
              in case percentDecode (drop (Suc (length field)) t) of
                   Some v \<Rightarrow> (Inr (filter (\<lambda>i. map_get i field = v) (orRows m)), m)
                 | None \<Rightarrow> (Inl ''bad filter'', m))
         | _ \<Rightarrow> (Inl ''unsupported filter'', m))),
      ReadItems = (\<lambda>path m. (Inr (orRows m), m)),
      DeleteItem = (\<lambda>rid path m. (None, m\<lparr>orRows := filter (\<lambda>r. Record_ID r \<noteq> rid) (orRows m)\<rparr>)),
      GetID = Record_ID, TransportREST = True\<rparr>"

definition mem_create :: "orderingRouter crud" where
  "mem_create d m =
     (if rec_utf8 (dGet d)
      then (let n = nextID m + 1
            in ([], d\<lparr>dId := new_id n\<rparr>, m\<lparr>orRows := orRows m @ [fmupd IDField (new_id n) (dGet d)], nextID := n\<rparr>))
      else (Errorf (Upstream ''invalid text''), d, m))"

definition mem_read :: "orderingRouter crud" where
  "mem_read d m =
     (if dId d \<in> Record_ID ` set (orRows m) then ([], d\<lparr>dGet := byID (orRows m) (dId d)\<rparr>, m) else ([], d\<lparr>dId := []\<rparr>, m))"

definition mem_update :: "orderingRouter crud" where
  "mem_update d m =
     (if rec_utf8 (dGet d) then ([], d, m\<lparr>orRows := change_at (dId d) (merge (dGet d)) (orRows m)\<rparr>)
      else (Errorf (Upstream ''invalid text''), d, m))"

definition mem_delete :: "orderingRouter crud" where
  "mem_delete d m = ([], d\<lparr>dId := []\<rparr>, m\<lparr>orRows := filter (\<lambda>r. Record_ID r \<noteq> dId d) (orRows m)\<rparr>)"

lemma mem_lookup:
  assumes "CHR ''='' \<notin> set field"
  shows "itemsByField mem_up path field value m = (Inr (filter (\<lambda>i. map_get i field = value) (orRows m)), m)"
proof -
  have "takeWhile (\<lambda>c. c \<noteq> CHR ''='') (field @ ''='' @ escapeQuery value) = field"
    using assms by (subst takeWhile_append2) auto
  then show ?thesis by (simp add: itemsByField_def mem_up_def Let_def percentDecode_escapeQuery)
qed

lemma mem_identified:
  assumes "CHR ''='' \<notin> set field" and "field \<noteq> IDField"
  shows "identified_menu mem_up path field orRows or_inv mem_create mem_read mem_update mem_delete"
proof
  show "GetID mem_up = Record_ID" by (simp add: mem_up_def)
  show "distinct (map Record_ID (orRows m))" if "or_inv m" for m using that by (simp add: or_inv_def)
  show "or_inv m' \<and> orRows m' = orRows m \<and> (\<forall>rs. r = Inr rs \<longrightarrow> rs = filter (\<lambda>i. map_get i field = v) (orRows m))"
    if "or_inv m" "itemsByField mem_up path field v m = (r, m')" for m v r m'
    using that mem_lookup [OF assms(1)] by auto
  show "or_inv m' \<and> (orRows m' = orRows m \<or> (\<exists>row. orRows m' = orRows m @ [row] \<and> map_get row field = map_get (dGet d) field))"
    if "or_inv m" "mem_create d m = (dg, d', m')" for m d dg d' m'
    using that or_inv_create [of m "dGet d"] assms(2)
    by (auto simp: mem_create_def Let_def lookup_default_def split: if_splits)
  show "or_inv m' \<and> orRows m' = orRows m" if "or_inv m" "mem_read d m = (dg, d', m')" for m d dg d' m'
    using that by (auto simp: mem_read_def split: if_splits)
  show "or_inv m' \<and> (\<exists>f. (\<forall>row. Record_ID (f row) = Record_ID row \<and> map_get (f row) field \<in> {map_get row field, map_get (dGet d) field})
      \<and> orRows m' = change_at (dId d) f (orRows m))"
    if "or_inv m" "mem_update d m = (dg, d', m')" for m d dg d' m'
  proof (cases "rec_utf8 (dGet d)")
    case True
    have "map_get (merge (dGet d) row) field \<in> {map_get row field, map_get (dGet d) field}" for row
      using assms(2) by (auto simp: merge_def lookup_default_def fmlookup_dom'_iff split: option.splits)
    then show ?thesis
      using that True or_inv_update [of m "dGet d" "dId d"] by (auto simp: mem_update_def intro!: exI [of _ "merge (dGet d)"])
  next
    case False
    then show ?thesis using that by (auto simp: mem_update_def change_at_def intro!: exI [of _ "\<lambda>r. r"])
  qed
  show "or_inv m' \<and> (orRows m' = orRows m \<or> orRows m' = filter (\<lambda>r. Record_ID r \<noteq> dId d) (orRows m))"
    if "or_inv m" "mem_delete d m = (dg, d', m')" for m d dg d' m'
    using that or_inv_delete by (auto simp: mem_delete_def)
qed

interpretation mem_comment: comment_menu mem_up path orRows or_inv mem_create mem_read mem_update mem_delete for path
  unfolding comment_menu_def by (rule mem_identified) (simp_all add: commentField_def IDField_def)

interpretation mem_interface: interface_menu mem_up path orRows or_inv mem_create mem_read mem_update mem_delete for path
  unfolding interface_menu_def by (rule mem_identified) (simp_all add: interfaceField_def IDField_def)

section \<open>Properties\<close>

definition exRules :: orderingRouter where
  "exRules = \<lparr>orRows = [fmap_of_list [(IDField, ''*1''), (''comment'', ''allow ssh'')],
     fmap_of_list [(IDField, ''*2'')], fmap_of_list [(IDField, ''*3''), (''comment'', ''drop'')]], nextID = 3\<rparr>"

definition exData :: "string \<Rightarrow> string \<Rightarrow> ResourceData" where
  "exData i c = \<lparr>dId = i, dGet = fmap_of_list [(''comment'', c)], dSequence = [], dPolicy = []\<rparr>"

lemma exRules_ok: "or_inv exRules" "one_each commentField (orRows exRules)"
  by code_simp+



text \<open>
  An operation reaches only its own row. Update and delete leave every row that does not carry the
  resource's comment unchanged and in its place, whatever ids the router has given the rows since. An
  update that reports no error found exactly one row with that comment and ends with the new comment
  as the identity.
\<close>

theorem comment_reaches_own_row:
  assumes "comment_menu U path items ok create read update del" and "ok m" and "dId d \<noteq> []"
    and "commentIdentityUpdate U path update d m = (dg, d1, m1)" and "commentIdentityDelete U path del d m = (dg2, d2, m2)"
  shows "keeps_others commentField (dId d) (items m) (items m1) \<and> keeps_others commentField (dId d) (items m) (items m2)
    \<and> (HasError dg \<or> (\<exists>item. filter (\<lambda>r. map_get r commentField = dId d) (items m) = [item]) \<and> dId d1 = map_get (dGet d) commentField)"
  using comment_menu.update_safe [OF assms(1-4)] comment_menu.delete_safe [OF assms(1-3,5)] comment_menu.update_finds [OF assms(1-4)]
  by blast

theorem comment_reaches_own_row_witness:
  "keeps_others commentField ''drop'' (orRows exRules)
     (orRows (snd (snd (commentIdentityDelete mem_up ''/ip/firewall/filter'' mem_delete (exData ''drop'' ''drop'') exRules))))"
proof -
  let ?d = "exData ''drop'' ''drop''"
  obtain dg d1 m1 where u: "commentIdentityUpdate mem_up ''/ip/firewall/filter'' mem_update ?d exRules = (dg, d1, m1)" by (metis surj_pair)
  obtain dg2 d2 m2 where e: "commentIdentityDelete mem_up ''/ip/firewall/filter'' mem_delete ?d exRules = (dg2, d2, m2)" by (metis surj_pair)
  have "dId ?d \<noteq> []" by (simp add: exData_def)
  from comment_reaches_own_row [OF mem_comment.comment_menu_axioms, OF exRules_ok(1) this u e] e
  show ?thesis by (simp add: exData_def)
qed


definition exND :: orderingRouter where
  "exND = \<lparr>orRows = [fmap_of_list [(IDField, ''*1''), (''interface'', ''all''), (''default'', ''true'')],
     fmap_of_list [(IDField, ''*2''), (''interface'', ''ether1'')]], nextID = 2\<rparr>"

definition exNDData :: ResourceData where
  "exNDData = \<lparr>dId = ''all'', dGet = fmap_of_list [(''interface'', ''all''), (''hop-limit'', ''64'')], dSequence = [], dPolicy = []\<rparr>"


theorem sequence_roundtrip_witness:
  "\<exists>ids bk m'. resolveSequence mem_up ''/ip/firewall/filter'' [''drop'', ''allow ssh''] False exRules = (Inr (ids, bk), m')
    \<and> dSequence (restoreSequence ((exData [] [])\<lparr>dSequence := ids\<rparr>) bk) = [''drop'', ''allow ssh'']"
proof -
  have "case resolveSequence mem_up ''/ip/firewall/filter'' [''drop'', ''allow ssh''] False exRules of (Inr (ids, bk), m') \<Rightarrow> True | _ \<Rightarrow> False"
    by code_simp
  then obtain ids bk m' where run: "resolveSequence mem_up ''/ip/firewall/filter'' [''drop'', ''allow ssh''] False exRules = (Inr (ids, bk), m')"
    by (auto split: prod.splits sum.splits)
  have "distinct (map (GetID mem_up) (orRows exRules))" by code_simp
  moreover have "ReadItems mem_up ''/ip/firewall/filter'' exRules = (Inr (orRows exRules), exRules)" by (simp add: mem_up_def)
  moreover have "list_all (\<lambda>e. \<not> HasPrefix e ''*'') [''drop'', ''allow ssh'']" by code_simp
  ultimately show ?thesis using sequence_roundtrip [OF _ _ _ run] run by blast
qed

text \<open>
  A row can be sequenced twice. A comment and the literal id of the same row are different
  entries, so the check for repeated entries lets them pass, the row is named twice in the move, and
  the literal id is lost on the way back.
\<close>

theorem sequence_names_row_twice:
  "\<exists>bk. resolveSequence mem_up ''/ip/firewall/filter'' [''*3'', ''drop'', ''allow ssh''] False exRules
      = (Inr ([''*3'', ''*3'', ''*1''], bk), exRules)
    \<and> dSequence (restoreSequence ((exData [] [])\<lparr>dSequence := [''*3'', ''*3'', ''*1'']\<rparr>) bk) = [''drop'', ''drop'', ''allow ssh'']"
  by (rule exI [of _ "fmap_of_list [(''*1'', ''allow ssh''), (''*3'', ''drop'')]"]) code_simp

theorem policy_collapses_witness:
  "collapsePolicyRead (\<lambda>d m. ([], d, m)) ((exData ''*1'' [])\<lparr>dPolicy := expandPolicy [''read'', ''api'', ''ftp''] [''read'']\<rparr>) ()
     = ([], (exData ''*1'' [])\<lparr>dPolicy := [''read'']\<rparr>, ())"
  using policy_collapses [of "\<lambda>d m. ([], d, m)" "(exData ''*1'' [])\<lparr>dPolicy := expandPolicy [''read'', ''api'', ''ftp''] [''read'']\<rparr>" "()"
      "[]" "(exData ''*1'' [])\<lparr>dPolicy := expandPolicy [''read'', ''api'', ''ftp''] [''read'']\<rparr>" "()" "[''read'', ''api'', ''ftp'']" "[''read'']"]
  by (simp add: HasError_def exData_def HasPrefix_def)

end
