(* ===== verification/Runtime_Cache.thy ===== *)
theory Runtime_Cache
  imports Prelude
begin

text \<open>
  src/internal/routerosruntime: the cache of configured upstream clients (cache.go) and the guard
  around every upstream callback (provider.go).

  The upstream package keeps the version of the router in a package variable, \<^verbatim>\<open>RouterOSVersion\<close>.
  One process serves many routers, so \<^verbatim>\<open>operationMu\<close> serialises everything that reads or writes
  it; the cache has a mutex of its own, taken first. The sequential definitions below follow the
  source; the section on interleavings cuts the three operations (a wrapped callback, Configure,
  Close) at every lock operation and at every access to the shared variable, so that the theorems
  speak of every schedule.

  The upstream provider is a parameter: what its schema says of the configuration, what Validate
  answers, and what Configure does: the diagnostics, the client and the version it leaves in the
  package variable. JSON encoding and SHA-256 are a parameter too, the key of a configuration.
\<close>

section \<open>Configuration values\<close>

text \<open>A \<^verbatim>\<open>float64\<close> is \<open>m * 2 ^ e\<close> with integers \<open>m\<close> and \<open>e\<close>, an infinity, or not a number.\<close>

datatype float64 = Finite int int | Infinite bool | NaN

datatype any =
    VNil
  | VString string
  | VBool bool
  | VInt int
  | VFloat float64
  | VNumber string
  | VOther string

datatype ValueType = TypeString | TypeBool | TypeInt | TypeOther

datatype config_error =
    ExpectedString any
  | ExpectedBoolean any
  | ExpectedInteger any
  | ParseBoolError string
  | AtoiError num_error

text \<open>
  \<^verbatim>\<open>int(v)\<close> truncates towards zero; out of the range of int64, and for infinities and NaN, the
  language leaves the result to the implementation, which on amd64 is the smallest int64. The
  comparison \<^verbatim>\<open>v != float64(int(v))\<close> is made on the exact values: an integer that truncation
  yields from a float64 is a float64 again.
\<close>

fun trunc_float :: "float64 \<Rightarrow> int" where
  "trunc_float (Finite m e) =
     (let t = (if 0 \<le> e then m * 2 ^ nat e else sgn m * (\<bar>m\<bar> div 2 ^ nat (- e)))
      in if in_int64 t then t else - (2 ^ 63))"
| "trunc_float _ = - (2 ^ 63)"

fun float_is_int :: "float64 \<Rightarrow> int \<Rightarrow> bool" where
  "float_is_int (Finite m e) n \<longleftrightarrow> (if 0 \<le> e then m * 2 ^ nat e = n else m = n * 2 ^ nat (- e))"
| "float_is_int _ n \<longleftrightarrow> False"

definition Atoi :: "string \<Rightarrow> config_error + int" where
  "Atoi s = (case ParseInt s 10 of Inl e \<Rightarrow> Inl (AtoiError e) | Inr n \<Rightarrow> Inr n)"

definition ParseBool :: "string \<Rightarrow> config_error + bool" where
  "ParseBool s =
     (if s \<in> {''1'', ''t'', ''T'', ''true'', ''TRUE'', ''True''} then Inr True
      else if s \<in> {''0'', ''f'', ''F'', ''false'', ''FALSE'', ''False''} then Inr False
      else Inl (ParseBoolError s))"

definition toString :: "any \<Rightarrow> config_error + string" where
  "toString v = (case v of VString s \<Rightarrow> Inr s | _ \<Rightarrow> Inl (ExpectedString v))"

definition toBool :: "any \<Rightarrow> config_error + bool" where
  "toBool v = (case v of VBool b \<Rightarrow> Inr b | VString s \<Rightarrow> ParseBool s | _ \<Rightarrow> Inl (ExpectedBoolean v))"

definition toInt :: "any \<Rightarrow> config_error + int" where
  "toInt v =
     (case v of
        VInt n \<Rightarrow> Inr n
      | VFloat f \<Rightarrow> if \<not> float_is_int f (trunc_float f) then Inl (ExpectedInteger v) else Inr (trunc_float f)
      | VNumber s \<Rightarrow> Atoi s
      | VString s \<Rightarrow> Atoi s
      | _ \<Rightarrow> Inl (ExpectedInteger v))"

definition normalizeValue :: "ValueType option \<Rightarrow> any \<Rightarrow> config_error + any" where
  "normalizeValue s v =
     (case s of
        None \<Rightarrow> Inr v
      | Some t \<Rightarrow>
          if v = VNil then Inr VNil
          else (case t of
                  TypeString \<Rightarrow> (case toString v of Inl e \<Rightarrow> Inl e | Inr x \<Rightarrow> Inr (VString x))
                | TypeBool \<Rightarrow> (case toBool v of Inl e \<Rightarrow> Inl e | Inr x \<Rightarrow> Inr (VBool x))
                | TypeInt \<Rightarrow> (case toInt v of Inl e \<Rightarrow> Inl e | Inr x \<Rightarrow> Inr (VInt x))
                | TypeOther \<Rightarrow> Inr v))"

text \<open>
  \<^verbatim>\<open>range\<close> over a Go map visits the keys in an unspecified order, so the order is an argument;
  the field of the error is the first bad one in that order.
\<close>

fun normalizeLoop ::
  "ValueType go_map \<Rightarrow> any go_map \<Rightarrow> string list \<Rightarrow> any go_map \<Rightarrow> (string \<times> config_error) + any go_map" where
  "normalizeLoop S conf [] result = Inr result"
| "normalizeLoop S conf (k # ks) result =
     (case normalizeValue (fmlookup S k) (lookup_default VNil conf k) of
        Inl e \<Rightarrow> Inl (k, e)
      | Inr v \<Rightarrow> normalizeLoop S conf ks (fmupd k v result))"

definition normalizeConfiguration ::
  "string list \<Rightarrow> any go_map \<Rightarrow> ValueType go_map \<Rightarrow> (string \<times> config_error) + any go_map" where
  "normalizeConfiguration order conf S = normalizeLoop S conf order fmempty"

section \<open>Diagnostics\<close>

datatype diag_severity = diag_Error | diag_Warning

record diagnostic =
  Severity :: diag_severity
  Summary :: string
  Detail :: string

definition diags_HasError :: "diagnostic list \<Rightarrow> bool" where
  "diags_HasError ds \<longleftrightarrow> list_ex (\<lambda>d. Severity d = diag_Error) ds"

definition diagMessage :: "diagnostic \<Rightarrow> string" where
  "diagMessage d =
     (if Detail d \<noteq> [] \<and> Detail d \<noteq> Summary d then Summary d @ '': '' @ Detail d else Summary d)"

definition diagnosticsError :: "string \<Rightarrow> diagnostic list \<Rightarrow> string" where
  "diagnosticsError prefix ds =
     prefix @ '': '' @ Join (map diagMessage (filter (\<lambda>d. Severity d = diag_Error) ds)) ''; ''"

section \<open>The guard\<close>

record 'c Meta =
  mClient :: "'c option"
  mVersion :: string

text \<open>
  What stands in the position of \<^verbatim>\<open>meta any\<close>: a \<^verbatim>\<open>*Meta\<close>, possibly nil, the upstream client, or
  a value of another type.
\<close>

datatype 'c meta_arg = MetaPtr "'c Meta option" | MetaClient 'c | MetaOther string

text \<open>
  The state a callback of one goroutine sees: \<^verbatim>\<open>operationMu\<close>, the package variable of the upstream,
  and everything else the callbacks change. Locking a mutex that is held blocks; for a single
  goroutine that is for ever, and the value is \<^const>\<open>None\<close>.
\<close>

record 'w guarded =
  operationMu :: bool
  RouterOSVersion :: string
  world :: 'w

datatype go_error = UnexpectedMetadata | OperationError string

definition usable :: "'c meta_arg \<Rightarrow> ('c Meta \<times> 'c) option" where
  "usable meta =
     (case meta of
        MetaPtr (Some m) \<Rightarrow> (case mClient m of Some c \<Rightarrow> Some (m, c) | None \<Rightarrow> None)
      | _ \<Rightarrow> None)"

definition acquireMeta :: "'c meta_arg \<Rightarrow> 'w guarded \<Rightarrow> ((go_error + 'c) \<times> 'w guarded) option" where
  "acquireMeta meta g =
     (case usable meta of
        None \<Rightarrow> Some (Inl UnexpectedMetadata, g)
      | Some (m, c) \<Rightarrow>
          if operationMu g then None
          else Some (Inr c, g\<lparr>operationMu := True, RouterOSVersion := mVersion m\<rparr>))"

text \<open>
  A callback of a resource, over its own argument (\<^verbatim>\<open>d\<close>), the value in the position of \<^verbatim>\<open>meta\<close> and
  the state. A panic of the upstream, which the deferred unlock would survive, is not modelled.
\<close>

type_synonym ('d, 'c, 'r, 'w) callback = "'d \<Rightarrow> 'c meta_arg \<Rightarrow> 'w guarded \<Rightarrow> ('r \<times> 'd \<times> 'w guarded) option"

text \<open>
  \<^verbatim>\<open>withMetaError\<close> and the body of \<^verbatim>\<open>wrapContextFunc\<close> differ only in how they report the error of
  \<^verbatim>\<open>acquireMeta\<close>.
\<close>

definition withMeta :: "(go_error \<Rightarrow> 'r) \<Rightarrow> ('d, 'c, 'r, 'w) callback \<Rightarrow> ('d, 'c, 'r, 'w) callback" where
  "withMeta fromErr call d meta g =
     (case acquireMeta meta g of
        None \<Rightarrow> None
      | Some (Inl err, g1) \<Rightarrow> Some (fromErr err, d, g1)
      | Some (Inr c, g1) \<Rightarrow>
          (case call d (MetaClient c) g1 of
             None \<Rightarrow> None
           | Some (r, d', g2) \<Rightarrow> Some (r, d', g2\<lparr>operationMu := False\<rparr>)))"

definition withMetaError :: "('d, 'c, go_error option, 'w) callback \<Rightarrow> ('d, 'c, go_error option, 'w) callback" where
  "withMetaError call = withMeta Some call"

definition guardMessage :: "go_error \<Rightarrow> diagnostic list" where
  "guardMessage e = [\<lparr>Severity = diag_Error,
     Summary = (case e of UnexpectedMetadata \<Rightarrow> ''unexpected RouterOS provider metadata'' | OperationError s \<Rightarrow> s), Detail = []\<rparr>]"

definition wrapContextFunc ::
  "('d, 'c, diagnostic list, 'w) callback option \<Rightarrow> ('d, 'c, diagnostic list, 'w) callback option" where
  "wrapContextFunc original = map_option (withMeta guardMessage) original"

definition wrapExists ::
  "('d, 'c, bool \<times> go_error option, 'w) callback \<Rightarrow> ('d, 'c, bool \<times> go_error option, 'w) callback" where
  "wrapExists original = withMeta (\<lambda>e. (False, Some e)) original"

record ('d, 'f, 'c, 'w) resource =
  rCreate :: "('d, 'c, go_error option, 'w) callback option"
  rRead :: "('d, 'c, go_error option, 'w) callback option"
  rUpdate :: "('d, 'c, go_error option, 'w) callback option"
  rDelete :: "('d, 'c, go_error option, 'w) callback option"
  rExists :: "('d, 'c, bool \<times> go_error option, 'w) callback option"
  CreateContext :: "('d, 'c, diagnostic list, 'w) callback option"
  ReadContext :: "('d, 'c, diagnostic list, 'w) callback option"
  UpdateContext :: "('d, 'c, diagnostic list, 'w) callback option"
  DeleteContext :: "('d, 'c, diagnostic list, 'w) callback option"
  CreateWithoutTimeout :: "('d, 'c, diagnostic list, 'w) callback option"
  ReadWithoutTimeout :: "('d, 'c, diagnostic list, 'w) callback option"
  UpdateWithoutTimeout :: "('d, 'c, diagnostic list, 'w) callback option"
  DeleteWithoutTimeout :: "('d, 'c, diagnostic list, 'w) callback option"
  CustomizeDiff :: "('f, 'c, go_error option, 'w) callback option"

definition wrapResource :: "('d, 'f, 'c, 'w) resource \<Rightarrow> ('d, 'f, 'c, 'w) resource" where
  "wrapResource r =
     \<lparr>rCreate = map_option withMetaError (rCreate r),
      rRead = map_option withMetaError (rRead r),
      rUpdate = map_option withMetaError (rUpdate r),
      rDelete = map_option withMetaError (rDelete r),
      rExists = map_option wrapExists (rExists r),
      CreateContext = wrapContextFunc (CreateContext r),
      ReadContext = wrapContextFunc (ReadContext r),
      UpdateContext = wrapContextFunc (UpdateContext r),
      DeleteContext = wrapContextFunc (DeleteContext r),
      CreateWithoutTimeout = wrapContextFunc (CreateWithoutTimeout r),
      ReadWithoutTimeout = wrapContextFunc (ReadWithoutTimeout r),
      UpdateWithoutTimeout = wrapContextFunc (UpdateWithoutTimeout r),
      DeleteWithoutTimeout = wrapContextFunc (DeleteWithoutTimeout r),
      CustomizeDiff = map_option withMetaError (CustomizeDiff r)\<rparr>"

text \<open>The upstream builds a new resource for every name of its map, so no two entries share one.\<close>

definition WrapProvider :: "('d, 'f, 'c, 'w) resource go_map \<Rightarrow> ('d, 'f, 'c, 'w) resource go_map" where
  "WrapProvider rs = fmmap wrapResource rs"

section \<open>The cache\<close>

text \<open>
  The upstream provider the factory returns, with what its \<^verbatim>\<open>Configure\<close> leaves in the package
  variable (\<^const>\<open>None\<close>: as it was), and how a client is closed: an API client may fail, a REST
  client drops its idle connections.
\<close>

record ('c, 'w) provider =
  pSchema :: "ValueType go_map"
  pValidate :: "any go_map \<Rightarrow> diagnostic list"
  pConfigure :: "any go_map \<Rightarrow> 'w \<Rightarrow> (diagnostic list \<times> 'c option \<times> string option) \<times> 'w"
  pClose :: "'c \<Rightarrow> 'w \<Rightarrow> string option \<times> 'w"
  pKey :: "any go_map \<Rightarrow> string + string"

datatype cache_error =
    BadField string config_error
  | CannotEncode string
  | CacheClosed
  | CacheFailed string
  | UnexpectedClient

text \<open>
  The memory the operations share: the map of the cache (\<^const>\<open>None\<close>: the nil map Close leaves), its
  flag, the package variable and the rest of the world.
\<close>

record ('c, 'w) shared =
  clients :: "'c Meta go_map option"
  closed :: bool
  version :: string
  sworld :: 'w

definition newClientCache :: "string \<Rightarrow> 'w \<Rightarrow> ('c, 'w) shared" where
  "newClientCache v w = \<lparr>clients = Some fmempty, closed = False, version = v, sworld = w\<rparr>"

definition prepare :: "('c, 'w) provider \<Rightarrow> string list \<Rightarrow> any go_map \<Rightarrow> cache_error + (string \<times> any go_map)" where
  "prepare P order conf =
     (case normalizeConfiguration order conf (pSchema P) of
        Inl (k, e) \<Rightarrow> Inl (BadField k e)
      | Inr normalized \<Rightarrow>
          (case pKey P normalized of
             Inl e \<Rightarrow> Inl (CannotEncode e)
           | Inr key \<Rightarrow> Inr (key, normalized)))"

definition cached :: "('c, 'w) shared \<Rightarrow> string \<Rightarrow> 'c Meta option" where
  "cached s key = (case clients s of None \<Rightarrow> None | Some cs \<Rightarrow> fmlookup cs key)"

text \<open>\<^verbatim>\<open>p.Validate\<close>, \<^verbatim>\<open>p.Configure\<close> and the type assertion on \<^verbatim>\<open>p.Meta()\<close>.\<close>

definition configureUpstream ::
  "('c, 'w) provider \<Rightarrow> any go_map \<Rightarrow> ('c, 'w) shared \<Rightarrow> (cache_error + 'c) \<times> ('c, 'w) shared" where
  "configureUpstream P normalized s =
     (let ds = pValidate P normalized
      in if diags_HasError ds
         then (Inl (CacheFailed (diagnosticsError ''invalid RouterOS provider configuration'' ds)), s)
         else (case pConfigure P normalized (sworld s) of
                 ((ds', client, v), w') \<Rightarrow>
                   let s' = s\<lparr>version := (case v of Some x \<Rightarrow> x | None \<Rightarrow> version s), sworld := w'\<rparr>
                   in if diags_HasError ds'
                      then (Inl (CacheFailed (diagnosticsError ''cannot configure RouterOS provider'' ds')), s')
                      else (case client of
                              None \<Rightarrow> (Inl UnexpectedClient, s')
                            | Some c \<Rightarrow> (Inr c, s'))))"

text \<open>
  \<^verbatim>\<open>m := &Meta{Client: client, Version: routeros.RouterOSVersion}; c.clients[key] = m\<close>; assigning to
  an entry of the nil map panics, which is \<^const>\<open>None\<close>.
\<close>

definition store :: "string \<Rightarrow> 'c \<Rightarrow> ('c, 'w) shared \<Rightarrow> ('c Meta \<times> ('c, 'w) shared) option" where
  "store key c s =
     (let m = \<lparr>mClient = Some c, mVersion = version s\<rparr>
      in case clients s of
           None \<Rightarrow> None
         | Some cs \<Rightarrow> Some (m, s\<lparr>clients := Some (fmupd key m cs)\<rparr>))"

definition Configure ::
  "('c, 'w) provider \<Rightarrow> string list \<Rightarrow> any go_map \<Rightarrow> ('c, 'w) shared
   \<Rightarrow> ((cache_error + 'c Meta) \<times> ('c, 'w) shared) option" where
  "Configure P order conf s =
     (case prepare P order conf of
        Inl e \<Rightarrow> Some (Inl e, s)
      | Inr (key, normalized) \<Rightarrow>
          if closed s then Some (Inl CacheClosed, s)
          else (case cached s key of
                  Some m \<Rightarrow> Some (Inr m, s)
                | None \<Rightarrow>
                    (case configureUpstream P normalized s of
                       (Inl e, s') \<Rightarrow> Some (Inl e, s')
                     | (Inr c, s') \<Rightarrow> map_option (\<lambda>(m, s''). (Inr m, s'')) (store key c s'))))"

fun closeLoop :: "('c, 'w) provider \<Rightarrow> 'c Meta go_map \<Rightarrow> string list \<Rightarrow> 'w \<Rightarrow> string list \<times> 'w" where
  "closeLoop P cs [] w = ([], w)"
| "closeLoop P cs (k # ks) w =
     (case Option.bind (fmlookup cs k) mClient of
        None \<Rightarrow> closeLoop P cs ks w
      | Some c \<Rightarrow>
          (case pClose P c w of
             (err, w') \<Rightarrow>
               (case closeLoop P cs ks w' of
                  (errs, w'') \<Rightarrow> ((case err of Some e \<Rightarrow> e # errs | None \<Rightarrow> errs), w''))))"

definition closeAll :: "('c, 'w) provider \<Rightarrow> string list \<Rightarrow> ('c, 'w) shared \<Rightarrow> string option \<times> ('c, 'w) shared" where
  "closeAll P order s =
     (case closeLoop P (case clients s of None \<Rightarrow> fmempty | Some cs \<Rightarrow> cs) order (sworld s) of
        (errs, w) \<Rightarrow>
          ((if errs = [] then None else Some (''cannot close RouterOS clients: '' @ Join errs ''; '')),
           s\<lparr>clients := None, sworld := w\<rparr>))"

definition Close :: "('c, 'w) provider \<Rightarrow> string list \<Rightarrow> ('c, 'w) shared \<Rightarrow> string option \<times> ('c, 'w) shared" where
  "Close P order s = (if closed s then (None, s) else closeAll P order (s\<lparr>closed := True\<rparr>))"

section \<open>Interleavings\<close>

text \<open>
  The operations of one goroutine, cut where others may run in between. \<^verbatim>\<open>CallStart\<close> to
  \<^verbatim>\<open>CallDone\<close> is a wrapped callback; while it runs it reads the package variable and changes the
  world as often as it likes. \<^verbatim>\<open>CfgStart\<close> to \<^verbatim>\<open>CfgDone\<close> is Configure, \<^verbatim>\<open>CloseStart\<close> to
  \<^verbatim>\<open>CloseDone\<close> is Close.
\<close>

datatype 'c pc =
    CallStart "'c meta_arg"
  | CallLocked "'c Meta"
  | CallRun "'c Meta"
  | CallDone "go_error option"
  | CfgStart "string list" "any go_map"
  | CfgHold string "any go_map"
  | CfgUp string "any go_map"
  | CfgRead string 'c
  | CfgUnlock "cache_error + 'c Meta"
  | CfgRelease "cache_error + 'c Meta"
  | CfgDone "cache_error + 'c Meta"
  | CloseStart
  | CloseHold
  | CloseMarked
  | CloseUp
  | CloseUnlock "string option"
  | CloseRelease "string option"
  | CloseDone "string option"
  | Panicked

text \<open>The goroutines by number, the holders of the two mutexes, and what running callbacks read.\<close>

record ('c, 'w) sys =
  sh :: "('c, 'w) shared"
  muHolder :: "nat option"
  opHolder :: "nat option"
  pcs :: "nat \<Rightarrow> 'c pc"
  readings :: "('c Meta \<times> string) list"

definition goto :: "nat \<Rightarrow> 'c pc \<Rightarrow> ('c, 'w) sys \<Rightarrow> ('c, 'w) sys" where
  "goto t p s = s\<lparr>pcs := (pcs s)(t := p)\<rparr>"

definition key_order :: "'c Meta go_map option \<Rightarrow> string list \<Rightarrow> bool" where
  "key_order cs order \<longleftrightarrow>
     distinct order \<and> set order = (case cs of None \<Rightarrow> {} | Some m \<Rightarrow> fmdom' m)"

inductive step_to :: "('c, 'w) provider \<Rightarrow> nat \<Rightarrow> ('c, 'w) sys \<Rightarrow> ('c, 'w) sys \<Rightarrow> bool" for P t where
  call_reject: "pcs s t = CallStart meta \<Longrightarrow> usable meta = None
    \<Longrightarrow> step_to P t s (goto t (CallDone (Some UnexpectedMetadata)) s)"
| call_lock: "pcs s t = CallStart meta \<Longrightarrow> usable meta = Some (m, c) \<Longrightarrow> opHolder s = None
    \<Longrightarrow> step_to P t s (goto t (CallLocked m) (s\<lparr>opHolder := Some t\<rparr>))"
| call_set: "pcs s t = CallLocked m
    \<Longrightarrow> step_to P t s (goto t (CallRun m) (s\<lparr>sh := (sh s)\<lparr>version := mVersion m\<rparr>\<rparr>))"
| call_return: "pcs s t = CallRun m
    \<Longrightarrow> step_to P t s (goto t (CallDone err) (s\<lparr>opHolder := None\<rparr>))"
| cfg_reject: "pcs s t = CfgStart order conf \<Longrightarrow> prepare P order conf = Inl e
    \<Longrightarrow> step_to P t s (goto t (CfgDone (Inl e)) s)"
| cfg_lock: "pcs s t = CfgStart order conf \<Longrightarrow> prepare P order conf = Inr (key, normalized) \<Longrightarrow> muHolder s = None
    \<Longrightarrow> step_to P t s (goto t (CfgHold key normalized) (s\<lparr>muHolder := Some t\<rparr>))"
| cfg_closed: "pcs s t = CfgHold key normalized \<Longrightarrow> closed (sh s)
    \<Longrightarrow> step_to P t s (goto t (CfgRelease (Inl CacheClosed)) s)"
| cfg_hit: "pcs s t = CfgHold key normalized \<Longrightarrow> \<not> closed (sh s) \<Longrightarrow> cached (sh s) key = Some m
    \<Longrightarrow> step_to P t s (goto t (CfgRelease (Inr m)) s)"
| cfg_miss: "pcs s t = CfgHold key normalized \<Longrightarrow> \<not> closed (sh s) \<Longrightarrow> cached (sh s) key = None \<Longrightarrow> opHolder s = None
    \<Longrightarrow> step_to P t s (goto t (CfgUp key normalized) (s\<lparr>opHolder := Some t\<rparr>))"
| cfg_fail: "pcs s t = CfgUp key normalized \<Longrightarrow> configureUpstream P normalized (sh s) = (Inl e, x)
    \<Longrightarrow> step_to P t s (goto t (CfgUnlock (Inl e)) (s\<lparr>sh := x\<rparr>))"
| cfg_up: "pcs s t = CfgUp key normalized \<Longrightarrow> configureUpstream P normalized (sh s) = (Inr c, x)
    \<Longrightarrow> step_to P t s (goto t (CfgRead key c) (s\<lparr>sh := x\<rparr>))"
| cfg_store: "pcs s t = CfgRead key c \<Longrightarrow> store key c (sh s) = Some (m, x)
    \<Longrightarrow> step_to P t s (goto t (CfgUnlock (Inr m)) (s\<lparr>sh := x\<rparr>))"
| cfg_panic: "pcs s t = CfgRead key c \<Longrightarrow> store key c (sh s) = None
    \<Longrightarrow> step_to P t s (goto t Panicked (s\<lparr>opHolder := None, muHolder := None\<rparr>))"
| cfg_unlock: "pcs s t = CfgUnlock r
    \<Longrightarrow> step_to P t s (goto t (CfgRelease r) (s\<lparr>opHolder := None\<rparr>))"
| cfg_release: "pcs s t = CfgRelease r
    \<Longrightarrow> step_to P t s (goto t (CfgDone r) (s\<lparr>muHolder := None\<rparr>))"
| close_lock: "pcs s t = CloseStart \<Longrightarrow> muHolder s = None
    \<Longrightarrow> step_to P t s (goto t CloseHold (s\<lparr>muHolder := Some t\<rparr>))"
| close_again: "pcs s t = CloseHold \<Longrightarrow> closed (sh s)
    \<Longrightarrow> step_to P t s (goto t (CloseRelease None) s)"
| close_mark: "pcs s t = CloseHold \<Longrightarrow> \<not> closed (sh s)
    \<Longrightarrow> step_to P t s (goto t CloseMarked (s\<lparr>sh := (sh s)\<lparr>closed := True\<rparr>\<rparr>))"
| close_wait: "pcs s t = CloseMarked \<Longrightarrow> opHolder s = None
    \<Longrightarrow> step_to P t s (goto t CloseUp (s\<lparr>opHolder := Some t\<rparr>))"
| close_all: "pcs s t = CloseUp \<Longrightarrow> key_order (clients (sh s)) order \<Longrightarrow> closeAll P order (sh s) = (err, x)
    \<Longrightarrow> step_to P t s (goto t (CloseUnlock err) (s\<lparr>sh := x\<rparr>))"
| close_unlock: "pcs s t = CloseUnlock err
    \<Longrightarrow> step_to P t s (goto t (CloseRelease err) (s\<lparr>opHolder := None\<rparr>))"
| close_release: "pcs s t = CloseRelease err
    \<Longrightarrow> step_to P t s (goto t (CloseDone err) (s\<lparr>muHolder := None\<rparr>))"

text \<open>A running callback reads the package variable and changes the world. A run counts the other steps.\<close>

inductive work :: "nat \<Rightarrow> ('c, 'w) sys \<Rightarrow> ('c, 'w) sys \<Rightarrow> bool" for t where
  "pcs s t = CallRun m
    \<Longrightarrow> work t s (s\<lparr>sh := (sh s)\<lparr>sworld := w\<rparr>, readings := readings s @ [(m, version (sh s))]\<rparr>)"

inductive run :: "('c, 'w) provider \<Rightarrow> nat \<Rightarrow> ('c, 'w) sys \<Rightarrow> ('c, 'w) sys \<Rightarrow> bool" for P where
  run_refl: "run P 0 s s"
| run_step: "run P k s s1 \<Longrightarrow> step_to P t s1 s2 \<Longrightarrow> run P (Suc k) s s2"
| run_work: "run P k s s1 \<Longrightarrow> work t s1 s2 \<Longrightarrow> run P k s s2"

fun at_start :: "'c pc \<Rightarrow> bool" where
  "at_start (CallStart _) = True"
| "at_start (CfgStart _ _) = True"
| "at_start CloseStart = True"
| "at_start _ = False"

fun finished :: "'c pc \<Rightarrow> bool" where
  "finished (CallDone _) = True"
| "finished (CfgDone _) = True"
| "finished (CloseDone _) = True"
| "finished _ = False"

text \<open>A fresh cache, both mutexes free, and any operations about to start; the goroutines that are not used are done.\<close>

definition initial :: "('c, 'w) sys \<Rightarrow> bool" where
  "initial s \<longleftrightarrow> (\<exists>v w. sh s = newClientCache v w) \<and> muHolder s = None \<and> opHolder s = None
     \<and> (\<forall>t. at_start (pcs s t) \<or> finished (pcs s t) \<and> (\<forall>r. pcs s t \<noteq> CfgDone r)) \<and> readings s = []"


section \<open>Mutual exclusion\<close>

fun holds_mu :: "'c pc \<Rightarrow> bool" where
  "holds_mu (CfgHold _ _) = True"
| "holds_mu (CfgUp _ _) = True"
| "holds_mu (CfgRead _ _) = True"
| "holds_mu (CfgUnlock _) = True"
| "holds_mu (CfgRelease _) = True"
| "holds_mu CloseHold = True"
| "holds_mu CloseMarked = True"
| "holds_mu CloseUp = True"
| "holds_mu (CloseUnlock _) = True"
| "holds_mu (CloseRelease _) = True"
| "holds_mu _ = False"

fun holds_op :: "'c pc \<Rightarrow> bool" where
  "holds_op (CallLocked _) = True"
| "holds_op (CallRun _) = True"
| "holds_op (CfgUp _ _) = True"
| "holds_op (CfgRead _ _) = True"
| "holds_op (CfgUnlock _) = True"
| "holds_op CloseUp = True"
| "holds_op (CloseUnlock _) = True"
| "holds_op _ = False"

definition excl :: "('p \<Rightarrow> bool) \<Rightarrow> (nat \<Rightarrow> 'p) \<Rightarrow> nat option \<Rightarrow> bool" where
  "excl h ps holder \<longleftrightarrow> (\<forall>t. h (ps t) \<longleftrightarrow> holder = Some t)"

lemma excl_take: "excl h ps None \<Longrightarrow> h p \<Longrightarrow> excl h (ps(t := p)) (Some t)"
  by (auto simp: excl_def)

lemma excl_drop: "excl h ps holder \<Longrightarrow> h (ps t) \<Longrightarrow> \<not> h p \<Longrightarrow> excl h (ps(t := p)) None"
  by (auto simp: excl_def)

lemma excl_keep: "excl h ps holder \<Longrightarrow> h p = h (ps t) \<Longrightarrow> excl h (ps(t := p)) holder"
  by (auto simp: excl_def)

lemma excl_unique: "excl h ps holder \<Longrightarrow> h (ps t) \<Longrightarrow> h (ps u) \<Longrightarrow> t = u"
  by (auto simp: excl_def)

lemmas excl_intros = excl_take excl_drop excl_keep

definition locks :: "('c, 'w) sys \<Rightarrow> bool" where
  "locks s \<longleftrightarrow> excl holds_mu (pcs s) (muHolder s) \<and> excl holds_op (pcs s) (opHolder s)"

lemma locks_step: "step_to P t s s' \<Longrightarrow> locks s \<Longrightarrow> locks s'"
  unfolding locks_def goto_def
  by (induction rule: step_to.induct) (auto simp: goto_def intro: excl_keep excl_take elim: excl_drop)

text \<open>The cache has its map as long as it is not closed, and it is open while a Configure is under way.\<close>

definition map_ok :: "('c, 'w) sys \<Rightarrow> bool" where
  "map_ok s \<longleftrightarrow>
     (closed (sh s) \<or> clients (sh s) \<noteq> None)
     \<and> (\<forall>t. (\<exists>k n. pcs s t = CfgUp k n) \<or> (\<exists>k c. pcs s t = CfgRead k c) \<longrightarrow> \<not> closed (sh s))
     \<and> (\<forall>t. pcs s t = CloseMarked \<or> pcs s t = CloseUp \<longrightarrow> closed (sh s))
     \<and> (\<forall>t. pcs s t \<noteq> Panicked)"

lemma configureUpstream_frame:
  "configureUpstream P n x = (r, x') \<Longrightarrow> clients x' = clients x \<and> closed x' = closed x"
  by (auto simp: configureUpstream_def Let_def split: if_splits prod.splits option.splits)

lemma closeAll_frame: "closeAll P order x = (r, x') \<Longrightarrow> closed x' = closed x \<and> version x' = version x \<and> clients x' = None"
  by (auto simp: closeAll_def split: prod.splits)

lemma store_frame:
  "store k c x = Some (m, x') \<Longrightarrow>
     closed x' = closed x \<and> version x' = version x \<and> m = \<lparr>mClient = Some c, mVersion = version x\<rparr>
     \<and> (\<exists>cs. clients x = Some cs \<and> clients x' = Some (fmupd k m cs))"
  by (auto simp: store_def Let_def split: option.splits)

lemma store_None: "store k c x = None \<Longrightarrow> clients x = None"
  by (auto simp: store_def Let_def split: option.splits)

lemma other_holder:
  assumes "locks s" and "holds_mu (pcs s t)" and "holds_mu (pcs s u)"
  shows "u = t"
  using assms by (auto simp: locks_def dest: excl_unique)

lemma map_ok_step: "step_to P t s s' \<Longrightarrow> locks s \<Longrightarrow> map_ok s \<Longrightarrow> map_ok s'"
proof (induction rule: step_to.induct)
  case (close_mark s)
  have "u = t" if "(\<exists>k n. pcs s u = CfgUp k n) \<or> (\<exists>k c. pcs s u = CfgRead k c)" for u
    using close_mark that by (intro other_holder [where s = s]) auto
  then show ?case using close_mark by (auto simp: map_ok_def goto_def)
next
  case (cfg_panic s key c)
  then show ?case by (auto simp: map_ok_def dest: store_None)
qed (auto simp: map_ok_def goto_def dest!: configureUpstream_frame closeAll_frame store_frame split: if_splits)

section \<open>The version a callback sees\<close>

text \<open>Only the goroutine that holds \<^verbatim>\<open>operationMu\<close> changes the package variable.\<close>

lemma version_guarded:
  assumes "step_to P t s s'" and "version (sh s') \<noteq> version (sh s)"
  shows "holds_op (pcs s t)"
  using assms by (cases rule: step_to.cases) (auto simp: goto_def dest: closeAll_frame store_frame)

lemma step_others: "step_to P t s s' \<Longrightarrow> u \<noteq> t \<Longrightarrow> pcs s' u = pcs s u"
  by (induction rule: step_to.induct) (auto simp: goto_def)

lemma step_readings: "step_to P t s s' \<Longrightarrow> readings s' = readings s"
  by (induction rule: step_to.induct) (auto simp: goto_def)

lemma other_op_holder:
  assumes "locks s" and "holds_op (pcs s t)" and "holds_op (pcs s u)"
  shows "u = t"
  using assms by (auto simp: locks_def dest: excl_unique)

definition versioned :: "('c, 'w) sys \<Rightarrow> bool" where
  "versioned s \<longleftrightarrow> (\<forall>t m. pcs s t = CallRun m \<longrightarrow> version (sh s) = mVersion m)
     \<and> (\<forall>(m, v) \<in> set (readings s). v = mVersion m)"

lemma enters_run: "step_to P t s s' \<Longrightarrow> pcs s' t = CallRun m \<Longrightarrow> version (sh s') = mVersion m"
  by (induction rule: step_to.induct) (auto simp: goto_def)

lemma versioned_step:
  assumes "step_to P t s s'" and "locks s" and "versioned s"
  shows "versioned s'"
proof -
  have "version (sh s') = mVersion m" if m: "pcs s' u = CallRun m" for u m
  proof (cases "u = t")
    case True
    then show ?thesis using enters_run assms(1) m by blast
  next
    case False
    then have before: "pcs s u = CallRun m" using step_others [OF assms(1)] m by simp
    then have "\<not> holds_op (pcs s t)" using other_op_holder [OF assms(2)] False by fastforce
    then have "version (sh s') = version (sh s)" using version_guarded [OF assms(1)] by blast
    then show ?thesis using before assms(3) by (simp add: versioned_def)
  qed
  then show ?thesis using assms(3) step_readings [OF assms(1)] by (simp add: versioned_def)
qed

lemma work_frame:
  "work t s s' \<Longrightarrow> pcs s' = pcs s \<and> muHolder s' = muHolder s \<and> opHolder s' = opHolder s
     \<and> version (sh s') = version (sh s) \<and> clients (sh s') = clients (sh s) \<and> closed (sh s') = closed (sh s)"
  by (induction rule: work.induct) simp

lemma versioned_work: "work t s s' \<Longrightarrow> versioned s \<Longrightarrow> versioned s'"
  by (induction rule: work.induct) (auto simp: versioned_def)

section \<open>What the cache hands out\<close>

text \<open>
  A Meta that a Configure of the upstream for a configuration with the given key returned: its
  client, and the version that very call left in the package variable.
\<close>

definition backed :: "('c, 'w) provider \<Rightarrow> string \<Rightarrow> 'c Meta \<Rightarrow> bool" where
  "backed P key m \<longleftrightarrow>
     (\<exists>normalized w ds c w'. pKey P normalized = Inr key \<and> mClient m = Some c
        \<and> pConfigure P normalized w = ((ds, Some c, Some (mVersion m)), w') \<and> \<not> diags_HasError ds)"

text \<open>A Configure of the upstream that succeeds sets the package variable.\<close>

definition reports_version :: "('c, 'w) provider \<Rightarrow> bool" where
  "reports_version P \<longleftrightarrow>
     (\<forall>n w ds c v w'. pConfigure P n w = ((ds, Some c, v), w') \<and> \<not> diags_HasError ds \<longrightarrow> v \<noteq> None)"

definition result_backed :: "('c, 'w) provider \<Rightarrow> 'c pc \<Rightarrow> bool" where
  "result_backed P p \<longleftrightarrow>
     (\<forall>m. p = CfgUnlock (Inr m) \<or> p = CfgRelease (Inr m) \<or> p = CfgDone (Inr m) \<longrightarrow> (\<exists>key. backed P key m))"

definition handed :: "('c, 'w) provider \<Rightarrow> ('c, 'w) sys \<Rightarrow> bool" where
  "handed P s \<longleftrightarrow>
     (\<forall>key m. cached (sh s) key = Some m \<longrightarrow> backed P key m)
     \<and> (\<forall>t. result_backed P (pcs s t))
     \<and> (\<forall>t key n. pcs s t = CfgHold key n \<or> pcs s t = CfgUp key n \<longrightarrow> pKey P n = Inr key)
     \<and> (\<forall>t key c. pcs s t = CfgRead key c \<longrightarrow> backed P key \<lparr>mClient = Some c, mVersion = version (sh s)\<rparr>)"

lemma prepare_key: "prepare P order conf = Inr (key, n) \<Longrightarrow> pKey P n = Inr key"
  by (auto simp: prepare_def split: sum.splits prod.splits)

lemma configureUpstream_backed:
  assumes "configureUpstream P n x = (Inr c, x')" and "reports_version P" and "pKey P n = Inr key"
  shows "backed P key \<lparr>mClient = Some c, mVersion = version x'\<rparr>"
  using assms
  by (fastforce simp: configureUpstream_def Let_def backed_def reports_version_def
      split: if_splits prod.splits option.splits)

lemma handed_step:
  assumes "step_to P t s s'" and "locks s" and "handed P s" and "reports_version P"
  shows "handed P s'"
proof -
  have A: "backed P key m" if "cached (sh s') key = Some m" for key m
    using assms that
    by (cases rule: step_to.cases)
       (auto simp: goto_def cached_def handed_def dest!: configureUpstream_frame closeAll_frame store_frame split: if_splits)
  have B: "result_backed P (pcs s' t)"
    using assms
    by (cases rule: step_to.cases) (auto simp: goto_def handed_def result_backed_def dest!: store_frame, blast+)
  have C: "pKey P n = Inr key" if "pcs s' t = CfgHold key n \<or> pcs s' t = CfgUp key n" for key n
    using assms that by (cases rule: step_to.cases) (auto simp: goto_def handed_def dest: prepare_key)
  have D: "backed P key \<lparr>mClient = Some c, mVersion = version (sh s')\<rparr>" if "pcs s' t = CfgRead key c" for key c
    using assms that
    by (cases rule: step_to.cases) (auto simp: goto_def handed_def intro!: configureUpstream_backed)
  have E: "version (sh s') = version (sh s)" if "u \<noteq> t" "pcs s u = CfgRead key c" for u key c
  proof -
    have "\<not> holds_op (pcs s t)" using other_op_holder [OF assms(2)] that by fastforce
    then show ?thesis using version_guarded [OF assms(1)] by blast
  qed
  show ?thesis
    unfolding handed_def
  proof (intro conjI allI impI)
    show "result_backed P (pcs s' u)" for u
      using B step_others [OF assms(1), of u] assms(3) by (cases "u = t") (auto simp: handed_def)
    show "pKey P n = Inr key" if "pcs s' u = CfgHold key n \<or> pcs s' u = CfgUp key n" for u key n
      using C step_others [OF assms(1), of u] assms(3) that by (cases "u = t") (auto simp: handed_def)
    show "backed P key \<lparr>mClient = Some c, mVersion = version (sh s')\<rparr>" if "pcs s' u = CfgRead key c" for u key c
    proof (cases "u = t")
      case False
      then have "pcs s u = CfgRead key c" using step_others [OF assms(1) False] that by simp
      then show ?thesis using E [OF False] assms(3) by (simp add: handed_def)
    qed (use D that in simp)
  qed (rule A)
qed

lemma handed_work: "work t s s' \<Longrightarrow> handed P s \<Longrightarrow> handed P s'"
  using work_frame [of t s s'] by (simp add: handed_def cached_def)

section \<open>Runs\<close>

lemma initial_inv:
  assumes "initial s"
  shows "locks s \<and> map_ok s \<and> versioned s \<and> handed P s"
proof -
  have p: "(\<exists>a. pcs s t = CallStart a) \<or> (\<exists>a b. pcs s t = CfgStart a b) \<or> pcs s t = CloseStart
      \<or> (\<exists>a. pcs s t = CallDone a) \<or> (\<exists>a. pcs s t = CloseDone a)" for t
    using assms by (cases "pcs s t") (fastforce simp: initial_def dest: spec [where x = t])+
  have ne: "\<not> holds_mu (pcs s t)" "\<not> holds_op (pcs s t)" "pcs s t \<noteq> Panicked" "pcs s t \<noteq> CallRun m"
    "pcs s t \<noteq> CfgHold key n" "pcs s t \<noteq> CfgUp key n" "pcs s t \<noteq> CfgRead key c" "pcs s t \<noteq> CfgDone r"
    "pcs s t \<noteq> CfgUnlock r" "pcs s t \<noteq> CfgRelease r" "pcs s t \<noteq> CloseMarked" "pcs s t \<noteq> CloseUp" for t m key n c r
    using p [of t] by auto
  have "locks s" using assms ne by (simp add: locks_def excl_def initial_def)
  moreover have "map_ok s" using assms ne by (auto simp: map_ok_def initial_def newClientCache_def)
  moreover have "versioned s" using assms ne by (auto simp: versioned_def initial_def)
  moreover have "cached (sh s) key = None" for key using assms by (auto simp: initial_def newClientCache_def cached_def)
  then have "handed P s" using ne by (simp add: handed_def result_backed_def)
  ultimately show ?thesis by blast
qed

lemma run_inv:
  assumes "run P k s0 s" and "initial s0"
  shows "locks s \<and> map_ok s \<and> versioned s"
  using assms
proof (induction rule: run.induct)
  case (run_refl s)
  then show ?case using initial_inv by blast
next
  case (run_step k s s1 t s2)
  then show ?case using locks_step map_ok_step versioned_step by blast
next
  case (run_work k s s1 t s2)
  then show ?case using work_frame [OF run_work.hyps(2)] versioned_work by (auto simp: locks_def map_ok_def)
qed

lemma run_handed:
  assumes "run P k s0 s" and "initial s0" and "reports_version P"
  shows "handed P s"
  using assms
proof (induction rule: run.induct)
  case (run_refl s)
  then show ?case using initial_inv by blast
next
  case (run_step k s s1 t s2)
  then show ?case using handed_step run_inv by blast
next
  case (run_work k s s1 t s2)
  then show ?case using handed_work by blast
qed

fun remaining :: "'c pc \<Rightarrow> nat" where
  "remaining (CallStart _) = 3"
| "remaining (CallLocked _) = 2"
| "remaining (CallRun _) = 1"
| "remaining (CfgStart _ _) = 6"
| "remaining (CfgHold _ _) = 5"
| "remaining (CfgUp _ _) = 4"
| "remaining (CfgRead _ _) = 3"
| "remaining (CfgUnlock _) = 2"
| "remaining (CfgRelease _) = 1"
| "remaining CloseStart = 6"
| "remaining CloseHold = 5"
| "remaining CloseMarked = 4"
| "remaining CloseUp = 3"
| "remaining (CloseUnlock _) = 2"
| "remaining (CloseRelease _) = 1"
| "remaining _ = 0"

lemma remaining_step: "step_to P t s s' \<Longrightarrow> remaining (pcs s' t) < remaining (pcs s t)"
  by (induction rule: step_to.induct) (auto simp: goto_def)

lemma remaining_le: "remaining p \<le> 6"
  by (cases p) auto

lemma remaining_0: "remaining p = 0 \<longleftrightarrow> finished p \<or> p = Panicked"
  by (cases p) auto

lemma sum_step:
  assumes "step_to P t s s'" and "\<And>u. n \<le> u \<Longrightarrow> remaining (pcs s u) = 0"
  shows "(\<Sum>u < n. remaining (pcs s' u)) < (\<Sum>u < n. remaining (pcs s u))"
proof -
  have lt: "remaining (pcs s' t) < remaining (pcs s t)" by (rule remaining_step [OF assms(1)])
  then have "t < n" using assms(2) [of t] by (cases "t < n") auto
  have "remaining (pcs s' u) \<le> remaining (pcs s u)" for u
    using lt step_others [OF assms(1), of u] by (cases "u = t") auto
  then show ?thesis using lt \<open>t < n\<close> by (intro sum_strict_mono_ex1) auto
qed

lemma idle_stays:
  assumes "run P k s0 s" and "\<And>u. n \<le> u \<Longrightarrow> remaining (pcs s0 u) = 0" and "n \<le> u"
  shows "remaining (pcs s u) = 0"
  using assms
proof (induction rule: run.induct)
  case (run_step k s s1 t s2)
  then have "remaining (pcs s1 u) = 0" by blast
  then have "u \<noteq> t" using remaining_step [OF run_step.hyps(2)] by auto
  then show ?case using step_others [OF run_step.hyps(2)] \<open>remaining (pcs s1 u) = 0\<close> by simp
next
  case (run_work k s s1 t s2)
  then show ?case using work_frame [OF run_work.hyps(2)] by simp
qed

lemma run_bound:
  assumes "run P k s0 s" and "\<And>u. n \<le> u \<Longrightarrow> remaining (pcs s0 u) = 0"
  shows "k + (\<Sum>u < n. remaining (pcs s u)) \<le> (\<Sum>u < n. remaining (pcs s0 u))"
  using assms
proof (induction rule: run.induct)
  case (run_step k s s1 t s2)
  then show ?case using sum_step [OF run_step.hyps(2)] idle_stays [OF run_step.hyps(1)] by fastforce
next
  case (run_work k s s1 t s2)
  then show ?case using work_frame [OF run_work.hyps(2)] by simp
qed simp

section \<open>No deadlock\<close>

lemma key_order_exists: "\<exists>order. key_order cs order"
  by (cases cs) (auto simp: key_order_def intro: exI [of _ "sorted_keys m" for m])

lemma op_holder_moves:
  assumes "holds_op (pcs s h)"
  shows "\<exists>s'. step_to P h s s'"
proof (cases "pcs s h")
  case (CallLocked m)
  then show ?thesis by (blast intro: call_set)
next
  case (CallRun m)
  then show ?thesis by (blast intro: call_return)
next
  case (CfgUp key n)
  then show ?thesis
    by (cases "configureUpstream P n (sh s)"; cases "fst (configureUpstream P n (sh s))") (auto intro: cfg_fail cfg_up)
next
  case (CfgRead key c)
  then show ?thesis by (cases "store key c (sh s)") (auto intro: cfg_store cfg_panic)
next
  case (CfgUnlock r)
  then show ?thesis by (blast intro: cfg_unlock)
next
  case CloseUp
  then show ?thesis using key_order_exists [of "clients (sh s)"] by (metis close_all prod.exhaust)
next
  case (CloseUnlock err)
  then show ?thesis by (blast intro: close_unlock)
qed (use assms in auto)

lemma mu_holder_moves:
  assumes "holds_mu (pcs s h)" and "opHolder s = None"
  shows "\<exists>s'. step_to P h s s'"
proof (cases "pcs s h")
  case (CfgHold key n)
  then show ?thesis using assms(2) by (cases "closed (sh s)"; cases "cached (sh s) key") (blast intro: cfg_closed cfg_hit cfg_miss)+
next
  case (CfgRelease r)
  then show ?thesis by (blast intro: cfg_release)
next
  case CloseHold
  then show ?thesis by (blast intro: close_again close_mark)
next
  case CloseMarked
  then show ?thesis using assms(2) by (blast intro: close_wait)
next
  case (CloseRelease err)
  then show ?thesis by (blast intro: close_release)
qed (use assms(1) op_holder_moves [of s h P] in auto)

lemma start_moves:
  assumes "at_start (pcs s t)" and "opHolder s = None" and "muHolder s = None"
  shows "\<exists>s'. step_to P t s s'"
proof (cases "pcs s t")
  case (CallStart meta)
  then show ?thesis using assms(2) by (cases "usable meta") (auto intro: call_reject call_lock)
next
  case (CfgStart order conf)
  then show ?thesis using assms(3) by (cases "prepare P order conf") (auto intro: cfg_reject cfg_lock)
next
  case CloseStart
  then show ?thesis using assms(3) by (blast intro: close_lock)
qed (use assms(1) in auto)

lemma progress:
  assumes "locks s" and "map_ok s" and "\<not> finished (pcs s t)"
  shows "\<exists>u s'. step_to P u s s'"
proof (cases "opHolder s")
  case (Some h)
  then have "holds_op (pcs s h)" using assms(1) by (simp add: locks_def excl_def)
  then show ?thesis using op_holder_moves by blast
next
  case op: None
  show ?thesis
  proof (cases "muHolder s")
    case (Some h)
    then have "holds_mu (pcs s h)" using assms(1) by (simp add: locks_def excl_def)
    then show ?thesis using mu_holder_moves op by blast
  next
    case None
    then have "\<not> holds_mu (pcs s t)" "\<not> holds_op (pcs s t)" using op assms(1) by (simp_all add: locks_def excl_def)
    then have "at_start (pcs s t)" using assms(2,3) by (cases "pcs s t") (auto simp: map_ok_def)
    then show ?thesis using start_moves op None by blast
  qed
qed

lemma run_trans:
  assumes "run P l s1 s2" and "run P k s s1"
  shows "run P (k + l) s s2"
  using assms by (induction rule: run.induct) (auto intro: run.intros)

lemma run_before:
  assumes "step_to P t s s1" and "run P k s1 s2"
  shows "run P (Suc k) s s2"
  using run_trans [OF assms(2) run_step [OF run_refl assms(1)]] by simp

lemma completes:
  assumes "run P k s0 s" and "initial s0" and "\<And>u. n \<le> u \<Longrightarrow> remaining (pcs s0 u) = 0"
  shows "\<exists>k' s'. run P k' s s' \<and> (\<forall>u. finished (pcs s' u))"
  using assms(1)
proof (induction "\<Sum>u < n. remaining (pcs s u)" arbitrary: k s rule: less_induct)
  case less
  note inv = run_inv [OF less.prems assms(2)]
  show ?case
  proof (cases "\<forall>u. finished (pcs s u)")
    case True
    then show ?thesis by (blast intro: run_refl)
  next
    case False
    then obtain u s1 where st: "step_to P u s s1" using progress inv by blast
    have "(\<Sum>u < n. remaining (pcs s1 u)) < (\<Sum>u < n. remaining (pcs s u))"
      using idle_stays [OF less.prems assms(3)] by (intro sum_step [OF st]) blast
    then obtain k' s' where "run P k' s1 s'" "\<forall>u. finished (pcs s' u)"
      using less.hyps run_step [OF less.prems st] by blast
    then show ?thesis using run_before [OF st] by blast
  qed
qed

section \<open>A goroutine on its own\<close>

lemma goto_goto [simp]: "goto t p (goto t q s) = goto t p s"
  by (simp add: goto_def)

lemma goto_fields [simp]:
  "pcs (goto t p s) t = p" "sh (goto t p s) = sh s" "muHolder (goto t p s) = muHolder s" "opHolder (goto t p s) = opHolder s"
  "(goto t q s)\<lparr>sh := x\<rparr> = goto t q (s\<lparr>sh := x\<rparr>)" "(goto t q s)\<lparr>muHolder := h\<rparr> = goto t q (s\<lparr>muHolder := h\<rparr>)"
  "(goto t q s)\<lparr>opHolder := h\<rparr> = goto t q (s\<lparr>opHolder := h\<rparr>)"
  by (simp_all add: goto_def)

lemma free_again [simp]:
  "muHolder s = None \<Longrightarrow> s\<lparr>muHolder := None, sh := x\<rparr> = s\<lparr>sh := x\<rparr>"
  "opHolder s = None \<Longrightarrow> s\<lparr>opHolder := None, sh := x\<rparr> = s\<lparr>sh := x\<rparr>"
  by (cases s; simp)+

lemma Configure_upstream_run:
  assumes "pcs s t = CfgUp key n" and "sh s = y"
    and "(case configureUpstream P n y of
            (Inl e, x1) \<Rightarrow> Some (Inl e, x1)
          | (Inr c, x1) \<Rightarrow> map_option (\<lambda>(m, x2). (Inr m, x2)) (store key c x1)) = Some (r, x)"
  shows "\<exists>k. run P k s (goto t (CfgUnlock r) (s\<lparr>sh := x\<rparr>))"
proof (cases "configureUpstream P n y")
  case (Pair res x1)
  show ?thesis
  proof (cases res)
    case (Inl e)
    then show ?thesis using run_step [OF run_refl cfg_fail [OF assms(1)]] assms(2,3) Pair by auto
  next
    case (Inr c)
    then obtain m where m: "store key c x1 = Some (m, x)" "r = Inr m" using assms(3) Pair by auto
    have "step_to P t s (goto t (CfgRead key c) (s\<lparr>sh := x1\<rparr>))" using cfg_up [OF assms(1)] assms(2) Pair Inr by simp
    moreover have "step_to P t (goto t (CfgRead key c) (s\<lparr>sh := x1\<rparr>)) (goto t (CfgUnlock r) (s\<lparr>sh := x\<rparr>))"
      using cfg_store [of "goto t (CfgRead key c) (s\<lparr>sh := x1\<rparr>)" t key c m x P] m by simp
    ultimately show ?thesis by (meson run_step run_refl)
  qed
qed

lemma Configure_locked_run:
  assumes "pcs s t = CfgHold key n" and "opHolder s = None" and "sh s = y"
    and "(if closed y then Some (Inl CacheClosed, y)
          else (case cached y key of
                  Some m \<Rightarrow> Some (Inr m, y)
                | None \<Rightarrow>
                    (case configureUpstream P n y of
                       (Inl e, x1) \<Rightarrow> Some (Inl e, x1)
                     | (Inr c, x1) \<Rightarrow> map_option (\<lambda>(m, x2). (Inr m, x2)) (store key c x1)))) = Some (r, x)"
  shows "\<exists>k. run P k s (goto t (CfgRelease r) (s\<lparr>sh := x\<rparr>))"
proof (cases "closed y \<or> cached y key \<noteq> None")
  case True
  then have "x = sh s" and "step_to P t s (goto t (CfgRelease r) s)"
    using assms(3,4) cfg_closed [OF assms(1)] cfg_hit [OF assms(1)] by (auto split: if_splits)
  then show ?thesis using run_step [OF run_refl] by (cases s) fastforce
next
  case False
  let ?u = "s\<lparr>opHolder := Some t\<rparr>"
  have up: "step_to P t s (goto t (CfgUp key n) ?u)" using cfg_miss [OF assms(1)] False assms(2,3) by simp
  obtain k where k: "run P k (goto t (CfgUp key n) ?u) (goto t (CfgUnlock r) (?u\<lparr>sh := x\<rparr>))"
    using Configure_upstream_run [of "goto t (CfgUp key n) ?u" t key n y P r x] assms(3,4) False by auto
  have "step_to P t (goto t (CfgUnlock r) (?u\<lparr>sh := x\<rparr>)) (goto t (CfgRelease r) (s\<lparr>sh := x\<rparr>))"
    using cfg_unlock [of "goto t (CfgUnlock r) (?u\<lparr>sh := x\<rparr>)" t r P] assms(2) by (cases s) simp
  then show ?thesis using run_before [OF up run_step [OF k]] by blast
qed

lemma Configure_run:
  assumes "muHolder s = None" and "opHolder s = None" and "pcs s t = CfgStart order conf"
    and "Configure P order conf (sh s) = Some (r, x)"
  shows "\<exists>k. run P k s (goto t (CfgDone r) (s\<lparr>sh := x\<rparr>))"
proof (cases "prepare P order conf")
  case (Inl e)
  then show ?thesis
    using assms run_step [OF run_refl cfg_reject [OF assms(3) Inl]] by (auto simp: Configure_def)
next
  case (Inr kn)
  obtain key n where kn: "kn = (key, n)" by force
  let ?l = "s\<lparr>muHolder := Some t\<rparr>"
  have lock: "step_to P t s (goto t (CfgHold key n) ?l)" using cfg_lock [OF assms(3) Inr [unfolded kn] assms(1)] .
  obtain k where k: "run P k (goto t (CfgHold key n) ?l) (goto t (CfgRelease r) (?l\<lparr>sh := x\<rparr>))"
    using Configure_locked_run [of "goto t (CfgHold key n) ?l" t key n "sh s" P r x] assms(2,4) Inr kn by (auto simp: Configure_def)
  have "step_to P t (goto t (CfgRelease r) (?l\<lparr>sh := x\<rparr>)) (goto t (CfgDone r) (s\<lparr>sh := x\<rparr>))"
    using cfg_release [of "goto t (CfgRelease r) (?l\<lparr>sh := x\<rparr>)" t r P] assms(1) by (cases s) simp
  then show ?thesis using run_before [OF lock run_step [OF k]] by blast
qed


section \<open>An instance\<close>

text \<open>An upstream that reports the version it finds in its configuration, and two goroutines.\<close>

definition exP :: "(string, unit) provider" where
  "exP = \<lparr>pSchema = fmempty, pValidate = (\<lambda>n. []),
          pConfigure = (\<lambda>n w. (([], Some ''client'', Some ''7.23''), ())),
          pClose = (\<lambda>c w. (None, ())), pKey = (\<lambda>n. Inr ''key'')\<rparr>"

definition exMeta :: "string Meta" where
  "exMeta = \<lparr>mClient = Some ''other'', mVersion = ''7.1''\<rparr>"

definition exSys :: "(string, unit) sys" where
  "exSys = \<lparr>sh = newClientCache [] (), muHolder = None, opHolder = None,
     pcs = (\<lambda>t. if t = 0 then CallStart (MetaPtr (Some exMeta)) else if t = 1 then CfgStart [] fmempty else CallDone None),
     readings = []\<rparr>"

lemma exSys_initial: "initial exSys"
  by (auto simp: initial_def exSys_def)

lemma exP_reports: "reports_version exP"
  by (simp add: reports_version_def exP_def)

lemma ex_prepare: "prepare exP [] fmempty = Inr (''key'', fmempty)"
  by (simp add: prepare_def normalizeConfiguration_def exP_def)

definition exShared :: "(string, unit) shared" where
  "exShared = \<lparr>clients = Some (fmupd ''key'' \<lparr>mClient = Some ''client'', mVersion = ''7.23''\<rparr> fmempty), closed = False,
     version = ''7.23'', sworld = ()\<rparr>"

lemma ex_Configure:
  "Configure exP [] fmempty (newClientCache [] ()) = Some (Inr \<lparr>mClient = Some ''client'', mVersion = ''7.23''\<rparr>, exShared)"
  unfolding Configure_def ex_prepare
  by (simp add: newClientCache_def cached_def configureUpstream_def exP_def diags_HasError_def store_def exShared_def Let_def)

text \<open>The callback of the first goroutine reads while the second waits for the cache.\<close>

lemma ex_reading: "\<exists>s. run exP 3 exSys s \<and> readings s = [(exMeta, ''7.1'')]"
proof -
  let ?l = "goto 0 (CallLocked exMeta) (exSys\<lparr>opHolder := Some 0\<rparr>)"
  let ?h = "goto 1 (CfgHold ''key'' fmempty) (?l\<lparr>muHolder := Some 1\<rparr>)"
  let ?r = "goto 0 (CallRun exMeta) (?h\<lparr>sh := (sh ?h)\<lparr>version := mVersion exMeta\<rparr>\<rparr>)"
  have "step_to exP 0 exSys ?l"
    by (rule call_lock [where meta = "MetaPtr (Some exMeta)" and c = "''other''"])
       (simp_all add: exSys_def usable_def exMeta_def)
  moreover have "step_to exP 1 ?l ?h"
    by (rule cfg_lock [OF _ ex_prepare]) (simp_all add: exSys_def goto_def)
  moreover have "step_to exP 0 ?h ?r"
    by (rule call_set) (simp add: goto_def)
  moreover have "work 0 ?r (?r\<lparr>sh := (sh ?r)\<lparr>sworld := ()\<rparr>, readings := readings ?r @ [(exMeta, version (sh ?r))]\<rparr>)"
    by (rule work.intros) simp
  moreover have "readings (?r\<lparr>sh := (sh ?r)\<lparr>sworld := ()\<rparr>, readings := readings ?r @ [(exMeta, version (sh ?r))]\<rparr>)
      = [(exMeta, ''7.1'')]"
    by (simp add: exSys_def goto_def exMeta_def)
  ultimately have "run exP (Suc (Suc (Suc 0))) exSys
      (?r\<lparr>sh := (sh ?r)\<lparr>sworld := ()\<rparr>, readings := readings ?r @ [(exMeta, version (sh ?r))]\<rparr>)"
    by (meson run_refl run_step run_work)
  then show ?thesis
    using \<open>readings (?r\<lparr>sh := (sh ?r)\<lparr>sworld := ()\<rparr>, readings := readings ?r @ [(exMeta, version (sh ?r))]\<rparr>)
      = [(exMeta, ''7.1'')]\<close> unfolding numeral_3_eq_3 by blast
qed

section \<open>Normalisation\<close>

lemma normalizeValue_idem: "normalizeValue s v = Inr v' \<Longrightarrow> normalizeValue s v' = Inr v'"
  by (auto simp: normalizeValue_def toString_def toBool_def toInt_def split: option.splits ValueType.splits sum.splits any.splits if_splits)

lemma normalizeLoop_Inr:
  "normalizeLoop S conf ks res = Inr r \<longleftrightarrow>
     (\<forall>k \<in> set ks. \<exists>v. normalizeValue (fmlookup S k) (lookup_default VNil conf k) = Inr v)
     \<and> (\<forall>k. fmlookup r k =
          (if k \<in> set ks then (case normalizeValue (fmlookup S k) (lookup_default VNil conf k) of Inl e \<Rightarrow> None | Inr v \<Rightarrow> Some v)
           else fmlookup res k))"
proof (induction ks arbitrary: res)
  case Nil
  then show ?case by (auto intro: fmap_ext)
next
  case (Cons k ks)
  then show ?case by (cases "normalizeValue (fmlookup S k) (lookup_default VNil conf k)") auto
qed

definition enumerates :: "string list \<Rightarrow> 'v go_map \<Rightarrow> bool" where
  "enumerates order m \<longleftrightarrow> distinct order \<and> set order = fmdom' m"

lemma normalize_order:
  assumes "enumerates o1 conf" and "enumerates o2 conf"
  shows "normalizeConfiguration o1 conf S = Inr r \<longleftrightarrow> normalizeConfiguration o2 conf S = Inr r"
  using assms by (simp add: normalizeConfiguration_def normalizeLoop_Inr enumerates_def)

text \<open>
  Normalising a configuration does not depend on the order in which its map is visited, keeps its
  keys, and does nothing a second time: the result is a normal form, so that it is a sound cache key.
\<close>

theorem normalize_normal_form:
  assumes "enumerates o1 conf" and "normalizeConfiguration o1 conf S = Inr r"
  shows "fmdom' r = fmdom' conf
    \<and> (enumerates o2 conf \<longrightarrow> normalizeConfiguration o2 conf S = Inr r)
    \<and> (enumerates o3 r \<longrightarrow> normalizeConfiguration o3 r S = Inr r)"
proof -
  have r: "fmlookup r k = (if k \<in> fmdom' conf then (case normalizeValue (fmlookup S k) (lookup_default VNil conf k) of
      Inl e \<Rightarrow> None | Inr v \<Rightarrow> Some v) else None)" for k
    using assms by (simp add: normalizeConfiguration_def normalizeLoop_Inr enumerates_def)
  have ok: "\<exists>v. normalizeValue (fmlookup S k) (lookup_default VNil conf k) = Inr v" if "k \<in> fmdom' conf" for k
    using assms that by (simp add: normalizeConfiguration_def normalizeLoop_Inr enumerates_def)
  have look: "\<exists>v. normalizeValue (fmlookup S k) (lookup_default VNil conf k) = Inr v \<and> fmlookup r k = Some v"
    if "k \<in> fmdom' conf" for k using r [of k] ok [OF that] that by auto
  have dom: "fmdom' r = fmdom' conf"
  proof (intro set_eqI iffI)
    show "k \<in> fmdom' conf" if "k \<in> fmdom' r" for k using r [of k] that by (auto simp: fmlookup_dom'_iff split: if_splits)
    show "k \<in> fmdom' r" if "k \<in> fmdom' conf" for k using look [OF that] by (auto simp: fmlookup_dom'_iff)
  qed
  have again: "normalizeValue (fmlookup S k) (lookup_default VNil r k) = Inr (the (fmlookup r k))" if "k \<in> fmdom' conf" for k
    using look [OF that] normalizeValue_idem by (fastforce simp: lookup_default_def)
  have "normalizeConfiguration o3 r S = Inr r" if "enumerates o3 r"
  proof -
    have "fmlookup r k = (if k \<in> fmdom' conf then (case normalizeValue (fmlookup S k) (lookup_default VNil r k) of
        Inl e \<Rightarrow> None | Inr v \<Rightarrow> Some v) else None)" for k
      using look [of k] again [of k] r [of k] by (cases "k \<in> fmdom' conf") auto
    moreover have "\<exists>v. normalizeValue (fmlookup S k) (lookup_default VNil r k) = Inr v" if "k \<in> fmdom' conf" for k
      using again [OF that] by blast
    ultimately show ?thesis using that dom unfolding normalizeConfiguration_def normalizeLoop_Inr enumerates_def by simp
  qed
  then show ?thesis using dom normalize_order [OF assms(1)] assms(2) by blast
qed

theorem normalize_normal_form_witness:
  "normalizeConfiguration [''insecure'', ''hosturl''] (fmap_of_list [(''hosturl'', VString ''r''), (''insecure'', VString ''true'')])
     (fmap_of_list [(''hosturl'', TypeString), (''insecure'', TypeBool)])
   = Inr (fmap_of_list [(''hosturl'', VString ''r''), (''insecure'', VBool True)])"
proof -
  have e: "enumerates [''hosturl'', ''insecure''] (fmap_of_list [(''hosturl'', VString ''r''), (''insecure'', VString ''true'')])"
    "enumerates [''insecure'', ''hosturl''] (fmap_of_list [(''hosturl'', VString ''r''), (''insecure'', VString ''true'')])"
    by (auto simp: enumerates_def fmdom'_alt_def)
  have n: "normalizeConfiguration [''hosturl'', ''insecure'']
      (fmap_of_list [(''hosturl'', VString ''r''), (''insecure'', VString ''true'')])
      (fmap_of_list [(''hosturl'', TypeString), (''insecure'', TypeBool)])
    = Inr (fmap_of_list [(''hosturl'', VString ''r''), (''insecure'', VBool True)])"
    unfolding normalizeConfiguration_def normalizeLoop_Inr
    by (auto simp: normalizeValue_def lookup_default_def fmlookup_of_list toString_def toBool_def ParseBool_def)
  show ?thesis using normalize_normal_form [OF e(1) n, of "[''insecure'', ''hosturl'']" "[]"] e(2) by blast
qed

lemma prepare_order:
  assumes "prepare P o1 conf = Inr kn" and "enumerates o1 conf" and "enumerates o2 conf"
  shows "prepare P o2 conf = Inr kn"
proof -
  obtain n where n: "normalizeConfiguration o1 conf (pSchema P) = Inr n"
    using assms(1) by (auto simp: prepare_def split: sum.splits)
  then have "normalizeConfiguration o2 conf (pSchema P) = Inr n" using normalize_order [OF assms(2,3)] by blast
  then show ?thesis using assms(1) n by (simp add: prepare_def)
qed

text \<open>
  A configuration is configured once. A Configure that returned a Meta makes every later one for
  the same configuration, in whatever order its map is visited, return that very Meta and change
  nothing, and in particular call nothing of the upstream.
\<close>

theorem Configure_reuses:
  assumes "Configure P o1 conf s = Some (Inr m, s1)" and "enumerates o1 conf" and "enumerates o2 conf"
  shows "Configure P o2 conf s1 = Some (Inr m, s1)"
proof (cases "prepare P o1 conf")
  case (Inl e)
  then show ?thesis using assms(1) by (simp add: Configure_def)
next
  case (Inr kn)
  obtain key n where kn: "kn = (key, n)" by force
  have p: "prepare P o2 conf = Inr (key, n)" using prepare_order [OF Inr assms(2,3)] kn by simp
  show ?thesis
  proof (cases "cached s key")
    case (Some m')
    then show ?thesis using assms(1) Inr kn p by (auto simp: Configure_def split: if_splits)
  next
    case None
    then have "\<not> closed s" using assms(1) Inr kn by (auto simp: Configure_def)
    then obtain c x where up: "configureUpstream P n s = (Inr c, x)" "store key c x = Some (m, s1)"
      using assms(1) Inr kn None by (auto simp: Configure_def split: prod.splits sum.splits)
    have "\<not> closed s1" and "cached s1 key = Some m"
      using configureUpstream_frame [OF up(1)] store_frame [OF up(2)] \<open>\<not> closed s\<close> by (auto simp: cached_def)
    then show ?thesis using p by (simp add: Configure_def)
  qed
qed

theorem Configure_reuses_witness:
  "Configure exP [] fmempty exShared = Some (Inr \<lparr>mClient = Some ''client'', mVersion = ''7.23''\<rparr>, exShared)"
  using Configure_reuses [OF ex_Configure] by (simp add: enumerates_def)

section \<open>Every schedule\<close>

text \<open>
  C7: the guard isolates the clients. Whatever callbacks, Configures and Closes run at the same time,
  in any interleaving, a callback only ever reads the version of its own client from the package
  variable of the upstream; no two goroutines hold a mutex together; and no Configure writes to the
  map a Close has dropped.
\<close>

theorem guard_isolates:
  assumes "initial s0" and "run P k s0 s"
  shows "list_all (\<lambda>(m, v). v = mVersion m) (readings s)
    \<and> (holds_op (pcs s t) \<and> holds_op (pcs s u) \<longrightarrow> t = u) \<and> (holds_mu (pcs s t) \<and> holds_mu (pcs s u) \<longrightarrow> t = u)
    \<and> pcs s t \<noteq> Panicked"
  using run_inv [OF assms(2,1)] other_holder [of s t u] other_op_holder [of s t u]
  by (auto simp: versioned_def map_ok_def list_all_iff)

theorem guard_isolates_witness:
  "\<exists>s. run exP 3 exSys s \<and> readings s \<noteq> [] \<and> list_all (\<lambda>(m, v). v = mVersion m) (readings s)"
  using ex_reading guard_isolates [OF exSys_initial, of exP 3] by fastforce



text \<open>
  C9: the operations end. With n goroutines, no schedule takes more than six steps for each apart from
  the work callbacks do while they run; from every state a schedule reaches, either all operations
  have returned or some goroutine can take a step, so that the two mutexes never deadlock; and every
  schedule can be continued until all operations have returned.
\<close>

theorem operations_complete:
  assumes "initial s0" and "\<And>u. n \<le> u \<Longrightarrow> finished (pcs s0 u)" and "run P k s0 s"
  shows "k \<le> 6 * n \<and> ((\<forall>u. finished (pcs s u)) \<or> (\<exists>u s'. step_to P u s s'))
    \<and> (\<exists>k' s'. run P k' s s' \<and> (\<forall>u. finished (pcs s' u)))"
proof -
  have idle: "remaining (pcs s0 u) = 0" if "n \<le> u" for u using assms(2) [OF that] by (simp add: remaining_0)
  have "(\<Sum>u < n. remaining (pcs s0 u)) \<le> (\<Sum>u < n. 6)" by (intro sum_mono remaining_le)
  then have "k \<le> 6 * n" using run_bound [OF assms(3) idle, of n] by simp
  moreover have "(\<forall>u. finished (pcs s u)) \<or> (\<exists>u s'. step_to P u s s')"
    using progress run_inv [OF assms(3,1)] by blast
  ultimately show ?thesis using completes [OF assms(3,1) idle, of n] by blast
qed

theorem operations_complete_witness:
  "\<exists>s k' s'. run exP 3 exSys s \<and> run exP k' s s' \<and> finished (pcs s' 0) \<and> finished (pcs s' 1)"
proof -
  obtain s where s: "run exP 3 exSys s" using ex_reading by blast
  have "finished (pcs exSys u)" if "2 \<le> u" for u using that by (auto simp: exSys_def)
  then show ?thesis using operations_complete [OF exSys_initial _ s, of 2] s by blast
qed



text \<open>
  Guarding twice is not guarding once: the second guard finds the client of the first where it expects
  its own Meta, so that every callback of a provider wrapped twice fails.
\<close>

theorem wrapped_twice_refuses:
  assumes "usable meta = Some (m, c)" and "\<not> operationMu g"
  shows "withMeta f (withMeta f call) d meta g = Some (f UnexpectedMetadata, d, g\<lparr>RouterOSVersion := mVersion m\<rparr>)"
  using assms by (cases g) (simp add: withMeta_def acquireMeta_def usable_def)

end
