(* ===== verification/Client_Setup.thy ===== *)
theory Client_Setup
  imports Runtime_Cache
begin

text \<open>
  src/internal/clients/routeros.go: how a managed resource gets its client. The ProviderConfig it
  refers to is resolved, its usage is recorded, the credentials it points to are extracted and decoded,
  and the cache configures the upstream with them.

  The API server, the usage trackers and the credential extractor of crossplane-runtime and the JSON
  decoder are parameters.
\<close>

record SecretKeySelector =
  ssName :: string
  ssNamespace :: string
  ssKey :: string

record ProviderConfigSpec =
  pcSource :: string
  pcSecretRef :: "SecretKeySelector option"
  pcFs :: "string option"
  pcEnv :: "string option"

text \<open>The interfaces the resource implements, with its providerConfigRef and its namespace.\<close>

datatype Managed =
    LegacyManaged "string option"
  | ModernManaged "(string \<times> string) option" string
  | NotManaged

text \<open>What \<^verbatim>\<open>Scheme().New\<close> and \<^verbatim>\<open>Get\<close> yield for a kind.\<close>

datatype pcObject =
    NamespacedPC ProviderConfigSpec
  | ClusterPC ProviderConfigSpec
  | OtherPC

datatype setup_error =
    ErrNoProviderConfig
  | ErrGetProviderConfig string
  | ErrTrackUsage string
  | ErrExtractCredentials string
  | ErrUnmarshalCredentials string
  | ErrMultipleValues
  | ErrUnknownGVK string
  | ErrNotAnObject
  | ErrUnknownType
  | ErrNotManaged
  | ErrResolve setup_error
  | ErrConfigure cache_error

text \<open>
  \<^verbatim>\<open>decodeFirst\<close> is the first value of the stream, decoded into a map; \<^verbatim>\<open>atEOF\<close> is whether decoding
  another one reports the end of the input.
\<close>

record 'k kube =
  getClusterPC :: "string \<Rightarrow> 'k \<Rightarrow> (string + ProviderConfigSpec) \<times> 'k"
  schemeNew :: "string \<Rightarrow> string + bool"
  getPC :: "string \<Rightarrow> string \<Rightarrow> string \<Rightarrow> 'k \<Rightarrow> (string + pcObject) \<times> 'k"
  trackUsage :: "Managed \<Rightarrow> 'k \<Rightarrow> string option \<times> 'k"
  extractCredentials :: "ProviderConfigSpec \<Rightarrow> 'k \<Rightarrow> (string + string) \<times> 'k"
  decodeFirst :: "string \<Rightarrow> string + any go_map"
  atEOF :: "string \<Rightarrow> bool"

text \<open>
  The cluster-scoped and the namespaced spec have the same fields under the same JSON names, all of
  them strings or selectors, so that encoding one and decoding the other gives the same spec.
\<close>

definition toSharedPCSpec :: "ProviderConfigSpec option \<Rightarrow> ProviderConfigSpec option" where
  "toSharedPCSpec pc = pc"

definition tracked ::
  "'k kube \<Rightarrow> Managed \<Rightarrow> ProviderConfigSpec \<Rightarrow> 'k \<Rightarrow> (setup_error + ProviderConfigSpec) \<times> 'k" where
  "tracked K mg spec k =
     (case trackUsage K mg k of
        (Some err, k') \<Rightarrow> (Inl (ErrTrackUsage err), k')
      | (None, k') \<Rightarrow> (Inr spec, k'))"

definition resolveLegacy :: "'k kube \<Rightarrow> string option \<Rightarrow> 'k \<Rightarrow> (setup_error + ProviderConfigSpec) \<times> 'k" where
  "resolveLegacy K ref k =
     (case ref of
        None \<Rightarrow> (Inl ErrNoProviderConfig, k)
      | Some nm \<Rightarrow>
          (case getClusterPC K nm k of
             (Inl err, k1) \<Rightarrow> (Inl (ErrGetProviderConfig err), k1)
           | (Inr spec, k1) \<Rightarrow> tracked K (LegacyManaged ref) (the (toSharedPCSpec (Some spec))) k1))"

definition ownNamespace :: "string \<Rightarrow> ProviderConfigSpec \<Rightarrow> ProviderConfigSpec" where
  "ownNamespace ns spec = spec\<lparr>pcSecretRef := map_option (\<lambda>ss. ss\<lparr>ssNamespace := ns\<rparr>) (pcSecretRef spec)\<rparr>"

definition resolveModern ::
  "'k kube \<Rightarrow> (string \<times> string) option \<Rightarrow> string \<Rightarrow> 'k \<Rightarrow> (setup_error + ProviderConfigSpec) \<times> 'k" where
  "resolveModern K ref ns k =
     (case ref of
        None \<Rightarrow> (Inl ErrNoProviderConfig, k)
      | Some (kind, nm) \<Rightarrow>
          (case schemeNew K kind of
             Inl err \<Rightarrow> (Inl (ErrUnknownGVK err), k)
           | Inr isObject \<Rightarrow>
               if \<not> isObject then (Inl ErrNotAnObject, k)
               else (case getPC K kind nm ns k of
                       (Inl err, k1) \<Rightarrow> (Inl (ErrGetProviderConfig err), k1)
                     | (Inr pcObj, k1) \<Rightarrow>
                         (case pcObj of
                            NamespacedPC spec \<Rightarrow> tracked K (ModernManaged ref ns) (ownNamespace ns spec) k1
                          | ClusterPC spec \<Rightarrow> tracked K (ModernManaged ref ns) spec k1
                          | OtherPC \<Rightarrow> (Inl ErrUnknownType, k1)))))"

definition resolveProviderConfig :: "'k kube \<Rightarrow> Managed \<Rightarrow> 'k \<Rightarrow> (setup_error + ProviderConfigSpec) \<times> 'k" where
  "resolveProviderConfig K mg k =
     (case mg of
        LegacyManaged ref \<Rightarrow> resolveLegacy K ref k
      | ModernManaged ref ns \<Rightarrow> resolveModern K ref ns k
      | NotManaged \<Rightarrow> (Inl ErrNotManaged, k))"

record 'c Setup =
  Configuration :: "any go_map"
  setupMeta :: "'c Meta"

text \<open>
  The function \<^verbatim>\<open>TerraformSetupBuilder\<close> returns; the outer option is the panic of the cache.
\<close>

definition TerraformSetup ::
  "'k kube \<Rightarrow> ('c, 'w) provider \<Rightarrow> string list \<Rightarrow> Managed \<Rightarrow> 'k \<Rightarrow> ('c, 'w) shared
   \<Rightarrow> ((setup_error + 'c Setup) \<times> 'k \<times> ('c, 'w) shared) option" where
  "TerraformSetup K P order mg k s =
     (case resolveProviderConfig K mg k of
        (Inl err, k1) \<Rightarrow> Some (Inl (ErrResolve err), k1, s)
      | (Inr pcSpec, k1) \<Rightarrow>
          (case extractCredentials K pcSpec k1 of
             (Inl err, k2) \<Rightarrow> Some (Inl (ErrExtractCredentials err), k2, s)
           | (Inr data, k2) \<Rightarrow>
               (case decodeFirst K data of
                  Inl err \<Rightarrow> Some (Inl (ErrUnmarshalCredentials err), k2, s)
                | Inr configuration \<Rightarrow>
                    if \<not> atEOF K data then Some (Inl ErrMultipleValues, k2, s)
                    else (case Configure P order configuration s of
                            None \<Rightarrow> None
                          | Some (Inl err, s') \<Rightarrow> Some (Inl (ErrConfigure err), k2, s')
                          | Some (Inr m, s') \<Rightarrow>
                              Some (Inr \<lparr>Configuration = configuration, setupMeta = m\<rparr>, k2, s')))))"

section \<open>Whose credentials\<close>

text \<open>
  The specs a resource may have its credentials extracted with: what the ProviderConfig it refers to
  says, except that a namespaced ProviderConfig reads Secrets of the namespace of the resource only.
\<close>

definition entitled_spec :: "'k kube \<Rightarrow> Managed \<Rightarrow> 'k \<Rightarrow> ProviderConfigSpec \<Rightarrow> bool" where
  "entitled_spec K mg k spec \<longleftrightarrow>
     (case mg of
        LegacyManaged (Some nm) \<Rightarrow> fst (getClusterPC K nm k) = Inr spec
      | ModernManaged (Some (kind, nm)) ns \<Rightarrow>
          (\<exists>spec'. fst (getPC K kind nm ns k) = Inr (NamespacedPC spec')
             \<and> pcSource spec = pcSource spec' \<and> pcFs spec = pcFs spec' \<and> pcEnv spec = pcEnv spec'
             \<and> pcSecretRef spec = map_option (\<lambda>ss. \<lparr>ssName = ssName ss, ssNamespace = ns, ssKey = ssKey ss\<rparr>) (pcSecretRef spec'))
          \<or> fst (getPC K kind nm ns k) = Inr (ClusterPC spec)
      | _ \<Rightarrow> False)"

lemma set_namespace: "ssNamespace_update (\<lambda>_. ns) = (\<lambda>ss. \<lparr>ssName = ssName ss, ssNamespace = ns, ssKey = ssKey ss\<rparr>)"
  by (rule ext) simp

lemma tracked_Inr: "tracked K mg spec k = (Inr x, k') \<longleftrightarrow> x = spec \<and> trackUsage K mg k = (None, k')"
  by (auto simp: tracked_def split: prod.splits option.splits)

text \<open>
  C11: credentials stay in their namespace. A setup that succeeds extracted its credentials with a spec
  the resource is entitled to: a Secret a namespaced ProviderConfig names is looked up in the namespace
  of the resource, whatever namespace the ProviderConfig wrote; the usage was recorded before; and the
  client is the one the cache gives for exactly the decoded configuration.
\<close>

theorem setup_confined:
  assumes "TerraformSetup K P order mg k s = Some (Inr st, k', s')"
  shows "\<exists>spec k1 kt data. entitled_spec K mg k spec \<and> trackUsage K mg kt = (None, k1)
    \<and> extractCredentials K spec k1 = (Inr data, k') \<and> decodeFirst K data = Inr (Configuration st) \<and> atEOF K data
    \<and> Configure P order (Configuration st) s = Some (Inr (setupMeta st), s')"
proof -
  obtain spec k1 where r: "resolveProviderConfig K mg k = (Inr spec, k1)"
    using assms by (auto simp: TerraformSetup_def split: prod.splits sum.splits)
  obtain data where d: "extractCredentials K spec k1 = (Inr data, k')" "decodeFirst K data = Inr (Configuration st)" "atEOF K data"
      "Configure P order (Configuration st) s = Some (Inr (setupMeta st), s')"
    using assms r by (auto simp: TerraformSetup_def split: prod.splits sum.splits if_splits option.splits)
  have "entitled_spec K mg k spec \<and> (\<exists>kt. trackUsage K mg kt = (None, k1))"
    using r
    by (cases mg)
       (auto simp: resolveProviderConfig_def resolveLegacy_def resolveModern_def entitled_spec_def tracked_Inr
          ownNamespace_def toSharedPCSpec_def set_namespace
          split: option.splits prod.splits sum.splits pcObject.splits if_splits)
  then show ?thesis using d by blast
qed

section \<open>An instance\<close>

definition exKube :: "unit kube" where
  "exKube = \<lparr>getClusterPC = (\<lambda>nm k. (Inl ''no'', k)), schemeNew = (\<lambda>kind. Inr True),
     getPC = (\<lambda>kind nm ns k. (Inr (NamespacedPC \<lparr>pcSource = ''Secret'',
        pcSecretRef = Some \<lparr>ssName = ''creds'', ssNamespace = ''kube-system'', ssKey = ''json''\<rparr>, pcFs = None, pcEnv = None\<rparr>), k)),
     trackUsage = (\<lambda>mg k. (None, k)),
     extractCredentials = (\<lambda>spec k. (if map_option ssNamespace (pcSecretRef spec) = Some ''team'' then Inr ''{}'' else Inl ''denied'', k)),
     decodeFirst = (\<lambda>d. Inr fmempty), atEOF = (\<lambda>d. True)\<rparr>"

definition exManaged :: Managed where
  "exManaged = ModernManaged (Some (''ProviderConfig'', ''default'')) ''team''"

theorem setup_confined_witness:
  "\<exists>spec. entitled_spec exKube exManaged () spec \<and> fst (extractCredentials exKube spec ()) = Inr ''{}''"
proof -
  have "TerraformSetup exKube exP [] exManaged () (newClientCache [] ())
      = Some (Inr \<lparr>Configuration = fmempty, setupMeta = \<lparr>mClient = Some ''client'', mVersion = ''7.23''\<rparr>\<rparr>, (), exShared)"
    by (simp add: TerraformSetup_def resolveProviderConfig_def resolveModern_def exManaged_def exKube_def tracked_def
        ownNamespace_def ex_Configure)
  from setup_confined [OF this] obtain spec data
    where "entitled_spec exKube exManaged () spec" "extractCredentials exKube spec () = (Inr data, ())" by auto
  then show ?thesis by (auto simp: exKube_def split: if_splits)
qed

end
