(* ===== verification/Schema_IR.thy ===== *)
theory Schema_IR
  imports Prelude
begin

text \<open>
  Package \<^verbatim>\<open>schema\<close> (src/schema/ir.go), the intermediate representation the generators read, and
  src/schema/cmd/buildir/main.go, which assembles it from the artifacts the probes wrote. The string
  types of the source (classes, evidence, verdicts, kinds) stay strings, since the builder converts
  arbitrary text into them. A map from menu path to a value is a finite map; reading and writing the
  JSON files is left out, and the optional artifacts are empty when absent.
\<close>

section \<open>The representation\<close>

definition ClassOrdered :: string where "ClassOrdered = ''ordered-list''"

definition ClassList :: string where "ClassList = ''list''"

definition ClassSingleton :: string where "ClassSingleton = ''singleton''"

definition Probed :: string where "Probed = ''probed''"

definition Observed :: string where "Observed = ''observed''"

definition Inferred :: string where "Inferred = ''inferred''"

definition VUnique :: string where "VUnique = ''UNIQUE''"

definition VDuplicate :: string where "VDuplicate = ''DUPLICATE''"

definition VUntested :: string where "VUntested = ''UNTESTED''"

definition VUnprobed :: string where "VUnprobed = ''UNPROBED''"

definition VAmbiguous :: string where "VAmbiguous = ''AMBIGUOUS''"

definition KindScalar :: string where "KindScalar = ''scalar''"

definition KindUnknown :: string where "KindUnknown = ''unknown''"

record ir_Field =
  fName :: string
  fAccess :: string
  fKind :: string
  fType :: string
  fValues :: "string list"
  fRanges :: "string list"
  fEvidence :: string
  fSample :: string
  fBool :: bool

record Identity =
  Candidates :: "string list"
  idKey :: string
  idVerdict :: string
  Tested :: "string go_map"

record ir_Menu =
  irPath :: string
  Class :: string
  Commands :: "string list"
  irIdentity :: Identity
  irFields :: "ir_Field list"
  Typed :: bool
  irWritable :: bool
  ClassEvidence :: string

record ir_Source =
  Artifact :: string
  Producer :: string
  srcVersion :: string
  Platform :: string

record IR =
  RouterOSVersion :: string
  GeneratedBy :: string
  Sources :: "ir_Source list"
  Menus :: "ir_Menu list"

definition Rows :: "ir_Menu \<Rightarrow> bool" where
  "Rows m \<longleftrightarrow> Class m = ClassOrdered \<or> Class m = ClassList"

definition Identity_Unique :: "Identity \<Rightarrow> string \<Rightarrow> bool" where
  "Identity_Unique i field \<longleftrightarrow> map_get (Tested i) field = VUnique"

definition ProvenDuplicate :: "Identity \<Rightarrow> string \<Rightarrow> bool" where
  "ProvenDuplicate i field \<longleftrightarrow> map_get (Tested i) field = VDuplicate"

definition Census :: "IR \<Rightarrow> string \<Rightarrow> nat" where
  "Census ir c = length (filter (\<lambda>m. Class m = c) (Menus ir))"

fun findMenu :: "ir_Menu list \<Rightarrow> string \<Rightarrow> ir_Menu option" where
  "findMenu [] path = None"
| "findMenu (m # ms) path = (if irPath m = path then Some m else findMenu ms path)"

definition IR_Menu :: "IR \<Rightarrow> string \<Rightarrow> ir_Menu option" where
  "IR_Menu ir path = findMenu (Menus ir) path"

section \<open>The artifacts\<close>

datatype treeNode = Node (nodeName: string) (NodeType: string) (Children: "treeNode list")

record consoleTree =
  ctVersion :: string
  ctArchitecture :: string
  ctGeneratedBy :: string
  Tree :: "treeNode list"

record argType =
  aPath :: string
  aArg :: string
  aAccess :: string
  aKind :: string
  aValues :: "string list"
  aTypes :: "string list"
  aRanges :: "string list"
  aCommand :: string

record observed =
  oPath :: string
  oArg :: string
  oType :: string
  oSample :: string

record verdict =
  vResource :: string
  vPath :: string
  vVerdict :: string

record keyVerdict =
  kPath :: string
  kField :: string
  kVerdict :: string

text \<open>
  The structs \<^verbatim>\<open>argTypes\<close>, \<^verbatim>\<open>uniqueness\<close>, \<^verbatim>\<open>observedTypes\<close> and \<^verbatim>\<open>keyUniqueness\<close> differ only in their entries;
  \<^verbatim>\<open>uniqueness\<close> has no architecture.
\<close>

record 'a artifact =
  arVersion :: string
  arArchitecture :: string
  arGeneratedBy :: string
  arEntries :: "'a list"

section \<open>Cardinality\<close>

datatype rowEvidence = rowsUnknown | rowsPresent | rowsAbsent

definition rowlessStep :: "argType \<Rightarrow> rowEvidence go_map \<Rightarrow> rowEvidence go_map" where
  "rowlessStep a out =
     (if aAccess a \<noteq> ''read-only'' then out
      else if aCommand a = ''print'' then fmupd (aPath a) rowsPresent out
      else if aCommand a = ''get''
      then (if lookup_default rowsUnknown out (aPath a) \<noteq> rowsPresent then fmupd (aPath a) rowsAbsent out else out)
      else out)"

definition rowlessByMenu :: "argType list \<Rightarrow> rowEvidence go_map" where
  "rowlessByMenu args = fold rowlessStep args fmempty"

definition classifyMenu :: "string list \<Rightarrow> rowEvidence \<Rightarrow> string \<times> string" where
  "classifyMenu cmds rows =
     (if ''move'' \<in> set cmds then (ClassOrdered, Probed)
      else (case rows of
              rowsPresent \<Rightarrow> (ClassList, Probed)
            | rowsAbsent \<Rightarrow> (ClassSingleton, Probed)
            | rowsUnknown \<Rightarrow>
                if ''add'' \<in> set cmds \<or> ''find'' \<in> set cmds then (ClassList, Inferred)
                else (ClassSingleton, Inferred)))"

section \<open>Identity\<close>

definition identityCandidates :: "string list" where
  "identityCandidates = [''name'', ''comment'']"

fun preferredKey :: "string list \<Rightarrow> string go_map \<Rightarrow> string option" where
  "preferredKey [] tested = None"
| "preferredKey (want # rest) tested =
     (if map_get tested want = VUnique then Some want else preferredKey rest tested)"

definition provenKey :: "string go_map \<Rightarrow> string" where
  "provenKey tested =
     (case preferredKey identityCandidates tested of
        Some want \<Rightarrow> want
      | None \<Rightarrow>
          (case filter (\<lambda>field. map_get tested field = VUnique \<and> field \<notin> set identityCandidates) (sorted_keys tested) of
             [] \<Rightarrow> []
           | field # _ \<Rightarrow> field))"

definition allCandidatesDuplicate :: "string go_map \<Rightarrow> bool" where
  "allCandidatesDuplicate tested =
     (let probed = filter (\<lambda>want. fmlookup tested want \<noteq> None) identityCandidates;
          dup = filter (\<lambda>want. map_get tested want = VDuplicate) probed
      in 0 < length probed \<and> length probed = length dup)"

definition testedStep :: "keyVerdict \<Rightarrow> string go_map go_map \<Rightarrow> string go_map go_map" where
  "testedStep v out =
     (if kField v = [] then out
      else (let key = TrimPrefix (kPath v) ''/''
            in fmupd key (fmupd (kField v) (kVerdict v) (lookup_default fmempty out key)) out))"

definition testedByMenu :: "keyVerdict list \<Rightarrow> string go_map go_map" where
  "testedByMenu vs = fold testedStep vs fmempty"

definition verdictStep :: "verdict \<Rightarrow> string go_map \<Rightarrow> string go_map" where
  "verdictStep v out =
     (let path = TrimPrefix (vPath v) ''/''
      in if map_get out path = VDuplicate \<or> vVerdict v = VDuplicate then fmupd path VDuplicate out
         else if map_get out path = VUnique \<or> vVerdict v = VUnique then fmupd path VUnique out
         else fmupd path (vVerdict v) out)"

definition verdictsByMenu :: "verdict list \<Rightarrow> string go_map" where
  "verdictsByMenu vs = fold verdictStep vs fmempty"

definition identify :: "ir_Field list \<Rightarrow> string \<Rightarrow> string go_map \<Rightarrow> Identity" where
  "identify fs v tested =
     (let cands = filter (\<lambda>want. list_ex (\<lambda>f. fName f = want) fs) identityCandidates;
          id0 = \<lparr>Candidates = cands, idKey = [], idVerdict = (if v \<noteq> [] then v else VUnprobed), Tested = tested\<rparr>;
          key = provenKey tested
      in if key \<noteq> []
         then id0\<lparr>idKey := key, idVerdict := VUnique, Candidates := (if key \<in> set cands then cands else cands @ [key])\<rparr>
         else if allCandidatesDuplicate tested then id0\<lparr>idVerdict := VDuplicate\<rparr>
         else if idVerdict id0 = VUnique \<and> cands \<noteq> [] then id0\<lparr>idKey := hd cands\<rparr>
         else id0)"

section \<open>Fields\<close>

definition isBool :: "argType \<Rightarrow> bool" where
  "isBool a \<longleftrightarrow>
     aKind a = ''enum'' \<and> length (aValues a) = 2
     \<and> sort (aValues a) ! 0 = ''no'' \<and> sort (aValues a) ! 1 = ''yes''"

definition observedKey :: "string \<Rightarrow> string \<Rightarrow> string" where
  "observedKey path arg = path @ CHR 0x00 # arg"

definition fieldOf :: "observed go_map \<Rightarrow> argType \<Rightarrow> ir_Field" where
  "fieldOf seen a =
     (let f = \<lparr>fName = aArg a, fAccess = aAccess a, fKind = aKind a,
                fType = (if aTypes a \<noteq> [] then Join (aTypes a) ''|'' else []), fValues = aValues a, fRanges = aRanges a,
                fEvidence = (if aKind a \<noteq> KindUnknown then Probed else []), fSample = [], fBool = isBool a\<rparr>
      in if aKind a \<noteq> KindUnknown then f
         else (case fmlookup seen (observedKey (aPath a) (aArg a)) of
                 None \<Rightarrow> f
               | Some o' \<Rightarrow> f\<lparr>fKind := KindScalar, fType := oType o', fSample := oSample o', fEvidence := Observed,
                   fBool := (if oType o' = ''boolean'' then True else fBool f)\<rparr>))"

definition seenOf :: "observed list \<Rightarrow> observed go_map" where
  "seenOf os = fold (\<lambda>o'. fmupd (observedKey (oPath o') (oArg o')) o') os fmempty"

definition fieldStep :: "observed go_map \<Rightarrow> argType \<Rightarrow> ir_Field list go_map \<Rightarrow> ir_Field list go_map" where
  "fieldStep seen a out =
     (if aPath a = [] then out
      else fmupd (aPath a) (lookup_default [] out (aPath a) @ [fieldOf seen a]) out)"

definition fieldsByMenu :: "argType list \<Rightarrow> observed list \<Rightarrow> ir_Field list go_map" where
  "fieldsByMenu args os = fold (fieldStep (seenOf os)) args fmempty"

section \<open>Assembly\<close>

record tables =
  tFields :: "ir_Field list go_map"
  tVerdicts :: "string go_map"
  tRowless :: "rowEvidence go_map"
  tTested :: "string go_map go_map"

definition commandsOf :: "treeNode list \<Rightarrow> string list" where
  "commandsOf children = sort (map nodeName (filter (\<lambda>c. NodeType c = ''cmd'') children))"

definition menuOf :: "tables \<Rightarrow> string list \<Rightarrow> string list \<Rightarrow> ir_Menu" where
  "menuOf T p cmds =
     (let path = Join p ''/'';
          f = sort_key fName (lookup_default [] (tFields T) path);
          (class, ev) = classifyMenu cmds (lookup_default rowsUnknown (tRowless T) path)
      in \<lparr>irPath = ''/'' @ path, Class = class, Commands = cmds,
          irIdentity = identify f (map_get (tVerdicts T) path) (lookup_default fmempty (tTested T) path),
          irFields = f, Typed = (fmlookup (tFields T) path \<noteq> None),
          irWritable = (''add'' \<in> set cmds \<or> ''set'' \<in> set cmds), ClassEvidence = ev\<rparr>)"

fun walk :: "tables \<Rightarrow> treeNode list \<Rightarrow> string list \<Rightarrow> ir_Menu list" where
  "walk T [] path = []"
| "walk T (Node nm ty children # nodes) path =
     (if ty \<noteq> ''dir'' \<and> ty \<noteq> ''path'' then walk T nodes path
      else (let p = path @ [nm]; cmds = commandsOf children
            in if ''print'' \<notin> set cmds \<and> ''get'' \<notin> set cmds
               then walk T children p @ walk T nodes path
               else menuOf T p cmds # walk T children p @ walk T nodes path))"

definition tablesOf :: "argType list \<Rightarrow> verdict list \<Rightarrow> observed list \<Rightarrow> keyVerdict list \<Rightarrow> tables" where
  "tablesOf types uniq obs keys =
     \<lparr>tFields = fieldsByMenu types obs, tVerdicts = verdictsByMenu uniq, tRowless = rowlessByMenu types,
      tTested = testedByMenu keys\<rparr>"

definition assemble :: "treeNode list \<Rightarrow> argType list \<Rightarrow> verdict list \<Rightarrow> observed list \<Rightarrow> keyVerdict list \<Rightarrow> ir_Menu list" where
  "assemble tree types uniq obs keys = sort_key irPath (walk (tablesOf types uniq obs keys) tree [])"

definition buildIR ::
  "consoleTree \<Rightarrow> argType artifact \<Rightarrow> verdict artifact \<Rightarrow> observed artifact \<Rightarrow> keyVerdict artifact \<Rightarrow> IR" where
  "buildIR tree types uniq obs keys =
     \<lparr>RouterOSVersion = ctVersion tree, GeneratedBy = ''schema/cmd/buildir'',
      Sources =
        [\<lparr>Artifact = ''console-tree.json'', Producer = ctGeneratedBy tree, srcVersion = ctVersion tree, Platform = ctArchitecture tree\<rparr>,
         \<lparr>Artifact = ''arg-types.json'', Producer = arGeneratedBy types, srcVersion = arVersion types, Platform = arArchitecture types\<rparr>,
         \<lparr>Artifact = ''name-uniqueness.json'', Producer = arGeneratedBy uniq, srcVersion = arVersion uniq, Platform = []\<rparr>,
         \<lparr>Artifact = ''observed-types.json'', Producer = arGeneratedBy obs, srcVersion = arVersion obs, Platform = arArchitecture obs\<rparr>,
         \<lparr>Artifact = ''key-uniqueness.json'', Producer = arGeneratedBy keys, srcVersion = arVersion keys, Platform = arArchitecture keys\<rparr>],
      Menus = assemble (Tree tree) (arEntries types) (arEntries uniq) (arEntries obs) (arEntries keys)\<rparr>"

definition countWritable :: "IR \<Rightarrow> nat" where
  "countWritable ir = length (filter irWritable (Menus ir))"

section \<open>Which menus there are\<close>

text \<open>The nodes of the console tree an emitter can address, with the names on the way.\<close>

inductive reach :: "treeNode list \<Rightarrow> string list \<Rightarrow> treeNode \<Rightarrow> bool" where
  here: "Node nm ty cs \<in> set nodes \<Longrightarrow> ty \<in> {''dir'', ''path''} \<Longrightarrow> reach nodes [nm] (Node nm ty cs)"
| below: "Node nm ty cs \<in> set nodes \<Longrightarrow> ty \<in> {''dir'', ''path''} \<Longrightarrow> reach cs p n \<Longrightarrow> reach nodes (nm # p) n"

definition readable :: "treeNode \<Rightarrow> bool" where
  "readable n \<longleftrightarrow> ''print'' \<in> set (commandsOf (Children n)) \<or> ''get'' \<in> set (commandsOf (Children n))"

inductive_simps reach_Nil: "reach [] p n"

lemma reach_Cons:
  "reach (Node nm ty cs # nodes) p n \<longleftrightarrow>
     ty \<in> {''dir'', ''path''} \<and> (p = [nm] \<and> n = Node nm ty cs \<or> (\<exists>q. p = nm # q \<and> reach cs q n))
     \<or> reach nodes p n"
proof
  assume "reach (Node nm ty cs # nodes) p n"
  then show "ty \<in> {''dir'', ''path''} \<and> (p = [nm] \<and> n = Node nm ty cs \<or> (\<exists>q. p = nm # q \<and> reach cs q n))
     \<or> reach nodes p n"
    by (cases rule: reach.cases) (auto intro: reach.intros)
next
  have mono: "reach (x # nodes) p n" if "reach nodes p n" for x
    using that by (cases rule: reach.cases) (auto intro: reach.intros)
  assume "ty \<in> {''dir'', ''path''} \<and> (p = [nm] \<and> n = Node nm ty cs \<or> (\<exists>q. p = nm # q \<and> reach cs q n))
     \<or> reach nodes p n"
  then show "reach (Node nm ty cs # nodes) p n"
    using mono reach.here [of nm ty cs "Node nm ty cs # nodes"] reach.below [of nm ty cs "Node nm ty cs # nodes"]
    by auto
qed

lemma set_walk:
  "set (walk T nodes path) = {menuOf T (path @ p) (commandsOf (Children n)) | p n. reach nodes p n \<and> readable n}"
proof (induction T nodes path rule: walk.induct)
  case (1 T path)
  then show ?case by (simp add: reach_Nil)
next
  case (2 T nm ty children nodes path)
  let ?S = "\<lambda>nodes path. {menuOf T (path @ p) (commandsOf (Children n)) | p n. reach nodes p n \<and> readable n}"
  show ?case
  proof (cases "ty \<in> {''dir'', ''path''}")
    case False
    then show ?thesis using 2 by (auto simp: reach_Cons)
  next
    case True
    let ?n = "Node nm ty children"
    have split: "?S (?n # nodes) path =
        (if readable ?n then {menuOf T (path @ [nm]) (commandsOf children)} else {}) \<union> ?S children (path @ [nm]) \<union> ?S nodes path"
    proof -
      have "?S (?n # nodes) path = {menuOf T (path @ p) (commandsOf (Children n)) | p n. p = [nm] \<and> n = ?n \<and> readable n}
          \<union> {menuOf T (path @ p) (commandsOf (Children n)) | p n. (\<exists>q. p = nm # q \<and> reach children q n) \<and> readable n}
          \<union> ?S nodes path"
        using True unfolding reach_Cons by blast
      also have "{menuOf T (path @ p) (commandsOf (Children n)) | p n. p = [nm] \<and> n = ?n \<and> readable n}
          = (if readable ?n then {menuOf T (path @ [nm]) (commandsOf children)} else {})" by auto
      also have "{menuOf T (path @ p) (commandsOf (Children n)) | p n. (\<exists>q. p = nm # q \<and> reach children q n) \<and> readable n}
          = ?S children (path @ [nm])" by force
      finally show ?thesis .
    qed
    have dir: "\<not> (ty \<noteq> ''dir'' \<and> ty \<noteq> ''path'')" using True by blast
    have IH: "set (walk T children (path @ [nm])) = ?S children (path @ [nm]) \<and> set (walk T nodes path) = ?S nodes path"
      using "2.IH"(2-5) [OF dir refl refl] by blast
    show ?thesis
      unfolding split using True IH by (auto simp: readable_def Let_def)
  qed
qed

text \<open>
  C24: the representation covers the device. The assembled menus are exactly those for the nodes of
  the console tree that are reached through directories and offer print or get, wherever they sit and
  however deep; they come sorted by path, and looking a path up finds a menu exactly when there is
  one with that path.
\<close>

theorem assemble_exact:
  "set (assemble tree types uniq obs keys) =
     {menuOf (tablesOf types uniq obs keys) p (commandsOf (Children n)) | p n. reach tree p n \<and> readable n}
   \<and> sorted (map irPath (assemble tree types uniq obs keys))
   \<and> (findMenu (assemble tree types uniq obs keys) path = None \<longleftrightarrow>
        path \<notin> {''/'' @ Join p ''/'' | p n. reach tree p n \<and> readable n})"
proof -
  have find: "findMenu ms path = None \<longleftrightarrow> path \<notin> irPath ` set ms" for ms by (induction ms) auto
  have "irPath (menuOf T p cmds) = ''/'' @ Join p ''/''" for T p cmds
    by (simp add: menuOf_def Let_def split: prod.splits)
  then have paths: "irPath ` {menuOf T p (commandsOf (Children n)) | p n. reach tree p n \<and> readable n}
      = {''/'' @ Join p ''/'' | p n. reach tree p n \<and> readable n}" for T
    by (fastforce simp: image_def)
  show ?thesis unfolding find by (simp add: assemble_def set_walk paths)
qed

section \<open>What the probes said\<close>

lemma verdict_fold:
  "map_get (fold verdictStep vs out) path =
     (let vs' = filter (\<lambda>v. TrimPrefix (vPath v) ''/'' = path) vs; old = map_get out path
      in if vs' = [] then old
         else if old = VDuplicate \<or> list_ex (\<lambda>v. vVerdict v = VDuplicate) vs' then VDuplicate
         else if old = VUnique \<or> list_ex (\<lambda>v. vVerdict v = VUnique) vs' then VUnique
         else vVerdict (last vs'))"
proof (induction vs arbitrary: out)
  case (Cons v vs)
  have ne: "VUnique \<noteq> VDuplicate" by (simp add: VUnique_def VDuplicate_def)
  have step: "map_get (verdictStep v out) path =
      (if TrimPrefix (vPath v) ''/'' \<noteq> path then map_get out path
       else if map_get out path = VDuplicate \<or> vVerdict v = VDuplicate then VDuplicate
       else if map_get out path = VUnique \<or> vVerdict v = VUnique then VUnique else vVerdict v)"
    by (simp add: verdictStep_def Let_def lookup_default_def)
  show ?case
    unfolding fold_Cons o_apply Cons.IH step using ne by (auto simp: Let_def)
qed (simp add: Let_def)

text \<open>
  A menu probed several times keeps the strongest claim. Whatever the order of the probes, one
  DUPLICATE makes the menu DUPLICATE, otherwise one UNIQUE makes it UNIQUE, otherwise the last word
  counts, and a menu nobody probed has no verdict.
\<close>

theorem verdictsByMenu_strongest:
  "map_get (verdictsByMenu vs) path =
     (let vs' = filter (\<lambda>v. TrimPrefix (vPath v) ''/'' = path) vs
      in if list_ex (\<lambda>v. vVerdict v = VDuplicate) vs' then VDuplicate
         else if list_ex (\<lambda>v. vVerdict v = VUnique) vs' then VUnique
         else if vs' = [] then [] else vVerdict (last vs'))"
  unfolding verdictsByMenu_def verdict_fold
  by (auto simp: Let_def lookup_default_def VDuplicate_def VUnique_def)

lemma rowless_fold:
  "lookup_default rowsUnknown (fold rowlessStep args out) path =
     (let ro = filter (\<lambda>a. aPath a = path \<and> aAccess a = ''read-only'') args; old = lookup_default rowsUnknown out path
      in if old = rowsPresent \<or> list_ex (\<lambda>a. aCommand a = ''print'') ro then rowsPresent
         else if list_ex (\<lambda>a. aCommand a = ''get'') ro then rowsAbsent else old)"
proof (induction args arbitrary: out)
  case (Cons a args)
  have step: "lookup_default rowsUnknown (rowlessStep a out) path =
      (if aPath a = path \<and> aAccess a = ''read-only''
       then (if aCommand a = ''print'' then rowsPresent
             else if aCommand a = ''get'' \<and> lookup_default rowsUnknown out path \<noteq> rowsPresent then rowsAbsent
             else lookup_default rowsUnknown out path)
       else lookup_default rowsUnknown out path)"
    by (auto simp: rowlessStep_def lookup_default_def)
  show ?case unfolding fold_Cons o_apply Cons.IH step by (auto simp: Let_def)
qed (simp add: Let_def)

text \<open>
  The class of a menu rests on evidence where there is any. A menu with move is an ordered list;
  otherwise a read-only property reached through print makes it a list and one reached only through
  get makes it a singleton, both probed, whatever the order of the entries; only a menu without such
  a property is classified by its commands, and marked inferred.
\<close>

theorem class_by_evidence:
  "classifyMenu cmds (lookup_default rowsUnknown (rowlessByMenu args) path) =
     (let ro = filter (\<lambda>a. aPath a = path \<and> aAccess a = ''read-only'') args
      in if ''move'' \<in> set cmds then (ClassOrdered, Probed)
         else if list_ex (\<lambda>a. aCommand a = ''print'') ro then (ClassList, Probed)
         else if list_ex (\<lambda>a. aCommand a = ''get'') ro then (ClassSingleton, Probed)
         else ((if ''add'' \<in> set cmds \<or> ''find'' \<in> set cmds then ClassList else ClassSingleton), Inferred))"
  unfolding rowlessByMenu_def rowless_fold
  by (simp add: classifyMenu_def Let_def lookup_default_def)

lemma fields_fold:
  "lookup_default [] (fold (fieldStep seen) args out) path =
     lookup_default [] out path @ (if path = [] then [] else map (fieldOf seen) (filter (\<lambda>a. aPath a = path) args))"
proof (induction args arbitrary: out)
  case (Cons a args)
  have step: "lookup_default [] (fieldStep seen a out) path =
      lookup_default [] out path @ (if path \<noteq> [] \<and> aPath a = path then [fieldOf seen a] else [])"
    by (auto simp: fieldStep_def lookup_default_def)
  show ?case unfolding fold_Cons o_apply Cons.IH step by auto
qed simp

lemma sort_two: "sort [a, b] = (if (a :: string) \<le> b then [a, b] else [b, a])"
  by auto

lemma isBool_iff: "isBool a \<longleftrightarrow> aKind a = ''enum'' \<and> aValues a \<in> {[''no'', ''yes''], [''yes'', ''no'']}"
proof -
  have le: "''no'' \<le> ''yes''" "\<not> ''yes'' \<le> ''no''" by code_simp+
  show ?thesis
  proof (cases "\<exists>x y. aValues a = [x, y]")
    case True
    then obtain x y where v: "aValues a = [x, y]" by blast
    show ?thesis using le unfolding isBool_def v sort_two by auto
  next
    case False
    then have "length (aValues a) \<noteq> 2" by (auto simp: length_Suc_conv numeral_2_eq_2)
    then show ?thesis by (auto simp: isBool_def)
  qed
qed

text \<open>
  Fields keep their provenance. Every argument the console described becomes exactly one field of
  its menu, in order (the root's own arguments apart); a value the router returned types a field only
  where the console said nothing, and is marked as observed exactly then; and a field is a boolean by
  vocabulary exactly when it is an enumeration of no and yes.
\<close>

theorem fields_provenance:
  "lookup_default [] (fieldsByMenu args os) path =
     (if path = [] then [] else map (fieldOf (seenOf os)) (filter (\<lambda>a. aPath a = path) args))
   \<and> (fEvidence (fieldOf seen a) = Observed \<longleftrightarrow>
        aKind a = KindUnknown \<and> fmlookup seen (observedKey (aPath a) (aArg a)) \<noteq> None)
   \<and> (fEvidence (fieldOf seen a) = Probed \<longleftrightarrow> aKind a \<noteq> KindUnknown)
   \<and> (isBool a \<longleftrightarrow> aKind a = ''enum'' \<and> aValues a \<in> {[''no'', ''yes''], [''yes'', ''no'']})"
proof -
  have "lookup_default [] (fieldsByMenu args os) path =
     (if path = [] then [] else map (fieldOf (seenOf os)) (filter (\<lambda>a. aPath a = path) args))"
    unfolding fieldsByMenu_def fields_fold by (simp add: lookup_default_def)
  moreover have "(fEvidence (fieldOf seen a) = Observed \<longleftrightarrow>
        aKind a = KindUnknown \<and> fmlookup seen (observedKey (aPath a) (aArg a)) \<noteq> None)
      \<and> (fEvidence (fieldOf seen a) = Probed \<longleftrightarrow> aKind a \<noteq> KindUnknown)"
    by (auto simp: fieldOf_def Let_def Observed_def Probed_def split: option.splits)
  ultimately show ?thesis using isBool_iff by blast
qed

section \<open>Keys\<close>

lemma preferredKey_Some: "preferredKey ws tested = Some k \<Longrightarrow> k \<in> set ws \<and> map_get tested k = VUnique"
  by (induction ws) (auto split: if_splits)

lemma preferredKey_None: "preferredKey ws tested = None \<longleftrightarrow> (\<forall>w \<in> set ws. map_get tested w \<noteq> VUnique)"
  by (induction ws) auto

lemma unique_in_dom: "map_get tested k = VUnique \<Longrightarrow> k \<in> fmdom' tested"
  by (auto simp: lookup_default_def VUnique_def fmdom'_notD split: option.splits intro: ccontr)

lemma provenKey_unique: "provenKey tested \<noteq> [] \<Longrightarrow> map_get tested (provenKey tested) = VUnique"
  by (auto simp: provenKey_def dest: preferredKey_Some filter_eq_ConsD split: option.splits list.splits)

lemma provenKey_Nil:
  assumes "[] \<notin> fmdom' tested" and "provenKey tested = []"
  shows "map_get tested k \<noteq> VUnique"
proof
  assume k: "map_get tested k = VUnique"
  then have dom: "k \<in> fmdom' tested" by (rule unique_in_dom)
  have none: "preferredKey identityCandidates tested = None"
  proof (cases "preferredKey identityCandidates tested")
    case (Some w)
    then have "w \<in> set identityCandidates" using preferredKey_Some by blast
    then show ?thesis using assms(2) Some by (auto simp: provenKey_def identityCandidates_def)
  qed simp
  let ?others = "filter (\<lambda>field. map_get tested field = VUnique \<and> field \<notin> set identityCandidates) (sorted_keys tested)"
  have "k \<notin> set identityCandidates" using none k by (auto simp: preferredKey_None)
  then have "k \<in> set ?others" using k dom by simp
  then obtain f fs where fs: "?others = f # fs" by (cases ?others) auto
  then have "f \<in> set ?others" by simp
  then have "f \<noteq> []" using assms(1) by auto
  then show False using assms(2) none fs by (simp add: provenKey_def)
qed

text \<open>
  What backs a key. A menu that gets a key has the verdict UNIQUE and lists the key among its
  candidates. If the router was shown to enforce any field of the menu, the key is such a field;
  otherwise the menu's own verdict is UNIQUE and the key is the first conventional field it has.
\<close>

theorem identify_key:
  assumes "idKey (identify fs v tested) = k" and "k \<noteq> []" and "[] \<notin> fmdom' tested"
  shows "idVerdict (identify fs v tested) = VUnique \<and> k \<in> set (Candidates (identify fs v tested))
    \<and> (if \<exists>field. map_get tested field = VUnique then map_get tested k = VUnique
       else v = VUnique \<and> k = hd (filter (\<lambda>want. list_ex (\<lambda>f. fName f = want) fs) identityCandidates))"
proof (cases "provenKey tested = []")
  case False
  then have "k = provenKey tested" using assms(1) by (simp add: identify_def Let_def)
  then show ?thesis using False provenKey_unique [OF False] by (auto simp: identify_def Let_def)
next
  case True
  then have none: "\<not> (\<exists>field. map_get tested field = VUnique)" using provenKey_Nil [OF assms(3)] by blast
  have "\<not> allCandidatesDuplicate tested" using assms(1,2) True by (auto simp: identify_def Let_def)
  moreover have "hd (filter P identityCandidates) \<in> set (filter P identityCandidates)"
    if "filter P identityCandidates \<noteq> []" for P using that by (rule hd_in_set)
  moreover have "VUnprobed \<noteq> VUnique" by (simp add: VUnique_def VUnprobed_def)
  ultimately show ?thesis
    using assms(1,2) True none by (auto simp: identify_def Let_def simp del: set_filter split: if_splits)
qed

definition exField :: "string \<Rightarrow> ir_Field" where
  "exField nm = \<lparr>fName = nm, fAccess = ''writable'', fKind = ''scalar'', fType = [], fValues = [], fRanges = [],
     fEvidence = Probed, fSample = [], fBool = False\<rparr>"

theorem identify_key_witness:
  "idVerdict (identify [exField ''interface''] [] (fmap_of_list [(''interface'', VUnique)])) = VUnique"
proof -
  let ?t = "fmap_of_list [(''interface'', VUnique)]"
  have "idKey (identify [exField ''interface''] [] ?t) = ''interface''" "[] \<notin> fmdom' ?t" by code_simp+
  from identify_key [OF this(1) _ this(2)] show ?thesis by simp
qed

text \<open>
  A key can be a field the router was shown not to enforce. When the menu's verdict is UNIQUE,
  the probe accepted a duplicate of its name, and the probe of its comment was inconclusive, the
  identity is keyed on name, with name proven duplicate at the same time.
\<close>

theorem identify_key_duplicate:
  "let i = identify [exField ''comment'', exField ''name''] VUnique
       (fmap_of_list [(''name'', VDuplicate), (''comment'', VAmbiguous)])
   in idKey i = ''name'' \<and> ProvenDuplicate i ''name'' \<and> idVerdict i = VUnique"
  by code_simp

section \<open>Well-formed representations\<close>

definition wf_menu :: "ir_Menu \<Rightarrow> bool" where
  "wf_menu m \<longleftrightarrow>
     HasPrefix (irPath m) ''/''
     \<and> Class m \<in> {ClassOrdered, ClassList, ClassSingleton} \<and> ClassEvidence m \<in> {Probed, Inferred}
     \<and> (Class m = ClassOrdered \<longleftrightarrow> ''move'' \<in> set (Commands m))
     \<and> sorted (Commands m) \<and> (''print'' \<in> set (Commands m) \<or> ''get'' \<in> set (Commands m))
     \<and> (irWritable m \<longleftrightarrow> ''add'' \<in> set (Commands m) \<or> ''set'' \<in> set (Commands m))
     \<and> sorted (map fName (irFields m)) \<and> (Typed m \<or> irFields m = [])
     \<and> (idKey (irIdentity m) = [] \<or> idVerdict (irIdentity m) = VUnique \<and> idKey (irIdentity m) \<in> set (Candidates (irIdentity m)))"

lemma identify_wf:
  "idKey (identify fs v tested) = [] \<or>
     idVerdict (identify fs v tested) = VUnique \<and> idKey (identify fs v tested) \<in> set (Candidates (identify fs v tested))"
proof -
  have "hd cs \<in> set cs" if "cs \<noteq> []" for cs :: "string list" using that by (rule hd_in_set)
  moreover have "VUnprobed \<noteq> VUnique" by (simp add: VUnique_def VUnprobed_def)
  ultimately show ?thesis by (simp add: identify_def Let_def del: set_filter)
qed

lemma wf_menuOf:
  assumes "''print'' \<in> set cmds \<or> ''get'' \<in> set cmds" and "sorted cmds"
  shows "wf_menu (menuOf T p cmds)"
proof -
  have distinct: "ClassOrdered \<noteq> ClassList" "ClassOrdered \<noteq> ClassSingleton"
    by (simp_all add: ClassOrdered_def ClassList_def ClassSingleton_def)
  obtain c e where ce: "classifyMenu cmds (lookup_default rowsUnknown (tRowless T) (Join p ''/'')) = (c, e)" by fastforce
  then have cls: "c \<in> {ClassOrdered, ClassList, ClassSingleton}" "e \<in> {Probed, Inferred}" "c = ClassOrdered \<longleftrightarrow> ''move'' \<in> set cmds"
    using distinct by (auto simp: classifyMenu_def split: if_splits rowEvidence.splits)
  have typed: "fmlookup (tFields T) path \<noteq> None \<or> sort_key fName (lookup_default [] (tFields T) path) = []" for path
    by (simp add: lookup_default_def split: option.splits)
  show ?thesis
    using assms cls typed [of "Join p ''/''"] identify_wf
    by (simp add: wf_menu_def menuOf_def Let_def ce)
qed

text \<open>
  C25: the representation is well formed. Every menu has a slash-led path, a known class with known
  evidence, sorted commands that can read it, fields sorted by name that are only there when the
  menu was typed, is ordered exactly when it offers move, is writable exactly when it offers add or
  set, and has a key only under the verdict UNIQUE.
\<close>

theorem buildIR_wf: "list_all wf_menu (Menus (buildIR tree types uniq obs keys))"
proof -
  have "wf_menu (menuOf T p (commandsOf (Children n)))" if "readable n" for T p n
    using that by (intro wf_menuOf) (auto simp: readable_def commandsOf_def)
  then show ?thesis by (auto simp: buildIR_def assemble_def list_all_iff set_walk)
qed

end
