(* ===== verification/Routeros_Parse.thy ===== *)
theory Routeros_Parse
  imports Rest_Record
begin

text \<open>
  Package \<^verbatim>\<open>routeros\<close>, src/routeros/parse.go: the conversions the generated accessors call. They are a
  second copy of \<^verbatim>\<open>rest/scalar\<close> with errors turned into zero, and the printers that go with them. The
  lemmas show that the two copies agree on every input, and what a printed interval reads back to.
\<close>

section \<open>Definitions\<close>

definition parseBool :: "Record \<Rightarrow> string \<Rightarrow> bool" where
  "parseBool r key =
     (case fmlookup r key of
        None \<Rightarrow> False
      | Some v \<Rightarrow> if v = [] then True else EqualFold v ''true'' \<or> EqualFold v ''yes'')"

definition formatBool :: "bool \<Rightarrow> string" where
  "formatBool b = (if b then ''true'' else ''false'')"

text \<open>The loop of \<^verbatim>\<open>parseDuration\<close>; the expression and the units are those of \<^verbatim>\<open>rest/scalar\<close>.\<close>

function parseDurationLoop :: "string \<Rightarrow> int \<Rightarrow> int" where
  "parseDurationLoop s tot =
     (if s = [] then tot
      else (case durTerm s of
              None \<Rightarrow> 0
            | Some (ds, u, s') \<Rightarrow>
                (case ParseInt ds 10 of
                   Inl e \<Rightarrow> 0
                 | Inr n \<Rightarrow> parseDurationLoop s' (wrap64 (tot + wrap64 (n * durUnit u))))))"
  by pat_completeness auto
termination
  by (relation "measure (\<lambda>(s, tot). length s)") (auto dest: durTerm_shorter)

declare parseDurationLoop.simps [simp del]

definition parseDuration :: "string \<Rightarrow> int" where
  "parseDuration s = parseDurationLoop s 0"

text \<open>Go divides towards zero.\<close>

definition quot64 :: "int \<Rightarrow> int \<Rightarrow> int" where
  "quot64 a b = (if 0 \<le> a then a div b else - ((- a) div b))"

definition formatTable :: "(string \<times> int) list" where
  "formatTable = [(''w'', 7 * 24 * 3600 * 1000000000), (''d'', 24 * 3600 * 1000000000),
     (''h'', 3600 * 1000000000), (''m'', 60 * 1000000000), (''s'', 1000000000)]"

fun formatUnits :: "(string \<times> int) list \<Rightarrow> int \<Rightarrow> string \<Rightarrow> string \<times> int" where
  "formatUnits [] d b = (b, d)"
| "formatUnits ((suffix, unit) # us) d b =
     (let n = quot64 d unit
      in if 0 < n then formatUnits us (wrap64 (d - wrap64 (n * unit))) (b @ FormatInt n @ suffix)
         else formatUnits us d b)"

definition formatDuration :: "int \<Rightarrow> string" where
  "formatDuration d =
     (if d = 0 then ''0s''
      else (let (b, d') = formatUnits formatTable d []; ms = quot64 d' 1000000
            in if 0 < ms then b @ FormatInt ms @ ''ms'' else b))"

definition parseInt :: "string \<Rightarrow> int" where
  "parseInt s =
     (if s = [] then 0
      else (let neg = HasPrefix s ''-'';
                digits = TrimPrefix s ''-'';
                hex = 2 < length digits \<and> hd digits = CHR ''0''
                      \<and> (digits ! 1 = CHR ''x'' \<or> digits ! 1 = CHR ''X'');
                (digits', base) = (if hex then (drop 2 digits, 16) else (digits, 10));
                digits'' = (if neg then CHR ''-'' # digits' else digits')
            in case ParseInt digits'' base of Inl e \<Rightarrow> 0 | Inr n \<Rightarrow> n))"

definition formatInt :: "int \<Rightarrow> string" where
  "formatInt n = FormatInt n"

section \<open>Agreement with rest/scalar\<close>

lemma parseDurationLoop_scalar:
  "parseDurationLoop s tot = (case durationLoop s0 s tot of Inl e \<Rightarrow> 0 | Inr d \<Rightarrow> d)"
proof (induction s tot rule: parseDurationLoop.induct)
  case (1 s tot)
  show ?case
    using 1 by (simp add: parseDurationLoop.simps [of s tot] durationLoop.simps [of s0 s tot] split: option.split sum.split)
qed

lemma parseDuration_scalar: "parseDuration s = (case Duration s of Inl e \<Rightarrow> 0 | Inr d \<Rightarrow> d)"
  by (simp add: parseDuration_def Duration_def parseDurationLoop_scalar [of s 0 s] durationLoop.simps [of "[]"])

lemma parseInt_scalar: "parseInt s = (case Int_scalar s of Inl e \<Rightarrow> 0 | Inr n \<Rightarrow> n)"
  by (simp add: parseInt_def Int_scalar_def split_def Let_def split: sum.split)

lemma parseInt_formatInt: "in_int64 n \<Longrightarrow> parseInt (formatInt n) = n"
proof -
  assume "in_int64 n"
  then have "ParseInt (FormatInt n) 10 = Inr n" by (simp add: in_int64_def ParseInt_FormatInt)
  moreover have "FormatInt n \<noteq> []" by (simp add: FormatInt_def)
  ultimately show ?thesis by (simp add: parseInt_scalar Int_scalar_def formatInt_def split_FormatInt)
qed

text \<open>
  The two copies of the scalar parsers agree. On every input the typed layer reads what
  \<^verbatim>\<open>rest/scalar\<close> reads, and zero where \<^verbatim>\<open>rest/scalar\<close> reports an error; a flag is read as
  \<^verbatim>\<open>scalar.Bool\<close> reads it when present and is false when absent.
\<close>

theorem parse_agrees_with_scalar:
  "parseDuration s = (case Duration s of Inl e \<Rightarrow> 0 | Inr d \<Rightarrow> d)
   \<and> parseInt s = (case Int_scalar s of Inl e \<Rightarrow> 0 | Inr n \<Rightarrow> n)
   \<and> parseBool r key = (case fmlookup r key of None \<Rightarrow> False | Some v \<Rightarrow> Bool v)"
proof (intro conjI)
  show "parseDuration s = (case Duration s of Inl e \<Rightarrow> 0 | Inr d \<Rightarrow> d)" by (rule parseDuration_scalar)
  show "parseInt s = (case Int_scalar s of Inl e \<Rightarrow> 0 | Inr n \<Rightarrow> n)"
    by (rule parseInt_scalar)
  show "parseBool r key = (case fmlookup r key of None \<Rightarrow> False | Some v \<Rightarrow> Bool v)"
    by (simp add: parseBool_def Bool_def split: option.split)
qed

section \<open>Printing intervals\<close>

lemma is_digit_show_nat: "list_all is_digit (show_nat n)"
proof -
  have "is_digit (digit_char d)" if "d < 10" for d
    using that by (simp add: digit_val_decimal is_digit_def)
  then show ?thesis using show_base_digits [of 10] by (fastforce simp: list_all_iff)
qed

lemma decimal_show_nat: "decimal (show_nat n) = n"
proof -
  have "n < 2 ^ n" by (rule less_exp)
  then show ?thesis
    using ParseUint_show_base [of 10 n n] ParseUint_decimal [OF is_digit_show_nat, of n n]
    by (auto split: if_splits)
qed

lemma term_ok_show_nat: "u \<in> dur_units \<Longrightarrow> term_ok (show_nat n, u)"
  by (simp add: term_ok_def is_digit_show_nat)

lemma render_snoc: "render (ts @ [(ds, u)]) = render ts @ ds @ u"
  by (simp add: render_def)

lemma formatUnits_spec:
  assumes "list_all (\<lambda>(u, unit). u \<in> dur_units \<and> durUnit u = unit \<and> 0 < unit \<and> unit mod 1000000 = 0) us"
    and "0 \<le> d" "d < 2 ^ 63" and "interval ts"
  shows "\<exists>ts' d'. formatUnits us d (render ts) = (render ts', d') \<and> interval ts' \<and> 0 \<le> d' \<and> d' \<le> d
    \<and> total_of ts' + d' = total_of ts + d \<and> d' mod 1000000 = d mod 1000000"
  using assms
proof (induction us arbitrary: d ts)
  case (Cons p us)
  obtain u unit where p: "p = (u, unit)" by (cases p)
  have u: "u \<in> dur_units" "durUnit u = unit" "0 < unit" "unit mod 1000000 = 0" using Cons.prems(1) p by auto
  let ?n = "d div unit"
  have n: "quot64 d unit = ?n" using Cons.prems by (simp add: quot64_def)
  show ?case
  proof (cases "0 < ?n")
    case True
    have rest: "d - ?n * unit = d mod unit" by (rule minus_div_mult_eq_mod)
    have le: "0 \<le> d - ?n * unit" "?n * unit \<le> d" using rest pos_mod_sign [OF u(3), of d] by linarith+
    have "0 \<le> ?n * unit" using True u(3) by simp
    note le = le this
    have nd: "?n \<le> d" using le(2) True u(3) mult_left_mono [of 1 unit ?n] by linarith
    have wrap: "wrap64 (d - wrap64 (?n * unit)) = d - ?n * unit"
      using le Cons.prems(3) by (simp add: wrap64_bounds)
    let ?ts = "ts @ [(show_nat (nat ?n), u)]"
    have "nat ?n < 2 ^ 63" using nd Cons.prems(3) True by (simp add: nat_less_iff)
    then have ts: "interval ?ts" using Cons.prems(4) u(1) by (auto simp: interval_def term_ok_show_nat decimal_show_nat)
    have fmt: "FormatInt ?n = show_nat (nat ?n)" using True by (simp add: FormatInt_def)
    have tot: "total_of ?ts = total_of ts + ?n * unit" using True u(2) by (simp add: total_of_def decimal_show_nat)
    obtain ts' d' where IH: "formatUnits us (d - ?n * unit) (render ?ts) = (render ts', d')" "interval ts'" "0 \<le> d'"
        "d' \<le> d - ?n * unit" "total_of ts' + d' = total_of ?ts + (d - ?n * unit)"
        "d' mod 1000000 = (d - ?n * unit) mod 1000000"
      using Cons.IH [of "d - ?n * unit" ?ts] Cons.prems le ts by auto
    have "(d - ?n * unit) mod 1000000 = d mod 1000000"
      using u(4) by (simp add: mod_diff_eq [symmetric] mod_mult_eq [symmetric])
    moreover have "formatUnits (p # us) d (render ts) = (render ts', d')"
      using IH(1) True n wrap by (simp add: p Let_def fmt render_snoc)
    ultimately show ?thesis using IH le tot
      by (intro exI [of _ ts'] exI [of _ d']) simp
  next
    case False
    then show ?thesis using Cons n p by (simp add: Let_def)
  qed
qed auto

lemma parseDuration_formatDuration:
  assumes "0 \<le> d" and "d < 2 ^ 63"
  shows "parseDuration (formatDuration d) = d - d mod 1000000"
proof (cases "d = 0")
  case True
  have "Duration (render [(''0'', ''s'')]) = Inr (wrap64 (total_of [(''0'', ''s'')]))"
    by (rule Duration_render) (simp_all add: term_ok_def is_digit_def decimal_def)
  then have "Duration ''0s'' = Inr 0" by (simp add: render_def total_of_def decimal_def wrap64_bounds)
  then show ?thesis using True by (simp add: formatDuration_def parseDuration_scalar)
next
  case False
  have table: "list_all (\<lambda>(u, unit). u \<in> dur_units \<and> durUnit u = unit \<and> 0 < unit \<and> unit mod 1000000 = 0) formatTable"
    by (simp add: formatTable_def durUnit_def)
  obtain ts d' where f: "formatUnits formatTable d (render []) = (render ts, d')" "interval ts" "0 \<le> d'" "d' \<le> d"
      "total_of ts + d' = total_of [] + d" "d' mod 1000000 = d mod 1000000"
    using formatUnits_spec [OF table assms, of "[]"] by (auto simp: interval_def)
  let ?ms = "d' div 1000000"
  let ?ts = "if 0 < ?ms then ts @ [(show_nat (nat ?ms), ''ms'')] else ts"
  have "?ms < 2 ^ 63" using f(3,4) assms by linarith
  then have ok: "interval ?ts" using f(2) by (auto simp: interval_def term_ok_show_nat decimal_show_nat nat_less_iff)
  have "formatDuration d = render ?ts"
    using f(1,3) False by (simp add: formatDuration_def quot64_def Let_def FormatInt_def render_def)
  moreover have "Duration (render ?ts) = Inr (wrap64 (total_of ?ts))"
    using ok by (intro Duration_render) (simp_all add: interval_def)
  moreover have "total_of ?ts = d - d mod 1000000"
  proof -
    have "total_of ?ts = total_of ts + ?ms * 1000000"
      using f(3) by (auto simp: total_of_def decimal_show_nat durUnit_def pos_imp_zdiv_pos_iff)
    moreover have "?ms * 1000000 = d' - d mod 1000000" using f(6) by (metis minus_mod_eq_div_mult)
    ultimately show ?thesis using f(5) by (simp add: total_of_def)
  qed
  moreover have "0 \<le> d - d mod 1000000" using assms by (simp add: zmod_le_nonneg_dividend)
  ultimately show ?thesis using assms(2) by (simp add: parseDuration_scalar wrap64_bounds)
qed

text \<open>
  Printed intervals read back. Every non-negative interval is read back from its printed form
  rounded down to whole milliseconds, the finest unit of RouterOS; in particular every interval of
  whole milliseconds survives the round trip.
\<close>

theorem formatDuration_roundtrip:
  assumes "0 \<le> d" and "d < 2 ^ 63"
  shows "parseDuration (formatDuration d) = d - d mod 1000000"
  by (rule parseDuration_formatDuration [OF assms])

theorem formatDuration_roundtrip_witness:
  "parseDuration (formatDuration 3154000123456) = 3154000000000"
proof -
  have "(0 :: int) \<le> 3154000123456" "(3154000123456 :: int) < 2 ^ 63" by simp_all
  from formatDuration_roundtrip [OF this] show ?thesis by simp
qed

text \<open>
  Negative intervals are lost. Below zero \<^verbatim>\<open>formatDuration\<close> prints nothing at all, which
  \<^verbatim>\<open>parseDuration\<close> reads as zero, the value of an unset interval.
\<close>

theorem formatDuration_negative:
  assumes "d < 0"
  shows "formatDuration d = [] \<and> parseDuration (formatDuration d) = 0"
proof -
  have q: "\<not> 0 < quot64 d unit" if "0 < unit" for unit
    using assms that by (simp add: quot64_def not_less pos_imp_zdiv_nonneg_iff)
  have "formatUnits formatTable d [] = ([], d)" using q by (simp add: formatTable_def Let_def)
  then have "formatDuration d = []" using assms q [of 1000000] by (simp add: formatDuration_def Let_def)
  then show ?thesis by (simp add: parseDuration_def parseDurationLoop.simps)
qed

theorem formatDuration_negative_witness: "formatDuration (-1000000000) = [] \<and> parseDuration (formatDuration (-1000000000)) = 0"
  by (rule formatDuration_negative) simp

end
