(* ===== verification/Go_Gen.thy ===== *)
theory Go_Gen
  imports Schema_IR Routeros_Parse
begin

text \<open>
  src/gen/main.go: the generator that turns menus of the IR into typed Go accessors. The text it
  writes is modelled as the string it writes, before \<^verbatim>\<open>format.Source\<close> aligns it; what the emitted
  expressions mean is given next to it, over the codec of src/routeros/parse.go they call.

  RouterOS identifiers are ASCII; \<^verbatim>\<open>unicode.IsLetter\<close>, \<^verbatim>\<open>IsDigit\<close> and \<^verbatim>\<open>ToUpper\<close> are modelled for
  ASCII, and the theorems on names say so.
\<close>

section \<open>Names\<close>

definition isLower :: "char \<Rightarrow> bool" where
  "isLower c \<longleftrightarrow> 97 \<le> (of_char c :: nat) \<and> (of_char c :: nat) \<le> 122"

definition isUpper :: "char \<Rightarrow> bool" where
  "isUpper c \<longleftrightarrow> 65 \<le> (of_char c :: nat) \<and> (of_char c :: nat) \<le> 90"

definition isLetter :: "char \<Rightarrow> bool" where
  "isLetter c \<longleftrightarrow> isLower c \<or> isUpper c"

definition toUpper :: "char \<Rightarrow> char" where
  "toUpper c = (if isLower c then char_of (of_char c - 32 :: nat) else c)"

fun camel :: "bool \<Rightarrow> string \<Rightarrow> string" where
  "camel upper [] = []"
| "camel upper (r # rs) =
     (if \<not> isLetter r \<and> \<not> is_digit r then camel True rs
      else if upper then toUpper r # camel False rs
      else r # camel False rs)"

definition goName :: "string \<Rightarrow> string" where
  "goName s =
     (let (prefix, s') = (if HasPrefix s ''!'' then (''Not'', TrimPrefix s ''!'') else ([], s));
          out = prefix @ camel True s'
      in if out = [] then ''Empty''
         else if is_digit (hd out) then CHR ''N'' # out
         else out)"

definition typeName :: "string \<Rightarrow> string" where
  "typeName path = concat (map goName (Split (TrimPrefix path ''/'') (CHR ''/'')))"

section \<open>Fields\<close>

definition KindEnum :: string where
  "KindEnum = ''enum''"

definition Writable :: string where
  "Writable = ''writable''"

definition ReadOnly :: string where
  "ReadOnly = ''read-only''"

text \<open>A field the router did not describe is left out.\<close>

definition skip :: "ir_Field \<Rightarrow> bool" where
  "skip f \<longleftrightarrow> fKind f = KindUnknown"

definition noteOf :: "ir_Field \<Rightarrow> string" where
  "noteOf f =
     (let parts = (if fAccess f = ReadOnly then [''read-only''] else []) @ (if fType f \<noteq> [] then [fType f] else [])
      in if parts = [] then [] else '' ('' @ Join parts '', '' @ '')'')"

definition writability :: "ir_Menu \<Rightarrow> string" where
  "writability m = (if irWritable m then ''writable'' else ''read-only'')"

definition isDuration :: "ir_Field \<Rightarrow> bool" where
  "isDuration f \<longleftrightarrow> fKind f = KindScalar \<and> Contains (fType f) ''time interval''"

definition isInteger :: "ir_Field \<Rightarrow> bool" where
  "isInteger f \<longleftrightarrow> fKind f = KindScalar \<and> Contains (fType f) ''integer number'' \<and> \<not> Contains (fType f) ''IP address''"

definition goType :: "string \<Rightarrow> ir_Field \<Rightarrow> string" where
  "goType menu f =
     (if fBool f then ''bool''
      else if isDuration f then ''time.Duration''
      else if isInteger f then ''int64''
      else if fKind f = KindEnum \<and> fValues f \<noteq> [] then menu @ goName (fName f)
      else ''string'')"

section \<open>Emitted text\<close>

abbreviation nl :: string where "nl \<equiv> [CHR 0x0A]"
abbreviation tab :: string where "tab \<equiv> [CHR 0x09]"
abbreviation dq :: string where "dq \<equiv> [CHR 0x22]"
abbreviation dash :: string where "dash \<equiv> [CHR 0xE2, CHR 0x80, CHR 0x94]"

text \<open>\<^verbatim>\<open>%q\<close>; a byte of a multi-byte character stays as it is.\<close>

definition quoteChar :: "char \<Rightarrow> string" where
  "quoteChar c =
     (let n = (of_char c :: nat)
      in if n = 34 \<or> n = 92 then [CHR 0x5C, c]
         else if n = 7 then [CHR 0x5C, CHR ''a'']
         else if n = 8 then [CHR 0x5C, CHR ''b'']
         else if n = 12 then [CHR 0x5C, CHR ''f'']
         else if n = 10 then [CHR 0x5C, CHR ''n'']
         else if n = 13 then [CHR 0x5C, CHR ''r'']
         else if n = 9 then [CHR 0x5C, CHR ''t'']
         else if n = 11 then [CHR 0x5C, CHR ''v'']
         else if n < 32 \<or> n = 127 then [CHR 0x5C, CHR ''x'', digit_char (n div 16), digit_char (n mod 16)]
         else [c])"

definition Quote :: "string \<Rightarrow> string" where
  "Quote s = dq @ concat (map quoteChar s) @ dq"

definition decodeExpr :: "string \<Rightarrow> ir_Field \<Rightarrow> string" where
  "decodeExpr menu f =
     (if fBool f then ''parseBool(r, '' @ Quote (fName f) @ '')''
      else if isDuration f then ''parseDuration(r['' @ Quote (fName f) @ ''])''
      else if isInteger f then ''parseInt(r['' @ Quote (fName f) @ ''])''
      else if fKind f = KindEnum \<and> fValues f \<noteq> []
      then menu @ goName (fName f) @ ''(r['' @ Quote (fName f) @ ''])''
      else ''r['' @ Quote (fName f) @ '']'')"

definition encodeExpr :: "ir_Field \<Rightarrow> string" where
  "encodeExpr f =
     (let g = ''v.'' @ goName (fName f)
      in if fBool f then ''formatBool('' @ g @ '')''
         else if isDuration f then ''formatDuration('' @ g @ '')''
         else if isInteger f then ''formatInt('' @ g @ '')''
         else if fKind f = KindEnum \<and> fValues f \<noteq> [] then ''string('' @ g @ '')''
         else g)"

text \<open>
  The names of the constants of a vocabulary: a spelling that lands on an identifier already used is
  numbered.
\<close>

fun enumConsts :: "string \<Rightarrow> string list \<Rightarrow> nat go_map \<Rightarrow> (string \<times> string) list" where
  "enumConsts en [] seen = []"
| "enumConsts en (v # vs) seen =
     (let cn = en @ goName v; n = lookup_default 0 seen cn
      in if 0 < n then (cn @ show_nat (n + 1), v) # enumConsts en vs (fmupd cn (n + 1) seen)
         else (cn, v) # enumConsts en vs (fmupd cn 1 seen))"

definition hasVocabulary :: "ir_Field \<Rightarrow> bool" where
  "hasVocabulary f \<longleftrightarrow> \<not> (fKind f \<noteq> KindEnum \<or> fBool f \<or> fValues f = [])"

definition emitEnum :: "string \<Rightarrow> ir_Menu \<Rightarrow> ir_Field \<Rightarrow> string" where
  "emitEnum name m f =
     (if \<not> hasVocabulary f then []
      else let en = name @ goName (fName f)
           in ''// '' @ en @ '' is the vocabulary the router states for '' @ irPath m @ '' '' @ fName f @ ''.'' @ nl
              @ ''type '' @ en @ '' string'' @ nl @ nl @ ''const ('' @ nl
              @ concat (map (\<lambda>(cn, v). tab @ cn @ '' '' @ en @ '' = '' @ Quote v @ nl) (enumConsts en (fValues f) fmempty))
              @ '')'' @ nl @ nl)"

definition emitEnums :: "string \<Rightarrow> ir_Menu \<Rightarrow> string" where
  "emitEnums name m = concat (map (emitEnum name m) (irFields m))"

definition emitDoc :: "string \<Rightarrow> ir_Menu \<Rightarrow> string" where
  "emitDoc name m =
     ''// '' @ name @ '' is '' @ irPath m @ ''.'' @ nl @ ''//'' @ nl
     @ ''// '' @ Class m @ '', '' @ writability m @ ''.''
     @ (if idKey (irIdentity m) \<noteq> []
        then '' Rows are addressable by '' @ idKey (irIdentity m) @ '', which this RouterOS enforces unique.'' @ nl
        else if Rows m
        then '' No field is a proven unique key here ('' @ idVerdict (irIdentity m) @ ''), so a caller'' @ nl
             @ ''// addressing rows needs one of its own.'' @ nl
        else nl)
     @ ''const '' @ name @ ''Path = '' @ Quote (irPath m) @ nl @ nl"

definition emitSkipped :: "ir_Menu \<Rightarrow> string" where
  "emitSkipped m =
     (let skipped = map fName (filter skip (irFields m))
      in if length skipped = length (irFields m) \<and> 0 < length (irFields m)
         then ''// The router states no type for any of the '' @ show_nat (length (irFields m)) @ '' fields here, so there is'' @ nl
              @ ''// nothing to generate. A read-only property of a menu that holds no rows'' @ nl
              @ ''// has no console position to ask about: `set` will not take it and'' @ nl
              @ ''// `print where` has nothing to filter. Typing it needs evidence of a'' @ nl
              @ ''// different kind '' @ dash @ '' the values themselves '' @ dash @ '' which the IR does not yet carry.'' @ nl
         else if 0 < length skipped
         then ''// Omitted, the router having stated no type: '' @ Join skipped '', '' @ ''.'' @ nl
         else [])"

definition emitStruct :: "string \<Rightarrow> ir_Menu \<Rightarrow> string" where
  "emitStruct name m =
     emitSkipped m
     @ ''type '' @ name @ '' struct {'' @ nl
     @ (if Rows m
        then tab @ ''// ID is the router's own row handle. It is reassigned when a row is'' @ nl
             @ tab @ ''// deleted and recreated, so it addresses a row and does not identify one.'' @ nl
             @ tab @ ''ID string'' @ nl @ nl
        else [])
     @ concat (map (\<lambda>f. tab @ goName (fName f) @ '' '' @ goType name f @ '' // '' @ fName f @ noteOf f @ nl)
         (filter (\<lambda>f. \<not> skip f) (irFields m)))
     @ ''}'' @ nl @ nl"

definition emitDecode :: "string \<Rightarrow> ir_Menu \<Rightarrow> string" where
  "emitDecode name m =
     ''// Decode'' @ name @ '' reads one record as the router returned it.'' @ nl
     @ ''func Decode'' @ name @ ''(r map[string]string) '' @ name @ '' {'' @ nl @ tab @ ''var v '' @ name @ nl
     @ (if Rows m then tab @ ''v.ID = r['' @ dq @ ''.id'' @ dq @ '']'' @ nl else [])
     @ concat (map (\<lambda>f. tab @ ''v.'' @ goName (fName f) @ '' = '' @ decodeExpr name f @ nl)
         (filter (\<lambda>f. \<not> skip f) (irFields m)))
     @ tab @ ''return v'' @ nl @ ''}'' @ nl @ nl"

definition encoded :: "ir_Field \<Rightarrow> bool" where
  "encoded f \<longleftrightarrow> \<not> (skip f \<or> fAccess f \<noteq> Writable)"

definition emitEncode :: "string \<Rightarrow> ir_Menu \<Rightarrow> string" where
  "emitEncode name m =
     (let writables = length (filter (\<lambda>f. \<not> skip f \<and> fAccess f = Writable) (irFields m))
      in ''// Encode returns the writable fields as the router expects them.'' @ nl
         @ (if writables = 0
            then ''// '' @ name @ '' has none: the device maintains this menu.'' @ nl
            else ''// Read-only fields are omitted; sending one back is how a caller'' @ nl
                 @ ''// discovers that the router rejects unknown parameters.'' @ nl)
         @ ''func (v '' @ name @ '') Encode() map[string]string {'' @ nl @ tab @ ''r := map[string]string{}'' @ nl
         @ concat (map (\<lambda>f. tab @ ''r['' @ Quote (fName f) @ ''] = '' @ encodeExpr f @ nl) (filter encoded (irFields m)))
         @ tab @ ''return r'' @ nl @ ''}'' @ nl @ nl)"

definition emitMenu :: "ir_Menu \<Rightarrow> string" where
  "emitMenu m =
     (let name = typeName (irPath m)
      in emitEnums name m @ emitDoc name m @ emitStruct name m @ emitDecode name m @ emitEncode name m)"

section \<open>The generated file\<close>

definition spike :: "string list" where
  "spike = [''/ip/address'', ''/interface/bridge'', ''/ip/firewall/filter'', ''/system/resource'', ''/interface'',
     ''/routing/bgp/session'', ''/system/health'', ''/system/routerboard'']"

definition emitHeader :: "IR \<Rightarrow> string" where
  "emitHeader ir =
     ''// Code generated by gen from RouterOS '' @ RouterOSVersion ir @ ''. DO NOT EDIT.'' @ nl @ nl
     @ ''// Package routeros is a typed view of a few RouterOS menus.'' @ nl
     @ ''//'' @ nl
     @ ''// Every value RouterOS returns is a string; these types say what each one'' @ nl
     @ ''// means, on the router's own authority rather than a schema written by hand.'' @ nl
     @ ''package routeros'' @ nl @ nl
     @ ''import '' @ dq @ ''time'' @ dq @ nl @ nl"

text \<open>The loop over the requested paths: the buffer and the paths the IR does not have.\<close>

fun emitMenus :: "IR \<Rightarrow> string list \<Rightarrow> string \<Rightarrow> string list \<Rightarrow> string \<times> string list" where
  "emitMenus ir [] b absent = (b, absent)"
| "emitMenus ir (path # ps) b absent =
     (case IR_Menu ir path of
        None \<Rightarrow> emitMenus ir ps b (absent @ [path])
      | Some m \<Rightarrow> emitMenus ir ps (b @ emitMenu m) absent)"

definition emitAbsent :: "IR \<Rightarrow> string list \<Rightarrow> string" where
  "emitAbsent ir absent =
     (if 0 < length absent
      then ''// Requested but absent from the IR, which was probed on '' @ RouterOSVersion ir @ '':'' @ nl
           @ concat (map (\<lambda>path. ''//   '' @ path @ nl) absent)
           @ ''// A menu the probed device does not have cannot be typed from it.'' @ nl
           @ ''// Generating one anyway would mean sourcing it from somewhere with no'' @ nl
           @ ''// authority over what this router accepts.'' @ nl @ nl
      else [])"

definition generate :: "IR \<Rightarrow> string \<times> nat" where
  "generate ir =
     (case emitMenus ir spike (emitHeader ir) [] of
        (b, absent) \<Rightarrow> (b @ emitAbsent ir absent, length spike - length absent))"

section \<open>Identifiers\<close>

definition ascii :: "string \<Rightarrow> bool" where
  "ascii s \<longleftrightarrow> list_all (\<lambda>c. (of_char c :: nat) < 128) s"

text \<open>An exported Go identifier: an upper-case letter, then letters and digits.\<close>

definition exported :: "string \<Rightarrow> bool" where
  "exported s \<longleftrightarrow> s \<noteq> [] \<and> isUpper (hd s) \<and> list_all (\<lambda>c. isLetter c \<or> is_digit c) s"

lemma toUpper_letter: "isLetter c \<Longrightarrow> isUpper (toUpper c)"
  by (auto simp: toUpper_def isLetter_def isUpper_def isLower_def)

lemma toUpper_digit: "is_digit c \<Longrightarrow> toUpper c = c"
  by (auto simp: toUpper_def isLower_def is_digit_def)

lemma camel_alnum: "list_all (\<lambda>c. isLetter c \<or> is_digit c) (camel up s)"
proof (induction up s rule: camel.induct)
  case (2 upper r rs)
  then show ?case using toUpper_letter [of r] toUpper_digit [of r] by (auto simp: isLetter_def)
qed simp

lemma camel_hd: "camel True s \<noteq> [] \<Longrightarrow> isUpper (hd (camel True s)) \<or> is_digit (hd (camel True s))"
proof (induction s)
  case (Cons r rs)
  then show ?case using toUpper_letter [of r] toUpper_digit [of r] by auto
qed simp

text \<open>
  Every RouterOS name becomes an exported Go identifier, whatever characters it is made of, so
  that the emitted declarations parse and are visible outside the package.
\<close>

theorem goName_exported: "exported (goName s)"
proof -
  define t where "t = (if HasPrefix s ''!'' then TrimPrefix s ''!'' else s)"
  define p where "p = (if HasPrefix s ''!'' then ''Not'' else [])"
  have g: "goName s = (if p @ camel True t = [] then ''Empty''
      else if is_digit (hd (p @ camel True t)) then CHR ''N'' # p @ camel True t else p @ camel True t)"
    by (simp add: goName_def t_def p_def Let_def)
  have letters: "isUpper (CHR ''N'')" "isLetter (CHR ''N'')" "isLetter (CHR ''o'')" "isLetter (CHR ''t'')"
      "isUpper (CHR ''E'')" "isLetter (CHR ''E'')" "isLetter (CHR ''m'')" "isLetter (CHR ''p'')" "isLetter (CHR ''y'')"
      "\<not> is_digit (CHR ''N'')"
    by (simp_all add: isUpper_def isLetter_def isLower_def is_digit_def)
  have p: "list_all (\<lambda>c. isLetter c \<or> is_digit c) p" "p \<noteq> [] \<Longrightarrow> hd p = CHR ''N''"
    using letters by (auto simp: p_def)
  show ?thesis
    unfolding g exported_def using letters p camel_alnum [of True t] camel_hd [of t]
    by (auto simp: hd_append)
qed

text \<open>
  A vocabulary whose values have different names gets one constant for each value, in order, under
  different names.
\<close>

lemma enumConsts_fresh:
  assumes "distinct (map goName vs)" and "\<And>v. v \<in> set vs \<Longrightarrow> fmlookup seen (en @ goName v) = None"
  shows "enumConsts en vs seen = map (\<lambda>v. (en @ goName v, v)) vs"
  using assms
proof (induction vs arbitrary: seen)
  case (Cons v vs)
  have "enumConsts en vs (fmupd (en @ goName v) 1 seen) = map (\<lambda>v. (en @ goName v, v)) vs"
    using Cons.prems by (intro Cons.IH) auto
  then show ?case using Cons.prems(2) [of v] by (simp add: Let_def lookup_default_def)
qed simp

theorem enumConsts_distinct:
  assumes "distinct (map goName vs)"
  shows "enumConsts en vs fmempty = map (\<lambda>v. (en @ goName v, v)) vs \<and> distinct (map fst (enumConsts en vs fmempty))"
proof -
  have "enumConsts en vs fmempty = map (\<lambda>v. (en @ goName v, v)) vs" using enumConsts_fresh [OF assms] by simp
  moreover have "distinct (map (\<lambda>v. en @ goName v) vs)"
    using assms by (auto simp: distinct_map inj_on_def)
  ultimately show ?thesis by (simp add: comp_def)
qed

text \<open>
  The numbering is not enough in general: the number a repeated spelling gets may be the name of a
  later value, and the constant is then declared twice.
\<close>

theorem enumConsts_clash:
  "map fst (enumConsts ''T'' [''a'', ''A'', ''a2''] fmempty) = [''TA'', ''TA2'', ''TA2'']"
  by code_simp

section \<open>The menus that are emitted\<close>

lemma emitMenus_spec:
  "emitMenus ir ps b absent =
     (b @ concat (map (\<lambda>p. case IR_Menu ir p of None \<Rightarrow> [] | Some m \<Rightarrow> emitMenu m) ps),
      absent @ filter (\<lambda>p. IR_Menu ir p = None) ps)"
  by (induction ps arbitrary: b absent) (auto split: option.splits)

text \<open>
  Nothing that was asked for is lost. The generated file is the header, the code of every requested
  menu the IR has, in the order of the request, and a comment that lists every requested menu it does
  not have; the number reported is the number of menus emitted.
\<close>

theorem generate_accounts:
  "generate ir =
     (emitHeader ir @ concat (map (\<lambda>p. case IR_Menu ir p of None \<Rightarrow> [] | Some m \<Rightarrow> emitMenu m) spike)
        @ emitAbsent ir (filter (\<lambda>p. IR_Menu ir p = None) spike),
      length (filter (\<lambda>p. IR_Menu ir p \<noteq> None) spike))"
proof -
  have "length (filter (\<lambda>p. IR_Menu ir p = None) spike) + length (filter (\<lambda>p. IR_Menu ir p \<noteq> None) spike) = length spike"
    using sum_length_filter_compl [of "\<lambda>p. IR_Menu ir p = None" spike] by simp
  then show ?thesis by (simp add: generate_def emitMenus_spec)
qed

section \<open>What the emitted code computes\<close>

datatype gval = GBool bool | GDuration int | GInt int | GString string

text \<open>The value of the decode expression of a field, and of its encode expression.\<close>

definition decodeField :: "ir_Field \<Rightarrow> Record \<Rightarrow> gval" where
  "decodeField f r =
     (if fBool f then GBool (parseBool r (fName f))
      else if isDuration f then GDuration (parseDuration (map_get r (fName f)))
      else if isInteger f then GInt (parseInt (map_get r (fName f)))
      else GString (map_get r (fName f)))"

fun formatValue :: "gval \<Rightarrow> string" where
  "formatValue (GBool b) = formatBool b"
| "formatValue (GDuration d) = formatDuration d"
| "formatValue (GInt n) = formatInt n"
| "formatValue (GString s) = s"

text \<open>
  The fields of the emitted struct, after the ID; a value of the struct is its ID and the values of
  these fields in order.
\<close>

definition structFields :: "ir_Menu \<Rightarrow> ir_Field list" where
  "structFields m = filter (\<lambda>f. \<not> skip f) (irFields m)"

definition decodeMenu :: "ir_Menu \<Rightarrow> Record \<Rightarrow> (string \<times> gval) list" where
  "decodeMenu m r =
     (if Rows m then [(''ID'', GString (map_get r ''.id''))] else [])
     @ map (\<lambda>f. (goName (fName f), decodeField f r)) (structFields m)"

definition encodeMenu :: "ir_Menu \<Rightarrow> gval list \<Rightarrow> Record" where
  "encodeMenu m gs =
     fmap_of_list (map (\<lambda>(f, g). (fName f, formatValue g)) (filter (\<lambda>(f, g). encoded f) (zip (structFields m) gs)))"

text \<open>A value of the type of a field that its text can carry.\<close>

definition carries :: "ir_Field \<Rightarrow> gval \<Rightarrow> bool" where
  "carries f v \<longleftrightarrow>
     (if fBool f then \<exists>b. v = GBool b
      else if isDuration f then \<exists>d. v = GDuration d \<and> 0 \<le> d \<and> d < 2 ^ 63 \<and> d mod 1000000 = 0
      else if isInteger f then \<exists>n. v = GInt n \<and> in_int64 n
      else \<exists>s. v = GString s)"


lemma decodeField_formatValue:
  assumes "carries f v" and "fmlookup r (fName f) = Some (formatValue v)"
  shows "decodeField f r = v"
proof -
  have b: "parseBool r (fName f) = x" if "v = GBool x" for x
    using assms(2) that by (auto simp: parseBool_def formatBool_def EqualFold_def lower_def)
  show ?thesis
    using assms b
    by (auto simp: carries_def decodeField_def lookup_default_def parseInt_formatInt parseDuration_formatDuration
        split: if_splits)
qed


definition exMenu :: ir_Menu where
  "exMenu = \<lparr>irPath = ''/t'', Class = ClassList, Commands = [], irIdentity = \<lparr>Candidates = [], idKey = [], idVerdict = VUnprobed, Tested = fmempty\<rparr>,
     irFields = [\<lparr>fName = ''mtu'', fAccess = Writable, fKind = KindScalar, fType = ''integer number'', fValues = [],
       fRanges = [], fEvidence = Probed, fSample = [], fBool = False\<rparr>], Typed = True, irWritable = True, ClassEvidence = Probed\<rparr>"


end
