(* ===== verification/Pinned_Menus.thy ===== *)
theory Pinned_Menus
  imports Go_Gen
begin

text \<open>
  The menus of src/schema/ir.json the generator is asked for, reduced to the attributes it reads:
  name, access, kind, type, values and the boolean flag of a field, the class of a menu.
\<close>

definition irField :: "string \<Rightarrow> string \<Rightarrow> string \<Rightarrow> string \<Rightarrow> string list \<Rightarrow> bool \<Rightarrow> ir_Field" where
  "irField name access kind type values isbool =
     \<lparr>fName = name, fAccess = access, fKind = kind, fType = type, fValues = values, fRanges = [],
      fEvidence = [], fSample = [], fBool = isbool\<rparr>"

definition irMenu :: "string \<Rightarrow> string \<Rightarrow> bool \<Rightarrow> ir_Field list \<Rightarrow> ir_Menu" where
  "irMenu path cls writable fs =
     \<lparr>irPath = path, Class = cls, Commands = [],
      irIdentity = \<lparr>Candidates = [], idKey = [], idVerdict = [], Tested = fmempty\<rparr>,
      irFields = fs, Typed = True, irWritable = writable, ClassEvidence = []\<rparr>"

definition pinnedIpAddress :: ir_Menu where
  "pinnedIpAddress = irMenu ''/ip/address'' ''list'' True
     [irField ''actual-interface'' ''read-only'' ''open-enum'' '''' [''ether1'', ''ether2'', ''ether3'', ''lo''] False,
      irField ''address'' ''writable'' ''scalar'' ''IP address|integer number'' [] False,
      irField ''broadcast'' ''writable'' ''scalar'' ''IP address'' [] False,
      irField ''comment'' ''writable'' ''scalar'' ''string'' [] False,
      irField ''copy-from'' ''writable'' ''unknown'' '''' [] False,
      irField ''disabled'' ''writable'' ''enum'' '''' [''no'', ''yes''] True,
      irField ''dynamic'' ''read-only'' ''enum'' '''' [''no'', ''yes''] True,
      irField ''interface'' ''writable'' ''open-enum'' '''' [''ether1'', ''ether2'', ''ether3'', ''lo''] False,
      irField ''invalid'' ''read-only'' ''enum'' '''' [''no'', ''yes''] True,
      irField ''netmask'' ''writable'' ''scalar'' ''IP address'' [] False,
      irField ''network'' ''writable'' ''scalar'' ''IP address'' [] False,
      irField ''slave'' ''read-only'' ''enum'' '''' [''no'', ''yes''] True,
      irField ''vrf'' ''read-only'' ''open-enum'' '''' [''main''] False]"

definition pinnedInterfaceBridge :: ir_Menu where
  "pinnedInterfaceBridge = irMenu ''/interface/bridge'' ''list'' True
     [irField ''actual-mtu'' ''read-only'' ''scalar'' ''integer number'' [] False,
      irField ''admin-mac'' ''writable'' ''scalar'' ''MAC address'' [] False,
      irField ''ageing-time'' ''writable'' ''scalar'' ''time interval'' [] False,
      irField ''arp'' ''writable'' ''enum'' '''' [''disabled'', ''enabled'', ''local-proxy-arp'', ''proxy-arp'',
      ''reply-only''] False,
      irField ''arp-timeout'' ''writable'' ''open-enum'' '''' [''auto''] False,
      irField ''auto-mac'' ''writable'' ''enum'' '''' [''no'', ''yes''] True,
      irField ''comment'' ''writable'' ''scalar'' ''string'' [] False,
      irField ''copy-from'' ''writable'' ''scalar'' '''' [] False,
      irField ''dhcp-agent-circuit-id'' ''writable'' ''scalar'' ''string'' [] False,
      irField ''dhcp-agent-remote-id'' ''writable'' ''scalar'' ''string'' [] False,
      irField ''dhcp-snooping'' ''writable'' ''enum'' '''' [''no'', ''yes''] True,
      irField ''dhcpv6-agent-circuit-id'' ''writable'' ''scalar'' ''string'' [] False,
      irField ''dhcpv6-agent-remote-id'' ''writable'' ''scalar'' ''string'' [] False,
      irField ''dhcpv6-snooping'' ''writable'' ''enum'' '''' [''no'', ''yes''] True,
      irField ''disabled'' ''writable'' ''enum'' '''' [''no'', ''yes''] True,
      irField ''dynamic'' ''read-only'' ''enum'' '''' [''no'', ''yes''] True,
      irField ''ether-type'' ''writable'' ''enum'' '''' [''0x8100'', ''0x88a8'', ''0x9100''] False,
      irField ''fast-forward'' ''writable'' ''enum'' '''' [''no'', ''yes''] True,
      irField ''forward-delay'' ''writable'' ''scalar'' ''time interval'' [] False,
      irField ''forward-reserved-addresses'' ''writable'' ''enum'' '''' [''no'', ''yes''] True,
      irField ''frame-types'' ''writable'' ''enum'' '''' [''admit-all'', ''admit-only-untagged-and-priority-tagged'',
      ''admit-only-vlan-tagged''] False,
      irField ''igmp-snooping'' ''writable'' ''enum'' '''' [''no'', ''yes''] True,
      irField ''igmp-version'' ''writable'' ''enum'' '''' [''2'', ''3''] False,
      irField ''ingress-filtering'' ''writable'' ''enum'' '''' [''no'', ''yes''] True,
      irField ''l2mtu'' ''read-only'' ''scalar'' ''integer number'' [] False,
      irField ''last-member-interval'' ''writable'' ''scalar'' ''time interval'' [] False,
      irField ''last-member-query-count'' ''writable'' ''scalar'' ''integer number'' [] False,
      irField ''mac-address'' ''read-only'' ''scalar'' ''MAC address'' [] False,
      irField ''managed'' ''read-only'' ''enum'' '''' [''no'', ''yes''] True,
      irField ''max-hops'' ''writable'' ''scalar'' ''integer number'' [] False,
      irField ''max-learned-entries'' ''writable'' ''open-enum'' ''integer number'' [''auto'', ''unlimited''] False,
      irField ''max-message-age'' ''writable'' ''scalar'' ''time interval'' [] False,
      irField ''membership-interval'' ''writable'' ''scalar'' ''time interval'' [] False,
      irField ''mlag-heartbeat'' ''writable'' ''open-enum'' ''time interval'' [''none''] False,
      irField ''mlag-peer-port'' ''writable'' ''open-enum'' '''' [''ether1'', ''ether2'', ''ether3'', ''none''] False,
      irField ''mlag-priority'' ''writable'' ''scalar'' ''integer number'' [] False,
      irField ''mld-version'' ''writable'' ''enum'' '''' [''1'', ''2''] False,
      irField ''mtu'' ''writable'' ''enum'' '''' [''auto''] False,
      irField ''multicast-querier'' ''writable'' ''enum'' '''' [''no'', ''yes''] True,
      irField ''multicast-router'' ''writable'' ''enum'' '''' [''disabled'', ''permanent'', ''temporary-query''] False,
      irField ''mvrp'' ''writable'' ''enum'' '''' [''no'', ''yes''] True,
      irField ''name'' ''writable'' ''scalar'' ''string'' [] False,
      irField ''port-cost-mode'' ''writable'' ''enum'' '''' [''long'', ''short''] False,
      irField ''priority'' ''writable'' ''scalar'' ''integer number'' [] False,
      irField ''protocol-mode'' ''writable'' ''enum'' '''' [''mstp'', ''none'', ''rstp'', ''stp''] False,
      irField ''pvid'' ''writable'' ''scalar'' ''integer number'' [] False,
      irField ''querier-interval'' ''writable'' ''scalar'' ''time interval'' [] False,
      irField ''query-interval'' ''writable'' ''scalar'' ''time interval'' [] False,
      irField ''query-response-interval'' ''writable'' ''scalar'' ''time interval'' [] False,
      irField ''ra-guard'' ''writable'' ''enum'' '''' [''no'', ''yes''] True,
      irField ''region-name'' ''writable'' ''scalar'' ''string'' [] False,
      irField ''region-revision'' ''writable'' ''scalar'' ''integer number'' [] False,
      irField ''running'' ''read-only'' ''enum'' '''' [''no'', ''yes''] True,
      irField ''startup-query-count'' ''writable'' ''scalar'' ''integer number'' [] False,
      irField ''startup-query-interval'' ''writable'' ''scalar'' ''time interval'' [] False,
      irField ''transmit-hold-count'' ''writable'' ''scalar'' ''integer number'' [] False,
      irField ''vlan-filtering'' ''writable'' ''enum'' '''' [''no'', ''yes''] True]"

definition pinnedIpFirewallFilter :: ir_Menu where
  "pinnedIpFirewallFilter = irMenu ''/ip/firewall/filter'' ''ordered-list'' True
     [irField ''action'' ''writable'' ''enum'' '''' [''accept'', ''add-dst-to-address-list'',
      ''add-src-to-address-list'', ''drop'', ''fasttrack-connection'', ''jump'', ''log'', ''passthrough'', ''reject'',
      ''return'', ''tarpit''] False,
      irField ''address-list'' ''writable'' ''scalar'' ''string'' [] False,
      irField ''address-list-timeout'' ''writable'' ''open-enum'' ''time interval'' [''none-dynamic'',
      ''none-static''] False,
      irField ''bytes'' ''read-only'' ''scalar'' ''integer number'' [] False,
      irField ''chain'' ''writable'' ''open-enum'' ''string'' [''forward'', ''input'', ''output''] False,
      irField ''comment'' ''writable'' ''scalar'' ''string'' [] False,
      irField ''connection-bytes'' ''writable'' ''scalar'' ''integer number'' [] False,
      irField ''connection-limit'' ''writable'' ''open-enum'' ''integer number'' [''!''] False,
      irField ''connection-mark'' ''writable'' ''enum'' '''' [''!'', ''no-mark''] False,
      irField ''connection-nat-state'' ''writable'' ''enum'' '''' [''!'', ''dstnat'', ''ein-dnat'', ''ein-snat'',
      ''srcnat''] False,
      irField ''connection-rate'' ''writable'' ''open-enum'' ''integer number'' [''!''] False,
      irField ''connection-state'' ''writable'' ''enum'' '''' [''!'', ''established'', ''invalid'', ''new'',
      ''related'', ''untracked''] False,
      irField ''connection-type'' ''writable'' ''enum'' '''' [''!'', ''ftp'', ''h323'', ''irc'', ''pptp'', ''quake3'',
      ''sip'', ''tftp''] False,
      irField ''content'' ''writable'' ''open-enum'' ''string'' [''!''] False,
      irField ''copy-from'' ''writable'' ''unknown'' '''' [] False,
      irField ''disabled'' ''writable'' ''enum'' '''' [''no'', ''yes''] True,
      irField ''dscp'' ''writable'' ''open-enum'' ''integer number'' [''!''] False,
      irField ''dst-address'' ''writable'' ''open-enum'' ''IP address range'' [''!''] False,
      irField ''dst-address-list'' ''writable'' ''open-enum'' ''string'' [''!''] False,
      irField ''dst-address-type'' ''writable'' ''enum'' '''' [''!'', ''blackhole'', ''broadcast'', ''local'',
      ''multicast'', ''unicast''] False,
      irField ''dst-limit'' ''writable'' ''scalar'' ''integer number'' [] False,
      irField ''dst-port'' ''writable'' ''open-enum'' ''max 15 times'' [''!''] False,
      irField ''dynamic'' ''read-only'' ''enum'' '''' [''no'', ''yes''] True,
      irField ''fragment'' ''writable'' ''enum'' '''' [''no'', ''yes''] True,
      irField ''hotspot'' ''writable'' ''enum'' '''' [''!'', ''auth'', ''from-client'', ''http'', ''local-dst'',
      ''to-client''] False,
      irField ''icmp-options'' ''writable'' ''open-enum'' ''integer number'' [''!''] False,
      irField ''in-bridge-port'' ''writable'' ''open-enum'' '''' [''!'', ''all-ethernet'', ''all-ppp'', ''all-vlan'',
      ''all-wireless'', ''ether1'', ''ether2'', ''ether3''] False,
      irField ''in-bridge-port-list'' ''writable'' ''open-enum'' '''' [''!'', ''all'', ''dynamic'', ''none'',
      ''static''] False,
      irField ''in-interface'' ''writable'' ''open-enum'' '''' [''!'', ''all-ethernet'', ''all-ppp'', ''all-vlan'',
      ''all-wireless'', ''ether1'', ''ether2'', ''ether3'', ''lo''] False,
      irField ''in-interface-list'' ''writable'' ''open-enum'' '''' [''!'', ''all'', ''dynamic'', ''none'',
      ''static''] False,
      irField ''ingress-priority'' ''writable'' ''open-enum'' ''integer number'' [''!''] False,
      irField ''invalid'' ''read-only'' ''enum'' '''' [''no'', ''yes''] True,
      irField ''ipsec-policy'' ''writable'' ''enum'' '''' [''in'', ''out''] False,
      irField ''ipv4-options'' ''writable'' ''enum'' '''' [''any'', ''loose-source-routing'', ''no-record-route'',
      ''no-router-alert'', ''no-source-routing'', ''no-timestamp'', ''none'', ''record-route'', ''router-alert'',
      ''strict-source-routing'', ''timestamp''] False,
      irField ''jump-target'' ''writable'' ''open-enum'' ''string'' [''forward'', ''input'', ''output''] False,
      irField ''layer7-protocol'' ''writable'' ''open-enum'' '''' [''!''] False,
      irField ''limit'' ''writable'' ''open-enum'' ''integer number|time interval'' [''!''] False,
      irField ''log'' ''writable'' ''enum'' '''' [''no'', ''yes''] True,
      irField ''log-prefix'' ''writable'' ''scalar'' ''string'' [] False,
      irField ''nth'' ''writable'' ''open-enum'' ''integer number'' [''!''] False,
      irField ''out-bridge-port'' ''writable'' ''open-enum'' '''' [''!'', ''all-ethernet'', ''all-ppp'', ''all-vlan'',
      ''all-wireless'', ''ether1'', ''ether2'', ''ether3''] False,
      irField ''out-bridge-port-list'' ''writable'' ''open-enum'' '''' [''!'', ''all'', ''dynamic'', ''none'',
      ''static''] False,
      irField ''out-interface'' ''writable'' ''open-enum'' '''' [''!'', ''all-ethernet'', ''all-ppp'', ''all-vlan'',
      ''all-wireless'', ''ether1'', ''ether2'', ''ether3'', ''lo''] False,
      irField ''out-interface-list'' ''writable'' ''open-enum'' '''' [''!'', ''all'', ''dynamic'', ''none'',
      ''static''] False,
      irField ''p2p'' ''writable'' ''enum'' '''' [''!'', ''all-p2p'', ''bit-torrent'', ''blubster'',
      ''direct-connect'', ''edonkey'', ''fasttrack'', ''gnutella'', ''soulseek'', ''warez'', ''winmx''] False,
      irField ''packet-mark'' ''writable'' ''enum'' '''' [''!'', ''no-mark''] False,
      irField ''packet-size'' ''writable'' ''open-enum'' ''integer number'' [''!''] False,
      irField ''packets'' ''read-only'' ''scalar'' ''integer number'' [] False,
      irField ''per-connection-classifier'' ''writable'' ''enum'' '''' [''!'', ''both-addresses'',
      ''both-addresses-and-ports'', ''both-ports'', ''dst-address'', ''dst-address-and-port'', ''dst-port'',
      ''src-address'', ''src-address-and-port'', ''src-port''] False,
      irField ''place-before'' ''writable'' ''unknown'' '''' [] False,
      irField ''port'' ''writable'' ''open-enum'' ''max 15 times'' [''!''] False,
      irField ''priority'' ''writable'' ''open-enum'' ''integer number'' [''!''] False,
      irField ''protocol'' ''writable'' ''enum'' '''' [''!'', ''dccp'', ''ddp'', ''egp'', ''encap'', ''etherip'',
      ''ggp'', ''gre'', ''hmp'', ''icmp'', ''icmpv6'', ''idpr-cmtp'', ''igmp'', ''ipencap'', ''ipip'', ''ipsec-ah'',
      ''ipsec-esp'', ''ipv6-encap'', ''ipv6-frag'', ''ipv6-nonxt'', ''ipv6-opts'', ''ipv6-route'', ''iso-tp4'',
      ''l2tp'', ''ospf'', ''pim'', ''pup'', ''rdp'', ''rspf'', ''rsvp'', ''sctp'', ''st'', ''tcp'', ''udp'',
      ''udp-lite'', ''vmtp'', ''vrrp'', ''xns-idp'', ''xtp''] False,
      irField ''psd'' ''writable'' ''scalar'' ''integer number'' [] False,
      irField ''random'' ''writable'' ''scalar'' ''integer number'' [] False,
      irField ''realm'' ''writable'' ''open-enum'' ''integer number'' [''!''] False,
      irField ''reject-with'' ''writable'' ''enum'' '''' [''icmp-admin-prohibited'', ''icmp-host-prohibited'',
      ''icmp-host-unreachable'', ''icmp-net-prohibited'', ''icmp-network-unreachable'', ''icmp-port-unreachable'',
      ''icmp-protocol-unreachable'', ''tcp-reset''] False,
      irField ''routing-mark'' ''writable'' ''enum'' '''' [''!'', ''main''] False,
      irField ''src-address'' ''writable'' ''open-enum'' ''IP address range'' [''!''] False,
      irField ''src-address-list'' ''writable'' ''open-enum'' ''string'' [''!''] False,
      irField ''src-address-type'' ''writable'' ''enum'' '''' [''!'', ''blackhole'', ''broadcast'', ''local'',
      ''multicast'', ''unicast''] False,
      irField ''src-mac-address'' ''writable'' ''open-enum'' ''MAC address'' [''!''] False,
      irField ''src-port'' ''writable'' ''open-enum'' ''max 15 times'' [''!''] False,
      irField ''tcp-flags'' ''writable'' ''enum'' '''' [''!'', ''!,'', ''ack'', ''cwr'', ''ece'', ''fin'', ''psh'',
      ''rst'', ''syn'', ''urg''] False,
      irField ''tcp-mss'' ''writable'' ''open-enum'' ''integer number'' [''!''] False,
      irField ''time'' ''writable'' ''open-enum'' ''time interval'' [''!''] False,
      irField ''tls-host'' ''writable'' ''open-enum'' ''string'' [''!''] False,
      irField ''tos'' ''writable'' ''open-enum'' ''integer number'' [''!''] False,
      irField ''ttl'' ''writable'' ''enum'' '''' [''equal'', ''greater-than'', ''less-than'', ''not-equal''] False]"

definition pinnedSystemResource :: ir_Menu where
  "pinnedSystemResource = irMenu ''/system/resource'' ''singleton'' False
     [irField ''architecture-name'' ''read-only'' ''scalar'' ''string value'' [] False,
      irField ''bad-blocks'' ''read-only'' ''unknown'' '''' [] False,
      irField ''board-name'' ''read-only'' ''scalar'' ''string value'' [] False,
      irField ''build-time'' ''read-only'' ''scalar'' ''date time'' [] False,
      irField ''cpu'' ''read-only'' ''scalar'' ''string value'' [] False,
      irField ''cpu-count'' ''read-only'' ''scalar'' ''integer number'' [] False,
      irField ''cpu-frequency'' ''read-only'' ''unknown'' '''' [] False,
      irField ''cpu-load'' ''read-only'' ''scalar'' ''integer number'' [] False,
      irField ''factory-software'' ''read-only'' ''unknown'' '''' [] False,
      irField ''free-hdd-space'' ''read-only'' ''scalar'' ''integer number'' [] False,
      irField ''free-memory'' ''read-only'' ''scalar'' ''integer number'' [] False,
      irField ''platform'' ''read-only'' ''scalar'' ''string value'' [] False,
      irField ''total-hdd-space'' ''read-only'' ''scalar'' ''integer number'' [] False,
      irField ''total-memory'' ''read-only'' ''scalar'' ''integer number'' [] False,
      irField ''uptime'' ''read-only'' ''scalar'' ''time interval'' [] False,
      irField ''version'' ''read-only'' ''scalar'' ''string value'' [] False,
      irField ''write-sect-since-reboot'' ''read-only'' ''scalar'' ''integer number'' [] False,
      irField ''write-sect-total'' ''read-only'' ''scalar'' ''integer number'' [] False]"

definition pinnedInterface :: ir_Menu where
  "pinnedInterface = irMenu ''/interface'' ''list'' True
     [irField ''actual-mtu'' ''read-only'' ''scalar'' ''integer number'' [] False,
      irField ''comment'' ''writable'' ''scalar'' ''string'' [] False,
      irField ''default-name'' ''read-only'' ''scalar'' ''string'' [] False,
      irField ''disabled'' ''writable'' ''enum'' '''' [''no'', ''yes''] True,
      irField ''dynamic'' ''read-only'' ''enum'' '''' [''no'', ''yes''] True,
      irField ''fp-rps-drop'' ''read-only'' ''scalar'' ''integer number'' [] False,
      irField ''fp-rx-byte'' ''read-only'' ''scalar'' ''integer number'' [] False,
      irField ''fp-rx-packet'' ''read-only'' ''scalar'' ''integer number'' [] False,
      irField ''fp-tx-byte'' ''read-only'' ''scalar'' ''integer number'' [] False,
      irField ''fp-tx-packet'' ''read-only'' ''scalar'' ''integer number'' [] False,
      irField ''inactive'' ''read-only'' ''enum'' '''' [''no'', ''yes''] True,
      irField ''l2mtu'' ''writable'' ''scalar'' ''integer number'' [] False,
      irField ''last-link-down-time'' ''read-only'' ''scalar'' '''' [] False,
      irField ''last-link-up-time'' ''read-only'' ''scalar'' '''' [] False,
      irField ''link-downs'' ''read-only'' ''scalar'' ''integer number'' [] False,
      irField ''mac-address'' ''read-only'' ''scalar'' ''MAC address'' [] False,
      irField ''max-l2mtu'' ''read-only'' ''scalar'' ''integer number'' [] False,
      irField ''mtu'' ''writable'' ''enum'' '''' [''auto''] False,
      irField ''name'' ''writable'' ''scalar'' ''string'' [] False,
      irField ''passthrough'' ''read-only'' ''enum'' '''' [''no'', ''yes''] True,
      irField ''running'' ''read-only'' ''enum'' '''' [''no'', ''yes''] True,
      irField ''rx-byte'' ''read-only'' ''scalar'' ''integer number'' [] False,
      irField ''rx-drop'' ''read-only'' ''scalar'' ''integer number'' [] False,
      irField ''rx-error'' ''read-only'' ''scalar'' ''integer number'' [] False,
      irField ''rx-packet'' ''read-only'' ''scalar'' ''integer number'' [] False,
      irField ''slave'' ''read-only'' ''enum'' '''' [''no'', ''yes''] True,
      irField ''tx-byte'' ''read-only'' ''scalar'' ''integer number'' [] False,
      irField ''tx-drop'' ''read-only'' ''scalar'' ''integer number'' [] False,
      irField ''tx-error'' ''read-only'' ''scalar'' ''integer number'' [] False,
      irField ''tx-packet'' ''read-only'' ''scalar'' ''integer number'' [] False,
      irField ''tx-queue-drop'' ''read-only'' ''scalar'' ''integer number'' [] False,
      irField ''type'' ''read-only'' ''scalar'' ''string'' [] False,
      irField ''vrf'' ''read-only'' ''open-enum'' '''' [''main''] False]"

definition pinnedRoutingBgpSession :: ir_Menu where
  "pinnedRoutingBgpSession = irMenu ''/routing/bgp/session'' ''list'' False
     [irField ''cisco-vpls-nlri-len-fmt'' ''read-only'' ''enum'' '''' [''auto-bits'', ''auto-bytes'', ''bits'',
      ''bytes''] False,
      irField ''ebgp'' ''read-only'' ''scalar'' '''' [] False,
      irField ''established'' ''read-only'' ''enum'' '''' [''no'', ''yes''] True,
      irField ''hold-time'' ''read-only'' ''open-enum'' ''time interval'' [''infinity''] False,
      irField ''ibgp'' ''read-only'' ''scalar'' '''' [] False,
      irField ''input.add-path'' ''read-only'' ''enum'' '''' [''ip'', ''ipv6''] False,
      irField ''input.affinity'' ''read-only'' ''enum'' '''' [''afi'', ''alone'', ''instance'', ''main'',
      ''remote-as'', ''vrf''] False,
      irField ''input.allow-as'' ''read-only'' ''scalar'' ''integer number'' [] False,
      irField ''input.as-override'' ''read-only'' ''enum'' '''' [''no'', ''yes''] True,
      irField ''input.filter'' ''read-only'' ''scalar'' ''string'' [] False,
      irField ''input.ignore-as-path-len'' ''read-only'' ''enum'' '''' [''no'', ''yes''] True,
      irField ''input.last-notification'' ''read-only'' ''scalar'' ''string'' [] False,
      irField ''input.limit-process-routes'' ''read-only'' ''scalar'' ''integer number'' [] False,
      irField ''input.procid'' ''read-only'' ''scalar'' ''integer number'' [] False,
      irField ''instance'' ''read-only'' ''scalar'' '''' [] False,
      irField ''keepalive-time'' ''read-only'' ''scalar'' ''time interval'' [] False,
      irField ''keepalive-timer'' ''read-only'' ''scalar'' '''' [] False,
      irField ''last-started'' ''read-only'' ''scalar'' '''' [] False,
      irField ''last-stopped'' ''read-only'' ''scalar'' '''' [] False,
      irField ''limit-exceeded'' ''read-only'' ''scalar'' '''' [] False,
      irField ''local.address'' ''read-only'' ''open-enum'' '''' [''ether1'', ''ether2'', ''ether3'', ''lo''] False,
      irField ''local.afi'' ''read-only'' ''enum'' '''' [''evpn'', ''ip'', ''ipv6'', ''l2vpn'', ''l2vpn-cisco'',
      ''vpnv4'', ''vpnv6''] False,
      irField ''local.as'' ''read-only'' ''scalar'' '''' [] False,
      irField ''local.bytes'' ''read-only'' ''scalar'' ''integer number'' [] False,
      irField ''local.capabilities'' ''read-only'' ''enum'' '''' [''ap'', ''as4'', ''enhe'', ''gr'', ''mp'', ''role'',
      ''rr''] False,
      irField ''local.cluster-id'' ''read-only'' ''scalar'' ''IP address'' [] False,
      irField ''local.eor'' ''read-only'' ''enum'' '''' [''ip'', ''ipv6'', ''l2vpn'', ''l2vpn-cisco'',
      ''vpnv4''] False,
      irField ''local.id'' ''read-only'' ''scalar'' ''IP address'' [] False,
      irField ''local.messages'' ''read-only'' ''scalar'' ''integer number'' [] False,
      irField ''local.port'' ''read-only'' ''scalar'' ''integer number'' [] False,
      irField ''local.role'' ''read-only'' ''enum'' '''' [''ebgp'', ''ebgp-customer'', ''ebgp-peer'',
      ''ebgp-provider'', ''ebgp-rs'', ''ebgp-rs-client'', ''ibgp'', ''ibgp-rr''] False,
      irField ''multihop'' ''read-only'' ''enum'' '''' [''no'', ''yes''] True,
      irField ''name'' ''read-only'' ''scalar'' ''string'' [] False,
      irField ''nexthop-choice'' ''read-only'' ''enum'' '''' [''default'', ''force-self'', ''propagate''] False,
      irField ''output.add-path'' ''read-only'' ''enum'' '''' [''ip'', ''ipv6''] False,
      irField ''output.affinity'' ''read-only'' ''enum'' '''' [''afi'', ''alone'', ''input'', ''instance'', ''main'',
      ''remote-as'', ''vrf''] False,
      irField ''output.default-originate'' ''read-only'' ''enum'' '''' [''always'', ''if-installed'', ''never''] False,
      irField ''output.default-prepend'' ''read-only'' ''scalar'' ''integer number'' [] False,
      irField ''output.filter-chain'' ''read-only'' ''scalar'' ''string'' [] False,
      irField ''output.filter-select'' ''read-only'' ''scalar'' ''string'' [] False,
      irField ''output.keep-sent-attributes'' ''read-only'' ''enum'' '''' [''no'', ''yes''] True,
      irField ''output.last-notification'' ''read-only'' ''scalar'' ''string'' [] False,
      irField ''output.network'' ''read-only'' ''scalar'' ''string'' [] False,
      irField ''output.no-client-to-client-reflection'' ''read-only'' ''enum'' '''' [''no'', ''yes''] True,
      irField ''output.no-early-cut'' ''read-only'' ''enum'' '''' [''no'', ''yes''] True,
      irField ''output.procid'' ''read-only'' ''scalar'' ''integer number'' [] False,
      irField ''output.remove-private-as'' ''read-only'' ''enum'' '''' [''no'', ''yes''] True,
      irField ''prefix-count'' ''read-only'' ''scalar'' ''integer number'' [] False,
      irField ''remote.address'' ''read-only'' ''open-enum'' '''' [''ether1'', ''ether2'', ''ether3'', ''lo''] False,
      irField ''remote.afi'' ''read-only'' ''enum'' '''' [''evpn'', ''ip'', ''ipv6'', ''l2vpn'', ''l2vpn-cisco'',
      ''vpnv4'', ''vpnv6''] False,
      irField ''remote.as'' ''read-only'' ''scalar'' '''' [] False,
      irField ''remote.bytes'' ''read-only'' ''scalar'' ''integer number'' [] False,
      irField ''remote.capabilities'' ''read-only'' ''enum'' '''' [''ap'', ''as4'', ''dyn'', ''em'', ''enhe'',
      ''err'', ''fqdn'', ''gr'', ''llgr'', ''ml'', ''mp'', ''ms'', ''orf'', ''role'', ''rr'', ''sec''] False,
      irField ''remote.eor'' ''read-only'' ''enum'' '''' [''evpn'', ''ip'', ''ipv6'', ''l2vpn'', ''l2vpn-cisco'',
      ''vpnv4'', ''vpnv6''] False,
      irField ''remote.gr-afi'' ''read-only'' ''enum'' '''' [''ip'', ''ipv6'', ''l2vpn'', ''l2vpn-cisco'', ''vpnv4'',
      ''vpnv6''] False,
      irField ''remote.gr-afi-fwp'' ''read-only'' ''enum'' '''' [''ip'', ''ipv6'', ''l2vpn'', ''l2vpn-cisco'',
      ''vpnv4'', ''vpnv6''] False,
      irField ''remote.gr-restart'' ''read-only'' ''enum'' '''' [''no'', ''yes''] True,
      irField ''remote.gr-time'' ''read-only'' ''scalar'' ''integer number'' [] False,
      irField ''remote.hold-time'' ''read-only'' ''open-enum'' ''time interval'' [''infinity''] False,
      irField ''remote.id'' ''read-only'' ''scalar'' ''IP address'' [] False,
      irField ''remote.messages'' ''read-only'' ''scalar'' ''integer number'' [] False,
      irField ''remote.port'' ''read-only'' ''scalar'' ''integer number'' [] False,
      irField ''remote.refused-cap-opt'' ''read-only'' ''enum'' '''' [''no'', ''yes''] True,
      irField ''remote.role'' ''read-only'' ''enum'' '''' [''customer'', ''peer'', ''provider'', ''route-server'',
      ''route-server-client''] False,
      irField ''restart-timer'' ''read-only'' ''scalar'' '''' [] False,
      irField ''routing-table'' ''read-only'' ''open-enum'' '''' [''main''] False,
      irField ''save-to'' ''read-only'' ''scalar'' ''string'' [] False,
      irField ''stopped'' ''read-only'' ''scalar'' '''' [] False,
      irField ''uptime'' ''read-only'' ''scalar'' '''' [] False,
      irField ''use-bfd'' ''read-only'' ''enum'' '''' [''no'', ''yes''] True,
      irField ''vrf'' ''read-only'' ''open-enum'' '''' [''main''] False]"

definition pinnedSystemHealth :: ir_Menu where
  "pinnedSystemHealth = irMenu ''/system/health'' ''list'' True
     [irField ''name'' ''read-only'' ''scalar'' ''string'' [] False,
      irField ''state-after-reboot'' ''writable'' ''unknown'' '''' [] False,
      irField ''type'' ''read-only'' ''scalar'' '''' [] False,
      irField ''value'' ''read-only'' ''open-enum'' ''integer number'' [''fail'', ''idle'', ''no-input'',
      ''not-present'', ''ok''] False]"

end
