(* ===== verification/Routeros_Codec.thy ===== *)
theory Routeros_Codec
  imports Routeros_Parse
begin

text \<open>
  src/routeros/routeros.go: the typed view of the menus the receiver scrapes and of the four that
  exercise the generator. A struct is a record, a field of it carries the name of the struct in front;
  a named string type is \<^typ>\<open>string\<close>, an \<^verbatim>\<open>int64\<close> and a \<^verbatim>\<open>time.Duration\<close> are an \<^typ>\<open>int\<close> in the range
  of 64 bits.

  \<^verbatim>\<open>Decode\<close> reads a record as the router returned it, \<^verbatim>\<open>Encode\<close> gives the fields to write.
\<close>

section \<open>/ip/address\<close>

definition IpAddressPath :: string where
  "IpAddressPath = ''/ip/address''"

record IpAddress =
  IpAddress_ID :: string
  IpAddress_ActualInterface :: string
  IpAddress_Address :: string
  IpAddress_Broadcast :: string
  IpAddress_Comment :: string
  IpAddress_Disabled :: bool
  IpAddress_Dynamic :: bool
  IpAddress_Interface :: string
  IpAddress_Invalid :: bool
  IpAddress_Netmask :: string
  IpAddress_Network :: string
  IpAddress_Slave :: bool
  IpAddress_Vrf :: string

definition DecodeIpAddress :: "Record \<Rightarrow> IpAddress" where
  "DecodeIpAddress r =
     \<lparr>IpAddress_ID = map_get r ''.id'', IpAddress_ActualInterface = map_get r ''actual-interface'',
      IpAddress_Address = map_get r ''address'', IpAddress_Broadcast = map_get r ''broadcast'',
      IpAddress_Comment = map_get r ''comment'', IpAddress_Disabled = parseBool r ''disabled'',
      IpAddress_Dynamic = parseBool r ''dynamic'', IpAddress_Interface = map_get r ''interface'',
      IpAddress_Invalid = parseBool r ''invalid'', IpAddress_Netmask = map_get r ''netmask'',
      IpAddress_Network = map_get r ''network'', IpAddress_Slave = parseBool r ''slave'',
      IpAddress_Vrf = map_get r ''vrf''\<rparr>"

definition IpAddress_Encode :: "IpAddress \<Rightarrow> Record" where
  "IpAddress_Encode v = fmap_of_list
     [(''address'', IpAddress_Address v), (''broadcast'', IpAddress_Broadcast v), (''comment'', IpAddress_Comment v),
      (''disabled'', formatBool (IpAddress_Disabled v)), (''interface'', IpAddress_Interface v),
      (''netmask'', IpAddress_Netmask v), (''network'', IpAddress_Network v)]"

section \<open>/interface/bridge\<close>

definition InterfaceBridgePath :: string where
  "InterfaceBridgePath = ''/interface/bridge''"

record InterfaceBridge =
  InterfaceBridge_ID :: string
  InterfaceBridge_ActualMtu :: int
  InterfaceBridge_AdminMac :: string
  InterfaceBridge_AgeingTime :: int
  InterfaceBridge_Arp :: string
  InterfaceBridge_ArpTimeout :: string
  InterfaceBridge_AutoMac :: bool
  InterfaceBridge_Comment :: string
  InterfaceBridge_CopyFrom :: string
  InterfaceBridge_DhcpAgentCircuitId :: string
  InterfaceBridge_DhcpAgentRemoteId :: string
  InterfaceBridge_DhcpSnooping :: bool
  InterfaceBridge_Dhcpv6AgentCircuitId :: string
  InterfaceBridge_Dhcpv6AgentRemoteId :: string
  InterfaceBridge_Dhcpv6Snooping :: bool
  InterfaceBridge_Disabled :: bool
  InterfaceBridge_Dynamic :: bool
  InterfaceBridge_EtherType :: string
  InterfaceBridge_FastForward :: bool
  InterfaceBridge_ForwardDelay :: int
  InterfaceBridge_ForwardReservedAddresses :: bool
  InterfaceBridge_FrameTypes :: string
  InterfaceBridge_IgmpSnooping :: bool
  InterfaceBridge_IgmpVersion :: string
  InterfaceBridge_IngressFiltering :: bool
  InterfaceBridge_L2mtu :: int
  InterfaceBridge_LastMemberInterval :: int
  InterfaceBridge_LastMemberQueryCount :: int
  InterfaceBridge_MacAddress :: string
  InterfaceBridge_Managed :: bool
  InterfaceBridge_MaxHops :: int
  InterfaceBridge_MaxLearnedEntries :: string
  InterfaceBridge_MaxMessageAge :: int
  InterfaceBridge_MembershipInterval :: int
  InterfaceBridge_MlagHeartbeat :: string
  InterfaceBridge_MlagPeerPort :: string
  InterfaceBridge_MlagPriority :: int
  InterfaceBridge_MldVersion :: string
  InterfaceBridge_Mtu :: string
  InterfaceBridge_MulticastQuerier :: bool
  InterfaceBridge_MulticastRouter :: string
  InterfaceBridge_Mvrp :: bool
  InterfaceBridge_Name :: string
  InterfaceBridge_PortCostMode :: string
  InterfaceBridge_Priority :: int
  InterfaceBridge_ProtocolMode :: string
  InterfaceBridge_Pvid :: int
  InterfaceBridge_QuerierInterval :: int
  InterfaceBridge_QueryInterval :: int
  InterfaceBridge_QueryResponseInterval :: int
  InterfaceBridge_RaGuard :: bool
  InterfaceBridge_RegionName :: string
  InterfaceBridge_RegionRevision :: int
  InterfaceBridge_Running :: bool
  InterfaceBridge_StartupQueryCount :: int
  InterfaceBridge_StartupQueryInterval :: int
  InterfaceBridge_TransmitHoldCount :: int
  InterfaceBridge_VlanFiltering :: bool

definition DecodeInterfaceBridge :: "Record \<Rightarrow> InterfaceBridge" where
  "DecodeInterfaceBridge r =
     \<lparr>InterfaceBridge_ID = map_get r ''.id'', InterfaceBridge_ActualMtu = parseInt (map_get r ''actual-mtu''),
      InterfaceBridge_AdminMac = map_get r ''admin-mac'',
      InterfaceBridge_AgeingTime = parseDuration (map_get r ''ageing-time''), InterfaceBridge_Arp = map_get r ''arp'',
      InterfaceBridge_ArpTimeout = map_get r ''arp-timeout'', InterfaceBridge_AutoMac = parseBool r ''auto-mac'',
      InterfaceBridge_Comment = map_get r ''comment'', InterfaceBridge_CopyFrom = map_get r ''copy-from'',
      InterfaceBridge_DhcpAgentCircuitId = map_get r ''dhcp-agent-circuit-id'',
      InterfaceBridge_DhcpAgentRemoteId = map_get r ''dhcp-agent-remote-id'',
      InterfaceBridge_DhcpSnooping = parseBool r ''dhcp-snooping'',
      InterfaceBridge_Dhcpv6AgentCircuitId = map_get r ''dhcpv6-agent-circuit-id'',
      InterfaceBridge_Dhcpv6AgentRemoteId = map_get r ''dhcpv6-agent-remote-id'',
      InterfaceBridge_Dhcpv6Snooping = parseBool r ''dhcpv6-snooping'',
      InterfaceBridge_Disabled = parseBool r ''disabled'', InterfaceBridge_Dynamic = parseBool r ''dynamic'',
      InterfaceBridge_EtherType = map_get r ''ether-type'', InterfaceBridge_FastForward = parseBool r ''fast-forward'',
      InterfaceBridge_ForwardDelay = parseDuration (map_get r ''forward-delay''),
      InterfaceBridge_ForwardReservedAddresses = parseBool r ''forward-reserved-addresses'',
      InterfaceBridge_FrameTypes = map_get r ''frame-types'',
      InterfaceBridge_IgmpSnooping = parseBool r ''igmp-snooping'',
      InterfaceBridge_IgmpVersion = map_get r ''igmp-version'',
      InterfaceBridge_IngressFiltering = parseBool r ''ingress-filtering'',
      InterfaceBridge_L2mtu = parseInt (map_get r ''l2mtu''),
      InterfaceBridge_LastMemberInterval = parseDuration (map_get r ''last-member-interval''),
      InterfaceBridge_LastMemberQueryCount = parseInt (map_get r ''last-member-query-count''),
      InterfaceBridge_MacAddress = map_get r ''mac-address'', InterfaceBridge_Managed = parseBool r ''managed'',
      InterfaceBridge_MaxHops = parseInt (map_get r ''max-hops''),
      InterfaceBridge_MaxLearnedEntries = map_get r ''max-learned-entries'',
      InterfaceBridge_MaxMessageAge = parseDuration (map_get r ''max-message-age''),
      InterfaceBridge_MembershipInterval = parseDuration (map_get r ''membership-interval''),
      InterfaceBridge_MlagHeartbeat = map_get r ''mlag-heartbeat'',
      InterfaceBridge_MlagPeerPort = map_get r ''mlag-peer-port'',
      InterfaceBridge_MlagPriority = parseInt (map_get r ''mlag-priority''),
      InterfaceBridge_MldVersion = map_get r ''mld-version'', InterfaceBridge_Mtu = map_get r ''mtu'',
      InterfaceBridge_MulticastQuerier = parseBool r ''multicast-querier'',
      InterfaceBridge_MulticastRouter = map_get r ''multicast-router'', InterfaceBridge_Mvrp = parseBool r ''mvrp'',
      InterfaceBridge_Name = map_get r ''name'', InterfaceBridge_PortCostMode = map_get r ''port-cost-mode'',
      InterfaceBridge_Priority = parseInt (map_get r ''priority''),
      InterfaceBridge_ProtocolMode = map_get r ''protocol-mode'', InterfaceBridge_Pvid = parseInt (map_get r ''pvid''),
      InterfaceBridge_QuerierInterval = parseDuration (map_get r ''querier-interval''),
      InterfaceBridge_QueryInterval = parseDuration (map_get r ''query-interval''),
      InterfaceBridge_QueryResponseInterval = parseDuration (map_get r ''query-response-interval''),
      InterfaceBridge_RaGuard = parseBool r ''ra-guard'', InterfaceBridge_RegionName = map_get r ''region-name'',
      InterfaceBridge_RegionRevision = parseInt (map_get r ''region-revision''),
      InterfaceBridge_Running = parseBool r ''running'',
      InterfaceBridge_StartupQueryCount = parseInt (map_get r ''startup-query-count''),
      InterfaceBridge_StartupQueryInterval = parseDuration (map_get r ''startup-query-interval''),
      InterfaceBridge_TransmitHoldCount = parseInt (map_get r ''transmit-hold-count''),
      InterfaceBridge_VlanFiltering = parseBool r ''vlan-filtering''\<rparr>"

definition InterfaceBridge_Encode :: "InterfaceBridge \<Rightarrow> Record" where
  "InterfaceBridge_Encode v = fmap_of_list
     [(''admin-mac'', InterfaceBridge_AdminMac v), (''ageing-time'', formatDuration (InterfaceBridge_AgeingTime v)),
      (''arp'', InterfaceBridge_Arp v), (''arp-timeout'', InterfaceBridge_ArpTimeout v),
      (''auto-mac'', formatBool (InterfaceBridge_AutoMac v)), (''comment'', InterfaceBridge_Comment v),
      (''copy-from'', InterfaceBridge_CopyFrom v), (''dhcp-agent-circuit-id'', InterfaceBridge_DhcpAgentCircuitId v),
      (''dhcp-agent-remote-id'', InterfaceBridge_DhcpAgentRemoteId v),
      (''dhcp-snooping'', formatBool (InterfaceBridge_DhcpSnooping v)),
      (''dhcpv6-agent-circuit-id'', InterfaceBridge_Dhcpv6AgentCircuitId v),
      (''dhcpv6-agent-remote-id'', InterfaceBridge_Dhcpv6AgentRemoteId v),
      (''dhcpv6-snooping'', formatBool (InterfaceBridge_Dhcpv6Snooping v)),
      (''disabled'', formatBool (InterfaceBridge_Disabled v)), (''ether-type'', InterfaceBridge_EtherType v),
      (''fast-forward'', formatBool (InterfaceBridge_FastForward v)),
      (''forward-delay'', formatDuration (InterfaceBridge_ForwardDelay v)),
      (''forward-reserved-addresses'', formatBool (InterfaceBridge_ForwardReservedAddresses v)),
      (''frame-types'', InterfaceBridge_FrameTypes v), (''igmp-snooping'', formatBool (InterfaceBridge_IgmpSnooping v)),
      (''igmp-version'', InterfaceBridge_IgmpVersion v),
      (''ingress-filtering'', formatBool (InterfaceBridge_IngressFiltering v)),
      (''last-member-interval'', formatDuration (InterfaceBridge_LastMemberInterval v)),
      (''last-member-query-count'', formatInt (InterfaceBridge_LastMemberQueryCount v)),
      (''max-hops'', formatInt (InterfaceBridge_MaxHops v)),
      (''max-learned-entries'', InterfaceBridge_MaxLearnedEntries v),
      (''max-message-age'', formatDuration (InterfaceBridge_MaxMessageAge v)),
      (''membership-interval'', formatDuration (InterfaceBridge_MembershipInterval v)),
      (''mlag-heartbeat'', InterfaceBridge_MlagHeartbeat v), (''mlag-peer-port'', InterfaceBridge_MlagPeerPort v),
      (''mlag-priority'', formatInt (InterfaceBridge_MlagPriority v)), (''mld-version'', InterfaceBridge_MldVersion v),
      (''mtu'', InterfaceBridge_Mtu v), (''multicast-querier'', formatBool (InterfaceBridge_MulticastQuerier v)),
      (''multicast-router'', InterfaceBridge_MulticastRouter v), (''mvrp'', formatBool (InterfaceBridge_Mvrp v)),
      (''name'', InterfaceBridge_Name v), (''port-cost-mode'', InterfaceBridge_PortCostMode v),
      (''priority'', formatInt (InterfaceBridge_Priority v)), (''protocol-mode'', InterfaceBridge_ProtocolMode v),
      (''pvid'', formatInt (InterfaceBridge_Pvid v)),
      (''querier-interval'', formatDuration (InterfaceBridge_QuerierInterval v)),
      (''query-interval'', formatDuration (InterfaceBridge_QueryInterval v)),
      (''query-response-interval'', formatDuration (InterfaceBridge_QueryResponseInterval v)),
      (''ra-guard'', formatBool (InterfaceBridge_RaGuard v)), (''region-name'', InterfaceBridge_RegionName v),
      (''region-revision'', formatInt (InterfaceBridge_RegionRevision v)),
      (''startup-query-count'', formatInt (InterfaceBridge_StartupQueryCount v)),
      (''startup-query-interval'', formatDuration (InterfaceBridge_StartupQueryInterval v)),
      (''transmit-hold-count'', formatInt (InterfaceBridge_TransmitHoldCount v)),
      (''vlan-filtering'', formatBool (InterfaceBridge_VlanFiltering v))]"

section \<open>/ip/firewall/filter\<close>

definition IpFirewallFilterPath :: string where
  "IpFirewallFilterPath = ''/ip/firewall/filter''"

record IpFirewallFilter =
  IpFirewallFilter_ID :: string
  IpFirewallFilter_Action :: string
  IpFirewallFilter_AddressList :: string
  IpFirewallFilter_AddressListTimeout :: string
  IpFirewallFilter_Bytes :: int
  IpFirewallFilter_Chain :: string
  IpFirewallFilter_Comment :: string
  IpFirewallFilter_ConnectionBytes :: int
  IpFirewallFilter_ConnectionLimit :: string
  IpFirewallFilter_ConnectionMark :: string
  IpFirewallFilter_ConnectionNatState :: string
  IpFirewallFilter_ConnectionRate :: string
  IpFirewallFilter_ConnectionState :: string
  IpFirewallFilter_ConnectionType :: string
  IpFirewallFilter_Content :: string
  IpFirewallFilter_Disabled :: bool
  IpFirewallFilter_Dscp :: string
  IpFirewallFilter_DstAddress :: string
  IpFirewallFilter_DstAddressList :: string
  IpFirewallFilter_DstAddressType :: string
  IpFirewallFilter_DstLimit :: int
  IpFirewallFilter_DstPort :: string
  IpFirewallFilter_Dynamic :: bool
  IpFirewallFilter_Fragment :: bool
  IpFirewallFilter_Hotspot :: string
  IpFirewallFilter_IcmpOptions :: string
  IpFirewallFilter_InBridgePort :: string
  IpFirewallFilter_InBridgePortList :: string
  IpFirewallFilter_InInterface :: string
  IpFirewallFilter_InInterfaceList :: string
  IpFirewallFilter_IngressPriority :: string
  IpFirewallFilter_Invalid :: bool
  IpFirewallFilter_IpsecPolicy :: string
  IpFirewallFilter_Ipv4Options :: string
  IpFirewallFilter_JumpTarget :: string
  IpFirewallFilter_Layer7Protocol :: string
  IpFirewallFilter_Limit :: string
  IpFirewallFilter_Log :: bool
  IpFirewallFilter_LogPrefix :: string
  IpFirewallFilter_Nth :: string
  IpFirewallFilter_OutBridgePort :: string
  IpFirewallFilter_OutBridgePortList :: string
  IpFirewallFilter_OutInterface :: string
  IpFirewallFilter_OutInterfaceList :: string
  IpFirewallFilter_P2p :: string
  IpFirewallFilter_PacketMark :: string
  IpFirewallFilter_PacketSize :: string
  IpFirewallFilter_Packets :: int
  IpFirewallFilter_PerConnectionClassifier :: string
  IpFirewallFilter_Port :: string
  IpFirewallFilter_Priority :: string
  IpFirewallFilter_Protocol :: string
  IpFirewallFilter_Psd :: int
  IpFirewallFilter_Random :: int
  IpFirewallFilter_Realm :: string
  IpFirewallFilter_RejectWith :: string
  IpFirewallFilter_RoutingMark :: string
  IpFirewallFilter_SrcAddress :: string
  IpFirewallFilter_SrcAddressList :: string
  IpFirewallFilter_SrcAddressType :: string
  IpFirewallFilter_SrcMacAddress :: string
  IpFirewallFilter_SrcPort :: string
  IpFirewallFilter_TcpFlags :: string
  IpFirewallFilter_TcpMss :: string
  IpFirewallFilter_Time :: string
  IpFirewallFilter_TlsHost :: string
  IpFirewallFilter_Tos :: string
  IpFirewallFilter_Ttl :: string

definition DecodeIpFirewallFilter :: "Record \<Rightarrow> IpFirewallFilter" where
  "DecodeIpFirewallFilter r =
     \<lparr>IpFirewallFilter_ID = map_get r ''.id'', IpFirewallFilter_Action = map_get r ''action'',
      IpFirewallFilter_AddressList = map_get r ''address-list'',
      IpFirewallFilter_AddressListTimeout = map_get r ''address-list-timeout'',
      IpFirewallFilter_Bytes = parseInt (map_get r ''bytes''), IpFirewallFilter_Chain = map_get r ''chain'',
      IpFirewallFilter_Comment = map_get r ''comment'',
      IpFirewallFilter_ConnectionBytes = parseInt (map_get r ''connection-bytes''),
      IpFirewallFilter_ConnectionLimit = map_get r ''connection-limit'',
      IpFirewallFilter_ConnectionMark = map_get r ''connection-mark'',
      IpFirewallFilter_ConnectionNatState = map_get r ''connection-nat-state'',
      IpFirewallFilter_ConnectionRate = map_get r ''connection-rate'',
      IpFirewallFilter_ConnectionState = map_get r ''connection-state'',
      IpFirewallFilter_ConnectionType = map_get r ''connection-type'', IpFirewallFilter_Content = map_get r ''content'',
      IpFirewallFilter_Disabled = parseBool r ''disabled'', IpFirewallFilter_Dscp = map_get r ''dscp'',
      IpFirewallFilter_DstAddress = map_get r ''dst-address'',
      IpFirewallFilter_DstAddressList = map_get r ''dst-address-list'',
      IpFirewallFilter_DstAddressType = map_get r ''dst-address-type'',
      IpFirewallFilter_DstLimit = parseInt (map_get r ''dst-limit''), IpFirewallFilter_DstPort = map_get r ''dst-port'',
      IpFirewallFilter_Dynamic = parseBool r ''dynamic'', IpFirewallFilter_Fragment = parseBool r ''fragment'',
      IpFirewallFilter_Hotspot = map_get r ''hotspot'', IpFirewallFilter_IcmpOptions = map_get r ''icmp-options'',
      IpFirewallFilter_InBridgePort = map_get r ''in-bridge-port'',
      IpFirewallFilter_InBridgePortList = map_get r ''in-bridge-port-list'',
      IpFirewallFilter_InInterface = map_get r ''in-interface'',
      IpFirewallFilter_InInterfaceList = map_get r ''in-interface-list'',
      IpFirewallFilter_IngressPriority = map_get r ''ingress-priority'',
      IpFirewallFilter_Invalid = parseBool r ''invalid'', IpFirewallFilter_IpsecPolicy = map_get r ''ipsec-policy'',
      IpFirewallFilter_Ipv4Options = map_get r ''ipv4-options'',
      IpFirewallFilter_JumpTarget = map_get r ''jump-target'',
      IpFirewallFilter_Layer7Protocol = map_get r ''layer7-protocol'', IpFirewallFilter_Limit = map_get r ''limit'',
      IpFirewallFilter_Log = parseBool r ''log'', IpFirewallFilter_LogPrefix = map_get r ''log-prefix'',
      IpFirewallFilter_Nth = map_get r ''nth'', IpFirewallFilter_OutBridgePort = map_get r ''out-bridge-port'',
      IpFirewallFilter_OutBridgePortList = map_get r ''out-bridge-port-list'',
      IpFirewallFilter_OutInterface = map_get r ''out-interface'',
      IpFirewallFilter_OutInterfaceList = map_get r ''out-interface-list'', IpFirewallFilter_P2p = map_get r ''p2p'',
      IpFirewallFilter_PacketMark = map_get r ''packet-mark'', IpFirewallFilter_PacketSize = map_get r ''packet-size'',
      IpFirewallFilter_Packets = parseInt (map_get r ''packets''),
      IpFirewallFilter_PerConnectionClassifier = map_get r ''per-connection-classifier'',
      IpFirewallFilter_Port = map_get r ''port'', IpFirewallFilter_Priority = map_get r ''priority'',
      IpFirewallFilter_Protocol = map_get r ''protocol'', IpFirewallFilter_Psd = parseInt (map_get r ''psd''),
      IpFirewallFilter_Random = parseInt (map_get r ''random''), IpFirewallFilter_Realm = map_get r ''realm'',
      IpFirewallFilter_RejectWith = map_get r ''reject-with'',
      IpFirewallFilter_RoutingMark = map_get r ''routing-mark'',
      IpFirewallFilter_SrcAddress = map_get r ''src-address'',
      IpFirewallFilter_SrcAddressList = map_get r ''src-address-list'',
      IpFirewallFilter_SrcAddressType = map_get r ''src-address-type'',
      IpFirewallFilter_SrcMacAddress = map_get r ''src-mac-address'', IpFirewallFilter_SrcPort = map_get r ''src-port'',
      IpFirewallFilter_TcpFlags = map_get r ''tcp-flags'', IpFirewallFilter_TcpMss = map_get r ''tcp-mss'',
      IpFirewallFilter_Time = map_get r ''time'', IpFirewallFilter_TlsHost = map_get r ''tls-host'',
      IpFirewallFilter_Tos = map_get r ''tos'', IpFirewallFilter_Ttl = map_get r ''ttl''\<rparr>"

definition IpFirewallFilter_Encode :: "IpFirewallFilter \<Rightarrow> Record" where
  "IpFirewallFilter_Encode v = fmap_of_list
     [(''action'', IpFirewallFilter_Action v), (''address-list'', IpFirewallFilter_AddressList v),
      (''address-list-timeout'', IpFirewallFilter_AddressListTimeout v), (''chain'', IpFirewallFilter_Chain v),
      (''comment'', IpFirewallFilter_Comment v), (''connection-bytes'', formatInt (IpFirewallFilter_ConnectionBytes v)),
      (''connection-limit'', IpFirewallFilter_ConnectionLimit v),
      (''connection-mark'', IpFirewallFilter_ConnectionMark v),
      (''connection-nat-state'', IpFirewallFilter_ConnectionNatState v),
      (''connection-rate'', IpFirewallFilter_ConnectionRate v),
      (''connection-state'', IpFirewallFilter_ConnectionState v),
      (''connection-type'', IpFirewallFilter_ConnectionType v), (''content'', IpFirewallFilter_Content v),
      (''disabled'', formatBool (IpFirewallFilter_Disabled v)), (''dscp'', IpFirewallFilter_Dscp v),
      (''dst-address'', IpFirewallFilter_DstAddress v), (''dst-address-list'', IpFirewallFilter_DstAddressList v),
      (''dst-address-type'', IpFirewallFilter_DstAddressType v),
      (''dst-limit'', formatInt (IpFirewallFilter_DstLimit v)), (''dst-port'', IpFirewallFilter_DstPort v),
      (''fragment'', formatBool (IpFirewallFilter_Fragment v)), (''hotspot'', IpFirewallFilter_Hotspot v),
      (''icmp-options'', IpFirewallFilter_IcmpOptions v), (''in-bridge-port'', IpFirewallFilter_InBridgePort v),
      (''in-bridge-port-list'', IpFirewallFilter_InBridgePortList v),
      (''in-interface'', IpFirewallFilter_InInterface v), (''in-interface-list'', IpFirewallFilter_InInterfaceList v),
      (''ingress-priority'', IpFirewallFilter_IngressPriority v), (''ipsec-policy'', IpFirewallFilter_IpsecPolicy v),
      (''ipv4-options'', IpFirewallFilter_Ipv4Options v), (''jump-target'', IpFirewallFilter_JumpTarget v),
      (''layer7-protocol'', IpFirewallFilter_Layer7Protocol v), (''limit'', IpFirewallFilter_Limit v),
      (''log'', formatBool (IpFirewallFilter_Log v)), (''log-prefix'', IpFirewallFilter_LogPrefix v),
      (''nth'', IpFirewallFilter_Nth v), (''out-bridge-port'', IpFirewallFilter_OutBridgePort v),
      (''out-bridge-port-list'', IpFirewallFilter_OutBridgePortList v),
      (''out-interface'', IpFirewallFilter_OutInterface v),
      (''out-interface-list'', IpFirewallFilter_OutInterfaceList v), (''p2p'', IpFirewallFilter_P2p v),
      (''packet-mark'', IpFirewallFilter_PacketMark v), (''packet-size'', IpFirewallFilter_PacketSize v),
      (''per-connection-classifier'', IpFirewallFilter_PerConnectionClassifier v), (''port'', IpFirewallFilter_Port v),
      (''priority'', IpFirewallFilter_Priority v), (''protocol'', IpFirewallFilter_Protocol v),
      (''psd'', formatInt (IpFirewallFilter_Psd v)), (''random'', formatInt (IpFirewallFilter_Random v)),
      (''realm'', IpFirewallFilter_Realm v), (''reject-with'', IpFirewallFilter_RejectWith v),
      (''routing-mark'', IpFirewallFilter_RoutingMark v), (''src-address'', IpFirewallFilter_SrcAddress v),
      (''src-address-list'', IpFirewallFilter_SrcAddressList v),
      (''src-address-type'', IpFirewallFilter_SrcAddressType v),
      (''src-mac-address'', IpFirewallFilter_SrcMacAddress v), (''src-port'', IpFirewallFilter_SrcPort v),
      (''tcp-flags'', IpFirewallFilter_TcpFlags v), (''tcp-mss'', IpFirewallFilter_TcpMss v),
      (''time'', IpFirewallFilter_Time v), (''tls-host'', IpFirewallFilter_TlsHost v),
      (''tos'', IpFirewallFilter_Tos v), (''ttl'', IpFirewallFilter_Ttl v)]"

section \<open>/system/resource\<close>

definition SystemResourcePath :: string where
  "SystemResourcePath = ''/system/resource''"

record SystemResource =
  SystemResource_ArchitectureName :: string
  SystemResource_BoardName :: string
  SystemResource_BuildTime :: string
  SystemResource_Cpu :: string
  SystemResource_CpuCount :: int
  SystemResource_CpuLoad :: int
  SystemResource_FreeHddSpace :: int
  SystemResource_FreeMemory :: int
  SystemResource_Platform :: string
  SystemResource_TotalHddSpace :: int
  SystemResource_TotalMemory :: int
  SystemResource_Uptime :: int
  SystemResource_Version :: string
  SystemResource_WriteSectSinceReboot :: int
  SystemResource_WriteSectTotal :: int

definition DecodeSystemResource :: "Record \<Rightarrow> SystemResource" where
  "DecodeSystemResource r =
     \<lparr>SystemResource_ArchitectureName = map_get r ''architecture-name'',
      SystemResource_BoardName = map_get r ''board-name'', SystemResource_BuildTime = map_get r ''build-time'',
      SystemResource_Cpu = map_get r ''cpu'', SystemResource_CpuCount = parseInt (map_get r ''cpu-count''),
      SystemResource_CpuLoad = parseInt (map_get r ''cpu-load''),
      SystemResource_FreeHddSpace = parseInt (map_get r ''free-hdd-space''),
      SystemResource_FreeMemory = parseInt (map_get r ''free-memory''),
      SystemResource_Platform = map_get r ''platform'',
      SystemResource_TotalHddSpace = parseInt (map_get r ''total-hdd-space''),
      SystemResource_TotalMemory = parseInt (map_get r ''total-memory''),
      SystemResource_Uptime = parseDuration (map_get r ''uptime''), SystemResource_Version = map_get r ''version'',
      SystemResource_WriteSectSinceReboot = parseInt (map_get r ''write-sect-since-reboot''),
      SystemResource_WriteSectTotal = parseInt (map_get r ''write-sect-total'')\<rparr>"

definition SystemResource_Encode :: "SystemResource \<Rightarrow> Record" where
  "SystemResource_Encode v = fmap_of_list
     []"

section \<open>/interface\<close>

definition InterfacePath :: string where
  "InterfacePath = ''/interface''"

record Interface =
  Interface_ID :: string
  Interface_ActualMtu :: int
  Interface_Comment :: string
  Interface_DefaultName :: string
  Interface_Disabled :: bool
  Interface_Dynamic :: bool
  Interface_FpRpsDrop :: int
  Interface_FpRxByte :: int
  Interface_FpRxPacket :: int
  Interface_FpTxByte :: int
  Interface_FpTxPacket :: int
  Interface_Inactive :: bool
  Interface_L2mtu :: int
  Interface_LastLinkDownTime :: string
  Interface_LastLinkUpTime :: string
  Interface_LinkDowns :: int
  Interface_MacAddress :: string
  Interface_MaxL2mtu :: int
  Interface_Mtu :: string
  Interface_Name :: string
  Interface_Passthrough :: bool
  Interface_Running :: bool
  Interface_RxByte :: int
  Interface_RxDrop :: int
  Interface_RxError :: int
  Interface_RxPacket :: int
  Interface_Slave :: bool
  Interface_TxByte :: int
  Interface_TxDrop :: int
  Interface_TxError :: int
  Interface_TxPacket :: int
  Interface_TxQueueDrop :: int
  Interface_Type :: string
  Interface_Vrf :: string

definition DecodeInterface :: "Record \<Rightarrow> Interface" where
  "DecodeInterface r =
     \<lparr>Interface_ID = map_get r ''.id'', Interface_ActualMtu = parseInt (map_get r ''actual-mtu''),
      Interface_Comment = map_get r ''comment'', Interface_DefaultName = map_get r ''default-name'',
      Interface_Disabled = parseBool r ''disabled'', Interface_Dynamic = parseBool r ''dynamic'',
      Interface_FpRpsDrop = parseInt (map_get r ''fp-rps-drop''),
      Interface_FpRxByte = parseInt (map_get r ''fp-rx-byte''),
      Interface_FpRxPacket = parseInt (map_get r ''fp-rx-packet''),
      Interface_FpTxByte = parseInt (map_get r ''fp-tx-byte''),
      Interface_FpTxPacket = parseInt (map_get r ''fp-tx-packet''), Interface_Inactive = parseBool r ''inactive'',
      Interface_L2mtu = parseInt (map_get r ''l2mtu''), Interface_LastLinkDownTime = map_get r ''last-link-down-time'',
      Interface_LastLinkUpTime = map_get r ''last-link-up-time'',
      Interface_LinkDowns = parseInt (map_get r ''link-downs''), Interface_MacAddress = map_get r ''mac-address'',
      Interface_MaxL2mtu = parseInt (map_get r ''max-l2mtu''), Interface_Mtu = map_get r ''mtu'',
      Interface_Name = map_get r ''name'', Interface_Passthrough = parseBool r ''passthrough'',
      Interface_Running = parseBool r ''running'', Interface_RxByte = parseInt (map_get r ''rx-byte''),
      Interface_RxDrop = parseInt (map_get r ''rx-drop''), Interface_RxError = parseInt (map_get r ''rx-error''),
      Interface_RxPacket = parseInt (map_get r ''rx-packet''), Interface_Slave = parseBool r ''slave'',
      Interface_TxByte = parseInt (map_get r ''tx-byte''), Interface_TxDrop = parseInt (map_get r ''tx-drop''),
      Interface_TxError = parseInt (map_get r ''tx-error''), Interface_TxPacket = parseInt (map_get r ''tx-packet''),
      Interface_TxQueueDrop = parseInt (map_get r ''tx-queue-drop''), Interface_Type = map_get r ''type'',
      Interface_Vrf = map_get r ''vrf''\<rparr>"

definition Interface_Encode :: "Interface \<Rightarrow> Record" where
  "Interface_Encode v = fmap_of_list
     [(''comment'', Interface_Comment v), (''disabled'', formatBool (Interface_Disabled v)),
      (''l2mtu'', formatInt (Interface_L2mtu v)), (''mtu'', Interface_Mtu v), (''name'', Interface_Name v)]"

section \<open>/routing/bgp/session\<close>

definition RoutingBgpSessionPath :: string where
  "RoutingBgpSessionPath = ''/routing/bgp/session''"

record RoutingBgpSession =
  RoutingBgpSession_ID :: string
  RoutingBgpSession_CiscoVplsNlriLenFmt :: string
  RoutingBgpSession_Ebgp :: string
  RoutingBgpSession_Established :: bool
  RoutingBgpSession_HoldTime :: string
  RoutingBgpSession_Ibgp :: string
  RoutingBgpSession_InputAddPath :: string
  RoutingBgpSession_InputAffinity :: string
  RoutingBgpSession_InputAllowAs :: int
  RoutingBgpSession_InputAsOverride :: bool
  RoutingBgpSession_InputFilter :: string
  RoutingBgpSession_InputIgnoreAsPathLen :: bool
  RoutingBgpSession_InputLastNotification :: string
  RoutingBgpSession_InputLimitProcessRoutes :: int
  RoutingBgpSession_InputProcid :: int
  RoutingBgpSession_Instance :: string
  RoutingBgpSession_KeepaliveTime :: int
  RoutingBgpSession_KeepaliveTimer :: string
  RoutingBgpSession_LastStarted :: string
  RoutingBgpSession_LastStopped :: string
  RoutingBgpSession_LimitExceeded :: string
  RoutingBgpSession_LocalAddress :: string
  RoutingBgpSession_LocalAfi :: string
  RoutingBgpSession_LocalAs :: string
  RoutingBgpSession_LocalBytes :: int
  RoutingBgpSession_LocalCapabilities :: string
  RoutingBgpSession_LocalClusterId :: string
  RoutingBgpSession_LocalEor :: string
  RoutingBgpSession_LocalId :: string
  RoutingBgpSession_LocalMessages :: int
  RoutingBgpSession_LocalPort :: int
  RoutingBgpSession_LocalRole :: string
  RoutingBgpSession_Multihop :: bool
  RoutingBgpSession_Name :: string
  RoutingBgpSession_NexthopChoice :: string
  RoutingBgpSession_OutputAddPath :: string
  RoutingBgpSession_OutputAffinity :: string
  RoutingBgpSession_OutputDefaultOriginate :: string
  RoutingBgpSession_OutputDefaultPrepend :: int
  RoutingBgpSession_OutputFilterChain :: string
  RoutingBgpSession_OutputFilterSelect :: string
  RoutingBgpSession_OutputKeepSentAttributes :: bool
  RoutingBgpSession_OutputLastNotification :: string
  RoutingBgpSession_OutputNetwork :: string
  RoutingBgpSession_OutputNoClientToClientReflection :: bool
  RoutingBgpSession_OutputNoEarlyCut :: bool
  RoutingBgpSession_OutputProcid :: int
  RoutingBgpSession_OutputRemovePrivateAs :: bool
  RoutingBgpSession_PrefixCount :: int
  RoutingBgpSession_RemoteAddress :: string
  RoutingBgpSession_RemoteAfi :: string
  RoutingBgpSession_RemoteAs :: string
  RoutingBgpSession_RemoteBytes :: int
  RoutingBgpSession_RemoteCapabilities :: string
  RoutingBgpSession_RemoteEor :: string
  RoutingBgpSession_RemoteGrAfi :: string
  RoutingBgpSession_RemoteGrAfiFwp :: string
  RoutingBgpSession_RemoteGrRestart :: bool
  RoutingBgpSession_RemoteGrTime :: int
  RoutingBgpSession_RemoteHoldTime :: string
  RoutingBgpSession_RemoteId :: string
  RoutingBgpSession_RemoteMessages :: int
  RoutingBgpSession_RemotePort :: int
  RoutingBgpSession_RemoteRefusedCapOpt :: bool
  RoutingBgpSession_RemoteRole :: string
  RoutingBgpSession_RestartTimer :: string
  RoutingBgpSession_RoutingTable :: string
  RoutingBgpSession_SaveTo :: string
  RoutingBgpSession_Stopped :: string
  RoutingBgpSession_Uptime :: string
  RoutingBgpSession_UseBfd :: bool
  RoutingBgpSession_Vrf :: string

definition DecodeRoutingBgpSession :: "Record \<Rightarrow> RoutingBgpSession" where
  "DecodeRoutingBgpSession r =
     \<lparr>RoutingBgpSession_ID = map_get r ''.id'',
      RoutingBgpSession_CiscoVplsNlriLenFmt = map_get r ''cisco-vpls-nlri-len-fmt'',
      RoutingBgpSession_Ebgp = map_get r ''ebgp'', RoutingBgpSession_Established = parseBool r ''established'',
      RoutingBgpSession_HoldTime = map_get r ''hold-time'', RoutingBgpSession_Ibgp = map_get r ''ibgp'',
      RoutingBgpSession_InputAddPath = map_get r ''input.add-path'',
      RoutingBgpSession_InputAffinity = map_get r ''input.affinity'',
      RoutingBgpSession_InputAllowAs = parseInt (map_get r ''input.allow-as''),
      RoutingBgpSession_InputAsOverride = parseBool r ''input.as-override'',
      RoutingBgpSession_InputFilter = map_get r ''input.filter'',
      RoutingBgpSession_InputIgnoreAsPathLen = parseBool r ''input.ignore-as-path-len'',
      RoutingBgpSession_InputLastNotification = map_get r ''input.last-notification'',
      RoutingBgpSession_InputLimitProcessRoutes = parseInt (map_get r ''input.limit-process-routes''),
      RoutingBgpSession_InputProcid = parseInt (map_get r ''input.procid''),
      RoutingBgpSession_Instance = map_get r ''instance'',
      RoutingBgpSession_KeepaliveTime = parseDuration (map_get r ''keepalive-time''),
      RoutingBgpSession_KeepaliveTimer = map_get r ''keepalive-timer'',
      RoutingBgpSession_LastStarted = map_get r ''last-started'',
      RoutingBgpSession_LastStopped = map_get r ''last-stopped'',
      RoutingBgpSession_LimitExceeded = map_get r ''limit-exceeded'',
      RoutingBgpSession_LocalAddress = map_get r ''local.address'',
      RoutingBgpSession_LocalAfi = map_get r ''local.afi'', RoutingBgpSession_LocalAs = map_get r ''local.as'',
      RoutingBgpSession_LocalBytes = parseInt (map_get r ''local.bytes''),
      RoutingBgpSession_LocalCapabilities = map_get r ''local.capabilities'',
      RoutingBgpSession_LocalClusterId = map_get r ''local.cluster-id'',
      RoutingBgpSession_LocalEor = map_get r ''local.eor'', RoutingBgpSession_LocalId = map_get r ''local.id'',
      RoutingBgpSession_LocalMessages = parseInt (map_get r ''local.messages''),
      RoutingBgpSession_LocalPort = parseInt (map_get r ''local.port''),
      RoutingBgpSession_LocalRole = map_get r ''local.role'', RoutingBgpSession_Multihop = parseBool r ''multihop'',
      RoutingBgpSession_Name = map_get r ''name'', RoutingBgpSession_NexthopChoice = map_get r ''nexthop-choice'',
      RoutingBgpSession_OutputAddPath = map_get r ''output.add-path'',
      RoutingBgpSession_OutputAffinity = map_get r ''output.affinity'',
      RoutingBgpSession_OutputDefaultOriginate = map_get r ''output.default-originate'',
      RoutingBgpSession_OutputDefaultPrepend = parseInt (map_get r ''output.default-prepend''),
      RoutingBgpSession_OutputFilterChain = map_get r ''output.filter-chain'',
      RoutingBgpSession_OutputFilterSelect = map_get r ''output.filter-select'',
      RoutingBgpSession_OutputKeepSentAttributes = parseBool r ''output.keep-sent-attributes'',
      RoutingBgpSession_OutputLastNotification = map_get r ''output.last-notification'',
      RoutingBgpSession_OutputNetwork = map_get r ''output.network'',
      RoutingBgpSession_OutputNoClientToClientReflection = parseBool r ''output.no-client-to-client-reflection'',
      RoutingBgpSession_OutputNoEarlyCut = parseBool r ''output.no-early-cut'',
      RoutingBgpSession_OutputProcid = parseInt (map_get r ''output.procid''),
      RoutingBgpSession_OutputRemovePrivateAs = parseBool r ''output.remove-private-as'',
      RoutingBgpSession_PrefixCount = parseInt (map_get r ''prefix-count''),
      RoutingBgpSession_RemoteAddress = map_get r ''remote.address'',
      RoutingBgpSession_RemoteAfi = map_get r ''remote.afi'', RoutingBgpSession_RemoteAs = map_get r ''remote.as'',
      RoutingBgpSession_RemoteBytes = parseInt (map_get r ''remote.bytes''),
      RoutingBgpSession_RemoteCapabilities = map_get r ''remote.capabilities'',
      RoutingBgpSession_RemoteEor = map_get r ''remote.eor'',
      RoutingBgpSession_RemoteGrAfi = map_get r ''remote.gr-afi'',
      RoutingBgpSession_RemoteGrAfiFwp = map_get r ''remote.gr-afi-fwp'',
      RoutingBgpSession_RemoteGrRestart = parseBool r ''remote.gr-restart'',
      RoutingBgpSession_RemoteGrTime = parseInt (map_get r ''remote.gr-time''),
      RoutingBgpSession_RemoteHoldTime = map_get r ''remote.hold-time'',
      RoutingBgpSession_RemoteId = map_get r ''remote.id'',
      RoutingBgpSession_RemoteMessages = parseInt (map_get r ''remote.messages''),
      RoutingBgpSession_RemotePort = parseInt (map_get r ''remote.port''),
      RoutingBgpSession_RemoteRefusedCapOpt = parseBool r ''remote.refused-cap-opt'',
      RoutingBgpSession_RemoteRole = map_get r ''remote.role'',
      RoutingBgpSession_RestartTimer = map_get r ''restart-timer'',
      RoutingBgpSession_RoutingTable = map_get r ''routing-table'', RoutingBgpSession_SaveTo = map_get r ''save-to'',
      RoutingBgpSession_Stopped = map_get r ''stopped'', RoutingBgpSession_Uptime = map_get r ''uptime'',
      RoutingBgpSession_UseBfd = parseBool r ''use-bfd'', RoutingBgpSession_Vrf = map_get r ''vrf''\<rparr>"

definition RoutingBgpSession_Encode :: "RoutingBgpSession \<Rightarrow> Record" where
  "RoutingBgpSession_Encode v = fmap_of_list
     []"

section \<open>/system/health\<close>

definition SystemHealthPath :: string where
  "SystemHealthPath = ''/system/health''"

record SystemHealth =
  SystemHealth_ID :: string
  SystemHealth_Name :: string
  SystemHealth_Type :: string
  SystemHealth_Value :: string

definition DecodeSystemHealth :: "Record \<Rightarrow> SystemHealth" where
  "DecodeSystemHealth r =
     \<lparr>SystemHealth_ID = map_get r ''.id'', SystemHealth_Name = map_get r ''name'',
      SystemHealth_Type = map_get r ''type'', SystemHealth_Value = map_get r ''value''\<rparr>"

definition SystemHealth_Encode :: "SystemHealth \<Rightarrow> Record" where
  "SystemHealth_Encode v = fmap_of_list
     []"

end
