(* ===== verification/Codec_Generated.thy ===== *)
theory Codec_Generated
  imports Pinned_Menus Routeros_Codec
begin

text \<open>
  The typed accessors of src/routeros/routeros.go against the generator and the pinned IR: every
  decoder and encoder of the file computes what the generator emits for the menu of the IR, so the
  theorems on the generator hold of the file.
\<close>

section \<open>Evaluating names and types\<close>

lemma letter_table:
  shows "isLetter (CHR ''a'')" "isLetter (CHR ''b'')" "isLetter (CHR ''c'')" "isLetter (CHR ''d'')" "isLetter (CHR ''e'')" "isLetter (CHR ''f'')"
    "isLetter (CHR ''g'')" "isLetter (CHR ''h'')" "isLetter (CHR ''i'')" "isLetter (CHR ''j'')" "isLetter (CHR ''k'')" "isLetter (CHR ''l'')"
    "isLetter (CHR ''m'')" "isLetter (CHR ''n'')" "isLetter (CHR ''o'')" "isLetter (CHR ''p'')" "isLetter (CHR ''q'')" "isLetter (CHR ''r'')"
    "isLetter (CHR ''s'')" "isLetter (CHR ''t'')" "isLetter (CHR ''u'')" "isLetter (CHR ''v'')" "isLetter (CHR ''w'')" "isLetter (CHR ''x'')"
    "isLetter (CHR ''y'')" "isLetter (CHR ''z'')" "isLetter (CHR ''A'')" "isLetter (CHR ''B'')" "isLetter (CHR ''C'')" "isLetter (CHR ''D'')"
    "isLetter (CHR ''E'')" "isLetter (CHR ''F'')" "isLetter (CHR ''G'')" "isLetter (CHR ''H'')" "isLetter (CHR ''I'')" "isLetter (CHR ''J'')"
    "isLetter (CHR ''K'')" "isLetter (CHR ''L'')" "isLetter (CHR ''M'')" "isLetter (CHR ''N'')" "isLetter (CHR ''O'')" "isLetter (CHR ''P'')"
    "isLetter (CHR ''Q'')" "isLetter (CHR ''R'')" "isLetter (CHR ''S'')" "isLetter (CHR ''T'')" "isLetter (CHR ''U'')" "isLetter (CHR ''V'')"
    "isLetter (CHR ''W'')" "isLetter (CHR ''X'')" "isLetter (CHR ''Y'')" "isLetter (CHR ''Z'')"
  by (simp_all add: isLetter_def isLower_def isUpper_def)

lemma not_letter_table:
  shows "\<not> isLetter (CHR ''0'')" "\<not> isLetter (CHR ''1'')" "\<not> isLetter (CHR ''2'')" "\<not> isLetter (CHR ''3'')"
    "\<not> isLetter (CHR ''4'')" "\<not> isLetter (CHR ''5'')" "\<not> isLetter (CHR ''6'')" "\<not> isLetter (CHR ''7'')"
    "\<not> isLetter (CHR ''8'')" "\<not> isLetter (CHR ''9'')" "\<not> isLetter (CHR ''-'')" "\<not> isLetter (CHR ''.'')"
    "\<not> isLetter (CHR ''/'')" "\<not> isLetter (CHR ''!'')" "\<not> isLetter (CHR ''+'')" "\<not> isLetter (CHR ''_'')"
    "\<not> isLetter (CHR '':'')"
  by (simp_all add: isLetter_def isLower_def isUpper_def)

lemma digit_table:
  shows "is_digit (CHR ''0'')" "is_digit (CHR ''1'')" "is_digit (CHR ''2'')" "is_digit (CHR ''3'')" "is_digit (CHR ''4'')" "is_digit (CHR ''5'')"
    "is_digit (CHR ''6'')" "is_digit (CHR ''7'')" "is_digit (CHR ''8'')" "is_digit (CHR ''9'')" "\<not> is_digit (CHR ''-'')" "\<not> is_digit (CHR ''.'')"
    "\<not> is_digit (CHR ''/'')" "\<not> is_digit (CHR ''!'')" "\<not> is_digit (CHR ''+'')" "\<not> is_digit (CHR ''_'')" "\<not> is_digit (CHR '':'')"
  by (simp_all add: is_digit_def)

lemma not_digit_table:
  shows "\<not> is_digit (CHR ''a'')" "\<not> is_digit (CHR ''b'')" "\<not> is_digit (CHR ''c'')" "\<not> is_digit (CHR ''d'')" "\<not> is_digit (CHR ''e'')" "\<not> is_digit (CHR ''f'')"
    "\<not> is_digit (CHR ''g'')" "\<not> is_digit (CHR ''h'')" "\<not> is_digit (CHR ''i'')" "\<not> is_digit (CHR ''j'')" "\<not> is_digit (CHR ''k'')" "\<not> is_digit (CHR ''l'')"
    "\<not> is_digit (CHR ''m'')" "\<not> is_digit (CHR ''n'')" "\<not> is_digit (CHR ''o'')" "\<not> is_digit (CHR ''p'')" "\<not> is_digit (CHR ''q'')" "\<not> is_digit (CHR ''r'')"
    "\<not> is_digit (CHR ''s'')" "\<not> is_digit (CHR ''t'')" "\<not> is_digit (CHR ''u'')" "\<not> is_digit (CHR ''v'')" "\<not> is_digit (CHR ''w'')" "\<not> is_digit (CHR ''x'')"
    "\<not> is_digit (CHR ''y'')" "\<not> is_digit (CHR ''z'')" "\<not> is_digit (CHR ''A'')" "\<not> is_digit (CHR ''B'')" "\<not> is_digit (CHR ''C'')" "\<not> is_digit (CHR ''D'')"
    "\<not> is_digit (CHR ''E'')" "\<not> is_digit (CHR ''F'')" "\<not> is_digit (CHR ''G'')" "\<not> is_digit (CHR ''H'')" "\<not> is_digit (CHR ''I'')" "\<not> is_digit (CHR ''J'')"
    "\<not> is_digit (CHR ''K'')" "\<not> is_digit (CHR ''L'')" "\<not> is_digit (CHR ''M'')" "\<not> is_digit (CHR ''N'')" "\<not> is_digit (CHR ''O'')" "\<not> is_digit (CHR ''P'')"
    "\<not> is_digit (CHR ''Q'')" "\<not> is_digit (CHR ''R'')" "\<not> is_digit (CHR ''S'')" "\<not> is_digit (CHR ''T'')" "\<not> is_digit (CHR ''U'')" "\<not> is_digit (CHR ''V'')"
    "\<not> is_digit (CHR ''W'')" "\<not> is_digit (CHR ''X'')" "\<not> is_digit (CHR ''Y'')" "\<not> is_digit (CHR ''Z'')"
  by (simp_all add: is_digit_def)

lemma upper_table:
  shows "toUpper (CHR ''a'') = CHR ''A''" "toUpper (CHR ''b'') = CHR ''B''" "toUpper (CHR ''c'') = CHR ''C''" "toUpper (CHR ''d'') = CHR ''D''"
    "toUpper (CHR ''e'') = CHR ''E''" "toUpper (CHR ''f'') = CHR ''F''" "toUpper (CHR ''g'') = CHR ''G''" "toUpper (CHR ''h'') = CHR ''H''"
    "toUpper (CHR ''i'') = CHR ''I''" "toUpper (CHR ''j'') = CHR ''J''" "toUpper (CHR ''k'') = CHR ''K''" "toUpper (CHR ''l'') = CHR ''L''"
    "toUpper (CHR ''m'') = CHR ''M''" "toUpper (CHR ''n'') = CHR ''N''" "toUpper (CHR ''o'') = CHR ''O''" "toUpper (CHR ''p'') = CHR ''P''"
    "toUpper (CHR ''q'') = CHR ''Q''" "toUpper (CHR ''r'') = CHR ''R''" "toUpper (CHR ''s'') = CHR ''S''" "toUpper (CHR ''t'') = CHR ''T''"
    "toUpper (CHR ''u'') = CHR ''U''" "toUpper (CHR ''v'') = CHR ''V''" "toUpper (CHR ''w'') = CHR ''W''" "toUpper (CHR ''x'') = CHR ''X''"
    "toUpper (CHR ''y'') = CHR ''Y''" "toUpper (CHR ''z'') = CHR ''Z''" "toUpper (CHR ''A'') = CHR ''A''" "toUpper (CHR ''B'') = CHR ''B''"
    "toUpper (CHR ''C'') = CHR ''C''" "toUpper (CHR ''D'') = CHR ''D''" "toUpper (CHR ''E'') = CHR ''E''" "toUpper (CHR ''F'') = CHR ''F''"
    "toUpper (CHR ''G'') = CHR ''G''" "toUpper (CHR ''H'') = CHR ''H''" "toUpper (CHR ''I'') = CHR ''I''" "toUpper (CHR ''J'') = CHR ''J''"
    "toUpper (CHR ''K'') = CHR ''K''" "toUpper (CHR ''L'') = CHR ''L''" "toUpper (CHR ''M'') = CHR ''M''" "toUpper (CHR ''N'') = CHR ''N''"
    "toUpper (CHR ''O'') = CHR ''O''" "toUpper (CHR ''P'') = CHR ''P''" "toUpper (CHR ''Q'') = CHR ''Q''" "toUpper (CHR ''R'') = CHR ''R''"
    "toUpper (CHR ''S'') = CHR ''S''" "toUpper (CHR ''T'') = CHR ''T''" "toUpper (CHR ''U'') = CHR ''U''" "toUpper (CHR ''V'') = CHR ''V''"
    "toUpper (CHR ''W'') = CHR ''W''" "toUpper (CHR ''X'') = CHR ''X''" "toUpper (CHR ''Y'') = CHR ''Y''" "toUpper (CHR ''Z'') = CHR ''Z''"
    "toUpper (CHR ''0'') = CHR ''0''" "toUpper (CHR ''1'') = CHR ''1''" "toUpper (CHR ''2'') = CHR ''2''" "toUpper (CHR ''3'') = CHR ''3''"
    "toUpper (CHR ''4'') = CHR ''4''" "toUpper (CHR ''5'') = CHR ''5''" "toUpper (CHR ''6'') = CHR ''6''" "toUpper (CHR ''7'') = CHR ''7''"
    "toUpper (CHR ''8'') = CHR ''8''" "toUpper (CHR ''9'') = CHR ''9''"
  by code_simp+

lemma contains_table:
  shows "\<not> Contains '''' ''time interval''"
    "\<not> Contains '''' ''integer number''"
    "\<not> Contains '''' ''IP address''"
    "\<not> Contains ''IP address'' ''time interval''"
    "\<not> Contains ''IP address'' ''integer number''"
    "Contains ''IP address'' ''IP address''"
    "\<not> Contains ''IP address|integer number'' ''time interval''"
    "Contains ''IP address|integer number'' ''integer number''"
    "Contains ''IP address|integer number'' ''IP address''"
    "\<not> Contains ''MAC address'' ''time interval''"
    "\<not> Contains ''MAC address'' ''integer number''"
    "\<not> Contains ''MAC address'' ''IP address''"
    "\<not> Contains ''date time'' ''time interval''"
    "\<not> Contains ''date time'' ''integer number''"
    "\<not> Contains ''date time'' ''IP address''"
    "\<not> Contains ''integer number'' ''time interval''"
    "Contains ''integer number'' ''integer number''"
    "\<not> Contains ''integer number'' ''IP address''"
    "\<not> Contains ''string'' ''time interval''"
    "\<not> Contains ''string'' ''integer number''"
    "\<not> Contains ''string'' ''IP address''"
    "\<not> Contains ''string value'' ''time interval''"
    "\<not> Contains ''string value'' ''integer number''"
    "\<not> Contains ''string value'' ''IP address''"
    "Contains ''time interval'' ''time interval''"
    "\<not> Contains ''time interval'' ''integer number''"
    "\<not> Contains ''time interval'' ''IP address''"
  by code_simp+

lemmas name_eval = goName_def camel.simps letter_table not_letter_table digit_table not_digit_table upper_table

lemmas field_eval = irMenu_def irField_def skip_def encoded_def decodeField_def isDuration_def isInteger_def
  Rows_def KindUnknown_def KindScalar_def KindEnum_def Writable_def ClassList_def ClassOrdered_def contains_table


section \<open>/ip/address\<close>

definition IpAddress_view :: "IpAddress \<Rightarrow> (string \<times> gval) list" where
  "IpAddress_view v =
     [(''ID'', GString (IpAddress_ID v)), (''ActualInterface'', GString (IpAddress_ActualInterface v)),
      (''Address'', GString (IpAddress_Address v)), (''Broadcast'', GString (IpAddress_Broadcast v)),
      (''Comment'', GString (IpAddress_Comment v)), (''Disabled'', GBool (IpAddress_Disabled v)),
      (''Dynamic'', GBool (IpAddress_Dynamic v)), (''Interface'', GString (IpAddress_Interface v)),
      (''Invalid'', GBool (IpAddress_Invalid v)), (''Netmask'', GString (IpAddress_Netmask v)),
      (''Network'', GString (IpAddress_Network v)), (''Slave'', GBool (IpAddress_Slave v)),
      (''Vrf'', GString (IpAddress_Vrf v))]"

lemma IpAddress_decode: "IpAddress_view (DecodeIpAddress r) = decodeMenu pinnedIpAddress r"
  by (simp add: IpAddress_view_def DecodeIpAddress_def decodeMenu_def structFields_def pinnedIpAddress_def field_eval name_eval)

lemma IpAddress_encode: "IpAddress_Encode v = encodeMenu pinnedIpAddress (map snd (tl (IpAddress_view v)))"
  by (simp add: IpAddress_view_def IpAddress_Encode_def encodeMenu_def pinnedIpAddress_def structFields_def field_eval)

section \<open>/interface/bridge\<close>

definition InterfaceBridge_view :: "InterfaceBridge \<Rightarrow> (string \<times> gval) list" where
  "InterfaceBridge_view v =
     [(''ID'', GString (InterfaceBridge_ID v)), (''ActualMtu'', GInt (InterfaceBridge_ActualMtu v)),
      (''AdminMac'', GString (InterfaceBridge_AdminMac v)), (''AgeingTime'', GDuration (InterfaceBridge_AgeingTime v)),
      (''Arp'', GString (InterfaceBridge_Arp v)), (''ArpTimeout'', GString (InterfaceBridge_ArpTimeout v)),
      (''AutoMac'', GBool (InterfaceBridge_AutoMac v)), (''Comment'', GString (InterfaceBridge_Comment v)),
      (''CopyFrom'', GString (InterfaceBridge_CopyFrom v)),
      (''DhcpAgentCircuitId'', GString (InterfaceBridge_DhcpAgentCircuitId v)),
      (''DhcpAgentRemoteId'', GString (InterfaceBridge_DhcpAgentRemoteId v)),
      (''DhcpSnooping'', GBool (InterfaceBridge_DhcpSnooping v)),
      (''Dhcpv6AgentCircuitId'', GString (InterfaceBridge_Dhcpv6AgentCircuitId v)),
      (''Dhcpv6AgentRemoteId'', GString (InterfaceBridge_Dhcpv6AgentRemoteId v)),
      (''Dhcpv6Snooping'', GBool (InterfaceBridge_Dhcpv6Snooping v)),
      (''Disabled'', GBool (InterfaceBridge_Disabled v)), (''Dynamic'', GBool (InterfaceBridge_Dynamic v)),
      (''EtherType'', GString (InterfaceBridge_EtherType v)), (''FastForward'', GBool (InterfaceBridge_FastForward v)),
      (''ForwardDelay'', GDuration (InterfaceBridge_ForwardDelay v)),
      (''ForwardReservedAddresses'', GBool (InterfaceBridge_ForwardReservedAddresses v)),
      (''FrameTypes'', GString (InterfaceBridge_FrameTypes v)),
      (''IgmpSnooping'', GBool (InterfaceBridge_IgmpSnooping v)),
      (''IgmpVersion'', GString (InterfaceBridge_IgmpVersion v)),
      (''IngressFiltering'', GBool (InterfaceBridge_IngressFiltering v)), (''L2mtu'', GInt (InterfaceBridge_L2mtu v)),
      (''LastMemberInterval'', GDuration (InterfaceBridge_LastMemberInterval v)),
      (''LastMemberQueryCount'', GInt (InterfaceBridge_LastMemberQueryCount v)),
      (''MacAddress'', GString (InterfaceBridge_MacAddress v)), (''Managed'', GBool (InterfaceBridge_Managed v)),
      (''MaxHops'', GInt (InterfaceBridge_MaxHops v)),
      (''MaxLearnedEntries'', GString (InterfaceBridge_MaxLearnedEntries v)),
      (''MaxMessageAge'', GDuration (InterfaceBridge_MaxMessageAge v)),
      (''MembershipInterval'', GDuration (InterfaceBridge_MembershipInterval v)),
      (''MlagHeartbeat'', GString (InterfaceBridge_MlagHeartbeat v)),
      (''MlagPeerPort'', GString (InterfaceBridge_MlagPeerPort v)),
      (''MlagPriority'', GInt (InterfaceBridge_MlagPriority v)),
      (''MldVersion'', GString (InterfaceBridge_MldVersion v)), (''Mtu'', GString (InterfaceBridge_Mtu v)),
      (''MulticastQuerier'', GBool (InterfaceBridge_MulticastQuerier v)),
      (''MulticastRouter'', GString (InterfaceBridge_MulticastRouter v)), (''Mvrp'', GBool (InterfaceBridge_Mvrp v)),
      (''Name'', GString (InterfaceBridge_Name v)), (''PortCostMode'', GString (InterfaceBridge_PortCostMode v)),
      (''Priority'', GInt (InterfaceBridge_Priority v)), (''ProtocolMode'', GString (InterfaceBridge_ProtocolMode v)),
      (''Pvid'', GInt (InterfaceBridge_Pvid v)), (''QuerierInterval'', GDuration (InterfaceBridge_QuerierInterval v)),
      (''QueryInterval'', GDuration (InterfaceBridge_QueryInterval v)),
      (''QueryResponseInterval'', GDuration (InterfaceBridge_QueryResponseInterval v)),
      (''RaGuard'', GBool (InterfaceBridge_RaGuard v)), (''RegionName'', GString (InterfaceBridge_RegionName v)),
      (''RegionRevision'', GInt (InterfaceBridge_RegionRevision v)), (''Running'', GBool (InterfaceBridge_Running v)),
      (''StartupQueryCount'', GInt (InterfaceBridge_StartupQueryCount v)),
      (''StartupQueryInterval'', GDuration (InterfaceBridge_StartupQueryInterval v)),
      (''TransmitHoldCount'', GInt (InterfaceBridge_TransmitHoldCount v)),
      (''VlanFiltering'', GBool (InterfaceBridge_VlanFiltering v))]"

lemma InterfaceBridge_decode: "InterfaceBridge_view (DecodeInterfaceBridge r) = decodeMenu pinnedInterfaceBridge r"
  by (simp add: InterfaceBridge_view_def DecodeInterfaceBridge_def decodeMenu_def structFields_def pinnedInterfaceBridge_def field_eval name_eval)

lemma InterfaceBridge_encode: "InterfaceBridge_Encode v = encodeMenu pinnedInterfaceBridge (map snd (tl (InterfaceBridge_view v)))"
  by (simp add: InterfaceBridge_view_def InterfaceBridge_Encode_def encodeMenu_def pinnedInterfaceBridge_def structFields_def field_eval)

section \<open>/ip/firewall/filter\<close>

definition IpFirewallFilter_view :: "IpFirewallFilter \<Rightarrow> (string \<times> gval) list" where
  "IpFirewallFilter_view v =
     [(''ID'', GString (IpFirewallFilter_ID v)), (''Action'', GString (IpFirewallFilter_Action v)),
      (''AddressList'', GString (IpFirewallFilter_AddressList v)),
      (''AddressListTimeout'', GString (IpFirewallFilter_AddressListTimeout v)),
      (''Bytes'', GInt (IpFirewallFilter_Bytes v)), (''Chain'', GString (IpFirewallFilter_Chain v)),
      (''Comment'', GString (IpFirewallFilter_Comment v)),
      (''ConnectionBytes'', GInt (IpFirewallFilter_ConnectionBytes v)),
      (''ConnectionLimit'', GString (IpFirewallFilter_ConnectionLimit v)),
      (''ConnectionMark'', GString (IpFirewallFilter_ConnectionMark v)),
      (''ConnectionNatState'', GString (IpFirewallFilter_ConnectionNatState v)),
      (''ConnectionRate'', GString (IpFirewallFilter_ConnectionRate v)),
      (''ConnectionState'', GString (IpFirewallFilter_ConnectionState v)),
      (''ConnectionType'', GString (IpFirewallFilter_ConnectionType v)),
      (''Content'', GString (IpFirewallFilter_Content v)), (''Disabled'', GBool (IpFirewallFilter_Disabled v)),
      (''Dscp'', GString (IpFirewallFilter_Dscp v)), (''DstAddress'', GString (IpFirewallFilter_DstAddress v)),
      (''DstAddressList'', GString (IpFirewallFilter_DstAddressList v)),
      (''DstAddressType'', GString (IpFirewallFilter_DstAddressType v)),
      (''DstLimit'', GInt (IpFirewallFilter_DstLimit v)), (''DstPort'', GString (IpFirewallFilter_DstPort v)),
      (''Dynamic'', GBool (IpFirewallFilter_Dynamic v)), (''Fragment'', GBool (IpFirewallFilter_Fragment v)),
      (''Hotspot'', GString (IpFirewallFilter_Hotspot v)), (''IcmpOptions'', GString (IpFirewallFilter_IcmpOptions v)),
      (''InBridgePort'', GString (IpFirewallFilter_InBridgePort v)),
      (''InBridgePortList'', GString (IpFirewallFilter_InBridgePortList v)),
      (''InInterface'', GString (IpFirewallFilter_InInterface v)),
      (''InInterfaceList'', GString (IpFirewallFilter_InInterfaceList v)),
      (''IngressPriority'', GString (IpFirewallFilter_IngressPriority v)),
      (''Invalid'', GBool (IpFirewallFilter_Invalid v)), (''IpsecPolicy'', GString (IpFirewallFilter_IpsecPolicy v)),
      (''Ipv4Options'', GString (IpFirewallFilter_Ipv4Options v)),
      (''JumpTarget'', GString (IpFirewallFilter_JumpTarget v)),
      (''Layer7Protocol'', GString (IpFirewallFilter_Layer7Protocol v)),
      (''Limit'', GString (IpFirewallFilter_Limit v)), (''Log'', GBool (IpFirewallFilter_Log v)),
      (''LogPrefix'', GString (IpFirewallFilter_LogPrefix v)), (''Nth'', GString (IpFirewallFilter_Nth v)),
      (''OutBridgePort'', GString (IpFirewallFilter_OutBridgePort v)),
      (''OutBridgePortList'', GString (IpFirewallFilter_OutBridgePortList v)),
      (''OutInterface'', GString (IpFirewallFilter_OutInterface v)),
      (''OutInterfaceList'', GString (IpFirewallFilter_OutInterfaceList v)),
      (''P2p'', GString (IpFirewallFilter_P2p v)), (''PacketMark'', GString (IpFirewallFilter_PacketMark v)),
      (''PacketSize'', GString (IpFirewallFilter_PacketSize v)), (''Packets'', GInt (IpFirewallFilter_Packets v)),
      (''PerConnectionClassifier'', GString (IpFirewallFilter_PerConnectionClassifier v)),
      (''Port'', GString (IpFirewallFilter_Port v)), (''Priority'', GString (IpFirewallFilter_Priority v)),
      (''Protocol'', GString (IpFirewallFilter_Protocol v)), (''Psd'', GInt (IpFirewallFilter_Psd v)),
      (''Random'', GInt (IpFirewallFilter_Random v)), (''Realm'', GString (IpFirewallFilter_Realm v)),
      (''RejectWith'', GString (IpFirewallFilter_RejectWith v)),
      (''RoutingMark'', GString (IpFirewallFilter_RoutingMark v)),
      (''SrcAddress'', GString (IpFirewallFilter_SrcAddress v)),
      (''SrcAddressList'', GString (IpFirewallFilter_SrcAddressList v)),
      (''SrcAddressType'', GString (IpFirewallFilter_SrcAddressType v)),
      (''SrcMacAddress'', GString (IpFirewallFilter_SrcMacAddress v)),
      (''SrcPort'', GString (IpFirewallFilter_SrcPort v)), (''TcpFlags'', GString (IpFirewallFilter_TcpFlags v)),
      (''TcpMss'', GString (IpFirewallFilter_TcpMss v)), (''Time'', GString (IpFirewallFilter_Time v)),
      (''TlsHost'', GString (IpFirewallFilter_TlsHost v)), (''Tos'', GString (IpFirewallFilter_Tos v)),
      (''Ttl'', GString (IpFirewallFilter_Ttl v))]"

lemma IpFirewallFilter_decode: "IpFirewallFilter_view (DecodeIpFirewallFilter r) = decodeMenu pinnedIpFirewallFilter r"
  by (simp add: IpFirewallFilter_view_def DecodeIpFirewallFilter_def decodeMenu_def structFields_def pinnedIpFirewallFilter_def field_eval name_eval)

lemma IpFirewallFilter_encode: "IpFirewallFilter_Encode v = encodeMenu pinnedIpFirewallFilter (map snd (tl (IpFirewallFilter_view v)))"
  by (simp add: IpFirewallFilter_view_def IpFirewallFilter_Encode_def encodeMenu_def pinnedIpFirewallFilter_def structFields_def field_eval)

section \<open>/system/resource\<close>

definition SystemResource_view :: "SystemResource \<Rightarrow> (string \<times> gval) list" where
  "SystemResource_view v =
     [(''ArchitectureName'', GString (SystemResource_ArchitectureName v)),
      (''BoardName'', GString (SystemResource_BoardName v)), (''BuildTime'', GString (SystemResource_BuildTime v)),
      (''Cpu'', GString (SystemResource_Cpu v)), (''CpuCount'', GInt (SystemResource_CpuCount v)),
      (''CpuLoad'', GInt (SystemResource_CpuLoad v)), (''FreeHddSpace'', GInt (SystemResource_FreeHddSpace v)),
      (''FreeMemory'', GInt (SystemResource_FreeMemory v)), (''Platform'', GString (SystemResource_Platform v)),
      (''TotalHddSpace'', GInt (SystemResource_TotalHddSpace v)),
      (''TotalMemory'', GInt (SystemResource_TotalMemory v)), (''Uptime'', GDuration (SystemResource_Uptime v)),
      (''Version'', GString (SystemResource_Version v)),
      (''WriteSectSinceReboot'', GInt (SystemResource_WriteSectSinceReboot v)),
      (''WriteSectTotal'', GInt (SystemResource_WriteSectTotal v))]"

lemma SystemResource_decode: "SystemResource_view (DecodeSystemResource r) = decodeMenu pinnedSystemResource r"
  by (simp add: SystemResource_view_def DecodeSystemResource_def decodeMenu_def structFields_def pinnedSystemResource_def field_eval name_eval)

lemma SystemResource_encode: "SystemResource_Encode v = encodeMenu pinnedSystemResource (map snd (SystemResource_view v))"
  by (simp add: SystemResource_view_def SystemResource_Encode_def encodeMenu_def pinnedSystemResource_def structFields_def field_eval)

section \<open>/interface\<close>

definition Interface_view :: "Interface \<Rightarrow> (string \<times> gval) list" where
  "Interface_view v =
     [(''ID'', GString (Interface_ID v)), (''ActualMtu'', GInt (Interface_ActualMtu v)),
      (''Comment'', GString (Interface_Comment v)), (''DefaultName'', GString (Interface_DefaultName v)),
      (''Disabled'', GBool (Interface_Disabled v)), (''Dynamic'', GBool (Interface_Dynamic v)),
      (''FpRpsDrop'', GInt (Interface_FpRpsDrop v)), (''FpRxByte'', GInt (Interface_FpRxByte v)),
      (''FpRxPacket'', GInt (Interface_FpRxPacket v)), (''FpTxByte'', GInt (Interface_FpTxByte v)),
      (''FpTxPacket'', GInt (Interface_FpTxPacket v)), (''Inactive'', GBool (Interface_Inactive v)),
      (''L2mtu'', GInt (Interface_L2mtu v)), (''LastLinkDownTime'', GString (Interface_LastLinkDownTime v)),
      (''LastLinkUpTime'', GString (Interface_LastLinkUpTime v)), (''LinkDowns'', GInt (Interface_LinkDowns v)),
      (''MacAddress'', GString (Interface_MacAddress v)), (''MaxL2mtu'', GInt (Interface_MaxL2mtu v)),
      (''Mtu'', GString (Interface_Mtu v)), (''Name'', GString (Interface_Name v)),
      (''Passthrough'', GBool (Interface_Passthrough v)), (''Running'', GBool (Interface_Running v)),
      (''RxByte'', GInt (Interface_RxByte v)), (''RxDrop'', GInt (Interface_RxDrop v)),
      (''RxError'', GInt (Interface_RxError v)), (''RxPacket'', GInt (Interface_RxPacket v)),
      (''Slave'', GBool (Interface_Slave v)), (''TxByte'', GInt (Interface_TxByte v)),
      (''TxDrop'', GInt (Interface_TxDrop v)), (''TxError'', GInt (Interface_TxError v)),
      (''TxPacket'', GInt (Interface_TxPacket v)), (''TxQueueDrop'', GInt (Interface_TxQueueDrop v)),
      (''Type'', GString (Interface_Type v)), (''Vrf'', GString (Interface_Vrf v))]"

lemma Interface_decode: "Interface_view (DecodeInterface r) = decodeMenu pinnedInterface r"
  by (simp add: Interface_view_def DecodeInterface_def decodeMenu_def structFields_def pinnedInterface_def field_eval name_eval)

lemma Interface_encode: "Interface_Encode v = encodeMenu pinnedInterface (map snd (tl (Interface_view v)))"
  by (simp add: Interface_view_def Interface_Encode_def encodeMenu_def pinnedInterface_def structFields_def field_eval)

section \<open>/routing/bgp/session\<close>

definition RoutingBgpSession_view :: "RoutingBgpSession \<Rightarrow> (string \<times> gval) list" where
  "RoutingBgpSession_view v =
     [(''ID'', GString (RoutingBgpSession_ID v)),
      (''CiscoVplsNlriLenFmt'', GString (RoutingBgpSession_CiscoVplsNlriLenFmt v)),
      (''Ebgp'', GString (RoutingBgpSession_Ebgp v)), (''Established'', GBool (RoutingBgpSession_Established v)),
      (''HoldTime'', GString (RoutingBgpSession_HoldTime v)), (''Ibgp'', GString (RoutingBgpSession_Ibgp v)),
      (''InputAddPath'', GString (RoutingBgpSession_InputAddPath v)),
      (''InputAffinity'', GString (RoutingBgpSession_InputAffinity v)),
      (''InputAllowAs'', GInt (RoutingBgpSession_InputAllowAs v)),
      (''InputAsOverride'', GBool (RoutingBgpSession_InputAsOverride v)),
      (''InputFilter'', GString (RoutingBgpSession_InputFilter v)),
      (''InputIgnoreAsPathLen'', GBool (RoutingBgpSession_InputIgnoreAsPathLen v)),
      (''InputLastNotification'', GString (RoutingBgpSession_InputLastNotification v)),
      (''InputLimitProcessRoutes'', GInt (RoutingBgpSession_InputLimitProcessRoutes v)),
      (''InputProcid'', GInt (RoutingBgpSession_InputProcid v)), (''Instance'', GString (RoutingBgpSession_Instance v)),
      (''KeepaliveTime'', GDuration (RoutingBgpSession_KeepaliveTime v)),
      (''KeepaliveTimer'', GString (RoutingBgpSession_KeepaliveTimer v)),
      (''LastStarted'', GString (RoutingBgpSession_LastStarted v)),
      (''LastStopped'', GString (RoutingBgpSession_LastStopped v)),
      (''LimitExceeded'', GString (RoutingBgpSession_LimitExceeded v)),
      (''LocalAddress'', GString (RoutingBgpSession_LocalAddress v)),
      (''LocalAfi'', GString (RoutingBgpSession_LocalAfi v)), (''LocalAs'', GString (RoutingBgpSession_LocalAs v)),
      (''LocalBytes'', GInt (RoutingBgpSession_LocalBytes v)),
      (''LocalCapabilities'', GString (RoutingBgpSession_LocalCapabilities v)),
      (''LocalClusterId'', GString (RoutingBgpSession_LocalClusterId v)),
      (''LocalEor'', GString (RoutingBgpSession_LocalEor v)), (''LocalId'', GString (RoutingBgpSession_LocalId v)),
      (''LocalMessages'', GInt (RoutingBgpSession_LocalMessages v)),
      (''LocalPort'', GInt (RoutingBgpSession_LocalPort v)), (''LocalRole'', GString (RoutingBgpSession_LocalRole v)),
      (''Multihop'', GBool (RoutingBgpSession_Multihop v)), (''Name'', GString (RoutingBgpSession_Name v)),
      (''NexthopChoice'', GString (RoutingBgpSession_NexthopChoice v)),
      (''OutputAddPath'', GString (RoutingBgpSession_OutputAddPath v)),
      (''OutputAffinity'', GString (RoutingBgpSession_OutputAffinity v)),
      (''OutputDefaultOriginate'', GString (RoutingBgpSession_OutputDefaultOriginate v)),
      (''OutputDefaultPrepend'', GInt (RoutingBgpSession_OutputDefaultPrepend v)),
      (''OutputFilterChain'', GString (RoutingBgpSession_OutputFilterChain v)),
      (''OutputFilterSelect'', GString (RoutingBgpSession_OutputFilterSelect v)),
      (''OutputKeepSentAttributes'', GBool (RoutingBgpSession_OutputKeepSentAttributes v)),
      (''OutputLastNotification'', GString (RoutingBgpSession_OutputLastNotification v)),
      (''OutputNetwork'', GString (RoutingBgpSession_OutputNetwork v)),
      (''OutputNoClientToClientReflection'', GBool (RoutingBgpSession_OutputNoClientToClientReflection v)),
      (''OutputNoEarlyCut'', GBool (RoutingBgpSession_OutputNoEarlyCut v)),
      (''OutputProcid'', GInt (RoutingBgpSession_OutputProcid v)),
      (''OutputRemovePrivateAs'', GBool (RoutingBgpSession_OutputRemovePrivateAs v)),
      (''PrefixCount'', GInt (RoutingBgpSession_PrefixCount v)),
      (''RemoteAddress'', GString (RoutingBgpSession_RemoteAddress v)),
      (''RemoteAfi'', GString (RoutingBgpSession_RemoteAfi v)), (''RemoteAs'', GString (RoutingBgpSession_RemoteAs v)),
      (''RemoteBytes'', GInt (RoutingBgpSession_RemoteBytes v)),
      (''RemoteCapabilities'', GString (RoutingBgpSession_RemoteCapabilities v)),
      (''RemoteEor'', GString (RoutingBgpSession_RemoteEor v)),
      (''RemoteGrAfi'', GString (RoutingBgpSession_RemoteGrAfi v)),
      (''RemoteGrAfiFwp'', GString (RoutingBgpSession_RemoteGrAfiFwp v)),
      (''RemoteGrRestart'', GBool (RoutingBgpSession_RemoteGrRestart v)),
      (''RemoteGrTime'', GInt (RoutingBgpSession_RemoteGrTime v)),
      (''RemoteHoldTime'', GString (RoutingBgpSession_RemoteHoldTime v)),
      (''RemoteId'', GString (RoutingBgpSession_RemoteId v)),
      (''RemoteMessages'', GInt (RoutingBgpSession_RemoteMessages v)),
      (''RemotePort'', GInt (RoutingBgpSession_RemotePort v)),
      (''RemoteRefusedCapOpt'', GBool (RoutingBgpSession_RemoteRefusedCapOpt v)),
      (''RemoteRole'', GString (RoutingBgpSession_RemoteRole v)),
      (''RestartTimer'', GString (RoutingBgpSession_RestartTimer v)),
      (''RoutingTable'', GString (RoutingBgpSession_RoutingTable v)),
      (''SaveTo'', GString (RoutingBgpSession_SaveTo v)), (''Stopped'', GString (RoutingBgpSession_Stopped v)),
      (''Uptime'', GString (RoutingBgpSession_Uptime v)), (''UseBfd'', GBool (RoutingBgpSession_UseBfd v)),
      (''Vrf'', GString (RoutingBgpSession_Vrf v))]"

lemma RoutingBgpSession_decode: "RoutingBgpSession_view (DecodeRoutingBgpSession r) = decodeMenu pinnedRoutingBgpSession r"
  by (simp add: RoutingBgpSession_view_def DecodeRoutingBgpSession_def decodeMenu_def structFields_def pinnedRoutingBgpSession_def field_eval name_eval)

lemma RoutingBgpSession_encode: "RoutingBgpSession_Encode v = encodeMenu pinnedRoutingBgpSession (map snd (tl (RoutingBgpSession_view v)))"
  by (simp add: RoutingBgpSession_view_def RoutingBgpSession_Encode_def encodeMenu_def pinnedRoutingBgpSession_def structFields_def field_eval)

section \<open>/system/health\<close>

definition SystemHealth_view :: "SystemHealth \<Rightarrow> (string \<times> gval) list" where
  "SystemHealth_view v =
     [(''ID'', GString (SystemHealth_ID v)), (''Name'', GString (SystemHealth_Name v)),
      (''Type'', GString (SystemHealth_Type v)), (''Value'', GString (SystemHealth_Value v))]"

lemma SystemHealth_decode: "SystemHealth_view (DecodeSystemHealth r) = decodeMenu pinnedSystemHealth r"
  by (simp add: SystemHealth_view_def DecodeSystemHealth_def decodeMenu_def structFields_def pinnedSystemHealth_def field_eval name_eval)

lemma SystemHealth_encode: "SystemHealth_Encode v = encodeMenu pinnedSystemHealth (map snd (tl (SystemHealth_view v)))"
  by (simp add: SystemHealth_view_def SystemHealth_Encode_def encodeMenu_def pinnedSystemHealth_def structFields_def field_eval)

section \<open>Properties\<close>

text \<open>
  C27: the checked-in accessors are the generator's. For each of the seven menus of the file, decoding a
  record fills exactly the fields, under the names and with the types, that the generator emits for the
  pinned IR of the menu, and encoding a value writes exactly the keys the generator makes it write: the
  file and the IR it was generated from have not drifted apart.
\<close>

theorem codec_is_generated:
  "IpAddress_view (DecodeIpAddress r) = decodeMenu pinnedIpAddress r
   \<and> InterfaceBridge_view (DecodeInterfaceBridge r) = decodeMenu pinnedInterfaceBridge r
   \<and> IpFirewallFilter_view (DecodeIpFirewallFilter r) = decodeMenu pinnedIpFirewallFilter r
   \<and> SystemResource_view (DecodeSystemResource r) = decodeMenu pinnedSystemResource r
   \<and> Interface_view (DecodeInterface r) = decodeMenu pinnedInterface r
   \<and> RoutingBgpSession_view (DecodeRoutingBgpSession r) = decodeMenu pinnedRoutingBgpSession r
   \<and> SystemHealth_view (DecodeSystemHealth r) = decodeMenu pinnedSystemHealth r
   \<and> IpAddress_Encode a = encodeMenu pinnedIpAddress (map snd (tl (IpAddress_view a)))
   \<and> InterfaceBridge_Encode b = encodeMenu pinnedInterfaceBridge (map snd (tl (InterfaceBridge_view b)))
   \<and> IpFirewallFilter_Encode f = encodeMenu pinnedIpFirewallFilter (map snd (tl (IpFirewallFilter_view f)))
   \<and> SystemResource_Encode s = encodeMenu pinnedSystemResource (map snd (SystemResource_view s))
   \<and> Interface_Encode i = encodeMenu pinnedInterface (map snd (tl (Interface_view i)))
   \<and> RoutingBgpSession_Encode g = encodeMenu pinnedRoutingBgpSession (map snd (tl (RoutingBgpSession_view g)))
   \<and> SystemHealth_Encode h = encodeMenu pinnedSystemHealth (map snd (tl (SystemHealth_view h)))"
  by (intro conjI IpAddress_decode InterfaceBridge_decode IpFirewallFilter_decode SystemResource_decode Interface_decode RoutingBgpSession_decode SystemHealth_decode
    IpAddress_encode InterfaceBridge_encode IpFirewallFilter_encode SystemResource_encode Interface_encode RoutingBgpSession_encode SystemHealth_encode)

end
