(* ===== verification/Collector.thy ===== *)
theory Collector
  imports Rest_Client Routeros_Codec
begin

text \<open>
  src/collector: the OpenTelemetry receiver. One scrape reads four menus and two singletons through
  the REST client and records data points and resource attributes; a menu that does not answer is
  logged and skipped.

  The metrics and resource builders that mdatagen generates are the lists of what was recorded; the
  timestamp every point carries is the same one and is left out. Parsing a float is a parameter, as in
  the record accessors.
\<close>

section \<open>Configuration\<close>

record Config =
  Endpoint :: string
  Username :: string
  Password :: string
  CollectionInterval :: int
  cfgTimeout :: int

datatype config_problem = EndpointRequired | UsernameRequired

definition Config_Validate :: "Config \<Rightarrow> config_problem option" where
  "Config_Validate c =
     (if Endpoint c = [] then Some EndpointRequired
      else if Username c = [] then Some UsernameRequired
      else None)"

text \<open>Thirty seconds between scrapes, ten for a request, in nanoseconds.\<close>

definition createDefaultConfig :: Config where
  "createDefaultConfig =
     \<lparr>Endpoint = [], Username = ''admin'', Password = [], CollectionInterval = 30 * 1000000000, cfgTimeout = 10 * 1000000000\<rparr>"

section \<open>Scraping\<close>

datatype direction = Receive | Transmit

datatype 'f point =
    InterfaceIo int string direction
  | InterfaceUp int string
  | BgpSessionPrefixCount int string string
  | BgpSessionUp int string string
  | HwTemperature 'f string
  | FirewallRuleIo int string

datatype log_entry =
    SourceAddressRefused string
  | ScrapeFailedStatus string int int string
  | ScrapeFailed string error
  | NonNumericReading string string

record 'f scraped =
  points :: "'f point list"
  logs :: "log_entry list"

definition gauge :: "bool \<Rightarrow> int" where
  "gauge b = (if b then 1 else 0)"

definition warn :: "string \<Rightarrow> error \<Rightarrow> log_entry" where
  "warn path err =
     (if Is_AddressRejected err then SourceAddressRefused path
      else (case err of
              Router e \<Rightarrow> ScrapeFailedStatus path (errStatus e) (errCode e) (errDetail e)
            | _ \<Rightarrow> ScrapeFailed path err))"

definition interfacePoints :: "Record \<Rightarrow> 'f scraped" where
  "interfacePoints r =
     (let v = DecodeInterface r
      in \<lparr>points = [InterfaceIo (Interface_RxByte v) (Interface_Name v) Receive,
                     InterfaceIo (Interface_TxByte v) (Interface_Name v) Transmit,
                     InterfaceUp (gauge (Interface_Running v)) (Interface_Name v)],
          logs = []\<rparr>)"

definition sessionPoints :: "Record \<Rightarrow> 'f scraped" where
  "sessionPoints r =
     (let v = DecodeRoutingBgpSession r
      in \<lparr>points = [BgpSessionPrefixCount (RoutingBgpSession_PrefixCount v) (RoutingBgpSession_Name v) (RoutingBgpSession_RemoteAs v),
                     BgpSessionUp (gauge (RoutingBgpSession_Established v)) (RoutingBgpSession_Name v) (RoutingBgpSession_RemoteAs v)],
          logs = []\<rparr>)"

definition healthPoints :: "(string \<Rightarrow> num_error + 'f) \<Rightarrow> 'f \<Rightarrow> Record \<Rightarrow> 'f scraped" where
  "healthPoints parseFloat zero r =
     (let v = DecodeSystemHealth r
      in if SystemHealth_Type v \<noteq> ''C'' then \<lparr>points = [], logs = []\<rparr>
         else (case FloatOK parseFloat zero r ''value'' of
                 (celsius, ok) \<Rightarrow>
                   if \<not> ok then \<lparr>points = [], logs = [NonNumericReading (SystemHealth_Name v) (SystemHealth_Value v)]\<rparr>
                   else \<lparr>points = [HwTemperature celsius (SystemHealth_Name v)], logs = []\<rparr>))"

definition filterPoints :: "Record \<Rightarrow> 'f scraped" where
  "filterPoints r =
     (let v = DecodeIpFirewallFilter r
      in if IpFirewallFilter_Comment v = [] then \<lparr>points = [], logs = []\<rparr>
         else \<lparr>points = [FirewallRuleIo (IpFirewallFilter_Bytes v) (IpFirewallFilter_Comment v)], logs = []\<rparr>)"

definition both :: "'f scraped \<Rightarrow> 'f scraped \<Rightarrow> 'f scraped" where
  "both a b = \<lparr>points = points a @ points b, logs = logs a @ logs b\<rparr>"

definition allOf :: "(Record \<Rightarrow> 'f scraped) \<Rightarrow> Record list \<Rightarrow> 'f scraped" where
  "allOf row rs = \<lparr>points = concat (map (points \<circ> row) rs), logs = concat (map (logs \<circ> row) rs)\<rparr>"

text \<open>\<^verbatim>\<open>if rows, err := s.client.List(ctx, path); err != nil { s.warn(path, err) } else { ... }\<close>\<close>

definition scrapeMenu ::
  "('h, 'd) transport_fn \<Rightarrow> 'h Client \<Rightarrow> string \<Rightarrow> (Record \<Rightarrow> 'f scraped) \<Rightarrow> 'f scraped \<Rightarrow> 'd \<Rightarrow> 'f scraped \<times> 'd" where
  "scrapeMenu Do c path row acc d =
     (case List Do c path [] d of
        (Inl err, d') \<Rightarrow> (both acc \<lparr>points = [], logs = [warn path err]\<rparr>, d')
      | (Inr rs, d') \<Rightarrow> (both acc (allOf row rs), d'))"

record resource_attrs =
  ServiceName :: string
  ServiceInstanceID :: string
  OsVersion :: "string option"
  DeviceModel :: "string option"
  DeviceSerial :: "string option"

definition routerboardPath :: string where
  "routerboardPath = ''/system/routerboard''"

text \<open>
  The second half of \<^verbatim>\<open>scrape\<close>: the attributes of the resource. A router without a board is not
  reported.
\<close>

definition scrapeResource ::
  "('h, 'd) transport_fn \<Rightarrow> 'h Client \<Rightarrow> Config \<Rightarrow> 'f scraped \<Rightarrow> 'd \<Rightarrow> 'f scraped \<times> resource_attrs \<times> 'd" where
  "scrapeResource Do c cfg acc d =
     (let inst = Endpoint cfg
      in case Get Do c SystemResourcePath d of
           (res, d1) \<Rightarrow>
             let acc' = (case res of Inl err \<Rightarrow> both acc \<lparr>points = [], logs = [warn SystemResourcePath err]\<rparr> | Inr r \<Rightarrow> acc);
                 os = (case res of Inl err \<Rightarrow> None | Inr r \<Rightarrow> Some (SystemResource_Version (DecodeSystemResource r)))
             in case Get Do c routerboardPath d1 of
                  (Inl err, d2) \<Rightarrow>
                    (acc', \<lparr>ServiceName = ''routeros'', ServiceInstanceID = inst, OsVersion = os, DeviceModel = None, DeviceSerial = None\<rparr>, d2)
                | (Inr board, d2) \<Rightarrow>
                    (acc', \<lparr>ServiceName = ''routeros'',
                      ServiceInstanceID = (let sn = Record_String board ''serial-number'' in if sn \<noteq> [] then sn else inst),
                      OsVersion = os, DeviceModel = Some (Record_String board ''model''),
                      DeviceSerial = Some (Record_String board ''serial-number'')\<rparr>, d2))"

definition scrape ::
  "(string \<Rightarrow> num_error + 'f) \<Rightarrow> 'f \<Rightarrow> ('h, 'd) transport_fn \<Rightarrow> 'h Client \<Rightarrow> Config \<Rightarrow> 'd
   \<Rightarrow> 'f scraped \<times> resource_attrs \<times> 'd" where
  "scrape parseFloat zero Do c cfg d0 =
     (case scrapeMenu Do c InterfacePath interfacePoints \<lparr>points = [], logs = []\<rparr> d0 of (s1, d1) \<Rightarrow>
      case scrapeMenu Do c RoutingBgpSessionPath sessionPoints s1 d1 of (s2, d2) \<Rightarrow>
      case scrapeMenu Do c SystemHealthPath (healthPoints parseFloat zero) s2 d2 of (s3, d3) \<Rightarrow>
      case scrapeMenu Do c IpFirewallFilterPath filterPoints s3 d3 of (s4, d4) \<Rightarrow>
        scrapeResource Do c cfg s4 d4)"

text \<open>\<^verbatim>\<open>start\<close>: the HTTP client of the collector, wrapped in the REST client with the credentials.\<close>

definition start :: "(int \<Rightarrow> 'h) \<Rightarrow> (Config \<Rightarrow> string + 'h) \<Rightarrow> Config \<Rightarrow> (string + error) + 'h Client" where
  "start httpClient toClient cfg =
     (case toClient cfg of
        Inl e \<Rightarrow> Inl (Inl e)
      | Inr h \<Rightarrow>
          (case New httpClient (Endpoint cfg) [WithHTTPClient (Some h), WithBasicAuth (Username cfg) (Password cfg)] of
             Inl e \<Rightarrow> Inl (Inr e)
           | Inr c \<Rightarrow> Inr c))"

section \<open>A scrape only reads\<close>

text \<open>A property of the router that requests without a body by method GET keep.\<close>

definition kept_by_reads :: "('h, 'd) transport_fn \<Rightarrow> ('d \<Rightarrow> bool) \<Rightarrow> bool" where
  "kept_by_reads Do I \<longleftrightarrow>
     (\<forall>h req d. reqMethod req = ''GET'' \<and> reqBody req = None \<and> I d \<longrightarrow> I (snd (Do h req d)))"

lemma do_keeps:
  assumes "kept_by_reads Do I" and "I d"
  shows "I (snd (do Do c ''GET'' path None d))"
proof -
  have "I (snd (Do (chttp c) (mkRequest c ''GET'' path None) d))" using assms by (simp add: kept_by_reads_def mkRequest_def)
  then show ?thesis by (auto simp: do_def roundTrip_def Let_def split: prod.splits sum.splits)
qed

lemma List_keeps: "kept_by_reads Do I \<Longrightarrow> I d \<Longrightarrow> I (snd (List Do c path [] d))"
  by (simp add: List_def newQuery_def query_empty_def do_keeps)

lemma Get_keeps: "kept_by_reads Do I \<Longrightarrow> I d \<Longrightarrow> I (snd (Get Do c path d))"
  using do_keeps [of Do I d c "menuPath path"]
  by (auto simp: Get_def split: prod.splits sum.splits list.splits)

lemma scrapeMenu_keeps: "kept_by_reads Do I \<Longrightarrow> I d \<Longrightarrow> I (snd (scrapeMenu Do c path row acc d))"
  using List_keeps [of Do I d c path] by (auto simp: scrapeMenu_def split: prod.splits sum.splits)

lemma scrapeResource_keeps: "kept_by_reads Do I \<Longrightarrow> I d \<Longrightarrow> I (snd (snd (scrapeResource Do c cfg acc d)))"
  using Get_keeps [of Do I d c SystemResourcePath] Get_keeps [of Do I "snd (Get Do c SystemResourcePath d)" c routerboardPath]
  by (auto simp: scrapeResource_def Let_def split: prod.splits sum.splits)

text \<open>The states between the six requests of a scrape.\<close>

lemma scrape_stages:
  fixes parseFloat :: "string \<Rightarrow> num_error + 'f"
  obtains s1 s2 s3 s4 :: "'f scraped" and d1 d2 d3 d4
  where "scrapeMenu Do c InterfacePath interfacePoints \<lparr>points = [], logs = []\<rparr> d = (s1, d1)"
    and "scrapeMenu Do c RoutingBgpSessionPath sessionPoints s1 d1 = (s2, d2)"
    and "scrapeMenu Do c SystemHealthPath (healthPoints parseFloat zero) s2 d2 = (s3, d3)"
    and "scrapeMenu Do c IpFirewallFilterPath filterPoints s3 d3 = (s4, d4)"
    and "scrape parseFloat zero Do c cfg d = scrapeResource Do c cfg s4 d4"
proof -
  obtain s1 :: "'f scraped" and d1 where 1: "scrapeMenu Do c InterfacePath interfacePoints \<lparr>points = [], logs = []\<rparr> d = (s1, d1)" by force
  obtain s2 d2 where 2: "scrapeMenu Do c RoutingBgpSessionPath sessionPoints s1 d1 = (s2, d2)" by force
  obtain s3 d3 where 3: "scrapeMenu Do c SystemHealthPath (healthPoints parseFloat zero) s2 d2 = (s3, d3)" by force
  obtain s4 d4 where 4: "scrapeMenu Do c IpFirewallFilterPath filterPoints s3 d3 = (s4, d4)" by force
  show ?thesis using that [OF 1 2 3 4] by (simp add: scrape_def 1 2 3 4)
qed

text \<open>
  Monitoring does not change the router. Whatever a scrape finds and whatever fails, everything
  that GET requests without a body leave alone is as it was before.
\<close>

theorem scrape_only_reads:
  fixes parseFloat :: "string \<Rightarrow> num_error + 'f"
  assumes "kept_by_reads Do I" and "I d"
  shows "I (snd (snd (scrape parseFloat zero Do c cfg d)))"
proof (rule scrape_stages [of Do c d parseFloat zero cfg])
  fix s1 s2 s3 s4 :: "'f scraped" and d1 d2 d3 d4
  assume st: "scrapeMenu Do c InterfacePath interfacePoints \<lparr>points = [], logs = []\<rparr> d = (s1, d1)"
    "scrapeMenu Do c RoutingBgpSessionPath sessionPoints s1 d1 = (s2, d2)"
    "scrapeMenu Do c SystemHealthPath (healthPoints parseFloat zero) s2 d2 = (s3, d3)"
    "scrapeMenu Do c IpFirewallFilterPath filterPoints s3 d3 = (s4, d4)"
    "scrape parseFloat zero Do c cfg d = scrapeResource Do c cfg s4 d4"
  have "I d1" using scrapeMenu_keeps [OF assms] st(1) by (metis snd_conv)
  then have "I d2" using scrapeMenu_keeps [OF assms(1)] st(2) by (metis snd_conv)
  then have "I d3" using scrapeMenu_keeps [OF assms(1)] st(3) by (metis snd_conv)
  then have "I d4" using scrapeMenu_keeps [OF assms(1)] st(4) by (metis snd_conv)
  then show ?thesis using scrapeResource_keeps [OF assms(1)] st(5) by simp
qed

section \<open>What is recorded\<close>

text \<open>A row the router returned for a menu at some point.\<close>

definition answered :: "('h, 'd) transport_fn \<Rightarrow> 'h Client \<Rightarrow> string \<Rightarrow> Record \<Rightarrow> bool" where
  "answered Do c path r \<longleftrightarrow> (\<exists>d rs d'. List Do c path [] d = (Inr rs, d') \<and> r \<in> set rs)"

lemma scrapeMenu_points:
  assumes "scrapeMenu Do c path row acc d = (s, d')" and "p \<in> set (points s)"
  shows "p \<in> set (points acc) \<or> (\<exists>r. answered Do c path r \<and> p \<in> set (points (row r)))"
  using assms by (fastforce simp: scrapeMenu_def both_def allOf_def answered_def split: prod.splits sum.splits)

lemma scrapeResource_points: "points (fst (scrapeResource Do c cfg acc d)) = points acc"
  by (auto simp: scrapeResource_def Let_def both_def split: prod.splits sum.splits)

lemma scrape_points:
  fixes parseFloat :: "string \<Rightarrow> num_error + 'f"
  assumes "p \<in> set (points (fst (scrape parseFloat zero Do c cfg d)))"
  shows "(\<exists>r. answered Do c InterfacePath r \<and> p \<in> set (points (interfacePoints r)))
    \<or> (\<exists>r. answered Do c RoutingBgpSessionPath r \<and> p \<in> set (points (sessionPoints r)))
    \<or> (\<exists>r. answered Do c SystemHealthPath r \<and> p \<in> set (points (healthPoints parseFloat zero r)))
    \<or> (\<exists>r. answered Do c IpFirewallFilterPath r \<and> p \<in> set (points (filterPoints r)))"
proof (rule scrape_stages [of Do c d parseFloat zero cfg])
  fix s1 s2 s3 s4 :: "'f scraped" and d1 d2 d3 d4
  assume st: "scrapeMenu Do c InterfacePath interfacePoints \<lparr>points = [], logs = []\<rparr> d = (s1, d1)"
    "scrapeMenu Do c RoutingBgpSessionPath sessionPoints s1 d1 = (s2, d2)"
    "scrapeMenu Do c SystemHealthPath (healthPoints parseFloat zero) s2 d2 = (s3, d3)"
    "scrapeMenu Do c IpFirewallFilterPath filterPoints s3 d3 = (s4, d4)"
    "scrape parseFloat zero Do c cfg d = scrapeResource Do c cfg s4 d4"
  have "p \<in> set (points s4)" using assms st(5) by (simp add: scrapeResource_points)
  then show ?thesis
    using scrapeMenu_points [OF st(4), of p] scrapeMenu_points [OF st(3), of p] scrapeMenu_points [OF st(2), of p]
      scrapeMenu_points [OF st(1), of p] by auto
qed


text \<open>
  A scrape always identifies its router. Under a configuration the receiver accepts, the resource
  has a service name and an instance id, also when neither singleton answers: without both the exporter
  drops the whole resource. The id is the endpoint or the serial number the board reports.
\<close>

theorem scrape_identified:
  fixes parseFloat :: "string \<Rightarrow> num_error + 'f"
  assumes "Config_Validate cfg = None"
  shows "ServiceName (fst (snd (scrape parseFloat zero Do c cfg d))) = ''routeros''
    \<and> ServiceInstanceID (fst (snd (scrape parseFloat zero Do c cfg d))) \<noteq> []"
proof (rule scrape_stages [of Do c d parseFloat zero cfg])
  fix s1 s2 s3 s4 :: "'f scraped" and d1 d2 d3 d4
  assume "scrape parseFloat zero Do c cfg d = scrapeResource Do c cfg s4 d4"
  then show ?thesis using assms
    by (auto simp: Config_Validate_def scrapeResource_def Let_def split: if_splits prod.splits sum.splits)
qed

definition exClient :: "unit Client" where
  "exClient = \<lparr>cbase = ''r/rest'', chttp = (), cuser = [], cpass = []\<rparr>"

theorem scrape_identified_witness:
  "ServiceInstanceID (fst (snd (scrape (\<lambda>s. Inl ErrSyntax) () (\<lambda>h req d. (NewRequestFailed, d)) exClient
     (createDefaultConfig\<lparr>Endpoint := ''r''\<rparr>) ()))) \<noteq> []"
proof -
  have "Config_Validate (createDefaultConfig\<lparr>Endpoint := ''r''\<rparr>) = None" by (simp add: Config_Validate_def createDefaultConfig_def)
  then show ?thesis by (rule scrape_identified [THEN conjunct2])
qed

theorem scrape_only_reads_witness:
  "snd (snd (scrape (\<lambda>s. Inl ErrSyntax) () (\<lambda>h req d. (NewRequestFailed, if reqMethod req = ''GET'' then d else Suc d))
     exClient createDefaultConfig 7)) = 7"
proof -
  have "kept_by_reads (\<lambda>h req d. (NewRequestFailed, if reqMethod req = ''GET'' then d else Suc d)) (\<lambda>d. d = 7)"
    by (simp add: kept_by_reads_def)
  then show ?thesis by (rule scrape_only_reads) simp
qed

text \<open>A router that answers every request with one sensor.\<close>

definition exRow :: Record where
  "exRow = fmap_of_list [(''name'', ''cpu''), (''type'', ''C''), (''value'', ''41'')]"

definition exSensor :: "(unit, unit) transport_fn" where
  "exSensor h req d = (Replied 200 (Doc (JArr (map json_of_record [exRow]))), d)"

definition exFloat :: "string \<Rightarrow> num_error + nat" where
  "exFloat s = (if s = ''41'' then Inr 41 else Inl ErrSyntax)"

lemma ex_List: "List exSensor exClient path [] d = (Inr [exRow], d)"
proof -
  have "list_all rec_utf8 [exRow]" by code_simp
  then show ?thesis
    using asError_array [of 200 _ "map json_of_record [exRow]"] decode_rows [of "[exRow]"]
    by (simp add: List_def newQuery_def query_empty_def do_def roundTrip_def exSensor_def del: decode.simps)
qed

lemma both_points: "points (both a b) = points a @ points b"
  by (simp add: both_def)

lemma allOf_single: "points (allOf row [r]) = points (row r)"
  by (simp add: allOf_def)

lemma ex_health: "points (healthPoints exFloat 0 exRow) = [HwTemperature 41 ''cpu'']"
  by (simp add: healthPoints_def DecodeSystemHealth_def FloatOK_def Float_def exFloat_def exRow_def lookup_default_def
      fmlookup_of_list)


end
