(* ===== verification/Provider_Config.thy ===== *)
theory Provider_Config
  imports Row_Identity Runtime_Cache "HOL-Library.Multiset"
begin

text \<open>
  src/config: how the upstream provider is adapted before code is generated from it and before the
  controllers run it. Each adaptation walks a table of resources and changes their schemas or wraps
  their callbacks; \<^verbatim>\<open>providerForGeneration\<close> and \<^verbatim>\<open>providerForRuntime\<close> compose them.

  Upstream hands several resources the same \<^verbatim>\<open>*schema.Schema\<close>, so the schemas live in a heap and a
  resource maps its fields to addresses: a change made through a pointer shows in every field that
  shares it. A nil dereference and an explicit panic are error values. The tables that are Go maps are
  visited in an unspecified order, so a pass takes an enumeration of its table.
\<close>

section \<open>Schemas\<close>

datatype default_value = DefString string | DefInt int | DefOther

record Schema =
  sType :: ValueType
  sOptional :: bool
  sRequired :: bool
  sComputed :: bool
  sForceNew :: bool
  sSensitive :: bool
  sDefault :: "default_value option"
  sDescription :: string

record 'm tfResource =
  tfSchema :: "nat go_map"
  tfCreate :: "'m crud"
  tfRead :: "'m crud"
  tfUpdate :: "'m crud"
  tfDelete :: "'m crud"

record 'm tfProvider =
  ResourcesMap :: "'m tfResource go_map"
  heap :: "(nat, Schema) fmap"
  fresh :: nat

datatype panic =
    NilResource string
  | NilSchema string string
  | NoUpstreamResource string
  | NoUpstreamField string string

abbreviation dq :: string where "dq \<equiv> [CHR 0x22]"

fun each :: "('a \<Rightarrow> 'p \<Rightarrow> panic + 'p) \<Rightarrow> 'a list \<Rightarrow> 'p \<Rightarrow> panic + 'p" where
  "each f [] p = Inr p"
| "each f (x # xs) p = (case f x p of Inl e \<Rightarrow> Inl e | Inr p' \<Rightarrow> each f xs p')"

definition pointer :: "'m tfProvider \<Rightarrow> string \<Rightarrow> string \<Rightarrow> nat option" where
  "pointer p res field = Option.bind (fmlookup (ResourcesMap p) res) (\<lambda>r. fmlookup (tfSchema r) field)"

definition schemaAt :: "'m tfProvider \<Rightarrow> string \<Rightarrow> string \<Rightarrow> Schema option" where
  "schemaAt p res field = Option.bind (pointer p res field) (fmlookup (heap p))"

text \<open>Changing a schema through its pointer, and pointing a field at a new schema.\<close>

definition mutate :: "nat \<Rightarrow> (Schema \<Rightarrow> Schema) \<Rightarrow> 'm tfProvider \<Rightarrow> 'm tfProvider" where
  "mutate a f p = p\<lparr>heap := (case fmlookup (heap p) a of None \<Rightarrow> heap p | Some s \<Rightarrow> fmupd a (f s) (heap p))\<rparr>"

definition assign :: "string \<Rightarrow> 'm tfResource \<Rightarrow> string \<Rightarrow> Schema \<Rightarrow> 'm tfProvider \<Rightarrow> 'm tfProvider" where
  "assign res r field s p =
     p\<lparr>ResourcesMap := fmupd res (r\<lparr>tfSchema := fmupd field (fresh p) (tfSchema r)\<rparr>) (ResourcesMap p),
       heap := fmupd (fresh p) s (heap p), fresh := fresh p + 1\<rparr>"

text \<open>\<^verbatim>\<open>p.ResourcesMap[res].Schema[field]\<close> with a change in place; a missing entry is a nil dereference.\<close>

definition inPlace :: "string \<Rightarrow> string \<Rightarrow> (Schema \<Rightarrow> Schema) \<Rightarrow> 'm tfProvider \<Rightarrow> panic + 'm tfProvider" where
  "inPlace res field f p =
     (case fmlookup (ResourcesMap p) res of
        None \<Rightarrow> Inl (NilResource res)
      | Some r \<Rightarrow>
          (case fmlookup (tfSchema r) field of
             None \<Rightarrow> Inl (NilSchema res field)
           | Some a \<Rightarrow> Inr (mutate a f p)))"

section \<open>Tables\<close>

definition phantomDefaultFields :: "(string \<times> string list) list" where
  "phantomDefaultFields =
     [(''routeros_routing_bgp_connection'', [''add_path_out'']),
      (''routeros_routing_bgp_template'', [''add_path_out''])]"

definition routerReadOnlyFields :: "(string \<times> string list) list" where
  "routerReadOnlyFields =
     [(''routeros_interface_macvlan'', [''loop_protect_status'']), (''routeros_ip_address'', [''vrf''])]"

definition sensitiveFields :: "(string \<times> string list) list" where
  "sensitiveFields =
     [(''routeros_capsman_access_list'', [''private_passphrase'']),
      (''routeros_interface_lte_apn'', [''password'']),
      (''routeros_interface_wireguard_peer'', [''private_key'']),
      (''routeros_interface_wireless_access_list'', [''private_key'', ''private_pre_shared_key'']),
      (''routeros_interface_wireless_security_profiles'', [''mschapv2_password'']),
      (''routeros_ip_dhcp_server_config'', [''radius_password'']),
      (''routeros_user_manager_advanced'', [''paypal_password'', ''web_private_password'']),
      (''routeros_user_manager_user'', [''password'', ''otp_secret'']),
      (''routeros_wifi_access_list'', [''passphrase'']),
      (''routeros_wifi_security'', [''passphrase'', ''eap_password'']),
      (''routeros_wireguard_peer'', [''private_key''])]"

definition docPFS :: string where
  "docPFS = '' RouterOS accepts '' @ dq @ ''required'' @ dq @ '' (demand perfect forward secrecy), '' @ dq @ ''yes'' @ dq @ '' or '' @ dq @ ''no'' @ dq @ ''; it rejects true and false.''"

definition docNewDSCP :: string where
  "docNewDSCP = '' RouterOS accepts a DSCP number, or '' @ dq @ ''from-priority'' @ dq @ '' or '' @ dq @ ''from-priority-to-high-3-bits'' @ dq @ ''.''"

definition docVLANID :: string where
  "docVLANID = '' RouterOS accepts a VLAN id 1..4095, or '' @ dq @ ''none'' @ dq @ ''; 0 is out of range.''"

definition docClientMACLimit :: string where
  "docClientMACLimit = '' RouterOS accepts a number of clients, or '' @ dq @ ''unlimited'' @ dq @ '' (its default). Note that 0 is a limit of zero, not unlimited.''"

definition docClientOptionCode :: string where
  "docClientOptionCode = '' RouterOS accepts a DHCP option code 1..254, or '' @ dq @ ''client-id'' @ dq @ '', '' @ dq @ ''hostname'' @ dq @ '', '' @ dq @ ''vendor-class-id'' @ dq @ '' or '' @ dq @ ''vendor-specific'' @ dq @ ''; 0 is out of range.''"

definition docServerOptionCode :: string where
  "docServerOptionCode = '' RouterOS accepts a DHCP option code 1..254, or '' @ dq @ ''vendor-specific'' @ dq @ ''; 0 is out of range.''"

definition mistypedFields :: "(string \<times> (string \<times> ValueType \<times> string) list) list" where
  "mistypedFields =
     [(''routeros_interface_macvlan'', [(''loop_protect_status'', TypeBool, '' Read-only. RouterOS reports '' @ dq @ ''on'' @ dq @ '', '' @ dq @ ''off'' @ dq @ '' or '' @ dq @ ''disabled'' @ dq @ ''.'')]),
      (''routeros_interface_ovpn_client'', [(''use_peer_dns'', TypeBool, '' RouterOS accepts '' @ dq @ ''exclusively'' @ dq @ '' (use only the peer's servers), '' @ dq @ ''yes'' @ dq @ '' or '' @ dq @ ''no'' @ dq @ ''; it rejects true and false.'')]),
      (''routeros_interface_sstp_client'', [(''pfs'', TypeBool, docPFS)]),
      (''routeros_interface_sstp_server'', [(''pfs'', TypeBool, docPFS)]),
      (''routeros_ipv6_dhcp_server'', [(''use_radius'', TypeBool, '' RouterOS accepts '' @ dq @ ''accounting'' @ dq @ '' (RADIUS for accounting only), '' @ dq @ ''yes'' @ dq @ '' or '' @ dq @ ''no'' @ dq @ ''; it rejects true and false.'')]),
      (''routeros_ipv6_neighbor_discovery'', [(''advertise_dns'', TypeBool, '' RouterOS accepts '' @ dq @ ''self'' @ dq @ '' (advertise the router's own address), '' @ dq @ ''yes'' @ dq @ '' or '' @ dq @ ''no'' @ dq @ ''; it rejects true and false.'')]),
      (''routeros_system_certificate'', [(''digest_algorithm'', TypeBool, '' RouterOS accepts '' @ dq @ ''md5'' @ dq @ '', '' @ dq @ ''sha1'' @ dq @ '', '' @ dq @ ''sha256'' @ dq @ '', '' @ dq @ ''sha384'' @ dq @ '' or '' @ dq @ ''sha512'' @ dq @ ''; it rejects true, false, yes and no.'')]),
      (''routeros_dhcp_client_option'', [(''code'', TypeInt, docClientOptionCode)]),
      (''routeros_ip_dhcp_client_option'', [(''code'', TypeInt, docClientOptionCode)]),
      (''routeros_ip_dhcp_server_option'', [(''code'', TypeInt, docServerOptionCode)]),
      (''routeros_ip_dhcp_server_option_matcher'', [(''code'', TypeInt, docServerOptionCode)]),
      (''routeros_dhcp_server'', [(''client_mac_limit'', TypeInt, docClientMACLimit)]),
      (''routeros_ip_dhcp_server'', [(''client_mac_limit'', TypeInt, docClientMACLimit)]),
      (''routeros_firewall_mangle'', [(''new_dscp'', TypeInt, docNewDSCP)]),
      (''routeros_ip_firewall_mangle'', [(''new_dscp'', TypeInt, docNewDSCP)]),
      (''routeros_interface_bridge_filter'', [(''new_priority'', TypeInt, '' RouterOS accepts a priority number, or '' @ dq @ ''from-ingress'' @ dq @ ''.''), (''vlan_encap'', TypeInt, '' RouterOS accepts an EtherType 0x0000..0xFFFF, or a protocol name such as '' @ dq @ ''arp'' @ dq @ '', '' @ dq @ ''ip'' @ dq @ '', '' @ dq @ ''ipv6'' @ dq @ '' or '' @ dq @ ''vlan'' @ dq @ ''.'')]),
      (''routeros_interface_l2tp_client'', [(''l2tpv3_cookie_length'', TypeInt, '' RouterOS accepts '' @ dq @ ''0'' @ dq @ '', '' @ dq @ ''4-bytes'' @ dq @ '' or '' @ dq @ ''8-bytes'' @ dq @ ''.'')]),
      (''routeros_wifi_access_list'', [(''vlan_id'', TypeInt, docVLANID)]),
      (''routeros_wifi_datapath'', [(''vlan_id'', TypeInt, docVLANID)]),
      (''routeros_wifi_security_multi_passphrase'', [(''vlan_id'', TypeInt, docVLANID)])]"

definition injectedNameResources :: "string list" where
  "injectedNameResources =
     [''routeros_dhcp_client'', ''routeros_ip_dhcp_client'']"

definition nameIdentityResources :: "string list" where
  "nameIdentityResources =
     [''routeros_bridge'', ''routeros_dhcp_client'', ''routeros_dhcp_client_option'', ''routeros_dhcp_server'',
      ''routeros_file'', ''routeros_gre'', ''routeros_interface_6to4'', ''routeros_interface_bonding'',
      ''routeros_interface_bridge'', ''routeros_interface_eoip'', ''routeros_interface_gre'',
      ''routeros_interface_gre6'', ''routeros_interface_ipip'', ''routeros_interface_l2tp_client'',
      ''routeros_interface_list'', ''routeros_interface_lte_apn'', ''routeros_interface_macvlan'',
      ''routeros_interface_ovpn_client'', ''routeros_interface_ovpn_server'',
      ''routeros_interface_pppoe_client'', ''routeros_interface_pppoe_server'',
      ''routeros_interface_sstp_client'', ''routeros_interface_vlan'', ''routeros_interface_vrrp'',
      ''routeros_interface_vxlan'', ''routeros_interface_wireguard'', ''routeros_interface_wireguard_peer'',
      ''routeros_ip_dhcp_client'', ''routeros_ip_dhcp_client_option'', ''routeros_ip_dhcp_server'',
      ''routeros_ip_dhcp_server_option'', ''routeros_ip_dhcp_server_option_matcher'',
      ''routeros_ip_dhcp_server_option_set'', ''routeros_ip_dhcp_server_option_sets'',
      ''routeros_ip_dns_forwarders'', ''routeros_ip_firewall_layer7_protocol'', ''routeros_ip_hotspot'',
      ''routeros_ip_hotspot_profile'', ''routeros_ip_hotspot_user'', ''routeros_ip_hotspot_user_profile'',
      ''routeros_ip_ipsec_mode_config'', ''routeros_ip_ipsec_peer'', ''routeros_ip_ipsec_policy_group'',
      ''routeros_ip_ipsec_profile'', ''routeros_ip_ipsec_proposal'', ''routeros_ip_pool'', ''routeros_ip_vrf'',
      ''routeros_ipip'', ''routeros_ipv6_dhcp_client_option'', ''routeros_ipv6_dhcp_server'',
      ''routeros_ipv6_dhcp_server_option'', ''routeros_ipv6_dhcp_server_option_sets'', ''routeros_ipv6_pool'',
      ''routeros_ppp_profile'', ''routeros_ppp_secret'', ''routeros_queue_simple'', ''routeros_queue_tree'',
      ''routeros_queue_type'', ''routeros_scheduler'', ''routeros_snmp_community'',
      ''routeros_system_certificate'', ''routeros_system_scheduler'', ''routeros_system_script'',
      ''routeros_system_user'', ''routeros_system_user_group'', ''routeros_vlan'', ''routeros_vrrp'',
      ''routeros_wifi_aaa'', ''routeros_wifi_channel'', ''routeros_wifi_configuration'',
      ''routeros_wifi_datapath'', ''routeros_wifi_interworking'', ''routeros_wifi_security'',
      ''routeros_wifi_steering'', ''routeros_wireguard'', ''routeros_wireguard_peer'']"

definition injectedCommentResources :: "string list" where
  "injectedCommentResources =
     [''routeros_routing_bgp_vpn'']"

definition commentIdentityResources :: "string list" where
  "commentIdentityResources =
     [''routeros_bridge_port'', ''routeros_bridge_vlan'', ''routeros_dhcp_server_lease'',
      ''routeros_dns_record'', ''routeros_firewall_filter'', ''routeros_firewall_mangle'',
      ''routeros_firewall_nat'', ''routeros_interface_bridge_filter'', ''routeros_interface_bridge_port'',
      ''routeros_interface_bridge_vlan'', ''routeros_interface_list_member'', ''routeros_ip_address'',
      ''routeros_ip_dhcp_server_lease'', ''routeros_ip_dhcp_server_network'', ''routeros_ip_dns_record'',
      ''routeros_ip_firewall_filter'', ''routeros_ip_firewall_mangle'', ''routeros_ip_firewall_nat'',
      ''routeros_ip_firewall_raw'', ''routeros_ipv6_address'', ''routeros_ipv6_dhcp_client'',
      ''routeros_ipv6_firewall_filter'', ''routeros_ipv6_firewall_mangle'', ''routeros_ipv6_firewall_nat'',
      ''routeros_routing_bgp_connection'', ''routeros_routing_bgp_instance'', ''routeros_routing_bgp_template'',
      ''routeros_routing_bgp_vpn'', ''routeros_routing_filter_rule'', ''routeros_routing_ospf_area'']"

definition interfaceIdentityResources :: "string list" where
  "interfaceIdentityResources =
     [''routeros_ipv6_neighbor_discovery'']"

definition factoryIdentityResources :: "string list" where
  "factoryIdentityResources =
     [''routeros_interface_ethernet'']"

definition certificateRemovalResources :: "string list" where
  "certificateRemovalResources =
     [''routeros_system_certificate'']"

definition policyExpansionResources :: "string list" where
  "policyExpansionResources =
     [''routeros_system_user_group'']"

section \<open>Changes of schemas\<close>

definition withoutPhantomDefaults :: "(string \<times> string list) list \<Rightarrow> 'm tfProvider \<Rightarrow> panic + 'm tfProvider" where
  "withoutPhantomDefaults table =
     each (\<lambda>(name, fields). each (\<lambda>field. inPlace name field (\<lambda>s. s\<lparr>sDefault := None\<rparr>)) fields) table"

text \<open>The passes that panic with a message of their own look the resource up once per entry.\<close>

definition checkedEntry ::
  "('a \<Rightarrow> string) \<Rightarrow> (string \<Rightarrow> 'a \<Rightarrow> 'm tfProvider \<Rightarrow> 'm tfProvider) \<Rightarrow> string \<times> 'a \<Rightarrow> 'm tfProvider \<Rightarrow> panic + 'm tfProvider" where
  "checkedEntry fieldOf change x p =
     (case schemaAt p (fst x) (fieldOf (snd x)) of
        None \<Rightarrow> Inl (NoUpstreamField (fst x) (fieldOf (snd x)))
      | Some _ \<Rightarrow> Inr (change (fst x) (snd x) p))"

definition checkedPass ::
  "('a \<Rightarrow> string) \<Rightarrow> (string \<Rightarrow> 'a \<Rightarrow> 'm tfProvider \<Rightarrow> 'm tfProvider) \<Rightarrow> (string \<times> 'a list) list
   \<Rightarrow> 'm tfProvider \<Rightarrow> panic + 'm tfProvider" where
  "checkedPass fieldOf change table =
     each (\<lambda>(res, fields) p.
        case fmlookup (ResourcesMap p) res of
          None \<Rightarrow> Inl (NoUpstreamResource res)
        | Some _ \<Rightarrow> each (\<lambda>f. checkedEntry fieldOf change (res, f)) fields p) table"

definition throughPointer :: "string \<Rightarrow> string \<Rightarrow> (Schema \<Rightarrow> Schema) \<Rightarrow> 'm tfProvider \<Rightarrow> 'm tfProvider" where
  "throughPointer res field f p = (case pointer p res field of None \<Rightarrow> p | Some a \<Rightarrow> mutate a f p)"

definition retype :: "string \<Rightarrow> Schema \<Rightarrow> Schema" where
  "retype doc s = s\<lparr>sType := TypeString, sDefault := None, sDescription := sDescription s @ doc\<rparr>"

definition withoutMistypedEnums ::
  "(string \<times> (string \<times> ValueType \<times> string) list) list \<Rightarrow> 'm tfProvider \<Rightarrow> panic + 'm tfProvider" where
  "withoutMistypedEnums table =
     checkedPass fst (\<lambda>res (field, upstream, doc). throughPointer res field (retype doc)) table"

definition demote :: "Schema \<Rightarrow> Schema" where
  "demote s = s\<lparr>sComputed := True, sOptional := False, sRequired := False, sDefault := None, sForceNew := False\<rparr>"

text \<open>\<^verbatim>\<open>demoted := *s; ...; r.Schema[field] = &demoted\<close>: a copy, so that the shared schema stays.\<close>

definition demoteCopy :: "string \<Rightarrow> string \<Rightarrow> 'm tfProvider \<Rightarrow> 'm tfProvider" where
  "demoteCopy res field p =
     (case (fmlookup (ResourcesMap p) res, schemaAt p res field) of
        (Some r, Some s) \<Rightarrow> assign res r field (demote s) p
      | _ \<Rightarrow> p)"

definition withRouterReadOnly :: "(string \<times> string list) list \<Rightarrow> 'm tfProvider \<Rightarrow> panic + 'm tfProvider" where
  "withRouterReadOnly table = checkedPass id demoteCopy table"

definition withSensitiveFields :: "(string \<times> string list) list \<Rightarrow> 'm tfProvider \<Rightarrow> panic + 'm tfProvider" where
  "withSensitiveFields table =
     checkedPass id (\<lambda>res field. throughPointer res field (\<lambda>s. s\<lparr>sSensitive := True\<rparr>)) table"

definition injectField :: "string \<Rightarrow> Schema \<Rightarrow> string \<Rightarrow> 'm tfProvider \<Rightarrow> panic + 'm tfProvider" where
  "injectField field s name p =
     (case fmlookup (ResourcesMap p) name of
        None \<Rightarrow> Inl (NilResource name)
      | Some r \<Rightarrow> Inr (assign name r field s p))"

definition routerName :: Schema where
  "routerName = \<lparr>sType = TypeString, sOptional = False, sRequired = True, sComputed = False, sForceNew = False,
     sSensitive = False, sDefault = None,
     sDescription = ''Name of the item on the router. RouterOS enforces uniqueness; the provider uses it as the resource identity.''\<rparr>"

definition injectRouterName :: "'m tfProvider \<Rightarrow> panic + 'm tfProvider" where
  "injectRouterName = each (injectField ''name'' routerName) injectedNameResources"

definition routerComment :: Schema where
  "routerComment = \<lparr>sType = TypeString, sOptional = True, sRequired = False, sComputed = False, sForceNew = False,
     sSensitive = False, sDefault = None,
     sDescription = ''Comment on the item. The provider uses it as the resource identity: required at create and enforced unique within the menu.''\<rparr>"

definition injectRouterComment :: "'m tfProvider \<Rightarrow> panic + 'm tfProvider" where
  "injectRouterComment = each (injectField commentField routerComment) injectedCommentResources"

text \<open>Two constants of the upstream package, which external_name.go spells out among the omitted fields.\<close>

definition MetaId :: string where
  "MetaId = ''___id___''"

definition MetaResourcePath :: string where
  "MetaResourcePath = ''___path___''"

text \<open>\<^verbatim>\<open>routeros.Name\<close>, the upstream constant for identification by name, is a parameter.\<close>

definition withNameIdentity :: "int \<Rightarrow> 'm tfProvider \<Rightarrow> panic + 'm tfProvider" where
  "withNameIdentity idName =
     each (\<lambda>name. inPlace name MetaId (\<lambda>s. s\<lparr>sDefault := Some (DefInt idName)\<rparr>)) nameIdentityResources"

definition moveItemsResource :: string where
  "moveItemsResource = ''routeros_move_items''"

definition sequenceField :: string where
  "sequenceField = ''sequence''"

definition sequenceDoc :: string where
  "sequenceDoc =
     ''Rows of the menu in the desired order, each identified by its comment''
     @ '' (an entry starting with `*` is taken as a literal RouterOS id instead). The last entry is the anchor: it is never moved, and all preceding''
     @ '' entries are placed before it in the listed order. Every comment must resolve to exactly one existing row before the sequence can be applied;''
     @ '' rows not listed are left where they are.''"

definition documentCommentSequence :: "'m tfProvider \<Rightarrow> panic + 'm tfProvider" where
  "documentCommentSequence = inPlace moveItemsResource sequenceField (\<lambda>s. s\<lparr>sDescription := sequenceDoc\<rparr>)"

definition renameFieldForGeneration :: "string \<Rightarrow> string \<Rightarrow> string \<Rightarrow> 'm tfProvider \<Rightarrow> panic + 'm tfProvider" where
  "renameFieldForGeneration res terraformName generatedName p =
     (case fmlookup (ResourcesMap p) res of
        None \<Rightarrow> Inl (NilResource res)
      | Some r \<Rightarrow>
          (case fmlookup (tfSchema r) terraformName of
             None \<Rightarrow> Inl (NilSchema res terraformName)
           | Some a \<Rightarrow>
               Inr (mutate a (\<lambda>s. s\<lparr>sDescription := sDescription s @ [CHR 0x0A] @ ''+upjet:crd:field:TFTag='' @ terraformName @ '',omitempty''\<rparr>)
                 (p\<lparr>ResourcesMap := fmupd res (r\<lparr>tfSchema := fmupd generatedName a (fmdrop terraformName (tfSchema r))\<rparr>) (ResourcesMap p)\<rparr>))))"

section \<open>Wrapped callbacks\<close>

text \<open>\<^verbatim>\<open>path, _ := r.Schema[routeros.MetaResourcePath].Default.(string)\<close>\<close>

definition resourcePath :: "'m tfProvider \<Rightarrow> string \<Rightarrow> panic + string" where
  "resourcePath p name =
     (case schemaAt p name MetaResourcePath of
        None \<Rightarrow> Inl (NilSchema name MetaResourcePath)
      | Some s \<Rightarrow> Inr (case sDefault s of Some (DefString path) \<Rightarrow> path | _ \<Rightarrow> []))"

definition rewire :: "(string \<Rightarrow> 'm tfResource \<Rightarrow> 'm tfResource) \<Rightarrow> string \<Rightarrow> 'm tfProvider \<Rightarrow> panic + 'm tfProvider" where
  "rewire w name p =
     (case fmlookup (ResourcesMap p) name of
        None \<Rightarrow> Inl (NilResource name)
      | Some r \<Rightarrow>
          (case resourcePath p name of
             Inl e \<Rightarrow> Inl e
           | Inr path \<Rightarrow> Inr (p\<lparr>ResourcesMap := fmupd name (w path r) (ResourcesMap p)\<rparr>)))"

definition commentIdentity :: "'m upstream \<Rightarrow> string \<Rightarrow> 'm tfResource \<Rightarrow> 'm tfResource" where
  "commentIdentity U path r =
     r\<lparr>tfCreate := commentIdentityCreate U path (tfCreate r), tfRead := commentIdentityRead U path (tfRead r),
       tfUpdate := commentIdentityUpdate U path (tfUpdate r), tfDelete := commentIdentityDelete U path (tfDelete r)\<rparr>"

definition withCommentIdentity :: "'m upstream \<Rightarrow> 'm tfProvider \<Rightarrow> panic + 'm tfProvider" where
  "withCommentIdentity U = each (rewire (commentIdentity U)) commentIdentityResources"

definition interfaceIdentity :: "'m upstream \<Rightarrow> string \<Rightarrow> 'm tfResource \<Rightarrow> 'm tfResource" where
  "interfaceIdentity U path r =
     r\<lparr>tfCreate := interfaceIdentityCreate U path (tfCreate r) (tfUpdate r), tfRead := interfaceIdentityRead U path (tfRead r),
       tfUpdate := interfaceIdentityUpdate U path (tfUpdate r), tfDelete := interfaceIdentityDelete U path (tfDelete r)\<rparr>"

definition withInterfaceIdentity :: "'m upstream \<Rightarrow> 'm tfProvider \<Rightarrow> panic + 'm tfProvider" where
  "withInterfaceIdentity U = each (rewire (interfaceIdentity U)) interfaceIdentityResources"

definition factoryIdentity :: "'m upstream \<Rightarrow> string \<Rightarrow> 'm tfResource \<Rightarrow> 'm tfResource" where
  "factoryIdentity U path r =
     r\<lparr>tfCreate := factoryIdentityCreate (tfCreate r), tfRead := factoryIdentityResolve U path (tfRead r) True,
       tfUpdate := factoryIdentityResolve U path (tfUpdate r) False\<rparr>"

definition withFactoryIdentity :: "'m upstream \<Rightarrow> 'm tfProvider \<Rightarrow> panic + 'm tfProvider" where
  "withFactoryIdentity U = each (rewire (factoryIdentity U)) factoryIdentityResources"

definition withCertificateRemoval :: "'m upstream \<Rightarrow> 'm tfProvider \<Rightarrow> panic + 'm tfProvider" where
  "withCertificateRemoval U =
     each (rewire (\<lambda>path r. r\<lparr>tfDelete := certificateRemoval U path (tfDelete r)\<rparr>)) certificateRemovalResources"

definition withResource :: "('m tfResource \<Rightarrow> 'm tfResource) \<Rightarrow> string \<Rightarrow> 'm tfProvider \<Rightarrow> panic + 'm tfProvider" where
  "withResource w name p =
     (case fmlookup (ResourcesMap p) name of
        None \<Rightarrow> Inl (NilResource name)
      | Some r \<Rightarrow> Inr (p\<lparr>ResourcesMap := fmupd name (w r) (ResourcesMap p)\<rparr>))"

definition withoutPolicyExpansion :: "'m tfProvider \<Rightarrow> panic + 'm tfProvider" where
  "withoutPolicyExpansion = each (withResource (\<lambda>r. r\<lparr>tfRead := collapsePolicyRead (tfRead r)\<rparr>)) policyExpansionResources"

definition withCommentSequence :: "'m upstream \<Rightarrow> 'm tfProvider \<Rightarrow> panic + 'm tfProvider" where
  "withCommentSequence U p =
     (case withResource (\<lambda>r. r\<lparr>tfCreate := commentSequenceWrite U (tfCreate r), tfUpdate := commentSequenceWrite U (tfUpdate r),
          tfRead := commentSequenceRead U (tfRead r)\<rparr>) moveItemsResource p of
        Inl e \<Rightarrow> Inl e
      | Inr p' \<Rightarrow> documentCommentSequence p')"

section \<open>The two providers\<close>

text \<open>The enumerations of the four tables that are maps.\<close>

record visits =
  vPhantom :: "(string \<times> string list) list"
  vMistyped :: "(string \<times> (string \<times> ValueType \<times> string) list) list"
  vReadOnly :: "(string \<times> string list) list"
  vSensitive :: "(string \<times> string list) list"

definition visits_ok :: "visits \<Rightarrow> bool" where
  "visits_ok v \<longleftrightarrow> mset (vPhantom v) = mset phantomDefaultFields \<and> mset (vMistyped v) = mset mistypedFields
     \<and> mset (vReadOnly v) = mset routerReadOnlyFields \<and> mset (vSensitive v) = mset sensitiveFields"

fun pipeline :: "('p \<Rightarrow> panic + 'p) list \<Rightarrow> 'p \<Rightarrow> panic + 'p" where
  "pipeline [] p = Inr p"
| "pipeline (f # fs) p = (case f p of Inl e \<Rightarrow> Inl e | Inr p' \<Rightarrow> pipeline fs p')"

definition providerForRuntime :: "'m upstream \<Rightarrow> int \<Rightarrow> visits \<Rightarrow> 'm tfProvider \<Rightarrow> panic + 'm tfProvider" where
  "providerForRuntime U idName v = pipeline
     [withoutPhantomDefaults (vPhantom v), withoutMistypedEnums (vMistyped v), withRouterReadOnly (vReadOnly v),
      withSensitiveFields (vSensitive v), withoutPolicyExpansion, injectRouterName, injectRouterComment,
      withNameIdentity idName, withCommentIdentity U, withFactoryIdentity U, withInterfaceIdentity U,
      withCertificateRemoval U, withCommentSequence U]"

definition providerForGeneration :: "visits \<Rightarrow> 'm tfProvider \<Rightarrow> panic + 'm tfProvider" where
  "providerForGeneration v = pipeline
     [withoutMistypedEnums (vMistyped v), withRouterReadOnly (vReadOnly v), withSensitiveFields (vSensitive v),
      injectRouterName, injectRouterComment, documentCommentSequence,
      renameFieldForGeneration ''routeros_ipv6_nd_prefix'' ''6to4_interface'' ''six_to_four_interface'',
      renameFieldForGeneration ''routeros_wifi_interworking'' ''3gpp_info'' ''three_gpp_info'',
      renameFieldForGeneration ''routeros_wifi_interworking'' ''3gpp_raw'' ''three_gpp_raw'']"

section \<open>Options of a generated resource\<close>

definition kindOverrides :: "(string \<times> string) list" where
  "kindOverrides =
     [(''routeros_interface_6to4'', ''SixToFour''), (''routeros_interface_list'', ''InterfaceList''),
      (''routeros_interface_list_member'', ''InterfaceListMember''), (''routeros_ip_service'', ''IPService''),
      (''routeros_ppp_secret'', ''PPPSecret''), (''routeros_capsman_configuration'', ''CAPsMANConfiguration''),
      (''routeros_wifi_configuration'', ''WifiConfiguration''),
      (''routeros_capsman_interface'', ''CAPsMANInterface''), (''routeros_queue_type'', ''QueueType''),
      (''routeros_zerotier_interface'', ''ZeroTierInterface''),
      (''routeros_zerotier_controller'', ''ZeroTierController'')]"

definition omittedRouterOSFields :: "string list" where
  "omittedRouterOSFields =
     [''___id___'', ''___path___'', ''___ts___'', ''___skip___'', ''___unset___'', ''___drop_val___'']"

record ujResource =
  ujName :: string
  ujKind :: string
  ujPath :: string
  ujIgnoredFields :: "string list"
  ujOmittedFields :: "string list"

definition ExternalNameConfiguration :: "ujResource \<Rightarrow> ujResource" where
  "ExternalNameConfiguration r = r\<lparr>ujOmittedFields := omittedRouterOSFields\<rparr>"

definition resourceOptions :: "ujResource \<Rightarrow> ujResource" where
  "resourceOptions r0 =
     (let r1 = (if ujName r0 = ''routeros_ip_dhcp_server_option_set'' then r0\<lparr>ujPath := ''dhcpserveroptionsetaliases''\<rparr> else r0);
          r2 = (if ujName r1 = ''routeros_system_clock'' then r1\<lparr>ujIgnoredFields := [''date'', ''time'']\<rparr> else r1)
      in case map_of kindOverrides (ujName r2) of Some kind \<Rightarrow> r2\<lparr>ujKind := kind\<rparr> | None \<Rightarrow> r2)"

definition defaultResourceOptions :: "ujResource \<Rightarrow> ujResource" where
  "defaultResourceOptions r = resourceOptions (ExternalNameConfiguration r)"


section \<open>What a pass does to the fields\<close>

text \<open>
  A field is a resource and a name. What generation and runtime must agree on is the core of its
  schema: type, mode and sensitivity; a default and a description are not part of it. The core view of
  a provider, together with which fields share a schema, determines the core view after every pass.
\<close>

type_synonym field = "string \<times> string"

record core =
  cType :: ValueType
  cOptional :: bool
  cRequired :: bool
  cComputed :: bool
  cForceNew :: bool
  cSensitive :: bool

definition coreOf :: "Schema \<Rightarrow> core" where
  "coreOf s = \<lparr>cType = sType s, cOptional = sOptional s, cRequired = sRequired s, cComputed = sComputed s,
     cForceNew = sForceNew s, cSensitive = sSensitive s\<rparr>"

definition ptr :: "'m tfProvider \<Rightarrow> field \<Rightarrow> nat option" where
  "ptr p x = pointer p (fst x) (snd x)"

definition cview :: "'m tfProvider \<Rightarrow> field \<Rightarrow> core option" where
  "cview p x = map_option coreOf (schemaAt p (fst x) (snd x))"

definition shares :: "'m tfProvider \<Rightarrow> field \<Rightarrow> field \<Rightarrow> bool" where
  "shares p x y \<longleftrightarrow> ptr p x \<noteq> None \<and> ptr p x = ptr p y"

text \<open>Pointers point to allocated schemas.\<close>

definition wf_heap :: "'m tfProvider \<Rightarrow> bool" where
  "wf_heap p \<longleftrightarrow> (\<forall>x a. ptr p x = Some a \<longrightarrow> fmlookup (heap p) a \<noteq> None)
     \<and> (\<forall>a. fmlookup (heap p) a \<noteq> None \<longrightarrow> a < fresh p)"

text \<open>The passes as they act on views: a change through pointers, a change of copies, a new field.\<close>

definition marks :: "field set \<Rightarrow> (core \<Rightarrow> core) \<Rightarrow> (field \<Rightarrow> field \<Rightarrow> bool) \<Rightarrow> (field \<Rightarrow> core option) \<Rightarrow> field \<Rightarrow> core option" where
  "marks E g S C y = (if \<exists>x \<in> E. S x y then map_option g (C y) else C y)"

definition copies :: "field set \<Rightarrow> (core \<Rightarrow> core) \<Rightarrow> (field \<Rightarrow> core option) \<Rightarrow> field \<Rightarrow> core option" where
  "copies E g C y = (if y \<in> E then map_option g (C y) else C y)"

definition splits :: "field set \<Rightarrow> (field \<Rightarrow> field \<Rightarrow> bool) \<Rightarrow> field \<Rightarrow> field \<Rightarrow> bool" where
  "splits E S x y \<longleftrightarrow> (if x \<in> E \<or> y \<in> E then x = y else S x y)"

lemma cview_None: "wf_heap p \<Longrightarrow> cview p x = None \<longleftrightarrow> ptr p x = None"
  by (auto simp: cview_def schemaAt_def wf_heap_def ptr_def split: bind_splits)

lemma ptr_mutate [simp]: "ptr (mutate a f p) = ptr p"
  by (rule ext) (simp add: mutate_def pointer_def ptr_def)

lemma wf_mutate: "wf_heap p \<Longrightarrow> wf_heap (mutate a f p)"
  unfolding wf_heap_def ptr_mutate by (auto simp: mutate_def split: option.splits)

lemma cview_mutate:
  assumes "\<And>s. coreOf (f s) = g (coreOf s)"
  shows "cview (mutate a f p) y = (if ptr p y = Some a then map_option g (cview p y) else cview p y)"
  using assms
  by (auto simp: cview_def schemaAt_def mutate_def pointer_def ptr_def comp_def split: option.splits bind_splits)

lemma inPlace_view:
  assumes "inPlace res n f p = Inr p'" and "wf_heap p" and "\<And>s. coreOf (f s) = g (coreOf s)"
  shows "wf_heap p' \<and> ptr p' = ptr p \<and> ptr p (res, n) \<noteq> None \<and> cview p' = marks {(res, n)} g (shares p) (cview p)"
proof -
  obtain a where a: "ptr p (res, n) = Some a" "p' = mutate a f p"
    using assms(1) by (auto simp: inPlace_def pointer_def ptr_def split: option.splits)
  then show ?thesis
    using wf_mutate [OF assms(2)] cview_mutate [of f g a p] assms(3) by (auto simp: marks_def shares_def)
qed

lemma throughPointer_view:
  assumes "ptr p (res, n) \<noteq> None" and "wf_heap p" and "\<And>s. coreOf (f s) = g (coreOf s)"
  shows "wf_heap (throughPointer res n f p) \<and> ptr (throughPointer res n f p) = ptr p
    \<and> cview (throughPointer res n f p) = marks {(res, n)} g (shares p) (cview p)"
proof -
  obtain a where a: "ptr p (res, n) = Some a" using assms(1) by blast
  then show ?thesis
    using wf_mutate [OF assms(2), of a f] cview_mutate [of f g a p] assms(3)
    by (auto simp: throughPointer_def marks_def shares_def ptr_def)
qed

lemma assign_view:
  assumes "fmlookup (ResourcesMap p) res = Some r" and "wf_heap p"
  shows "wf_heap (assign res r n s p)
    \<and> ptr (assign res r n s p) = (ptr p)((res, n) := Some (fresh p))
    \<and> cview (assign res r n s p) = (cview p)((res, n) := Some (coreOf s))"
proof -
  have p': "ptr (assign res r n s p) x = (if x = (res, n) then Some (fresh p) else ptr p x)" for x
    using assms(1) by (cases x) (auto simp: assign_def pointer_def ptr_def)
  have new: "fmlookup (heap p) (fresh p) = None" using assms(2) by (auto simp: wf_heap_def)
  have old: "ptr p x \<noteq> Some (fresh p)" for x using assms(2) new unfolding wf_heap_def by metis
  have "wf_heap (assign res r n s p)"
    unfolding wf_heap_def p' using assms(2) by (auto simp: assign_def wf_heap_def split: if_splits)
  moreover have "cview (assign res r n s p) x = (if x = (res, n) then Some (coreOf s) else cview p x)" for x
    using p' [of x] old [of x] by (auto simp: cview_def schemaAt_def assign_def ptr_def split: bind_splits)
  ultimately show ?thesis using p' by auto
qed

lemma each_append: "each f (xs @ ys) p = (case each f xs p of Inl e \<Rightarrow> Inl e | Inr p' \<Rightarrow> each f ys p')"
  by (induction xs arbitrary: p) (auto split: sum.splits)

lemma each_map: "each f (map h xs) p = each (\<lambda>x. f (h x)) xs p"
  by (induction xs arbitrary: p) (auto split: sum.splits)

lemma each_mono:
  assumes "each f xs p = Inr p'" and "\<And>x q q'. f x q = Inr q' \<Longrightarrow> h x q = Inr q'"
  shows "each h xs p = Inr p'"
  using assms(1)
proof (induction xs arbitrary: p)
  case (Cons x xs)
  then show ?case using assms(2) by (cases "f x p") auto
qed simp

text \<open>The entries of a table.\<close>

definition entries :: "(string \<times> 'a list) list \<Rightarrow> (string \<times> 'a) list" where
  "entries table = concat (map (\<lambda>(res, fs). map (Pair res) fs) table)"

lemma each_entries: "each (\<lambda>(res, fs). each (f res) fs) table p = each (\<lambda>(res, x). f res x) (entries table) p"
  by (induction table arbitrary: p) (auto simp: entries_def each_append each_map split: sum.splits)

lemma set_entries: "mset t = mset t' \<Longrightarrow> set (entries t) = set (entries t')"
  by (auto simp: entries_def dest: mset_eq_setD)

lemma checkedPass_entries:
  assumes "checkedPass fieldOf change table p = Inr p'"
  shows "each (checkedEntry fieldOf change) (entries table) p = Inr p'"
proof -
  have "each (\<lambda>(res, fs). each (\<lambda>f. checkedEntry fieldOf change (res, f)) fs) table p = Inr p'"
    by (rule each_mono [OF assms [unfolded checkedPass_def]]) (auto split: option.splits prod.splits)
  then show ?thesis using each_entries [of "\<lambda>res f. checkedEntry fieldOf change (res, f)" table p] by simp
qed

lemma marks_Un: "(\<And>c. g (g c) = g c) \<Longrightarrow> marks E' g S (marks E g S C) = marks (E \<union> E') g S C"
  by (rule ext) (auto simp: marks_def option.map_comp comp_def)

lemma marks_id [simp]: "marks E id S C = C" "marks {} g S C = C"
  by (auto simp: marks_def option.map_id0)

lemma each_marks:
  assumes "each st xs p = Inr p'" and "wf_heap p" and "\<And>c. g (g c) = g c"
    and "\<And>x p q. st x p = Inr q \<Longrightarrow> wf_heap p \<Longrightarrow>
      wf_heap q \<and> ptr q = ptr p \<and> ptr p (key x) \<noteq> None \<and> cview q = marks {key x} g (shares p) (cview p)"
  shows "wf_heap p' \<and> ptr p' = ptr p \<and> (\<forall>x \<in> set xs. ptr p (key x) \<noteq> None)
    \<and> cview p' = marks (key ` set xs) g (shares p) (cview p)"
  using assms(1,2)
proof (induction xs arbitrary: p)
  case (Cons x xs)
  then obtain q where q: "st x p = Inr q" "each st xs q = Inr p'" by (auto split: sum.splits)
  note one = assms(4) [OF q(1) Cons.prems(2)]
  have "shares q = shares p" using one by (intro ext) (simp add: shares_def)
  then show ?case using Cons.IH [OF q(2)] one by (simp add: marks_Un [OF assms(3)])
qed simp

lemma copies_Un: "(\<And>c. g (g c) = g c) \<Longrightarrow> copies E' g (copies E g C) = copies (E \<union> E') g C"
  by (rule ext) (auto simp: copies_def option.map_comp comp_def)

lemma splits_Un: "splits E' (splits E S) = splits (E \<union> E') S"
  by (intro ext) (auto simp: splits_def)

lemma shares_upd:
  assumes "ptr q = (ptr p)(k := Some a)" and "\<And>y. ptr p y \<noteq> Some a"
  shows "shares q = splits {k} (shares p)"
  using assms(2) assms(2) [symmetric] by (intro ext) (auto simp: shares_def splits_def assms(1))

lemma each_copies:
  assumes "each st xs p = Inr p'" and "wf_heap p" and "\<And>c. g (g c) = g c"
    and "\<And>x p q. st x p = Inr q \<Longrightarrow> wf_heap p \<Longrightarrow>
      wf_heap q \<and> cview p (key x) \<noteq> None \<and> shares q = splits {key x} (shares p) \<and> cview q = copies {key x} g (cview p)"
  shows "wf_heap p' \<and> (\<forall>x \<in> set xs. cview p (key x) \<noteq> None) \<and> shares p' = splits (key ` set xs) (shares p)
    \<and> cview p' = copies (key ` set xs) g (cview p)"
  using assms(1,2)
proof (induction xs arbitrary: p)
  case Nil
  then show ?case by (auto simp: splits_def copies_def)
next
  case (Cons x xs)
  then obtain q where q: "st x p = Inr q" "each st xs q = Inr p'" by (auto split: sum.splits)
  note one = assms(4) [OF q(1) Cons.prems(2)]
  have "cview q y \<noteq> None \<longleftrightarrow> cview p y \<noteq> None" for y using one by (simp add: copies_def)
  then show ?case using Cons.IH [OF q(2)] one by (simp add: copies_Un [OF assms(3)] splits_Un)
qed

definition puts :: "field set \<Rightarrow> core \<Rightarrow> (field \<Rightarrow> core option) \<Rightarrow> field \<Rightarrow> core option" where
  "puts E c C y = (if y \<in> E then Some c else C y)"

lemma each_puts:
  assumes "each st xs p = Inr p'" and "wf_heap p"
    and "\<And>x p q. st x p = Inr q \<Longrightarrow> wf_heap p \<Longrightarrow>
      wf_heap q \<and> shares q = splits {key x} (shares p) \<and> cview q = puts {key x} c (cview p)"
  shows "wf_heap p' \<and> shares p' = splits (key ` set xs) (shares p) \<and> cview p' = puts (key ` set xs) c (cview p)"
  using assms(1,2)
proof (induction xs arbitrary: p)
  case Nil
  then show ?case by (auto simp: splits_def puts_def)
next
  case (Cons x xs)
  then obtain q where q: "st x p = Inr q" "each st xs q = Inr p'" by (auto split: sum.splits)
  note one = assms(3) [OF q(1) Cons.prems(2)]
  have "puts E c (puts E' c C) = puts (E' \<union> E) c C" for E E' C by (rule ext) (auto simp: puts_def)
  then show ?case using Cons.IH [OF q(2)] one by (simp add: splits_Un)
qed

lemma each_same:
  assumes "each st xs p = Inr p'" and "\<And>x p q. st x p = Inr q \<Longrightarrow> wf_heap p \<Longrightarrow> wf_heap q \<and> shares q = shares p \<and> cview q = cview p"
    and "wf_heap p"
  shows "wf_heap p' \<and> shares p' = shares p \<and> cview p' = cview p"
  using assms(1,3)
proof (induction xs arbitrary: p)
  case (Cons x xs)
  then obtain q where q: "st x p = Inr q" "each st xs q = Inr p'" by (auto split: sum.splits)
  show ?case using Cons.IH [OF q(2)] assms(2) [OF q(1) Cons.prems(2)] by simp
qed simp


section \<open>The passes on views\<close>

definition retypeC :: "core \<Rightarrow> core" where
  "retypeC c = c\<lparr>cType := TypeString\<rparr>"

definition demoteC :: "core \<Rightarrow> core" where
  "demoteC c = c\<lparr>cComputed := True, cOptional := False, cRequired := False, cForceNew := False\<rparr>"

definition sensitiveC :: "core \<Rightarrow> core" where
  "sensitiveC c = c\<lparr>cSensitive := True\<rparr>"

lemma core_idem [simp]: "retypeC (retypeC c) = retypeC c" "demoteC (demoteC c) = demoteC c" "sensitiveC (sensitiveC c) = sensitiveC c"
  by (simp_all add: retypeC_def demoteC_def sensitiveC_def)

abbreviation mistypedKey :: "string \<times> string \<times> ValueType \<times> string \<Rightarrow> field" where
  "mistypedKey x \<equiv> (fst x, fst (snd x))"

lemma schemaAt_ptr: "schemaAt p (fst x) (snd x) \<noteq> None \<Longrightarrow> ptr p x \<noteq> None"
  by (auto simp: schemaAt_def ptr_def split: bind_splits)

lemma mistyped_view:
  assumes "withoutMistypedEnums t p = Inr p'" and "wf_heap p"
  shows "wf_heap p' \<and> ptr p' = ptr p \<and> (\<forall>x \<in> set (entries t). ptr p (mistypedKey x) \<noteq> None)
    \<and> cview p' = marks (mistypedKey ` set (entries t)) retypeC (shares p) (cview p)"
proof (rule each_marks [OF checkedPass_entries [OF assms(1) [unfolded withoutMistypedEnums_def]] assms(2)])
  fix x :: "string \<times> string \<times> ValueType \<times> string" and p q :: "'a tfProvider"
  assume e: "checkedEntry fst (\<lambda>res (field, upstream, doc). throughPointer res field (retype doc)) x p = Inr q" and "wf_heap p"
  obtain res n u doc where x: "x = (res, n, u, doc)" by (cases x) auto
  have "ptr p (res, n) \<noteq> None" "q = throughPointer res n (retype doc) p"
    using e x schemaAt_ptr [of p "(res, n)"] by (auto simp: checkedEntry_def split: option.splits)
  then show "wf_heap q \<and> ptr q = ptr p \<and> ptr p (mistypedKey x) \<noteq> None
      \<and> cview q = marks {mistypedKey x} retypeC (shares p) (cview p)"
    using throughPointer_view [of p res n "retype doc" retypeC] \<open>wf_heap p\<close> x
    by (auto simp: retype_def retypeC_def coreOf_def)
qed simp

lemma sensitive_view:
  assumes "withSensitiveFields t p = Inr p'" and "wf_heap p"
  shows "wf_heap p' \<and> ptr p' = ptr p \<and> (\<forall>x \<in> set (entries t). ptr p x \<noteq> None)
    \<and> cview p' = marks ((\<lambda>x. x) ` set (entries t)) sensitiveC (shares p) (cview p)"
proof (rule each_marks [OF checkedPass_entries [OF assms(1) [unfolded withSensitiveFields_def]] assms(2)])
  fix x :: "string \<times> string" and p q :: "'a tfProvider"
  assume e: "checkedEntry id (\<lambda>res field. throughPointer res field (\<lambda>s. s\<lparr>sSensitive := True\<rparr>)) x p = Inr q" and "wf_heap p"
  have "ptr p (fst x, snd x) \<noteq> None" "q = throughPointer (fst x) (snd x) (\<lambda>s. s\<lparr>sSensitive := True\<rparr>) p"
    using e schemaAt_ptr [of p x] by (auto simp: checkedEntry_def split: option.splits)
  then show "wf_heap q \<and> ptr q = ptr p \<and> ptr p x \<noteq> None \<and> cview q = marks {x} sensitiveC (shares p) (cview p)"
    using throughPointer_view [of p "fst x" "snd x" "\<lambda>s. s\<lparr>sSensitive := True\<rparr>" sensitiveC] \<open>wf_heap p\<close>
    by (auto simp: sensitiveC_def coreOf_def)
qed simp

lemma ptr_fresh: "wf_heap p \<Longrightarrow> ptr p y \<noteq> Some (fresh p)"
  unfolding wf_heap_def by (metis less_irrefl)

lemma demoteCopy_entry:
  assumes "checkedEntry id demoteCopy x p = Inr q" and "wf_heap p"
  obtains r s where "fmlookup (ResourcesMap p) (fst x) = Some r" "schemaAt p (fst x) (snd x) = Some s"
    "q = assign (fst x) r (snd x) (demote s) p"
proof -
  obtain s where s: "schemaAt p (fst x) (snd x) = Some s" "q = demoteCopy (fst x) (snd x) p"
    using assms(1) by (auto simp: checkedEntry_def split: option.splits)
  then obtain r where r: "fmlookup (ResourcesMap p) (fst x) = Some r"
    by (cases "fmlookup (ResourcesMap p) (fst x)") (auto simp: schemaAt_def pointer_def)
  show ?thesis using that [OF r s(1)] s r by (simp add: demoteCopy_def)
qed

lemma readonly_view:
  assumes "withRouterReadOnly t p = Inr p'" and "wf_heap p"
  shows "wf_heap p' \<and> (\<forall>x \<in> set (entries t). cview p x \<noteq> None) \<and> shares p' = splits ((\<lambda>x. x) ` set (entries t)) (shares p)
    \<and> cview p' = copies ((\<lambda>x. x) ` set (entries t)) demoteC (cview p)"
proof (rule each_copies [OF checkedPass_entries [OF assms(1) [unfolded withRouterReadOnly_def]] assms(2)])
  fix x :: "string \<times> string" and p q :: "'a tfProvider"
  assume e: "checkedEntry id demoteCopy x p = Inr q" and wf: "wf_heap p"
  then obtain r s where r: "fmlookup (ResourcesMap p) (fst x) = Some r" "schemaAt p (fst x) (snd x) = Some s"
    "q = assign (fst x) r (snd x) (demote s) p" by (rule demoteCopy_entry)
  note v = assign_view [OF r(1) wf, of "snd x" "demote s", folded r(3)]
  have "shares q = splits {x} (shares p)" using shares_upd [of q p x "fresh p"] v ptr_fresh [OF wf] by simp
  moreover have "cview p x = Some (coreOf s)" using r(2) by (simp add: cview_def)
  moreover have "coreOf (demote s) = demoteC (coreOf s)" by (simp add: coreOf_def demote_def demoteC_def)
  ultimately show "wf_heap q \<and> cview p x \<noteq> None \<and> shares q = splits {x} (shares p) \<and> cview q = copies {x} demoteC (cview p)"
    using v by (auto simp: copies_def fun_eq_iff)
qed simp

lemma inject_view:
  assumes "each (injectField n s) xs p = Inr p'" and "wf_heap p"
  shows "wf_heap p' \<and> shares p' = splits ((\<lambda>x. (x, n)) ` set xs) (shares p)
    \<and> cview p' = puts ((\<lambda>x. (x, n)) ` set xs) (coreOf s) (cview p)"
proof (rule each_puts [OF assms])
  fix x and p q :: "'a tfProvider"
  assume e: "injectField n s x p = Inr q" and wf: "wf_heap p"
  then obtain r where r: "fmlookup (ResourcesMap p) x = Some r" "q = assign x r n s p"
    by (auto simp: injectField_def split: option.splits)
  note v = assign_view [OF r(1) wf, of n s, folded r(2)]
  have "shares q = splits {(x, n)} (shares p)" using shares_upd [of q p "(x, n)" "fresh p"] v ptr_fresh [OF wf] by simp
  then show "wf_heap q \<and> shares q = splits {(x, n)} (shares p) \<and> cview q = puts {(x, n)} (coreOf s) (cview p)"
    using v by (auto simp: puts_def fun_eq_iff)
qed

lemma shares_ptr: "ptr q = ptr p \<Longrightarrow> shares q = shares p"
  by (intro ext) (simp add: shares_def)

text \<open>The passes that leave every view as it is.\<close>

definition neutral :: "('m tfProvider \<Rightarrow> panic + 'm tfProvider) \<Rightarrow> bool" where
  "neutral f \<longleftrightarrow> (\<forall>p q. f p = Inr q \<and> wf_heap p \<longrightarrow> wf_heap q \<and> shares q = shares p \<and> cview q = cview p)"

lemma neutral_each: "(\<And>x. neutral (f x)) \<Longrightarrow> neutral (each f xs)"
  unfolding neutral_def using each_same [where st = f] by blast

lemma neutral_inPlace: "(\<And>s. coreOf (f s) = coreOf s) \<Longrightarrow> neutral (inPlace res n f)"
  unfolding neutral_def
proof (intro allI impI)
  fix p q :: "'a tfProvider"
  assume id: "\<And>s. coreOf (f s) = coreOf s" and a: "inPlace res n f p = Inr q \<and> wf_heap p"
  have "wf_heap q \<and> ptr q = ptr p \<and> ptr p (res, n) \<noteq> None \<and> cview q = marks {(res, n)} id (shares p) (cview p)"
    using a id by (intro inPlace_view [of res n f]) simp_all
  then show "wf_heap q \<and> shares q = shares p \<and> cview q = cview p" using shares_ptr [of q p] by simp
qed

lemma neutral_schema:
  assumes "\<And>p q. f p = Inr q \<Longrightarrow> heap q = heap p \<and> fresh q = fresh p \<and> (\<forall>r n. pointer q r n = pointer p r n)"
  shows "neutral f"
  unfolding neutral_def
proof (intro allI impI)
  fix p q :: "'a tfProvider"
  assume "f p = Inr q \<and> wf_heap p"
  then have "heap q = heap p" "fresh q = fresh p" "ptr q = ptr p" "\<And>r n. pointer q r n = pointer p r n" "wf_heap p"
    using assms [of p q] by (auto simp: ptr_def fun_eq_iff)
  then show "wf_heap q \<and> shares q = shares p \<and> cview q = cview p"
    by (auto simp: wf_heap_def shares_def cview_def schemaAt_def fun_eq_iff)
qed

lemma neutral_rewire: "(\<And>path r. tfSchema (w path r) = tfSchema r) \<Longrightarrow> neutral (rewire w name)"
  by (rule neutral_schema) (auto simp: rewire_def pointer_def split: option.splits sum.splits)

lemma neutral_withResource: "(\<And>r. tfSchema (w r) = tfSchema r) \<Longrightarrow> neutral (withResource w name)"
  by (rule neutral_schema) (auto simp: withResource_def pointer_def split: option.splits)

lemma neutral_phantom: "neutral (withoutPhantomDefaults t)"
  unfolding withoutPhantomDefaults_def
  by (intro neutral_each) (auto intro!: neutral_each neutral_inPlace simp: coreOf_def)

lemma neutral_document: "neutral documentCommentSequence"
  unfolding documentCommentSequence_def by (intro neutral_inPlace) (simp add: coreOf_def)

lemma neutral_comp: "neutral f \<Longrightarrow> neutral g \<Longrightarrow> neutral (\<lambda>p. case f p of Inl e \<Rightarrow> Inl e | Inr p' \<Rightarrow> g p')"
  unfolding neutral_def
proof (intro allI impI)
  fix p q :: "'a tfProvider"
  assume f: "\<forall>p q. f p = Inr q \<and> wf_heap p \<longrightarrow> wf_heap q \<and> shares q = shares p \<and> cview q = cview p"
    and g: "\<forall>p q. g p = Inr q \<and> wf_heap p \<longrightarrow> wf_heap q \<and> shares q = shares p \<and> cview q = cview p"
    and a: "(case f p of Inl e \<Rightarrow> Inl e | Inr p' \<Rightarrow> g p') = Inr q \<and> wf_heap p"
  obtain p1 where "f p = Inr p1" "g p1 = Inr q" using a by (cases "f p") auto
  then show "wf_heap q \<and> shares q = shares p \<and> cview q = cview p" using f [rule_format, of p p1] g [rule_format, of p1 q] a by simp
qed

lemma neutral_sequence: "neutral (withCommentSequence U)"
  unfolding withCommentSequence_def by (intro neutral_comp neutral_document neutral_withResource) simp

lemma neutral_passes:
  "neutral withoutPolicyExpansion" "neutral (withNameIdentity n)" "neutral (withCommentIdentity U)"
  "neutral (withFactoryIdentity U)" "neutral (withInterfaceIdentity U)" "neutral (withCertificateRemoval U)"
  unfolding withoutPolicyExpansion_def withNameIdentity_def withCommentIdentity_def withFactoryIdentity_def
    withInterfaceIdentity_def withCertificateRemoval_def
  by (auto intro!: neutral_each neutral_withResource neutral_inPlace neutral_rewire
      simp: coreOf_def commentIdentity_def factoryIdentity_def interfaceIdentity_def)


section \<open>The two providers agree\<close>

definition mistypedKeys :: "field set" where
  "mistypedKeys = mistypedKey ` set (entries mistypedFields)"

definition readOnlyKeys :: "field set" where
  "readOnlyKeys = set (entries routerReadOnlyFields)"

definition sensitiveKeys :: "field set" where
  "sensitiveKeys = set (entries sensitiveFields)"

definition nameKeys :: "field set" where
  "nameKeys = (\<lambda>r. (r, ''name'')) ` set injectedNameResources"

definition commentKeys :: "field set" where
  "commentKeys = (\<lambda>r. (r, commentField)) ` set injectedCommentResources"

text \<open>The view both providers have, from the view of the upstream.\<close>

definition adapted :: "(field \<Rightarrow> field \<Rightarrow> bool) \<Rightarrow> (field \<Rightarrow> core option) \<Rightarrow> field \<Rightarrow> core option" where
  "adapted S C =
     puts commentKeys (coreOf routerComment) (puts nameKeys (coreOf routerName)
       (marks sensitiveKeys sensitiveC (splits readOnlyKeys S) (copies readOnlyKeys demoteC (marks mistypedKeys retypeC S C))))"

lemma pipeline_Cons: "pipeline (f # fs) p = Inr p' \<longleftrightarrow> (\<exists>q. f p = Inr q \<and> pipeline fs q = Inr p')"
  by (auto split: sum.splits)

text \<open>The passes the two providers have in common, up to those that are neutral.\<close>

lemma shared_passes:
  assumes "withoutMistypedEnums tm p = Inr p1" and "withRouterReadOnly tr p1 = Inr p2" and "withSensitiveFields ts p2 = Inr p3"
    and "shares p4 = shares p3" "cview p4 = cview p3" "wf_heap p4"
    and "injectRouterName p4 = Inr p5" and "injectRouterComment p5 = Inr p6"
    and "mset tm = mset mistypedFields" "mset tr = mset routerReadOnlyFields" "mset ts = mset sensitiveFields" and "wf_heap p"
  shows "wf_heap p6 \<and> cview p6 = adapted (shares p) (cview p)
    \<and> (\<forall>x \<in> mistypedKeys \<union> readOnlyKeys \<union> sensitiveKeys. cview p x \<noteq> None)"
proof -
  note keys = set_entries [OF assms(9)] set_entries [OF assms(10)] set_entries [OF assms(11)]
  note 1 = mistyped_view [OF assms(1,12)]
  then have s1: "shares p1 = shares p" by (intro shares_ptr) simp
  note 2 = readonly_view [OF assms(2)]
  note 3 = sensitive_view [OF assms(3)]
  have w1: "wf_heap p1" using 1 by simp
  have w2: "wf_heap p2" using 2 [OF w1] by simp
  have s3: "shares p3 = shares p2" using 3 [OF w2] by (intro shares_ptr) simp
  note 5 = inject_view [OF assms(7) [unfolded injectRouterName_def] assms(6)]
  have w5: "wf_heap p5" using 5 by simp
  note 6 = inject_view [OF assms(8) [unfolded injectRouterComment_def] w5]
  have "cview p6 = adapted (shares p) (cview p)"
    using 1 2 [OF w1] 3 [OF w2] s1 s3 5 6 assms(4,5) keys
    by (simp add: adapted_def mistypedKeys_def readOnlyKeys_def sensitiveKeys_def nameKeys_def commentKeys_def)
  moreover have "cview p x \<noteq> None" if x: "x \<in> mistypedKeys \<union> readOnlyKeys \<union> sensitiveKeys" for x
  proof -
    have a: "cview p1 y \<noteq> None \<longleftrightarrow> cview p y \<noteq> None" for y using 1 by (simp add: marks_def)
    have b: "cview p2 y \<noteq> None \<longleftrightarrow> cview p1 y \<noteq> None" for y using 2 [OF w1] by (simp add: copies_def)
    have m: "cview p y \<noteq> None" if "y \<in> mistypedKeys" for y
      using 1 that keys(1) cview_None [OF assms(12)] by (auto simp: mistypedKeys_def)
    have r: "cview p1 y \<noteq> None" if "y \<in> readOnlyKeys" for y using 2 [OF w1] that keys(2) by (auto simp: readOnlyKeys_def)
    have s: "cview p2 y \<noteq> None" if "y \<in> sensitiveKeys" for y
      using 3 [OF w2] that keys(3) cview_None [OF w2] by (auto simp: sensitiveKeys_def)
    show ?thesis using x m r s a b by blast
  qed
  ultimately show ?thesis using 6 by blast
qed

lemma pipeline_append: "pipeline (fs @ gs) p = Inr p' \<longleftrightarrow> (\<exists>q. pipeline fs p = Inr q \<and> pipeline gs q = Inr p')"
  by (induction fs arbitrary: p) (auto split: sum.splits)

lemma pipeline_ConsE:
  assumes "pipeline (f # fs) p = Inr p'" obtains q where "f p = Inr q" "pipeline fs q = Inr p'"
proof -
  from assms obtain q where q: "f p = Inr q \<and> pipeline fs q = Inr p'" unfolding pipeline_Cons ..
  show ?thesis by (rule that [OF conjunct1 [OF q] conjunct2 [OF q]])
qed

lemma pipeline_appendE:
  assumes "pipeline (fs @ gs) p = Inr p'" obtains q where "pipeline fs p = Inr q" "pipeline gs q = Inr p'"
proof -
  from assms obtain q where q: "pipeline fs p = Inr q \<and> pipeline gs q = Inr p'" unfolding pipeline_append ..
  show ?thesis by (rule that [OF conjunct1 [OF q] conjunct2 [OF q]])
qed

lemma neutral_pipeline: "list_all neutral fs \<Longrightarrow> neutral (pipeline fs)"
proof (induction fs)
  case (Cons f fs)
  then have "neutral (\<lambda>p. case f p of Inl e \<Rightarrow> Inl e | Inr p' \<Rightarrow> pipeline fs p')" by (intro neutral_comp) simp_all
  moreover have "(\<lambda>p. case f p of Inl e \<Rightarrow> Inl e | Inr p' \<Rightarrow> pipeline fs p') = pipeline (f # fs)" by (rule ext) simp
  ultimately show ?case by simp
qed (simp add: neutral_def fun_eq_iff)

lemma neutralD: "neutral f \<Longrightarrow> f p = Inr q \<Longrightarrow> wf_heap p \<Longrightarrow> wf_heap q \<and> shares q = shares p \<and> cview q = cview p"
  unfolding neutral_def by blast

text \<open>
  The five passes that change a view, around whatever neutral passes: this is the shape of both
  pipelines.
\<close>

lemma adapting_view:
  assumes run: "pipeline ([withoutMistypedEnums tm, withRouterReadOnly tr, withSensitiveFields ts] @ ns
      @ [injectRouterName, injectRouterComment]) p = Inr q"
    and ns: "list_all neutral ns" and wf: "wf_heap p"
    and t: "mset tm = mset mistypedFields" "mset tr = mset routerReadOnlyFields" "mset ts = mset sensitiveFields"
  shows "wf_heap q \<and> cview q = adapted (shares p) (cview p)
    \<and> (\<forall>x \<in> mistypedKeys \<union> readOnlyKeys \<union> sensitiveKeys. cview p x \<noteq> None)"
proof -
  obtain p3 p4 where a: "pipeline [withoutMistypedEnums tm, withRouterReadOnly tr, withSensitiveFields ts] p = Inr p3"
    and b: "pipeline ns p3 = Inr p4" and c: "pipeline [injectRouterName, injectRouterComment] p4 = Inr q"
    using run unfolding pipeline_append by (elim exE conjE)
  obtain p1 where p1: "withoutMistypedEnums tm p = Inr p1" and a1: "pipeline [withRouterReadOnly tr, withSensitiveFields ts] p1 = Inr p3"
    using a by (rule pipeline_ConsE)
  obtain p2 where p2: "withRouterReadOnly tr p1 = Inr p2" and a2: "pipeline [withSensitiveFields ts] p2 = Inr p3"
    using a1 by (rule pipeline_ConsE)
  obtain p3' where p3: "withSensitiveFields ts p2 = Inr p3'" and a3: "pipeline [] p3' = Inr p3" using a2 by (rule pipeline_ConsE)
  obtain p5 where p5: "injectRouterName p4 = Inr p5" and c1: "pipeline [injectRouterComment] p5 = Inr q" using c by (rule pipeline_ConsE)
  obtain q' where q: "injectRouterComment p5 = Inr q'" and c2: "pipeline [] q' = Inr q" using c1 by (rule pipeline_ConsE)
  have e: "p3' = p3" "q' = q" using a3 c2 by (simp_all only: pipeline.simps sum.inject)
  have w1: "wf_heap p1" using mistyped_view [OF p1 wf] by simp
  have w2: "wf_heap p2" using readonly_view [OF p2 w1] by simp
  have w3: "wf_heap p3" using sensitive_view [OF p3 w2] e by simp
  have 4: "wf_heap p4" "shares p4 = shares p3" "cview p4 = cview p3" using neutralD [OF neutral_pipeline [OF ns] b w3] by simp_all
  show ?thesis by (rule shared_passes [OF p1 p2 p3 [unfolded e] 4(2,3,1) p5 q [unfolded e] t wf])
qed

lemma runtime_view:
  assumes "providerForRuntime U n v p = Inr pr" and "wf_heap p" and "visits_ok v"
  shows "cview pr = adapted (shares p) (cview p)
    \<and> (\<forall>x \<in> mistypedKeys \<union> readOnlyKeys \<union> sensitiveKeys. cview p x \<noteq> None)"
proof -
  let ?tail = "[withNameIdentity n, withCommentIdentity U, withFactoryIdentity U, withInterfaceIdentity U,
      withCertificateRemoval U, withCommentSequence U]"
  let ?core = "[withoutMistypedEnums (vMistyped v), withRouterReadOnly (vReadOnly v), withSensitiveFields (vSensitive v)]
      @ [withoutPolicyExpansion] @ [injectRouterName, injectRouterComment]"
  have "pipeline (withoutPhantomDefaults (vPhantom v) # (?core @ ?tail)) p = Inr pr"
    using assms(1) unfolding providerForRuntime_def append.simps .
  then obtain p0 where p0: "withoutPhantomDefaults (vPhantom v) p = Inr p0" and r: "pipeline (?core @ ?tail) p0 = Inr pr"
    by (rule pipeline_ConsE)
  from r obtain p1 where p1: "pipeline ?core p0 = Inr p1" and t: "pipeline ?tail p1 = Inr pr" by (rule pipeline_appendE)
  have 0: "wf_heap p0" "shares p0 = shares p" "cview p0 = cview p" using neutralD [OF neutral_phantom p0 assms(2)] by simp_all
  have mid: "list_all neutral [withoutPolicyExpansion]" by (simp add: neutral_passes)
  have tail: "list_all neutral ?tail" by (simp add: neutral_passes neutral_sequence)
  note 1 = adapting_view [OF p1 mid 0(1)]
  have v: "mset (vMistyped v) = mset mistypedFields" "mset (vReadOnly v) = mset routerReadOnlyFields"
    "mset (vSensitive v) = mset sensitiveFields" using assms(3) unfolding visits_ok_def by simp_all
  note 2 = 1 [OF v]
  have "cview pr = cview p1" using neutralD [OF neutral_pipeline [OF tail] t] 2 by simp
  then show ?thesis using 2 0 by simp
qed

lemma rename_view:
  assumes "renameFieldForGeneration res a b p = Inr p'" and "a \<noteq> b" and "wf_heap p"
  shows "wf_heap p' \<and> cview p' = (cview p)((res, b) := cview p (res, a), (res, a) := None)"
proof -
  obtain r ad where r: "fmlookup (ResourcesMap p) res = Some r" "fmlookup (tfSchema r) a = Some ad"
    using assms(1) by (auto simp: renameFieldForGeneration_def split: option.splits)
  define q where "q = p\<lparr>ResourcesMap := fmupd res (r\<lparr>tfSchema := fmupd b ad (fmdrop a (tfSchema r))\<rparr>) (ResourcesMap p)\<rparr>"
  define f where "f = (\<lambda>s :: Schema. s\<lparr>sDescription := sDescription s @ [CHR 0x0A] @ ''+upjet:crd:field:TFTag='' @ a @ '',omitempty''\<rparr>)"
  have p': "p' = mutate ad f q" using assms(1) r by (simp add: renameFieldForGeneration_def q_def f_def)
  have ptr: "ptr q x = ((ptr p)((res, b) := ptr p (res, a), (res, a) := None)) x" for x
    using r assms(2) by (cases x) (auto simp: q_def ptr_def pointer_def)
  have hq: "heap q = heap p" "fresh q = fresh p" by (simp_all add: q_def)
  have "wf_heap q" unfolding wf_heap_def ptr hq using assms(3) by (auto simp: wf_heap_def)
  moreover have "cview q x = ((cview p)((res, b) := cview p (res, a), (res, a) := None)) x" for x
    using ptr [of x] hq assms(2) by (auto simp: cview_def schemaAt_def ptr_def)
  moreover have "cview p' x = cview q x" for x
    unfolding p' using cview_mutate [of f id ad q x] by (auto simp: f_def coreOf_def option.map_id0)
  ultimately show ?thesis using wf_mutate [of q ad f] p' by auto
qed

text \<open>The fields generation names otherwise, under the name the API gets and the name Terraform has.\<close>

definition generatedNames :: "(field \<times> field) list" where
  "generatedNames =
     [((''routeros_ipv6_nd_prefix'', ''six_to_four_interface''), (''routeros_ipv6_nd_prefix'', ''6to4_interface'')),
      ((''routeros_wifi_interworking'', ''three_gpp_info''), (''routeros_wifi_interworking'', ''3gpp_info'')),
      ((''routeros_wifi_interworking'', ''three_gpp_raw''), (''routeros_wifi_interworking'', ''3gpp_raw''))]"

definition asGenerated :: "(field \<Rightarrow> core option) \<Rightarrow> field \<Rightarrow> core option" where
  "asGenerated C x =
     (case map_of generatedNames x of
        Some y \<Rightarrow> C y
      | None \<Rightarrow> (if x \<in> snd ` set generatedNames then None else C x))"

lemma renames_view:
  assumes "pipeline
     [renameFieldForGeneration ''routeros_ipv6_nd_prefix'' ''6to4_interface'' ''six_to_four_interface'',
      renameFieldForGeneration ''routeros_wifi_interworking'' ''3gpp_info'' ''three_gpp_info'',
      renameFieldForGeneration ''routeros_wifi_interworking'' ''3gpp_raw'' ''three_gpp_raw''] p = Inr q" and "wf_heap p"
  shows "cview q = asGenerated (cview p)"
proof -
  from assms(1) obtain p1 where p1: "renameFieldForGeneration ''routeros_ipv6_nd_prefix'' ''6to4_interface'' ''six_to_four_interface'' p = Inr p1"
    and a: "pipeline [renameFieldForGeneration ''routeros_wifi_interworking'' ''3gpp_info'' ''three_gpp_info'',
      renameFieldForGeneration ''routeros_wifi_interworking'' ''3gpp_raw'' ''three_gpp_raw''] p1 = Inr q" by (rule pipeline_ConsE)
  from a obtain p2 where p2: "renameFieldForGeneration ''routeros_wifi_interworking'' ''3gpp_info'' ''three_gpp_info'' p1 = Inr p2"
    and b: "pipeline [renameFieldForGeneration ''routeros_wifi_interworking'' ''3gpp_raw'' ''three_gpp_raw''] p2 = Inr q" by (rule pipeline_ConsE)
  from b obtain p3 where p3: "renameFieldForGeneration ''routeros_wifi_interworking'' ''3gpp_raw'' ''three_gpp_raw'' p2 = Inr p3"
    and c: "pipeline [] p3 = Inr q" by (rule pipeline_ConsE)
  have q: "q = p3" using c by (simp only: pipeline.simps sum.inject)
  note 1 = rename_view [OF p1 _ assms(2)]
  have w1: "wf_heap p1" using 1 by simp
  note 2 = rename_view [OF p2 _ w1]
  have w2: "wf_heap p2" using 2 by simp
  note 3 = rename_view [OF p3 _ w2]
  show ?thesis unfolding q by (rule ext) (simp add: 1 2 3 asGenerated_def generatedNames_def)
qed

lemma generation_view:
  assumes "providerForGeneration v p = Inr pg" and "wf_heap p" and "visits_ok v"
  shows "cview pg = asGenerated (adapted (shares p) (cview p))"
proof -
  let ?core = "[withoutMistypedEnums (vMistyped v), withRouterReadOnly (vReadOnly v), withSensitiveFields (vSensitive v)]
      @ [] @ [injectRouterName, injectRouterComment]"
  let ?ren = "[renameFieldForGeneration ''routeros_ipv6_nd_prefix'' ''6to4_interface'' ''six_to_four_interface'',
      renameFieldForGeneration ''routeros_wifi_interworking'' ''3gpp_info'' ''three_gpp_info'',
      renameFieldForGeneration ''routeros_wifi_interworking'' ''3gpp_raw'' ''three_gpp_raw'']"
  have "pipeline (?core @ (documentCommentSequence # ?ren)) p = Inr pg"
    using assms(1) unfolding providerForGeneration_def append.simps .
  then obtain p1 where p1: "pipeline ?core p = Inr p1" and r: "pipeline (documentCommentSequence # ?ren) p1 = Inr pg"
    by (rule pipeline_appendE)
  from r obtain p2 where p2: "documentCommentSequence p1 = Inr p2" and t: "pipeline ?ren p2 = Inr pg" by (rule pipeline_ConsE)
  have v: "mset (vMistyped v) = mset mistypedFields" "mset (vReadOnly v) = mset routerReadOnlyFields"
    "mset (vSensitive v) = mset sensitiveFields" using assms(3) unfolding visits_ok_def by simp_all
  have mid: "list_all neutral []" by simp
  note 1 = adapting_view [OF p1 mid assms(2) v]
  have w1: "wf_heap p1" using 1 by simp
  note 2 = neutralD [OF neutral_document p2 w1]
  show ?thesis using renames_view [OF t] 1 2 by simp
qed

section \<open>The passes succeed\<close>

text \<open>
  A pass panics only for want of a resource or a field that a table names. \<^verbatim>\<open>grown\<close> is what every pass up
  to the renaming keeps: the resources and the fields there were.
\<close>

definition grown :: "'m tfProvider \<Rightarrow> 'm tfProvider \<Rightarrow> bool" where
  "grown p q \<longleftrightarrow> wf_heap q \<and> (\<forall>res. fmlookup (ResourcesMap p) res \<noteq> None \<longrightarrow> fmlookup (ResourcesMap q) res \<noteq> None)
     \<and> (\<forall>x. ptr p x \<noteq> None \<longrightarrow> ptr q x \<noteq> None)"

definition offers :: "string set \<Rightarrow> field set \<Rightarrow> 'm tfProvider \<Rightarrow> bool" where
  "offers R F p \<longleftrightarrow> wf_heap p \<and> (\<forall>res \<in> R. fmlookup (ResourcesMap p) res \<noteq> None) \<and> (\<forall>x \<in> F. ptr p x \<noteq> None)"

definition succeeds :: "string set \<Rightarrow> field set \<Rightarrow> ('m tfProvider \<Rightarrow> panic + 'm tfProvider) \<Rightarrow> bool" where
  "succeeds R F f \<longleftrightarrow> (\<forall>p. offers R F p \<longrightarrow> (\<exists>q. f p = Inr q \<and> grown p q))"

lemma succeedsI: "(\<And>p. offers R F p \<Longrightarrow> \<exists>q. f p = Inr q \<and> grown p q) \<Longrightarrow> succeeds R F f"
  by (simp add: succeeds_def)

lemma succeedsE:
  assumes "succeeds R F f" and "offers R F p" obtains q where "f p = Inr q" "grown p q"
  using assms unfolding succeeds_def by blast

lemma offers_grown: "offers R F p \<Longrightarrow> grown p q \<Longrightarrow> offers R F q"
  by (auto simp: offers_def grown_def)

lemma grown_trans: "grown p q \<Longrightarrow> grown q r \<Longrightarrow> grown p r"
  by (auto simp: grown_def)

lemma succeeds_each:
  assumes "\<And>x. x \<in> set xs \<Longrightarrow> succeeds R F (f x)" shows "succeeds R F (each f xs)"
  using assms
proof (induction xs)
  case Nil
  show ?case by (rule succeedsI) (auto simp: offers_def grown_def)
next
  case (Cons x xs)
  show ?case
  proof (rule succeedsI)
    fix p :: "'b tfProvider" assume p: "offers R F p"
    obtain q where q: "f x p = Inr q" "grown p q" using succeedsE [OF Cons.prems [of x] p] by auto
    have "succeeds R F (each f xs)" by (rule Cons.IH) (simp add: Cons.prems)
    then obtain r where "each f xs q = Inr r" "grown q r" using offers_grown [OF p q(2)] by (rule succeedsE)
    then show "\<exists>r. each f (x # xs) p = Inr r \<and> grown p r" using q grown_trans by auto
  qed
qed

lemma pipeline_each: "pipeline fs p = each (\<lambda>f. f) fs p"
  by (induction fs arbitrary: p) (auto split: sum.splits)

lemma succeeds_pipeline: "list_all (succeeds R F) fs \<Longrightarrow> succeeds R F (pipeline fs)"
  using succeeds_each [of fs R F "\<lambda>f. f"] by (simp add: list_all_iff succeeds_def pipeline_each)

lemma grown_mutate: "wf_heap p \<Longrightarrow> grown p (mutate a f p)"
  by (simp add: grown_def wf_mutate) (simp add: mutate_def)

lemma offersE:
  assumes "offers R F p" and "(res, n) \<in> F"
  obtains r a s where "fmlookup (ResourcesMap p) res = Some r" "fmlookup (tfSchema r) n = Some a" "fmlookup (heap p) a = Some s"
proof -
  have "ptr p (res, n) \<noteq> None" using assms by (auto simp: offers_def)
  then obtain r a where ra: "fmlookup (ResourcesMap p) res = Some r" "fmlookup (tfSchema r) n = Some a"
    by (auto simp: ptr_def pointer_def split: bind_splits)
  then have "ptr p (res, n) = Some a" by (simp add: ptr_def pointer_def)
  then have "fmlookup (heap p) a \<noteq> None" using assms(1) unfolding offers_def wf_heap_def by blast
  then show ?thesis using that ra by blast
qed

lemma offers_wf: "offers R F p \<Longrightarrow> wf_heap p"
  by (simp add: offers_def)

lemma succeeds_inPlace:
  assumes "(res, n) \<in> F" shows "succeeds R F (inPlace res n f)"
proof (rule succeedsI)
  fix p :: "'a tfProvider" assume p: "offers R F p"
  obtain r a s where "fmlookup (ResourcesMap p) res = Some r" "fmlookup (tfSchema r) n = Some a" using offersE [OF p assms] .
  then show "\<exists>q. inPlace res n f p = Inr q \<and> grown p q" using grown_mutate [OF offers_wf [OF p]] by (simp add: inPlace_def)
qed

lemma grown_assign:
  assumes "fmlookup (ResourcesMap p) res = Some r" and "wf_heap p" shows "grown p (assign res r n s p)"
  using assign_view [OF assms, of n s] by (simp add: grown_def) (simp add: assign_def)

lemma succeeds_injectField:
  assumes "res \<in> R" shows "succeeds R F (injectField n s res)"
proof (rule succeedsI)
  fix p :: "'a tfProvider" assume p: "offers R F p"
  then obtain r where "fmlookup (ResourcesMap p) res = Some r" using assms by (auto simp: offers_def)
  then show "\<exists>q. injectField n s res p = Inr q \<and> grown p q" using grown_assign offers_wf [OF p] by (simp add: injectField_def)
qed

lemma succeeds_checkedPass:
  assumes change: "\<And>res x p. offers R F p \<Longrightarrow> (res, fieldOf x) \<in> F \<Longrightarrow> grown p (change res x p)"
    and R: "fst ` set table \<subseteq> R" and F: "(\<lambda>x. (fst x, fieldOf (snd x))) ` set (entries table) \<subseteq> F"
  shows "succeeds R F (checkedPass fieldOf change table)"
  unfolding checkedPass_def
proof (rule succeeds_each)
  fix e assume e: "e \<in> set table"
  obtain res fs where rf: "e = (res, fs)" by (cases e)
  have in': "(res, fieldOf x) \<in> F" if "x \<in> set fs" for x
    using F e that unfolding rf entries_def by (force simp: image_subset_iff)
  have entry: "succeeds R F (\<lambda>p. checkedEntry fieldOf change (res, x) p)" if x: "x \<in> set fs" for x
  proof (rule succeedsI)
    fix p :: "'b tfProvider" assume p: "offers R F p"
    obtain r a s where "fmlookup (ResourcesMap p) res = Some r" "fmlookup (tfSchema r) (fieldOf x) = Some a" "fmlookup (heap p) a = Some s"
      using offersE [OF p in' [OF x]] .
    then show "\<exists>q. checkedEntry fieldOf change (res, x) p = Inr q \<and> grown p q"
      using change [OF p in' [OF x]] by (simp add: checkedEntry_def schemaAt_def pointer_def)
  qed
  have each: "succeeds R F (each (\<lambda>x. checkedEntry fieldOf change (res, x)) fs)" by (rule succeeds_each) (rule entry)
  have "fmlookup (ResourcesMap p) res \<noteq> None" if "offers R F p" for p
    using that R e unfolding rf by (force simp: offers_def)
  with each show "succeeds R F (case e of (res, fs) \<Rightarrow> (\<lambda>p. case fmlookup (ResourcesMap p) res of
      None \<Rightarrow> Inl (NoUpstreamResource res) | Some _ \<Rightarrow> each (\<lambda>f. checkedEntry fieldOf change (res, f)) fs p))"
    unfolding succeeds_def rf by (fastforce split: option.splits)
qed

lemma grown_throughPointer: "wf_heap p \<Longrightarrow> grown p (throughPointer res n f p)"
  by (auto simp: throughPointer_def grown_mutate split: option.splits) (simp add: grown_def)

lemma grown_demoteCopy: "wf_heap p \<Longrightarrow> grown p (demoteCopy res n p)"
  by (auto simp: demoteCopy_def grown_assign split: option.splits) (simp_all add: grown_def)

lemma grown_schema:
  assumes "fmlookup (ResourcesMap p) res = Some r" and "tfSchema r' = tfSchema r" and "wf_heap p"
  shows "grown p (p\<lparr>ResourcesMap := fmupd res r' (ResourcesMap p)\<rparr>)"
proof -
  have "ptr (p\<lparr>ResourcesMap := fmupd res r' (ResourcesMap p)\<rparr>) x = ptr p x" for x using assms(1,2) by (auto simp: ptr_def pointer_def)
  then show ?thesis using assms(3) by (auto simp: grown_def wf_heap_def)
qed

lemma succeeds_rewire:
  assumes "(res, MetaResourcePath) \<in> F" and "\<And>path r. tfSchema (w path r) = tfSchema r"
  shows "succeeds R F (rewire w res)"
proof (rule succeedsI)
  fix p :: "'a tfProvider" assume p: "offers R F p"
  obtain r a s where r: "fmlookup (ResourcesMap p) res = Some r" "fmlookup (tfSchema r) MetaResourcePath = Some a" "fmlookup (heap p) a = Some s"
    using offersE [OF p assms(1)] .
  then show "\<exists>q. rewire w res p = Inr q \<and> grown p q"
    using grown_schema [OF r(1) assms(2) offers_wf [OF p]] by (simp add: rewire_def resourcePath_def schemaAt_def pointer_def)
qed

lemma succeeds_withResource:
  assumes "res \<in> R" and "\<And>r. tfSchema (w r) = tfSchema r"
  shows "succeeds R F (withResource w res)"
proof (rule succeedsI)
  fix p :: "'a tfProvider" assume p: "offers R F p"
  then obtain r where r: "fmlookup (ResourcesMap p) res = Some r" using assms by (auto simp: offers_def)
  then show "\<exists>q. withResource w res p = Inr q \<and> grown p q"
    using grown_schema [OF r assms(2) offers_wf [OF p]] by (simp add: withResource_def)
qed

section \<open>Both providers start\<close>

text \<open>What the tables ask of the upstream provider: resources, and fields of resources.\<close>

definition needsResources :: "string set" where
  "needsResources = fst ` set mistypedFields \<union> fst ` set routerReadOnlyFields \<union> fst ` set sensitiveFields
     \<union> set injectedNameResources \<union> set injectedCommentResources \<union> set policyExpansionResources \<union> {moveItemsResource}"

definition needsFields :: "field set" where
  "needsFields = set (entries phantomDefaultFields) \<union> mistypedKeys \<union> readOnlyKeys \<union> sensitiveKeys
     \<union> (\<lambda>r. (r, MetaId)) ` set nameIdentityResources
     \<union> (\<lambda>r. (r, MetaResourcePath)) ` (set commentIdentityResources \<union> set factoryIdentityResources
         \<union> set interfaceIdentityResources \<union> set certificateRemovalResources)
     \<union> {(moveItemsResource, sequenceField)} \<union> snd ` set generatedNames"

abbreviation complete :: "'m tfProvider \<Rightarrow> bool" where
  "complete \<equiv> offers needsResources needsFields"

lemma fst_mset: "mset t = mset t' \<Longrightarrow> fst ` set t = fst ` set t'"
  by (metis mset_eq_setD)

lemma succeeds_mistyped:
  assumes "mset t = mset mistypedFields" shows "succeeds needsResources needsFields (withoutMistypedEnums t)"
  unfolding withoutMistypedEnums_def
  by (rule succeeds_checkedPass; use fst_mset [OF assms] set_entries [OF assms] in
      \<open>auto simp: grown_throughPointer offers_wf needsResources_def needsFields_def mistypedKeys_def\<close>)

lemma succeeds_readonly:
  assumes "mset t = mset routerReadOnlyFields" shows "succeeds needsResources needsFields (withRouterReadOnly t)"
  unfolding withRouterReadOnly_def
  by (rule succeeds_checkedPass; use fst_mset [OF assms] set_entries [OF assms] in
      \<open>auto simp: grown_demoteCopy offers_wf needsResources_def needsFields_def readOnlyKeys_def\<close>)

lemma succeeds_sensitive:
  assumes "mset t = mset sensitiveFields" shows "succeeds needsResources needsFields (withSensitiveFields t)"
  unfolding withSensitiveFields_def
  by (rule succeeds_checkedPass; use fst_mset [OF assms] set_entries [OF assms] in
      \<open>auto simp: grown_throughPointer offers_wf needsResources_def needsFields_def sensitiveKeys_def\<close>)

lemma succeeds_phantom:
  assumes "mset t = mset phantomDefaultFields" shows "succeeds needsResources needsFields (withoutPhantomDefaults t)"
  unfolding withoutPhantomDefaults_def
proof (rule succeeds_each)
  fix e assume e: "e \<in> set t"
  obtain res fs where rf: "e = (res, fs)" by (cases e)
  have "(res, n) \<in> needsFields" if "n \<in> set fs" for n
  proof -
    have "(res, n) \<in> set (entries t)" using e that unfolding rf entries_def by force
    then show ?thesis using set_entries [OF assms] by (simp add: needsFields_def)
  qed
  then show "succeeds needsResources needsFields (case e of (name, fs) \<Rightarrow> each (\<lambda>f. inPlace name f (\<lambda>s. s\<lparr>sDefault := None\<rparr>)) fs)"
    unfolding rf by (auto intro!: succeeds_each succeeds_inPlace)
qed

lemma succeeds_inject:
  "succeeds needsResources F injectRouterName" "succeeds needsResources F injectRouterComment"
  unfolding injectRouterName_def injectRouterComment_def
  by (auto intro!: succeeds_each succeeds_injectField simp: needsResources_def)

lemma succeeds_document: "succeeds R needsFields documentCommentSequence"
  unfolding documentCommentSequence_def by (rule succeeds_inPlace) (simp add: needsFields_def)

lemma succeeds_identities:
  "succeeds needsResources needsFields withoutPolicyExpansion" "succeeds needsResources needsFields (withNameIdentity n)"
  "succeeds needsResources needsFields (withCommentIdentity U)" "succeeds needsResources needsFields (withFactoryIdentity U)"
  "succeeds needsResources needsFields (withInterfaceIdentity U)" "succeeds needsResources needsFields (withCertificateRemoval U)"
  unfolding withoutPolicyExpansion_def withNameIdentity_def withCommentIdentity_def withFactoryIdentity_def
    withInterfaceIdentity_def withCertificateRemoval_def
  by (rule succeeds_each; auto intro!: succeeds_withResource succeeds_inPlace succeeds_rewire
      simp: needsResources_def needsFields_def commentIdentity_def factoryIdentity_def interfaceIdentity_def)+

lemma succeeds_comp: "succeeds R F f \<Longrightarrow> succeeds R F g \<Longrightarrow> succeeds R F (\<lambda>p. case f p of Inl e \<Rightarrow> Inl e | Inr p' \<Rightarrow> g p')"
proof (rule succeedsI)
  fix p :: "'a tfProvider" assume f: "succeeds R F f" and g: "succeeds R F g" and p: "offers R F p"
  obtain q where q: "f p = Inr q" "grown p q" using succeedsE [OF f p] .
  obtain r where "g q = Inr r" "grown q r" using succeedsE [OF g offers_grown [OF p q(2)]] .
  then show "\<exists>r. (case f p of Inl e \<Rightarrow> Inl e | Inr p' \<Rightarrow> g p') = Inr r \<and> grown p r" using q grown_trans by auto
qed

lemma succeeds_sequence: "succeeds needsResources needsFields (withCommentSequence U)"
  unfolding withCommentSequence_def
  by (intro succeeds_comp succeeds_document succeeds_withResource) (simp_all add: needsResources_def)

lemma runtime_starts:
  assumes "complete p" and "visits_ok v" shows "\<exists>pr. providerForRuntime U n v p = Inr pr"
proof -
  have "succeeds needsResources needsFields (providerForRuntime U n v)"
    unfolding providerForRuntime_def using assms(2)
    by (intro succeeds_pipeline) (simp add: visits_ok_def succeeds_phantom succeeds_mistyped succeeds_readonly succeeds_sensitive
        succeeds_inject succeeds_identities succeeds_sequence)
  then show ?thesis using assms(1) by (metis succeedsE)
qed


lemma rename_succeeds:
  assumes "ptr p (res, a) \<noteq> None" and "a \<noteq> b" and "wf_heap p"
  shows "\<exists>q. renameFieldForGeneration res a b p = Inr q \<and> wf_heap q \<and> (\<forall>x. x \<noteq> (res, a) \<longrightarrow> ptr p x \<noteq> None \<longrightarrow> ptr q x \<noteq> None)"
proof -
  obtain r ad where "fmlookup (ResourcesMap p) res = Some r" "fmlookup (tfSchema r) a = Some ad"
    using assms(1) by (auto simp: ptr_def pointer_def split: bind_splits)
  then obtain q where q: "renameFieldForGeneration res a b p = Inr q" by (simp add: renameFieldForGeneration_def)
  have v: "wf_heap q" "cview q = (cview p)((res, b) := cview p (res, a), (res, a) := None)" using rename_view [OF q assms(2,3)] by simp_all
  have "ptr q x \<noteq> None" if "x \<noteq> (res, a)" "ptr p x \<noteq> None" for x
    using that v(2) cview_None [OF v(1), of x] cview_None [OF assms(3)] assms(1) by (auto split: if_splits)
  then show ?thesis using q v(1) by blast
qed

lemma generation_starts:
  assumes "complete p" and "visits_ok v" shows "\<exists>pg. providerForGeneration v p = Inr pg"
proof -
  let ?core = "[withoutMistypedEnums (vMistyped v), withRouterReadOnly (vReadOnly v), withSensitiveFields (vSensitive v),
      injectRouterName, injectRouterComment, documentCommentSequence]"
  have "succeeds needsResources needsFields (pipeline ?core)" using assms(2)
    by (intro succeeds_pipeline) (simp add: visits_ok_def succeeds_mistyped succeeds_readonly succeeds_sensitive
        succeeds_inject succeeds_document)
  then obtain q where q: "pipeline ?core p = Inr q" "grown p q" using assms(1) by (rule succeedsE)
  have "offers needsResources needsFields q" by (rule offers_grown [OF assms(1) q(2)])
  then have o: "wf_heap q" "ptr q (''routeros_ipv6_nd_prefix'', ''6to4_interface'') \<noteq> None"
    "ptr q (''routeros_wifi_interworking'', ''3gpp_info'') \<noteq> None" "ptr q (''routeros_wifi_interworking'', ''3gpp_raw'') \<noteq> None"
    unfolding offers_def needsFields_def by (auto simp: generatedNames_def)
  obtain q1 where 1: "renameFieldForGeneration ''routeros_ipv6_nd_prefix'' ''6to4_interface'' ''six_to_four_interface'' q = Inr q1"
    "wf_heap q1" "ptr q1 (''routeros_wifi_interworking'', ''3gpp_info'') \<noteq> None" "ptr q1 (''routeros_wifi_interworking'', ''3gpp_raw'') \<noteq> None"
    using rename_succeeds [OF o(2) _ o(1), of "''six_to_four_interface''"] o(3,4) by auto
  obtain q2 where 2: "renameFieldForGeneration ''routeros_wifi_interworking'' ''3gpp_info'' ''three_gpp_info'' q1 = Inr q2"
    "wf_heap q2" "ptr q2 (''routeros_wifi_interworking'', ''3gpp_raw'') \<noteq> None"
    using rename_succeeds [OF 1(3) _ 1(2), of "''three_gpp_info''"] 1(4) by auto
  obtain q3 where 3: "renameFieldForGeneration ''routeros_wifi_interworking'' ''3gpp_raw'' ''three_gpp_raw'' q2 = Inr q3"
    using rename_succeeds [OF 2(3) _ 2(2), of "''three_gpp_raw''"] by auto
  have "pipeline (?core @ [renameFieldForGeneration ''routeros_ipv6_nd_prefix'' ''6to4_interface'' ''six_to_four_interface'',
      renameFieldForGeneration ''routeros_wifi_interworking'' ''3gpp_info'' ''three_gpp_info'',
      renameFieldForGeneration ''routeros_wifi_interworking'' ''3gpp_raw'' ''three_gpp_raw'']) p = Inr q3"
    unfolding pipeline_append using q(1) by (intro exI [of _ q]) (simp add: 1 2 3)
  then show ?thesis unfolding providerForGeneration_def append.simps by blast
qed

text \<open>The keys of the tables do not meet where it would matter.\<close>

lemma keys_disjoint:
  "(nameKeys \<union> commentKeys) \<inter> (mistypedKeys \<union> readOnlyKeys \<union> sensitiveKeys) = {}"
  by (simp add: nameKeys_def commentKeys_def mistypedKeys_def readOnlyKeys_def sensitiveKeys_def entries_def commentField_def
      injectedNameResources_def injectedCommentResources_def mistypedFields_def routerReadOnlyFields_def sensitiveFields_def)

lemma adapted_listed:
  assumes "x \<in> mistypedKeys \<union> readOnlyKeys \<union> sensitiveKeys"
  shows "adapted S C x = marks sensitiveKeys sensitiveC (splits readOnlyKeys S) (copies readOnlyKeys demoteC (marks mistypedKeys retypeC S C)) x"
  using assms keys_disjoint by (auto simp: adapted_def puts_def)

definition asListed :: "field \<Rightarrow> core \<Rightarrow> bool" where
  "asListed x c \<longleftrightarrow> (x \<in> mistypedKeys \<longrightarrow> cType c = TypeString)
     \<and> (x \<in> readOnlyKeys \<longrightarrow> cComputed c \<and> \<not> cOptional c \<and> \<not> cRequired c)
     \<and> (x \<in> sensitiveKeys \<longrightarrow> cSensitive c)"

lemma adapted_asListed:
  assumes "x \<in> mistypedKeys \<union> readOnlyKeys \<union> sensitiveKeys" and "C x \<noteq> None" and "\<And>y. C y \<noteq> None \<Longrightarrow> S y y"
  shows "\<exists>c. adapted S C x = Some c \<and> asListed x c"
proof -
  have "splits readOnlyKeys S x x" using assms(2,3) by (simp add: splits_def)
  then have "x \<in> sensitiveKeys \<Longrightarrow> \<exists>y \<in> sensitiveKeys. splits readOnlyKeys S y x" by blast
  moreover have "x \<in> mistypedKeys \<Longrightarrow> \<exists>y \<in> mistypedKeys. S y x" using assms(2,3) by blast
  ultimately show ?thesis unfolding adapted_listed [OF assms(1)] using assms(2)
    by (auto simp: marks_def copies_def asListed_def retypeC_def demoteC_def sensitiveC_def)
qed

lemma shares_refl: "wf_heap p \<Longrightarrow> cview p y \<noteq> None \<Longrightarrow> shares p y y"
  using cview_None [of p y] by (simp add: shares_def)

section \<open>Properties\<close>

text \<open>An upstream that has what the tables name, with one schema behind every field.\<close>

definition exSchema :: Schema where
  "exSchema = \<lparr>sType = TypeInt, sOptional = True, sRequired = False, sComputed = False, sForceNew = False,
     sSensitive = False, sDefault = None, sDescription = []\<rparr>"

definition exFields :: "string list" where
  "exFields = map snd (entries phantomDefaultFields) @ map (fst \<circ> snd) (entries mistypedFields)
     @ map snd (entries routerReadOnlyFields) @ map snd (entries sensitiveFields)
     @ [MetaId, MetaResourcePath, sequenceField] @ map (snd \<circ> snd) generatedNames"

definition exResources :: "string list" where
  "exResources = map fst (entries phantomDefaultFields) @ map fst mistypedFields @ map fst routerReadOnlyFields @ map fst sensitiveFields
     @ injectedNameResources @ injectedCommentResources @ policyExpansionResources @ [moveItemsResource]
     @ nameIdentityResources @ commentIdentityResources @ factoryIdentityResources @ interfaceIdentityResources
     @ certificateRemovalResources @ map (fst \<circ> snd) generatedNames"

definition exResource :: "orderingRouter tfResource" where
  "exResource = \<lparr>tfSchema = fmap_of_list (map (\<lambda>f. (f, 0)) exFields), tfCreate = mem_create, tfRead = mem_read,
     tfUpdate = mem_update, tfDelete = mem_delete\<rparr>"

definition exUpstream :: "orderingRouter tfProvider" where
  "exUpstream = \<lparr>ResourcesMap = fmap_of_list (map (\<lambda>r. (r, exResource)) exResources),
     heap = fmap_of_list [(0, exSchema)], fresh = 1\<rparr>"

definition exVisits :: visits where
  "exVisits = \<lparr>vPhantom = phantomDefaultFields, vMistyped = mistypedFields, vReadOnly = routerReadOnlyFields,
     vSensitive = sensitiveFields\<rparr>"

lemma lookup_const: "fmlookup (fmap_of_list (map (\<lambda>x. (x, c)) xs)) x = (if x \<in> set xs then Some c else None)"
  by (induction xs) (simp_all add: fmlookup_of_list)

lemma resource_exUpstream: "fmlookup (ResourcesMap exUpstream) res = (if res \<in> set exResources then Some exResource else None)"
  unfolding exUpstream_def tfProvider.simps by (rule lookup_const)

lemma ptr_exUpstream: "ptr exUpstream x = (if fst x \<in> set exResources \<and> snd x \<in> set exFields then Some 0 else None)"
  unfolding ptr_def pointer_def resource_exUpstream by (simp add: exResource_def lookup_const del: fmlookup_of_list)

lemma exUpstream_wf: "wf_heap exUpstream"
  unfolding wf_heap_def ptr_exUpstream by (auto simp: exUpstream_def split: if_splits)

lemma entries_resources: "fst ` set (entries t) \<subseteq> fst ` set t"
  by (force simp: entries_def)

lemma exUpstream_complete: "complete exUpstream"
  unfolding offers_def
proof (intro conjI exUpstream_wf ballI)
  fix res assume "res \<in> needsResources"
  then have "res \<in> set exResources" unfolding needsResources_def exResources_def set_append set_map list.set by blast
  then show "fmlookup (ResourcesMap exUpstream) res \<noteq> None" by (simp add: resource_exUpstream)
next
  fix x assume "x \<in> needsFields"
  then have "fst x \<in> set exResources \<and> snd x \<in> set exFields"
    using entries_resources [of mistypedFields] entries_resources [of routerReadOnlyFields] entries_resources [of sensitiveFields]
    unfolding needsFields_def exResources_def exFields_def
    by (elim UnE) (force simp: mistypedKeys_def readOnlyKeys_def sensitiveKeys_def image_iff)+
  then show "ptr exUpstream x \<noteq> None" by (simp add: ptr_exUpstream)
qed

lemma exVisits_ok: "visits_ok exVisits"
  by (simp add: visits_ok_def exVisits_def)

text \<open>
  The providers start. When the upstream provider has every resource and field the tables name, both
  the provider code is generated from and the provider the controllers run are built without a panic,
  in whatever order the tables are visited.
\<close>

theorem providers_start:
  assumes "offers needsResources needsFields p" and "visits_ok v" and "visits_ok v'"
  shows "(\<exists>pr. providerForRuntime U idName v p = Inr pr) \<and> (\<exists>pg. providerForGeneration v' p = Inr pg)"
  using runtime_starts [OF assms(1,2)] generation_starts [OF assms(1,3)] by blast

text \<open>
  C8: the API matches the provider that serves it. Built from the same upstream, whichever fields share
  a schema and in whatever order the tables are visited, the provider used for generation and the one
  used at run time give every field the same type, mode and sensitivity; only the three fields that
  generation renames appear under their new name.
\<close>

theorem generation_matches_runtime:
  assumes "wf_heap p" and "visits_ok v" and "visits_ok v'"
    and "providerForRuntime U idName v p = Inr pr" and "providerForGeneration v' p = Inr pg"
  shows "cview pg x = (case map_of generatedNames x of
      Some y \<Rightarrow> cview pr y
    | None \<Rightarrow> (if x \<in> snd ` set generatedNames then None else cview pr x))"
proof -
  have "cview pr = adapted (shares p) (cview p)" using runtime_view [OF assms(4,1,2)] by blast
  then have "cview pg = asGenerated (cview pr)" using generation_view [OF assms(5,1,3)] by simp
  then show ?thesis by (simp only: asGenerated_def)
qed

text \<open>
  The adaptations take effect. In the provider the controllers run, every field listed as mistyped is
  a string, every field listed as read-only is computed and neither optional nor required, and every
  field listed as sensitive is sensitive, although later passes change the same schemas and upstream
  shares schemas between resources.
\<close>

theorem adaptations_reach:
  assumes "wf_heap p" and "visits_ok v" and "providerForRuntime U idName v p = Inr pr"
    and "x \<in> mistypedKeys \<union> readOnlyKeys \<union> sensitiveKeys"
  shows "\<exists>c. cview pr x = Some c \<and> asListed x c"
proof -
  note v = runtime_view [OF assms(3,1,2)]
  have "cview p x \<noteq> None" using v assms(4) by blast
  then have "\<exists>c. adapted (shares p) (cview p) x = Some c \<and> asListed x c"
    using assms(4) shares_refl [OF assms(1)] by (intro adapted_asListed)
  then show ?thesis using v by simp
qed

text \<open>Witnesses of \<open>providers_start\<close>, \<open>generation_matches_runtime\<close> and \<open>adaptations_reach\<close>.\<close>

theorem providers_start_witness:
  "(\<exists>pr. providerForRuntime mem_up 7 exVisits exUpstream = Inr pr) \<and> (\<exists>pg. providerForGeneration exVisits exUpstream = Inr pg)"
  using providers_start [OF exUpstream_complete exVisits_ok exVisits_ok, of mem_up 7] .

theorem generation_matches_runtime_witness:
  "\<exists>pr pg. providerForRuntime mem_up 7 exVisits exUpstream = Inr pr \<and> providerForGeneration exVisits exUpstream = Inr pg
     \<and> cview pg (''routeros_wifi_interworking'', ''three_gpp_info'') = cview pr (''routeros_wifi_interworking'', ''3gpp_info'')
     \<and> cview pg (''routeros_wifi_interworking'', ''3gpp_info'') = None
     \<and> cview pg (''routeros_ip_address'', ''vrf'') = cview pr (''routeros_ip_address'', ''vrf'')"
proof -
  obtain pr where pr: "providerForRuntime mem_up 7 exVisits exUpstream = Inr pr" using runtime_starts [OF exUpstream_complete exVisits_ok] by blast
  obtain pg where pg: "providerForGeneration exVisits exUpstream = Inr pg" using generation_starts [OF exUpstream_complete exVisits_ok] by blast
  note m = generation_matches_runtime [OF exUpstream_wf exVisits_ok exVisits_ok pr pg]
  show ?thesis using pr pg by (intro exI [of _ pr] exI [of _ pg]) (simp add: m generatedNames_def)
qed

theorem adaptations_reach_witness:
  "\<exists>pr c. providerForRuntime mem_up 7 exVisits exUpstream = Inr pr
     \<and> cview pr (''routeros_interface_macvlan'', ''loop_protect_status'') = Some c \<and> cType c = TypeString \<and> cComputed c"
proof -
  let ?x = "(''routeros_interface_macvlan'', ''loop_protect_status'')"
  obtain pr where pr: "providerForRuntime mem_up 7 exVisits exUpstream = Inr pr" using runtime_starts [OF exUpstream_complete exVisits_ok] by blast
  have in': "?x \<in> mistypedKeys" "?x \<in> readOnlyKeys"
    by (simp_all add: mistypedKeys_def readOnlyKeys_def entries_def mistypedFields_def routerReadOnlyFields_def)
  then have "?x \<in> mistypedKeys \<union> readOnlyKeys \<union> sensitiveKeys" by blast
  then obtain c where "cview pr ?x = Some c" "asListed ?x c" using adaptations_reach [OF exUpstream_wf exVisits_ok pr] by blast
  then show ?thesis using pr in' by (intro exI [of _ pr] exI [of _ c]) (simp add: asListed_def)
qed

end
