(* ===== verification/Go_Regexp.thy ===== *)
theory Go_Regexp
  imports Prelude
begin

text \<open>
  The regular expressions and the text functions of the probes under src/hack. Go's \<^verbatim>\<open>regexp\<close> prefers,
  among the matches that start leftmost, the one a backtracking search finds first: a matcher
  returns all the ways to match at a position, the preferred one first, as the rest of the text and the
  text of the last group.

  Texts are bytes; the patterns only name ASCII characters, and lower-casing is the ASCII one.
\<close>

section \<open>Text\<close>

definition ToLower :: "string \<Rightarrow> string" where
  "ToLower s = map (\<lambda>c. if 65 \<le> (of_char c :: nat) \<and> (of_char c :: nat) \<le> 90 then char_of (of_char c + 32 :: nat) else c) s"

definition spaces :: string where
  "spaces = [CHR 0x09, CHR 0x0A, CHR 0x0B, CHR 0x0C, CHR 0x0D, CHR 0x20]"

definition TrimSpace :: "string \<Rightarrow> string" where
  "TrimSpace s = rev (dropWhile (\<lambda>c. c \<in> set spaces) (rev (dropWhile (\<lambda>c. c \<in> set spaces) s)))"

text \<open>\<^verbatim>\<open>strings.Cut\<close>: the text around the first separator.\<close>

fun Cut :: "string \<Rightarrow> string \<Rightarrow> (string \<times> string) option" where
  "Cut [] sep = (if sep = [] then Some ([], []) else None)"
| "Cut (c # s) sep =
     (if HasPrefix (c # s) sep then Some ([], drop (length sep) (c # s))
      else map_option (\<lambda>(a, b). (c # a, b)) (Cut s sep))"

section \<open>Patterns\<close>

datatype re =
    One string
  | Not string
  | Lit string
  | Seq re re
  | Alt re re
  | Opt re
  | Star re
  | Rep nat re
  | Group re
  | Finish

type_synonym match = "string option \<times> string"

text \<open>
  Repetition as often as the text allows; an iteration that consumes nothing ends it. \<open>rounds\<close> is at most
  the length of the text.
\<close>

fun stars :: "(match \<Rightarrow> match list) \<Rightarrow> nat \<Rightarrow> match \<Rightarrow> match list" where
  "stars f 0 x = [x]"
| "stars f (Suc rounds) x =
     concat (map (stars f rounds) (filter (\<lambda>y. length (snd y) < length (snd x)) (f x))) @ [x]"

fun reps :: "(match \<Rightarrow> match list) \<Rightarrow> nat \<Rightarrow> match \<Rightarrow> match list" where
  "reps f 0 x = [x]"
| "reps f (Suc n) x = concat (map (reps f n) (f x))"

primrec ways :: "re \<Rightarrow> match \<Rightarrow> match list" where
  "ways (One cs) = (\<lambda>(g, s). case s of [] \<Rightarrow> [] | c # s' \<Rightarrow> if c \<in> set cs then [(g, s')] else [])"
| "ways (Not cs) = (\<lambda>(g, s). case s of [] \<Rightarrow> [] | c # s' \<Rightarrow> if c \<in> set cs then [] else [(g, s')])"
| "ways (Lit w) = (\<lambda>(g, s). if HasPrefix s w then [(g, drop (length w) s)] else [])"
| "ways (Seq a b) = (\<lambda>x. concat (map (ways b) (ways a x)))"
| "ways (Alt a b) = (\<lambda>x. ways a x @ ways b x)"
| "ways (Opt a) = (\<lambda>x. ways a x @ [x])"
| "ways (Star a) = (\<lambda>x. stars (ways a) (length (snd x)) x)"
| "ways (Rep n a) = (\<lambda>x. reps (ways a) n x)"
| "ways (Group a) = (\<lambda>(g, s). map (\<lambda>(_, s'). (Some (take (length s - length s') s), s')) (ways a (g, s)))"
| "ways Finish = (\<lambda>(g, s). if s = [] then [(g, s)] else [])"

definition Many :: "re \<Rightarrow> re" where
  "Many a = Seq a (Star a)"

definition seqs :: "re list \<Rightarrow> re" where
  "seqs rs = foldr Seq rs (Lit [])"

definition alts :: "string list \<Rightarrow> re" where
  "alts ws = foldr (\<lambda>w r. Alt (Lit w) r) (butlast ws) (Lit (last ws))"

text \<open>A pattern that begins with \<^verbatim>\<open>^\<close> is tried at the start only; the others at every position.\<close>

definition matchesAll :: "re \<Rightarrow> string \<Rightarrow> bool" where
  "matchesAll r s \<longleftrightarrow> ways (Seq r Finish) (None, s) \<noteq> []"

fun findGroup :: "re \<Rightarrow> string \<Rightarrow> string option" where
  "findGroup r [] = (case ways r (None, []) of [] \<Rightarrow> None | (g, _) # _ \<Rightarrow> g)"
| "findGroup r (c # s) =
     (case ways r (None, c # s) of
        [] \<Rightarrow> findGroup r s
      | (g, _) # _ \<Rightarrow> g)"

section \<open>What a match consumes\<close>

text \<open>The language of a pattern, as in the theory of regular expressions.\<close>

inductive lang :: "re \<Rightarrow> string \<Rightarrow> bool" where
  one: "c \<in> set cs \<Longrightarrow> lang (One cs) [c]"
| notin: "c \<notin> set cs \<Longrightarrow> lang (Not cs) [c]"
| lit: "lang (Lit w) w"
| seq: "lang a u \<Longrightarrow> lang b v \<Longrightarrow> lang (Seq a b) (u @ v)"
| alt1: "lang a u \<Longrightarrow> lang (Alt a b) u"
| alt2: "lang b u \<Longrightarrow> lang (Alt a b) u"
| opt0: "lang (Opt a) []"
| opt1: "lang a u \<Longrightarrow> lang (Opt a) u"
| star0: "lang (Star a) []"
| star1: "lang a u \<Longrightarrow> u \<noteq> [] \<Longrightarrow> lang (Star a) v \<Longrightarrow> lang (Star a) (u @ v)"
| rep0: "lang (Rep 0 a) []"
| rep1: "lang a u \<Longrightarrow> lang (Rep n a) v \<Longrightarrow> lang (Rep (Suc n) a) (u @ v)"
| group: "lang a u \<Longrightarrow> lang (Group a) u"

inductive_cases lang_OneE [elim!]: "lang (One cs) w"
inductive_cases lang_NotE [elim!]: "lang (Not cs) w"
inductive_cases lang_LitE [elim!]: "lang (Lit u) w"
inductive_cases lang_SeqE [elim!]: "lang (Seq a b) w"
inductive_cases lang_AltE [elim!]: "lang (Alt a b) w"
inductive_cases lang_OptE [elim!]: "lang (Opt a) w"
inductive_cases lang_StarE: "lang (Star a) w"
inductive_cases lang_RepE: "lang (Rep n a) w"
inductive_cases lang_GroupE [elim!]: "lang (Group a) w"

primrec plain :: "re \<Rightarrow> bool" where
  "plain (One cs) = True"
| "plain (Not cs) = True"
| "plain (Lit w) = True"
| "plain (Seq a b) = (plain a \<and> plain b)"
| "plain (Alt a b) = (plain a \<and> plain b)"
| "plain (Opt a) = plain a"
| "plain (Star a) = plain a"
| "plain (Rep n a) = plain a"
| "plain (Group a) = plain a"
| "plain Finish = False"

lemma stars_sound:
  assumes "\<And>x y. y \<in> set (f x) \<Longrightarrow> \<exists>u. snd x = u @ snd y \<and> lang a u" and "y \<in> set (stars f n x)"
  shows "\<exists>u. snd x = u @ snd y \<and> lang (Star a) u"
  using assms(2)
proof (induction n arbitrary: x)
  case 0
  then show ?case by (auto intro: star0)
next
  case (Suc n)
  then consider "y = x" | z where "z \<in> set (f x)" "length (snd z) < length (snd x)" "y \<in> set (stars f n z)" by auto
  then show ?case
  proof cases
    case 1
    then show ?thesis by (auto intro: star0)
  next
    case (2 z)
    obtain u where u: "snd x = u @ snd z" "lang a u" using assms(1) [OF 2(1)] by blast
    obtain v where v: "snd z = v @ snd y" "lang (Star a) v" using Suc.IH [OF 2(3)] by blast
    have "u \<noteq> []" using u 2(2) by auto
    then show ?thesis using u v star1 [of a u v] by auto
  qed
qed

lemma stars_complete:
  assumes "\<And>g u s. lang a u \<Longrightarrow> \<exists>g'. (g', s) \<in> set (f (g, u @ s))" and "lang (Star a) w" and "length w \<le> n"
  shows "\<exists>g'. (g', s) \<in> set (stars f n (g, w @ s))"
  using assms(2,3)
proof (induction n arbitrary: g w)
  case 0
  then show ?case by auto
next
  case (Suc n)
  consider "w = []" | u v where "w = u @ v" "lang a u" "u \<noteq> []" "lang (Star a) v"
    using Suc.prems(1) by (auto elim: lang_StarE)
  then show ?case
  proof cases
    case 1
    then show ?thesis by auto
  next
    case (2 u v)
    obtain g1 where g1: "(g1, v @ s) \<in> set (f (g, u @ v @ s))" using assms(1) [OF 2(2)] by blast
    have "length v \<le> n" using 2 Suc.prems(2) by (cases u) auto
    then obtain g2 where "(g2, s) \<in> set (stars f n (g1, v @ s))" using Suc.IH 2(4) by blast
    then show ?thesis using g1 2 by (intro exI [of _ g2]) (auto intro!: exI [of _ g1] exI [of _ "v @ s"])
  qed
qed

lemma reps_sound:
  assumes "\<And>x y. y \<in> set (f x) \<Longrightarrow> \<exists>u. snd x = u @ snd y \<and> lang a u" and "y \<in> set (reps f n x)"
  shows "\<exists>u. snd x = u @ snd y \<and> lang (Rep n a) u"
  using assms(2)
proof (induction n arbitrary: x)
  case 0
  then show ?case by (auto intro: rep0)
next
  case (Suc n)
  then obtain z where z: "z \<in> set (f x)" "y \<in> set (reps f n z)" by auto
  obtain u where "snd x = u @ snd z" "lang a u" using assms(1) [OF z(1)] by blast
  moreover obtain v where "snd z = v @ snd y" "lang (Rep n a) v" using Suc.IH [OF z(2)] by blast
  ultimately show ?case using rep1 [of a u n v] by auto
qed

lemma reps_complete:
  assumes "\<And>g u s. lang a u \<Longrightarrow> \<exists>g'. (g', s) \<in> set (f (g, u @ s))" and "lang (Rep n a) w"
  shows "\<exists>g'. (g', s) \<in> set (reps f n (g, w @ s))"
  using assms(2)
proof (induction n arbitrary: g w)
  case 0
  then show ?case by (auto elim: lang_RepE)
next
  case (Suc n)
  from Suc.prems obtain u v where uv: "w = u @ v" "lang a u" "lang (Rep n a) v" by (cases rule: lang_RepE) auto
  obtain g1 where "(g1, v @ s) \<in> set (f (g, u @ v @ s))" using assms(1) [OF uv(2)] by blast
  moreover obtain g2 where "(g2, s) \<in> set (reps f n (g1, v @ s))" using Suc.IH uv(3) by blast
  ultimately show ?case using uv(1) by auto
qed

lemma ways_sound: "plain r \<Longrightarrow> y \<in> set (ways r x) \<Longrightarrow> \<exists>u. snd x = u @ snd y \<and> lang r u"
proof (induction r arbitrary: x y)
  case (One cs)
  then show ?case by (cases x) (auto split: list.splits if_splits intro: one)
next
  case (Not cs)
  then show ?case by (cases x) (auto split: list.splits if_splits intro: notin)
next
  case (Lit w)
  then show ?case by (cases x) (auto split: if_splits dest!: HasPrefixD intro: lit)
next
  case (Seq a b)
  then obtain z where z: "z \<in> set (ways a x)" "y \<in> set (ways b z)" and p: "plain a" "plain b" by auto
  obtain u where "snd x = u @ snd z" "lang a u" using Seq.IH(1) [OF p(1) z(1)] by blast
  moreover obtain v where "snd z = v @ snd y" "lang b v" using Seq.IH(2) [OF p(2) z(2)] by blast
  ultimately show ?case using seq [of a u b v] by auto
next
  case (Star a)
  then show ?case using stars_sound [of "ways a" a y] by auto
next
  case (Rep n a)
  then show ?case using reps_sound [of "ways a" a y n] by auto
next
  case (Group a)
  then show ?case by (cases x) (force intro: group)
next
  case (Alt a b)
  then have p: "plain a" "plain b" and "y \<in> set (ways a x) \<or> y \<in> set (ways b x)" by auto
  then show ?case using Alt.IH(1) [OF p(1)] Alt.IH(2) [OF p(2)] alt1 [of a _ b] alt2 [of b _ a] by blast
next
  case (Opt a)
  then have p: "plain a" and "y \<in> set (ways a x) \<or> y = x" by auto
  then show ?case
  proof (elim disjE)
    assume "y = x"
    then show ?thesis by (intro exI [of _ "[]"]) (simp add: opt0)
  qed (use Opt.IH [OF p] opt1 [of a] in blast)
qed simp

lemma ways_complete: "plain r \<Longrightarrow> lang r u \<Longrightarrow> \<exists>g'. (g', s) \<in> set (ways r (g, u @ s))"
proof (induction r arbitrary: u s g)
  case (Seq a b)
  from Seq.prems(2) obtain v w where u: "u = v @ w" "lang a v" "lang b w" by auto
  obtain g1 where "(g1, w @ s) \<in> set (ways a (g, v @ w @ s))" using Seq.IH(1) Seq.prems(1) u(2) by force
  moreover obtain g2 where "(g2, s) \<in> set (ways b (g1, w @ s))" using Seq.IH(2) Seq.prems(1) u(3) by force
  ultimately show ?case using u(1) by auto
next
  case (Star a)
  then show ?case using stars_complete [of a "ways a" u "length (u @ s)"] by auto
next
  case (Rep n a)
  then show ?case using reps_complete [of a "ways a" n u] by auto
next
  case (Group a)
  then show ?case by force
qed (fastforce simp: HasPrefix_append)+

text \<open>The matcher decides the language, on the patterns that end with \<^verbatim>\<open>$\<close> and begin with \<^verbatim>\<open>^\<close>.\<close>

lemma matchesAll_lang: "plain r \<Longrightarrow> matchesAll r s \<longleftrightarrow> lang r s"
proof
  assume r: "plain r"
  show "lang r s" if m: "matchesAll r s"
  proof -
    have "\<exists>y \<in> set (ways r (None, s)). snd y = []"
      using m by (auto simp: matchesAll_def concat_eq_Nil_conv split: if_splits prod.splits) (metis snd_conv)
    then show ?thesis using ways_sound [OF r] by fastforce
  qed
  show "matchesAll r s" if l: "lang r s"
  proof -
    obtain g' where "(g', []) \<in> set (ways r (None, s @ []))" using ways_complete [OF r l] by blast
    then show ?thesis by (force simp: matchesAll_def concat_eq_Nil_conv)
  qed
qed

text \<open>The group a search returns is a stretch of the text.\<close>

lemma findGroup_case: "findGroup r s = Some w \<Longrightarrow> \<exists>pre s' rest. s = pre @ s' \<and> (Some w, rest) \<in> set (ways r (None, s'))"
proof (induction r s rule: findGroup.induct)
  case (1 r)
  then obtain rest where "(Some w, rest) \<in> set (ways r (None, []))" by (auto split: list.splits prod.splits)
  then show ?case by blast
next
  case (2 r c s)
  show ?case
  proof (cases "ways r (None, c # s)")
    case Nil
    then obtain pre s' rest where "s = pre @ s'" "(Some w, rest) \<in> set (ways r (None, s'))" using 2 by auto
    then show ?thesis by (intro exI [of _ "c # pre"] exI [of _ s'] exI [of _ rest]) simp
  next
    case (Cons y ys)
    then show ?thesis using 2(2) by (intro exI [of _ "[]"] exI [of _ "c # s"] exI [of _ "snd y"]) (cases y; auto)
  qed
qed

end
