(* ===== verification/Value_Probe.thy ===== *)
theory Value_Probe
  imports Go_Regexp Rest_Client Schema_IR Routeros_Parse "HOL-Library.Product_Lexorder"
begin

text \<open>
  src/hack/valueprobe/main.go: types for the read-only properties the console would not describe,
  inferred from the values a router returns. The gaps are the entries of kind unknown of the dump of
  src/hack/typedump; the verdicts are the observed types the IR builder reads.
\<close>

section \<open>Patterns\<close>

definition digits :: string where
  "digits = ''0123456789''"

definition hexDigits :: string where
  "hexDigits = ''0123456789abcdefABCDEF''"

definition reDuration :: re where
  "reDuration = Many (Group (Seq (Many (One digits)) (Group (alts [''ms'', ''w'', ''d'', ''h'', ''m'', ''s'']))))"

definition reDateTime :: re where
  "reDateTime = seqs [Rep 4 (One digits), Lit ''-'', Rep 2 (One digits), Lit ''-'', Rep 2 (One digits), Lit '' '',
     Rep 2 (One digits), Lit '':'', Rep 2 (One digits), Lit '':'', Rep 2 (One digits)]"

definition reInteger :: re where
  "reInteger = Seq (Opt (Lit ''-'')) (Many (One digits))"

definition reHex :: re where
  "reHex = seqs [Lit ''0'', One ''xX'', Many (One hexDigits)]"

definition reFloat :: re where
  "reFloat = seqs [Opt (Lit ''-''), Many (One digits), Lit ''.'', Many (One digits)]"

definition reMAC :: re where
  "reMAC = Seq (Rep 5 (Group (Seq (Rep 2 (One hexDigits)) (Lit '':'')))) (Rep 2 (One hexDigits))"

text \<open>\<^verbatim>\<open>\d{1,3}\<close> and \<^verbatim>\<open>\d{1,2}\<close> prefer the longer run.\<close>

definition upTo3 :: re where
  "upTo3 = Seq (One digits) (Opt (Seq (One digits) (Opt (One digits))))"

definition upTo2 :: re where
  "upTo2 = Seq (One digits) (Opt (One digits))"

definition reIPv4 :: re where
  "reIPv4 = seqs [Rep 3 (Group (Seq upTo3 (Lit ''.''))), upTo3, Opt (Group (Seq (Lit ''/'') upTo2))]"

definition classifyValue :: "string \<Rightarrow> string" where
  "classifyValue v =
     (if v = ''true'' \<or> v = ''false'' then ''boolean''
      else if matchesAll reDateTime v then ''date time''
      else if matchesAll reDuration v then ''time interval''
      else if matchesAll reHex v then ''hexadecimal number''
      else if matchesAll reInteger v then ''integer number''
      else if matchesAll reFloat v then ''decimal number''
      else if matchesAll reMAC v then ''MAC address''
      else if matchesAll reIPv4 v then ''IP address''
      else ''string value'')"

section \<open>The probe\<close>

definition isGap :: "argType \<Rightarrow> bool" where
  "isGap a \<longleftrightarrow> aKind a = ''unknown'' \<and> aAccess a = ''read-only'' \<and> aPath a \<noteq> []"

definition gapStep :: "argType \<Rightarrow> string list go_map \<Rightarrow> string list go_map" where
  "gapStep a gaps = (if isGap a then fmupd (aPath a) (lookup_default [] gaps (aPath a) @ [aArg a]) gaps else gaps)"

definition gapsOf :: "argType list \<Rightarrow> string list go_map" where
  "gapsOf types = fold gapStep types fmempty"

definition verdictsOf :: "string \<Rightarrow> string list \<Rightarrow> Record \<Rightarrow> observed list" where
  "verdictsOf path args rec =
     concat (map (\<lambda>arg. case fmlookup rec arg of
        None \<Rightarrow> []
      | Some v \<Rightarrow> if v = [] then [] else [\<lparr>oPath = path, oArg = arg, oType = classifyValue v, oSample = v\<rparr>]) args)"

fun probePaths ::
  "('h, 'd) transport_fn \<Rightarrow> 'h Client \<Rightarrow> string list go_map \<Rightarrow> string list \<Rightarrow> 'd \<Rightarrow> observed list \<times> 'd" where
  "probePaths Do c gaps [] d = ([], d)"
| "probePaths Do c gaps (path # paths) d =
     (case Get Do c (''/'' @ path) d of
        (Inl e, d1) \<Rightarrow> probePaths Do c gaps paths d1
      | (Inr rec, d1) \<Rightarrow>
          (case probePaths Do c gaps paths d1 of
             (vs, d2) \<Rightarrow> (verdictsOf path (lookup_default [] gaps path) rec @ vs, d2)))"

text \<open>The version, architecture and board the dump is stamped with.\<close>

definition stamp :: "('h, 'd) transport_fn \<Rightarrow> 'h Client \<Rightarrow> 'd \<Rightarrow> (string \<times> string \<times> string) \<times> 'd" where
  "stamp Do c d =
     (case Get Do c ''/system/resource'' d of
        (Inl e, d1) \<Rightarrow> ((''unknown'', [], []), d1)
      | (Inr res, d1) \<Rightarrow> ((Record_String res ''version'', Record_String res ''architecture-name'', Record_String res ''board-name''), d1))"

definition valueprobe :: "('h, 'd) transport_fn \<Rightarrow> 'h Client \<Rightarrow> argType list \<Rightarrow> 'd \<Rightarrow> observed artifact \<times> 'd" where
  "valueprobe Do c types d =
     (let gaps = gapsOf types
      in case stamp Do c d of
           ((version, arch, board), d1) \<Rightarrow>
             (case probePaths Do c gaps (sorted_keys gaps) d1 of
                (verdicts, d2) \<Rightarrow>
                  (\<lparr>arVersion = version, arArchitecture = arch, arGeneratedBy = ''hack/valueprobe'',
                    arEntries = sort_key (\<lambda>v. (oPath v, oArg v)) verdicts\<rparr>, d2)))"

section \<open>What the gaps are\<close>

lemma gaps_fold:
  "set (lookup_default [] (fold gapStep types g) p)
     = set (lookup_default [] g p) \<union> {aArg a | a. a \<in> set types \<and> isGap a \<and> aPath a = p}"
proof (induction types arbitrary: g)
  case (Cons a types)
  show ?case unfolding fold_simps comp_apply Cons.IH by (auto simp: gapStep_def lookup_default_def split: if_splits)
qed simp

lemma gaps_dom:
  "fmdom' (fold gapStep types g) = fmdom' g \<union> {aPath a | a. a \<in> set types \<and> isGap a}"
proof (induction types arbitrary: g)
  case (Cons a types)
  show ?case unfolding fold_simps comp_apply Cons.IH by (auto simp: gapStep_def split: if_splits)
qed simp

lemma probePaths_set:
  assumes "\<And>p d. Get Do c p d = (answer p, d)"
  shows "set (fst (probePaths Do c gaps paths d))
    = {v. oPath v \<in> set paths \<and> oArg v \<in> set (lookup_default [] gaps (oPath v)) \<and> oSample v \<noteq> []
         \<and> oType v = classifyValue (oSample v)
         \<and> (\<exists>rec. answer (''/'' @ oPath v) = Inr rec \<and> fmlookup rec (oArg v) = Some (oSample v))}"
proof (induction paths arbitrary: d)
  case (Cons p paths)
  have one: "set (verdictsOf p args rec) = {v. oPath v = p \<and> oArg v \<in> set args \<and> oSample v \<noteq> []
      \<and> oType v = classifyValue (oSample v) \<and> fmlookup rec (oArg v) = Some (oSample v)}" for args rec
    by (force simp: verdictsOf_def split: option.splits if_splits)
  show ?case
  proof (cases "answer (''/'' @ p)")
    case (Inl e)
    then show ?thesis using Cons by (auto simp: assms)
  next
    case (Inr rec)
    then have eq: "fst (probePaths Do c gaps (p # paths) d) = verdictsOf p (lookup_default [] gaps p) rec @ fst (probePaths Do c gaps paths d)"
      by (simp add: assms split: prod.split)
    show ?thesis unfolding eq set_append Cons.IH one using Inr by auto
  qed
qed simp

section \<open>What the types promise\<close>

lemma digit_chars: "list_all (\<lambda>n. (char_of n :: char) \<in> set digits) [48 ..< 58 :: nat]"
  by code_simp

lemma digits_iff: "c \<in> set digits \<longleftrightarrow> is_digit c"
proof
  assume "is_digit c"
  then have "(of_char c :: nat) \<in> set [48 ..< 58]" unfolding set_upt atLeastLessThan_iff is_digit_def Let_def by linarith
  then have "char_of (of_char c :: nat) \<in> set digits" using digit_chars unfolding list_all_iff by blast
  then show "c \<in> set digits" by simp
qed (auto simp: digits_def is_digit_def)

lemma lang_Star_digits: "lang (Star (One digits)) w \<longleftrightarrow> list_all is_digit w"
proof
  show "list_all is_digit w" if "lang (Star (One digits)) w"
    using that by (induction "Star (One digits)" w rule: lang.induct) (auto simp: digits_iff)
  show "lang (Star (One digits)) w" if "list_all is_digit w"
    using that
  proof (induction w)
    case (Cons c w)
    then have "lang (One digits) [c]" "lang (Star (One digits)) w" by (auto simp: digits_iff intro: one)
    then show ?case using star1 [of "One digits" "[c]" w] by simp
  qed (rule star0)
qed

lemma lang_digits: "lang (Many (One digits)) w \<longleftrightarrow> w \<noteq> [] \<and> list_all is_digit w"
proof
  show "lang (Many (One digits)) w" if "w \<noteq> [] \<and> list_all is_digit w"
    using that seq [of "One digits" "[hd w]" "Star (One digits)" "tl w"] one [of "hd w" digits] lang_Star_digits [of "tl w"]
    by (cases w) (auto simp: Many_def digits_iff)
qed (auto simp: Many_def lang_Star_digits digits_iff)

lemma lang_integer: "lang reInteger v \<longleftrightarrow> (\<exists>neg ds. ds \<noteq> [] \<and> list_all is_digit ds \<and> v = (if neg then CHR ''-'' # ds else ds))"
proof
  show "lang reInteger v" if i: "\<exists>neg ds. ds \<noteq> [] \<and> list_all is_digit ds \<and> v = (if neg then CHR ''-'' # ds else ds)"
  proof -
    obtain neg ds where d: "ds \<noteq> [] \<and> list_all is_digit ds" "v = (if neg then CHR ''-'' # ds else ds)" using i by blast
    note l = lang_digits [THEN iffD2, OF d(1)]
    have "lang (Opt (Lit ''-'')) (if neg then ''-'' else [])" by (simp add: opt0 opt1 lit)
    then have "lang reInteger ((if neg then ''-'' else []) @ ds)" unfolding reInteger_def using l by (rule seq)
    then show ?thesis using d(2) by (simp split: if_splits)
  qed
next
  assume "lang reInteger v"
  then obtain w where v: "v = w \<or> v = CHR ''-'' # w" and l: "lang (Many (One digits)) w" unfolding reInteger_def by fastforce
  from v show "\<exists>neg ds. ds \<noteq> [] \<and> list_all is_digit ds \<and> v = (if neg then CHR ''-'' # ds else ds)"
  proof
    assume "v = w"
    then show ?thesis using l lang_digits by (intro exI [of _ False] exI [of _ w]) simp
  next
    assume "v = CHR ''-'' # w"
    then show ?thesis using l lang_digits by (intro exI [of _ True] exI [of _ w]) simp
  qed
qed

definition durationTerm :: re where
  "durationTerm = Group (Seq (Many (One digits)) (Group (alts [''ms'', ''w'', ''d'', ''h'', ''m'', ''s''])))"

lemma lang_units: "lang (alts [''ms'', ''w'', ''d'', ''h'', ''m'', ''s'']) u \<longleftrightarrow> u \<in> dur_units"
proof
  show "lang (alts [''ms'', ''w'', ''d'', ''h'', ''m'', ''s'']) u" if "u \<in> dur_units"
    using that by (auto simp: alts_def intro!: lit intro: alt1 alt2 [OF alt1] alt2 [OF alt2 [OF alt1]]
        alt2 [OF alt2 [OF alt2 [OF alt1]]] alt2 [OF alt2 [OF alt2 [OF alt2 [OF alt1]]]] alt2 [OF alt2 [OF alt2 [OF alt2 [OF alt2]]]])
qed (auto simp: alts_def)

lemma lang_term: "lang durationTerm w \<longleftrightarrow> (\<exists>t. term_ok t \<and> w = fst t @ snd t)"
proof
  show "lang durationTerm w" if "\<exists>t. term_ok t \<and> w = fst t @ snd t"
    using that unfolding durationTerm_def
    by (auto intro!: group seq simp: lang_digits lang_units term_ok_def)
  show "\<exists>t. term_ok t \<and> w = fst t @ snd t" if "lang durationTerm w"
    using that unfolding durationTerm_def by (fastforce simp: lang_digits lang_units term_ok_def)
qed

lemma render_Cons: "render (t # ts) = (fst t @ snd t) @ render ts"
  by (cases t) (simp add: render_def)

lemma lang_terms: "lang (Star durationTerm) w \<longleftrightarrow> (\<exists>ts. list_all term_ok ts \<and> w = render ts)"
proof
  show "\<exists>ts. list_all term_ok ts \<and> w = render ts" if "lang (Star durationTerm) w"
    using that
  proof (induction "Star durationTerm" w rule: lang.induct)
    case star0
    show ?case by (intro exI [of _ "[]"]) (simp add: render_def)
  next
    case (star1 u v)
    then obtain t ts where "term_ok t" "u = fst t @ snd t" "list_all term_ok ts" "v = render ts" using lang_term by blast
    then show ?case by (intro exI [of _ "t # ts"]) (simp add: render_Cons)
  qed
  have "lang (Star durationTerm) (render ts)" if "list_all term_ok ts" for ts
    using that
  proof (induction ts)
    case Nil
    show ?case by (simp add: render_def star0)
  next
    case (Cons t ts)
    then have "lang durationTerm (fst t @ snd t)" "fst t @ snd t \<noteq> []" using lang_term by (auto simp: term_ok_def)
    then show ?case using star1 [of durationTerm "fst t @ snd t" "render ts"] Cons by (simp add: render_Cons)
  qed
  then show "lang (Star durationTerm) w" if "\<exists>ts. list_all term_ok ts \<and> w = render ts" using that by blast
qed

lemma lang_duration: "lang reDuration v \<longleftrightarrow> (\<exists>ts. ts \<noteq> [] \<and> list_all term_ok ts \<and> v = render ts)"
proof -
  have d: "reDuration = Seq durationTerm (Star durationTerm)" by (simp add: reDuration_def Many_def durationTerm_def)
  show ?thesis
  proof
    assume "lang reDuration v"
    then obtain t ts where "term_ok t" "list_all term_ok ts" "v = (fst t @ snd t) @ render ts"
      unfolding d using lang_term lang_terms by (auto 4 4)
    then show "\<exists>ts. ts \<noteq> [] \<and> list_all term_ok ts \<and> v = render ts"
      by (intro exI [of _ "t # ts"]) (simp add: render_Cons)
  next
    assume "\<exists>ts. ts \<noteq> [] \<and> list_all term_ok ts \<and> v = render ts"
    then obtain t ts where ts: "list_all term_ok (t # ts)" "v = render (t # ts)" by (metis neq_Nil_conv)
    have "lang durationTerm (fst t @ snd t)" by (rule lang_term [THEN iffD2], rule exI [of _ t]) (use ts(1) in simp)
    moreover have "lang (Star durationTerm) (render ts)" by (rule lang_terms [THEN iffD2]) (use ts(1) in auto)
    ultimately show "lang reDuration v" unfolding d ts(2) render_Cons by (rule seq)
  qed
qed

lemma plain_patterns: "plain reInteger" "plain reDuration"
  by (simp_all add: reInteger_def reDuration_def Many_def alts_def)

text \<open>How the generated code reads a run of digits.\<close>

lemma split_digits:
  assumes "list_all is_digit ds" shows "split ds = (ds, 10)" "split (CHR ''-'' # ds) = (CHR ''-'' # ds, 10)"
proof -
  have nth: "ds ! 1 \<noteq> CHR ''x'' \<and> ds ! 1 \<noteq> CHR ''X''" if "2 < length ds"
  proof -
    have "is_digit (ds ! 1)" using assms that by (simp add: list_all_length)
    then show ?thesis by (auto simp: is_digit_def)
  qed
  have "\<not> HasPrefix ds ''-''" using assms by (cases ds) (auto simp: HasPrefix_def is_digit_def)
  then show "split ds = (ds, 10)" using nth by (auto simp: split_def TrimPrefix_none Let_def)
  have "TrimPrefix (CHR ''-'' # ds) ''-'' = ds" using TrimPrefix_append [of "''-''" ds] by simp
  then show "split (CHR ''-'' # ds) = (CHR ''-'' # ds, 10)" using nth by (auto simp: split_def Let_def)
qed

lemma ParseInt_minus:
  assumes "list_all is_digit ds" and "ds \<noteq> []"
  shows "ParseInt (CHR ''-'' # ds) 10 = (if decimal ds \<le> 2 ^ 63 then Inr (- int (decimal ds)) else Inl ErrRange)"
  by (simp add: ParseInt_def ParseUint_decimal [OF assms] Let_def)

lemma parseInt_digits:
  assumes "ds \<noteq> []" and "list_all is_digit ds" and "n = (if neg then - int (decimal ds) else int (decimal ds))"
  shows "parseInt (if neg then CHR ''-'' # ds else ds) = (if in_int64 n then n else 0)"
  using assms split_digits [OF assms(2)]
  by (cases neg) (auto simp: parseInt_scalar Int_scalar_def ParseInt_minus ParseInt_decimal in_int64_def)

lemma classify_boolean: "classifyValue v = ''boolean'' \<longleftrightarrow> v = ''true'' \<or> v = ''false''"
  by (auto simp: classifyValue_def)

lemma classify_interval: "classifyValue v = ''time interval'' \<Longrightarrow> lang reDuration v"
  using matchesAll_lang [OF plain_patterns(2)] by (auto simp: classifyValue_def split: if_splits)

lemma classify_integer: "classifyValue v = ''integer number'' \<Longrightarrow> lang reInteger v"
  using matchesAll_lang [OF plain_patterns(1)] by (auto simp: classifyValue_def split: if_splits)

section \<open>Properties\<close>

text \<open>
  An observed type reads its sample. A value observed as an interval is a sequence of terms, and the
  generated code reads it as their sum whenever each count fits 63 bits; one observed as an integer is read
  as the number it spells whenever that fits 64 bits, and as zero otherwise; one observed as a boolean
  is read as a boolean.
\<close>

theorem observed_type_reads:
  "(classifyValue v = ''time interval'' \<longrightarrow>
      (\<exists>ts. ts \<noteq> [] \<and> list_all term_ok ts \<and> v = render ts
        \<and> ((\<forall>t \<in> set ts. decimal (fst t) < 2 ^ 63) \<longrightarrow> parseDuration v = wrap64 (total_of ts))))
   \<and> (classifyValue v = ''integer number'' \<longrightarrow>
      (\<exists>neg ds n. ds \<noteq> [] \<and> list_all is_digit ds \<and> v = (if neg then CHR ''-'' # ds else ds)
        \<and> n = (if neg then - int (decimal ds) else int (decimal ds)) \<and> parseInt v = (if in_int64 n then n else 0)))
   \<and> (classifyValue v = ''boolean'' \<longrightarrow> (v = ''true'' \<or> v = ''false'') \<and> (fmlookup r k = Some v \<longrightarrow> parseBool r k = (v = ''true'')))"
proof (intro conjI impI)
  assume "classifyValue v = ''time interval''"
  then obtain ts where ts: "ts \<noteq> []" "list_all term_ok ts" "v = render ts" using classify_interval lang_duration by blast
  have "parseDuration v = wrap64 (total_of ts)" if "\<forall>t \<in> set ts. decimal (fst t) < 2 ^ 63"
    unfolding parseDuration_scalar ts(3) Duration_render [OF ts(2) that] by simp
  then show "\<exists>ts. ts \<noteq> [] \<and> list_all term_ok ts \<and> v = render ts
      \<and> ((\<forall>t \<in> set ts. decimal (fst t) < 2 ^ 63) \<longrightarrow> parseDuration v = wrap64 (total_of ts))" using ts by blast
next
  assume "classifyValue v = ''integer number''"
  then obtain neg ds where d: "ds \<noteq> []" "list_all is_digit ds" "v = (if neg then CHR ''-'' # ds else ds)"
    using classify_integer lang_integer by blast
  note p = parseInt_digits [OF d(1,2) refl, of neg]
  show "\<exists>neg ds n. ds \<noteq> [] \<and> list_all is_digit ds \<and> v = (if neg then CHR ''-'' # ds else ds)
      \<and> n = (if neg then - int (decimal ds) else int (decimal ds)) \<and> parseInt v = (if in_int64 n then n else 0)"
    using d p by blast
next
  assume "classifyValue v = ''boolean''"
  then show b: "v = ''true'' \<or> v = ''false''" by (simp add: classify_boolean)
  assume "fmlookup r k = Some v"
  moreover have "EqualFold ''true'' ''true''" "\<not> EqualFold ''false'' ''true''" "\<not> EqualFold ''false'' ''yes''" by code_simp+
  ultimately show "parseBool r k = (v = ''true'')" using b by (auto simp: parseBool_def)
qed

text \<open>
  An integer too long for 64 bits is observed as an integer number, which the generator types as int64; the
  generated code then reads it as zero.
\<close>

theorem observed_integer_silent_zero:
  "classifyValue ''9223372036854775808'' = ''integer number'' \<and> parseInt ''9223372036854775808'' = 0"
proof
  show "classifyValue ''9223372036854775808'' = ''integer number''" by code_simp
  have "parseInt ''9223372036854775808'' = (if in_int64 9223372036854775808 then 9223372036854775808 else 0)"
    using parseInt_digits [of "''9223372036854775808''" 9223372036854775808 False] by (simp add: is_digit_def decimal_def)
  then show "parseInt ''9223372036854775808'' = 0" by (simp add: in_int64_def)
qed

text \<open>
  The probe reports exactly the evidence there is. On a device whose answers do not depend on the probe,
  the verdicts are the values of the gaps that a menu returned and that are not empty, each under the type its value
  is evidence for; an absent menu, an absent field or an empty value gives none.
\<close>

theorem valueprobe_exact:
  assumes "\<And>p d. Get Do c p d = (answer p, d)"
  shows "set (arEntries (fst (valueprobe Do c types d)))
    = {v. (\<exists>a \<in> set types. isGap a \<and> aPath a = oPath v \<and> aArg a = oArg v) \<and> oSample v \<noteq> []
         \<and> oType v = classifyValue (oSample v)
         \<and> (\<exists>rec. answer (''/'' @ oPath v) = Inr rec \<and> fmlookup rec (oArg v) = Some (oSample v))}"
proof -
  have e: "set (arEntries (fst (valueprobe Do c types d))) = set (fst (probePaths Do c (gapsOf types) (sorted_keys (gapsOf types)) (snd (stamp Do c d))))"
    by (simp add: valueprobe_def Let_def split: prod.split)
  have g: "set (lookup_default [] (gapsOf types) p) = {aArg a | a. a \<in> set types \<and> isGap a \<and> aPath a = p}" for p
    using gaps_fold [of types fmempty p] by (simp add: gapsOf_def lookup_default_def)
  have k: "set (sorted_keys (gapsOf types)) = {aPath a | a. a \<in> set types \<and> isGap a}"
    using gaps_dom [of types fmempty] by (simp add: gapsOf_def set_sorted_keys)
  have "oPath v \<in> {aPath a | a. a \<in> set types \<and> isGap a} \<and> oArg v \<in> {aArg a | a. a \<in> set types \<and> isGap a \<and> aPath a = oPath v}
      \<longleftrightarrow> (\<exists>a \<in> set types. isGap a \<and> aPath a = oPath v \<and> aArg a = oArg v)" for v :: observed
    by (auto simp: eq_commute)
  then show ?thesis unfolding e probePaths_set [OF assms] g k conj_assoc [symmetric] by (intro Collect_cong) simp
qed

section \<open>Instances\<close>

definition exUptime :: Record where
  "exUptime = fmap_of_list [(''uptime'', ''1w2d'')]"

definition exAnswers :: "(unit, unit) transport_fn" where
  "exAnswers = (\<lambda>h req d. (Replied 200 (Doc (json_of_record exUptime)), d))"

definition exGap :: argType where
  "exGap = \<lparr>aPath = ''system/resource'', aArg = ''uptime'', aAccess = ''read-only'', aKind = ''unknown'', aValues = [],
     aTypes = [], aRanges = [], aCommand = ''get''\<rparr>"

lemma exUptime_utf8: "rec_utf8 exUptime"
  by code_simp

lemma ex_Get: "Get exAnswers echoClient p d = (Inr exUptime, d)"
  using decode_record [OF exUptime_utf8]
  by (simp add: Get_def do_def roundTrip_def exAnswers_def asError_record exUptime_utf8 del: decode.simps)

theorem observed_type_reads_witness:
  "classifyValue ''1w2d'' = ''time interval'' \<and> (\<exists>ts. ts \<noteq> [] \<and> list_all term_ok ts \<and> ''1w2d'' = render ts)"
proof -
  have "classifyValue ''1w2d'' = ''time interval''" by code_simp
  then show ?thesis using observed_type_reads [of "''1w2d''"] by blast
qed

theorem valueprobe_exact_witness:
  "\<lparr>oPath = ''system/resource'', oArg = ''uptime'', oType = ''time interval'', oSample = ''1w2d''\<rparr>
     \<in> set (arEntries (fst (valueprobe exAnswers echoClient [exGap] ())))"
proof -
  have "classifyValue ''1w2d'' = ''time interval''" by code_simp
  then show ?thesis
    unfolding valueprobe_exact [of exAnswers echoClient "\<lambda>p. Inr exUptime", OF ex_Get]
    by (simp add: exGap_def isGap_def exUptime_def)
qed

end
