(* ===== verification/Key_Probe.thy ===== *)
theory Key_Probe
  imports Go_Regexp Ordering_Router Go_Gen "HOL-Library.Product_Lexorder"
begin

text \<open>
  src/hack/keyprobe/main.go: which fields a disposable router enforces unique. For every menu of the IR
  that takes rows, the probe builds a row the router accepts, then creates two rows that agree in a
  candidate field and differ elsewhere, and reports what the router did about the second. It
  writes to the device, so what it may leave behind or take away matters as much as its verdicts; a reply
  may be lost after the router has done the work.

  The text of an error that is not a reply of the router is a parameter. Pauses have no effect
  on the model; the output on stderr is left out.
\<close>

section \<open>Values\<close>

definition marker :: string where
  "marker = ''keyprobe-delete-me''"

definition keyCandidates :: "string list" where
  "keyCandidates =
     [''name'', ''comment'', ''address'', ''dst-address'', ''src-address'', ''interface'',
      ''code'', ''vlan-id'', ''service'', ''host'', ''target'', ''prefix'', ''mac-address'']"

definition severing :: "string list" where
  "severing =
     [''/user'', ''/user/group'', ''/ip/service'', ''/ip/firewall/service-port'',
      ''/system/scheduler'', ''/system/script'', ''/system/watchdog'',
      ''/interface/wireless/security-profiles'']"

record kp_verdict =
  kpPath :: string
  kpField :: string
  kpVerdict :: string
  kpDetail :: string

definition menuField :: "ir_Menu \<Rightarrow> string \<Rightarrow> ir_Field option" where
  "menuField m name = find (\<lambda>f. fName f = name) (irFields m)"

definition writableField :: "ir_Menu \<Rightarrow> string \<Rightarrow> ir_Field option" where
  "writableField m name = (case menuField m name of Some f \<Rightarrow> if fAccess f = Writable then Some f else None | None \<Rightarrow> None)"

text \<open>The first range with two bounds that parse, in order.\<close>

fun bounds :: "string list \<Rightarrow> int \<times> int" where
  "bounds [] = (1, 0)"
| "bounds (r # rs) =
     (case Cut r ''..'' of
        None \<Rightarrow> bounds rs
      | Some (a, b) \<Rightarrow>
          (case (ParseInt (TrimSpace a) 10, ParseInt (TrimSpace b) 10) of
             (Inr x, Inr y) \<Rightarrow> if y \<le> x then bounds rs else (x, y)
           | _ \<Rightarrow> bounds rs))"

definition inRange :: "ir_Field \<Rightarrow> nat \<Rightarrow> int" where
  "inRange f n =
     (case bounds (fRanges f) of
        (lo, hi) \<Rightarrow>
          let v = wrap64 (lo + int n);
              v' = (if hi > lo \<and> v > hi then hi else v)
          in if v' = 0 \<and> hi > 0 then 1 else v')"

definition usableValue :: "string \<Rightarrow> bool" where
  "usableValue v \<longleftrightarrow> \<not> (v = [] \<or> HasPrefix v ''!'' \<or> v = ''none'' \<or> v = ''no'')"

definition twoDigits :: "nat \<Rightarrow> string" where
  "twoDigits n = (if n < 10 then CHR ''0'' # show_nat n else show_nat n)"

definition typedValue :: "ir_Field \<Rightarrow> nat \<Rightarrow> string" where
  "typedValue f n =
     (let t = ToLower (fType f)
      in if Contains t ''ipv6'' then ''2001:db8:'' @ show_nat (n + 1) @ ''::1''
         else if Contains t ''ip address'' \<and> Contains t ''prefix'' then ''192.0.2.'' @ show_nat (1 + n * 4) @ ''/30''
         else if Contains t ''ip address'' then ''192.0.2.'' @ show_nat (1 + n)
         else if Contains t ''mac address'' then ''02:00:00:00:00:'' @ twoDigits (n + 1)
         else if Contains t ''time interval'' then show_nat (n + 1) @ ''m''
         else if Contains t ''hexadecimal'' then ''0x0'' @ show_nat (n + 1)
         else if Contains t ''integer number'' \<or> Contains t ''integer value'' then FormatInt (inRange f n)
         else ''keyprobe'' @ show_nat (n + 1))"

definition synthValue :: "ir_Field \<Rightarrow> nat \<Rightarrow> string" where
  "synthValue f n =
     (if fBool f then ''no''
      else (let vals = filter usableValue (fValues f)
            in if vals \<noteq> [] then vals ! (n mod length vals) else typedValue f n))"

definition marked :: "nat \<Rightarrow> string" where
  "marked n = marker @ ''-'' @ show_nat n"

definition seedCandidates :: "ir_Menu \<Rightarrow> nat \<Rightarrow> Record" where
  "seedCandidates m n =
     fold (\<lambda>name row. case writableField m name of Some f \<Rightarrow> fmupd name (synthValue f n) row | None \<Rightarrow> row) keyCandidates fmempty"

definition seed :: "ir_Menu \<Rightarrow> nat \<Rightarrow> Record" where
  "seed m n =
     (let row = seedCandidates m n;
          row1 = (if writableField m ''disabled'' \<noteq> None then fmupd ''disabled'' ''yes'' row else row)
      in if writableField m ''comment'' \<noteq> None then fmupd ''comment'' (marked n) row1 else row1)"

definition varied :: "ir_Menu \<Rightarrow> string \<Rightarrow> string \<Rightarrow> string \<Rightarrow> string" where
  "varied m keep name v =
     (if name = keep \<or> name = ''disabled'' then v
      else (case menuField m name of None \<Rightarrow> v | Some f \<Rightarrow> synthValue f 1))"

definition vary :: "ir_Menu \<Rightarrow> Record \<Rightarrow> string \<Rightarrow> Record" where
  "vary m base keep =
     (let out = fmmap_keys (varied m keep) base
      in if keep \<noteq> ''comment'' \<and> writableField m ''comment'' \<noteq> None then fmupd ''comment'' (marked 1) out else out)"

section \<open>Requests\<close>

definition cmpDetail :: "Error \<Rightarrow> string" where
  "cmpDetail e =
     (if errDetail e \<noteq> [] then errDetail e
      else if errMessage e \<noteq> [] then errMessage e
      else FormatInt (errStatus e))"

fun asRouter :: "error \<Rightarrow> Error option" where
  "asRouter (Router e) = Some e"
| "asRouter _ = None"

definition detailOf :: "(error \<Rightarrow> string) \<Rightarrow> error \<Rightarrow> string" where
  "detailOf errText err = (case asRouter err of Some e \<Rightarrow> cmpDetail e | None \<Rightarrow> errText err)"

definition transient :: "error \<Rightarrow> bool" where
  "transient err = (case asRouter err of Some e \<Rightarrow> Contains (ToLower (cmpDetail e)) ''interrupted'' | None \<Rightarrow> True)"

definition sentMatches :: "Record \<Rightarrow> Record \<Rightarrow> bool" where
  "sentMatches row r \<longleftrightarrow>
     list_all (\<lambda>k. case fmlookup row k of None \<Rightarrow> True | Some want \<Rightarrow> map_get r k = want) [''name'', ''comment'']
     \<and> (map_get row ''name'' \<noteq> [] \<or> map_get row ''comment'' \<noteq> [])"

definition findRow :: "('h, 'd) transport_fn \<Rightarrow> 'h Client \<Rightarrow> string \<Rightarrow> Record \<Rightarrow> 'd \<Rightarrow> string \<times> 'd" where
  "findRow Do c path row d =
     (case List Do c path [] d of
        (Inl e, d1) \<Rightarrow> ([], d1)
      | (Inr rows, d1) \<Rightarrow> ((case find (sentMatches row) rows of None \<Rightarrow> [] | Some r \<Rightarrow> Record_ID r), d1))"

text \<open>\<^verbatim>\<open>attempts\<close> counts down from three; without an attempt the loop returns the empty id and a nil error.\<close>

fun createLoop ::
  "('h, 'd) transport_fn \<Rightarrow> 'h Client \<Rightarrow> string \<Rightarrow> Record \<Rightarrow> nat \<Rightarrow> error option \<Rightarrow> 'd \<Rightarrow> (error + string) \<times> 'd" where
  "createLoop Do c path row 0 lastErr d = ((case lastErr of None \<Rightarrow> Inr [] | Some e \<Rightarrow> Inl e), d)"
| "createLoop Do c path row (Suc attempts) lastErr d =
     (case Create Do c path row d of
        (Inr created, d1) \<Rightarrow> (Inr (Record_ID created), d1)
      | (Inl err, d1) \<Rightarrow>
          if \<not> transient err then (Inl err, d1)
          else (case findRow Do c path row d1 of
                  (rid, d2) \<Rightarrow> if rid \<noteq> [] then (Inr rid, d2) else createLoop Do c path row attempts (Some err) d2))"

definition kp_create :: "('h, 'd) transport_fn \<Rightarrow> 'h Client \<Rightarrow> string \<Rightarrow> Record \<Rightarrow> 'd \<Rightarrow> (error + string) \<times> 'd" where
  "kp_create Do c path row d = createLoop Do c path row 3 None d"

fun delLoop :: "('h, 'd) transport_fn \<Rightarrow> 'h Client \<Rightarrow> string \<Rightarrow> string \<Rightarrow> nat \<Rightarrow> 'd \<Rightarrow> 'd" where
  "delLoop Do c path rid 0 d = d"
| "delLoop Do c path rid (Suc attempts) d =
     (case Delete Do c path rid d of
        (Inr _, d1) \<Rightarrow> d1
      | (Inl err, d1) \<Rightarrow>
          if Is_NotFound err \<or> (case asRouter err of Some e \<Rightarrow> errStatus e = 404 | None \<Rightarrow> False) then d1
          else delLoop Do c path rid attempts d1)"

definition kp_del :: "('h, 'd) transport_fn \<Rightarrow> 'h Client \<Rightarrow> string \<Rightarrow> string \<Rightarrow> 'd \<Rightarrow> 'd" where
  "kp_del Do c path rid d = (if rid = [] then d else delLoop Do c path rid 4 d)"

definition ours :: "Record \<Rightarrow> bool" where
  "ours r \<longleftrightarrow> Contains (map_get r ''name'') ''keyprobe'' \<or> Contains (map_get r ''comment'') marker"

definition sweep :: "('h, 'd) transport_fn \<Rightarrow> 'h Client \<Rightarrow> string \<Rightarrow> 'd \<Rightarrow> 'd" where
  "sweep Do c path d =
     (case List Do c path [] d of
        (Inl e, d1) \<Rightarrow> d1
      | (Inr rows, d1) \<Rightarrow> fold (\<lambda>r. kp_del Do c path (Record_ID r)) (filter ours rows) d1)"

section \<open>Building a row\<close>

definition wordStart :: string where
  "wordStart = ''abcdefghijklmnopqrstuvwxyz0123456789''"

definition wordChars :: string where
  "wordChars = ''abcdefghijklmnopqrstuvwxyz0123456789._-''"

definition fieldWord :: re where
  "fieldWord = Group (Seq (One wordStart) (Star (One wordChars)))"

text \<open>The white space of \<^verbatim>\<open>\s\<close>, and the three quotes.\<close>

definition blank :: re where
  "blank = One [CHR 0x09, CHR 0x0A, CHR 0x0C, CHR 0x0D, CHR 0x20]"

definition quote :: re where
  "quote = Opt (One [CHR 0x22, CHR 0x27, CHR 0x60])"

definition missingRe :: "re list" where
  "missingRe =
     [seqs [Lit ''='', fieldWord, Lit ''=''],
      seqs [alts [''missing'', ''required'', ''mandatory''], Many blank,
        Opt (seqs [Lit ''value'', Many blank, Lit ''for'', Many blank]),
        Opt (seqs [Lit ''required'', Many blank]),
        Opt (alts [''argument'', ''parameter'', ''property'', ''field'']),
        Star blank, quote, fieldWord, quote]]"

fun firstGroup :: "re list \<Rightarrow> string \<Rightarrow> string" where
  "firstGroup [] detail = []"
| "firstGroup (r # rs) detail = (case findGroup r detail of Some w \<Rightarrow> w | None \<Rightarrow> firstGroup rs detail)"

definition missingField :: "string \<Rightarrow> string" where
  "missingField detail = firstGroup missingRe detail"

fun buildLoop ::
  "(error \<Rightarrow> string) \<Rightarrow> ('h, 'd) transport_fn \<Rightarrow> 'h Client \<Rightarrow> ir_Menu \<Rightarrow> nat \<Rightarrow> Record \<Rightarrow> string \<Rightarrow> 'd
   \<Rightarrow> (Record option \<times> string) \<times> 'd" where
  "buildLoop errText Do c m 0 row lastWords d = ((None, lastWords), d)"
| "buildLoop errText Do c m (Suc attempts) row lastWords d =
     (case kp_create Do c (irPath m) row d of
        (Inr rid, d1) \<Rightarrow> ((Some row, []), kp_del Do c (irPath m) rid d1)
      | (Inl err, d1) \<Rightarrow>
          (case asRouter err of
             None \<Rightarrow> ((None, errText err), d1)
           | Some e \<Rightarrow>
               (let said = cmpDetail e; field = missingField (ToLower said)
                in if field = [] then ((None, said), d1)
                   else if field |\<in>| fmdom row then ((None, said), d1)
                   else (case menuField m field of
                           None \<Rightarrow> ((None, said @ '' (the router wants '' @ field @ '', which the IR does not list)''), d1)
                         | Some f \<Rightarrow> buildLoop errText Do c m attempts (fmupd field (synthValue f 0) row) said d1))))"

definition buildable ::
  "(error \<Rightarrow> string) \<Rightarrow> ('h, 'd) transport_fn \<Rightarrow> 'h Client \<Rightarrow> nat \<Rightarrow> ir_Menu \<Rightarrow> 'd \<Rightarrow> (Record option \<times> string) \<times> 'd" where
  "buildable errText Do c maxFill m d = buildLoop errText Do c m maxFill (seed m 0) [] d"

section \<open>The test of a field\<close>

definition duplicateish :: "string \<Rightarrow> bool" where
  "duplicateish low \<longleftrightarrow> list_ex (Contains low) [''already'', ''exists'', ''duplicate'', ''unique'', ''in use'']"

definition uniqueness ::
  "(error \<Rightarrow> string) \<Rightarrow> ('h, 'd) transport_fn \<Rightarrow> 'h Client \<Rightarrow> ir_Menu \<Rightarrow> Record \<Rightarrow> ir_Field \<Rightarrow> 'd \<Rightarrow> kp_verdict \<times> 'd" where
  "uniqueness errText Do c m base f d =
     (let path = irPath m;
          verdict = (\<lambda>v detail. \<lparr>kpPath = path, kpField = fName f, kpVerdict = v, kpDetail = detail\<rparr>);
          second = vary m base (fName f)
      in case kp_create Do c path base d of
           (Inl err, d1) \<Rightarrow> (verdict ''UNPROBED'' (''first create: '' @ detailOf errText err), d1)
         | (Inr firstID, d1) \<Rightarrow>
             (case kp_create Do c path second d1 of
                (Inr dupID, d2) \<Rightarrow>
                  (verdict ''DUPLICATE'' [], kp_del Do c path dupID (kp_del Do c path firstID d2))
              | (Inl err, d2) \<Rightarrow>
                  (let detail = detailOf errText err; low = ToLower detail
                   in (verdict (if duplicateish low \<and> Contains low (ToLower (fName f)) then ''UNIQUE'' else ''AMBIGUOUS'') detail,
                       kp_del Do c path firstID d2))))"

section \<open>A menu and the whole IR\<close>

fun testLoop ::
  "(error \<Rightarrow> string) \<Rightarrow> ('h, 'd) transport_fn \<Rightarrow> 'h Client \<Rightarrow> ir_Menu \<Rightarrow> Record \<Rightarrow> string list \<Rightarrow> 'd \<Rightarrow> kp_verdict list \<times> 'd" where
  "testLoop errText Do c m row [] d = ([], d)"
| "testLoop errText Do c m row (name # names) d =
     (case writableField m name of
        None \<Rightarrow> testLoop errText Do c m row names d
      | Some f \<Rightarrow>
          if name |\<notin>| fmdom row then testLoop errText Do c m row names d
          else (case uniqueness errText Do c m row f d of
                  (v, d1) \<Rightarrow> (case testLoop errText Do c m row names d1 of (vs, d2) \<Rightarrow> (v # vs, d2))))"

definition sweepMenu :: "('h, 'd) transport_fn \<Rightarrow> 'h Client \<Rightarrow> string \<Rightarrow> 'd \<Rightarrow> 'd" where
  "sweepMenu Do c path d =
     (let d1 = sweep Do c path d
      in if HasPrefix path ''/interface/'' then sweep Do c ''/interface'' d1 else d1)"

definition probeMenu ::
  "(error \<Rightarrow> string) \<Rightarrow> ('h, 'd) transport_fn \<Rightarrow> 'h Client \<Rightarrow> nat \<Rightarrow> ir_Menu \<Rightarrow> 'd \<Rightarrow> kp_verdict list \<times> 'd" where
  "probeMenu errText Do c maxFill m d =
     (let path = irPath m; verdict = (\<lambda>v detail. \<lparr>kpPath = path, kpField = [], kpVerdict = v, kpDetail = detail\<rparr>)
      in if path \<in> set severing then ([verdict ''SKIPPED'' ''writing here can cut the probe's own access''], d)
         else (case buildable errText Do c maxFill m (sweepMenu Do c path d) of
                 ((None, detail), d1) \<Rightarrow> ([verdict ''UNPROBED'' detail], sweep Do c path d1)
               | ((Some row, _), d1) \<Rightarrow>
                   (case testLoop errText Do c m row keyCandidates d1 of
                      (tested, d2) \<Rightarrow>
                        (tested @ (if tested = [] then [verdict ''NO-CANDIDATE'' ''a row was created but it carries none of the candidate fields''] else []),
                         sweepMenu Do c path d2))))"

definition probed :: "string \<Rightarrow> ir_Menu \<Rightarrow> bool" where
  "probed only m \<longleftrightarrow> Rows m \<and> irWritable m \<and> ''add'' \<in> set (Commands m) \<and> (only = [] \<or> irPath m = only)"

fun probeAll ::
  "(error \<Rightarrow> string) \<Rightarrow> ('h, 'd) transport_fn \<Rightarrow> 'h Client \<Rightarrow> nat \<Rightarrow> ir_Menu list \<Rightarrow> 'd \<Rightarrow> kp_verdict list \<times> 'd" where
  "probeAll errText Do c maxFill [] d = ([], d)"
| "probeAll errText Do c maxFill (m # ms) d =
     (case probeMenu errText Do c maxFill m d of
        (vs, d1) \<Rightarrow> (case probeAll errText Do c maxFill ms d1 of (vs', d2) \<Rightarrow> (vs @ vs', d2)))"

text \<open>\<^verbatim>\<open>sort.Slice\<close> by path and field; the order of equal keys is unspecified there and stable here.\<close>

definition keyprobe ::
  "(error \<Rightarrow> string) \<Rightarrow> ('h, 'd) transport_fn \<Rightarrow> 'h Client \<Rightarrow> nat \<Rightarrow> string \<Rightarrow> IR \<Rightarrow> 'd \<Rightarrow> kp_verdict list \<times> 'd" where
  "keyprobe errText Do c maxFill only ir d =
     (case probeAll errText Do c maxFill (filter (probed only) (Menus ir)) d of
        (out, d') \<Rightarrow> (sort_key (\<lambda>v. (kpPath v, kpField v)) out, d'))"


section \<open>What the probe sends\<close>

lemma Contains_iff: "Contains s sub \<longleftrightarrow> (\<exists>p q. s = p @ sub @ q)"
proof
  assume "Contains s sub"
  then obtain i where "take (length sub) (drop i s) = sub" by (auto simp: Contains_def list_ex_iff)
  then have "s = take i s @ sub @ drop (length sub) (drop i s)" by (metis append_take_drop_id)
  then show "\<exists>p q. s = p @ sub @ q" by blast
next
  assume "\<exists>p q. s = p @ sub @ q"
  then obtain p q where "s = p @ sub @ q" by blast
  then show "Contains s sub" by (auto simp: Contains_def list_ex_iff intro!: bexI [of _ "length p"])
qed

lemma Contains_trans: "Contains s t \<Longrightarrow> Contains t u \<Longrightarrow> Contains s u"
  unfolding Contains_iff by (metis append.assoc)

definition signed :: "string \<Rightarrow> bool" where
  "signed v \<longleftrightarrow> Contains v ''keyprobe''"

lemma signed_marker: "Contains v marker \<Longrightarrow> signed v" "signed (marked n)" "signed (''keyprobe'' @ w)"
proof -
  have m: "Contains marker ''keyprobe''" unfolding Contains_iff marker_def by (intro exI [of _ "[]"] exI [of _ "''-delete-me''"]) simp
  then show "Contains v marker \<Longrightarrow> signed v" unfolding signed_def using Contains_trans by blast
  have "Contains (marked n) marker" unfolding Contains_iff marked_def by (intro exI [of _ "[]"] exI [of _ "''-'' @ show_nat n"]) simp
  then show "signed (marked n)" unfolding signed_def using Contains_trans m by blast
  show "signed (''keyprobe'' @ w)" unfolding signed_def Contains_iff by (intro exI [of _ "[]"] exI [of _ w]) simp
qed

text \<open>The rows of others: neither the name nor the comment carries the signature of the probe.\<close>

definition foreign :: "Record \<Rightarrow> bool" where
  "foreign r \<longleftrightarrow> \<not> signed (map_get r ''name'') \<and> \<not> signed (map_get r ''comment'')"

text \<open>A field the IR says nothing about that would keep the probe from signing it.\<close>

definition freeText :: "ir_Field \<Rightarrow> bool" where
  "freeText f \<longleftrightarrow> \<not> fBool f \<and> \<not> list_ex usableValue (fValues f)
     \<and> \<not> list_ex (Contains (ToLower (fType f)))
          [''ipv6'', ''ip address'', ''mac address'', ''time interval'', ''hexadecimal'', ''integer number'', ''integer value'']"

definition freeNames :: "ir_Menu \<Rightarrow> bool" where
  "freeNames m \<longleftrightarrow> list_all (\<lambda>k. case menuField m k of None \<Rightarrow> True | Some f \<Rightarrow> freeText f) [''name'', ''comment'']"

definition signedRow :: "Record \<Rightarrow> bool" where
  "signedRow row \<longleftrightarrow> list_all (\<lambda>k. case fmlookup row k of None \<Rightarrow> True | Some v \<Rightarrow> signed v) [''name'', ''comment'']"

lemma freeText_value: "freeText f \<Longrightarrow> signed (synthValue f n)"
proof -
  assume f: "freeText f"
  then have "filter usableValue (fValues f) = []" by (auto simp: freeText_def list_ex_iff filter_empty_conv)
  then have "synthValue f n = ''keyprobe'' @ show_nat (n + 1)" using f by (simp add: synthValue_def typedValue_def freeText_def Let_def)
  then show ?thesis by (simp only: signed_marker(3))
qed

lemma free_signed: "freeNames m \<Longrightarrow> menuField m k = Some f \<Longrightarrow> k = ''name'' \<or> k = ''comment'' \<Longrightarrow> signed (synthValue f n)"
  by (auto simp: freeNames_def intro!: freeText_value)

lemma signedRow_iff: "signedRow row \<longleftrightarrow> (\<forall>k v. k = ''name'' \<or> k = ''comment'' \<longrightarrow> fmlookup row k = Some v \<longrightarrow> signed v)"
  by (auto simp: signedRow_def split: option.splits)

lemma signedRow_upd: "signedRow row \<Longrightarrow> (k = ''name'' \<or> k = ''comment'' \<Longrightarrow> signed v) \<Longrightarrow> signedRow (fmupd k v row)"
  by (auto simp: signedRow_iff)

lemma writable_menuField: "writableField m k = Some f \<Longrightarrow> menuField m k = Some f"
  by (auto simp: writableField_def split: option.splits if_splits)

lemma seed_fold_signed:
  assumes "freeNames m"
  shows "signedRow row \<Longrightarrow> signedRow (fold (\<lambda>name row. case writableField m name of Some f \<Rightarrow> fmupd name (synthValue f n) row | None \<Rightarrow> row) ns row)"
proof (induction ns arbitrary: row)
  case (Cons a ns)
  have "signedRow (case writableField m a of Some f \<Rightarrow> fmupd a (synthValue f n) row | None \<Rightarrow> row)"
    using Cons.prems free_signed [OF assms writable_menuField] by (auto split: option.splits intro!: signedRow_upd)
  then show ?case using Cons.IH by simp
qed simp

lemma seed_signed: "freeNames m \<Longrightarrow> signedRow (seed m n)"
  unfolding seed_def seedCandidates_def Let_def
  by (auto intro!: signedRow_upd seed_fold_signed signed_marker(2)) (simp_all add: signedRow_def)

lemma vary_signed:
  assumes "freeNames m" and "signedRow base" shows "signedRow (vary m base keep)"
proof -
  have "signedRow (fmmap_keys (varied m keep) base)"
    using assms(2) free_signed [OF assms(1)]
    by (auto simp: signedRow_iff varied_def split: option.splits)
  then show ?thesis unfolding vary_def Let_def by (auto intro!: signedRow_upd signed_marker(2))
qed

lemma vary_keeps: "fmlookup (vary m base keep) keep = fmlookup base keep"
proof -
  have "varied m keep keep = id" by (rule ext) (simp add: varied_def)
  then show ?thesis by (auto simp: vary_def Let_def option.map_id)
qed

lemma matching_not_foreign: "signedRow row \<Longrightarrow> sentMatches row r \<Longrightarrow> \<not> foreign r"
  unfolding signedRow_iff sentMatches_def foreign_def
  by (auto simp: lookup_default_def split: option.splits)

lemma ours_not_foreign: "ours r \<Longrightarrow> \<not> foreign r"
  using signed_marker(1) by (auto simp: ours_def foreign_def signed_def)

section \<open>A router that may lose replies\<close>

text \<open>
  What the probe relies on: the router of \<open>Menu_Apply\<close>, whose operations may fail before or after they took
  effect, and a reply that names the row it made.
\<close>

locale lossy_menu = router Do c path rows inv
  for Do :: "('h, 'd) transport_fn" and c :: "'h Client" and path :: string
    and rows :: "'d \<Rightarrow> Record list" and inv :: "'d \<Rightarrow> bool" +
  assumes create_names: "inv d \<Longrightarrow> Create Do c path w d = (Inr x, d') \<Longrightarrow> \<exists>row. rows d' = rows d @ [row] \<and> Record_ID x = Record_ID row"
begin

text \<open>The rows of \<open>X\<close>, all foreign, are there; \<open>harmless\<close> is an id none of them has.\<close>

definition spares :: "Record set \<Rightarrow> 'd \<Rightarrow> bool" where
  "spares X d \<longleftrightarrow> inv d \<and> X \<subseteq> set (rows d) \<and> (\<forall>r \<in> X. foreign r)"

abbreviation harmless :: "Record set \<Rightarrow> string \<Rightarrow> bool" where
  "harmless X rid \<equiv> rid \<notin> Record_ID ` X"

lemma same_id: "inv d \<Longrightarrow> r \<in> set (rows d) \<Longrightarrow> r' \<in> set (rows d) \<Longrightarrow> Record_ID r = Record_ID r' \<Longrightarrow> r = r'"
  using row_ids [of d] by (auto simp: distinct_map inj_on_def)

lemma not_foreign_harmless: "spares X d \<Longrightarrow> r \<in> set (rows d) \<Longrightarrow> \<not> foreign r \<Longrightarrow> harmless X (Record_ID r)"
  using same_id unfolding spares_def by (metis imageE subsetD)

lemma list_safe: "spares X d \<Longrightarrow> List Do c path [] d = (r, d') \<Longrightarrow> spares X d' \<and> (\<forall>rs. r = Inr rs \<longrightarrow> rs = rows d')"
  using list_reads [of d r d'] by (auto simp: spares_def)

lemma made_safe: "spares X d \<Longrightarrow> Create Do c path w d = (r, d') \<Longrightarrow> spares X d' \<and> (\<forall>x. r = Inr x \<longrightarrow> harmless X (Record_ID x))"
proof -
  assume s: "spares X d" and cr: "Create Do c path w d = (r, d')"
  have inv: "inv d" "inv d'" using s create_appends [of d w r d'] cr by (auto simp: spares_def)
  have rows: "set (rows d) \<subseteq> set (rows d')" using create_appends [OF inv(1) cr] by auto
  have "harmless X (Record_ID x)" if x: "r = Inr x" for x
  proof -
    obtain row where row: "rows d' = rows d @ [row]" "Record_ID x = Record_ID row" using create_names [OF inv(1) cr [unfolded x]] by blast
    then have "Record_ID row \<notin> Record_ID ` set (rows d)" using row_ids [OF inv(2)] by auto
    then show ?thesis using s row by (auto simp: spares_def)
  qed
  then show ?thesis using s rows inv by (auto simp: spares_def)
qed

lemma findRow_safe: "spares X d \<Longrightarrow> signedRow row \<Longrightarrow> findRow Do c path row d = (rid, d') \<Longrightarrow> spares X d' \<and> (rid = [] \<or> harmless X rid)"
proof -
  assume s: "spares X d" and row: "signedRow row" and f: "findRow Do c path row d = (rid, d')"
  obtain r d1 where l: "List Do c path [] d = (r, d1)" by (cases "List Do c path [] d")
  have d1: "d1 = d'" using f l by (auto simp: findRow_def split: sum.splits)
  note ls = list_safe [OF s l]
  show ?thesis
  proof (cases "rid = []")
    case False
    then obtain rs x where "r = Inr rs" "find (sentMatches row) rs = Some x" "rid = Record_ID x"
      using f l by (auto simp: findRow_def split: sum.splits option.splits)
    then have x: "x \<in> set (rows d')" "sentMatches row x" "rid = Record_ID x" using ls d1 by (auto simp: find_Some_iff)
    have "harmless X rid" using not_foreign_harmless [OF _ x(1) matching_not_foreign [OF row x(2)]] ls d1 x(3) by simp
    then show ?thesis using ls d1 by simp
  qed (use ls d1 in simp)
qed

lemma createLoop_safe:
  "spares X d \<Longrightarrow> signedRow row \<Longrightarrow> createLoop Do c path row n le d = (r, d') \<Longrightarrow>
     spares X d' \<and> (\<forall>rid. r = Inr rid \<longrightarrow> rid = [] \<or> harmless X rid)"
proof (induction n arbitrary: le d)
  case 0
  then show ?case by (auto split: option.splits)
next
  case (Suc n)
  obtain y d1 where cr: "Create Do c path row d = (y, d1)" by (cases "Create Do c path row d")
  note s1 = made_safe [OF Suc.prems(1) cr]
  obtain rid d2 where f: "findRow Do c path row d1 = (rid, d2)" by (cases "findRow Do c path row d1")
  have "spares X d1" using s1 by simp
  note s2 = findRow_safe [OF this Suc.prems(2) f]
  show ?case
  proof (cases y)
    case (Inl err)
    then show ?thesis using Suc.prems cr f s1 s2 Suc.IH [of d2 "Some err"] by (auto split: if_splits)
  next
    case (Inr x)
    then show ?thesis using Suc.prems cr s1 by auto
  qed
qed

lemmas kp_create_safe = createLoop_safe [of X d row 3 None for X d row, folded kp_create_def]

lemma delLoop_safe: "spares X d \<Longrightarrow> harmless X rid \<Longrightarrow> spares X (delLoop Do c path rid n d)"
proof (induction n arbitrary: d)
  case (Suc n)
  obtain y d1 where del: "Delete Do c path rid d = (y, d1)" by (cases "Delete Do c path rid d")
  have "spares X d1" using Suc.prems delete_removes [OF _ del] by (auto simp: spares_def)
  then show ?case using del Suc by (auto split: sum.splits)
qed simp

lemma kp_del_safe: "spares X d \<Longrightarrow> rid = [] \<or> harmless X rid \<Longrightarrow> spares X (kp_del Do c path rid d)"
  using delLoop_safe by (auto simp: kp_del_def)

lemma sweep_fold_safe:
  "spares X d \<Longrightarrow> \<forall>r \<in> set rs. harmless X (Record_ID r) \<Longrightarrow> spares X (fold (\<lambda>r. kp_del Do c path (Record_ID r)) rs d)"
  by (induction rs arbitrary: d) (auto simp: kp_del_safe)

lemma sweep_safe: "spares X d \<Longrightarrow> spares X (sweep Do c path d)"
proof -
  assume s: "spares X d"
  obtain r d1 where l: "List Do c path [] d = (r, d1)" by (cases "List Do c path [] d")
  note ls = list_safe [OF s l]
  show ?thesis
  proof (cases r)
    case (Inr rs)
    have "\<forall>r \<in> set (filter ours rs). harmless X (Record_ID r)"
      using ls Inr not_foreign_harmless ours_not_foreign by auto
    then show ?thesis using ls l Inr sweep_fold_safe [of X d1] by (simp add: sweep_def)
  qed (use ls l in \<open>simp add: sweep_def\<close>)
qed

lemma buildLoop_safe:
  assumes "irPath m = path" and "freeNames m"
  shows "spares X d \<Longrightarrow> signedRow row \<Longrightarrow> buildLoop errText Do c m n row lw d = ((ro, det), d') \<Longrightarrow>
     spares X d' \<and> (\<forall>row'. ro = Some row' \<longrightarrow> signedRow row')"
proof (induction n arbitrary: row lw d)
  case (Suc n)
  obtain y d1 where cr: "kp_create Do c path row d = (y, d1)" by (cases "kp_create Do c path row d")
  note s1 = kp_create_safe [OF Suc.prems(1,2) cr]
  show ?case
  proof (cases y)
    case (Inr rid)
    then show ?thesis using Suc.prems cr s1 assms(1) kp_del_safe by auto
  next
    case (Inl err)
    show ?thesis
    proof (cases "asRouter err")
      case None
      then show ?thesis using Suc.prems cr s1 Inl assms(1) by auto
    next
      case (Some e)
      show ?thesis
      proof (cases "menuField m (missingField (ToLower (cmpDetail e)))")
        case None
        then show ?thesis using Suc.prems cr s1 Inl Some assms(1) by (auto simp: Let_def split: if_splits)
      next
        case f: (Some f)
        have "signedRow (fmupd (missingField (ToLower (cmpDetail e))) (synthValue f 0) row)"
          using signedRow_upd [OF Suc.prems(2)] free_signed [OF assms(2) f] by blast
        then show ?thesis using Suc.prems cr s1 Inl Some f assms(1) Suc.IH [of d1] by (auto simp: Let_def split: if_splits)
      qed
    qed
  qed
qed auto

lemma uniqueness_safe:
  assumes "irPath m = path" and "freeNames m" and "spares X d" and "signedRow base"
  shows "spares X (snd (uniqueness errText Do c m base f d))"
proof -
  obtain y d1 where c1: "kp_create Do c path base d = (y, d1)" by (cases "kp_create Do c path base d")
  obtain z d2 where c2: "kp_create Do c path (vary m base (fName f)) d1 = (z, d2)" by (cases "kp_create Do c path (vary m base (fName f)) d1")
  note s1 = kp_create_safe [OF assms(3,4) c1]
  then have "spares X d1" by simp
  note s2 = kp_create_safe [OF this vary_signed [OF assms(2,4)] c2]
  show ?thesis using c1 c2 s1 s2 kp_del_safe
    by (cases y; cases z) (auto simp: uniqueness_def Let_def assms(1) intro!: kp_del_safe)
qed

lemma testLoop_safe:
  assumes "irPath m = path" and "freeNames m" and "signedRow row"
  shows "spares X d \<Longrightarrow> spares X (snd (testLoop errText Do c m row ns d))"
proof (induction ns arbitrary: d)
  case (Cons a ns)
  have "spares X (snd (testLoop errText Do c m row ns (snd (uniqueness errText Do c m row f d))))" for f
    by (rule Cons.IH [OF uniqueness_safe [OF assms(1,2) Cons.prems assms(3)]])
  then show ?case using Cons.IH [OF Cons.prems] by (simp split: option.split prod.split) (metis snd_conv)
qed simp

lemma probeMenu_safe:
  assumes "irPath m = path" and "freeNames m" and "\<not> HasPrefix path ''/interface/''" and "spares X d"
  shows "spares X (snd (probeMenu errText Do c k m d))"
proof -
  have s0: "spares X (sweepMenu Do c path d)" using sweep_safe [OF assms(4)] assms(3) by (simp add: sweepMenu_def Let_def)
  obtain ro det d1 where b: "buildable errText Do c k m (sweepMenu Do c path d) = ((ro, det), d1)"
    by (metis surj_pair)
  note s1 = buildLoop_safe [OF assms(1,2) s0 seed_signed [OF assms(2)] b [unfolded buildable_def]]
  show ?thesis
  proof (cases "path \<in> set severing")
    case False
    show ?thesis
    proof (cases ro)
      case None
      then show ?thesis using b s1 assms(1) False sweep_safe [of X d1] by (simp add: probeMenu_def Let_def)
    next
      case (Some row)
      have "spares X (snd (testLoop errText Do c m row keyCandidates d1))" using testLoop_safe [OF assms(1,2)] s1 Some by simp
      then have "spares X (sweepMenu Do c path (snd (testLoop errText Do c m row keyCandidates d1)))"
        using sweep_safe assms(3) by (simp add: sweepMenu_def Let_def)
      then show ?thesis using b Some assms(1) False by (cases "testLoop errText Do c m row keyCandidates d1") (simp add: probeMenu_def Let_def)
    qed
  qed (use assms in \<open>simp add: probeMenu_def Let_def\<close>)
qed

end

section \<open>A router that answers\<close>

text \<open>A refused create has no effect, and deleting a row that is there succeeds.\<close>

locale answering_menu = lossy_menu Do c path rows inv
  for Do :: "('h, 'd) transport_fn" and c :: "'h Client" and path :: string
    and rows :: "'d \<Rightarrow> Record list" and inv :: "'d \<Rightarrow> bool" +
  assumes refused: "inv d \<Longrightarrow> Create Do c path w d = (Inl e, d') \<Longrightarrow> rows d' = rows d"
    and deletes: "inv d \<Longrightarrow> i \<in> Record_ID ` set (rows d) \<Longrightarrow> Delete Do c path i d = (r, d') \<Longrightarrow>
      r = Inr () \<and> rows d' = filter (\<lambda>row. Record_ID row \<noteq> i) (rows d)"
begin

definition clean :: "'d \<Rightarrow> Record list \<Rightarrow> bool" where
  "clean d rs \<longleftrightarrow> inv d \<and> rows d = rs"

lemma create_outcome:
  assumes "inv d" and "Create Do c path w d = (r, d')"
  shows "inv d' \<and> (case r of Inl _ \<Rightarrow> rows d' = rows d | Inr _ \<Rightarrow> \<exists>x. rows d' = rows d @ [x])"
proof (cases r)
  case (Inl e)
  then show ?thesis using create_appends [OF assms] refused [OF assms(1) assms(2) [unfolded Inl]] by simp
next
  case (Inr x)
  then show ?thesis using create_appends [OF assms] create_names [OF assms(1) assms(2) [unfolded Inr]] by auto
qed

text \<open>A create adds a row, or recovers the id of a row of the probe's own, or changes nothing.\<close>

lemma createLoop_effect:
  "inv d \<Longrightarrow> signedRow row \<Longrightarrow> createLoop Do c path row n le d = (r, d') \<Longrightarrow>
     inv d' \<and> (case r of
         Inl e \<Rightarrow> rows d' = rows d
       | Inr rid \<Rightarrow> (\<exists>x. rows d' = rows d @ [x] \<and> Record_ID x = rid)
           \<or> rows d' = rows d \<and> (rid = [] \<or> (\<exists>x \<in> set (rows d). Record_ID x = rid \<and> \<not> foreign x)))"
proof (induction n arbitrary: le d)
  case 0
  then show ?case by (auto split: option.splits sum.splits)
next
  case (Suc n)
  obtain y d1 where cr: "Create Do c path row d = (y, d1)" by (cases "Create Do c path row d")
  have i1: "inv d1" using create_appends [OF Suc.prems(1) cr] by simp
  obtain l d2 where li: "List Do c path [] d1 = (l, d2)" by (cases "List Do c path [] d1")
  note lr = list_reads [OF i1 li]
  show ?case
  proof (cases y)
    case (Inr x)
    obtain row' where "rows d1 = rows d @ [row']" "Record_ID x = Record_ID row'"
      using create_names [OF Suc.prems(1) cr [unfolded Inr]] by blast
    moreover have "r = Inr (Record_ID x)" "d' = d1" using Suc.prems(3) cr Inr by simp_all
    ultimately show ?thesis using i1 by auto
  next
    case (Inl err)
    have r1: "rows d1 = rows d" using refused [OF Suc.prems(1)] cr Inl by simp
    obtain rid d3 where f: "findRow Do c path row d1 = (rid, d3)" by (cases "findRow Do c path row d1")
    have d3: "inv d3 \<and> rows d3 = rows d \<and> (rid = [] \<or> (\<exists>x \<in> set (rows d). Record_ID x = rid \<and> \<not> foreign x))"
      using f li lr r1 matching_not_foreign [OF Suc.prems(2)]
      by (auto simp: findRow_def find_Some_iff split: sum.splits option.splits)
    show ?thesis
    proof (cases "transient err \<and> rid = []")
      case True
      then have loop: "createLoop Do c path row n (Some err) d3 = (r, d')" using Suc.prems(3) cr f Inl by simp
      have d: "inv d3" "rows d3 = rows d" using d3 by simp_all
      show ?thesis using Suc.IH [OF d(1) Suc.prems(2) loop] unfolding d(2) .
    next
      case False
      then show ?thesis using Suc.prems(3) cr f i1 r1 Inl d3 by (auto split: if_splits)
    qed
  qed
qed

lemma del_present:
  assumes "inv d" and "rows d = as @ [x] @ bs" shows "clean (kp_del Do c path (Record_ID x) d) (as @ bs)"
proof -
  have ids: "distinct (map Record_ID (rows d))" "[] \<notin> Record_ID ` set (rows d)" using row_ids [OF assms(1)] by simp_all
  have x: "Record_ID x \<in> Record_ID ` set (rows d)" using assms(2) by simp
  obtain r d1 where del: "Delete Do c path (Record_ID x) d = (r, d1)" by (cases "Delete Do c path (Record_ID x) d")
  have "r = Inr ()" "rows d1 = filter (\<lambda>row. Record_ID row \<noteq> Record_ID x) (rows d)" using deletes [OF assms(1) x del] by simp_all
  moreover have "filter (\<lambda>row. Record_ID row \<noteq> Record_ID x) (rows d) = as @ bs"
  proof -
    have "\<forall>r \<in> set as. Record_ID r \<noteq> Record_ID x" "\<forall>r \<in> set bs. Record_ID r \<noteq> Record_ID x" using ids(1) assms(2) by (force simp: image_iff)+
    then show ?thesis unfolding assms(2) by simp
  qed
  moreover have "inv d1" using delete_removes [OF assms(1) del] by simp
  moreover have "Record_ID x \<noteq> []" using ids(2) x by force
  ultimately show ?thesis using del by (simp add: kp_del_def clean_def numeral_eq_Suc)
qed

lemma delLoop_absent: "inv d \<Longrightarrow> i \<notin> Record_ID ` set (rows d) \<Longrightarrow> clean (delLoop Do c path i n d) (rows d)"
proof (induction n arbitrary: d)
  case (Suc n)
  obtain r d1 where del: "Delete Do c path i d = (r, d1)" by (cases "Delete Do c path i d")
  have "filter (\<lambda>row. Record_ID row \<noteq> i) (rows d) = rows d" using Suc.prems(2) by (auto simp: filter_id_conv)
  then have "inv d1" "rows d1 = rows d" using delete_removes [OF Suc.prems(1) del] by auto
  then show ?case using del Suc.IH [of d1] Suc.prems(2) by (auto simp: clean_def split: sum.splits)
qed (simp add: clean_def)

lemma del_absent: "inv d \<Longrightarrow> i \<notin> Record_ID ` set (rows d) \<Longrightarrow> clean (kp_del Do c path i d) (rows d)"
  using delLoop_absent by (auto simp: kp_del_def clean_def)

lemma first_create:
  assumes "inv d" and "signedRow row" and "list_all foreign (rows d)" and "kp_create Do c path row d = (r, d')"
  shows "inv d' \<and> (case r of Inl e \<Rightarrow> rows d' = rows d
    | Inr rid \<Rightarrow> (\<exists>x. rows d' = rows d @ [x] \<and> Record_ID x = rid) \<or> rows d' = rows d \<and> rid = [])"
  using createLoop_effect [OF assms(1,2) assms(4) [unfolded kp_create_def]] assms(3)
  by (auto simp: list_all_iff split: sum.splits)

lemma id_absent: "inv d \<Longrightarrow> rows d = as @ [x] @ bs \<Longrightarrow> Record_ID x \<notin> Record_ID ` set (as @ bs)"
  using row_ids [of d] by auto

lemma sweep_clean:
  assumes "inv d" and "list_all foreign (rows d)" shows "clean (sweep Do c path d) (rows d)"
proof -
  obtain r d1 where l: "List Do c path [] d = (r, d1)" by (cases "List Do c path [] d")
  note ls = list_reads [OF assms(1) l]
  have "filter ours (rows d) = []" using assms(2) ours_not_foreign by (auto simp: filter_empty_conv list_all_iff)
  then show ?thesis using l ls by (cases r) (auto simp: sweep_def clean_def)
qed

lemma del_nil: "kp_del Do c path [] d = d"
  by (simp add: kp_del_def)

text \<open>The rows a test made go, whatever the two creates reported.\<close>

lemma pair_clean:
  assumes inv: "inv d2" and "list_all foreign rs"
    and first: "r1 = rs @ [x] \<and> Record_ID x = i \<or> r1 = rs \<and> i = []"
    and second: "rows d2 = r1 @ [y] \<and> Record_ID y = j \<or> rows d2 = r1 \<and> (j = [] \<or> (\<exists>x \<in> set r1. Record_ID x = j \<and> \<not> foreign x))"
  shows "clean (kp_del Do c path j (kp_del Do c path i d2)) rs"
  using first
proof
  assume f: "r1 = rs @ [x] \<and> Record_ID x = i"
  from second show ?thesis
  proof
    assume s: "rows d2 = r1 @ [y] \<and> Record_ID y = j"
    have "clean (kp_del Do c path i d2) (rs @ [y])" using del_present [OF inv, of rs x "[y]"] f s by simp
    then show ?thesis using del_present [of "kp_del Do c path i d2" rs y "[]"] s by (simp add: clean_def)
  next
    assume s: "rows d2 = r1 \<and> (j = [] \<or> (\<exists>x \<in> set r1. Record_ID x = j \<and> \<not> foreign x))"
    have d: "rows d2 = rs @ [x] @ []" using f s by simp
    have c: "clean (kp_del Do c path i d2) rs" using del_present [OF inv d] f by simp
    have "j = [] \<or> j = i" using s f assms(2) by (auto simp: list_all_iff)
    then show ?thesis using c del_nil del_absent [of "kp_del Do c path i d2" i] id_absent [OF inv d] f
      by (auto simp: clean_def)
  qed
next
  assume f: "r1 = rs \<and> i = []"
  from second show ?thesis
  proof
    assume "rows d2 = r1 @ [y] \<and> Record_ID y = j"
    then show ?thesis using del_present [OF inv, of rs y "[]"] f del_nil by simp
  next
    assume "rows d2 = r1 \<and> (j = [] \<or> (\<exists>x \<in> set r1. Record_ID x = j \<and> \<not> foreign x))"
    then show ?thesis using f assms(2) inv del_nil by (auto simp: list_all_iff clean_def)
  qed
qed

lemma uniqueness_clean:
  assumes "irPath m = path" and "freeNames m" and "inv d" and "list_all foreign (rows d)" and "signedRow base"
  shows "clean (snd (uniqueness errText Do c m base f d)) (rows d)"
proof -
  let ?w = "vary m base (fName f)"
  obtain y d1 where c1: "kp_create Do c path base d = (y, d1)" by (cases "kp_create Do c path base d")
  obtain z d2 where c2: "kp_create Do c path ?w d1 = (z, d2)" by (cases "kp_create Do c path ?w d1")
  note e1 = first_create [OF assms(3,5,4) c1]
  have i1: "inv d1" using e1 by simp
  note e2 = createLoop_effect [OF i1 vary_signed [OF assms(2,5)] c2 [unfolded kp_create_def]]
  have i2: "inv d2" using e2 by simp
  show ?thesis
  proof (cases y)
    case (Inl e)
    then show ?thesis using c1 e1 by (simp add: uniqueness_def Let_def assms(1) clean_def)
  next
    case y: (Inr rid)
    obtain x where x: "rows d1 = rows d @ [x] \<and> Record_ID x = rid \<or> rows d1 = rows d \<and> rid = []" using e1 y by auto
    show ?thesis
    proof (cases z)
      case (Inl e)
      have r2: "rows d2 = rows d1 \<and> ([] = [] \<or> (\<exists>x \<in> set (rows d1). Record_ID x = [] \<and> \<not> foreign x))" using e2 Inl by simp
      have "clean (kp_del Do c path [] (kp_del Do c path rid d2)) (rows d)"
        using pair_clean [OF i2 assms(4) x] r2 by blast
      then show ?thesis using c1 c2 y Inl by (simp add: uniqueness_def Let_def assms(1) del_nil)
    next
      case (Inr dup)
      obtain w where "rows d2 = rows d1 @ [w] \<and> Record_ID w = dup \<or> rows d2 = rows d1 \<and> (dup = [] \<or> (\<exists>x \<in> set (rows d1). Record_ID x = dup \<and> \<not> foreign x))"
        using e2 Inr by auto
      then have "clean (kp_del Do c path dup (kp_del Do c path rid d2)) (rows d)" by (rule pair_clean [OF i2 assms(4) x])
      then show ?thesis using c1 c2 y Inr by (simp add: uniqueness_def Let_def assms(1))
    qed
  qed
qed

lemma testLoop_clean:
  assumes "irPath m = path" and "freeNames m" and "signedRow row" and "list_all foreign rs"
  shows "clean d rs \<Longrightarrow> clean (snd (testLoop errText Do c m row ns d)) rs"
proof (induction ns arbitrary: d)
  case (Cons a ns)
  have "inv d" "rows d = rs" using Cons.prems by (simp_all add: clean_def)
  then have "clean (snd (uniqueness errText Do c m row f d)) rs" for f
    using uniqueness_clean [OF assms(1,2), of d row] assms(3,4) by simp
  then have "clean (snd (testLoop errText Do c m row ns (snd (uniqueness errText Do c m row f d)))) rs" for f
    by (rule Cons.IH)
  then show ?case using Cons.IH [OF Cons.prems] by (simp split: option.split prod.split) (metis snd_conv)
qed simp

lemma buildLoop_clean:
  assumes "irPath m = path" and "freeNames m" and "list_all foreign rs"
  shows "clean d rs \<Longrightarrow> signedRow row \<Longrightarrow> clean (snd (buildLoop errText Do c m n row lw d)) rs"
proof (induction n arbitrary: row lw d)
  case (Suc n)
  have d: "inv d" "rows d = rs" using Suc.prems by (simp_all add: clean_def)
  obtain y d1 where cr: "kp_create Do c path row d = (y, d1)" by (cases "kp_create Do c path row d")
  have e1: "inv d1 \<and> (case y of Inl e \<Rightarrow> rows d1 = rs
    | Inr rid \<Rightarrow> (\<exists>x. rows d1 = rs @ [x] \<and> Record_ID x = rid) \<or> rows d1 = rs \<and> rid = [])"
    using first_create [OF d(1) Suc.prems(2) _ cr] assms(3) unfolding d(2) by simp
  show ?case
  proof (cases y)
    case (Inr rid)
    have "clean (kp_del Do c path rid d1) rs"
      using e1 Inr del_present [of d1 rs _ "[]"] del_nil by (auto simp: clean_def)
    then show ?thesis using cr Inr assms(1) by simp
  next
    case (Inl err)
    have c1: "clean d1 rs" using e1 Inl by (simp add: clean_def)
    have "clean (snd (buildLoop errText Do c m n (fmupd k (synthValue f 0) row) lw' d1)) rs"
      if f: "menuField m k = Some f" for k f lw'
      using Suc.IH [OF c1 signedRow_upd [OF Suc.prems(2)]] free_signed [OF assms(2) f] by blast
    then show ?thesis using cr Inl c1 assms(1) by (auto simp: Let_def split: option.splits)
  qed
qed simp

lemma probeMenu_clean:
  assumes "irPath m = path" and "freeNames m" and "\<not> HasPrefix path ''/interface/''"
    and "inv d" and "list_all foreign (rows d)"
  shows "clean (snd (probeMenu errText Do c k m d)) (rows d)"
proof -
  have sweep: "clean (sweep Do c path d') (rows d)" if "clean d' (rows d)" for d'
    using sweep_clean [of d'] that assms(5) by (simp add: clean_def)
  then have sm: "clean (sweepMenu Do c path d') (rows d)" if "clean d' (rows d)" for d'
    using that assms(3) by (simp add: sweepMenu_def Let_def)
  have c0: "clean d (rows d)" using assms(4) by (simp add: clean_def)
  obtain ro det d1 where b: "buildable errText Do c k m (sweepMenu Do c path d) = ((ro, det), d1)"
    by (metis surj_pair)
  have c1: "clean d1 (rows d)"
    using buildLoop_clean [OF assms(1,2,5) sm [OF c0] seed_signed [OF assms(2)]] b unfolding buildable_def by (metis snd_conv)
  have "spares {} (sweepMenu Do c path d)" using sm [OF c0] by (simp add: spares_def clean_def)
  note s = buildLoop_safe [OF assms(1,2) this seed_signed [OF assms(2)] b [unfolded buildable_def]]
  show ?thesis
  proof (cases ro)
    case None
    then show ?thesis using b c0 sweep [OF c1] assms(1) by (simp add: probeMenu_def Let_def)
  next
    case (Some row)
    have "clean (snd (testLoop errText Do c m row keyCandidates d1)) (rows d)"
      using testLoop_clean [OF assms(1,2) _ assms(5) c1] s Some by simp
    then show ?thesis using b Some assms(1) c0 sm
      by (cases "testLoop errText Do c m row keyCandidates d1") (simp add: probeMenu_def Let_def)
  qed
qed

end

section \<open>The ordering router\<close>

text \<open>The router of the ordering tests answers, and it holds to both contracts.\<close>

lemma Record_ID_upd [simp]: "Record_ID (fmupd IDField i w) = i"
  by (simp add: Record_ID_def lookup_default_def)

interpretation probed_menu: lossy_menu serveHTTP or_client or_path orRows or_inv
proof unfold_locales
  show "\<exists>row. orRows d' = orRows d @ [row] \<and> Record_ID x = Record_ID row"
    if "or_inv d" "Create serveHTTP or_client or_path w d = (Inr x, d')" for d w x d'
    using that by (auto simp: or_Create Let_def split: if_splits)
qed

interpretation answering_device: answering_menu serveHTTP or_client or_path orRows or_inv
proof unfold_locales
  show "orRows d' = orRows d" if "or_inv d" "Create serveHTTP or_client or_path w d = (Inl e, d')" for d w e d'
    using that by (auto simp: or_Create Let_def split: if_splits)
  show "r = Inr () \<and> orRows d' = filter (\<lambda>row. Record_ID row \<noteq> i) (orRows d)"
    if "or_inv d" "i \<in> Record_ID ` set (orRows d)" "Delete serveHTTP or_client or_path i d = (r, d')" for d i r d'
    using that or_Delete(1) [of i d] by auto
qed

definition probeField :: "string \<Rightarrow> ir_Field" where
  "probeField n = \<lparr>fName = n, fAccess = Writable, fKind = [], fType = ''string value'', fValues = [], fRanges = [],
     fEvidence = [], fSample = [], fBool = False\<rparr>"

definition probeFilter :: ir_Menu where
  "probeFilter = \<lparr>irPath = or_path, Class = [], Commands = [''add''],
     irIdentity = \<lparr>Candidates = [], idKey = [], idVerdict = [], Tested = fmempty\<rparr>,
     irFields = [probeField ''name'', probeField ''comment''], Typed = True, irWritable = True, ClassEvidence = []\<rparr>"

definition probeDevice :: orderingRouter where
  "probeDevice = \<lparr>orRows = [fmap_of_list [(IDField, new_id 1), (''comment'', ''allow ssh'')]], nextID = 1\<rparr>"

lemma probeFilter_free: "freeNames probeFilter" "irPath probeFilter = or_path" "\<not> HasPrefix or_path ''/interface/''"
  by code_simp+

lemma probeDevice_foreign: "list_all foreign (orRows probeDevice)"
  by code_simp

lemma probeDevice_inv: "or_inv probeDevice"
  by code_simp

section \<open>Safety of a run\<close>





section \<open>Verdicts\<close>

lemma kp_create_definite:
  assumes "\<And>d e d'. Create Do c path row d = (Inl e, d') \<Longrightarrow> \<not> transient e"
  shows "kp_create Do c path row d = (case Create Do c path row d of (r, d1) \<Rightarrow> (map_sum id Record_ID r, d1))"
proof -
  obtain r d1 where cr: "Create Do c path row d = (r, d1)" by (cases "Create Do c path row d")
  show ?thesis using cr assms [of d _ d1] by (cases r) (simp_all add: kp_create_def numeral_eq_Suc)
qed

text \<open>
  What a verdict is evidence of. As long as no reply is lost, \<^verbatim>\<open>DUPLICATE\<close> is reported exactly when the router
  came to hold both rows, and \<^verbatim>\<open>UNIQUE\<close> exactly when it took the first and refused the second with a text that
  speaks of a duplicate and names the field; the two rows agree in that field.
\<close>

theorem verdict_evidence:
  assumes "answering_menu Do c (irPath m) rows legal" and "legal d"
    and definite: "\<And>w d e d'. w \<in> {base, vary m base (fName f)} \<Longrightarrow> Create Do c (irPath m) w d = (Inl e, d') \<Longrightarrow> \<not> transient e"
    and u: "uniqueness errText Do c m base f d = (v, d')"
    and c1: "Create Do c (irPath m) base d = (r1, d1)"
    and c2: "Create Do c (irPath m) (vary m base (fName f)) d1 = (r2, d2)"
  shows "(kpVerdict v = ''DUPLICATE'' \<longleftrightarrow> (\<exists>x y. rows d2 = rows d @ [x, y]))
    \<and> (kpVerdict v = ''UNIQUE'' \<longleftrightarrow> (\<exists>x e. rows d2 = rows d @ [x] \<and> r2 = Inl e
        \<and> duplicateish (ToLower (detailOf errText e)) \<and> Contains (ToLower (detailOf errText e)) (ToLower (fName f))))
    \<and> fmlookup (vary m base (fName f)) (fName f) = fmlookup base (fName f)"
proof -
  note rows1 = answering_menu.create_outcome [OF assms(1,2) c1]
  then have "legal d1" by simp
  note rows2 = answering_menu.create_outcome [OF assms(1) this c2]
  have k1: "kp_create Do c (irPath m) base d = (map_sum id Record_ID r1, d1)"
    using kp_create_definite [of Do c "irPath m" base d, OF definite [of base]] c1 by simp
  have k2: "kp_create Do c (irPath m) (vary m base (fName f)) d1 = (map_sum id Record_ID r2, d2)"
    using kp_create_definite [of Do c "irPath m" _ d1, OF definite [of "vary m base (fName f)"]] c2 by simp
  have v: "v = fst (uniqueness errText Do c m base f d)" using u by simp
  show ?thesis
    unfolding v uniqueness_def Let_def k1
    using rows1 rows2 k2 vary_keeps [of m base "fName f"]
    by (cases r1; cases r2) (auto simp: Let_def)
qed

definition secondRow :: Record where
  "secondRow = vary probeFilter (seed probeFilter 0) ''name''"

definition afterFirst :: orderingRouter where
  "afterFirst = snd (Create serveHTTP or_client or_path (seed probeFilter 0) probeDevice)"

lemma probe_rows_utf8: "rec_utf8 (seed probeFilter 0)" "rec_utf8 secondRow"
  by code_simp+

theorem verdict_evidence_witness:
  "kpVerdict (fst (uniqueness (\<lambda>_. []) serveHTTP or_client probeFilter (seed probeFilter 0) (probeField ''name'') probeDevice)) = ''DUPLICATE''"
proof -
  let ?base = "seed probeFilter 0" and ?f = "probeField ''name''"
  have f: "fName ?f = ''name''" by (simp add: probeField_def)
  have law: "answering_menu serveHTTP or_client (irPath probeFilter) orRows or_inv"
    using answering_device.answering_menu_axioms probeFilter_free(2) by simp
  have taken: "\<not> transient e" if "w \<in> {?base, vary probeFilter ?base (fName ?f)}" "Create serveHTTP or_client (irPath probeFilter) w d = (Inl e, d')" for w d e d'
    using that probe_rows_utf8 unfolding f secondRow_def [symmetric] probeFilter_free(2) by (auto simp: or_Create Let_def)
  obtain v d' where u: "uniqueness (\<lambda>_. []) serveHTTP or_client probeFilter ?base ?f probeDevice = (v, d')" by (metis surj_pair)
  obtain r1 d1 where c1: "Create serveHTTP or_client (irPath probeFilter) ?base probeDevice = (r1, d1)" by (metis surj_pair)
  obtain r2 d2 where c2: "Create serveHTTP or_client (irPath probeFilter) (vary probeFilter ?base (fName ?f)) d1 = (r2, d2)" by (metis surj_pair)
  have "\<exists>x y. orRows d2 = orRows probeDevice @ [x, y]"
    using c1 c2 probe_rows_utf8 unfolding f secondRow_def [symmetric] probeFilter_free(2) by (auto simp: or_Create Let_def)
  then show ?thesis using verdict_evidence [OF law probeDevice_inv taken u c1 c2] u by simp
qed

text \<open>
  The limit of that evidence: the row found again after a lost second create may be the first one. A router whose
  second reply never comes and that made no row for it is reported to allow duplicates of a name.
\<close>

definition losing :: "nat \<Rightarrow> (unit, orderingRouter \<times> nat) transport_fn" where
  "losing k h req = (\<lambda>(d, n).
     if reqMethod req = ''PUT'' \<and> n = k then (DoFailed (Other ''timeout''), (d, n + 1))
     else (case serveHTTP h req d of (out, d') \<Rightarrow> (out, (d', if reqMethod req = ''PUT'' then n + 1 else n))))"

definition namedMenu :: ir_Menu where
  "namedMenu = probeFilter\<lparr>irFields := [probeField ''name'']\<rparr>"

lemma lost_reply_duplicate:
  "case uniqueness (\<lambda>_. []) (losing 1) or_client namedMenu (seed namedMenu 0) (probeField ''name'') (\<lparr>orRows = [], nextID = 0\<rparr>, 0) of
     (v, (d, n)) \<Rightarrow> kpVerdict v = ''DUPLICATE'' \<and> nextID d = 1 \<and> n = 2"
  by code_simp

section \<open>Numbers\<close>

lemma bounds_sound:
  "bounds rs = (lo, hi) \<Longrightarrow> (lo, hi) = (1, 0) \<or> lo < hi \<and> (\<exists>r \<in> set rs. \<exists>a b.
     Cut r ''..'' = Some (a, b) \<and> ParseInt (TrimSpace a) 10 = Inr lo \<and> ParseInt (TrimSpace b) 10 = Inr hi)"
  by (induction rs) (auto split: option.splits prod.splits sum.splits if_splits)

lemma ParseInt_in: "ParseInt s b = Inr n \<Longrightarrow> in_int64 n"
  by (auto simp: ParseInt_def in_int64_def Let_def split: if_splits sum.splits)

text \<open>
  The number synthesised for a field of either row lies within a range the router stated for it, stepping
  off zero included, at every range 64 bits can express; without a usable range the rows get one and two.
\<close>

theorem inRange_bounds:
  assumes "n \<le> 1"
  shows "bounds (fRanges f) = (1, 0) \<and> inRange f n = int n + 1
    \<or> (\<exists>r \<in> set (fRanges f). \<exists>a b lo hi. Cut r ''..'' = Some (a, b)
          \<and> ParseInt (TrimSpace a) 10 = Inr lo \<and> ParseInt (TrimSpace b) 10 = Inr hi
          \<and> lo \<le> inRange f n \<and> inRange f n \<le> hi)"
proof -
  obtain lo hi where b: "bounds (fRanges f) = (lo, hi)" by (cases "bounds (fRanges f)")
  from bounds_sound [OF b] show ?thesis
  proof
    assume "(lo, hi) = (1, 0)"
    then show ?thesis using b assms by (auto simp: inRange_def Let_def wrap64_bounds)
  next
    assume r: "lo < hi \<and> (\<exists>r \<in> set (fRanges f). \<exists>a b. Cut r ''..'' = Some (a, b)
      \<and> ParseInt (TrimSpace a) 10 = Inr lo \<and> ParseInt (TrimSpace b) 10 = Inr hi)"
    then have "in_int64 lo" "in_int64 hi" using ParseInt_in by blast+
    then have "wrap64 (lo + int n) = lo + int n" using r assms by (intro wrap64_id) (auto simp: in_int64_def)
    then have "lo \<le> inRange f n \<and> inRange f n \<le> hi" using b r assms by (auto simp: inRange_def Let_def)
    then show ?thesis using r by blast
  qed
qed

definition priorityField :: ir_Field where
  "priorityField = (probeField ''priority'')\<lparr>fType := ''integer number'', fRanges := [''0..7'']\<rparr>"

theorem inRange_bounds_witness:
  "\<exists>r \<in> set (fRanges priorityField). \<exists>a b lo hi. Cut r ''..'' = Some (a, b)
     \<and> ParseInt (TrimSpace a) 10 = Inr lo \<and> ParseInt (TrimSpace b) 10 = Inr hi \<and> lo \<le> inRange priorityField 1 \<and> inRange priorityField 1 \<le> hi"
proof -
  have "Cut ''0..7'' ''..'' = Some (''0'', ''7'')" "TrimSpace ''0'' = FormatInt 0" "TrimSpace ''7'' = FormatInt 7" by code_simp+
  then have "bounds (fRanges priorityField) \<noteq> (1, 0)" by (simp add: priorityField_def probeField_def ParseInt_FormatInt)
  then show ?thesis using inRange_bounds [of 1 priorityField] by simp
qed

text \<open>A range that starts at zero: the two rows get the same number, although there is another.\<close>

lemma zero_range_not_varied:
  assumes "bounds (fRanges f) = (0, hi)" and "0 < hi"
  shows "inRange f 0 = 1 \<and> inRange f 1 = 1"
  using assms by (simp add: inRange_def Let_def wrap64_bounds)

end
