(* ===== verification/Worker_Pool.thy ===== *)
theory Worker_Pool
  imports Prelude "HOL-Library.Multiset"
begin

text \<open>
  \<^verbatim>\<open>each\<close> of src/hack/typedump/main.go: a fixed number of goroutines take items from an unbuffered channel and
  run a callback on each; \<^verbatim>\<open>each\<close> returns when the channel is closed and every goroutine has returned.

  A state is the items not yet sent, what every worker is doing and the data the callbacks share. Sending an
  item is the step in which an idle worker receives it. A callback is one step: what it does to shared
  data it does under a mutex, and its requests only read the console.
\<close>

section \<open>The pool\<close>

record ('a, 's) pool =
  unsent :: "'a list"
  busy :: "'a option list"
  shared :: 's

inductive pool_step :: "('a \<Rightarrow> 's \<Rightarrow> 's) \<Rightarrow> ('a, 's) pool \<Rightarrow> ('a, 's) pool \<Rightarrow> bool" for fn where
  receive: "i < length (busy P) \<Longrightarrow> busy P ! i = None \<Longrightarrow> unsent P = it # rest \<Longrightarrow>
     pool_step fn P (P\<lparr>unsent := rest, busy := (busy P)[i := Some it]\<rparr>)"
| run: "i < length (busy P) \<Longrightarrow> busy P ! i = Some it \<Longrightarrow>
     pool_step fn P (P\<lparr>busy := (busy P)[i := None], shared := fn it (shared P)\<rparr>)"

definition each_start :: "nat \<Rightarrow> 'a list \<Rightarrow> 's \<Rightarrow> ('a, 's) pool" where
  "each_start workers items s = \<lparr>unsent = items, busy = replicate workers None, shared = s\<rparr>"

definition returned :: "('a, 's) pool \<Rightarrow> bool" where
  "returned P \<longleftrightarrow> unsent P = [] \<and> list_all (\<lambda>w. w = None) (busy P)"

section \<open>Every schedule ends\<close>

definition inHand :: "'a option list \<Rightarrow> 'a list" where
  "inHand ws = concat (map (case_option [] (\<lambda>x. [x])) ws)"

lemma inHand_Cons [simp]: "inHand (w # ws) = case_option [] (\<lambda>x. [x]) w @ inHand ws" "inHand [] = []"
  by (simp_all add: inHand_def)

lemma inHand_receive: "i < length ws \<Longrightarrow> ws ! i = None \<Longrightarrow> mset (inHand (ws[i := Some x])) = add_mset x (mset (inHand ws))"
  by (induction ws arbitrary: i) (auto simp: nth_Cons split: nat.splits)

lemma inHand_run: "i < length ws \<Longrightarrow> ws ! i = Some x \<Longrightarrow> mset (inHand ws) = add_mset x (mset (inHand (ws[i := None])))"
  by (induction ws arbitrary: i) (auto simp: nth_Cons split: nat.splits)

lemma inHand_idle: "inHand ws = [] \<longleftrightarrow> list_all (\<lambda>w. w = None) ws"
  by (induction ws) (auto split: option.splits)

lemma inHand_replicate [simp]: "inHand (replicate k None) = []"
  by (induction k) auto

definition todo :: "('a, 's) pool \<Rightarrow> nat" where
  "todo P = 2 * length (unsent P) + length (inHand (busy P))"

lemma pool_step_todo: "pool_step fn P Q \<Longrightarrow> todo P = Suc (todo Q)"
proof (induction rule: pool_step.induct)
  case (receive i P it rest)
  have "length (inHand ((busy P)[i := Some it])) = Suc (length (inHand (busy P)))"
    using arg_cong [OF inHand_receive [OF receive(1,2)], of size] by simp
  then show ?case using receive(3) by (simp add: todo_def)
next
  case (run i P it)
  have "length (inHand (busy P)) = Suc (length (inHand ((busy P)[i := None])))"
    using arg_cong [OF inHand_run [OF run], of size] by simp
  then show ?case by (simp add: todo_def)
qed

lemma pool_step_workers: "pool_step fn P Q \<Longrightarrow> length (busy Q) = length (busy P)"
  by (induction rule: pool_step.induct) simp_all

lemma returned_todo: "returned P \<longleftrightarrow> todo P = 0"
  by (auto simp: returned_def todo_def inHand_idle)

lemma pool_runs:
  assumes "busy P \<noteq> []" and "\<not> returned P"
  shows "\<exists>Q. pool_step fn P Q"
proof (cases "\<exists>i < length (busy P). busy P ! i \<noteq> None")
  case True
  then show ?thesis by (meson not_None_eq pool_step.run)
next
  case False
  then have idle: "list_all (\<lambda>w. w = None) (busy P)" by (auto simp: list_all_length)
  then obtain it rest where "unsent P = it # rest" using assms(2) by (cases "unsent P") (auto simp: returned_def)
  moreover have "0 < length (busy P)" "busy P ! 0 = None" using assms(1) idle by (auto simp: list_all_length)
  ultimately show ?thesis by (blast intro: pool_step.receive)
qed

text \<open>Runs of the pool with their length.\<close>

inductive pool_run :: "('a \<Rightarrow> 's \<Rightarrow> 's) \<Rightarrow> ('a, 's) pool \<Rightarrow> nat \<Rightarrow> ('a, 's) pool \<Rightarrow> bool" for fn where
  none: "pool_run fn P 0 P"
| more: "pool_run fn P n Q \<Longrightarrow> pool_step fn Q R \<Longrightarrow> pool_run fn P (Suc n) R"

lemma pool_run_todo: "pool_run fn P n Q \<Longrightarrow> todo P = n + todo Q \<and> length (busy Q) = length (busy P)"
  by (induction rule: pool_run.induct) (auto dest: pool_step_todo pool_step_workers)

section \<open>What the callbacks compute together\<close>

text \<open>
  Callbacks whose effect on what matters of the shared data commutes. \<open>g\<close> is that effect, \<open>view\<close> what matters.
\<close>

locale commuting_callbacks =
  fixes fn :: "'a \<Rightarrow> 's \<Rightarrow> 's" and view :: "'s \<Rightarrow> 'v" and g :: "'a \<Rightarrow> 'v \<Rightarrow> 'v" and items :: "'a list"
  assumes effect: "a \<in> set items \<Longrightarrow> view (fn a s) = g a (view s)"
    and commute: "a \<in> set items \<Longrightarrow> b \<in> set items \<Longrightarrow> g a (g b v) = g b (g a v)"
begin

lemma fold_any_order: "mset xs = mset items \<Longrightarrow> fold g xs v = fold g items v"
proof -
  assume m: "mset xs = mset items"
  then have "set xs = set items" by (metis set_mset_mset)
  then have "fold g xs = fold g items" using m commute by (intro fold_multiset_equiv) (auto simp: fun_eq_iff)
  then show ?thesis by simp
qed

lemma pool_run_done:
  assumes "pool_run fn (each_start workers items s) n Q"
  shows "\<exists>finished. mset finished + mset (inHand (busy Q)) + mset (unsent Q) = mset items
    \<and> view (shared Q) = fold g finished (view s)"
  using assms
proof (induction "each_start workers items s" n Q rule: pool_run.induct)
  case none
  show ?case by (intro exI [of _ "[]"]) (simp add: each_start_def)
next
  case (more n Q R)
  then obtain finished where f: "mset finished + mset (inHand (busy Q)) + mset (unsent Q) = mset items"
    "view (shared Q) = fold g finished (view s)" by blast
  from more.hyps(3) show ?case
  proof cases
    case (receive i it rest)
    show ?thesis
      using f inHand_receive [OF receive(2,3), of it] receive(1,4) by (intro exI [of _ finished]) simp
  next
    case (run i it)
    have m: "mset (inHand (busy Q)) = add_mset it (mset (inHand ((busy Q)[i := None])))" by (rule inHand_run [OF run(2,3)])
    then have "it \<in># mset items" unfolding f(1) [symmetric] by simp
    then have "view (shared R) = fold g (finished @ [it]) (view s)" using run(1) f(2) effect by simp
    then show ?thesis using f(1) m run(1) by (intro exI [of _ "finished @ [it]"]) simp
  qed
qed

lemma pool_result:
  assumes "pool_run fn (each_start workers items s) n Q" and "returned Q"
  shows "view (shared Q) = fold g items (view s)"
proof -
  obtain finished where f: "mset finished + mset (inHand (busy Q)) + mset (unsent Q) = mset items"
    "view (shared Q) = fold g finished (view s)" using pool_run_done [OF assms(1)] by blast
  have "inHand (busy Q) = []" "unsent Q = []" using assms(2) by (simp_all add: returned_def inHand_idle)
  then show ?thesis using f fold_any_order [of finished] by simp
qed

end

lemma each_ends:
  assumes "0 < workers" and "pool_run fn (each_start workers items s) n Q"
  shows "n \<le> 2 * length items \<and> (\<not> returned Q \<longrightarrow> (\<exists>R. pool_step fn Q R)) \<and> (returned Q \<longleftrightarrow> n = 2 * length items)"
proof -
  have t: "2 * length items = n + todo Q" "length (busy Q) = workers"
    using pool_run_todo [OF assms(2)] by (simp_all add: each_start_def todo_def)
  then show ?thesis using pool_runs [of Q fn] assms(1) returned_todo [of Q] by auto
qed

lemma each_exists:
  assumes "0 < workers"
  shows "\<exists>Q. pool_run fn (each_start workers items s) (2 * length items) Q \<and> returned Q"
proof -
  have "\<exists>Q. pool_run fn (each_start workers items s) n Q" if "n \<le> 2 * length items" for n
    using that
  proof (induction n)
    case (Suc n)
    then obtain Q where Q: "pool_run fn (each_start workers items s) n Q" by auto
    then obtain R where "pool_step fn Q R" using each_ends [OF assms Q] Suc.prems by auto
    then show ?case using pool_run.more [OF Q] by blast
  qed (blast intro: pool_run.none)
  then obtain Q where Q: "pool_run fn (each_start workers items s) (2 * length items) Q" by blast
  then show ?thesis using each_ends [OF assms Q] by blast
qed

text \<open>Without a worker the first send blocks for ever.\<close>

lemma each_no_workers: "items \<noteq> [] \<Longrightarrow> \<not> pool_step fn (each_start 0 items s) Q \<and> \<not> returned (each_start 0 items s)"
  by (auto simp: each_start_def returned_def elim: pool_step.cases)

end
