(* ===== verification/Console_Dump.thy ===== *)
theory Console_Dump
  imports Rest_Client Schema_IR "HOL-Library.Product_Lexorder" "HOL-Library.Multiset"
begin

text \<open>
  src/hack/inspectdump/main.go: the console tree of a router, walked node by node over
  \<^verbatim>\<open>/console/inspect\<close>. The exchange with the router is the transport of \<open>Rest_Client\<close>; what \<^verbatim>\<open>encoding/json\<close> decodes into a
  \<^verbatim>\<open>map[string]any\<close> is a list of members of which the last of a name counts. The text of an
  error is the value it was made from. The progress count on stderr is left out.
\<close>

section \<open>Requests\<close>

datatype inspect_error =
    NoReply Outcome
  | BadStatus int Body
  | BadRows Body

definition dumpRequest :: "'h Client \<Rightarrow> string \<Rightarrow> string \<Rightarrow> json option \<Rightarrow> Request" where
  "dumpRequest c meth path body =
     \<lparr>reqMethod = meth, reqURL = cbase c @ path, reqUser = cuser c, reqPass = cpass c,
      reqHeaders = [(''Content-Type'', ''application/json'')], reqBody = body\<rparr>"

text \<open>An error while the body is read is dropped; what was read of it is not a document.\<close>

definition dumpRest ::
  "('h, 'd) transport_fn \<Rightarrow> 'h Client \<Rightarrow> string \<Rightarrow> string \<Rightarrow> json option \<Rightarrow> 'd \<Rightarrow> (inspect_error + int \<times> Body) \<times> 'd" where
  "dumpRest Do c meth path body d =
     (case Do (chttp c) (dumpRequest c meth path body) d of
        (Replied code data, d') \<Rightarrow> (Inr (code, data), d')
      | (ReadFailed code _, d') \<Rightarrow> (Inr (code, Blank), d')
      | (out, d') \<Rightarrow> (Inl (NoReply out), d'))"

type_synonym anyRow = "(string \<times> json) list"

fun as_anyRow :: "json \<Rightarrow> anyRow option" where
  "as_anyRow JNull = Some []"
| "as_anyRow (JObj kvs) = Some kvs"
| "as_anyRow _ = None"

fun as_anyRows :: "json \<Rightarrow> anyRow list option" where
  "as_anyRows JNull = Some []"
| "as_anyRows (JArr js) = (if list_all (\<lambda>j. as_anyRow j \<noteq> None) js then Some (map (the \<circ> as_anyRow) js) else None)"
| "as_anyRows _ = None"

fun anyRows :: "Body \<Rightarrow> anyRow list option" where
  "anyRows (Doc j) = as_anyRows j"
| "anyRows _ = None"

text \<open>\<^verbatim>\<open>v, _ := row[k].(string)\<close>\<close>

definition str :: "anyRow \<Rightarrow> string \<Rightarrow> string" where
  "str row k = (case map_of (rev row) k of Some (JStr s) \<Rightarrow> s | _ \<Rightarrow> [])"

section \<open>The walk\<close>

datatype dump_error = MaxDepth | ListFailed inspect_error

datatype dumpNode = DumpNode string string "dumpNode list" "dump_error option"

definition maxDepth :: nat where
  "maxDepth = 16"

definition childBody :: "string list \<Rightarrow> json" where
  "childBody path =
     JObj ((if path \<noteq> [] then [(''path'', JStr (Join path '',''))] else []) @ [(''request'', JStr ''child'')])"

definition childOf :: "anyRow \<Rightarrow> (string \<times> string) list" where
  "childOf row =
     (if str row ''type'' \<noteq> ''child'' then []
      else if str row ''name'' = [] then []
      else [(str row ''name'', str row ''node-type'')])"

definition children ::
  "('h, 'd) transport_fn \<Rightarrow> 'h Client \<Rightarrow> string list \<Rightarrow> 'd \<Rightarrow> (inspect_error + (string \<times> string) list) \<times> 'd" where
  "children Do c path d =
     (case dumpRest Do c ''POST'' ''/console/inspect'' (Some (childBody path)) d of
        (Inl e, d1) \<Rightarrow> (Inl e, d1)
      | (Inr (code, data), d1) \<Rightarrow>
          if 300 \<le> code then (Inl (BadStatus code data), d1)
          else (case anyRows data of
                  None \<Rightarrow> (Inl (BadRows data), d1)
                | Some rows \<Rightarrow> (Inr (sort (concat (map childOf rows))), d1)))"

text \<open>
  \<open>left\<close> is \<^verbatim>\<open>maxDepth - depth\<close>. The first function returns what the walk of a node stores in it, the second
  the nodes for a list of children.
\<close>

function walkNode ::
    "('h, 'd) transport_fn \<Rightarrow> 'h Client \<Rightarrow> nat \<Rightarrow> string list \<Rightarrow> 'd \<Rightarrow> (dumpNode list \<times> dump_error option) \<times> 'd"
  and walkKids ::
    "('h, 'd) transport_fn \<Rightarrow> 'h Client \<Rightarrow> nat \<Rightarrow> string list \<Rightarrow> (string \<times> string) list \<Rightarrow> 'd \<Rightarrow> dumpNode list \<times> 'd" where
  "walkNode Do c 0 path d = (([], Some MaxDepth), d)"
| "walkNode Do c (Suc left) path d =
     (case children Do c path d of
        (Inl e, d1) \<Rightarrow> (([], Some (ListFailed e)), d1)
      | (Inr kids, d1) \<Rightarrow> (case walkKids Do c left path kids d1 of (ns, d2) \<Rightarrow> ((ns, None), d2)))"
| "walkKids Do c left path [] d = ([], d)"
| "walkKids Do c left path ((name, ty) # kids) d =
     (case (if ty = ''arg'' then (([], None), d) else walkNode Do c left (path @ [name]) d) of
        ((ns, e), d1) \<Rightarrow> (case walkKids Do c left path kids d1 of (rest, d2) \<Rightarrow> (DumpNode name ty ns e # rest, d2)))"
  by pat_completeness auto

termination
  by (relation "inv_image (less_than <*lex*> less_than)
        (case_sum (\<lambda>(_, _, left, _, _). (2 * left, 0)) (\<lambda>(_, _, left, _, kids, _). (2 * left + 1, length kids)))")
    auto

definition identity :: "('h, 'd) transport_fn \<Rightarrow> 'h Client \<Rightarrow> 'd \<Rightarrow> (string \<times> string \<times> string) \<times> 'd" where
  "identity Do c d =
     (case dumpRest Do c ''GET'' ''/system/resource'' None d of
        (Inl e, d1) \<Rightarrow> (([], [], []), d1)
      | (Inr (code, data), d1) \<Rightarrow>
          if 300 \<le> code then (([], [], []), d1)
          else (case data of
                  Doc j \<Rightarrow> (case as_anyRow j of
                             Some m \<Rightarrow> ((str m ''version'', str m ''architecture-name'', str m ''board-name''), d1)
                           | None \<Rightarrow> (([], [], []), d1))
                | _ \<Rightarrow> (([], [], []), d1)))"

text \<open>The dump, as the tools that read it see it: they have no use for the errors of nodes.\<close>

primrec readNode :: "dumpNode \<Rightarrow> treeNode" where
  "readNode (DumpNode name ty kids e) = Node name ty (map readNode kids)"

definition inspectdump :: "('h, 'd) transport_fn \<Rightarrow> 'h Client \<Rightarrow> 'd \<Rightarrow> (dump_error + consoleTree) \<times> 'd" where
  "inspectdump Do c d =
     (case walkNode Do c maxDepth [] d of
        ((_, Some e), d1) \<Rightarrow> (Inl e, d1)
      | ((kids, None), d1) \<Rightarrow>
          (case identity Do c d1 of
             ((v, arch, board), d2) \<Rightarrow>
               (Inr \<lparr>ctVersion = v, ctArchitecture = arch, ctGeneratedBy = ''hack/inspectdump'', Tree = map readNode kids\<rparr>, d2)))"


section \<open>The tree of a console\<close>

definition nodeKey :: "treeNode \<Rightarrow> string \<times> string" where
  "nodeKey n = (nodeName n, NodeType n)"

fun childrenAt :: "treeNode list \<Rightarrow> string list \<Rightarrow> treeNode list option" where
  "childrenAt nodes [] = Some nodes"
| "childrenAt nodes (name # p) =
     (case find (\<lambda>n. nodeName n = name) nodes of None \<Rightarrow> None | Some n \<Rightarrow> childrenAt (Children n) p)"

definition plainName :: "string \<Rightarrow> bool" where
  "plainName s \<longleftrightarrow> s \<noteq> [] \<and> CHR '','' \<notin> set s"

text \<open>Siblings have different names, and an argument has nothing below it.\<close>

primrec wfNode :: "treeNode \<Rightarrow> bool" where
  "wfNode (Node name ty cs) \<longleftrightarrow> plainName name \<and> (ty = ''arg'' \<longrightarrow> cs = []) \<and> distinct (map nodeName cs) \<and> list_all id (map wfNode cs)"

text \<open>The levels the walk reaches: arguments are not walked.\<close>

primrec fits :: "treeNode \<Rightarrow> nat \<Rightarrow> bool" where
  "fits (Node name ty cs) = (\<lambda>left. ty = ''arg'' \<or> (case left of 0 \<Rightarrow> False | Suc l \<Rightarrow> list_all (\<lambda>f. f l) (map fits cs)))"

fun sortNode :: "treeNode \<Rightarrow> treeNode" where
  "sortNode (Node name ty cs) = Node name ty (map sortNode (sort_key nodeKey cs))"

definition sortNodes :: "treeNode list \<Rightarrow> treeNode list" where
  "sortNodes ns = map sortNode (sort_key nodeKey ns)"

lemma childrenAt_snoc:
  "childrenAt nodes p = Some cs \<Longrightarrow> find (\<lambda>n. nodeName n = name) cs = Some n \<Longrightarrow> childrenAt nodes (p @ [name]) = Some (Children n)"
  by (induction p arbitrary: nodes) (auto split: option.splits)

lemma find_distinct: "distinct (map nodeName cs) \<Longrightarrow> n \<in> set cs \<Longrightarrow> find (\<lambda>x. nodeName x = nodeName n) cs = Some n"
  by (induction cs) auto

text \<open>What the probes rely on: a listing of the node at a path has one child row per child, in any order.\<close>

locale console =
  fixes Do :: "('h, 'd) transport_fn" and c :: "'h Client" and tree :: "treeNode list"
  assumes lists: "childrenAt tree p = Some cs \<Longrightarrow> list_all plainName p \<Longrightarrow>
    \<exists>rows d'. Do (chttp c) (dumpRequest c ''POST'' ''/console/inspect'' (Some (childBody p))) d = (Replied 200 (Doc (JArr (map JObj rows))), d')
      \<and> mset (concat (map childOf rows)) = mset (map nodeKey (filter (\<lambda>n. nodeName n \<noteq> []) cs))"
begin

lemma children_exact:
  assumes "childrenAt tree p = Some cs" and "list_all plainName p" and "list_all wfNode cs"
  shows "\<exists>d'. children Do c p d = (Inr (map nodeKey (sort_key nodeKey cs)), d')"
proof -
  obtain rows d' where r: "Do (chttp c) (dumpRequest c ''POST'' ''/console/inspect'' (Some (childBody p))) d = (Replied 200 (Doc (JArr (map JObj rows))), d')"
    "mset (concat (map childOf rows)) = mset (map nodeKey (filter (\<lambda>n. nodeName n \<noteq> []) cs))"
    using lists [OF assms(1,2), of d] by blast
  have named: "nodeName n \<noteq> []" if "n \<in> set cs" for n using assms(3) that by (cases n) (auto simp: list_all_iff plainName_def)
  then have "filter (\<lambda>n. nodeName n \<noteq> []) cs = cs" by simp
  then have "sort (concat (map childOf rows)) = map nodeKey (sort_key nodeKey cs)"
    using r(2) by (intro properties_for_sort) simp_all
  moreover have "anyRows (Doc (JArr (map JObj rows))) = Some rows" by (simp add: list_all_iff comp_def)
  ultimately show ?thesis using r(1) by (simp add: children_def dumpRest_def)
qed

lemma walkKids_exact:
  assumes node: "\<And>l p cs d. left = Suc l \<Longrightarrow> childrenAt tree p = Some cs \<Longrightarrow> list_all plainName p \<Longrightarrow> distinct (map nodeName cs) \<Longrightarrow> list_all wfNode cs \<Longrightarrow>
      list_all (\<lambda>n. fits n l) cs \<Longrightarrow> \<exists>ns d'. walkNode Do c left p d = ((ns, None), d') \<and> map readNode ns = sortNodes cs"
    and "childrenAt tree p = Some cs" and "list_all plainName p" and "distinct (map nodeName cs)"
  shows "set kids \<subseteq> set cs \<Longrightarrow> list_all wfNode kids \<Longrightarrow> list_all (\<lambda>n. fits n left) kids \<Longrightarrow>
    \<exists>ns d'. walkKids Do c left p (map nodeKey kids) d = (ns, d') \<and> map readNode ns = map sortNode kids"
proof (induction kids arbitrary: d)
  case (Cons n kids)
  obtain name ty cs' where n: "n = Node name ty cs'" by (cases n)
  have "\<exists>ns d1. (if ty = ''arg'' then (([], None), d) else walkNode Do c left (p @ [name]) d) = ((ns, None), d1)
    \<and> map readNode ns = sortNodes cs'"
  proof (cases "ty = ''arg''")
    case True
    then show ?thesis using Cons.prems(2) n by (simp add: sortNodes_def)
  next
    case False
    then obtain l where l: "left = Suc l" "list_all (\<lambda>n. fits n l) cs'" using Cons.prems(3) n by (auto simp: list_all_iff split: nat.splits)
    have "childrenAt tree (p @ [name]) = Some cs'"
      using childrenAt_snoc [OF assms(2) find_distinct [OF assms(4), of n]] Cons.prems(1) n by simp
    moreover have "list_all plainName (p @ [name])" "distinct (map nodeName cs')" "list_all wfNode cs'"
      using assms(3) Cons.prems(2) n by (auto simp: list_all_iff)
    ultimately show ?thesis using node [OF l(1) _ _ _ _ l(2), of "p @ [name]" d] False by simp
  qed
  then obtain ns d1 where 1: "(if ty = ''arg'' then (([], None), d) else walkNode Do c left (p @ [name]) d) = ((ns, None), d1)"
    "map readNode ns = sortNodes cs'" by blast
  obtain rest d2 where 2: "walkKids Do c left p (map nodeKey kids) d1 = (rest, d2)" "map readNode rest = map sortNode kids"
    using Cons.IH [of d1] Cons.prems by auto
  have key: "nodeKey n = (name, ty)" by (simp add: n nodeKey_def)
  show ?case using 1 2 by (simp add: key) (simp add: n sortNodes_def)
qed simp

lemma walkNode_exact:
  "left = Suc l \<Longrightarrow> childrenAt tree p = Some cs \<Longrightarrow> list_all plainName p \<Longrightarrow> distinct (map nodeName cs) \<Longrightarrow> list_all wfNode cs \<Longrightarrow>
     list_all (\<lambda>n. fits n l) cs \<Longrightarrow> \<exists>ns d'. walkNode Do c left p d = ((ns, None), d') \<and> map readNode ns = sortNodes cs"
proof (induction left arbitrary: l p cs d)
  case (Suc left)
  obtain d1 where k: "children Do c p d = (Inr (map nodeKey (sort_key nodeKey cs)), d1)"
    using children_exact [OF Suc.prems(2,3,5), of d] by blast
  have "\<exists>ns d'. walkKids Do c left p (map nodeKey (sort_key nodeKey cs)) d1 = (ns, d') \<and> map readNode ns = map sortNode (sort_key nodeKey cs)"
    using Suc.prems by (intro walkKids_exact [OF Suc.IH Suc.prems(2-4)]) (auto simp: list_all_iff)
  then show ?case using k by (auto simp: sortNodes_def)
qed simp

lemma inspectdump_tree:
  assumes "distinct (map nodeName tree)" and "list_all wfNode tree" and "list_all (\<lambda>n. fits n 15) tree"
  shows "\<exists>t. fst (inspectdump Do c d) = Inr t \<and> Tree t = sortNodes tree"
proof -
  obtain ns d1 where "walkNode Do c maxDepth [] d = ((ns, None), d1)" "map readNode ns = sortNodes tree"
    using walkNode_exact [of maxDepth 15 "[]" tree d] assms by (auto simp: maxDepth_def)
  then show ?thesis by (auto simp: inspectdump_def split: prod.splits)
qed

end

section \<open>A console in memory\<close>

definition childRow :: "treeNode \<Rightarrow> anyRow" where
  "childRow n = [(''type'', JStr ''child''), (''name'', JStr (nodeName n)), (''node-type'', JStr (NodeType n))]"

definition askedPath :: "Request \<Rightarrow> string list" where
  "askedPath req =
     (case reqBody req of
        Some (JObj kvs) \<Rightarrow> (case map_of kvs ''path'' of Some (JStr s) \<Rightarrow> Split s (CHR '','') | _ \<Rightarrow> [])
      | _ \<Rightarrow> [])"

definition treeServer :: "treeNode list \<Rightarrow> (unit, 'd) transport_fn" where
  "treeServer tree h req d =
     ((case childrenAt tree (askedPath req) of
         None \<Rightarrow> Replied 400 Blank
       | Some cs \<Rightarrow> Replied 200 (Doc (JArr (map JObj ([(''type'', JStr ''self'')] # map childRow cs))))), d)"

lemma askedPath_child: "list_all plainName p \<Longrightarrow> askedPath (dumpRequest c meth path (Some (childBody p))) = p"
  using Split_Join [of p "CHR '',''"]
  by (cases p) (auto simp: askedPath_def dumpRequest_def childBody_def list_all_iff plainName_def)

lemma childOf_rows:
  "concat (map childOf ([(''type'', JStr ''self'')] # map childRow cs)) = map nodeKey (filter (\<lambda>n. nodeName n \<noteq> []) cs)"
  by (induction cs) (simp_all add: childOf_def childRow_def str_def nodeKey_def)

interpretation served: console "treeServer tree" c tree for tree c
proof
  show "\<exists>rows d'. treeServer tree (chttp c) (dumpRequest c ''POST'' ''/console/inspect'' (Some (childBody p))) d = (Replied 200 (Doc (JArr (map JObj rows))), d')
      \<and> mset (concat (map childOf rows)) = mset (map nodeKey (filter (\<lambda>n. nodeName n \<noteq> []) cs))"
    if "childrenAt tree p = Some cs" "list_all plainName p" for p cs d
    using that by (intro exI [of _ "[(''type'', JStr ''self'')] # map childRow cs"] exI [of _ d] conjI)
      (simp_all only: treeServer_def askedPath_child option.case childOf_rows)
qed


definition exTree :: "treeNode list" where
  "exTree =
     [Node ''ip'' ''dir'' [Node ''address'' ''path''
        [Node ''set'' ''cmd'' [Node ''interface'' ''arg'' [], Node ''address'' ''arg'' []],
         Node ''add'' ''cmd'' [Node ''address'' ''arg'' []], Node ''print'' ''cmd'' []]]]"


end
