(* ===== verification/Type_Dump.thy ===== *)
theory Type_Dump
  imports Worker_Pool Console_Dump Go_Regexp
begin

text \<open>
  src/hack/typedump/main.go: what every property of a router accepts, asked of its console. The writable
  properties are the arguments of \<^verbatim>\<open>add\<close> and \<^verbatim>\<open>set\<close> in the console tree; the others are enumerated menu by menu; then every
  property is probed. Both passes run in the pool of \<open>Worker_Pool\<close>. Requests are those of
  \<open>Console_Dump\<close>, retried.
\<close>

section \<open>Asking the console\<close>

definition inspectBody :: "string \<Rightarrow> string \<Rightarrow> json" where
  "inspectBody request inp = JObj [(''input'', JStr inp), (''request'', JStr request)]"

text \<open>\<open>attempts\<close> counts down from three; without one left the last error is returned.\<close>

fun inspectLoop ::
  "('h, 'd) transport_fn \<Rightarrow> 'h Client \<Rightarrow> json \<Rightarrow> nat \<Rightarrow> inspect_error \<Rightarrow> 'd \<Rightarrow> (inspect_error + anyRow list) \<times> 'd" where
  "inspectLoop Do c body 0 lastErr d = (Inl lastErr, d)"
| "inspectLoop Do c body (Suc attempts) lastErr d =
     (case dumpRest Do c ''POST'' ''/console/inspect'' (Some body) d of
        (Inl e, d1) \<Rightarrow> inspectLoop Do c body attempts e d1
      | (Inr (code, data), d1) \<Rightarrow>
          if 500 \<le> code then inspectLoop Do c body attempts (BadStatus code data) d1
          else if 300 \<le> code then (Inl (BadStatus code data), d1)
          else (case anyRows data of None \<Rightarrow> (Inl (BadRows data), d1) | Some rows \<Rightarrow> (Inr rows, d1)))"

definition inspect :: "('h, 'd) transport_fn \<Rightarrow> 'h Client \<Rightarrow> string \<Rightarrow> string \<Rightarrow> 'd \<Rightarrow> (inspect_error + anyRow list) \<times> 'd" where
  "inspect Do c request inp d = inspectLoop Do c (inspectBody request inp) 3 (NoReply NewRequestFailed) d"

definition candidate :: "anyRow \<Rightarrow> bool" where
  "candidate r \<longleftrightarrow> str r ''completion'' \<noteq> ''<value>'' \<and> str r ''show'' = ''true'' \<and> str r ''completion'' \<noteq> []"

definition shown :: "anyRow list \<Rightarrow> string list \<times> bool" where
  "shown rows =
     (sort (map (\<lambda>r. str r ''completion'') (filter candidate rows)), list_ex (\<lambda>r. str r ''completion'' = ''<value>'') rows)"

section \<open>Properties\<close>

datatype probe_error = NoPosition | Inspect inspect_error

record syntaxRow =
  sDepth :: int
  sSymbol :: string
  sSymbolType :: string
  sText :: string

record probedArg =
  paPath :: string
  paCommand :: string
  paArg :: string
  paAccess :: string
  paKind :: string
  paValues :: "string list"
  paTypes :: "string list"
  paRanges :: "string list"
  paSyntax :: "syntaxRow list"
  paError :: "probe_error option"
  rowless :: bool

definition mkArg :: "string \<Rightarrow> string \<Rightarrow> string \<Rightarrow> string \<Rightarrow> bool \<Rightarrow> probedArg" where
  "mkArg path cmd arg access rl =
     \<lparr>paPath = path, paCommand = cmd, paArg = arg, paAccess = access, paKind = [], paValues = [], paTypes = [],
      paRanges = [], paSyntax = [], paError = None, rowless = rl\<rparr>"

definition inputOf :: "probedArg \<Rightarrow> string" where
  "inputOf a =
     (if paAccess a = ''read-only''
      then (if rowless a then [] else ''/'' @ paPath a @ ''/print where '' @ paArg a @ ''='')
      else ''/'' @ paPath a @ ''/'' @ paCommand a @ '' '' @ paArg a @ ''='')"

definition notProperties :: "string list" where
  "notProperties = [''.dead'', ''.id'', ''.nextid'', ''about'', ''numbers'', ''value-name'', ''='']"

text \<open>The keys \<^verbatim>\<open>path + "\x00" + arg\<close> are those of \<open>observedKey\<close>.\<close>

definition declareArg :: "string \<Rightarrow> string list \<Rightarrow> treeNode \<Rightarrow> probedArg go_map \<Rightarrow> probedArg go_map" where
  "declareArg cmd path a out =
     (if NodeType a \<noteq> ''arg'' \<or> nodeName a \<in> set notProperties then out
      else (let key = observedKey (Join path ''/'') (nodeName a)
            in case fmlookup out key of
                 Some prev \<Rightarrow> if paCommand prev = ''set'' then out
                   else fmupd key (mkArg (Join path ''/'') cmd (nodeName a) ''writable'' False) out
               | None \<Rightarrow> fmupd key (mkArg (Join path ''/'') cmd (nodeName a) ''writable'' False) out))"

fun writableWalk :: "treeNode list \<Rightarrow> string list \<Rightarrow> probedArg go_map \<Rightarrow> probedArg go_map" where
  "writableWalk [] path out = out"
| "writableWalk (Node name ty cs # nodes) path out =
     writableWalk nodes path
       (if ty = ''dir'' \<or> ty = ''path'' then writableWalk cs (path @ [name]) out
        else if ty = ''cmd'' \<and> (name = ''add'' \<or> name = ''set'') then fold (declareArg name path) cs out
        else out)"

definition writable :: "treeNode list \<Rightarrow> probedArg go_map" where
  "writable nodes = writableWalk nodes [] fmempty"

section \<open>Menus\<close>

record td_menu =
  mPath :: string
  HasPrint :: bool
  HasGet :: bool
  GetArgs :: "string list"

definition argNames :: "treeNode list \<Rightarrow> string list" where
  "argNames cs = map nodeName (filter (\<lambda>a. NodeType a = ''arg'') cs)"

definition menuStep :: "treeNode \<Rightarrow> td_menu \<Rightarrow> td_menu" where
  "menuStep n m =
     (if NodeType n \<noteq> ''cmd'' then m
      else if nodeName n = ''print'' then m\<lparr>HasPrint := True\<rparr>
      else if nodeName n = ''get'' then m\<lparr>HasGet := True, GetArgs := argNames (Children n)\<rparr>
      else m)"

definition menuAt :: "string list \<Rightarrow> treeNode list \<Rightarrow> td_menu" where
  "menuAt p cs = fold menuStep cs \<lparr>mPath = Join p ''/'', HasPrint = False, HasGet = False, GetArgs = []\<rparr>"

fun enumWalk :: "treeNode list \<Rightarrow> string list \<Rightarrow> td_menu list" where
  "enumWalk [] path = []"
| "enumWalk (Node name ty cs # nodes) path =
     (if ty = ''dir'' \<or> ty = ''path''
      then (let p = path @ [name]; m = menuAt p cs
            in (if HasPrint m \<or> HasGet m then [m] else []) @ enumWalk cs p)
      else []) @ enumWalk nodes path"

definition enumerable :: "treeNode list \<Rightarrow> td_menu list" where
  "enumerable nodes = sort_key mPath (enumWalk nodes [])"

definition without :: "string list \<Rightarrow> string list \<Rightarrow> string list" where
  "without a b = filter (\<lambda>s. s \<notin> set b) a"

definition completion :: "('h, 'd) transport_fn \<Rightarrow> 'h Client \<Rightarrow> string \<Rightarrow> 'd \<Rightarrow> (inspect_error + string list) \<times> 'd" where
  "completion Do c inp d =
     (case inspect Do c ''completion'' inp d of
        (Inl e, d1) \<Rightarrow> (Inl e, d1)
      | (Inr rows, d1) \<Rightarrow> (Inr (fst (shown rows)), d1))"

definition enumerateGet :: "('h, 'd) transport_fn \<Rightarrow> 'h Client \<Rightarrow> td_menu \<Rightarrow> 'd \<Rightarrow> (string list \<times> string) \<times> 'd" where
  "enumerateGet Do c m d =
     (if HasGet m
      then (case completion Do c (''/'' @ mPath m @ ''/get '') d of
              (Inl e, d1) \<Rightarrow> (([], []), d1)
            | (Inr got, d1) \<Rightarrow> ((without got (GetArgs m), ''get''), d1))
      else (([], []), d))"

definition enumerateMenu :: "('h, 'd) transport_fn \<Rightarrow> 'h Client \<Rightarrow> td_menu \<Rightarrow> 'd \<Rightarrow> (string list \<times> string) \<times> 'd" where
  "enumerateMenu Do c m d =
     (if HasPrint m
      then (case completion Do c (''/'' @ mPath m @ ''/print where '') d of
              (Inl e, d1) \<Rightarrow> enumerateGet Do c m d1
            | (Inr wher, d1) \<Rightarrow>
                (case completion Do c (''/'' @ mPath m @ ''/print '') d1 of
                   (Inl e, d2) \<Rightarrow> ((wher, ''print''), d2)
                 | (Inr opts, d2) \<Rightarrow>
                     if without wher opts \<noteq> [] then ((wher, ''print''), d2) else enumerateGet Do c m d2))
      else enumerateGet Do c m d)"

section \<open>The type of a property\<close>

definition white :: string where
  "white = [CHR 0x09, CHR 0x0A, CHR 0x0C, CHR 0x0D, CHR 0x20]"

definition labelRe :: re where
  "labelRe = seqs [Lit ''('', Group (Many (Not '')'')), Lit '')'', Star (One white), Finish]"

text \<open>Both groups and the dots between them are the whole match.\<close>

definition rangeRe :: re where
  "rangeRe = Group (seqs [Many (Not white), Lit ''..'', Many (Not white)])"

definition termList :: "string list \<Rightarrow> bool" where
  "termList vs \<longleftrightarrow> length (filter (\<lambda>v. v \<in> {''.dead'', ''.nextid'', ''about''}) vs) = 3"

definition atoi :: "string \<Rightarrow> int" where
  "atoi s = (case ParseInt s 10 of Inr n \<Rightarrow> n | Inl ErrSyntax \<Rightarrow> 0 | Inl ErrRange \<Rightarrow> if hd s = CHR ''-'' then - (2 ^ 63) else 2 ^ 63 - 1)"

definition addNew :: "string \<Rightarrow> string list \<Rightarrow> string list" where
  "addNew x xs = (if x \<in> set xs then xs else xs @ [x])"

definition syntaxStep :: "anyRow \<Rightarrow> probedArg \<Rightarrow> probedArg" where
  "syntaxStep r a =
     (let row = \<lparr>sDepth = atoi (str r ''nested''), sSymbol = str r ''symbol'', sSymbolType = str r ''symbol-type'', sText = str r ''text''\<rparr>;
          types = (case findGroup labelRe (sText row) of
                     Some label \<Rightarrow> addNew (TrimSpace label) (paTypes a)
                   | None \<Rightarrow> if Contains (sText row) ''string value'' then addNew ''string'' (paTypes a) else paTypes a);
          ranges = (case findGroup rangeRe (sText row) of Some rg \<Rightarrow> addNew rg (paRanges a) | None \<Rightarrow> paRanges a)
      in a\<lparr>paSyntax := paSyntax a @ [row], paTypes := types, paRanges := ranges\<rparr>)"

definition syntaxOf :: "anyRow list \<Rightarrow> probedArg \<Rightarrow> probedArg" where
  "syntaxOf rows a =
     (let a1 = fold syntaxStep rows a;
          a2 = a1\<lparr>paTypes := sort (paTypes a1), paRanges := sort (paRanges a1)\<rparr>
      in if paKind a2 = ''unknown'' \<and> paTypes a2 \<noteq> [] then a2\<lparr>paKind := ''scalar''\<rparr> else a2)"

definition vocabulary :: "string list \<Rightarrow> string list \<Rightarrow> string list" where
  "vocabulary names vs = (if termList vs then filter (\<lambda>v. v \<notin> set notProperties \<and> v \<notin> set names) vs else vs)"

definition openKind :: "string list \<Rightarrow> bool \<Rightarrow> string" where
  "openKind vs freeform = (if vs \<noteq> [] then ''open-enum'' else if freeform then ''scalar'' else ''unknown'')"

definition probe :: "('h, 'd) transport_fn \<Rightarrow> 'h Client \<Rightarrow> string list \<Rightarrow> probedArg \<Rightarrow> 'd \<Rightarrow> probedArg \<times> 'd" where
  "probe Do c names a d =
     (if inputOf a = [] then (a\<lparr>paKind := ''unknown'', paError := Some NoPosition\<rparr>, d)
      else case inspect Do c ''completion'' (inputOf a) d of
        (Inl e, d1) \<Rightarrow> (a\<lparr>paKind := ''unknown'', paError := Some (Inspect e)\<rparr>, d1)
      | (Inr rows, d1) \<Rightarrow>
          (let (vs, freeform) = shown rows; voc = vocabulary names vs; a1 = a\<lparr>paValues := voc\<rparr>
           in if voc \<noteq> [] \<and> \<not> freeform then (a1\<lparr>paKind := ''enum''\<rparr>, d1)
              else (let a2 = a1\<lparr>paKind := openKind voc freeform\<rparr>
                    in case inspect Do c ''syntax'' (inputOf a) d1 of
                         (Inl e, d2) \<Rightarrow> (a2\<lparr>paError := Some (Inspect e)\<rparr>, d2)
                       | (Inr rows', d2) \<Rightarrow> (syntaxOf rows' a2, d2))))"

section \<open>The run\<close>

definition claimArg :: "td_menu \<Rightarrow> string \<Rightarrow> string \<Rightarrow> probedArg go_map \<Rightarrow> probedArg go_map" where
  "claimArg m cmd p byKey =
     (let key = observedKey (mPath m) p
      in if p \<in> set notProperties \<or> key |\<in>| fmdom byKey then byKey
         else fmupd key (mkArg (mPath m) cmd p ''read-only'' (cmd = ''get'')) byKey)"

definition claimMenu :: "td_menu \<Rightarrow> string list \<times> string \<Rightarrow> probedArg go_map \<Rightarrow> probedArg go_map" where
  "claimMenu m = (\<lambda>(names, cmd) byKey. if cmd = [] then byKey else fold (claimArg m cmd) names byKey)"

definition enumCallback ::
  "('h, 'd) transport_fn \<Rightarrow> 'h Client \<Rightarrow> td_menu \<Rightarrow> probedArg go_map \<times> 'd \<Rightarrow> probedArg go_map \<times> 'd" where
  "enumCallback Do c m = (\<lambda>(byKey, d). case enumerateMenu Do c m d of (ans, d1) \<Rightarrow> (claimMenu m ans byKey, d1))"

definition argsOf :: "probedArg go_map \<Rightarrow> probedArg list" where
  "argsOf byKey = sort_key (\<lambda>a. (paPath a, paArg a)) (map (\<lambda>k. the (fmlookup byKey k)) (sorted_keys byKey))"

definition propsAt :: "probedArg list \<Rightarrow> string \<Rightarrow> string list" where
  "propsAt args path = map paArg (filter (\<lambda>a. paPath a = path) args)"

definition probeCallback ::
  "('h, 'd) transport_fn \<Rightarrow> 'h Client \<Rightarrow> (string \<Rightarrow> string list) \<Rightarrow> nat \<Rightarrow> probedArg list \<times> 'd \<Rightarrow> probedArg list \<times> 'd" where
  "probeCallback Do c names i = (\<lambda>(args, d). case probe Do c (names (paPath (args ! i))) (args ! i) d of (a, d1) \<Rightarrow> (args[i := a], d1))"

text \<open>The entries every schedule of the two pools may leave behind, and the dump.\<close>

inductive typedump ::
  "('h, 'd) transport_fn \<Rightarrow> 'h Client \<Rightarrow> nat \<Rightarrow> treeNode list \<Rightarrow> 'd \<Rightarrow> probedArg artifact \<Rightarrow> bool"
  for Do c workers tree d where
  dumped: "pool_run (enumCallback Do c) (each_start workers (enumerable tree) (writable tree, d)) n P \<Longrightarrow> returned P \<Longrightarrow>
     args = argsOf (fst (shared P)) \<Longrightarrow>
     pool_run (probeCallback Do c (propsAt args)) (each_start workers [0 ..< length args] (args, snd (shared P))) n' Q \<Longrightarrow> returned Q \<Longrightarrow>
     identity Do c (snd (shared Q)) = ((v, arch, board), d') \<Longrightarrow>
     typedump Do c workers tree d
       \<lparr>arVersion = v, arArchitecture = arch, arGeneratedBy = ''hack/typedump'', arEntries = fst (shared Q)\<rparr>"

text \<open>What the builder of the IR reads of an entry.\<close>

definition readArg :: "probedArg \<Rightarrow> argType" where
  "readArg a = \<lparr>aPath = paPath a, aArg = paArg a, aAccess = paAccess a, aKind = paKind a, aValues = paValues a,
     aTypes = paTypes a, aRanges = paRanges a, aCommand = paCommand a\<rparr>"


section \<open>A console that answers consistently\<close>

text \<open>What one request at a time would find, given the answers of the console.\<close>

type_synonym answers = "string \<Rightarrow> string \<Rightarrow> inspect_error + anyRow list"

definition offered :: "answers \<Rightarrow> string \<Rightarrow> inspect_error + string list" where
  "offered answer inp = map_sum id (\<lambda>rows. fst (shown rows)) (answer ''completion'' inp)"

definition enumGetOf :: "answers \<Rightarrow> td_menu \<Rightarrow> string list \<times> string" where
  "enumGetOf answer m =
     (if HasGet m
      then (case offered answer (''/'' @ mPath m @ ''/get '') of Inl e \<Rightarrow> ([], []) | Inr got \<Rightarrow> (without got (GetArgs m), ''get''))
      else ([], []))"

definition enumOf :: "answers \<Rightarrow> td_menu \<Rightarrow> string list \<times> string" where
  "enumOf answer m =
     (if HasPrint m
      then (case (offered answer (''/'' @ mPath m @ ''/print where ''), offered answer (''/'' @ mPath m @ ''/print '')) of
              (Inl e, _) \<Rightarrow> enumGetOf answer m
            | (Inr wher, Inl e) \<Rightarrow> (wher, ''print'')
            | (Inr wher, Inr opts) \<Rightarrow> if without wher opts \<noteq> [] then (wher, ''print'') else enumGetOf answer m)
      else enumGetOf answer m)"

definition typeOf :: "answers \<Rightarrow> string list \<Rightarrow> probedArg \<Rightarrow> probedArg" where
  "typeOf answer names a =
     (if inputOf a = [] then a\<lparr>paKind := ''unknown'', paError := Some NoPosition\<rparr>
      else case answer ''completion'' (inputOf a) of
        Inl e \<Rightarrow> a\<lparr>paKind := ''unknown'', paError := Some (Inspect e)\<rparr>
      | Inr rows \<Rightarrow>
          (let (vs, freeform) = shown rows; voc = vocabulary names vs; a1 = a\<lparr>paValues := voc\<rparr>
           in if voc \<noteq> [] \<and> \<not> freeform then a1\<lparr>paKind := ''enum''\<rparr>
              else (let a2 = a1\<lparr>paKind := openKind voc freeform\<rparr>
                    in case answer ''syntax'' (inputOf a) of
                         Inl e \<Rightarrow> a2\<lparr>paError := Some (Inspect e)\<rparr>
                       | Inr rows' \<Rightarrow> syntaxOf rows' a2)))"

definition foundArgs :: "answers \<Rightarrow> treeNode list \<Rightarrow> probedArg go_map" where
  "foundArgs answer tree = fold (\<lambda>m. claimMenu m (enumOf answer m)) (enumerable tree) (writable tree)"

definition entriesOf :: "answers \<Rightarrow> treeNode list \<Rightarrow> probedArg list" where
  "entriesOf answer tree =
     (let args = argsOf (foundArgs answer tree) in map (\<lambda>a. typeOf answer (propsAt args (paPath a)) a) args)"

lemma fold_commute_lists:
  assumes "\<And>x y v. x \<in> set xs \<Longrightarrow> y \<in> set ys \<Longrightarrow> f x (g y v) = g y (f x v)"
  shows "fold f xs (fold g ys v) = fold g ys (fold f xs v)"
proof -
  have one: "f x (fold g ys v) = fold g ys (f x v)" if "x \<in> set xs" for x v
    using assms that by (induction ys arbitrary: v) auto
  show ?thesis using one by (induction xs arbitrary: v) auto
qed

lemma observedKey_inject:
  assumes "CHR 0x00 \<notin> set p" and "CHR 0x00 \<notin> set q"
  shows "observedKey p a = observedKey q b \<longleftrightarrow> p = q \<and> a = b"
  using assms
proof (induction p arbitrary: q)
  case (Cons x p)
  then show ?case by (cases q) (auto simp: observedKey_def)
qed (auto simp: observedKey_def Cons_eq_append_conv)

lemma claimArg_commute:
  assumes "CHR 0x00 \<notin> set (mPath m)" and "CHR 0x00 \<notin> set (mPath m')" and "mPath m \<noteq> mPath m'"
  shows "claimArg m cmd p (claimArg m' cmd' p' v) = claimArg m' cmd' p' (claimArg m cmd p v)"
  using observedKey_inject [OF assms(1,2), of p p'] assms(3) by (auto simp: claimArg_def Let_def fmupd_reorder_neq)

lemma fold_update_each:
  "n \<le> length xs \<Longrightarrow> fold (\<lambda>i ys. ys[i := h (ys ! i)]) [0 ..< n] xs = map h (take n xs) @ drop n xs"
proof (induction n)
  case (Suc n)
  have "(map h (take n xs) @ drop n xs) ! n = xs ! n" using Suc.prems by (simp add: nth_append)
  moreover have "(map h (take n xs) @ drop n xs)[n := h (xs ! n)] = map h (take (Suc n) xs) @ drop (Suc n) xs"
    using Suc.prems by (simp add: list_update_append take_Suc_conv_app_nth Cons_nth_drop_Suc [symmetric])
  ultimately show ?case using Suc by simp
qed simp

section \<open>What the tree offers\<close>

lemma menuAt_simps [simp]:
  "mPath (menuAt p cs) = Join p ''/''"
  "HasPrint (menuAt p cs) \<longleftrightarrow> ''print'' \<in> set (commandsOf cs)"
  "HasGet (menuAt p cs) \<longleftrightarrow> ''get'' \<in> set (commandsOf cs)"
proof -
  have "mPath (fold menuStep cs m) = mPath m
    \<and> (HasPrint (fold menuStep cs m) \<longleftrightarrow> HasPrint m \<or> ''print'' \<in> set (commandsOf cs))
    \<and> (HasGet (fold menuStep cs m) \<longleftrightarrow> HasGet m \<or> ''get'' \<in> set (commandsOf cs))" for m
    by (induction cs arbitrary: m) (auto simp: menuStep_def commandsOf_def)
  then show "mPath (menuAt p cs) = Join p ''/''"
    "HasPrint (menuAt p cs) \<longleftrightarrow> ''print'' \<in> set (commandsOf cs)"
    "HasGet (menuAt p cs) \<longleftrightarrow> ''get'' \<in> set (commandsOf cs)" by (simp_all add: menuAt_def)
qed

lemma reach_ex:
  "(\<exists>p n. reach (Node name ty cs # nodes) p n \<and> Q p n) \<longleftrightarrow>
     (ty = ''dir'' \<or> ty = ''path'') \<and> (Q [name] (Node name ty cs) \<or> (\<exists>p n. reach cs p n \<and> Q (name # p) n))
     \<or> (\<exists>p n. reach nodes p n \<and> Q p n)"
  unfolding reach_Cons by auto

lemma set_enumWalk:
  "m \<in> set (enumWalk nodes path) \<longleftrightarrow> (\<exists>p n. reach nodes p n \<and> readable n \<and> m = menuAt (path @ p) (Children n))"
proof (induction nodes path rule: enumWalk.induct)
  case (2 name ty cs nodes path)
  then show ?case by (simp add: reach_ex Let_def readable_def) blast
qed (simp add: reach_Nil)

lemma set_enumerable: "set (enumerable tree) = {menuAt p (Children n) | p n. reach tree p n \<and> readable n}"
  unfolding enumerable_def set_sort using set_enumWalk [of _ tree "[]"] by auto blast+

locale steady_console =
  fixes Do :: "('h, 'd) transport_fn" and c :: "'h Client" and answer :: answers and who :: "string \<times> string \<times> string"
  assumes answers: "fst (inspect Do c request inp d) = answer request inp"
    and stamped: "fst (identity Do c d) = who"
begin

lemma inspect_steady: "\<exists>d'. inspect Do c request inp d = (answer request inp, d')"
  using answers [of request inp d] by (metis prod.collapse)

lemma completion_steady: "\<exists>d'. completion Do c inp d = (offered answer inp, d')"
  using inspect_steady [of "''completion''" inp d] by (auto simp: completion_def offered_def split: sum.splits)

lemma enumerateGet_steady: "fst (enumerateGet Do c m d) = enumGetOf answer m"
  using completion_steady [of "''/'' @ mPath m @ ''/get ''" d] by (auto simp: enumerateGet_def enumGetOf_def split: sum.splits)

lemma enumerate_steady: "fst (enumerateMenu Do c m d) = enumOf answer m"
proof -
  obtain d1 where 1: "completion Do c (''/'' @ mPath m @ ''/print where '') d = (offered answer (''/'' @ mPath m @ ''/print where ''), d1)"
    using completion_steady by blast
  obtain d2 where 2: "completion Do c (''/'' @ mPath m @ ''/print '') d1 = (offered answer (''/'' @ mPath m @ ''/print ''), d2)"
    using completion_steady by blast
  show ?thesis
    using 1 2 by (simp add: enumerateMenu_def enumOf_def enumerateGet_steady split: sum.splits)
qed

lemma probe_steady: "fst (probe Do c names a d) = typeOf answer names a"
proof -
  obtain d1 where 1: "inspect Do c ''completion'' (inputOf a) d = (answer ''completion'' (inputOf a), d1)" using inspect_steady by blast
  obtain d2 where 2: "inspect Do c ''syntax'' (inputOf a) d1 = (answer ''syntax'' (inputOf a), d2)" using inspect_steady by blast
  show ?thesis using 1 2 by (simp add: probe_def typeOf_def Let_def split: sum.splits prod.splits)
qed

end

text \<open>A steady console whose tree has every menu once.\<close>

locale dumped_console = steady_console Do c answer who
  for Do :: "('h, 'd) transport_fn" and c :: "'h Client" and answer :: answers and who :: "string \<times> string \<times> string" +
  fixes tree :: "treeNode list"
  assumes menus: "distinct (map mPath (enumerable tree))"
    and clear: "reach tree p n \<Longrightarrow> CHR 0x00 \<notin> set (Join p ''/'')"
begin

lemma printable: "m \<in> set (enumerable tree) \<Longrightarrow> CHR 0x00 \<notin> set (mPath m)"
  using clear by (auto simp: set_enumerable)

end

sublocale dumped_console \<subseteq> enumerating: commuting_callbacks "enumCallback Do c" fst "\<lambda>m. claimMenu m (enumOf answer m)" "enumerable tree"
proof
  show "fst (enumCallback Do c m s) = claimMenu m (enumOf answer m) (fst s)" for m s
    using enumerate_steady [of m "snd s"] by (auto simp: enumCallback_def split: prod.splits)
  show "claimMenu m (enumOf answer m) (claimMenu m' (enumOf answer m') v) = claimMenu m' (enumOf answer m') (claimMenu m (enumOf answer m) v)"
    if m: "m \<in> set (enumerable tree)" "m' \<in> set (enumerable tree)" for m m' v
  proof (cases "m = m'")
    case False
    then have "mPath m \<noteq> mPath m'" using menus m by (auto simp: distinct_map inj_on_def)
    then show ?thesis
      using claimArg_commute [OF printable [OF m(1)] printable [OF m(2)]]
      by (auto simp: claimMenu_def split: prod.splits intro!: fold_commute_lists)
  qed simp
qed

sublocale dumped_console \<subseteq> probing: commuting_callbacks "probeCallback Do c names" fst
    "\<lambda>i args. args[i := typeOf answer (names (paPath (args ! i))) (args ! i)]" "[0 ..< n]" for names n
proof
  show "fst (probeCallback Do c names i s) = (fst s)[i := typeOf answer (names (paPath (fst s ! i))) (fst s ! i)]" for i s
    using probe_steady [of _ "fst s ! i" "snd s"] by (auto simp: probeCallback_def split: prod.splits) (metis fst_conv)
  show "(args[j := typeOf answer (names (paPath (args ! j))) (args ! j)])
      [i := typeOf answer (names (paPath (args[j := typeOf answer (names (paPath (args ! j))) (args ! j)] ! i)))
        (args[j := typeOf answer (names (paPath (args ! j))) (args ! j)] ! i)]
    = (args[i := typeOf answer (names (paPath (args ! i))) (args ! i)])
      [j := typeOf answer (names (paPath (args[i := typeOf answer (names (paPath (args ! i))) (args ! i)] ! j)))
        (args[i := typeOf answer (names (paPath (args ! i))) (args ! i)] ! j)]" for i j args
    by (cases "i = j") (simp_all add: list_update_swap)
qed

context dumped_console
begin

lemma typedump_entries:
  assumes "typedump Do c workers tree d r"
  shows "arEntries r = entriesOf answer tree \<and> (arVersion r, arArchitecture r) = (fst who, fst (snd who)) \<and> arGeneratedBy r = ''hack/typedump''"
  using assms
proof cases
  case (dumped n P args n' Q v arch board d')
  have "fst (shared P) = foundArgs answer tree"
    using enumerating.pool_result [OF dumped(2,3)] by (simp add: foundArgs_def)
  then have args: "args = argsOf (foundArgs answer tree)" using dumped(4) by simp
  have "fst (shared Q) = fold (\<lambda>i ys. ys[i := typeOf answer (propsAt args (paPath (ys ! i))) (ys ! i)]) [0 ..< length args] args"
    using probing.pool_result [OF dumped(5,6)] by simp
  then have "fst (shared Q) = entriesOf answer tree"
    using fold_update_each [of "length args" args "\<lambda>a. typeOf answer (propsAt args (paPath a)) a"] by (simp add: entriesOf_def args Let_def)
  moreover have "(v, arch, board) = who" using stamped [of "snd (shared Q)"] dumped(7) by simp
  ultimately show ?thesis using dumped(1) by auto
qed

lemma typedump_exists:
  assumes "0 < workers" shows "\<exists>r. typedump Do c workers tree d r"
proof -
  obtain P where P: "pool_run (enumCallback Do c) (each_start workers (enumerable tree) (writable tree, d)) (2 * length (enumerable tree)) P" "returned P"
    using each_exists [OF assms, of "enumCallback Do c" "enumerable tree" "(writable tree, d)"] by auto
  let ?args = "argsOf (fst (shared P))"
  obtain Q where Q: "pool_run (probeCallback Do c (propsAt ?args)) (each_start workers [0 ..< length ?args] (?args, snd (shared P))) (2 * length [0 ..< length ?args]) Q" "returned Q"
    using each_exists [OF assms, of "probeCallback Do c (propsAt ?args)" "[0 ..< length ?args]" "(?args, snd (shared P))"] by auto
  obtain v arch board d' where "identity Do c (snd (shared Q)) = ((v, arch, board), d')" by (metis surj_pair)
  then show ?thesis using typedump.dumped [OF P refl Q] by blast
qed

end

end
