(* ===== verification/Type_Dump_Exact.thy ===== *)
theory Type_Dump_Exact
  imports Type_Dump
begin

text \<open>
  What a dump of \<open>Type_Dump\<close> lists, as a function of the console tree and the answers of the console, and
  what the builder of the IR concludes from it.
\<close>

section \<open>The entries of a dump\<close>

text \<open>The menu at a path offers a command that takes an argument; bookkeeping is no property.\<close>

definition declares :: "treeNode list \<Rightarrow> string \<Rightarrow> string \<Rightarrow> string \<Rightarrow> bool" where
  "declares tree path cmd a \<longleftrightarrow> a \<notin> set notProperties \<and>
     (\<exists>p cs args. path = Join p ''/'' \<and> (p = [] \<and> cs = tree \<or> (\<exists>n. reach tree p n \<and> cs = Children n))
        \<and> Node cmd ''cmd'' args \<in> set cs \<and> a \<in> set (argNames args))"

fun decls :: "treeNode list \<Rightarrow> string list \<Rightarrow> (string list \<times> string \<times> string) list" where
  "decls [] path = []"
| "decls (Node name ty cs # nodes) path =
     (if ty = ''dir'' \<or> ty = ''path'' then decls cs (path @ [name])
      else if ty = ''cmd'' \<and> (name = ''add'' \<or> name = ''set'')
      then map (\<lambda>a. (path, name, a)) (filter (\<lambda>a. a \<notin> set notProperties) (argNames cs))
      else []) @ decls nodes path"

definition declareOne :: "string list \<times> string \<times> string \<Rightarrow> probedArg go_map \<Rightarrow> probedArg go_map" where
  "declareOne = (\<lambda>(path, cmd, a) out.
     let key = observedKey (Join path ''/'') a
     in case fmlookup out key of
          Some prev \<Rightarrow> if paCommand prev = ''set'' then out else fmupd key (mkArg (Join path ''/'') cmd a ''writable'' False) out
        | None \<Rightarrow> fmupd key (mkArg (Join path ''/'') cmd a ''writable'' False) out)"

lemma fold_declareArg:
  "fold (declareArg cmd path) cs out =
     fold declareOne (map (\<lambda>a. (path, cmd, a)) (filter (\<lambda>a. a \<notin> set notProperties) (argNames cs))) out"
  by (induction cs arbitrary: out) (auto simp: declareArg_def declareOne_def argNames_def Let_def)

lemma writableWalk_decls: "writableWalk nodes path out = fold declareOne (decls nodes path) out"
  by (induction nodes path out rule: writableWalk.induct) (auto simp: fold_declareArg)

text \<open>An induction over the tree: the menu itself, then the menus below.\<close>

lemma set_decls:
  "(q, cmd, a) \<in> set (decls nodes path) \<longleftrightarrow>
     (cmd = ''add'' \<or> cmd = ''set'') \<and> a \<notin> set notProperties \<and>
     ((\<exists>args. q = path \<and> Node cmd ''cmd'' args \<in> set nodes \<and> a \<in> set (argNames args))
      \<or> (\<exists>p n. reach nodes p n \<and> (\<exists>args. q = path @ p \<and> Node cmd ''cmd'' args \<in> set (Children n) \<and> a \<in> set (argNames args))))"
proof (induction nodes path rule: decls.induct)
  case (2 name ty cs nodes path)
  let ?Q = "\<lambda>q' cs'. \<exists>args. q = q' \<and> Node cmd ''cmd'' args \<in> set cs' \<and> a \<in> set (argNames args)"
  show ?case
  proof (cases "ty = ''dir'' \<or> ty = ''path''")
    case True
    then have "?Q path (Node name ty cs # nodes) \<longleftrightarrow> ?Q path nodes" by auto
    then show ?thesis using True 2 by (simp add: reach_ex) blast
  next
    case False
    define R where "R nodes \<longleftrightarrow> (\<exists>p n. reach nodes p n \<and> ?Q (path @ p) (Children n))" for nodes
    define L where "L nodes \<longleftrightarrow> ?Q path nodes" for nodes
    define H where "H \<longleftrightarrow> q = path \<and> cmd = name \<and> ty = ''cmd'' \<and> a \<in> set (argNames cs)"
    have "R (Node name ty cs # nodes) \<longleftrightarrow> R nodes" using False by (simp add: reach_ex R_def)
    moreover have "L (Node name ty cs # nodes) \<longleftrightarrow> H \<or> L nodes" by (auto simp: L_def H_def)
    moreover have "(q, cmd, a) \<in> set (decls (Node name ty cs # nodes) path) \<longleftrightarrow>
        H \<and> (cmd = ''add'' \<or> cmd = ''set'') \<and> a \<notin> set notProperties \<or> (q, cmd, a) \<in> set (decls nodes path)"
      using False by (auto simp: H_def)
    moreover have "(q, cmd, a) \<in> set (decls nodes path) \<longleftrightarrow> (cmd = ''add'' \<or> cmd = ''set'') \<and> a \<notin> set notProperties \<and> (L nodes \<or> R nodes)"
      using "2.IH" False by (simp add: L_def R_def)
    ultimately show ?thesis unfolding L_def [symmetric] R_def [symmetric] by argo
  qed
qed (simp add: reach_Nil)

lemma decls_declares:
  "(\<exists>p. (p, cmd, a) \<in> set (decls tree []) \<and> Join p ''/'' = path) \<longleftrightarrow> (cmd = ''add'' \<or> cmd = ''set'') \<and> declares tree path cmd a"
  unfolding set_decls declares_def by auto

lemma fold_declare:
  assumes "\<And>p cmd b. (p, cmd, b) \<in> set ds \<Longrightarrow> (cmd = ''add'' \<or> cmd = ''set'') \<and> CHR 0x00 \<notin> set (Join p ''/'')"
    and "CHR 0x00 \<notin> set path"
  shows "fmlookup (fold declareOne ds fmempty) (observedKey path a) =
    (if \<exists>p. (p, ''set'', a) \<in> set ds \<and> Join p ''/'' = path then Some (mkArg path ''set'' a ''writable'' False)
     else if \<exists>p. (p, ''add'', a) \<in> set ds \<and> Join p ''/'' = path then Some (mkArg path ''add'' a ''writable'' False) else None)"
  using assms(1)
proof (induction ds rule: rev_induct)
  case (snoc x ds)
  obtain p cmd b where x: "x = (p, cmd, b)" by (cases x)
  have cmd: "cmd = ''add'' \<or> cmd = ''set''" and clear: "CHR 0x00 \<notin> set (Join p ''/'')" using snoc.prems [of p cmd b] x by auto
  have key: "observedKey (Join p ''/'') b = observedKey path a \<longleftrightarrow> Join p ''/'' = path \<and> b = a"
    by (rule observedKey_inject [OF clear assms(2)])
  have IH: "fmlookup (fold declareOne ds fmempty) (observedKey path a) =
    (if \<exists>p. (p, ''set'', a) \<in> set ds \<and> Join p ''/'' = path then Some (mkArg path ''set'' a ''writable'' False)
     else if \<exists>p. (p, ''add'', a) \<in> set ds \<and> Join p ''/'' = path then Some (mkArg path ''add'' a ''writable'' False) else None)"
  proof (rule snoc.IH)
    show "(cmd = ''add'' \<or> cmd = ''set'') \<and> CHR 0x00 \<notin> set (Join p ''/'')" if "(p, cmd, b) \<in> set ds" for p cmd b
      using snoc.prems [of p cmd b] that by simp
  qed
  show ?case
  proof (cases "Join p ''/'' = path \<and> b = a")
    case True
    then show ?thesis using IH cmd by (auto simp: x declareOne_def Let_def mkArg_def)
  next
    case False
    then have "fmlookup (declareOne x M) (observedKey path a) = fmlookup M (observedKey path a)" for M
      using key by (auto simp: x declareOne_def Let_def split: option.splits)
    then show ?thesis using IH False by (auto simp: x)
  qed
qed simp

lemma fold_claim:
  assumes "CHR 0x00 \<notin> set (mPath m)" and "CHR 0x00 \<notin> set path"
  shows "fmlookup (fold (claimArg m cmd) ps M) (observedKey path a) =
    (case fmlookup M (observedKey path a) of
       Some x \<Rightarrow> Some x
     | None \<Rightarrow> if mPath m = path \<and> a \<in> set ps \<and> a \<notin> set notProperties then Some (mkArg path cmd a ''read-only'' (cmd = ''get'')) else None)"
  using observedKey_inject [OF assms]
  by (induction ps arbitrary: M) (auto simp: claimArg_def Let_def fmlookup_dom_iff split: option.splits)

definition claims :: "answers \<Rightarrow> string \<Rightarrow> string \<Rightarrow> td_menu \<Rightarrow> bool" where
  "claims answer path a m \<longleftrightarrow> mPath m = path \<and> snd (enumOf answer m) \<noteq> [] \<and> a \<in> set (fst (enumOf answer m)) \<and> a \<notin> set notProperties"

lemma fold_claims:
  assumes "CHR 0x00 \<notin> set path" and "\<And>m. m \<in> set ms \<Longrightarrow> CHR 0x00 \<notin> set (mPath m)"
  shows "fmlookup (fold (\<lambda>m. claimMenu m (enumOf answer m)) ms M) (observedKey path a) =
    (case fmlookup M (observedKey path a) of
       Some x \<Rightarrow> Some x
     | None \<Rightarrow> (case find (claims answer path a) ms of
                 Some m \<Rightarrow> Some (mkArg path (snd (enumOf answer m)) a ''read-only'' (snd (enumOf answer m) = ''get''))
               | None \<Rightarrow> None))"
  using assms(2)
proof (induction ms arbitrary: M)
  case (Cons m ms)
  have m: "CHR 0x00 \<notin> set (mPath m)" using Cons.prems by simp
  have "fmlookup (claimMenu m (enumOf answer m) M) (observedKey path a) =
    (case fmlookup M (observedKey path a) of
       Some x \<Rightarrow> Some x
     | None \<Rightarrow> if claims answer path a m then Some (mkArg path (snd (enumOf answer m)) a ''read-only'' (snd (enumOf answer m) = ''get'')) else None)"
    using fold_claim [OF m assms(1), of "snd (enumOf answer m)" "fst (enumOf answer m)"]
    by (auto simp: claimMenu_def claims_def split: prod.splits option.splits)
  then show ?case using Cons by (auto split: option.splits)
qed (simp split: option.splits)

lemma found_in: "find P xs = Some x \<Longrightarrow> x \<in> set xs \<and> P x"
  by (auto simp: find_Some_iff)

text \<open>Every entry stands under its own key.\<close>

definition ownKeys :: "probedArg go_map \<Rightarrow> bool" where
  "ownKeys M \<longleftrightarrow> (\<forall>k x. fmlookup M k = Some x \<longrightarrow> k = observedKey (paPath x) (paArg x) \<and> CHR 0x00 \<notin> set (paPath x))"

lemma ownKeys_declare: "ownKeys M \<Longrightarrow> CHR 0x00 \<notin> set (Join p ''/'') \<Longrightarrow> ownKeys (declareOne (p, cmd, a) M)"
  by (auto simp: ownKeys_def declareOne_def Let_def mkArg_def split: option.splits if_splits)

lemma ownKeys_claim: "ownKeys M \<Longrightarrow> CHR 0x00 \<notin> set (mPath m) \<Longrightarrow> ownKeys (claimArg m cmd a M)"
  by (auto simp: ownKeys_def claimArg_def Let_def mkArg_def split: if_splits)

lemma fold_invariant: "(\<And>x s. x \<in> set xs \<Longrightarrow> I s \<Longrightarrow> I (f x s)) \<Longrightarrow> I s \<Longrightarrow> I (fold f xs s)"
  by (induction xs arbitrary: s) auto

lemma argsOf_entries:
  assumes "ownKeys M"
  shows "e \<in> set (argsOf M) \<longleftrightarrow> fmlookup M (observedKey (paPath e) (paArg e)) = Some e"
proof
  assume "e \<in> set (argsOf M)"
  then obtain k where k: "k \<in> fmdom' M" "e = the (fmlookup M k)" by (auto simp: argsOf_def)
  then have "fmlookup M k = Some e" by (auto simp: fmlookup_dom'_iff)
  moreover from this have "k = observedKey (paPath e) (paArg e)" using assms by (simp add: ownKeys_def)
  ultimately show "fmlookup M (observedKey (paPath e) (paArg e)) = Some e" by simp
next
  assume "fmlookup M (observedKey (paPath e) (paArg e)) = Some e"
  then show "e \<in> set (argsOf M)" by (force simp: argsOf_def fmlookup_dom'_iff)
qed

lemma typeOf_keeps [simp]:
  "paPath (typeOf answer names a) = paPath a" "paArg (typeOf answer names a) = paArg a"
  "paAccess (typeOf answer names a) = paAccess a" "paCommand (typeOf answer names a) = paCommand a"
proof -
  have step: "paPath (fold syntaxStep rows a) = paPath a \<and> paArg (fold syntaxStep rows a) = paArg a
    \<and> paAccess (fold syntaxStep rows a) = paAccess a \<and> paCommand (fold syntaxStep rows a) = paCommand a" for rows a
    by (rule fold_invariant) (simp_all add: syntaxStep_def Let_def)
  have "paPath (syntaxOf rows a) = paPath a \<and> paArg (syntaxOf rows a) = paArg a
    \<and> paAccess (syntaxOf rows a) = paAccess a \<and> paCommand (syntaxOf rows a) = paCommand a" for rows a
    using step [of rows a] by (simp add: syntaxOf_def Let_def)
  then show "paPath (typeOf answer names a) = paPath a" "paArg (typeOf answer names a) = paArg a"
    "paAccess (typeOf answer names a) = paAccess a" "paCommand (typeOf answer names a) = paCommand a"
    by (simp_all add: typeOf_def Let_def split: sum.splits prod.splits)
qed

context dumped_console
begin

lemma decls_clear: "(p, cmd, b) \<in> set (decls tree []) \<Longrightarrow> (cmd = ''add'' \<or> cmd = ''set'') \<and> CHR 0x00 \<notin> set (Join p ''/'')"
  unfolding set_decls using clear by auto

lemma found_ownKeys: "ownKeys (foundArgs answer tree)"
proof -
  have "ownKeys (writable tree)" unfolding writable_def writableWalk_decls
    using decls_clear by (intro fold_invariant [where I = ownKeys]) (auto intro!: ownKeys_declare simp: ownKeys_def [of fmempty])
  then show ?thesis unfolding foundArgs_def
    using printable by (intro fold_invariant [where I = ownKeys])
      (auto simp: claimMenu_def split: prod.splits intro!: fold_invariant [where I = ownKeys] ownKeys_claim)
qed

lemma found_lookup:
  assumes "CHR 0x00 \<notin> set path"
  shows "fmlookup (foundArgs answer tree) (observedKey path a) =
    (if declares tree path ''set'' a then Some (mkArg path ''set'' a ''writable'' False)
     else if declares tree path ''add'' a then Some (mkArg path ''add'' a ''writable'' False)
     else case find (claims answer path a) (enumerable tree) of
            Some m \<Rightarrow> Some (mkArg path (snd (enumOf answer m)) a ''read-only'' (snd (enumOf answer m) = ''get''))
          | None \<Rightarrow> None)"
  using fold_claims [OF assms printable, of "enumerable tree"] fold_declare [OF decls_clear assms]
    decls_declares [of "''set''" a tree path] decls_declares [of "''add''" a tree path]
  by (simp add: foundArgs_def writable_def writableWalk_decls)

lemma entry_lookup:
  "(\<exists>e \<in> set (entriesOf answer tree). (paPath e, paArg e, paAccess e, paCommand e) = (path, a, access, cmd)) \<longleftrightarrow>
     (\<exists>e. fmlookup (foundArgs answer tree) (observedKey path a) = Some e \<and> CHR 0x00 \<notin> set path \<and> paAccess e = access \<and> paCommand e = cmd)"
  (is "?L \<longleftrightarrow> ?R")
proof
  assume ?L
  then obtain e where e: "e \<in> set (argsOf (foundArgs answer tree))" "(paPath e, paArg e, paAccess e, paCommand e) = (path, a, access, cmd)"
    by (auto simp: entriesOf_def Let_def)
  then have "fmlookup (foundArgs answer tree) (observedKey path a) = Some e" using argsOf_entries [OF found_ownKeys] by auto
  moreover from this have "CHR 0x00 \<notin> set path" using found_ownKeys e(2) by (auto simp: ownKeys_def)
  ultimately show ?R using e(2) by blast
next
  assume ?R
  then obtain e where e: "fmlookup (foundArgs answer tree) (observedKey path a) = Some e" "CHR 0x00 \<notin> set path" "paAccess e = access" "paCommand e = cmd" by blast
  then have "observedKey path a = observedKey (paPath e) (paArg e)" "CHR 0x00 \<notin> set (paPath e)" using found_ownKeys by (auto simp: ownKeys_def)
  then have "paPath e = path" "paArg e = a" using observedKey_inject e(2) by auto
  moreover from this have "e \<in> set (argsOf (foundArgs answer tree))" using argsOf_entries [OF found_ownKeys] e(1) by simp
  ultimately show ?L using e(3,4) by (force simp: entriesOf_def Let_def)
qed

lemma claims_unique:
  assumes "m \<in> set (enumerable tree)" and "claims answer path a m"
  shows "find (claims answer path a) (enumerable tree) = Some m"
proof -
  obtain m' where m': "find (claims answer path a) (enumerable tree) = Some m'" using assms by (metis find_None_iff option.exhaust)
  then have "m' \<in> set (enumerable tree)" "mPath m' = mPath m" using assms(2) by (auto simp: find_Some_iff claims_def)
  then have "m' = m" using menus assms(1) by (auto simp: distinct_map inj_on_def)
  then show ?thesis using m' by simp
qed

lemma dump_entries:
  "(\<exists>e \<in> set (entriesOf answer tree). (paPath e, paArg e, paAccess e, paCommand e) = (path, a, access, cmd)) \<longleftrightarrow>
    access = ''writable'' \<and> declares tree path cmd a \<and> (cmd = ''set'' \<or> cmd = ''add'' \<and> \<not> declares tree path ''set'' a)
    \<or> access = ''read-only'' \<and> \<not> declares tree path ''set'' a \<and> \<not> declares tree path ''add'' a
      \<and> (\<exists>m \<in> set (enumerable tree). claims answer path a m \<and> cmd = snd (enumOf answer m))"
proof (cases "CHR 0x00 \<in> set path")
  case True
  have "\<not> declares tree path x a" for x using True clear by (auto simp: declares_def)
  moreover have "\<not> claims answer path a m" if "m \<in> set (enumerable tree)" for m using True printable that by (auto simp: claims_def)
  ultimately show ?thesis unfolding entry_lookup using True by blast
next
  case False
  have "(\<exists>m \<in> set (enumerable tree). claims answer path a m \<and> cmd = snd (enumOf answer m)) \<longleftrightarrow>
      (\<exists>m. find (claims answer path a) (enumerable tree) = Some m \<and> cmd = snd (enumOf answer m))"
    using claims_unique found_in [of "claims answer path a" "enumerable tree"] by metis
  then show ?thesis unfolding entry_lookup found_lookup [OF False] using False
    by (auto simp: mkArg_def split: option.splits)
qed

end


section \<open>Trees with one menu per path\<close>

definition clearName :: "string \<Rightarrow> bool" where
  "clearName s \<longleftrightarrow> s \<noteq> [] \<and> CHR ''/'' \<notin> set s \<and> CHR 0x00 \<notin> set s"

primrec clearNode :: "treeNode \<Rightarrow> bool" where
  "clearNode (Node name ty cs) \<longleftrightarrow> clearName name \<and> distinct (map nodeName cs) \<and> list_all id (map clearNode cs)"

definition clearTree :: "treeNode list \<Rightarrow> bool" where
  "clearTree nodes \<longleftrightarrow> distinct (map nodeName nodes) \<and> list_all clearNode nodes"

lemma reach_clear: "reach nodes p n \<Longrightarrow> list_all clearNode nodes \<Longrightarrow> p \<noteq> [] \<and> hd p \<in> nodeName ` set nodes \<and> list_all clearName p"
proof (induction rule: reach.induct)
  case (here nm ty cs nodes)
  then show ?case by (force simp: list_all_iff)
next
  case (below nm ty cs nodes p n)
  then have "clearNode (Node nm ty cs)" by (auto simp: list_all_iff)
  then show ?case using below by (force simp: list_all_iff)
qed

lemma Join_clear: "list_all clearName p \<Longrightarrow> CHR 0x00 \<notin> set (Join p ''/'')"
  by (induction p "''/''" rule: Join.induct) (auto simp: clearName_def)

lemma Join_inject: "list_all clearName p \<Longrightarrow> list_all clearName q \<Longrightarrow> p \<noteq> [] \<Longrightarrow> q \<noteq> [] \<Longrightarrow> Join p ''/'' = Join q ''/'' \<longleftrightarrow> p = q"
proof -
  assume a: "list_all clearName p" "list_all clearName q" "p \<noteq> []" "q \<noteq> []"
  have "Split (Join p ''/'') (CHR ''/'') = p" "Split (Join q ''/'') (CHR ''/'') = q"
    using a by (auto intro!: Split_Join simp: clearName_def list_all_iff)
  then show ?thesis by metis
qed

lemma enumWalk_distinct:
  "list_all clearName path \<Longrightarrow> clearTree nodes \<Longrightarrow> distinct (map mPath (enumWalk nodes path))"
proof (induction nodes path rule: enumWalk.induct)
  case (2 name ty cs nodes path)
  let ?here = "Join (path @ [name]) ''/''"
  have cs: "list_all clearName (path @ [name])" "clearTree cs" "list_all clearNode cs" and nodes: "clearTree nodes" "list_all clearNode nodes" and new: "name \<notin> nodeName ` set nodes"
    using "2.prems" by (auto simp: clearTree_def list_all_iff)
  have sub: "x \<in> set (enumWalk cs (path @ [name])) \<Longrightarrow> \<exists>q. mPath x = Join (path @ [name] @ q) ''/'' \<and> q \<noteq> [] \<and> list_all clearName q" for x
    using reach_clear cs(3) by (auto simp: set_enumWalk) blast
  have other: "x \<in> set (enumWalk nodes path) \<Longrightarrow> \<exists>q. mPath x = Join (path @ q) ''/'' \<and> q \<noteq> [] \<and> hd q \<noteq> name \<and> list_all clearName q" for x
    using reach_clear nodes(2) new by (fastforce simp: set_enumWalk)
  have away: "mPath x \<noteq> ?here" if x: "x \<in> set (enumWalk cs (path @ [name])) \<union> set (enumWalk nodes path)" for x
  proof -
    consider q where "mPath x = Join (path @ [name] @ q) ''/''" "q \<noteq> []" "list_all clearName q"
      | q where "mPath x = Join (path @ q) ''/''" "q \<noteq> []" "hd q \<noteq> name" "list_all clearName q" using x sub other by blast
    then show ?thesis
    proof cases
      case (1 q)
      then show ?thesis using Join_inject [of "path @ [name] @ q" "path @ [name]"] cs(1) by simp
    next
      case (2 q)
      then show ?thesis using Join_inject [of "path @ q" "path @ [name]"] cs(1) by auto
    qed
  qed
  have apart: "mPath x \<noteq> mPath y" if xy: "x \<in> set (enumWalk cs (path @ [name]))" "y \<in> set (enumWalk nodes path)" for x y
  proof -
    obtain q where q: "mPath x = Join (path @ [name] @ q) ''/''" "q \<noteq> []" "list_all clearName q" using sub [OF xy(1)] by blast
    obtain r where r: "mPath y = Join (path @ r) ''/''" "r \<noteq> []" "hd r \<noteq> name" "list_all clearName r" using other [OF xy(2)] by blast
    have "path @ [name] @ q \<noteq> path @ r" using r(2,3) by auto
    then show ?thesis using Join_inject [of "path @ [name] @ q" "path @ r"] q r cs(1) by simp
  qed
  have "?here \<notin> mPath ` set (enumWalk cs (path @ [name]))" "?here \<notin> mPath ` set (enumWalk nodes path)" by (auto dest: away [OF UnI1] away [OF UnI2])
  moreover have "mPath ` set (enumWalk cs (path @ [name])) \<inter> mPath ` set (enumWalk nodes path) = {}" by (auto dest: apart)
  ultimately show ?case using 2 cs(1,2) nodes(1) by (simp add: Let_def insert_def [symmetric] Un_def [symmetric]) (auto simp: disjoint_iff)
qed simp


lemma clear_dumped:
  assumes "steady_console Do c answer who" and "clearTree tree"
  shows "dumped_console Do c answer who tree"
proof (intro dumped_console.intro dumped_console_axioms.intro assms(1))
  have "distinct (map mPath (enumWalk tree []))" using enumWalk_distinct [of "[]" tree] assms(2) by simp
  moreover have "mset (map mPath (enumerable tree)) = mset (map mPath (enumWalk tree []))" by (simp add: enumerable_def)
  ultimately show "distinct (map mPath (enumerable tree))" using mset_eq_imp_distinct_iff by blast
  show "CHR 0x00 \<notin> set (Join p ''/'')" if "reach tree p n" for p n
    using reach_clear [OF that] Join_clear assms(2) by (simp add: clearTree_def)
qed

section \<open>A console in memory that drops every other request\<close>

definition flakyConsole :: "(string \<Rightarrow> string \<Rightarrow> anyRow list) \<Rightarrow> anyRow \<Rightarrow> (unit, bool) transport_fn" where
  "flakyConsole rowsOf res h req up =
     (if reqMethod req = ''GET'' then (Replied 200 (Doc (JObj res)), up)
      else if \<not> up then (DoFailed (Other ''timeout''), True)
      else ((case reqBody req of
               Some (JObj [(_, JStr inp), (_, JStr request)]) \<Rightarrow> Replied 200 (Doc (JArr (map JObj (rowsOf request inp))))
             | _ \<Rightarrow> Replied 400 Blank), False))"

interpretation flaky: steady_console "flakyConsole rowsOf res" c "\<lambda>request inp. Inr (rowsOf request inp)"
    "(str res ''version'', str res ''architecture-name'', str res ''board-name'')" for rowsOf res c
proof
  have rows: "anyRows (Doc (JArr (map JObj rs))) = Some rs" for rs by (simp add: list_all_iff comp_def)
  show "fst (inspect (flakyConsole rowsOf res) c request inp d) = Inr (rowsOf request inp)" for request inp d
    using rows [of "rowsOf request inp"]
    by (cases d) (simp_all add: inspect_def inspectBody_def numeral_eq_Suc dumpRest_def flakyConsole_def dumpRequest_def del: anyRows.simps)
  show "fst (identity (flakyConsole rowsOf res) c d) = (str res ''version'', str res ''architecture-name'', str res ''board-name'')" for d
    by (simp add: identity_def dumpRest_def flakyConsole_def dumpRequest_def)
qed

lemma exTree_clear: "clearTree exTree"
  by code_simp

interpretation flaky_example: dumped_console "flakyConsole rowsOf res" c "\<lambda>request inp. Inr (rowsOf request inp)"
    "(str res ''version'', str res ''architecture-name'', str res ''board-name'')" exTree for rowsOf res c
  by (rule clear_dumped [OF flaky.steady_console_axioms exTree_clear])


section \<open>What a run finds\<close>


definition exRows :: "string \<Rightarrow> string \<Rightarrow> anyRow list" where
  "exRows request inp =
     (let row = (\<lambda>s. [(''completion'', JStr s), (''show'', JStr ''true'')])
      in if request = ''completion'' \<and> inp = ''/ip/address/print where '' then [row ''address'', row ''interface'', row ''actual-interface'']
         else if request = ''completion'' \<and> inp = ''/ip/address/print '' then [row ''as-value'']
         else [])"

definition exClient :: "unit Client" where
  "exClient = \<lparr>cbase = [], chttp = (), cuser = [], cpass = []\<rparr>"

definition exAnswer :: answers where
  "exAnswer = (\<lambda>request inp. Inr (exRows request inp))"

lemma exDumped: "dumped_console (flakyConsole exRows []) exClient exAnswer ([], [], []) exTree"
  using flaky_example.dumped_console_axioms [of exRows "[]" exClient] by (simp add: exAnswer_def str_def)

lemma exUnwritten:
  "\<not> declares exTree ''ip/address'' ''set'' ''actual-interface''" "\<not> declares exTree ''ip/address'' ''add'' ''actual-interface''"
proof -
  have "list_all (\<lambda>(p, cmd, a). a \<noteq> ''actual-interface'') (decls exTree [])" by code_simp
  then have "\<not> (\<exists>p. (p, cmd, ''actual-interface'') \<in> set (decls exTree []) \<and> Join p ''/'' = ''ip/address'')" for cmd
    by (auto simp: list_all_iff)
  then show "\<not> declares exTree ''ip/address'' ''set'' ''actual-interface''" "\<not> declares exTree ''ip/address'' ''add'' ''actual-interface''"
    unfolding decls_declares by auto
qed


text \<open>
  What the dump lists.  A property is listed as writable exactly when \<^verbatim>\<open>set\<close> or \<^verbatim>\<open>add\<close> of its menu
  takes it, and under \<^verbatim>\<open>set\<close> if both do; it is listed as read-only exactly when its menu can be read, the
  command that enumerated the menu named it, and nothing writes it; bookkeeping of the console never is.
\<close>

theorem typedump_exact:
  assumes "dumped_console Do c answer who tree" and "typedump Do c workers tree d r"
  shows "(\<exists>e \<in> set (arEntries r). (paPath e, paArg e, paAccess e, paCommand e) = (path, a, access, cmd)) \<longleftrightarrow>
    access = ''writable'' \<and> declares tree path cmd a \<and> (cmd = ''set'' \<or> cmd = ''add'' \<and> \<not> declares tree path ''set'' a)
    \<or> access = ''read-only'' \<and> \<not> declares tree path ''set'' a \<and> \<not> declares tree path ''add'' a
      \<and> (\<exists>m \<in> set (enumerable tree). claims answer path a m \<and> cmd = snd (enumOf answer m))"
  using dumped_console.typedump_entries [OF assms] dumped_console.dump_entries [OF assms(1)] by simp

theorem typedump_exact_witness:
  "\<exists>e \<in> set (entriesOf exAnswer exTree). (paPath e, paArg e, paAccess e, paCommand e) = (''ip/address'', ''actual-interface'', ''read-only'', ''print'')"
proof -
  obtain r where r: "typedump (flakyConsole exRows []) exClient 8 exTree True r" using dumped_console.typedump_exists [OF exDumped, of 8 True] by auto
  have "list_ex (\<lambda>m. claims exAnswer ''ip/address'' ''actual-interface'' m \<and> ''print'' = snd (enumOf exAnswer m)) (enumerable exTree)" by code_simp
  then have "\<exists>m \<in> set (enumerable exTree). claims exAnswer ''ip/address'' ''actual-interface'' m \<and> ''print'' = snd (enumOf exAnswer m)" by (simp add: list_ex_iff)
  then have "\<exists>e \<in> set (arEntries r). (paPath e, paArg e, paAccess e, paCommand e) = (''ip/address'', ''actual-interface'', ''read-only'', ''print'')"
    using typedump_exact [OF exDumped r] exUnwritten by simp
  then show ?thesis using dumped_console.typedump_entries [OF exDumped r] by simp
qed

section \<open>From the dump to the class of a menu\<close>

lemma enumOf_rows:
  assumes "HasPrint m" and "offered answer (''/'' @ mPath m @ ''/print where '') = Inr wher" and "offered answer (''/'' @ mPath m @ ''/print '') = Inr opts"
  shows "enumOf answer m = (if set wher \<subseteq> set opts then enumGetOf answer m else (wher, ''print''))"
  using assms by (auto simp: enumOf_def without_def filter_empty_conv)



text \<open>
  The limit of the comparison: when the options of \<^verbatim>\<open>print\<close> cannot be had, what \<^verbatim>\<open>print where\<close> offered is listed as properties
  unchecked, so that one lost completion of a menu without rows invents its options as read-only properties.
\<close>

lemma lost_options_invented:
  assumes "HasPrint m" and "offered answer (''/'' @ mPath m @ ''/print where '') = Inr wher" and "offered answer (''/'' @ mPath m @ ''/print '') = Inl e"
  shows "enumOf answer m = (wher, ''print'')"
  using assms by (simp add: enumOf_def)

section \<open>What a probe records\<close>

lemma syntaxOf_records:
  "paValues (syntaxOf rows a) = paValues a"
  "paKind (syntaxOf rows a) = (if paKind a = ''unknown'' \<and> paTypes (syntaxOf rows a) \<noteq> [] then ''scalar'' else paKind a)"
proof -
  have step: "paValues (fold syntaxStep rows a) = paValues a \<and> paKind (fold syntaxStep rows a) = paKind a"
    by (rule fold_invariant) (simp_all add: syntaxStep_def Let_def)
  then show "paValues (syntaxOf rows a) = paValues a"
    "paKind (syntaxOf rows a) = (if paKind a = ''unknown'' \<and> paTypes (syntaxOf rows a) \<noteq> [] then ''scalar'' else paKind a)"
    by (simp_all add: syntaxOf_def Let_def)
qed

text \<open>
  A probed property of a console that completed its input: the kind says which of vocabulary and free
  values there are, a type named by the grammar making up for a silent completion; the values are ones the
  console offered, and when it listed the terms of a filter instead, no name of the menu's own
  properties and no bookkeeping is among them.
\<close>

theorem probe_kinds:
  assumes "inputOf a \<noteq> []" and "paTypes a = []"
    and "inspect Do c ''completion'' (inputOf a) d = (Inr rows, d1)" and "shown rows = (vs, freeform)"
    and "probe Do c names a d = (a', d')"
  shows "paKind a' = (if paValues a' \<noteq> [] then (if freeform then ''open-enum'' else ''enum'')
      else if freeform \<or> paTypes a' \<noteq> [] then ''scalar'' else ''unknown'')
    \<and> set (paValues a') \<subseteq> set vs \<and> (termList vs \<longrightarrow> set (paValues a') \<inter> (set names \<union> set notProperties) = {})
    \<and> (\<not> termList vs \<longrightarrow> paValues a' = vs)"
proof -
  have a': "a' = fst (probe Do c names a d)" using assms(5) by simp
  have vals: "paValues a' = vocabulary names vs"
    unfolding a' using assms(1,3,4) by (auto simp: probe_def Let_def syntaxOf_records split: prod.splits sum.splits)
  have "paKind a' = (if paValues a' \<noteq> [] then (if freeform then ''open-enum'' else ''enum'')
      else if freeform \<or> paTypes a' \<noteq> [] then ''scalar'' else ''unknown'')"
    unfolding vals unfolding a' using assms(1-4)
    by (auto simp: probe_def Let_def openKind_def syntaxOf_records(2) split: prod.splits sum.splits)
  then show ?thesis unfolding vals by (auto simp: vocabulary_def)
qed

end
