(* ===== verification/Resource_Doc.thy ===== *)
theory Resource_Doc
  imports Go_Regexp
begin

text \<open>
  src/cmd/provider-metadata/main.go: the metadata of the upstream resources, read from their Markdown. The
  directory is a list of entries with a reader of files; storing the metadata is upjet's and a parameter.
\<close>

section \<open>One document\<close>

record docResource =
  drName :: string
  drTitle :: string
  drDescription :: string
  ArgumentDocs :: "string go_map"
  ImportStatements :: "string list"

record docScan =
  inImport :: bool
  described :: "string list"
  scanDocs :: "string go_map"
  scanImports :: "string list"

fun indexOf :: "string list \<Rightarrow> string \<Rightarrow> nat" where
  "indexOf [] target = 0"
| "indexOf (line # rest) target = (if TrimSpace line = target then 0 else Suc (indexOf rest target))"

definition argumentLine :: "string \<Rightarrow> string go_map \<Rightarrow> string go_map" where
  "argumentLine trimmed docs =
     (if HasPrefix trimmed ''- `''
      then (case Cut (TrimPrefix trimmed ''- `'') ''`'' of
              Some (name, doc) \<Rightarrow> if name \<noteq> [] then fmupd name (TrimSpace doc) docs else docs
            | None \<Rightarrow> docs)
      else docs)"

text \<open>One round of the loop; \<open>i\<close> counts from the line below the heading.\<close>

definition scanLine :: "nat \<Rightarrow> nat \<times> string \<Rightarrow> docScan \<Rightarrow> docScan" where
  "scanLine exampleIndex = (\<lambda>(i, line) st.
     let trimmed = TrimSpace line;
         imp = (if trimmed = ''## Example Usage'' \<or> trimmed = ''## Schema'' then False else inImport st)
     in if trimmed = ''## Import'' then st\<lparr>inImport := True\<rparr>
        else (let imp' = (if 0 < i \<and> HasPrefix trimmed ''## '' then False else imp)
              in \<lparr>inImport = imp',
                  described = (if i + 1 < exampleIndex \<and> trimmed \<noteq> [] \<and> trimmed \<noteq> ''---'' then described st @ [trimmed] else described st),
                  scanDocs = argumentLine trimmed (scanDocs st),
                  scanImports = (if imp' \<and> HasPrefix trimmed ''terraform import '' then scanImports st @ [trimmed] else scanImports st)\<rparr>))"

definition scanLines :: "string list \<Rightarrow> docScan" where
  "scanLines ls =
     fold (scanLine (indexOf ls ''## Example Usage'')) (zip [0 ..< length (tl ls)] (tl ls))
       \<lparr>inImport = False, described = [], scanDocs = fmempty, scanImports = []\<rparr>"

text \<open>The error carries the heading that was not one of a resource.\<close>

definition parseResourceDoc :: "string \<Rightarrow> string + docResource" where
  "parseResourceDoc document =
     (let ls = Split document (CHR 0x0A);
          title = TrimSpace (TrimPrefix (hd ls) ''# '');
          name = TrimSuffix title '' (Resource)'';
          st = scanLines ls
      in if \<not> HasPrefix (hd ls) ''# routeros_'' \<or> name = title then Inl (hd ls)
         else Inr \<lparr>drName = name, drTitle = title, drDescription = Join (described st) '' '',
                   ArgumentDocs = scanDocs st, ImportStatements = scanImports st\<rparr>)"

section \<open>The directory\<close>

datatype doc_error =
    ReadDirFailed
  | ReadFailedFor string
  | ParseFailedFor string string
  | DuplicateDoc string
  | NoDocs
  | StoreFailed

definition isDoc :: "string \<times> bool \<Rightarrow> bool" where
  "isDoc = (\<lambda>(name, dir). \<not> dir \<and> HasSuffix name ''.md'')"

fun readDocs :: "(string \<Rightarrow> string option) \<Rightarrow> (string \<times> bool) list \<Rightarrow> docResource go_map \<Rightarrow> doc_error + docResource go_map" where
  "readDocs read [] meta = Inr meta"
| "readDocs read (e # es) meta =
     (if \<not> isDoc e then readDocs read es meta
      else (case read (fst e) of
              None \<Rightarrow> Inl (ReadFailedFor (fst e))
            | Some data \<Rightarrow>
                (case parseResourceDoc data of
                   Inl heading \<Rightarrow> Inl (ParseFailedFor (fst e) heading)
                 | Inr r \<Rightarrow>
                     if drName r |\<in>| fmdom meta then Inl (DuplicateDoc (drName r))
                     else readDocs read es (fmupd (drName r) r meta))))"

definition generateMetadata ::
  "(docResource go_map \<Rightarrow> bool) \<Rightarrow> (string \<Rightarrow> string option) \<Rightarrow> (string \<times> bool) list option \<Rightarrow> doc_error + docResource go_map" where
  "generateMetadata stored read dir =
     (case dir of
        None \<Rightarrow> Inl ReadDirFailed
      | Some es \<Rightarrow>
          (case readDocs read (sort_key fst es) fmempty of
             Inl e \<Rightarrow> Inl e
           | Inr meta \<Rightarrow> if meta = fmempty then Inl NoDocs else if \<not> stored meta then Inl StoreFailed else Inr meta))"

section \<open>What is stored\<close>

definition docOf :: "(string \<Rightarrow> string option) \<Rightarrow> (string \<times> bool) \<Rightarrow> docResource \<Rightarrow> bool" where
  "docOf read e r \<longleftrightarrow> isDoc e \<and> (\<exists>data. read (fst e) = Some data \<and> parseResourceDoc data = Inr r)"

lemma docOf_unique: "docOf read e r \<Longrightarrow> docOf read e r' \<Longrightarrow> r' = r"
  by (auto simp: docOf_def)

lemma readDocs_Inr:
  "readDocs read es meta = Inr M \<Longrightarrow>
     (\<forall>e \<in> set es. isDoc e \<longrightarrow> (\<exists>r. docOf read e r \<and> fmlookup meta (drName r) = None)) \<and>
     (\<forall>n r. fmlookup M n = Some r \<longleftrightarrow> fmlookup meta n = Some r \<or> drName r = n \<and> (\<exists>e \<in> set es. docOf read e r)) \<and>
     fcard (fmdom M) = fcard (fmdom meta) + length (filter isDoc es)"
proof (induction es arbitrary: meta)
  case (Cons e es)
  show ?case
  proof (cases "isDoc e")
    case False
    then have "\<not> docOf read e r" for r by (simp add: docOf_def)
    then show ?thesis using False Cons by simp
  next
    case True
    obtain data r where r: "read (fst e) = Some data" "parseResourceDoc data = Inr r" "drName r |\<notin>| fmdom meta"
      "readDocs read es (fmupd (drName r) r meta) = Inr M"
      using Cons.prems True by (auto split: option.splits sum.splits if_splits)
    note IH = Cons.IH [OF r(4)]
    have new: "fmlookup meta (drName r) = None" using r(3) by (simp add: fmdom_notD)
    have doc: "docOf read e x \<longleftrightarrow> x = r" for x using r(1,2) True by (auto simp: docOf_def)
    have old: "fmlookup meta n = None" if "fmlookup (fmupd (drName r) r meta) n = None" for n using that by (simp split: if_splits)
    have "\<forall>x \<in> set (e # es). isDoc x \<longrightarrow> (\<exists>r. docOf read x r \<and> fmlookup meta (drName r) = None)"
      using IH old doc new by (metis set_ConsD)
    moreover have "fmlookup M n = Some x \<longleftrightarrow> fmlookup meta n = Some x \<or> drName x = n \<and> (\<exists>e' \<in> set (e # es). docOf read e' x)" for n x
    proof -
      have "fmlookup (fmupd (drName r) r meta) n = Some x \<longleftrightarrow> fmlookup meta n = Some x \<or> drName x = n \<and> x = r"
        using new by auto
      then show ?thesis using IH doc by auto
    qed
    moreover have "fcard (fmdom M) = fcard (fmdom meta) + length (filter isDoc (e # es))"
      using IH r(3) True by (simp add: fcard_finsert_disjoint)
    ultimately show ?thesis by blast
  qed
qed auto

text \<open>
  Stored metadata has one resource per document: every Markdown file of the directory was read and parsed, its
  resource stands under its name, nothing else is there, and no two files were about one resource.
\<close>

theorem generateMetadata_exact:
  assumes "generateMetadata stored read (Some es) = Inr M"
  shows "(\<forall>e \<in> set es. isDoc e \<longrightarrow> (\<exists>r. docOf read e r \<and> fmlookup M (drName r) = Some r))
    \<and> (\<forall>n r. fmlookup M n = Some r \<longrightarrow> drName r = n \<and> (\<exists>e \<in> set es. docOf read e r))
    \<and> fcard (fmdom M) = length (filter isDoc es) \<and> stored M"
proof -
  have run: "readDocs read (sort_key fst es) fmempty = Inr M" "stored M"
    using assms by (auto simp: generateMetadata_def split: sum.splits if_splits)
  note R = readDocs_Inr [OF run(1)]
  have "length (filter isDoc (sort_key fst es)) = length (filter isDoc es)"
    by (metis filter_sort length_sort)
  then have "fcard (fmdom M) = length (filter isDoc es)" using R by (simp add: fcard_fempty)
  moreover have "\<exists>r. docOf read e r \<and> fmlookup M (drName r) = Some r" if e: "e \<in> set es" "isDoc e" for e
  proof -
    obtain r where "docOf read e r" using R e by auto
    then show ?thesis using R e(1) by auto
  qed
  ultimately show ?thesis using R run(2) by auto
qed

text \<open>The document of the package's test.\<close>

definition newline :: string where
  "newline = [CHR 0x0A]"

definition exDoc :: string where
  "exDoc = concat (map (\<lambda>l. l @ newline)
     [''# routeros_system_script (Resource)'', ''---'', [], ''Stored script.'', [], ''## Example Usage'', [], ''## Schema'', [],
      ''### Optional'', [], ''- `policy` (Set of String) List of policies.'', [], ''## Import'', [], ''```shell'',
      ''terraform import routeros_system_script.script name=example'', ''```''])"

definition exResource :: docResource where
  "exResource = \<lparr>drName = ''routeros_system_script'', drTitle = ''routeros_system_script (Resource)'', drDescription = ''Stored script.'',
     ArgumentDocs = fmap_of_list [(''policy'', ''(Set of String) List of policies.'')],
     ImportStatements = [''terraform import routeros_system_script.script name=example'']\<rparr>"

lemma exDoc_parses: "parseResourceDoc exDoc = Inr exResource"
  by code_simp

end
