(* ===== verification/Metric_Buffer.thy ===== *)
theory Metric_Buffer
  imports Prelude "HOL-Library.Signed_Division"
begin

text \<open>
  src/collector/internal/metadata/generated_metrics.go, the part the six metric types share: a buffer
  of data points that aggregates what is recorded twice for one series, and gives its content away
  when it is emitted. The six types differ in the metric they describe, in their attributes and in the
  number type of their points; the methods are the same text and are modelled once, over the number
  type, and instantiated in the theory of the builder.

  The data types of the telemetry library are plain containers here: a data point is a record, the
  attributes of a point are a finite map, a slice of points is a list. Capacities only size allocations
  and are kept as the numbers they are. An index out of range, or a division of integers by zero, is a
  panic of the program: the value None.
\<close>

section \<open>Numbers\<close>

text \<open>
  What the code does with a value: it adds, compares, counts by adding one, and divides by a count. The
  slice of counts has the number type of the metric.
\<close>

record 'v number_ops =
  vadd :: "'v \<Rightarrow> 'v \<Rightarrow> 'v"
  vone :: 'v
  vless :: "'v \<Rightarrow> 'v \<Rightarrow> bool"
  vdiv :: "'v \<Rightarrow> 'v \<Rightarrow> 'v option"

text \<open>The operations on \<^verbatim>\<open>int64\<close>: addition wraps, division truncates towards zero and panics on zero.\<close>

definition int64_ops :: "int number_ops" where
  "int64_ops = \<lparr>vadd = (\<lambda>a b. wrap64 (a + b)), vone = 1, vless = (\<lambda>a b. a < b),
     vdiv = (\<lambda>a b. if b = 0 then None else Some (wrap64 (a sdiv b)))\<rparr>"

section \<open>Configuration and data\<close>

definition AggregationStrategySum :: string where "AggregationStrategySum = ''sum''"
definition AggregationStrategyAvg :: string where "AggregationStrategyAvg = ''avg''"
definition AggregationStrategyMin :: string where "AggregationStrategyMin = ''min''"
definition AggregationStrategyMax :: string where "AggregationStrategyMax = ''max''"

lemmas strategy_defs = AggregationStrategySum_def AggregationStrategyAvg_def AggregationStrategyMin_def AggregationStrategyMax_def

record MetricConfig =
  mEnabled :: bool
  mEnabledSetByUser :: bool
  mAggregationStrategy :: string
  mEnabledAttributes :: "string list"

datatype metric_config_problem =
    NoSuchAttribute string
  | InvalidStrategy string

text \<open>
  \<^verbatim>\<open>Validate\<close> of a metric's configuration: the first attribute the metric does not have, then the
  strategy.
\<close>

definition validStrategy :: "string \<Rightarrow> bool" where
  "validStrategy s \<longleftrightarrow>
     s \<in> set [AggregationStrategySum, AggregationStrategyAvg, AggregationStrategyMin, AggregationStrategyMax]"

definition validateMetric :: "string list \<Rightarrow> MetricConfig \<Rightarrow> metric_config_problem option" where
  "validateMetric attrs c =
     (case find (\<lambda>a. a \<notin> set attrs) (mEnabledAttributes c) of
        Some a \<Rightarrow> Some (NoSuchAttribute a)
      | None \<Rightarrow> if validStrategy (mAggregationStrategy c) then None
                else Some (InvalidStrategy (mAggregationStrategy c)))"

text \<open>\<^verbatim>\<open>Unmarshal\<close>: the parser's own unmarshalling and its \<^verbatim>\<open>IsSet\<close> are the configuration library's.\<close>

definition unmarshalMetric ::
  "('p \<Rightarrow> MetricConfig \<Rightarrow> 'e + MetricConfig) \<Rightarrow> ('p \<Rightarrow> string \<Rightarrow> bool) \<Rightarrow> 'p option \<Rightarrow> MetricConfig
   \<Rightarrow> 'e + MetricConfig" where
  "unmarshalMetric unmarshal isSet parser ms =
     (case parser of
        None \<Rightarrow> Inr ms
      | Some p \<Rightarrow>
          (case unmarshal p ms of
             Inl err \<Rightarrow> Inl err
           | Inr ms' \<Rightarrow> Inr (ms'\<lparr>mEnabledSetByUser := isSet p ''enabled''\<rparr>)))"

datatype temporality = Delta | Cumulative

datatype metric_type = Gauge | Sum bool temporality

record metric_desc =
  descName :: string
  descText :: string
  descUnit :: string
  descType :: metric_type

record 'v NumberDataPoint =
  Attributes :: "string go_map"
  StartTimestamp :: nat
  Timestamp :: nat
  Value :: 'v

record 'v Metric =
  mtDesc :: metric_desc
  mtPoints :: "'v NumberDataPoint list"

record 'v metric =
  data :: "'v Metric"
  mconfig :: MetricConfig
  capacity :: nat
  aggDataPoints :: "'v list"

section \<open>Operations\<close>

text \<open>\<^verbatim>\<open>init\<close>: an empty gauge or sum under the name of the metric, and no counts.\<close>

definition metric_init :: "metric_desc \<Rightarrow> 'v metric \<Rightarrow> 'v metric" where
  "metric_init desc m = m\<lparr>data := \<lparr>mtDesc = desc, mtPoints = []\<rparr>, aggDataPoints := []\<rparr>"

text \<open>The zero value of a metric, which a disabled one keeps.\<close>

definition zeroMetric :: "MetricConfig \<Rightarrow> 'v metric" where
  "zeroMetric cfg =
     \<lparr>data = \<lparr>mtDesc = \<lparr>descName = [], descText = [], descUnit = [], descType = Gauge\<rparr>, mtPoints = []\<rparr>,
      mconfig = cfg, capacity = 0, aggDataPoints = []\<rparr>"

definition newMetric :: "metric_desc \<Rightarrow> MetricConfig \<Rightarrow> 'v metric" where
  "newMetric desc cfg = (if mEnabled cfg then metric_init desc (zeroMetric cfg) else zeroMetric cfg)"

text \<open>Each attribute the configuration enables is put on the point, in the order of the code.\<close>

fun putAttributes :: "string list \<Rightarrow> (string \<times> string) list \<Rightarrow> string go_map \<Rightarrow> string go_map" where
  "putAttributes enabled [] m = m"
| "putAttributes enabled ((k, v) # kvs) m =
     putAttributes enabled kvs (if k \<in> set enabled then fmupd k v m else m)"

definition sameSeries :: "'v NumberDataPoint \<Rightarrow> 'v NumberDataPoint \<Rightarrow> bool" where
  "sameSeries dp dpi \<longleftrightarrow>
     Attributes dp = Attributes dpi \<and> StartTimestamp dp = StartTimestamp dpi \<and> Timestamp dp = Timestamp dpi"

text \<open>How the loop over the recorded points ends: it took the value, found no place for it, or panicked.\<close>

datatype 'v scan = Absorbed "'v NumberDataPoint list" "'v list" | NotFound | Panic

fun after :: "'v NumberDataPoint \<Rightarrow> 'v scan \<Rightarrow> 'v scan" where
  "after dpi (Absorbed dps agg) = Absorbed (dpi # dps) agg"
| "after dpi NotFound = NotFound"
| "after dpi Panic = Panic"

fun absorb ::
  "'v number_ops \<Rightarrow> string \<Rightarrow> 'v NumberDataPoint \<Rightarrow> nat \<Rightarrow> 'v NumberDataPoint list \<Rightarrow> 'v list \<Rightarrow> 'v scan" where
  "absorb N s dp i [] agg = NotFound"
| "absorb N s dp i (dpi # rest) agg =
     (if \<not> sameSeries dp dpi then after dpi (absorb N s dp (Suc i) rest agg)
      else if s = AggregationStrategySum \<or> s = AggregationStrategyAvg then
        (if i < length agg
         then Absorbed (dpi\<lparr>Value := vadd N (Value dpi) (Value dp)\<rparr> # rest) (agg[i := vadd N (agg ! i) (vone N)])
         else Panic)
      else if s = AggregationStrategyMin then
        Absorbed ((if vless N (Value dp) (Value dpi) then dpi\<lparr>Value := Value dp\<rparr> else dpi) # rest) agg
      else if s = AggregationStrategyMax then
        Absorbed ((if vless N (Value dpi) (Value dp) then dpi\<lparr>Value := Value dp\<rparr> else dpi) # rest) agg
      else after dpi (absorb N s dp (Suc i) rest agg))"

definition recordDataPoint ::
  "'v number_ops \<Rightarrow> 'v metric \<Rightarrow> nat \<Rightarrow> nat \<Rightarrow> 'v \<Rightarrow> (string \<times> string) list \<Rightarrow> 'v metric option" where
  "recordDataPoint N m start ts val attrs =
     (if \<not> mEnabled (mconfig m) then Some m
      else let dp = \<lparr>Attributes = putAttributes (mEnabledAttributes (mconfig m)) attrs fmempty,
                     StartTimestamp = start, Timestamp = ts, Value = val\<rparr>
           in case absorb N (mAggregationStrategy (mconfig m)) dp 0 (mtPoints (data m)) (aggDataPoints m) of
                Absorbed dps agg \<Rightarrow> Some (m\<lparr>data := (data m)\<lparr>mtPoints := dps\<rparr>, aggDataPoints := agg\<rparr>)
              | NotFound \<Rightarrow> Some (m\<lparr>data := (data m)\<lparr>mtPoints := mtPoints (data m) @ [dp]\<rparr>,
                                     aggDataPoints := aggDataPoints m @ [vone N]\<rparr>)
              | Panic \<Rightarrow> None)"

definition updateCapacity :: "'v metric \<Rightarrow> 'v metric" where
  "updateCapacity m =
     (if capacity m < length (mtPoints (data m)) then m\<lparr>capacity := length (mtPoints (data m))\<rparr> else m)"

text \<open>The loop of \<^verbatim>\<open>emit\<close> that turns sums into averages: it runs over the counts and indexes the points.\<close>

fun averages :: "'v number_ops \<Rightarrow> nat \<Rightarrow> 'v list \<Rightarrow> 'v NumberDataPoint list \<Rightarrow> 'v NumberDataPoint list option" where
  "averages N i [] dps = Some dps"
| "averages N i (aggCount # cs) dps =
     (if i < length dps then
        (case vdiv N (Value (dps ! i)) aggCount of
           None \<Rightarrow> None
         | Some q \<Rightarrow> averages N (Suc i) cs (dps[i := (dps ! i)\<lparr>Value := q\<rparr>]))
      else None)"

text \<open>\<^verbatim>\<open>emit\<close>: the metrics it appends to the slice, and the buffer made ready again.\<close>

definition emit :: "'v number_ops \<Rightarrow> metric_desc \<Rightarrow> 'v metric \<Rightarrow> ('v Metric list \<times> 'v metric) option" where
  "emit N desc m =
     (if mEnabled (mconfig m) \<and> mtPoints (data m) \<noteq> [] then
        (case (if mAggregationStrategy (mconfig m) = AggregationStrategyAvg
               then averages N 0 (aggDataPoints m) (mtPoints (data m)) else Some (mtPoints (data m))) of
           None \<Rightarrow> None
         | Some dps \<Rightarrow>
             (let m' = updateCapacity (m\<lparr>data := (data m)\<lparr>mtPoints := dps\<rparr>\<rparr>)
              in Some ([data m'], metric_init desc m')))
      else Some ([], m))"

section \<open>Reference: grouping what was recorded\<close>

text \<open>
  The values of a series, in the order they were recorded, combined; and the series in the order of their
  first value.
\<close>

type_synonym series = "string go_map \<times> nat \<times> nat"

definition combine :: "'v number_ops \<Rightarrow> string \<Rightarrow> 'v \<Rightarrow> 'v \<Rightarrow> 'v" where
  "combine N s a v =
     (if s = AggregationStrategySum \<or> s = AggregationStrategyAvg then vadd N a v
      else if s = AggregationStrategyMin then (if vless N v a then v else a)
      else (if vless N a v then v else a))"

definition firsts :: "'a list \<Rightarrow> 'a list" where
  "firsts ks = rev (remdups (rev ks))"

definition valuesOf :: "series \<Rightarrow> (series \<times> 'v) list \<Rightarrow> 'v list" where
  "valuesOf k rs = map snd (filter (\<lambda>r. fst r = k) rs)"

definition mkPoint :: "series \<Rightarrow> 'v \<Rightarrow> 'v NumberDataPoint" where
  "mkPoint k v = \<lparr>Attributes = fst k, StartTimestamp = fst (snd k), Timestamp = snd (snd k), Value = v\<rparr>"

definition combined :: "'v number_ops \<Rightarrow> string \<Rightarrow> 'v list \<Rightarrow> 'v" where
  "combined N s vs = foldl (combine N s) (hd vs) (tl vs)"

definition countN :: "'v number_ops \<Rightarrow> nat \<Rightarrow> 'v" where
  "countN N n = ((\<lambda>k. vadd N k (vone N)) ^^ (n - 1)) (vone N)"

text \<open>The point a series gives: the combination of its values, divided by their number for an average.\<close>

definition aggregated :: "'v number_ops \<Rightarrow> string \<Rightarrow> 'v list \<Rightarrow> 'v" where
  "aggregated N s vs =
     (if s = AggregationStrategyAvg
      then (case vdiv N (combined N s vs) (countN N (length vs)) of None \<Rightarrow> combined N s vs | Some q \<Rightarrow> q)
      else combined N s vs)"

definition grouped :: "'v number_ops \<Rightarrow> string \<Rightarrow> (series \<times> 'v) list \<Rightarrow> 'v NumberDataPoint list" where
  "grouped N s rs = map (\<lambda>k. mkPoint k (aggregated N s (valuesOf k rs))) (firsts (map fst rs))"


lemma firsts_snoc: "firsts (ks @ [k]) = (if k \<in> set ks then firsts ks else firsts ks @ [k])"
  by (simp add: firsts_def)

lemma firsts_set [simp]: "set (firsts ks) = set ks"
  by (simp add: firsts_def)

lemma firsts_distinct [simp]: "distinct (firsts ks)"
  by (simp add: firsts_def)

lemma firsts_Nil [simp]: "firsts [] = []" and firsts_empty [simp]: "firsts ks = [] \<longleftrightarrow> ks = []"
  by (simp_all add: firsts_def)

lemma valuesOf_snoc: "valuesOf k (rs @ [(k', v)]) = (if k' = k then valuesOf k rs @ [v] else valuesOf k rs)"
  by (simp add: valuesOf_def)

lemma valuesOf_nonempty: "k \<in> fst ` set rs \<Longrightarrow> valuesOf k rs \<noteq> []"
  by (auto simp: valuesOf_def filter_empty_conv)

lemma valuesOf_absent: "k \<notin> fst ` set rs \<Longrightarrow> valuesOf k rs = []"
  by (force simp: valuesOf_def filter_empty_conv)

lemma valuesOf_length: "length (valuesOf k rs) \<le> length rs"
  by (simp add: valuesOf_def)

lemma mkPoint_sel [simp]: "Value (mkPoint k v) = v" "mkPoint k v\<lparr>Value := w\<rparr> = mkPoint k w"
  by (simp_all add: mkPoint_def)

lemma sameSeries_mkPoint [simp]: "sameSeries (mkPoint k v) (mkPoint k' v') \<longleftrightarrow> k = k'"
  by (auto simp: sameSeries_def mkPoint_def prod_eq_iff)

lemma combined_snoc: "vs \<noteq> [] \<Longrightarrow> combined N s (vs @ [v]) = combine N s (combined N s vs) v"
  by (cases vs) (simp_all add: combined_def)

lemma combined_single [simp]: "combined N s [v] = v"
  by (simp add: combined_def)

lemma countN_Suc: "0 < n \<Longrightarrow> countN N (Suc n) = vadd N (countN N n) (vone N)"
  by (cases n) (simp_all add: countN_def)

lemma countN_1 [simp]: "countN N (Suc 0) = vone N"
  by (simp add: countN_def)

definition counts :: "string \<Rightarrow> bool" where
  "counts s \<longleftrightarrow> s = AggregationStrategySum \<or> s = AggregationStrategyAvg"

text \<open>The loop finds the one point of the series and combines it; without such a point it finds nothing.\<close>

lemma absorb_member:
  assumes "validStrategy s" and "distinct ks" and "k \<in> set ks"
  shows "absorb N s (mkPoint k v) (length pre) (map (\<lambda>k. mkPoint k (f k)) ks) (pre @ map g ks)
    = Absorbed (map (\<lambda>k'. mkPoint k' (if k' = k then combine N s (f k') v else f k')) ks)
        (pre @ map (\<lambda>k'. if k' = k \<and> counts s then vadd N (g k') (vone N) else g k') ks)"
  using assms(2,3)
proof (induction ks arbitrary: pre)
  case (Cons k0 ks)
  show ?case
  proof (cases "k0 = k")
    case True
    then have rest: "map (\<lambda>k'. mkPoint k' (if k' = k then combine N s (f k') v else f k')) ks = map (\<lambda>k. mkPoint k (f k)) ks"
      "map (\<lambda>k'. if k' = k \<and> counts s then vadd N (g k') (vone N) else g k') ks = map g ks"
      using Cons.prems(1) by auto
    show ?thesis using True assms(1) unfolding list.map rest
      by (auto simp: validStrategy_def counts_def combine_def strategy_defs)
  next
    case False
    then have "k \<in> set ks" "distinct ks" using Cons.prems by auto
    from Cons.IH [OF this(2,1), of "pre @ [g k0]"] show ?thesis using False by simp
  qed
qed simp

lemma absorb_absent:
  "k \<notin> set ks \<Longrightarrow> absorb N s (mkPoint k v) i (map (\<lambda>k. mkPoint k (f k)) ks) agg = NotFound"
  by (induction ks arbitrary: i) auto

text \<open>A buffer that holds exactly what the records of a list combine to.\<close>

definition holds :: "'v number_ops \<Rightarrow> metric_desc \<Rightarrow> MetricConfig \<Rightarrow> 'v metric \<Rightarrow> (series \<times> 'v) list \<Rightarrow> bool" where
  "holds N desc cfg m rs \<longleftrightarrow>
     mconfig m = cfg
     \<and> (mEnabled cfg \<longrightarrow>
          data m = \<lparr>mtDesc = desc,
            mtPoints = map (\<lambda>k. mkPoint k (combined N (mAggregationStrategy cfg) (valuesOf k rs))) (firsts (map fst rs))\<rparr>
        \<and> aggDataPoints m =
            map (\<lambda>k. if counts (mAggregationStrategy cfg) then countN N (length (valuesOf k rs)) else vone N)
              (firsts (map fst rs)))"

lemma holds_new: "holds N desc cfg (newMetric desc cfg) []"
  by (simp add: holds_def newMetric_def metric_init_def zeroMetric_def)

definition seriesKey :: "MetricConfig \<Rightarrow> nat \<Rightarrow> nat \<Rightarrow> (string \<times> string) list \<Rightarrow> series" where
  "seriesKey cfg start ts attrs = (putAttributes (mEnabledAttributes cfg) attrs fmempty, start, ts)"

lemma seriesKey_point:
  "\<lparr>Attributes = putAttributes (mEnabledAttributes cfg) attrs fmempty, StartTimestamp = start, Timestamp = ts, Value = v\<rparr>
   = mkPoint (seriesKey cfg start ts attrs) v"
  by (simp add: mkPoint_def seriesKey_def)

lemma record_holds:
  assumes "holds N desc cfg m rs" and "validStrategy (mAggregationStrategy cfg)"
  obtains m' where "recordDataPoint N m start ts v attrs = Some m'"
    and "holds N desc cfg m' (rs @ [(seriesKey cfg start ts attrs, v)])"
proof (cases "mEnabled cfg")
  case False
  then show ?thesis using assms(1) that [of m] by (simp add: holds_def recordDataPoint_def)
next
  case True
  let ?s = "mAggregationStrategy cfg" and ?k = "seriesKey cfg start ts attrs" and ?ks = "firsts (map fst rs)"
  let ?f = "\<lambda>k. combined N ?s (valuesOf k rs)"
  let ?g = "\<lambda>k. if counts ?s then countN N (length (valuesOf k rs)) else vone N"
  have m: "mconfig m = cfg" "data m = \<lparr>mtDesc = desc, mtPoints = map (\<lambda>k. mkPoint k (?f k)) ?ks\<rparr>"
    "aggDataPoints m = map ?g ?ks" using assms(1) True by (simp_all add: holds_def)
  show ?thesis
  proof (cases "?k \<in> set (map fst rs)")
    case mem: True
    have k_nonempty: "valuesOf ?k rs \<noteq> []" using mem valuesOf_nonempty by fastforce
    have vals: "(if k' = ?k then combine N ?s (?f k') v else ?f k') = combined N ?s (valuesOf k' (rs @ [(?k, v)]))" for k'
      using k_nonempty by (auto simp: valuesOf_snoc combined_snoc)
    have cnts: "(if k' = ?k \<and> counts ?s then vadd N (?g k') (vone N) else ?g k')
      = (if counts ?s then countN N (length (valuesOf k' (rs @ [(?k, v)]))) else vone N)" for k'
      using k_nonempty by (auto simp: valuesOf_snoc countN_Suc)
    have "absorb N ?s (mkPoint ?k v) 0 (map (\<lambda>k. mkPoint k (?f k)) ?ks) (map ?g ?ks)
      = Absorbed (map (\<lambda>k'. mkPoint k' (combined N ?s (valuesOf k' (rs @ [(?k, v)])))) ?ks)
          (map (\<lambda>k'. if counts ?s then countN N (length (valuesOf k' (rs @ [(?k, v)]))) else vone N) ?ks)"
      using absorb_member [OF assms(2) firsts_distinct, of ?k "map fst rs" N v "[]" ?f ?g] mem
      unfolding vals cnts by (simp only: append_Nil list.size firsts_set simp_thms)
    then show ?thesis using that True mem m
      by (simp add: recordDataPoint_def seriesKey_point holds_def firsts_snoc)
  next
    case new: False
    then have absent: "valuesOf ?k rs = []" using valuesOf_absent by fastforce
    have same: "valuesOf k' (rs @ [(?k, v)]) = valuesOf k' rs" if "k' \<in> set ?ks" for k'
      using that new by (auto simp: valuesOf_snoc)
    have "absorb N ?s (mkPoint ?k v) 0 (map (\<lambda>k. mkPoint k (?f k)) ?ks) (map ?g ?ks) = NotFound"
      using absorb_absent [of ?k ?ks] new by simp
    then show ?thesis using that True new m absent same
      by (simp add: recordDataPoint_def seriesKey_point holds_def firsts_snoc valuesOf_snoc cong: map_cong)
  qed
qed

section \<open>Emitting a buffer\<close>

lemma averages_map:
  assumes "\<And>k. k \<in> set ks \<Longrightarrow> vdiv N (f k) (g k) = Some (q k)"
  shows "averages N (length pre) (map g ks) (pre @ map (\<lambda>k. mkPoint k (f k)) ks) = Some (pre @ map (\<lambda>k. mkPoint k (q k)) ks)"
  using assms
proof (induction ks arbitrary: pre)
  case (Cons k ks)
  from Cons.IH [of "pre @ [mkPoint k (q k)]"] Cons.prems show ?case by (simp add: list_update_append)
qed simp

lemma updateCapacity_sel [simp]: "data (updateCapacity m) = data m" "mconfig (updateCapacity m) = mconfig m"
  by (simp_all add: updateCapacity_def)

text \<open>
  What emitting relies on: a value can be divided by a count. The number of values recorded between two
  emissions is limited, because counts of \<^verbatim>\<open>int64\<close> wrap.
\<close>

locale number_arith =
  fixes N :: "'v number_ops" and limit :: nat
  assumes count_div: "0 < n \<Longrightarrow> n < limit \<Longrightarrow> \<exists>q. vdiv N x (countN N n) = Some q"
begin

lemma aggregated_avg:
  assumes "vs \<noteq> []" and "length vs < limit"
  shows "vdiv N (combined N AggregationStrategyAvg vs) (countN N (length vs)) = Some (aggregated N AggregationStrategyAvg vs)"
  using count_div [of "length vs" "combined N AggregationStrategyAvg vs"] assms by (auto simp: aggregated_def)

text \<open>
  Emitting a buffer gives one metric, whose points are the groups of what was recorded since the last
  emission, or nothing when nothing was recorded or the metric is disabled; the buffer is empty afterwards.
\<close>

lemma emit_holds:
  assumes "holds N desc cfg m rs" and "length rs < limit"
  obtains m' where
    "emit N desc m = Some (if mEnabled cfg \<and> rs \<noteq> []
       then [\<lparr>mtDesc = desc, mtPoints = grouped N (mAggregationStrategy cfg) rs\<rparr>] else [], m')"
    and "holds N desc cfg m' []"
proof (cases "mEnabled cfg \<and> rs \<noteq> []")
  case False
  then show ?thesis using assms(1) that [of m] by (auto simp: holds_def emit_def)
next
  case True
  let ?s = "mAggregationStrategy cfg" and ?ks = "firsts (map fst rs)"
  have m: "mconfig m = cfg" "mtPoints (data m) = map (\<lambda>k. mkPoint k (combined N ?s (valuesOf k rs))) ?ks" "mtDesc (data m) = desc"
    "aggDataPoints m = map (\<lambda>k. if counts ?s then countN N (length (valuesOf k rs)) else vone N) ?ks"
    using assms(1) True by (simp_all add: holds_def)
  have "(if ?s = AggregationStrategyAvg then averages N 0 (aggDataPoints m) (mtPoints (data m)) else Some (mtPoints (data m)))
    = Some (grouped N ?s rs)"
  proof (cases "?s = AggregationStrategyAvg")
    case avg: True
    have "vdiv N (combined N ?s (valuesOf k rs)) (countN N (length (valuesOf k rs))) = Some (aggregated N ?s (valuesOf k rs))"
      if "k \<in> set ?ks" for k
      using that aggregated_avg [of "valuesOf k rs"] valuesOf_nonempty [of k rs] valuesOf_length [of k rs] assms(2) avg by simp
    from averages_map [of ?ks N "\<lambda>k. combined N ?s (valuesOf k rs)" "\<lambda>k. countN N (length (valuesOf k rs))" _ "[]", OF this]
    show ?thesis using avg m by (simp add: counts_def grouped_def)
  qed (simp add: m grouped_def aggregated_def)
  then show ?thesis using True m that
    by (simp add: emit_def Let_def holds_def metric_init_def)
qed

end

section \<open>The two number types\<close>

lemma int64_count:
  assumes "0 < n" and "n < 2 ^ 63"
  shows "countN int64_ops n = int n"
  using assms
proof (induction n)
  case (Suc n)
  show ?case
  proof (cases "n = 0")
    case False
    have "int n < 2 ^ 63 - 1" using Suc.prems(2) by simp
    then have "wrap64 (int n + 1) = int n + 1" by (intro wrap64_bounds) simp_all
    then show ?thesis using False Suc by (simp add: countN_Suc int64_ops_def)
  qed (simp add: int64_ops_def)
qed simp

interpretation int64: number_arith int64_ops "2 ^ 63"
proof
  fix n :: nat and x :: int
  assume "0 < n" "n < 2 ^ 63"
  then show "\<exists>q. vdiv int64_ops x (countN int64_ops n) = Some q" by (simp add: int64_count) (simp add: int64_ops_def)
qed

text \<open>The operations on \<^verbatim>\<open>float64\<close> are the machine's; a division of floats never panics.\<close>

record 'f float64 =
  fadd :: "'f \<Rightarrow> 'f \<Rightarrow> 'f"
  fone :: 'f
  fless :: "'f \<Rightarrow> 'f \<Rightarrow> bool"
  fdiv :: "'f \<Rightarrow> 'f \<Rightarrow> 'f"

definition float64_ops :: "'f float64 \<Rightarrow> 'f number_ops" where
  "float64_ops F = \<lparr>vadd = fadd F, vone = fone F, vless = fless F, vdiv = (\<lambda>a b. Some (fdiv F a b))\<rparr>"

interpretation float64: number_arith "float64_ops F" limit for F :: "'f float64" and limit
  by unfold_locales (simp add: float64_ops_def)

section \<open>What the strategies compute on integers\<close>

lemma combined_min: "vs \<noteq> [] \<Longrightarrow> combined int64_ops AggregationStrategyMin vs = Min (set vs)"
proof (induction vs rule: rev_nonempty_induct)
  case (snoc v vs)
  have "combine int64_ops AggregationStrategyMin a v = min v a" for a
    by (auto simp: combine_def strategy_defs int64_ops_def)
  then show ?case using snoc by (simp add: combined_snoc)
qed simp

lemma combined_max: "vs \<noteq> [] \<Longrightarrow> combined int64_ops AggregationStrategyMax vs = Max (set vs)"
proof (induction vs rule: rev_nonempty_induct)
  case (snoc v vs)
  have "combine int64_ops AggregationStrategyMax a v = max v a" for a
    by (auto simp: combine_def strategy_defs int64_ops_def)
  then show ?case using snoc by (simp add: combined_snoc)
qed simp

lemma wrap64_add_left [simp]: "wrap64 (wrap64 a + b) = wrap64 (a + b)"
proof -
  have "((a + 2 ^ 63) mod 2 ^ 64 + b) mod 2 ^ 64 = (a + 2 ^ 63 + b) mod (2 ^ 64 :: int)" by (rule mod_add_left_eq)
  then show ?thesis by (simp add: wrap64_def algebra_simps)
qed

lemma combined_sum:
  assumes "vs \<noteq> []" and "in_int64 (hd vs)" and "counts s"
  shows "combined int64_ops s vs = wrap64 (sum_list vs)"
  using assms(1,2)
proof (induction vs rule: rev_nonempty_induct)
  case (snoc v vs)
  then show ?case using assms(3) by (simp add: combined_snoc combine_def counts_def int64_ops_def strategy_defs)
qed (simp add: wrap64_id)

text \<open>
  The four strategies on \<^verbatim>\<open>int64\<close> values: the sum, the sum divided by the number of values and truncated,
  the least and the greatest; as long as the sum itself fits.
\<close>

theorem aggregated_int64:
  assumes "vs \<noteq> []" and "\<forall>v \<in> set vs. in_int64 v" and "in_int64 (sum_list vs)" and "length vs < 2 ^ 63"
  shows "aggregated int64_ops AggregationStrategySum vs = sum_list vs
    \<and> aggregated int64_ops AggregationStrategyAvg vs = sum_list vs sdiv int (length vs)
    \<and> aggregated int64_ops AggregationStrategyMin vs = Min (set vs)
    \<and> aggregated int64_ops AggregationStrategyMax vs = Max (set vs)"
proof -
  have hd: "in_int64 (hd vs)" using assms(1,2) by simp
  have avg: "aggregated int64_ops AggregationStrategyAvg vs = wrap64 (sum_list vs sdiv int (length vs))"
    using combined_sum [OF assms(1) hd, of AggregationStrategyAvg] int64_count [of "length vs"] assms
    by (simp add: aggregated_def counts_def wrap64_id) (simp add: int64_ops_def)
  have "\<bar>sum_list vs\<bar> div int (length vs) \<le> \<bar>sum_list vs\<bar>"
    using zdiv_mono2 [of "\<bar>sum_list vs\<bar>" 1 "int (length vs)"] assms(1) by (simp add: Suc_le_eq)
  moreover have "0 \<le> \<bar>sum_list vs\<bar> div int (length vs)" by (simp add: pos_imp_zdiv_nonneg_iff assms(1))
  ultimately have "in_int64 (sum_list vs sdiv int (length vs))"
    using assms(3) by (auto simp: signed_divide_int_def sgn_if in_int64_def)
  then show ?thesis
    using combined_sum [OF assms(1) hd, of AggregationStrategySum] combined_min [OF assms(1)] combined_max [OF assms(1)] assms(3) avg
    by (auto simp: aggregated_def counts_def strategy_defs wrap64_id)
qed

end
