(* ===== verification/Metrics_Builder.thy ===== *)
theory Metrics_Builder
  imports Metric_Buffer Collector
begin

text \<open>
  src/collector/internal/metadata: the metrics and resource builders of the receiver, and the whole
  \<^verbatim>\<open>scrape\<close> method with them. Six metrics are recorded into buffers (\<^verbatim>\<open>Metric_Buffer\<close>), emitted under
  one resource, filtered by the attributes of the resource, and handed out; the resource builder keeps
  the attributes the configuration enables.

  The configuration library's parser, the filters it compiles and the clock are arguments. A Go map of
  filters is walked in an unspecified order: the model walks it in the order of insertion, and a resource
  is dropped when any filter drops it, whatever the order.
\<close>

section \<open>Attributes and metrics\<close>

definition AttributeIoDirection_String :: "direction \<Rightarrow> string" where
  "AttributeIoDirection_String av = (case av of Receive \<Rightarrow> ''receive'' | Transmit \<Rightarrow> ''transmit'')"

definition MapAttributeIoDirection :: "direction go_map" where
  "MapAttributeIoDirection = fmap_of_list [(''receive'', Receive), (''transmit'', Transmit)]"

record metricInfo =
  infoName :: string
  infoAttributes :: "string list"

definition MetricsInfo :: "metricInfo list" where
  "MetricsInfo =
     [\<lparr>infoName = ''routeros.bgp.session.prefix.count'', infoAttributes = [''peer_name'', ''peer_as'']\<rparr>,
      \<lparr>infoName = ''routeros.bgp.session.up'', infoAttributes = [''peer_name'', ''peer_as'']\<rparr>,
      \<lparr>infoName = ''routeros.firewall.rule.io'', infoAttributes = [''rule'']\<rparr>,
      \<lparr>infoName = ''routeros.hw.temperature'', infoAttributes = [''sensor_id'']\<rparr>,
      \<lparr>infoName = ''routeros.interface.io'', infoAttributes = [''interface_name'', ''io_direction'']\<rparr>,
      \<lparr>infoName = ''routeros.interface.up'', infoAttributes = [''interface_name'']\<rparr>]"

subsection \<open>routeros.bgp.session.prefix.count\<close>

definition RouterosBgpSessionPrefixCountMetricAttributeKeyPeerName :: string where
  "RouterosBgpSessionPrefixCountMetricAttributeKeyPeerName = ''network.peer.name''"

definition RouterosBgpSessionPrefixCountMetricAttributeKeyPeerAs :: string where
  "RouterosBgpSessionPrefixCountMetricAttributeKeyPeerAs = ''network.peer.as''"

definition RouterosBgpSessionPrefixCount_desc :: metric_desc where
  "RouterosBgpSessionPrefixCount_desc = \<lparr>descName = ''routeros.bgp.session.prefix.count'', descText = ''Prefixes received from the peer.'', descUnit = ''{prefix}'', descType = Gauge\<rparr>"

definition RouterosBgpSessionPrefixCount_init :: "int metric \<Rightarrow> int metric" where
  "RouterosBgpSessionPrefixCount_init = metric_init RouterosBgpSessionPrefixCount_desc"

definition RouterosBgpSessionPrefixCount_recordDataPoint ::
  "int metric \<Rightarrow> nat \<Rightarrow> nat \<Rightarrow> int \<Rightarrow> string \<Rightarrow> string \<Rightarrow> int metric option" where
  "RouterosBgpSessionPrefixCount_recordDataPoint m startTs ts val peerName peerAs =
     recordDataPoint int64_ops m startTs ts val [(RouterosBgpSessionPrefixCountMetricAttributeKeyPeerName, peerName), (RouterosBgpSessionPrefixCountMetricAttributeKeyPeerAs, peerAs)]"

definition RouterosBgpSessionPrefixCount_emit :: "int metric \<Rightarrow> (int Metric list \<times> int metric) option" where
  "RouterosBgpSessionPrefixCount_emit = emit int64_ops RouterosBgpSessionPrefixCount_desc"

definition newMetricRouterosBgpSessionPrefixCount :: "MetricConfig \<Rightarrow> int metric" where
  "newMetricRouterosBgpSessionPrefixCount = newMetric RouterosBgpSessionPrefixCount_desc"

definition RouterosBgpSessionPrefixCountMetricConfig_Validate :: "MetricConfig \<Rightarrow> metric_config_problem option" where
  "RouterosBgpSessionPrefixCountMetricConfig_Validate = validateMetric [RouterosBgpSessionPrefixCountMetricAttributeKeyPeerName, RouterosBgpSessionPrefixCountMetricAttributeKeyPeerAs]"

definition defaultRouterosBgpSessionPrefixCountMetricConfig :: MetricConfig where
  "defaultRouterosBgpSessionPrefixCountMetricConfig =
     \<lparr>mEnabled = True, mEnabledSetByUser = False, mAggregationStrategy = AggregationStrategyAvg,
      mEnabledAttributes = [RouterosBgpSessionPrefixCountMetricAttributeKeyPeerName, RouterosBgpSessionPrefixCountMetricAttributeKeyPeerAs]\<rparr>"

subsection \<open>routeros.bgp.session.up\<close>

definition RouterosBgpSessionUpMetricAttributeKeyPeerName :: string where
  "RouterosBgpSessionUpMetricAttributeKeyPeerName = ''network.peer.name''"

definition RouterosBgpSessionUpMetricAttributeKeyPeerAs :: string where
  "RouterosBgpSessionUpMetricAttributeKeyPeerAs = ''network.peer.as''"

definition RouterosBgpSessionUp_desc :: metric_desc where
  "RouterosBgpSessionUp_desc = \<lparr>descName = ''routeros.bgp.session.up'', descText = ''Whether the BGP session is established.'', descUnit = ''{status}'', descType = Gauge\<rparr>"

definition RouterosBgpSessionUp_init :: "int metric \<Rightarrow> int metric" where
  "RouterosBgpSessionUp_init = metric_init RouterosBgpSessionUp_desc"

definition RouterosBgpSessionUp_recordDataPoint ::
  "int metric \<Rightarrow> nat \<Rightarrow> nat \<Rightarrow> int \<Rightarrow> string \<Rightarrow> string \<Rightarrow> int metric option" where
  "RouterosBgpSessionUp_recordDataPoint m startTs ts val peerName peerAs =
     recordDataPoint int64_ops m startTs ts val [(RouterosBgpSessionUpMetricAttributeKeyPeerName, peerName), (RouterosBgpSessionUpMetricAttributeKeyPeerAs, peerAs)]"

definition RouterosBgpSessionUp_emit :: "int metric \<Rightarrow> (int Metric list \<times> int metric) option" where
  "RouterosBgpSessionUp_emit = emit int64_ops RouterosBgpSessionUp_desc"

definition newMetricRouterosBgpSessionUp :: "MetricConfig \<Rightarrow> int metric" where
  "newMetricRouterosBgpSessionUp = newMetric RouterosBgpSessionUp_desc"

definition RouterosBgpSessionUpMetricConfig_Validate :: "MetricConfig \<Rightarrow> metric_config_problem option" where
  "RouterosBgpSessionUpMetricConfig_Validate = validateMetric [RouterosBgpSessionUpMetricAttributeKeyPeerName, RouterosBgpSessionUpMetricAttributeKeyPeerAs]"

definition defaultRouterosBgpSessionUpMetricConfig :: MetricConfig where
  "defaultRouterosBgpSessionUpMetricConfig =
     \<lparr>mEnabled = True, mEnabledSetByUser = False, mAggregationStrategy = AggregationStrategyAvg,
      mEnabledAttributes = [RouterosBgpSessionUpMetricAttributeKeyPeerName, RouterosBgpSessionUpMetricAttributeKeyPeerAs]\<rparr>"

subsection \<open>routeros.firewall.rule.io\<close>

definition RouterosFirewallRuleIoMetricAttributeKeyRule :: string where
  "RouterosFirewallRuleIoMetricAttributeKeyRule = ''firewall.rule''"

definition RouterosFirewallRuleIo_desc :: metric_desc where
  "RouterosFirewallRuleIo_desc = \<lparr>descName = ''routeros.firewall.rule.io'', descText = ''Bytes matched by a firewall filter rule, keyed by comment.'', descUnit = ''By'', descType = Sum True Cumulative\<rparr>"

definition RouterosFirewallRuleIo_init :: "int metric \<Rightarrow> int metric" where
  "RouterosFirewallRuleIo_init = metric_init RouterosFirewallRuleIo_desc"

definition RouterosFirewallRuleIo_recordDataPoint ::
  "int metric \<Rightarrow> nat \<Rightarrow> nat \<Rightarrow> int \<Rightarrow> string \<Rightarrow> int metric option" where
  "RouterosFirewallRuleIo_recordDataPoint m startTs ts val rul =
     recordDataPoint int64_ops m startTs ts val [(RouterosFirewallRuleIoMetricAttributeKeyRule, rul)]"

definition RouterosFirewallRuleIo_emit :: "int metric \<Rightarrow> (int Metric list \<times> int metric) option" where
  "RouterosFirewallRuleIo_emit = emit int64_ops RouterosFirewallRuleIo_desc"

definition newMetricRouterosFirewallRuleIo :: "MetricConfig \<Rightarrow> int metric" where
  "newMetricRouterosFirewallRuleIo = newMetric RouterosFirewallRuleIo_desc"

definition RouterosFirewallRuleIoMetricConfig_Validate :: "MetricConfig \<Rightarrow> metric_config_problem option" where
  "RouterosFirewallRuleIoMetricConfig_Validate = validateMetric [RouterosFirewallRuleIoMetricAttributeKeyRule]"

definition defaultRouterosFirewallRuleIoMetricConfig :: MetricConfig where
  "defaultRouterosFirewallRuleIoMetricConfig =
     \<lparr>mEnabled = True, mEnabledSetByUser = False, mAggregationStrategy = AggregationStrategySum,
      mEnabledAttributes = [RouterosFirewallRuleIoMetricAttributeKeyRule]\<rparr>"

subsection \<open>routeros.hw.temperature\<close>

definition RouterosHwTemperatureMetricAttributeKeySensorID :: string where
  "RouterosHwTemperatureMetricAttributeKeySensorID = ''hw.id''"

definition RouterosHwTemperature_desc :: metric_desc where
  "RouterosHwTemperature_desc = \<lparr>descName = ''routeros.hw.temperature'', descText = ''Temperature sensor reading.'', descUnit = ''Cel'', descType = Gauge\<rparr>"

definition RouterosHwTemperature_init :: "'f metric \<Rightarrow> 'f metric" where
  "RouterosHwTemperature_init = metric_init RouterosHwTemperature_desc"

definition RouterosHwTemperature_recordDataPoint ::
  "'f float64 \<Rightarrow> 'f metric \<Rightarrow> nat \<Rightarrow> nat \<Rightarrow> 'f \<Rightarrow> string \<Rightarrow> 'f metric option" where
  "RouterosHwTemperature_recordDataPoint F m startTs ts val sensorID =
     recordDataPoint (float64_ops F) m startTs ts val [(RouterosHwTemperatureMetricAttributeKeySensorID, sensorID)]"

definition RouterosHwTemperature_emit :: "'f float64 \<Rightarrow> 'f metric \<Rightarrow> ('f Metric list \<times> 'f metric) option" where
  "RouterosHwTemperature_emit F = emit (float64_ops F) RouterosHwTemperature_desc"

definition newMetricRouterosHwTemperature :: "MetricConfig \<Rightarrow> 'f metric" where
  "newMetricRouterosHwTemperature = newMetric RouterosHwTemperature_desc"

definition RouterosHwTemperatureMetricConfig_Validate :: "MetricConfig \<Rightarrow> metric_config_problem option" where
  "RouterosHwTemperatureMetricConfig_Validate = validateMetric [RouterosHwTemperatureMetricAttributeKeySensorID]"

definition defaultRouterosHwTemperatureMetricConfig :: MetricConfig where
  "defaultRouterosHwTemperatureMetricConfig =
     \<lparr>mEnabled = True, mEnabledSetByUser = False, mAggregationStrategy = AggregationStrategyAvg,
      mEnabledAttributes = [RouterosHwTemperatureMetricAttributeKeySensorID]\<rparr>"

subsection \<open>routeros.interface.io\<close>

definition RouterosInterfaceIoMetricAttributeKeyInterfaceName :: string where
  "RouterosInterfaceIoMetricAttributeKeyInterfaceName = ''network.interface.name''"

definition RouterosInterfaceIoMetricAttributeKeyIoDirection :: string where
  "RouterosInterfaceIoMetricAttributeKeyIoDirection = ''network.io.direction''"

definition RouterosInterfaceIo_desc :: metric_desc where
  "RouterosInterfaceIo_desc = \<lparr>descName = ''routeros.interface.io'', descText = ''Interface traffic in bytes.'', descUnit = ''By'', descType = Sum True Cumulative\<rparr>"

definition RouterosInterfaceIo_init :: "int metric \<Rightarrow> int metric" where
  "RouterosInterfaceIo_init = metric_init RouterosInterfaceIo_desc"

definition RouterosInterfaceIo_recordDataPoint ::
  "int metric \<Rightarrow> nat \<Rightarrow> nat \<Rightarrow> int \<Rightarrow> string \<Rightarrow> string \<Rightarrow> int metric option" where
  "RouterosInterfaceIo_recordDataPoint m startTs ts val interfaceName ioDirection =
     recordDataPoint int64_ops m startTs ts val [(RouterosInterfaceIoMetricAttributeKeyInterfaceName, interfaceName), (RouterosInterfaceIoMetricAttributeKeyIoDirection, ioDirection)]"

definition RouterosInterfaceIo_emit :: "int metric \<Rightarrow> (int Metric list \<times> int metric) option" where
  "RouterosInterfaceIo_emit = emit int64_ops RouterosInterfaceIo_desc"

definition newMetricRouterosInterfaceIo :: "MetricConfig \<Rightarrow> int metric" where
  "newMetricRouterosInterfaceIo = newMetric RouterosInterfaceIo_desc"

definition RouterosInterfaceIoMetricConfig_Validate :: "MetricConfig \<Rightarrow> metric_config_problem option" where
  "RouterosInterfaceIoMetricConfig_Validate = validateMetric [RouterosInterfaceIoMetricAttributeKeyInterfaceName, RouterosInterfaceIoMetricAttributeKeyIoDirection]"

definition defaultRouterosInterfaceIoMetricConfig :: MetricConfig where
  "defaultRouterosInterfaceIoMetricConfig =
     \<lparr>mEnabled = True, mEnabledSetByUser = False, mAggregationStrategy = AggregationStrategySum,
      mEnabledAttributes = [RouterosInterfaceIoMetricAttributeKeyInterfaceName, RouterosInterfaceIoMetricAttributeKeyIoDirection]\<rparr>"

subsection \<open>routeros.interface.up\<close>

definition RouterosInterfaceUpMetricAttributeKeyInterfaceName :: string where
  "RouterosInterfaceUpMetricAttributeKeyInterfaceName = ''network.interface.name''"

definition RouterosInterfaceUp_desc :: metric_desc where
  "RouterosInterfaceUp_desc = \<lparr>descName = ''routeros.interface.up'', descText = ''Whether the interface is running.'', descUnit = ''{status}'', descType = Gauge\<rparr>"

definition RouterosInterfaceUp_init :: "int metric \<Rightarrow> int metric" where
  "RouterosInterfaceUp_init = metric_init RouterosInterfaceUp_desc"

definition RouterosInterfaceUp_recordDataPoint ::
  "int metric \<Rightarrow> nat \<Rightarrow> nat \<Rightarrow> int \<Rightarrow> string \<Rightarrow> int metric option" where
  "RouterosInterfaceUp_recordDataPoint m startTs ts val interfaceName =
     recordDataPoint int64_ops m startTs ts val [(RouterosInterfaceUpMetricAttributeKeyInterfaceName, interfaceName)]"

definition RouterosInterfaceUp_emit :: "int metric \<Rightarrow> (int Metric list \<times> int metric) option" where
  "RouterosInterfaceUp_emit = emit int64_ops RouterosInterfaceUp_desc"

definition newMetricRouterosInterfaceUp :: "MetricConfig \<Rightarrow> int metric" where
  "newMetricRouterosInterfaceUp = newMetric RouterosInterfaceUp_desc"

definition RouterosInterfaceUpMetricConfig_Validate :: "MetricConfig \<Rightarrow> metric_config_problem option" where
  "RouterosInterfaceUpMetricConfig_Validate = validateMetric [RouterosInterfaceUpMetricAttributeKeyInterfaceName]"

definition defaultRouterosInterfaceUpMetricConfig :: MetricConfig where
  "defaultRouterosInterfaceUpMetricConfig =
     \<lparr>mEnabled = True, mEnabledSetByUser = False, mAggregationStrategy = AggregationStrategyAvg,
      mEnabledAttributes = [RouterosInterfaceUpMetricAttributeKeyInterfaceName]\<rparr>"

lemmas desc_defs = RouterosBgpSessionPrefixCount_desc_def RouterosBgpSessionUp_desc_def RouterosFirewallRuleIo_desc_def RouterosHwTemperature_desc_def RouterosInterfaceIo_desc_def RouterosInterfaceUp_desc_def

lemmas record_defs = RouterosBgpSessionPrefixCount_recordDataPoint_def RouterosBgpSessionUp_recordDataPoint_def RouterosFirewallRuleIo_recordDataPoint_def RouterosHwTemperature_recordDataPoint_def RouterosInterfaceIo_recordDataPoint_def RouterosInterfaceUp_recordDataPoint_def

lemmas emit_defs = RouterosBgpSessionPrefixCount_emit_def RouterosBgpSessionUp_emit_def RouterosFirewallRuleIo_emit_def RouterosHwTemperature_emit_def RouterosInterfaceIo_emit_def RouterosInterfaceUp_emit_def

lemmas newMetric_defs = newMetricRouterosBgpSessionPrefixCount_def newMetricRouterosBgpSessionUp_def newMetricRouterosFirewallRuleIo_def newMetricRouterosHwTemperature_def newMetricRouterosInterfaceIo_def newMetricRouterosInterfaceUp_def

lemmas validate_defs = RouterosBgpSessionPrefixCountMetricConfig_Validate_def RouterosBgpSessionUpMetricConfig_Validate_def RouterosFirewallRuleIoMetricConfig_Validate_def RouterosHwTemperatureMetricConfig_Validate_def RouterosInterfaceIoMetricConfig_Validate_def RouterosInterfaceUpMetricConfig_Validate_def

lemmas default_defs = defaultRouterosBgpSessionPrefixCountMetricConfig_def defaultRouterosBgpSessionUpMetricConfig_def defaultRouterosFirewallRuleIoMetricConfig_def defaultRouterosHwTemperatureMetricConfig_def defaultRouterosInterfaceIoMetricConfig_def defaultRouterosInterfaceUpMetricConfig_def

lemmas key_defs = RouterosBgpSessionPrefixCountMetricAttributeKeyPeerAs_def RouterosBgpSessionPrefixCountMetricAttributeKeyPeerName_def RouterosBgpSessionUpMetricAttributeKeyPeerAs_def RouterosBgpSessionUpMetricAttributeKeyPeerName_def RouterosFirewallRuleIoMetricAttributeKeyRule_def RouterosHwTemperatureMetricAttributeKeySensorID_def RouterosInterfaceIoMetricAttributeKeyInterfaceName_def RouterosInterfaceIoMetricAttributeKeyIoDirection_def RouterosInterfaceUpMetricAttributeKeyInterfaceName_def
section \<open>Configuration\<close>

record MetricsConfig =
  cfgBgpSessionPrefixCount :: MetricConfig
  cfgBgpSessionUp :: MetricConfig
  cfgFirewallRuleIo :: MetricConfig
  cfgHwTemperature :: MetricConfig
  cfgInterfaceIo :: MetricConfig
  cfgInterfaceUp :: MetricConfig

definition DefaultMetricsConfig :: MetricsConfig where
  "DefaultMetricsConfig =
     \<lparr>cfgBgpSessionPrefixCount = defaultRouterosBgpSessionPrefixCountMetricConfig,
      cfgBgpSessionUp = defaultRouterosBgpSessionUpMetricConfig,
      cfgFirewallRuleIo = defaultRouterosFirewallRuleIoMetricConfig,
      cfgHwTemperature = defaultRouterosHwTemperatureMetricConfig,
      cfgInterfaceIo = defaultRouterosInterfaceIoMetricConfig,
      cfgInterfaceUp = defaultRouterosInterfaceUpMetricConfig\<rparr>"

text \<open>A configuration all six validations accept.\<close>

definition metricsValid :: "MetricsConfig \<Rightarrow> bool" where
  "metricsValid c \<longleftrightarrow>
     RouterosBgpSessionPrefixCountMetricConfig_Validate (cfgBgpSessionPrefixCount c) = None
   \<and> RouterosBgpSessionUpMetricConfig_Validate (cfgBgpSessionUp c) = None
   \<and> RouterosFirewallRuleIoMetricConfig_Validate (cfgFirewallRuleIo c) = None
   \<and> RouterosHwTemperatureMetricConfig_Validate (cfgHwTemperature c) = None
   \<and> RouterosInterfaceIoMetricConfig_Validate (cfgInterfaceIo c) = None
   \<and> RouterosInterfaceUpMetricConfig_Validate (cfgInterfaceUp c) = None"

text \<open>A nil list of filters and an empty one are not the same.\<close>

record 'c ResourceAttributeConfig =
  raEnabled :: bool
  MetricsInclude :: "'c list option"
  MetricsExclude :: "'c list option"
  raEnabledSetByUser :: bool

definition ResourceAttributeConfig_Unmarshal ::
  "('p \<Rightarrow> 'c ResourceAttributeConfig \<Rightarrow> 'e + 'c ResourceAttributeConfig) \<Rightarrow> ('p \<Rightarrow> string \<Rightarrow> bool) \<Rightarrow> 'p option
   \<Rightarrow> 'c ResourceAttributeConfig \<Rightarrow> 'e + 'c ResourceAttributeConfig" where
  "ResourceAttributeConfig_Unmarshal confUnmarshal isSet parser rac =
     (case parser of
        None \<Rightarrow> Inr rac
      | Some p \<Rightarrow>
          (case confUnmarshal p rac of
             Inl err \<Rightarrow> Inl err
           | Inr rac' \<Rightarrow> Inr (rac'\<lparr>raEnabledSetByUser := isSet p ''enabled''\<rparr>)))"

record 'c ResourceAttributesConfig =
  raDeviceModel :: "'c ResourceAttributeConfig"
  raDeviceSerial :: "'c ResourceAttributeConfig"
  raOsVersion :: "'c ResourceAttributeConfig"
  raServiceInstanceID :: "'c ResourceAttributeConfig"
  raServiceName :: "'c ResourceAttributeConfig"

definition enabledAttribute :: "'c ResourceAttributeConfig" where
  "enabledAttribute = \<lparr>raEnabled = True, MetricsInclude = None, MetricsExclude = None, raEnabledSetByUser = False\<rparr>"

definition DefaultResourceAttributesConfig :: "'c ResourceAttributesConfig" where
  "DefaultResourceAttributesConfig =
     \<lparr>raDeviceModel = enabledAttribute, raDeviceSerial = enabledAttribute, raOsVersion = enabledAttribute,
      raServiceInstanceID = enabledAttribute, raServiceName = enabledAttribute\<rparr>"

record 'c MetricsBuilderConfig =
  mbcMetrics :: MetricsConfig
  mbcResourceAttributes :: "'c ResourceAttributesConfig"

definition NewDefaultMetricsBuilderConfig :: "'c MetricsBuilderConfig" where
  "NewDefaultMetricsBuilderConfig =
     \<lparr>mbcMetrics = DefaultMetricsConfig, mbcResourceAttributes = DefaultResourceAttributesConfig\<rparr>"

section \<open>The resource builder\<close>

record 'c ResourceBuilder =
  rbConfig :: "'c ResourceAttributesConfig"
  rbRes :: "string go_map"

definition NewResourceBuilder :: "'c ResourceAttributesConfig \<Rightarrow> 'c ResourceBuilder" where
  "NewResourceBuilder rac = \<lparr>rbConfig = rac, rbRes = fmempty\<rparr>"

definition SetRouterosDeviceModel :: "string \<Rightarrow> 'c ResourceBuilder \<Rightarrow> 'c ResourceBuilder" where
  "SetRouterosDeviceModel val rb =
     (if raEnabled (raDeviceModel (rbConfig rb)) then rb\<lparr>rbRes := fmupd ''routeros.device.model'' val (rbRes rb)\<rparr> else rb)"

definition SetRouterosDeviceSerial :: "string \<Rightarrow> 'c ResourceBuilder \<Rightarrow> 'c ResourceBuilder" where
  "SetRouterosDeviceSerial val rb =
     (if raEnabled (raDeviceSerial (rbConfig rb)) then rb\<lparr>rbRes := fmupd ''routeros.device.serial'' val (rbRes rb)\<rparr> else rb)"

definition SetRouterosOsVersion :: "string \<Rightarrow> 'c ResourceBuilder \<Rightarrow> 'c ResourceBuilder" where
  "SetRouterosOsVersion val rb =
     (if raEnabled (raOsVersion (rbConfig rb)) then rb\<lparr>rbRes := fmupd ''routeros.os.version'' val (rbRes rb)\<rparr> else rb)"

definition SetServiceInstanceID :: "string \<Rightarrow> 'c ResourceBuilder \<Rightarrow> 'c ResourceBuilder" where
  "SetServiceInstanceID val rb =
     (if raEnabled (raServiceInstanceID (rbConfig rb)) then rb\<lparr>rbRes := fmupd ''service.instance.id'' val (rbRes rb)\<rparr> else rb)"

definition SetServiceName :: "string \<Rightarrow> 'c ResourceBuilder \<Rightarrow> 'c ResourceBuilder" where
  "SetServiceName val rb =
     (if raEnabled (raServiceName (rbConfig rb)) then rb\<lparr>rbRes := fmupd ''service.name'' val (rbRes rb)\<rparr> else rb)"

definition ResourceBuilder_Emit :: "'c ResourceBuilder \<Rightarrow> string go_map \<times> 'c ResourceBuilder" where
  "ResourceBuilder_Emit rb = (rbRes rb, rb\<lparr>rbRes := fmempty\<rparr>)"

lemmas setter_defs = SetRouterosDeviceModel_def SetRouterosDeviceSerial_def SetRouterosOsVersion_def SetServiceInstanceID_def SetServiceName_def

text \<open>The resource of a scrape: the setters in the order \<^verbatim>\<open>scrape\<close> calls them.\<close>

definition buildResource :: "'c ResourceAttributesConfig \<Rightarrow> resource_attrs \<Rightarrow> string go_map" where
  "buildResource rac a =
     (let rb1 = SetServiceName (ServiceName a) (NewResourceBuilder rac);
          rb2 = (case OsVersion a of None \<Rightarrow> rb1 | Some v \<Rightarrow> SetRouterosOsVersion v rb1);
          rb3 = (case DeviceModel a of None \<Rightarrow> rb2 | Some v \<Rightarrow> SetRouterosDeviceModel v rb2);
          rb4 = (case DeviceSerial a of None \<Rightarrow> rb3 | Some v \<Rightarrow> SetRouterosDeviceSerial v rb3)
      in fst (ResourceBuilder_Emit (SetServiceInstanceID (ServiceInstanceID a) rb4)))"

section \<open>The metrics builder\<close>

text \<open>The value of an emitted data point carries its type.\<close>

datatype 'f number = IntValue int | DoubleValue 'f

definition tagPoint :: "('v \<Rightarrow> 'f number) \<Rightarrow> 'v NumberDataPoint \<Rightarrow> 'f number NumberDataPoint" where
  "tagPoint t p = \<lparr>Attributes = Attributes p, StartTimestamp = StartTimestamp p, Timestamp = Timestamp p, Value = t (Value p)\<rparr>"

definition tagMetric :: "('v \<Rightarrow> 'f number) \<Rightarrow> 'v Metric \<Rightarrow> 'f number Metric" where
  "tagMetric t m = \<lparr>mtDesc = mtDesc m, mtPoints = map (tagPoint t) (mtPoints m)\<rparr>"

record 'f ResourceMetrics =
  rmResource :: "string go_map"
  rmScopeName :: string
  rmScopeVersion :: string
  rmMetrics :: "'f number Metric list"

record ('f, 'c) MetricsBuilder =
  mbConfig :: "'c MetricsBuilderConfig"
  startTime :: nat
  metricsCapacity :: nat
  metricsBuffer :: "'f ResourceMetrics list"
  buildVersion :: string
  resourceAttributeIncludeFilter :: "(string \<times> (string \<Rightarrow> bool)) list"
  resourceAttributeExcludeFilter :: "(string \<times> (string \<Rightarrow> bool)) list"
  metricRouterosBgpSessionPrefixCount :: "int metric"
  metricRouterosBgpSessionUp :: "int metric"
  metricRouterosFirewallRuleIo :: "int metric"
  metricRouterosHwTemperature :: "'f metric"
  metricRouterosInterfaceIo :: "int metric"
  metricRouterosInterfaceUp :: "int metric"

type_synonym ('f, 'c) builder_option = "('f, 'c) MetricsBuilder \<Rightarrow> ('f, 'c) MetricsBuilder"
type_synonym 'f resource_option = "'f ResourceMetrics \<Rightarrow> 'f ResourceMetrics"

definition WithStartTime :: "nat \<Rightarrow> ('f, 'c) builder_option" where
  "WithStartTime startTs mb = mb\<lparr>startTime := startTs\<rparr>"

definition WithResource :: "string go_map \<Rightarrow> 'f resource_option" where
  "WithResource res rm = rm\<lparr>rmResource := res\<rparr>"

definition WithStartTimeOverride :: "nat \<Rightarrow> 'f resource_option" where
  "WithStartTimeOverride startTs rm =
     rm\<lparr>rmMetrics := map (\<lambda>m. m\<lparr>mtPoints := map (\<lambda>p. p\<lparr>StartTimestamp := startTs\<rparr>) (mtPoints m)\<rparr>) (rmMetrics rm)\<rparr>"

definition filtersOf ::
  "('c list \<Rightarrow> string \<Rightarrow> bool) \<Rightarrow> ('c ResourceAttributeConfig \<Rightarrow> 'c list option) \<Rightarrow> 'c ResourceAttributesConfig
   \<Rightarrow> (string \<times> (string \<Rightarrow> bool)) list" where
  "filtersOf CreateFilter sel rac =
     List.map_filter (\<lambda>(attr, c). map_option (\<lambda>fs. (attr, CreateFilter fs)) (sel c))
       [(''routeros.device.model'', raDeviceModel rac), (''routeros.device.serial'', raDeviceSerial rac),
        (''routeros.os.version'', raOsVersion rac), (''service.instance.id'', raServiceInstanceID rac),
        (''service.name'', raServiceName rac)]"

definition NewMetricsBuilder ::
  "('c list \<Rightarrow> string \<Rightarrow> bool) \<Rightarrow> nat \<Rightarrow> string \<Rightarrow> 'c MetricsBuilderConfig \<Rightarrow> ('f, 'c) builder_option list
   \<Rightarrow> ('f, 'c) MetricsBuilder" where
  "NewMetricsBuilder CreateFilter now version mbc options =
     fold (\<lambda>op mb. op mb) options
       \<lparr>mbConfig = mbc, startTime = now, metricsCapacity = 0, metricsBuffer = [], buildVersion = version,
        resourceAttributeIncludeFilter = filtersOf CreateFilter MetricsInclude (mbcResourceAttributes mbc),
        resourceAttributeExcludeFilter = filtersOf CreateFilter MetricsExclude (mbcResourceAttributes mbc),
        metricRouterosBgpSessionPrefixCount = newMetricRouterosBgpSessionPrefixCount (cfgBgpSessionPrefixCount (mbcMetrics mbc)),
        metricRouterosBgpSessionUp = newMetricRouterosBgpSessionUp (cfgBgpSessionUp (mbcMetrics mbc)),
        metricRouterosFirewallRuleIo = newMetricRouterosFirewallRuleIo (cfgFirewallRuleIo (mbcMetrics mbc)),
        metricRouterosHwTemperature = newMetricRouterosHwTemperature (cfgHwTemperature (mbcMetrics mbc)),
        metricRouterosInterfaceIo = newMetricRouterosInterfaceIo (cfgInterfaceIo (mbcMetrics mbc)),
        metricRouterosInterfaceUp = newMetricRouterosInterfaceUp (cfgInterfaceUp (mbcMetrics mbc))\<rparr>"

definition Reset :: "nat \<Rightarrow> ('f, 'c) builder_option list \<Rightarrow> ('f, 'c) MetricsBuilder \<Rightarrow> ('f, 'c) MetricsBuilder" where
  "Reset now options mb = fold (\<lambda>op mb. op mb) options (mb\<lparr>startTime := now\<rparr>)"

definition MetricsBuilder_updateCapacity :: "'f ResourceMetrics \<Rightarrow> ('f, 'c) MetricsBuilder \<Rightarrow> ('f, 'c) MetricsBuilder" where
  "MetricsBuilder_updateCapacity rm mb =
     (if metricsCapacity mb < length (rmMetrics rm) then mb\<lparr>metricsCapacity := length (rmMetrics rm)\<rparr> else mb)"

definition ScopeName :: string where
  "ScopeName = ''github.com/sindrip/provider-routeros/collector''"

text \<open>The six \<^verbatim>\<open>emit\<close> calls, in their order, into one slice.\<close>

definition emitAll :: "'f float64 \<Rightarrow> ('f, 'c) MetricsBuilder \<Rightarrow> ('f number Metric list \<times> ('f, 'c) MetricsBuilder) option" where
  "emitAll F mb =
     Option.bind (RouterosBgpSessionPrefixCount_emit (metricRouterosBgpSessionPrefixCount mb)) (\<lambda>(ms1, m1).
     Option.bind (RouterosBgpSessionUp_emit (metricRouterosBgpSessionUp mb)) (\<lambda>(ms2, m2).
     Option.bind (RouterosFirewallRuleIo_emit (metricRouterosFirewallRuleIo mb)) (\<lambda>(ms3, m3).
     Option.bind (RouterosHwTemperature_emit F (metricRouterosHwTemperature mb)) (\<lambda>(ms4, m4).
     Option.bind (RouterosInterfaceIo_emit (metricRouterosInterfaceIo mb)) (\<lambda>(ms5, m5).
     Option.bind (RouterosInterfaceUp_emit (metricRouterosInterfaceUp mb)) (\<lambda>(ms6, m6).
       Some (map (tagMetric IntValue) ms1 @ map (tagMetric IntValue) ms2 @ map (tagMetric IntValue) ms3
             @ map (tagMetric DoubleValue) ms4 @ map (tagMetric IntValue) ms5 @ map (tagMetric IntValue) ms6,
             mb\<lparr>metricRouterosBgpSessionPrefixCount := m1, metricRouterosBgpSessionUp := m2, metricRouterosFirewallRuleIo := m3,
                metricRouterosHwTemperature := m4, metricRouterosInterfaceIo := m5, metricRouterosInterfaceUp := m6\<rparr>)))))))"

definition includeRejects :: "(string \<times> (string \<Rightarrow> bool)) list \<Rightarrow> string go_map \<Rightarrow> bool" where
  "includeRejects fs res \<longleftrightarrow>
     list_ex (\<lambda>(attr, matches). case fmlookup res attr of None \<Rightarrow> False | Some val \<Rightarrow> \<not> matches val) fs"

definition excludeRejects :: "(string \<times> (string \<Rightarrow> bool)) list \<Rightarrow> string go_map \<Rightarrow> bool" where
  "excludeRejects fs res \<longleftrightarrow>
     list_ex (\<lambda>(attr, matches). case fmlookup res attr of None \<Rightarrow> False | Some val \<Rightarrow> matches val) fs"

definition EmitForResource ::
  "'f float64 \<Rightarrow> 'f resource_option list \<Rightarrow> ('f, 'c) MetricsBuilder \<Rightarrow> ('f, 'c) MetricsBuilder option" where
  "EmitForResource F options mb =
     (case emitAll F mb of
        None \<Rightarrow> None
      | Some (ms, mb1) \<Rightarrow>
          (let rm = fold (\<lambda>op rm. op rm) options
                 \<lparr>rmResource = fmempty, rmScopeName = ScopeName, rmScopeVersion = buildVersion mb, rmMetrics = ms\<rparr>
           in if includeRejects (resourceAttributeIncludeFilter mb1) (rmResource rm) then Some mb1
              else if excludeRejects (resourceAttributeExcludeFilter mb1) (rmResource rm) then Some mb1
              else if rmMetrics rm \<noteq> []
              then (let mb2 = MetricsBuilder_updateCapacity rm mb1 in Some (mb2\<lparr>metricsBuffer := metricsBuffer mb2 @ [rm]\<rparr>))
              else Some mb1))"

definition Emit ::
  "'f float64 \<Rightarrow> 'f resource_option list \<Rightarrow> ('f, 'c) MetricsBuilder \<Rightarrow> ('f ResourceMetrics list \<times> ('f, 'c) MetricsBuilder) option" where
  "Emit F options mb =
     (case EmitForResource F options mb of
        None \<Rightarrow> None
      | Some mb1 \<Rightarrow> Some (metricsBuffer mb1, mb1\<lparr>metricsBuffer := []\<rparr>))"

definition RecordRouterosBgpSessionPrefixCountDataPoint ::
  "nat \<Rightarrow> int \<Rightarrow> string \<Rightarrow> string \<Rightarrow> ('f, 'c) MetricsBuilder \<Rightarrow> ('f, 'c) MetricsBuilder option" where
  "RecordRouterosBgpSessionPrefixCountDataPoint ts val peerName peerAs mb =
     map_option (\<lambda>m. mb\<lparr>metricRouterosBgpSessionPrefixCount := m\<rparr>)
       (RouterosBgpSessionPrefixCount_recordDataPoint (metricRouterosBgpSessionPrefixCount mb) (startTime mb) ts val peerName peerAs)"

definition RecordRouterosBgpSessionUpDataPoint ::
  "nat \<Rightarrow> int \<Rightarrow> string \<Rightarrow> string \<Rightarrow> ('f, 'c) MetricsBuilder \<Rightarrow> ('f, 'c) MetricsBuilder option" where
  "RecordRouterosBgpSessionUpDataPoint ts val peerName peerAs mb =
     map_option (\<lambda>m. mb\<lparr>metricRouterosBgpSessionUp := m\<rparr>)
       (RouterosBgpSessionUp_recordDataPoint (metricRouterosBgpSessionUp mb) (startTime mb) ts val peerName peerAs)"

definition RecordRouterosFirewallRuleIoDataPoint ::
  "nat \<Rightarrow> int \<Rightarrow> string \<Rightarrow> ('f, 'c) MetricsBuilder \<Rightarrow> ('f, 'c) MetricsBuilder option" where
  "RecordRouterosFirewallRuleIoDataPoint ts val rul mb =
     map_option (\<lambda>m. mb\<lparr>metricRouterosFirewallRuleIo := m\<rparr>)
       (RouterosFirewallRuleIo_recordDataPoint (metricRouterosFirewallRuleIo mb) (startTime mb) ts val rul)"

definition RecordRouterosHwTemperatureDataPoint ::
  "'f float64 \<Rightarrow> nat \<Rightarrow> 'f \<Rightarrow> string \<Rightarrow> ('f, 'c) MetricsBuilder \<Rightarrow> ('f, 'c) MetricsBuilder option" where
  "RecordRouterosHwTemperatureDataPoint F ts val sensorID mb =
     map_option (\<lambda>m. mb\<lparr>metricRouterosHwTemperature := m\<rparr>)
       (RouterosHwTemperature_recordDataPoint F (metricRouterosHwTemperature mb) (startTime mb) ts val sensorID)"

definition RecordRouterosInterfaceIoDataPoint ::
  "nat \<Rightarrow> int \<Rightarrow> string \<Rightarrow> direction \<Rightarrow> ('f, 'c) MetricsBuilder \<Rightarrow> ('f, 'c) MetricsBuilder option" where
  "RecordRouterosInterfaceIoDataPoint ts val interfaceName ioDirection mb =
     map_option (\<lambda>m. mb\<lparr>metricRouterosInterfaceIo := m\<rparr>)
       (RouterosInterfaceIo_recordDataPoint (metricRouterosInterfaceIo mb) (startTime mb) ts val interfaceName
          (AttributeIoDirection_String ioDirection))"

definition RecordRouterosInterfaceUpDataPoint ::
  "nat \<Rightarrow> int \<Rightarrow> string \<Rightarrow> ('f, 'c) MetricsBuilder \<Rightarrow> ('f, 'c) MetricsBuilder option" where
  "RecordRouterosInterfaceUpDataPoint ts val interfaceName mb =
     map_option (\<lambda>m. mb\<lparr>metricRouterosInterfaceUp := m\<rparr>)
       (RouterosInterfaceUp_recordDataPoint (metricRouterosInterfaceUp mb) (startTime mb) ts val interfaceName)"

lemmas Record_defs = RecordRouterosBgpSessionPrefixCountDataPoint_def RecordRouterosBgpSessionUpDataPoint_def
  RecordRouterosFirewallRuleIoDataPoint_def RecordRouterosHwTemperatureDataPoint_def
  RecordRouterosInterfaceIoDataPoint_def RecordRouterosInterfaceUpDataPoint_def

section \<open>The scrape method\<close>

text \<open>
  The calls a scrape makes on the builder, one for each reading it took. The readings and the resource
  are those of the scrape of \<^verbatim>\<open>Collector\<close>; recording does not depend on the router, so the calls come
  after the requests here.
\<close>

definition recordPoint :: "'f float64 \<Rightarrow> nat \<Rightarrow> 'f point \<Rightarrow> ('f, 'c) MetricsBuilder \<Rightarrow> ('f, 'c) MetricsBuilder option" where
  "recordPoint F now p =
     (case p of
        InterfaceIo v n dir \<Rightarrow> RecordRouterosInterfaceIoDataPoint now v n dir
      | InterfaceUp v n \<Rightarrow> RecordRouterosInterfaceUpDataPoint now v n
      | BgpSessionPrefixCount v n as \<Rightarrow> RecordRouterosBgpSessionPrefixCountDataPoint now v n as
      | BgpSessionUp v n as \<Rightarrow> RecordRouterosBgpSessionUpDataPoint now v n as
      | HwTemperature v n \<Rightarrow> RecordRouterosHwTemperatureDataPoint F now v n
      | FirewallRuleIo v r \<Rightarrow> RecordRouterosFirewallRuleIoDataPoint now v r)"

fun recordPoints :: "'f float64 \<Rightarrow> nat \<Rightarrow> 'f point list \<Rightarrow> ('f, 'c) MetricsBuilder \<Rightarrow> ('f, 'c) MetricsBuilder option" where
  "recordPoints F now [] mb = Some mb"
| "recordPoints F now (p # ps) mb = Option.bind (recordPoint F now p mb) (recordPoints F now ps)"

text \<open>\<^verbatim>\<open>scrape\<close>, from the readings on: record, build the resource, emit for it, and hand out the buffer.\<close>

definition emitScrape ::
  "'f float64 \<Rightarrow> nat \<Rightarrow> 'f point list \<Rightarrow> resource_attrs \<Rightarrow> ('f, 'c) MetricsBuilder
   \<Rightarrow> ('f ResourceMetrics list \<times> ('f, 'c) MetricsBuilder) option" where
  "emitScrape F now ps a mb =
     Option.bind (recordPoints F now ps mb) (\<lambda>mb1.
     Option.bind (EmitForResource F [WithResource (buildResource (mbcResourceAttributes (mbConfig mb1)) a)] mb1)
       (Emit F []))"

definition scrapeMetrics ::
  "'f float64 \<Rightarrow> (string \<Rightarrow> num_error + 'f) \<Rightarrow> 'f \<Rightarrow> ('h, 'd) transport_fn \<Rightarrow> 'h Client \<Rightarrow> Config \<Rightarrow> nat
   \<Rightarrow> ('f, 'c) MetricsBuilder \<Rightarrow> 'd \<Rightarrow> ('f ResourceMetrics list \<times> ('f, 'c) MetricsBuilder) option \<times> 'd" where
  "scrapeMetrics F parseFloat zero Do c cfg now mb d =
     (case scrape parseFloat zero Do c cfg d of (s, a, d') \<Rightarrow> (emitScrape F now (points s) a mb, d'))"

end
