(* ===== verification/Metrics_Report.thy ===== *)
theory Metrics_Report
  imports Metrics_Builder
begin

text \<open>
  What the metrics builder reports. The specification of a scrape is the grouping of its readings: the
  six metrics in the order the builder emits them, each with one point for every series, under one
  resource. The builder is shown to implement it, scrape after scrape.
\<close>

section \<open>Specification\<close>

text \<open>The attributes and the value of a reading, for each metric.\<close>

fun prefixReading :: "'f point \<Rightarrow> ((string \<times> string) list \<times> int) option" where
  "prefixReading (BgpSessionPrefixCount v n a) = Some ([(''network.peer.name'', n), (''network.peer.as'', a)], v)"
| "prefixReading _ = None"

fun sessionReading :: "'f point \<Rightarrow> ((string \<times> string) list \<times> int) option" where
  "sessionReading (BgpSessionUp v n a) = Some ([(''network.peer.name'', n), (''network.peer.as'', a)], v)"
| "sessionReading _ = None"

fun ruleReading :: "'f point \<Rightarrow> ((string \<times> string) list \<times> int) option" where
  "ruleReading (FirewallRuleIo v r) = Some ([(''firewall.rule'', r)], v)"
| "ruleReading _ = None"

fun temperatureReading :: "'f point \<Rightarrow> ((string \<times> string) list \<times> 'f) option" where
  "temperatureReading (HwTemperature v n) = Some ([(''hw.id'', n)], v)"
| "temperatureReading _ = None"

fun ioReading :: "'f point \<Rightarrow> ((string \<times> string) list \<times> int) option" where
  "ioReading (InterfaceIo v n dir) =
     Some ([(''network.interface.name'', n), (''network.io.direction'', case dir of Receive \<Rightarrow> ''receive'' | Transmit \<Rightarrow> ''transmit'')], v)"
| "ioReading _ = None"

fun upReading :: "'f point \<Rightarrow> ((string \<times> string) list \<times> int) option" where
  "upReading (InterfaceUp v n) = Some ([(''network.interface.name'', n)], v)"
| "upReading _ = None"

definition readings ::
  "('f point \<Rightarrow> ((string \<times> string) list \<times> 'v) option) \<Rightarrow> MetricConfig \<Rightarrow> nat \<Rightarrow> nat \<Rightarrow> 'f point list \<Rightarrow> (series \<times> 'v) list" where
  "readings sel cfg st ts ps = map (\<lambda>(attrs, v). (seriesKey cfg st ts attrs, v)) (List.map_filter sel ps)"

definition metricFor :: "'v number_ops \<Rightarrow> metric_desc \<Rightarrow> MetricConfig \<Rightarrow> (series \<times> 'v) list \<Rightarrow> 'v Metric list" where
  "metricFor N desc cfg rs =
     (if mEnabled cfg \<and> rs \<noteq> [] then [\<lparr>mtDesc = desc, mtPoints = grouped N (mAggregationStrategy cfg) rs\<rparr>] else [])"

definition reportedMetrics :: "'f float64 \<Rightarrow> MetricsConfig \<Rightarrow> nat \<Rightarrow> nat \<Rightarrow> 'f point list \<Rightarrow> 'f number Metric list" where
  "reportedMetrics F mc st ts ps =
     map (tagMetric IntValue) (metricFor int64_ops RouterosBgpSessionPrefixCount_desc (cfgBgpSessionPrefixCount mc)
       (readings prefixReading (cfgBgpSessionPrefixCount mc) st ts ps))
   @ map (tagMetric IntValue) (metricFor int64_ops RouterosBgpSessionUp_desc (cfgBgpSessionUp mc)
       (readings sessionReading (cfgBgpSessionUp mc) st ts ps))
   @ map (tagMetric IntValue) (metricFor int64_ops RouterosFirewallRuleIo_desc (cfgFirewallRuleIo mc)
       (readings ruleReading (cfgFirewallRuleIo mc) st ts ps))
   @ map (tagMetric DoubleValue) (metricFor (float64_ops F) RouterosHwTemperature_desc (cfgHwTemperature mc)
       (readings temperatureReading (cfgHwTemperature mc) st ts ps))
   @ map (tagMetric IntValue) (metricFor int64_ops RouterosInterfaceIo_desc (cfgInterfaceIo mc)
       (readings ioReading (cfgInterfaceIo mc) st ts ps))
   @ map (tagMetric IntValue) (metricFor int64_ops RouterosInterfaceUp_desc (cfgInterfaceUp mc)
       (readings upReading (cfgInterfaceUp mc) st ts ps))"

definition report ::
  "'f float64 \<Rightarrow> ('c list \<Rightarrow> string \<Rightarrow> bool) \<Rightarrow> 'c MetricsBuilderConfig \<Rightarrow> string \<Rightarrow> nat \<Rightarrow> nat \<Rightarrow> 'f point list \<Rightarrow> resource_attrs
   \<Rightarrow> 'f ResourceMetrics list" where
  "report F CreateFilter mbc version st now ps a =
     (let res = buildResource (mbcResourceAttributes mbc) a; ms = reportedMetrics F (mbcMetrics mbc) st now ps
      in if includeRejects (filtersOf CreateFilter MetricsInclude (mbcResourceAttributes mbc)) res
          \<or> excludeRejects (filtersOf CreateFilter MetricsExclude (mbcResourceAttributes mbc)) res
          \<or> ms = [] then []
         else [\<lparr>rmResource = res, rmScopeName = ScopeName, rmScopeVersion = version, rmMetrics = ms\<rparr>])"

section \<open>The buffers hold what was recorded\<close>

lemma readings_Nil [simp]: "readings sel cfg st ts [] = []"
  by (simp add: readings_def List.map_filter_def)

lemma readings_snoc:
  "readings sel cfg st ts (ps @ [p]) =
     readings sel cfg st ts ps @ (case sel p of None \<Rightarrow> [] | Some (attrs, v) \<Rightarrow> [(seriesKey cfg st ts attrs, v)])"
  by (auto simp: readings_def List.map_filter_def split: option.splits)

lemma readings_length: "length (readings sel cfg st ts ps) \<le> length ps"
  by (simp add: readings_def List.map_filter_def)

lemma readings_few: "length ps < 2 ^ 63 \<Longrightarrow> length (readings sel cfg st ts ps) < 2 ^ 63"
  using readings_length [of sel cfg st ts ps] by simp

definition buffered :: "'f float64 \<Rightarrow> MetricsConfig \<Rightarrow> nat \<Rightarrow> nat \<Rightarrow> 'f point list \<Rightarrow> ('f, 'c) MetricsBuilder \<Rightarrow> bool" where
  "buffered F mc st ts ps mb \<longleftrightarrow>
     holds int64_ops RouterosBgpSessionPrefixCount_desc (cfgBgpSessionPrefixCount mc) (metricRouterosBgpSessionPrefixCount mb)
       (readings prefixReading (cfgBgpSessionPrefixCount mc) st ts ps)
   \<and> holds int64_ops RouterosBgpSessionUp_desc (cfgBgpSessionUp mc) (metricRouterosBgpSessionUp mb)
       (readings sessionReading (cfgBgpSessionUp mc) st ts ps)
   \<and> holds int64_ops RouterosFirewallRuleIo_desc (cfgFirewallRuleIo mc) (metricRouterosFirewallRuleIo mb)
       (readings ruleReading (cfgFirewallRuleIo mc) st ts ps)
   \<and> holds (float64_ops F) RouterosHwTemperature_desc (cfgHwTemperature mc) (metricRouterosHwTemperature mb)
       (readings temperatureReading (cfgHwTemperature mc) st ts ps)
   \<and> holds int64_ops RouterosInterfaceIo_desc (cfgInterfaceIo mc) (metricRouterosInterfaceIo mb)
       (readings ioReading (cfgInterfaceIo mc) st ts ps)
   \<and> holds int64_ops RouterosInterfaceUp_desc (cfgInterfaceUp mc) (metricRouterosInterfaceUp mb)
       (readings upReading (cfgInterfaceUp mc) st ts ps)
   \<and> startTime mb = st"

lemma bufferedD:
  assumes "buffered F mc st ts ps mb"
  shows "holds int64_ops RouterosBgpSessionPrefixCount_desc (cfgBgpSessionPrefixCount mc) (metricRouterosBgpSessionPrefixCount mb) (readings prefixReading (cfgBgpSessionPrefixCount mc) st ts ps)"
    and "holds int64_ops RouterosBgpSessionUp_desc (cfgBgpSessionUp mc) (metricRouterosBgpSessionUp mb) (readings sessionReading (cfgBgpSessionUp mc) st ts ps)"
    and "holds int64_ops RouterosFirewallRuleIo_desc (cfgFirewallRuleIo mc) (metricRouterosFirewallRuleIo mb) (readings ruleReading (cfgFirewallRuleIo mc) st ts ps)"
    and "holds (float64_ops F) RouterosHwTemperature_desc (cfgHwTemperature mc) (metricRouterosHwTemperature mb) (readings temperatureReading (cfgHwTemperature mc) st ts ps)"
    and "holds int64_ops RouterosInterfaceIo_desc (cfgInterfaceIo mc) (metricRouterosInterfaceIo mb) (readings ioReading (cfgInterfaceIo mc) st ts ps)"
    and "holds int64_ops RouterosInterfaceUp_desc (cfgInterfaceUp mc) (metricRouterosInterfaceUp mb) (readings upReading (cfgInterfaceUp mc) st ts ps)"
    and "startTime mb = st"
  using assms by (simp_all add: buffered_def)

definition strategiesValid :: "MetricsConfig \<Rightarrow> bool" where
  "strategiesValid mc \<longleftrightarrow> (\<forall>cfg \<in> {cfgBgpSessionPrefixCount mc, cfgBgpSessionUp mc, cfgFirewallRuleIo mc, cfgHwTemperature mc,
     cfgInterfaceIo mc, cfgInterfaceUp mc}. validStrategy (mAggregationStrategy cfg))"

lemma validateMetric_strategy: "validateMetric attrs c = None \<Longrightarrow> validStrategy (mAggregationStrategy c)"
  by (auto simp: validateMetric_def split: option.splits if_splits)

lemma metricsValid_strategies: "metricsValid mc \<Longrightarrow> strategiesValid mc"
  by (auto simp: metricsValid_def strategiesValid_def validate_defs dest: validateMetric_strategy)

text \<open>Everything a recording leaves alone.\<close>

definition settings :: "('f, 'c) MetricsBuilder \<Rightarrow> _" where
  "settings mb = (mbConfig mb, metricsBuffer mb, buildVersion mb, resourceAttributeIncludeFilter mb, resourceAttributeExcludeFilter mb)"

lemma record_slot:
  assumes "holds N desc cfg m (readings sel cfg st ts ps)" and "validStrategy (mAggregationStrategy cfg)" and "sel p = Some (attrs, v)"
  obtains m' where "recordDataPoint N m st ts v attrs = Some m'" and "holds N desc cfg m' (readings sel cfg st ts (ps @ [p]))"
  using record_holds [OF assms(1,2), of st ts v attrs] assms(3) by (auto simp: readings_snoc)

lemma recordPoint_buffered:
  fixes mb :: "('f, 'c) MetricsBuilder"
  assumes "buffered F mc st ts ps mb" and "strategiesValid mc"
  obtains mb' where "recordPoint F ts p mb = Some mb'" and "buffered F mc st ts (ps @ [p]) mb'" and "settings mb' = settings mb"
proof -
  have ok: "validStrategy (mAggregationStrategy (cfgBgpSessionPrefixCount mc))" "validStrategy (mAggregationStrategy (cfgBgpSessionUp mc))"
    "validStrategy (mAggregationStrategy (cfgFirewallRuleIo mc))" "validStrategy (mAggregationStrategy (cfgHwTemperature mc))"
    "validStrategy (mAggregationStrategy (cfgInterfaceIo mc))" "validStrategy (mAggregationStrategy (cfgInterfaceUp mc))"
    using assms(2) by (simp_all add: strategiesValid_def)
  note b = bufferedD [OF assms(1)]
  show ?thesis
  proof (cases p)
    case (InterfaceIo v n dir)
    obtain m' where "recordDataPoint int64_ops (metricRouterosInterfaceIo mb) st ts v
        [(''network.interface.name'', n), (''network.io.direction'', case dir of Receive \<Rightarrow> ''receive'' | Transmit \<Rightarrow> ''transmit'')] = Some m'"
      "holds int64_ops RouterosInterfaceIo_desc (cfgInterfaceIo mc) m' (readings ioReading (cfgInterfaceIo mc) st ts (ps @ [p]))"
      by (rule record_slot [OF b(5) ok(5), of p]) (simp_all add: InterfaceIo)
    then show ?thesis using that [of "mb\<lparr>metricRouterosInterfaceIo := m'\<rparr>"] b InterfaceIo
      by (simp add: recordPoint_def Record_defs record_defs key_defs buffered_def settings_def readings_snoc AttributeIoDirection_String_def)
  next
    case (InterfaceUp v n)
    obtain m' where "recordDataPoint int64_ops (metricRouterosInterfaceUp mb) st ts v [(''network.interface.name'', n)] = Some m'"
      "holds int64_ops RouterosInterfaceUp_desc (cfgInterfaceUp mc) m' (readings upReading (cfgInterfaceUp mc) st ts (ps @ [p]))"
      by (rule record_slot [OF b(6) ok(6), of p]) (simp_all add: InterfaceUp)
    then show ?thesis using that [of "mb\<lparr>metricRouterosInterfaceUp := m'\<rparr>"] b InterfaceUp
      by (simp add: recordPoint_def Record_defs record_defs key_defs buffered_def settings_def readings_snoc)
  next
    case (BgpSessionPrefixCount v n a)
    obtain m' where "recordDataPoint int64_ops (metricRouterosBgpSessionPrefixCount mb) st ts v
        [(''network.peer.name'', n), (''network.peer.as'', a)] = Some m'"
      "holds int64_ops RouterosBgpSessionPrefixCount_desc (cfgBgpSessionPrefixCount mc) m'
         (readings prefixReading (cfgBgpSessionPrefixCount mc) st ts (ps @ [p]))"
      by (rule record_slot [OF b(1) ok(1), of p]) (simp_all add: BgpSessionPrefixCount)
    then show ?thesis using that [of "mb\<lparr>metricRouterosBgpSessionPrefixCount := m'\<rparr>"] b BgpSessionPrefixCount
      by (simp add: recordPoint_def Record_defs record_defs key_defs buffered_def settings_def readings_snoc)
  next
    case (BgpSessionUp v n a)
    obtain m' where "recordDataPoint int64_ops (metricRouterosBgpSessionUp mb) st ts v
        [(''network.peer.name'', n), (''network.peer.as'', a)] = Some m'"
      "holds int64_ops RouterosBgpSessionUp_desc (cfgBgpSessionUp mc) m' (readings sessionReading (cfgBgpSessionUp mc) st ts (ps @ [p]))"
      by (rule record_slot [OF b(2) ok(2), of p]) (simp_all add: BgpSessionUp)
    then show ?thesis using that [of "mb\<lparr>metricRouterosBgpSessionUp := m'\<rparr>"] b BgpSessionUp
      by (simp add: recordPoint_def Record_defs record_defs key_defs buffered_def settings_def readings_snoc)
  next
    case (HwTemperature v n)
    obtain m' where "recordDataPoint (float64_ops F) (metricRouterosHwTemperature mb) st ts v [(''hw.id'', n)] = Some m'"
      "holds (float64_ops F) RouterosHwTemperature_desc (cfgHwTemperature mc) m' (readings temperatureReading (cfgHwTemperature mc) st ts (ps @ [p]))"
      by (rule record_slot [OF b(4) ok(4), of p]) (simp_all add: HwTemperature)
    then show ?thesis using that [of "mb\<lparr>metricRouterosHwTemperature := m'\<rparr>"] b HwTemperature
      by (simp add: recordPoint_def Record_defs record_defs key_defs buffered_def settings_def readings_snoc)
  next
    case (FirewallRuleIo v r)
    obtain m' where "recordDataPoint int64_ops (metricRouterosFirewallRuleIo mb) st ts v [(''firewall.rule'', r)] = Some m'"
      "holds int64_ops RouterosFirewallRuleIo_desc (cfgFirewallRuleIo mc) m' (readings ruleReading (cfgFirewallRuleIo mc) st ts (ps @ [p]))"
      by (rule record_slot [OF b(3) ok(3), of p]) (simp_all add: FirewallRuleIo)
    then show ?thesis using that [of "mb\<lparr>metricRouterosFirewallRuleIo := m'\<rparr>"] b FirewallRuleIo
      by (simp add: recordPoint_def Record_defs record_defs key_defs buffered_def settings_def readings_snoc)
  qed
qed

lemma recordPoints_buffered:
  fixes mb :: "('f, 'c) MetricsBuilder"
  assumes "buffered F mc st ts ps mb" and "strategiesValid mc"
  shows "\<exists>mb'. recordPoints F ts qs mb = Some mb' \<and> buffered F mc st ts (ps @ qs) mb' \<and> settings mb' = settings mb"
  using assms(1)
proof (induction qs arbitrary: ps mb)
  case (Cons q qs)
  obtain mb1 where 1: "recordPoint F ts q mb = Some mb1" "buffered F mc st ts (ps @ [q]) mb1" "settings mb1 = settings mb"
    by (rule recordPoint_buffered [OF Cons.prems assms(2)])
  from Cons.IH [OF 1(2)] show ?case using 1(1,3) by simp
qed simp

section \<open>Emitting\<close>

lemma emitAll_buffered:
  fixes mb :: "('f, 'c) MetricsBuilder"
  assumes "buffered F mc st ts ps mb" and "length ps < 2 ^ 63"
  obtains mb' where "emitAll F mb = Some (reportedMetrics F mc st ts ps, mb')"
    and "buffered F mc st ts [] mb'" and "settings mb' = settings mb"
proof -
  note b = bufferedD [OF assms(1)]
  note few = readings_few [OF assms(2)]
  obtain m1 where m1: "emit int64_ops RouterosBgpSessionPrefixCount_desc (metricRouterosBgpSessionPrefixCount mb)
      = Some (metricFor int64_ops RouterosBgpSessionPrefixCount_desc (cfgBgpSessionPrefixCount mc) (readings prefixReading (cfgBgpSessionPrefixCount mc) st ts ps), m1)"
    "holds int64_ops RouterosBgpSessionPrefixCount_desc (cfgBgpSessionPrefixCount mc) m1 []"
    using int64.emit_holds [OF b(1) few] unfolding metricFor_def by metis
  obtain m2 where m2: "emit int64_ops RouterosBgpSessionUp_desc (metricRouterosBgpSessionUp mb)
      = Some (metricFor int64_ops RouterosBgpSessionUp_desc (cfgBgpSessionUp mc) (readings sessionReading (cfgBgpSessionUp mc) st ts ps), m2)"
    "holds int64_ops RouterosBgpSessionUp_desc (cfgBgpSessionUp mc) m2 []"
    using int64.emit_holds [OF b(2) few] unfolding metricFor_def by metis
  obtain m3 where m3: "emit int64_ops RouterosFirewallRuleIo_desc (metricRouterosFirewallRuleIo mb)
      = Some (metricFor int64_ops RouterosFirewallRuleIo_desc (cfgFirewallRuleIo mc) (readings ruleReading (cfgFirewallRuleIo mc) st ts ps), m3)"
    "holds int64_ops RouterosFirewallRuleIo_desc (cfgFirewallRuleIo mc) m3 []"
    using int64.emit_holds [OF b(3) few] unfolding metricFor_def by metis
  obtain m4 where m4: "emit (float64_ops F) RouterosHwTemperature_desc (metricRouterosHwTemperature mb)
      = Some (metricFor (float64_ops F) RouterosHwTemperature_desc (cfgHwTemperature mc) (readings temperatureReading (cfgHwTemperature mc) st ts ps), m4)"
    "holds (float64_ops F) RouterosHwTemperature_desc (cfgHwTemperature mc) m4 []"
    using float64.emit_holds [OF b(4) few] unfolding metricFor_def by metis
  obtain m5 where m5: "emit int64_ops RouterosInterfaceIo_desc (metricRouterosInterfaceIo mb)
      = Some (metricFor int64_ops RouterosInterfaceIo_desc (cfgInterfaceIo mc) (readings ioReading (cfgInterfaceIo mc) st ts ps), m5)"
    "holds int64_ops RouterosInterfaceIo_desc (cfgInterfaceIo mc) m5 []"
    using int64.emit_holds [OF b(5) few] unfolding metricFor_def by metis
  obtain m6 where m6: "emit int64_ops RouterosInterfaceUp_desc (metricRouterosInterfaceUp mb)
      = Some (metricFor int64_ops RouterosInterfaceUp_desc (cfgInterfaceUp mc) (readings upReading (cfgInterfaceUp mc) st ts ps), m6)"
    "holds int64_ops RouterosInterfaceUp_desc (cfgInterfaceUp mc) m6 []"
    using int64.emit_holds [OF b(6) few] unfolding metricFor_def by metis
  let ?mb = "mb\<lparr>metricRouterosBgpSessionPrefixCount := m1, metricRouterosBgpSessionUp := m2, metricRouterosFirewallRuleIo := m3,
    metricRouterosHwTemperature := m4, metricRouterosInterfaceIo := m5, metricRouterosInterfaceUp := m6\<rparr>"
  show ?thesis
  proof (rule that [of ?mb])
    show "emitAll F mb = Some (reportedMetrics F mc st ts ps, ?mb)"
      by (simp add: emitAll_def emit_defs m1 m2 m3 m4 m5 m6 reportedMetrics_def)
    show "buffered F mc st ts [] ?mb" by (simp add: buffered_def m1 m2 m3 m4 m5 m6 b(7))
    show "settings ?mb = settings mb" by (simp add: settings_def)
  qed
qed

lemma buffered_Nil: "buffered F mc st ts [] mb \<Longrightarrow> buffered F mc st ts' [] mb"
  by (simp add: buffered_def)

lemma reportedMetrics_Nil [simp]: "reportedMetrics F mc st ts [] = []"
  by (simp add: reportedMetrics_def metricFor_def)

lemma no_attribute_passes [simp]: "\<not> includeRejects fs fmempty" "\<not> excludeRejects fs fmempty"
  by (auto simp: includeRejects_def excludeRejects_def list_ex_iff)

text \<open>A builder between two scrapes: nothing recorded, nothing waiting to be handed out.\<close>

definition ready ::
  "'f float64 \<Rightarrow> ('c list \<Rightarrow> string \<Rightarrow> bool) \<Rightarrow> 'c MetricsBuilderConfig \<Rightarrow> string \<Rightarrow> nat \<Rightarrow> ('f, 'c) MetricsBuilder \<Rightarrow> bool" where
  "ready F CreateFilter mbc version st mb \<longleftrightarrow>
     buffered F (mbcMetrics mbc) st 0 [] mb
   \<and> settings mb = (mbc, [], version, filtersOf CreateFilter MetricsInclude (mbcResourceAttributes mbc),
       filtersOf CreateFilter MetricsExclude (mbcResourceAttributes mbc))"

lemma ready_new: "ready F CreateFilter mbc version st (NewMetricsBuilder CreateFilter st version mbc [])"
  by (simp add: ready_def buffered_def settings_def NewMetricsBuilder_def newMetric_defs holds_new)

lemma Emit_idle:
  fixes mb :: "('f, 'c) MetricsBuilder"
  assumes "buffered F mc st ts [] mb"
  obtains mb' where "Emit F [] mb = Some (metricsBuffer mb, mb')" and "buffered F mc st ts [] mb'"
    and "settings mb' = settings (mb\<lparr>metricsBuffer := []\<rparr>)"
proof -
  obtain mb1 where 1: "emitAll F mb = Some ([], mb1)" "buffered F mc st ts [] mb1" "settings mb1 = settings mb"
    by (rule emitAll_buffered [OF assms]) simp_all
  show ?thesis by (rule that [of "mb1\<lparr>metricsBuffer := []\<rparr>"])
      (use 1 in \<open>simp_all add: Emit_def EmitForResource_def settings_def buffered_def\<close>)
qed

lemma updateCapacity_keeps:
  "settings (MetricsBuilder_updateCapacity rm mb) = settings mb"
  "buffered F mc st ts ps (MetricsBuilder_updateCapacity rm mb) \<longleftrightarrow> buffered F mc st ts ps mb"
  "metricsBuffer (MetricsBuilder_updateCapacity rm mb) = metricsBuffer mb"
  by (simp_all add: MetricsBuilder_updateCapacity_def settings_def buffered_def)

lemma buffer_irrelevant:
  "buffered F mc st ts ps (mb\<lparr>metricsBuffer := x\<rparr>) \<longleftrightarrow> buffered F mc st ts ps mb"
  "settings mb' = settings mb \<Longrightarrow> settings (mb'\<lparr>metricsBuffer := x\<rparr>) = settings (mb\<lparr>metricsBuffer := x\<rparr>)"
  by (simp_all add: buffered_def settings_def)

lemma EmitForResource_buffered:
  fixes mb :: "('f, 'c) MetricsBuilder"
  assumes "buffered F (mbcMetrics mbc) st now ps mb" and "length ps < 2 ^ 63"
    and "settings mb = (mbc, [], version, filtersOf CreateFilter MetricsInclude (mbcResourceAttributes mbc),
      filtersOf CreateFilter MetricsExclude (mbcResourceAttributes mbc))"
  obtains mb' where "EmitForResource F [WithResource (buildResource (mbcResourceAttributes mbc) a)] mb = Some mb'"
    and "buffered F (mbcMetrics mbc) st now [] mb'"
    and "settings mb' = settings (mb\<lparr>metricsBuffer := report F CreateFilter mbc version st now ps a\<rparr>)"
proof -
  obtain mb1 where 1: "emitAll F mb = Some (reportedMetrics F (mbcMetrics mbc) st now ps, mb1)"
    "buffered F (mbcMetrics mbc) st now [] mb1" "settings mb1 = settings mb"
    by (rule emitAll_buffered [OF assms(1,2)])
  let ?res = "buildResource (mbcResourceAttributes mbc) a"
  let ?rm = "\<lparr>rmResource = ?res, rmScopeName = ScopeName, rmScopeVersion = version,
    rmMetrics = reportedMetrics F (mbcMetrics mbc) st now ps\<rparr>"
  let ?sent = "MetricsBuilder_updateCapacity ?rm mb1\<lparr>metricsBuffer := [?rm]\<rparr>"
  have sent: "buffered F (mbcMetrics mbc) st now [] ?sent" "settings ?sent = settings (mb\<lparr>metricsBuffer := [?rm]\<rparr>)"
    "metricsBuffer (MetricsBuilder_updateCapacity ?rm mb1) = []"
    using 1 assms(3) updateCapacity_keeps(1) [of ?rm mb1]
    by (simp_all add: buffer_irrelevant updateCapacity_keeps) (simp add: settings_def)
  show ?thesis
  proof (cases "report F CreateFilter mbc version st now ps a = []")
    case True
    then show ?thesis using that [of mb1] 1 assms(3)
      by (auto simp: EmitForResource_def WithResource_def report_def settings_def Let_def split: if_splits)
  next
    case False
    then show ?thesis using that [of ?sent] 1 sent assms(3)
      by (auto simp: EmitForResource_def WithResource_def report_def settings_def Let_def split: if_splits)
  qed
qed

lemma emitScrape_ready:
  fixes mb :: "('f, 'c) MetricsBuilder"
  assumes "ready F CreateFilter mbc version st mb" and "metricsValid (mbcMetrics mbc)" and "length ps < 2 ^ 63"
  obtains mb' where "emitScrape F now ps a mb = Some (report F CreateFilter mbc version st now ps a, mb')"
    and "ready F CreateFilter mbc version st mb'"
proof -
  note r = assms(1) [unfolded ready_def]
  obtain mb1 where 1: "recordPoints F now ps mb = Some mb1" "buffered F (mbcMetrics mbc) st now ps mb1" "settings mb1 = settings mb"
    using recordPoints_buffered [OF buffered_Nil [OF r [THEN conjunct1]] metricsValid_strategies [OF assms(2)], of now ps] by auto
  obtain mb2 where 2: "EmitForResource F [WithResource (buildResource (mbcResourceAttributes mbc) a)] mb1 = Some mb2"
    "buffered F (mbcMetrics mbc) st now [] mb2"
    "settings mb2 = settings (mb1\<lparr>metricsBuffer := report F CreateFilter mbc version st now ps a\<rparr>)"
    by (rule EmitForResource_buffered [OF 1(2) assms(3)]) (use 1(3) r in simp_all)
  obtain mb3 where 3: "Emit F [] mb2 = Some (metricsBuffer mb2, mb3)" "buffered F (mbcMetrics mbc) st now [] mb3"
    "settings mb3 = settings (mb2\<lparr>metricsBuffer := []\<rparr>)"
    by (rule Emit_idle [OF 2(2)])
  show ?thesis
  proof (rule that [of mb3])
    show "emitScrape F now ps a mb = Some (report F CreateFilter mbc version st now ps a, mb3)"
      using 1 2 3 r by (simp add: emitScrape_def settings_def)
    show "ready F CreateFilter mbc version st mb3"
      using buffered_Nil [OF 3(2)] 1(3) 2(3) 3(3) r by (simp add: ready_def settings_def)
  qed
qed

section \<open>A sequence of scrapes\<close>

text \<open>The framework calls \<^verbatim>\<open>scrape\<close> once per interval; the builder and the router carry over.\<close>

fun runScrapes ::
  "'f float64 \<Rightarrow> (string \<Rightarrow> num_error + 'f) \<Rightarrow> 'f \<Rightarrow> ('h, 'd) transport_fn \<Rightarrow> 'h Client \<Rightarrow> Config \<Rightarrow> nat list
   \<Rightarrow> ('f, 'c) MetricsBuilder \<Rightarrow> 'd \<Rightarrow> 'f ResourceMetrics list list option" where
  "runScrapes F parseFloat zero Do c cfg [] mb d = Some []"
| "runScrapes F parseFloat zero Do c cfg (now # nows) mb d =
     (case scrapeMetrics F parseFloat zero Do c cfg now mb d of
        (None, d') \<Rightarrow> None
      | (Some (out, mb'), d') \<Rightarrow> map_option (\<lambda>outs. out # outs) (runScrapes F parseFloat zero Do c cfg nows mb' d'))"

text \<open>What is reported according to the specification: each scrape by itself.\<close>

fun reports ::
  "'f float64 \<Rightarrow> (string \<Rightarrow> num_error + 'f) \<Rightarrow> 'f \<Rightarrow> ('h, 'd) transport_fn \<Rightarrow> 'h Client \<Rightarrow> Config
   \<Rightarrow> ('c list \<Rightarrow> string \<Rightarrow> bool) \<Rightarrow> 'c MetricsBuilderConfig \<Rightarrow> string \<Rightarrow> nat \<Rightarrow> nat list \<Rightarrow> 'd \<Rightarrow> 'f ResourceMetrics list list" where
  "reports F parseFloat zero Do c cfg CreateFilter mbc version st [] d = []"
| "reports F parseFloat zero Do c cfg CreateFilter mbc version st (now # nows) d =
     (case scrape parseFloat zero Do c cfg d of
        (s, a, d') \<Rightarrow> report F CreateFilter mbc version st now (points s) a
          # reports F parseFloat zero Do c cfg CreateFilter mbc version st nows d')"

lemma runScrapes_ready:
  fixes mb :: "('f, 'c) MetricsBuilder"
  assumes "ready F CreateFilter mbc version st mb" and "metricsValid (mbcMetrics mbc)"
    and "\<And>d. length (points (fst (scrape parseFloat zero Do c cfg d))) < 2 ^ 63"
  shows "runScrapes F parseFloat zero Do c cfg nows mb d
    = Some (reports F parseFloat zero Do c cfg CreateFilter mbc version st nows d)"
  using assms(1)
proof (induction nows arbitrary: mb d)
  case (Cons now nows)
  obtain s a d' where s: "scrape parseFloat zero Do c cfg d = (s, a, d')" by (cases "scrape parseFloat zero Do c cfg d") auto
  have "length (points s) < 2 ^ 63" using assms(3) [of d] s by simp
  then obtain mb' where "emitScrape F now (points s) a mb = Some (report F CreateFilter mbc version st now (points s) a, mb')"
    "ready F CreateFilter mbc version st mb'"
    by (rule emitScrape_ready [OF Cons.prems assms(2)])
  then show ?case using Cons.IH [of mb' d'] s by (simp add: scrapeMetrics_def)
qed simp

text \<open>
  C35: every scrape reports its own readings and nothing else. With a configuration the validations
  accept, a builder that is created once and scraped any number of times never panics, and each time
  hands out exactly the grouping of the readings of that scrape: per enabled metric one point for every
  series, in the order of first appearance, with the configured aggregation of its values, under the
  resource of that scrape; nothing is carried over from an earlier scrape, recorded twice or lost, and a
  resource the filters reject is left out as a whole.
\<close>

theorem scrapes_report:
  assumes "metricsValid (mbcMetrics mbc)"
    and "\<And>d. length (points (fst (scrape parseFloat zero Do c cfg d))) < 2 ^ 63"
  shows "runScrapes F parseFloat zero Do c cfg nows (NewMetricsBuilder CreateFilter st version mbc []) d
    = Some (reports F parseFloat zero Do c cfg CreateFilter mbc version st nows d)"
  by (rule runScrapes_ready [OF ready_new assms])

lemma default_valid: "metricsValid DefaultMetricsConfig"
  by (simp add: metricsValid_def DefaultMetricsConfig_def default_defs validate_defs validateMetric_def validStrategy_def key_defs)

lemma scrapes_report_witness:
  "runScrapes undefined exFloat 0 exSensor exClient createDefaultConfig [5, 6]
     (NewMetricsBuilder (\<lambda>fs s. True) 1 ''v1'' (NewDefaultMetricsBuilderConfig :: unit MetricsBuilderConfig) []) ()
   = Some (reports undefined exFloat 0 exSensor exClient createDefaultConfig (\<lambda>fs s. True)
       (NewDefaultMetricsBuilderConfig :: unit MetricsBuilderConfig) ''v1'' 1 [5, 6] ())"
proof (rule scrapes_report)
  show "metricsValid (mbcMetrics (NewDefaultMetricsBuilderConfig :: unit MetricsBuilderConfig))"
    by (simp add: NewDefaultMetricsBuilderConfig_def default_valid)
  have menu: "scrapeMenu exSensor exClient path row acc d = (both acc (allOf row [exRow]), d)" for path acc d and row :: "Record \<Rightarrow> nat scraped"
    by (simp add: scrapeMenu_def ex_List)
  have "length (points (fst (scrape exFloat 0 exSensor exClient createDefaultConfig d))) \<le> 7" for d
    unfolding scrape_def menu prod.case scrapeResource_points both_points allOf_single
    by (simp add: interfacePoints_def sessionPoints_def ex_health filterPoints_def Let_def)
  then show "length (points (fst (scrape exFloat 0 exSensor exClient createDefaultConfig d))) < 2 ^ 63" for d
    using le_less_trans [of _ 7 "2 ^ 63"] by simp
qed

section \<open>Series\<close>

lemma grouped_series: "map (\<lambda>p. (Attributes p, StartTimestamp p, Timestamp p)) (grouped N s rs) = firsts (map fst rs)"
  by (simp add: grouped_def mkPoint_def comp_def)

definition seriesDistinct :: "'v Metric \<Rightarrow> bool" where
  "seriesDistinct m \<longleftrightarrow> mtPoints m \<noteq> [] \<and> distinct (map (\<lambda>p. (Attributes p, StartTimestamp p, Timestamp p)) (mtPoints m))"

lemma metricFor_series: "m \<in> set (metricFor N desc cfg rs) \<Longrightarrow> seriesDistinct (tagMetric t m)"
proof -
  have "distinct (map (\<lambda>p. (Attributes p, StartTimestamp p, Timestamp p)) (grouped N s rs))" for s
    unfolding grouped_series by simp
  then show "m \<in> set (metricFor N desc cfg rs) \<Longrightarrow> seriesDistinct (tagMetric t m)"
    by (auto simp: metricFor_def seriesDistinct_def tagMetric_def tagPoint_def comp_def grouped_def split: if_splits)
qed

lemma reported_series: "m \<in> set (reportedMetrics F mc st ts ps) \<Longrightarrow> seriesDistinct m"
  by (auto simp: reportedMetrics_def dest: metricFor_series)

lemma metricFor_name:
  "distinct (map (descName \<circ> mtDesc) (map (tagMetric t) (metricFor N desc cfg rs)))"
  "set (map (descName \<circ> mtDesc) (map (tagMetric t) (metricFor N desc cfg rs))) \<subseteq> {descName desc}"
  by (auto simp: metricFor_def tagMetric_def)

lemma reported_names: "distinct (map (descName \<circ> mtDesc) (reportedMetrics F mc st ts ps))"
proof -
  have append: "distinct (as @ bs)" if "distinct as" "set as \<subseteq> {n}" "distinct bs" "n \<notin> set bs" for as bs :: "string list" and n
    using that by auto
  note block = metricFor_name
  have apart: "n \<notin> set (map (descName \<circ> mtDesc) (map (tagMetric t) (metricFor N desc cfg rs)))" if "n \<noteq> descName desc"
    for n and t :: "'v \<Rightarrow> 'f number" and N desc cfg rs using that metricFor_name(2) [of t N desc cfg rs] by blast
  show ?thesis unfolding reportedMetrics_def map_append
    by (intro append [OF block] block(1)) (simp_all only: set_append Un_iff de_Morgan_disj, simp_all add: apart desc_defs del: map_map set_map)
qed

lemma report_series:
  assumes "rm \<in> set (report F CreateFilter mbc version st now ps a)"
  shows "distinct (map (descName \<circ> mtDesc) (rmMetrics rm))" and "m \<in> set (rmMetrics rm) \<Longrightarrow> seriesDistinct m"
  using assms reported_names reported_series by (auto simp: report_def Let_def split: if_splits)

lemma reports_each:
  "out \<in> set (reports F parseFloat zero Do c cfg CreateFilter mbc version st nows d) \<Longrightarrow>
   \<exists>now d s a d'. scrape parseFloat zero Do c cfg d = (s, a, d') \<and> out = report F CreateFilter mbc version st now (points s) a"
proof (induction nows arbitrary: d)
  case (Cons now nows)
  obtain s a d' where s: "scrape parseFloat zero Do c cfg d = (s, a, d')" by (cases "scrape parseFloat zero Do c cfg d") auto
  show ?case using Cons.prems Cons.IH [of d'] s by (simp, metis)
qed simp

text \<open>
  No series is reported twice. In everything the scrapes of a validated configuration hand out, no
  two points of a metric have the same attributes and times, no two metrics the same name, and no metric
  is empty: a strategy the builder does not know, under which it would append a second point for a
  series, is refused by the validation.
\<close>

theorem scrapes_series_unique:
  assumes "metricsValid (mbcMetrics mbc)"
    and "\<And>d. length (points (fst (scrape parseFloat zero Do c cfg d))) < 2 ^ 63"
    and "runScrapes F parseFloat zero Do c cfg nows (NewMetricsBuilder CreateFilter st version mbc []) d = Some outs"
    and "out \<in> set outs" and "rm \<in> set out"
  shows "distinct (map (descName \<circ> mtDesc) (rmMetrics rm)) \<and> list_all seriesDistinct (rmMetrics rm)"
proof -
  have "outs = reports F parseFloat zero Do c cfg CreateFilter mbc version st nows d"
    using runScrapes_ready [OF ready_new assms(1,2)] assms(3) by simp
  then have "out \<in> set (reports F parseFloat zero Do c cfg CreateFilter mbc version st nows d)" using assms(4) by simp
  from reports_each [OF this] obtain now ps a where "out = report F CreateFilter mbc version st now ps a" by blast
  then show ?thesis using report_series assms(5) by (auto simp: list_all_iff)
qed

section \<open>The counters of firewall rules\<close>

lemma firsts_map_inj: "inj f \<Longrightarrow> firsts (map f xs) = map f (firsts xs)"
  by (induction xs rule: rev_induct) (auto simp: firsts_snoc inj_image_mem_iff)

lemma ParseInt_fits: "ParseInt s b = Inr n \<Longrightarrow> in_int64 n"
  by (auto simp: ParseInt_def in_int64_def Let_def split: if_splits sum.splits)

lemma parseInt_in: "in_int64 (parseInt s)"
proof -
  have "in_int64 0" by (simp add: in_int64_def)
  then have "in_int64 (case ParseInt t b of Inl e \<Rightarrow> 0 | Inr n \<Rightarrow> n)" for t b
    using ParseInt_fits [of t b] by (cases "ParseInt t b") simp_all
  then show ?thesis using \<open>in_int64 0\<close> by (simp add: parseInt_def Let_def split_def)
qed

definition ruleComment :: "Record \<Rightarrow> string" where "ruleComment r = map_get r ''comment''"
definition ruleBytes :: "Record \<Rightarrow> int" where "ruleBytes r = parseInt (map_get r ''bytes'')"

lemma map_filter_append: "List.map_filter f (xs @ ys) = List.map_filter f xs @ List.map_filter f ys"
  by (simp add: List.map_filter_def)

lemma map_filter_none: "\<forall>p \<in> set xs. f p = None \<Longrightarrow> List.map_filter f xs = []"
  by (simp add: List.map_filter_def filter_empty_conv)

lemma map_filter_concat: "List.map_filter f (concat (map g rs)) = concat (map (\<lambda>r. List.map_filter f (g r)) rs)"
  by (induction rs) (simp_all add: map_filter_append List.map_filter_def)

lemma concat_choice: "concat (map (\<lambda>x. if P x then [f x] else []) xs) = map f (filter P xs)"
  by (induction xs) simp_all

text \<open>The readings of the rule metric: the rules that carry a comment, in the order of the menu.\<close>

lemma menu_no_rules:
  assumes "scrapeMenu Do c path row acc d = (s, d')" and "\<And>r. List.map_filter ruleReading (points (row r)) = []"
    and "List.map_filter ruleReading (points acc) = []"
  shows "List.map_filter ruleReading (points s) = []"
  using assms by (auto simp: scrapeMenu_def both_def allOf_def map_filter_append map_filter_concat List.map_filter_simps(2)
      split: prod.splits sum.splits)

lemma rule_readings:
  fixes parseFloat :: "string \<Rightarrow> num_error + 'f"
  assumes "\<And>d. fst (List Do c IpFirewallFilterPath [] d) = Inr rs"
  shows "List.map_filter ruleReading (points (fst (scrape parseFloat zero Do c cfg d)))
    = map (\<lambda>r. ([(''firewall.rule'', ruleComment r)], ruleBytes r)) (filter (\<lambda>r. ruleComment r \<noteq> []) rs)"
proof (rule scrape_stages [of Do c d parseFloat zero cfg])
  fix s1 s2 s3 s4 :: "'f scraped" and d1 d2 d3 d4
  assume st: "scrapeMenu Do c InterfacePath interfacePoints \<lparr>points = [], logs = []\<rparr> d = (s1, d1)"
    "scrapeMenu Do c RoutingBgpSessionPath sessionPoints s1 d1 = (s2, d2)"
    "scrapeMenu Do c SystemHealthPath (healthPoints parseFloat zero) s2 d2 = (s3, d3)"
    "scrapeMenu Do c IpFirewallFilterPath filterPoints s3 d3 = (s4, d4)"
    "scrape parseFloat zero Do c cfg d = scrapeResource Do c cfg s4 d4"
  have "List.map_filter ruleReading (points s1) = []"
    by (rule menu_no_rules [OF st(1)]) (simp_all add: interfacePoints_def List.map_filter_def Let_def)
  then have "List.map_filter ruleReading (points s2) = []"
    by (rule menu_no_rules [OF st(2), rotated]) (simp add: sessionPoints_def List.map_filter_def Let_def)
  then have none: "List.map_filter ruleReading (points s3) = []"
    by (rule menu_no_rules [OF st(3), rotated]) (simp add: healthPoints_def List.map_filter_def Let_def split: prod.splits)
  have row: "List.map_filter ruleReading (points (filterPoints r :: 'f scraped))
    = (if ruleComment r \<noteq> [] then [([(''firewall.rule'', ruleComment r)], ruleBytes r)] else [])" for r
    by (simp add: filterPoints_def DecodeIpFirewallFilter_def ruleComment_def ruleBytes_def List.map_filter_def Let_def)
  obtain d' where "List Do c IpFirewallFilterPath [] d3 = (Inr rs, d')" using assms [of d3] by (metis prod.collapse)
  then have "s4 = both s3 (allOf filterPoints rs)" using st(4) by (simp add: scrapeMenu_def)
  then have "List.map_filter ruleReading (points s4)
    = map (\<lambda>r. ([(''firewall.rule'', ruleComment r)], ruleBytes r)) (filter (\<lambda>r. ruleComment r \<noteq> []) rs)"
    using none by (simp add: both_def allOf_def map_filter_append map_filter_concat row comp_def concat_choice)
  then show ?thesis using st(5) by (simp add: scrapeResource_points)
qed

definition ruleSeries :: "nat \<Rightarrow> nat \<Rightarrow> string \<Rightarrow> series" where
  "ruleSeries st now cm = (fmupd ''firewall.rule'' cm fmempty, st, now)"

lemma ruleSeries_inj: "inj (ruleSeries st now)"
proof (rule injI)
  fix a b assume "ruleSeries st now a = ruleSeries st now b"
  then have "fmlookup (fmupd ''firewall.rule'' a fmempty) ''firewall.rule'' = fmlookup (fmupd ''firewall.rule'' b fmempty) ''firewall.rule''"
    by (simp add: ruleSeries_def)
  then show "a = b" by simp
qed

lemma rule_points:
  assumes "List.map_filter ruleReading ps = map (\<lambda>r. ([(''firewall.rule'', ruleComment r)], ruleBytes r)) (filter (\<lambda>r. ruleComment r \<noteq> []) rs)"
  shows "map (\<lambda>p. (fmlookup (Attributes p) ''firewall.rule'', Value p))
      (grouped int64_ops AggregationStrategySum (readings ruleReading defaultRouterosFirewallRuleIoMetricConfig st now ps))
    = map (\<lambda>cm. (Some cm, wrap64 (\<Sum>r\<leftarrow>filter (\<lambda>r. ruleComment r = cm) rs. ruleBytes r)))
        (firsts (filter (\<lambda>cm. cm \<noteq> []) (map ruleComment rs)))"
proof -
  let ?rs = "filter (\<lambda>r. ruleComment r \<noteq> []) rs"
  let ?read = "map (\<lambda>r. (ruleSeries st now (ruleComment r), ruleBytes r)) ?rs"
  have read: "readings ruleReading defaultRouterosFirewallRuleIoMetricConfig st now ps = ?read"
    by (simp add: readings_def assms seriesKey_def ruleSeries_def default_defs key_defs)
  have keys: "firsts (map fst ?read) = map (ruleSeries st now) (firsts (map ruleComment ?rs))"
    using firsts_map_inj [OF ruleSeries_inj, of st now "map ruleComment ?rs"] by (simp add: comp_def)
  have same: "filter (\<lambda>r. ruleComment r = cm) ?rs = filter (\<lambda>r. ruleComment r = cm) rs" if "cm \<noteq> []" for cm
    using that by (auto simp: filter_filter intro: filter_cong)
  have vals: "valuesOf (ruleSeries st now cm) ?read = map ruleBytes (filter (\<lambda>r. ruleComment r = cm) rs)" if "cm \<noteq> []" for cm
    unfolding valuesOf_def filter_map comp_def fst_conv inj_eq [OF ruleSeries_inj] same [OF that] by simp
  have agg: "aggregated int64_ops AggregationStrategySum (valuesOf (ruleSeries st now cm) ?read)
      = wrap64 (\<Sum>r\<leftarrow>filter (\<lambda>r. ruleComment r = cm) rs. ruleBytes r)" if "cm \<in> set (map ruleComment ?rs)" for cm
  proof -
    let ?vs = "map ruleBytes (filter (\<lambda>r. ruleComment r = cm) rs)"
    have "cm \<noteq> []" "?vs \<noteq> []" using that by (auto simp: filter_empty_conv)
    moreover have "in_int64 (hd ?vs)" using hd_in_set [OF \<open>?vs \<noteq> []\<close>] parseInt_in by (auto simp: ruleBytes_def)
    ultimately show ?thesis unfolding vals [OF \<open>cm \<noteq> []\<close>]
      using combined_sum [of ?vs AggregationStrategySum] by (simp add: aggregated_def strategy_defs counts_def)
  qed
  have nonempty: "map ruleComment ?rs = filter (\<lambda>cm. cm \<noteq> []) (map ruleComment rs)" by (simp add: filter_map comp_def)
  show ?thesis unfolding read grouped_def keys unfolding nonempty [symmetric]
    using agg by (simp add: mkPoint_def ruleSeries_def comp_def)
qed

text \<open>
  C36: the counters of a firewall menu reach the metric. Under the default configuration every
  scrape of a router whose filter menu holds the rows \<^verbatim>\<open>rs\<close> reports \<^verbatim>\<open>routeros.firewall.rule.io\<close> with one
  point for every comment in use, in the order of the rules, and its value is the total of the byte
  counters of all the rules with that comment, modulo the width of the counter. Rules without a comment
  are not reported.
\<close>

theorem rule_counters_reported:
  fixes parseFloat :: "string \<Rightarrow> num_error + 'f"
  assumes "\<And>d. fst (List Do c IpFirewallFilterPath [] d) = Inr rs" and "list_ex (\<lambda>r. ruleComment r \<noteq> []) rs"
    and "\<And>d. length (points (fst (scrape parseFloat zero Do c cfg d))) < 2 ^ 63"
    and "runScrapes F parseFloat zero Do c cfg nows
      (NewMetricsBuilder CreateFilter st version (NewDefaultMetricsBuilderConfig :: 'c MetricsBuilderConfig) []) d = Some outs"
    and "out \<in> set outs"
  shows "\<exists>rm m. out = [rm] \<and> m \<in> set (rmMetrics rm) \<and> mtDesc m = RouterosFirewallRuleIo_desc
    \<and> map (\<lambda>p. (fmlookup (Attributes p) ''firewall.rule'', Value p)) (mtPoints m)
      = map (\<lambda>cm. (Some cm, IntValue (wrap64 (\<Sum>r\<leftarrow>filter (\<lambda>r. ruleComment r = cm) rs. ruleBytes r))))
          (firsts (filter (\<lambda>cm. cm \<noteq> []) (map ruleComment rs)))"
proof -
  let ?mbc = "NewDefaultMetricsBuilderConfig :: 'c MetricsBuilderConfig"
  let ?cfg = "defaultRouterosFirewallRuleIoMetricConfig"
  have valid: "metricsValid (mbcMetrics ?mbc)" by (simp add: NewDefaultMetricsBuilderConfig_def default_valid)
  have "outs = reports F parseFloat zero Do c cfg CreateFilter ?mbc version st nows d"
    using runScrapes_ready [OF ready_new valid assms(3)] assms(4) by simp
  then have "out \<in> set (reports F parseFloat zero Do c cfg CreateFilter ?mbc version st nows d)" using assms(5) by simp
  from reports_each [OF this] obtain now d s a d'
    where s: "scrape parseFloat zero Do c cfg d = (s, a, d')" and out: "out = report F CreateFilter ?mbc version st now (points s) a" by blast
  let ?read = "readings ruleReading ?cfg st now (points s)"
  let ?m = "tagMetric (IntValue :: int \<Rightarrow> 'f number) \<lparr>mtDesc = RouterosFirewallRuleIo_desc, mtPoints = grouped int64_ops AggregationStrategySum ?read\<rparr>"
  have rules: "List.map_filter ruleReading (points s)
    = map (\<lambda>r. ([(''firewall.rule'', ruleComment r)], ruleBytes r)) (filter (\<lambda>r. ruleComment r \<noteq> []) rs)"
    using rule_readings [OF assms(1), where parseFloat = parseFloat and d = d and zero = zero and cfg = cfg] s by simp
  have "?read \<noteq> []" using assms(2) by (auto simp: readings_def rules list_ex_iff filter_empty_conv)
  then have mem: "?m \<in> set (reportedMetrics F (mbcMetrics ?mbc) st now (points s))"
    by (simp add: reportedMetrics_def metricFor_def NewDefaultMetricsBuilderConfig_def DefaultMetricsConfig_def)
      (simp add: default_defs)
  have pass: "filtersOf CreateFilter MetricsInclude (mbcResourceAttributes ?mbc) = []"
    "filtersOf CreateFilter MetricsExclude (mbcResourceAttributes ?mbc) = []"
    by (simp_all add: filtersOf_def NewDefaultMetricsBuilderConfig_def DefaultResourceAttributesConfig_def enabledAttribute_def
        List.map_filter_def)
  have "reportedMetrics F (mbcMetrics ?mbc) st now (points s) \<noteq> []" using mem by auto
  then obtain rm where "out = [rm]" "rmMetrics rm = reportedMetrics F (mbcMetrics ?mbc) st now (points s)"
    using pass out by (simp add: report_def Let_def includeRejects_def excludeRejects_def)
  moreover have "map (\<lambda>p. (fmlookup (Attributes p) ''firewall.rule'', Value p)) (mtPoints ?m)
      = map (\<lambda>cm. (Some cm, IntValue (wrap64 (\<Sum>r\<leftarrow>filter (\<lambda>r. ruleComment r = cm) rs. ruleBytes r))))
          (firsts (filter (\<lambda>cm. cm \<noteq> []) (map ruleComment rs)))"
    using arg_cong [OF rule_points [OF rules, of st now], of "map (map_prod id (IntValue :: int \<Rightarrow> 'f number))"]
    by (simp add: tagMetric_def tagPoint_def comp_def)
  ultimately show ?thesis using mem by (intro exI [of _ rm] exI [of _ ?m]) (simp add: tagMetric_def)
qed

text \<open>A router that answers every list with two rules under one comment and one without.\<close>

definition exRules :: "Record list" where
  "exRules = [fmap_of_list [(''comment'', ''web''), (''bytes'', ''10'')], fmap_of_list [(''bytes'', ''7'')],
     fmap_of_list [(''comment'', ''web''), (''bytes'', ''5'')]]"

definition exRuleRouter :: "(unit, unit) transport_fn" where
  "exRuleRouter h req d = (Replied 200 (Doc (JArr (map json_of_record exRules))), d)"

lemma exRules_List: "List exRuleRouter exClient path [] d = (Inr exRules, d)"
proof -
  have "list_all rec_utf8 exRules" by code_simp
  then show ?thesis
    using asError_array [of 200 _ "map json_of_record exRules"] decode_rows [of exRules]
    by (simp add: List_def newQuery_def query_empty_def do_def roundTrip_def exRuleRouter_def del: decode.simps)
qed

lemma exRules_points: "length (points (fst (scrape exFloat 0 exRuleRouter exClient createDefaultConfig d))) < 2 ^ 63"
proof -
  have menu: "scrapeMenu exRuleRouter exClient path row acc d = (both acc (allOf row exRules), d)" for path acc d and row :: "Record \<Rightarrow> nat scraped"
    by (simp add: scrapeMenu_def exRules_List)
  have some: "length (points (interfacePoints r :: nat scraped)) = 3" "length (points (sessionPoints r :: nat scraped)) = 2"
    "length (points (healthPoints exFloat 0 r)) \<le> 1" "length (points (filterPoints r :: nat scraped)) \<le> 1" for r
    by (simp_all add: interfacePoints_def sessionPoints_def healthPoints_def filterPoints_def Let_def split: prod.splits)
  have "length (points (allOf row exRules)) \<le> 9" if "\<And>r. length (points (row r)) \<le> 3" for row :: "Record \<Rightarrow> nat scraped"
    using that [of "exRules ! 0"] that [of "exRules ! 1"] that [of "exRules ! 2"] by (simp add: allOf_def exRules_def)
  from this [of interfacePoints] this [of sessionPoints] this [of "healthPoints exFloat 0"] this [of filterPoints]
  have "length (points (fst (scrape exFloat 0 exRuleRouter exClient createDefaultConfig d))) \<le> 36"
    unfolding scrape_def menu prod.case scrapeResource_points both_points
    using some by (simp add: le_SucI order_trans [OF some(3)] order_trans [OF some(4)])
  then show ?thesis by (rule le_less_trans) simp
qed

lemma exRules_bytes: "(\<Sum>r\<leftarrow>filter (\<lambda>r. ruleComment r = ''web'') exRules. ruleBytes r) = 15"
proof -
  have "formatInt 10 = ''10''" "formatInt 5 = ''5''" by code_simp+
  then have "parseInt ''10'' = 10" "parseInt ''5'' = 5"
    using parseInt_formatInt [of 10] parseInt_formatInt [of 5] by (simp_all add: in_int64_def)
  then show ?thesis by (simp add: exRules_def ruleComment_def ruleBytes_def lookup_default_def fmlookup_of_list)
qed

lemma exRules_comments: "firsts (filter (\<lambda>cm. cm \<noteq> []) (map ruleComment exRules)) = [''web'']"
  by code_simp

definition exBuilder :: "(nat, unit) MetricsBuilder" where
  "exBuilder = NewMetricsBuilder (\<lambda>fs s. True) 1 ''v1'' NewDefaultMetricsBuilderConfig []"

definition exScrapes :: "nat ResourceMetrics list list option" where
  "exScrapes = runScrapes undefined exFloat 0 exRuleRouter exClient createDefaultConfig [5, 6] exBuilder ()"

lemma exScrapes_done: "exScrapes = Some (reports undefined exFloat 0 exRuleRouter exClient createDefaultConfig (\<lambda>fs s. True)
    (NewDefaultMetricsBuilderConfig :: unit MetricsBuilderConfig) ''v1'' 1 [5, 6] ())"
  unfolding exScrapes_def exBuilder_def
  by (rule runScrapes_ready [OF ready_new _ exRules_points]) (simp add: NewDefaultMetricsBuilderConfig_def default_valid)

theorem rule_counters_reported_witness:
  "\<exists>rm m. hd (the exScrapes) = [rm] \<and> m \<in> set (rmMetrics rm) \<and> map Value (mtPoints m) = [IntValue 15]"
proof -
  have mem: "hd (the exScrapes) \<in> set (the exScrapes)" and run: "exScrapes = Some (the exScrapes)"
    by (simp_all add: exScrapes_done split: prod.splits)
  from run have run': "runScrapes undefined exFloat 0 exRuleRouter exClient createDefaultConfig [5, 6]
      (NewMetricsBuilder (\<lambda>fs s. True) 1 ''v1'' (NewDefaultMetricsBuilderConfig :: unit MetricsBuilderConfig) []) () = Some (the exScrapes)"
    by (simp add: exScrapes_def exBuilder_def)
  have some: "list_ex (\<lambda>r. ruleComment r \<noteq> []) exRules" by code_simp
  have rows: "fst (List exRuleRouter exClient IpFirewallFilterPath [] d) = Inr exRules" for d by (simp add: exRules_List)
  obtain rm m where "hd (the exScrapes) = [rm]" "m \<in> set (rmMetrics rm)"
    "map (\<lambda>p. (fmlookup (Attributes p) ''firewall.rule'', Value p)) (mtPoints m) = [(Some ''web'', IntValue (wrap64 15))]"
    using rule_counters_reported [OF rows some exRules_points run' mem] unfolding exRules_comments list.map exRules_bytes
    by (elim exE conjE) (rule that)
  then show ?thesis by (intro exI [of _ rm] exI [of _ m]) (auto simp: wrap64_def map_eq_Cons_conv)
qed

theorem scrapes_series_unique_witness:
  "list_all (list_all (\<lambda>rm. distinct (map (descName \<circ> mtDesc) (rmMetrics rm)) \<and> list_all seriesDistinct (rmMetrics rm))) (the exScrapes)"
proof -
  have run: "runScrapes undefined exFloat 0 exRuleRouter exClient createDefaultConfig [5, 6]
      (NewMetricsBuilder (\<lambda>fs s. True) 1 ''v1'' (NewDefaultMetricsBuilderConfig :: unit MetricsBuilderConfig) []) () = Some (the exScrapes)"
    using exScrapes_done by (simp add: exScrapes_def exBuilder_def)
  have "metricsValid (mbcMetrics (NewDefaultMetricsBuilderConfig :: unit MetricsBuilderConfig))"
    by (simp add: NewDefaultMetricsBuilderConfig_def default_valid)
  from scrapes_series_unique [OF this exRules_points run] show ?thesis unfolding list_all_iff by blast
qed

end
