(* ===== verification/Codec_Enums.thy ===== *)
theory Codec_Enums
  imports Codec_Generated
begin

text \<open>
  The closed vocabularies of src/routeros/routeros.go: for every field with one, the file declares a
  string type and a constant for each value. A vocabulary is the list of its constants, each with its
  value; the lists of a menu are in the order of the file. They are shown to be what the generator
  declares for the pinned IR, so the vocabulary a caller is offered is the one the router states.
\<close>

section \<open>/interface/bridge\<close>

definition InterfaceBridgeArp_consts :: "(string \<times> string) list" where
  "InterfaceBridgeArp_consts =
     [(''InterfaceBridgeArpDisabled'', ''disabled''), (''InterfaceBridgeArpEnabled'', ''enabled''),
      (''InterfaceBridgeArpLocalProxyArp'', ''local-proxy-arp''), (''InterfaceBridgeArpProxyArp'', ''proxy-arp''),
      (''InterfaceBridgeArpReplyOnly'', ''reply-only'')]"

definition InterfaceBridgeEtherType_consts :: "(string \<times> string) list" where
  "InterfaceBridgeEtherType_consts =
     [(''InterfaceBridgeEtherTypeN0x8100'', ''0x8100''), (''InterfaceBridgeEtherTypeN0x88a8'', ''0x88a8''),
      (''InterfaceBridgeEtherTypeN0x9100'', ''0x9100'')]"

definition InterfaceBridgeFrameTypes_consts :: "(string \<times> string) list" where
  "InterfaceBridgeFrameTypes_consts =
     [(''InterfaceBridgeFrameTypesAdmitAll'', ''admit-all''),
      (''InterfaceBridgeFrameTypesAdmitOnlyUntaggedAndPriorityTagged'', ''admit-only-untagged-and-priority-tagged''),
      (''InterfaceBridgeFrameTypesAdmitOnlyVlanTagged'', ''admit-only-vlan-tagged'')]"

definition InterfaceBridgeIgmpVersion_consts :: "(string \<times> string) list" where
  "InterfaceBridgeIgmpVersion_consts =
     [(''InterfaceBridgeIgmpVersionN2'', ''2''), (''InterfaceBridgeIgmpVersionN3'', ''3'')]"

definition InterfaceBridgeMldVersion_consts :: "(string \<times> string) list" where
  "InterfaceBridgeMldVersion_consts =
     [(''InterfaceBridgeMldVersionN1'', ''1''), (''InterfaceBridgeMldVersionN2'', ''2'')]"

definition InterfaceBridgeMtu_consts :: "(string \<times> string) list" where
  "InterfaceBridgeMtu_consts =
     [(''InterfaceBridgeMtuAuto'', ''auto'')]"

definition InterfaceBridgeMulticastRouter_consts :: "(string \<times> string) list" where
  "InterfaceBridgeMulticastRouter_consts =
     [(''InterfaceBridgeMulticastRouterDisabled'', ''disabled''), (''InterfaceBridgeMulticastRouterPermanent'', ''permanent''),
      (''InterfaceBridgeMulticastRouterTemporaryQuery'', ''temporary-query'')]"

definition InterfaceBridgePortCostMode_consts :: "(string \<times> string) list" where
  "InterfaceBridgePortCostMode_consts =
     [(''InterfaceBridgePortCostModeLong'', ''long''), (''InterfaceBridgePortCostModeShort'', ''short'')]"

definition InterfaceBridgeProtocolMode_consts :: "(string \<times> string) list" where
  "InterfaceBridgeProtocolMode_consts =
     [(''InterfaceBridgeProtocolModeMstp'', ''mstp''), (''InterfaceBridgeProtocolModeNone'', ''none''),
      (''InterfaceBridgeProtocolModeRstp'', ''rstp''), (''InterfaceBridgeProtocolModeStp'', ''stp'')]"

definition InterfaceBridge_enums :: "(string \<times> (string \<times> string) list) list" where
  "InterfaceBridge_enums =
     [(''InterfaceBridgeArp'', InterfaceBridgeArp_consts), (''InterfaceBridgeEtherType'', InterfaceBridgeEtherType_consts),
      (''InterfaceBridgeFrameTypes'', InterfaceBridgeFrameTypes_consts),
      (''InterfaceBridgeIgmpVersion'', InterfaceBridgeIgmpVersion_consts),
      (''InterfaceBridgeMldVersion'', InterfaceBridgeMldVersion_consts), (''InterfaceBridgeMtu'', InterfaceBridgeMtu_consts),
      (''InterfaceBridgeMulticastRouter'', InterfaceBridgeMulticastRouter_consts),
      (''InterfaceBridgePortCostMode'', InterfaceBridgePortCostMode_consts),
      (''InterfaceBridgeProtocolMode'', InterfaceBridgeProtocolMode_consts)]"

lemmas InterfaceBridge_enum_defs = InterfaceBridge_enums_def InterfaceBridgeArp_consts_def InterfaceBridgeEtherType_consts_def InterfaceBridgeFrameTypes_consts_def
  InterfaceBridgeIgmpVersion_consts_def InterfaceBridgeMldVersion_consts_def InterfaceBridgeMtu_consts_def
  InterfaceBridgeMulticastRouter_consts_def InterfaceBridgePortCostMode_consts_def InterfaceBridgeProtocolMode_consts_def

section \<open>/ip/firewall/filter\<close>

definition IpFirewallFilterAction_consts :: "(string \<times> string) list" where
  "IpFirewallFilterAction_consts =
     [(''IpFirewallFilterActionAccept'', ''accept''),
      (''IpFirewallFilterActionAddDstToAddressList'', ''add-dst-to-address-list''),
      (''IpFirewallFilterActionAddSrcToAddressList'', ''add-src-to-address-list''), (''IpFirewallFilterActionDrop'', ''drop''),
      (''IpFirewallFilterActionFasttrackConnection'', ''fasttrack-connection''), (''IpFirewallFilterActionJump'', ''jump''),
      (''IpFirewallFilterActionLog'', ''log''), (''IpFirewallFilterActionPassthrough'', ''passthrough''),
      (''IpFirewallFilterActionReject'', ''reject''), (''IpFirewallFilterActionReturn'', ''return''),
      (''IpFirewallFilterActionTarpit'', ''tarpit'')]"

definition IpFirewallFilterConnectionMark_consts :: "(string \<times> string) list" where
  "IpFirewallFilterConnectionMark_consts =
     [(''IpFirewallFilterConnectionMarkNot'', ''!''), (''IpFirewallFilterConnectionMarkNoMark'', ''no-mark'')]"

definition IpFirewallFilterConnectionNatState_consts :: "(string \<times> string) list" where
  "IpFirewallFilterConnectionNatState_consts =
     [(''IpFirewallFilterConnectionNatStateNot'', ''!''), (''IpFirewallFilterConnectionNatStateDstnat'', ''dstnat''),
      (''IpFirewallFilterConnectionNatStateEinDnat'', ''ein-dnat''),
      (''IpFirewallFilterConnectionNatStateEinSnat'', ''ein-snat''), (''IpFirewallFilterConnectionNatStateSrcnat'', ''srcnat'')]"

definition IpFirewallFilterConnectionState_consts :: "(string \<times> string) list" where
  "IpFirewallFilterConnectionState_consts =
     [(''IpFirewallFilterConnectionStateNot'', ''!''), (''IpFirewallFilterConnectionStateEstablished'', ''established''),
      (''IpFirewallFilterConnectionStateInvalid'', ''invalid''), (''IpFirewallFilterConnectionStateNew'', ''new''),
      (''IpFirewallFilterConnectionStateRelated'', ''related''), (''IpFirewallFilterConnectionStateUntracked'', ''untracked'')]"

definition IpFirewallFilterConnectionType_consts :: "(string \<times> string) list" where
  "IpFirewallFilterConnectionType_consts =
     [(''IpFirewallFilterConnectionTypeNot'', ''!''), (''IpFirewallFilterConnectionTypeFtp'', ''ftp''),
      (''IpFirewallFilterConnectionTypeH323'', ''h323''), (''IpFirewallFilterConnectionTypeIrc'', ''irc''),
      (''IpFirewallFilterConnectionTypePptp'', ''pptp''), (''IpFirewallFilterConnectionTypeQuake3'', ''quake3''),
      (''IpFirewallFilterConnectionTypeSip'', ''sip''), (''IpFirewallFilterConnectionTypeTftp'', ''tftp'')]"

definition IpFirewallFilterDstAddressType_consts :: "(string \<times> string) list" where
  "IpFirewallFilterDstAddressType_consts =
     [(''IpFirewallFilterDstAddressTypeNot'', ''!''), (''IpFirewallFilterDstAddressTypeBlackhole'', ''blackhole''),
      (''IpFirewallFilterDstAddressTypeBroadcast'', ''broadcast''), (''IpFirewallFilterDstAddressTypeLocal'', ''local''),
      (''IpFirewallFilterDstAddressTypeMulticast'', ''multicast''), (''IpFirewallFilterDstAddressTypeUnicast'', ''unicast'')]"

definition IpFirewallFilterHotspot_consts :: "(string \<times> string) list" where
  "IpFirewallFilterHotspot_consts =
     [(''IpFirewallFilterHotspotNot'', ''!''), (''IpFirewallFilterHotspotAuth'', ''auth''),
      (''IpFirewallFilterHotspotFromClient'', ''from-client''), (''IpFirewallFilterHotspotHttp'', ''http''),
      (''IpFirewallFilterHotspotLocalDst'', ''local-dst''), (''IpFirewallFilterHotspotToClient'', ''to-client'')]"

definition IpFirewallFilterIpsecPolicy_consts :: "(string \<times> string) list" where
  "IpFirewallFilterIpsecPolicy_consts =
     [(''IpFirewallFilterIpsecPolicyIn'', ''in''), (''IpFirewallFilterIpsecPolicyOut'', ''out'')]"

definition IpFirewallFilterIpv4Options_consts :: "(string \<times> string) list" where
  "IpFirewallFilterIpv4Options_consts =
     [(''IpFirewallFilterIpv4OptionsAny'', ''any''),
      (''IpFirewallFilterIpv4OptionsLooseSourceRouting'', ''loose-source-routing''),
      (''IpFirewallFilterIpv4OptionsNoRecordRoute'', ''no-record-route''),
      (''IpFirewallFilterIpv4OptionsNoRouterAlert'', ''no-router-alert''),
      (''IpFirewallFilterIpv4OptionsNoSourceRouting'', ''no-source-routing''),
      (''IpFirewallFilterIpv4OptionsNoTimestamp'', ''no-timestamp''), (''IpFirewallFilterIpv4OptionsNone'', ''none''),
      (''IpFirewallFilterIpv4OptionsRecordRoute'', ''record-route''),
      (''IpFirewallFilterIpv4OptionsRouterAlert'', ''router-alert''),
      (''IpFirewallFilterIpv4OptionsStrictSourceRouting'', ''strict-source-routing''),
      (''IpFirewallFilterIpv4OptionsTimestamp'', ''timestamp'')]"

definition IpFirewallFilterP2p_consts :: "(string \<times> string) list" where
  "IpFirewallFilterP2p_consts =
     [(''IpFirewallFilterP2pNot'', ''!''), (''IpFirewallFilterP2pAllP2p'', ''all-p2p''),
      (''IpFirewallFilterP2pBitTorrent'', ''bit-torrent''), (''IpFirewallFilterP2pBlubster'', ''blubster''),
      (''IpFirewallFilterP2pDirectConnect'', ''direct-connect''), (''IpFirewallFilterP2pEdonkey'', ''edonkey''),
      (''IpFirewallFilterP2pFasttrack'', ''fasttrack''), (''IpFirewallFilterP2pGnutella'', ''gnutella''),
      (''IpFirewallFilterP2pSoulseek'', ''soulseek''), (''IpFirewallFilterP2pWarez'', ''warez''),
      (''IpFirewallFilterP2pWinmx'', ''winmx'')]"

definition IpFirewallFilterPacketMark_consts :: "(string \<times> string) list" where
  "IpFirewallFilterPacketMark_consts =
     [(''IpFirewallFilterPacketMarkNot'', ''!''), (''IpFirewallFilterPacketMarkNoMark'', ''no-mark'')]"

definition IpFirewallFilterPerConnectionClassifier_consts :: "(string \<times> string) list" where
  "IpFirewallFilterPerConnectionClassifier_consts =
     [(''IpFirewallFilterPerConnectionClassifierNot'', ''!''),
      (''IpFirewallFilterPerConnectionClassifierBothAddresses'', ''both-addresses''),
      (''IpFirewallFilterPerConnectionClassifierBothAddressesAndPorts'', ''both-addresses-and-ports''),
      (''IpFirewallFilterPerConnectionClassifierBothPorts'', ''both-ports''),
      (''IpFirewallFilterPerConnectionClassifierDstAddress'', ''dst-address''),
      (''IpFirewallFilterPerConnectionClassifierDstAddressAndPort'', ''dst-address-and-port''),
      (''IpFirewallFilterPerConnectionClassifierDstPort'', ''dst-port''),
      (''IpFirewallFilterPerConnectionClassifierSrcAddress'', ''src-address''),
      (''IpFirewallFilterPerConnectionClassifierSrcAddressAndPort'', ''src-address-and-port''),
      (''IpFirewallFilterPerConnectionClassifierSrcPort'', ''src-port'')]"

definition IpFirewallFilterProtocol_consts :: "(string \<times> string) list" where
  "IpFirewallFilterProtocol_consts =
     [(''IpFirewallFilterProtocolNot'', ''!''), (''IpFirewallFilterProtocolDccp'', ''dccp''),
      (''IpFirewallFilterProtocolDdp'', ''ddp''), (''IpFirewallFilterProtocolEgp'', ''egp''),
      (''IpFirewallFilterProtocolEncap'', ''encap''), (''IpFirewallFilterProtocolEtherip'', ''etherip''),
      (''IpFirewallFilterProtocolGgp'', ''ggp''), (''IpFirewallFilterProtocolGre'', ''gre''),
      (''IpFirewallFilterProtocolHmp'', ''hmp''), (''IpFirewallFilterProtocolIcmp'', ''icmp''),
      (''IpFirewallFilterProtocolIcmpv6'', ''icmpv6''), (''IpFirewallFilterProtocolIdprCmtp'', ''idpr-cmtp''),
      (''IpFirewallFilterProtocolIgmp'', ''igmp''), (''IpFirewallFilterProtocolIpencap'', ''ipencap''),
      (''IpFirewallFilterProtocolIpip'', ''ipip''), (''IpFirewallFilterProtocolIpsecAh'', ''ipsec-ah''),
      (''IpFirewallFilterProtocolIpsecEsp'', ''ipsec-esp''), (''IpFirewallFilterProtocolIpv6Encap'', ''ipv6-encap''),
      (''IpFirewallFilterProtocolIpv6Frag'', ''ipv6-frag''), (''IpFirewallFilterProtocolIpv6Nonxt'', ''ipv6-nonxt''),
      (''IpFirewallFilterProtocolIpv6Opts'', ''ipv6-opts''), (''IpFirewallFilterProtocolIpv6Route'', ''ipv6-route''),
      (''IpFirewallFilterProtocolIsoTp4'', ''iso-tp4''), (''IpFirewallFilterProtocolL2tp'', ''l2tp''),
      (''IpFirewallFilterProtocolOspf'', ''ospf''), (''IpFirewallFilterProtocolPim'', ''pim''),
      (''IpFirewallFilterProtocolPup'', ''pup''), (''IpFirewallFilterProtocolRdp'', ''rdp''),
      (''IpFirewallFilterProtocolRspf'', ''rspf''), (''IpFirewallFilterProtocolRsvp'', ''rsvp''),
      (''IpFirewallFilterProtocolSctp'', ''sctp''), (''IpFirewallFilterProtocolSt'', ''st''),
      (''IpFirewallFilterProtocolTcp'', ''tcp''), (''IpFirewallFilterProtocolUdp'', ''udp''),
      (''IpFirewallFilterProtocolUdpLite'', ''udp-lite''), (''IpFirewallFilterProtocolVmtp'', ''vmtp''),
      (''IpFirewallFilterProtocolVrrp'', ''vrrp''), (''IpFirewallFilterProtocolXnsIdp'', ''xns-idp''),
      (''IpFirewallFilterProtocolXtp'', ''xtp'')]"

definition IpFirewallFilterRejectWith_consts :: "(string \<times> string) list" where
  "IpFirewallFilterRejectWith_consts =
     [(''IpFirewallFilterRejectWithIcmpAdminProhibited'', ''icmp-admin-prohibited''),
      (''IpFirewallFilterRejectWithIcmpHostProhibited'', ''icmp-host-prohibited''),
      (''IpFirewallFilterRejectWithIcmpHostUnreachable'', ''icmp-host-unreachable''),
      (''IpFirewallFilterRejectWithIcmpNetProhibited'', ''icmp-net-prohibited''),
      (''IpFirewallFilterRejectWithIcmpNetworkUnreachable'', ''icmp-network-unreachable''),
      (''IpFirewallFilterRejectWithIcmpPortUnreachable'', ''icmp-port-unreachable''),
      (''IpFirewallFilterRejectWithIcmpProtocolUnreachable'', ''icmp-protocol-unreachable''),
      (''IpFirewallFilterRejectWithTcpReset'', ''tcp-reset'')]"

definition IpFirewallFilterRoutingMark_consts :: "(string \<times> string) list" where
  "IpFirewallFilterRoutingMark_consts =
     [(''IpFirewallFilterRoutingMarkNot'', ''!''), (''IpFirewallFilterRoutingMarkMain'', ''main'')]"

definition IpFirewallFilterSrcAddressType_consts :: "(string \<times> string) list" where
  "IpFirewallFilterSrcAddressType_consts =
     [(''IpFirewallFilterSrcAddressTypeNot'', ''!''), (''IpFirewallFilterSrcAddressTypeBlackhole'', ''blackhole''),
      (''IpFirewallFilterSrcAddressTypeBroadcast'', ''broadcast''), (''IpFirewallFilterSrcAddressTypeLocal'', ''local''),
      (''IpFirewallFilterSrcAddressTypeMulticast'', ''multicast''), (''IpFirewallFilterSrcAddressTypeUnicast'', ''unicast'')]"

definition IpFirewallFilterTcpFlags_consts :: "(string \<times> string) list" where
  "IpFirewallFilterTcpFlags_consts =
     [(''IpFirewallFilterTcpFlagsNot'', ''!''), (''IpFirewallFilterTcpFlagsNot2'', ''!,''),
      (''IpFirewallFilterTcpFlagsAck'', ''ack''), (''IpFirewallFilterTcpFlagsCwr'', ''cwr''),
      (''IpFirewallFilterTcpFlagsEce'', ''ece''), (''IpFirewallFilterTcpFlagsFin'', ''fin''),
      (''IpFirewallFilterTcpFlagsPsh'', ''psh''), (''IpFirewallFilterTcpFlagsRst'', ''rst''),
      (''IpFirewallFilterTcpFlagsSyn'', ''syn''), (''IpFirewallFilterTcpFlagsUrg'', ''urg'')]"

definition IpFirewallFilterTtl_consts :: "(string \<times> string) list" where
  "IpFirewallFilterTtl_consts =
     [(''IpFirewallFilterTtlEqual'', ''equal''), (''IpFirewallFilterTtlGreaterThan'', ''greater-than''),
      (''IpFirewallFilterTtlLessThan'', ''less-than''), (''IpFirewallFilterTtlNotEqual'', ''not-equal'')]"

definition IpFirewallFilter_enums :: "(string \<times> (string \<times> string) list) list" where
  "IpFirewallFilter_enums =
     [(''IpFirewallFilterAction'', IpFirewallFilterAction_consts),
      (''IpFirewallFilterConnectionMark'', IpFirewallFilterConnectionMark_consts),
      (''IpFirewallFilterConnectionNatState'', IpFirewallFilterConnectionNatState_consts),
      (''IpFirewallFilterConnectionState'', IpFirewallFilterConnectionState_consts),
      (''IpFirewallFilterConnectionType'', IpFirewallFilterConnectionType_consts),
      (''IpFirewallFilterDstAddressType'', IpFirewallFilterDstAddressType_consts),
      (''IpFirewallFilterHotspot'', IpFirewallFilterHotspot_consts),
      (''IpFirewallFilterIpsecPolicy'', IpFirewallFilterIpsecPolicy_consts),
      (''IpFirewallFilterIpv4Options'', IpFirewallFilterIpv4Options_consts),
      (''IpFirewallFilterP2p'', IpFirewallFilterP2p_consts), (''IpFirewallFilterPacketMark'', IpFirewallFilterPacketMark_consts),
      (''IpFirewallFilterPerConnectionClassifier'', IpFirewallFilterPerConnectionClassifier_consts),
      (''IpFirewallFilterProtocol'', IpFirewallFilterProtocol_consts),
      (''IpFirewallFilterRejectWith'', IpFirewallFilterRejectWith_consts),
      (''IpFirewallFilterRoutingMark'', IpFirewallFilterRoutingMark_consts),
      (''IpFirewallFilterSrcAddressType'', IpFirewallFilterSrcAddressType_consts),
      (''IpFirewallFilterTcpFlags'', IpFirewallFilterTcpFlags_consts), (''IpFirewallFilterTtl'', IpFirewallFilterTtl_consts)]"

lemmas IpFirewallFilter_enum_defs = IpFirewallFilter_enums_def IpFirewallFilterAction_consts_def IpFirewallFilterConnectionMark_consts_def IpFirewallFilterConnectionNatState_consts_def
  IpFirewallFilterConnectionState_consts_def IpFirewallFilterConnectionType_consts_def
  IpFirewallFilterDstAddressType_consts_def IpFirewallFilterHotspot_consts_def IpFirewallFilterIpsecPolicy_consts_def
  IpFirewallFilterIpv4Options_consts_def IpFirewallFilterP2p_consts_def IpFirewallFilterPacketMark_consts_def
  IpFirewallFilterPerConnectionClassifier_consts_def IpFirewallFilterProtocol_consts_def IpFirewallFilterRejectWith_consts_def
  IpFirewallFilterRoutingMark_consts_def IpFirewallFilterSrcAddressType_consts_def IpFirewallFilterTcpFlags_consts_def
  IpFirewallFilterTtl_consts_def

section \<open>/interface\<close>

definition InterfaceMtu_consts :: "(string \<times> string) list" where
  "InterfaceMtu_consts =
     [(''InterfaceMtuAuto'', ''auto'')]"

definition Interface_enums :: "(string \<times> (string \<times> string) list) list" where
  "Interface_enums =
     [(''InterfaceMtu'', InterfaceMtu_consts)]"

lemmas Interface_enum_defs = Interface_enums_def InterfaceMtu_consts_def

section \<open>/routing/bgp/session\<close>

definition RoutingBgpSessionCiscoVplsNlriLenFmt_consts :: "(string \<times> string) list" where
  "RoutingBgpSessionCiscoVplsNlriLenFmt_consts =
     [(''RoutingBgpSessionCiscoVplsNlriLenFmtAutoBits'', ''auto-bits''),
      (''RoutingBgpSessionCiscoVplsNlriLenFmtAutoBytes'', ''auto-bytes''),
      (''RoutingBgpSessionCiscoVplsNlriLenFmtBits'', ''bits''), (''RoutingBgpSessionCiscoVplsNlriLenFmtBytes'', ''bytes'')]"

definition RoutingBgpSessionInputAddPath_consts :: "(string \<times> string) list" where
  "RoutingBgpSessionInputAddPath_consts =
     [(''RoutingBgpSessionInputAddPathIp'', ''ip''), (''RoutingBgpSessionInputAddPathIpv6'', ''ipv6'')]"

definition RoutingBgpSessionInputAffinity_consts :: "(string \<times> string) list" where
  "RoutingBgpSessionInputAffinity_consts =
     [(''RoutingBgpSessionInputAffinityAfi'', ''afi''), (''RoutingBgpSessionInputAffinityAlone'', ''alone''),
      (''RoutingBgpSessionInputAffinityInstance'', ''instance''), (''RoutingBgpSessionInputAffinityMain'', ''main''),
      (''RoutingBgpSessionInputAffinityRemoteAs'', ''remote-as''), (''RoutingBgpSessionInputAffinityVrf'', ''vrf'')]"

definition RoutingBgpSessionLocalAfi_consts :: "(string \<times> string) list" where
  "RoutingBgpSessionLocalAfi_consts =
     [(''RoutingBgpSessionLocalAfiEvpn'', ''evpn''), (''RoutingBgpSessionLocalAfiIp'', ''ip''),
      (''RoutingBgpSessionLocalAfiIpv6'', ''ipv6''), (''RoutingBgpSessionLocalAfiL2vpn'', ''l2vpn''),
      (''RoutingBgpSessionLocalAfiL2vpnCisco'', ''l2vpn-cisco''), (''RoutingBgpSessionLocalAfiVpnv4'', ''vpnv4''),
      (''RoutingBgpSessionLocalAfiVpnv6'', ''vpnv6'')]"

definition RoutingBgpSessionLocalCapabilities_consts :: "(string \<times> string) list" where
  "RoutingBgpSessionLocalCapabilities_consts =
     [(''RoutingBgpSessionLocalCapabilitiesAp'', ''ap''), (''RoutingBgpSessionLocalCapabilitiesAs4'', ''as4''),
      (''RoutingBgpSessionLocalCapabilitiesEnhe'', ''enhe''), (''RoutingBgpSessionLocalCapabilitiesGr'', ''gr''),
      (''RoutingBgpSessionLocalCapabilitiesMp'', ''mp''), (''RoutingBgpSessionLocalCapabilitiesRole'', ''role''),
      (''RoutingBgpSessionLocalCapabilitiesRr'', ''rr'')]"

definition RoutingBgpSessionLocalEor_consts :: "(string \<times> string) list" where
  "RoutingBgpSessionLocalEor_consts =
     [(''RoutingBgpSessionLocalEorIp'', ''ip''), (''RoutingBgpSessionLocalEorIpv6'', ''ipv6''),
      (''RoutingBgpSessionLocalEorL2vpn'', ''l2vpn''), (''RoutingBgpSessionLocalEorL2vpnCisco'', ''l2vpn-cisco''),
      (''RoutingBgpSessionLocalEorVpnv4'', ''vpnv4'')]"

definition RoutingBgpSessionLocalRole_consts :: "(string \<times> string) list" where
  "RoutingBgpSessionLocalRole_consts =
     [(''RoutingBgpSessionLocalRoleEbgp'', ''ebgp''), (''RoutingBgpSessionLocalRoleEbgpCustomer'', ''ebgp-customer''),
      (''RoutingBgpSessionLocalRoleEbgpPeer'', ''ebgp-peer''), (''RoutingBgpSessionLocalRoleEbgpProvider'', ''ebgp-provider''),
      (''RoutingBgpSessionLocalRoleEbgpRs'', ''ebgp-rs''), (''RoutingBgpSessionLocalRoleEbgpRsClient'', ''ebgp-rs-client''),
      (''RoutingBgpSessionLocalRoleIbgp'', ''ibgp''), (''RoutingBgpSessionLocalRoleIbgpRr'', ''ibgp-rr'')]"

definition RoutingBgpSessionNexthopChoice_consts :: "(string \<times> string) list" where
  "RoutingBgpSessionNexthopChoice_consts =
     [(''RoutingBgpSessionNexthopChoiceDefault'', ''default''), (''RoutingBgpSessionNexthopChoiceForceSelf'', ''force-self''),
      (''RoutingBgpSessionNexthopChoicePropagate'', ''propagate'')]"

definition RoutingBgpSessionOutputAddPath_consts :: "(string \<times> string) list" where
  "RoutingBgpSessionOutputAddPath_consts =
     [(''RoutingBgpSessionOutputAddPathIp'', ''ip''), (''RoutingBgpSessionOutputAddPathIpv6'', ''ipv6'')]"

definition RoutingBgpSessionOutputAffinity_consts :: "(string \<times> string) list" where
  "RoutingBgpSessionOutputAffinity_consts =
     [(''RoutingBgpSessionOutputAffinityAfi'', ''afi''), (''RoutingBgpSessionOutputAffinityAlone'', ''alone''),
      (''RoutingBgpSessionOutputAffinityInput'', ''input''), (''RoutingBgpSessionOutputAffinityInstance'', ''instance''),
      (''RoutingBgpSessionOutputAffinityMain'', ''main''), (''RoutingBgpSessionOutputAffinityRemoteAs'', ''remote-as''),
      (''RoutingBgpSessionOutputAffinityVrf'', ''vrf'')]"

definition RoutingBgpSessionOutputDefaultOriginate_consts :: "(string \<times> string) list" where
  "RoutingBgpSessionOutputDefaultOriginate_consts =
     [(''RoutingBgpSessionOutputDefaultOriginateAlways'', ''always''),
      (''RoutingBgpSessionOutputDefaultOriginateIfInstalled'', ''if-installed''),
      (''RoutingBgpSessionOutputDefaultOriginateNever'', ''never'')]"

definition RoutingBgpSessionRemoteAfi_consts :: "(string \<times> string) list" where
  "RoutingBgpSessionRemoteAfi_consts =
     [(''RoutingBgpSessionRemoteAfiEvpn'', ''evpn''), (''RoutingBgpSessionRemoteAfiIp'', ''ip''),
      (''RoutingBgpSessionRemoteAfiIpv6'', ''ipv6''), (''RoutingBgpSessionRemoteAfiL2vpn'', ''l2vpn''),
      (''RoutingBgpSessionRemoteAfiL2vpnCisco'', ''l2vpn-cisco''), (''RoutingBgpSessionRemoteAfiVpnv4'', ''vpnv4''),
      (''RoutingBgpSessionRemoteAfiVpnv6'', ''vpnv6'')]"

definition RoutingBgpSessionRemoteCapabilities_consts :: "(string \<times> string) list" where
  "RoutingBgpSessionRemoteCapabilities_consts =
     [(''RoutingBgpSessionRemoteCapabilitiesAp'', ''ap''), (''RoutingBgpSessionRemoteCapabilitiesAs4'', ''as4''),
      (''RoutingBgpSessionRemoteCapabilitiesDyn'', ''dyn''), (''RoutingBgpSessionRemoteCapabilitiesEm'', ''em''),
      (''RoutingBgpSessionRemoteCapabilitiesEnhe'', ''enhe''), (''RoutingBgpSessionRemoteCapabilitiesErr'', ''err''),
      (''RoutingBgpSessionRemoteCapabilitiesFqdn'', ''fqdn''), (''RoutingBgpSessionRemoteCapabilitiesGr'', ''gr''),
      (''RoutingBgpSessionRemoteCapabilitiesLlgr'', ''llgr''), (''RoutingBgpSessionRemoteCapabilitiesMl'', ''ml''),
      (''RoutingBgpSessionRemoteCapabilitiesMp'', ''mp''), (''RoutingBgpSessionRemoteCapabilitiesMs'', ''ms''),
      (''RoutingBgpSessionRemoteCapabilitiesOrf'', ''orf''), (''RoutingBgpSessionRemoteCapabilitiesRole'', ''role''),
      (''RoutingBgpSessionRemoteCapabilitiesRr'', ''rr''), (''RoutingBgpSessionRemoteCapabilitiesSec'', ''sec'')]"

definition RoutingBgpSessionRemoteEor_consts :: "(string \<times> string) list" where
  "RoutingBgpSessionRemoteEor_consts =
     [(''RoutingBgpSessionRemoteEorEvpn'', ''evpn''), (''RoutingBgpSessionRemoteEorIp'', ''ip''),
      (''RoutingBgpSessionRemoteEorIpv6'', ''ipv6''), (''RoutingBgpSessionRemoteEorL2vpn'', ''l2vpn''),
      (''RoutingBgpSessionRemoteEorL2vpnCisco'', ''l2vpn-cisco''), (''RoutingBgpSessionRemoteEorVpnv4'', ''vpnv4''),
      (''RoutingBgpSessionRemoteEorVpnv6'', ''vpnv6'')]"

definition RoutingBgpSessionRemoteGrAfi_consts :: "(string \<times> string) list" where
  "RoutingBgpSessionRemoteGrAfi_consts =
     [(''RoutingBgpSessionRemoteGrAfiIp'', ''ip''), (''RoutingBgpSessionRemoteGrAfiIpv6'', ''ipv6''),
      (''RoutingBgpSessionRemoteGrAfiL2vpn'', ''l2vpn''), (''RoutingBgpSessionRemoteGrAfiL2vpnCisco'', ''l2vpn-cisco''),
      (''RoutingBgpSessionRemoteGrAfiVpnv4'', ''vpnv4''), (''RoutingBgpSessionRemoteGrAfiVpnv6'', ''vpnv6'')]"

definition RoutingBgpSessionRemoteGrAfiFwp_consts :: "(string \<times> string) list" where
  "RoutingBgpSessionRemoteGrAfiFwp_consts =
     [(''RoutingBgpSessionRemoteGrAfiFwpIp'', ''ip''), (''RoutingBgpSessionRemoteGrAfiFwpIpv6'', ''ipv6''),
      (''RoutingBgpSessionRemoteGrAfiFwpL2vpn'', ''l2vpn''), (''RoutingBgpSessionRemoteGrAfiFwpL2vpnCisco'', ''l2vpn-cisco''),
      (''RoutingBgpSessionRemoteGrAfiFwpVpnv4'', ''vpnv4''), (''RoutingBgpSessionRemoteGrAfiFwpVpnv6'', ''vpnv6'')]"

definition RoutingBgpSessionRemoteRole_consts :: "(string \<times> string) list" where
  "RoutingBgpSessionRemoteRole_consts =
     [(''RoutingBgpSessionRemoteRoleCustomer'', ''customer''), (''RoutingBgpSessionRemoteRolePeer'', ''peer''),
      (''RoutingBgpSessionRemoteRoleProvider'', ''provider''), (''RoutingBgpSessionRemoteRoleRouteServer'', ''route-server''),
      (''RoutingBgpSessionRemoteRoleRouteServerClient'', ''route-server-client'')]"

definition RoutingBgpSession_enums :: "(string \<times> (string \<times> string) list) list" where
  "RoutingBgpSession_enums =
     [(''RoutingBgpSessionCiscoVplsNlriLenFmt'', RoutingBgpSessionCiscoVplsNlriLenFmt_consts),
      (''RoutingBgpSessionInputAddPath'', RoutingBgpSessionInputAddPath_consts),
      (''RoutingBgpSessionInputAffinity'', RoutingBgpSessionInputAffinity_consts),
      (''RoutingBgpSessionLocalAfi'', RoutingBgpSessionLocalAfi_consts),
      (''RoutingBgpSessionLocalCapabilities'', RoutingBgpSessionLocalCapabilities_consts),
      (''RoutingBgpSessionLocalEor'', RoutingBgpSessionLocalEor_consts),
      (''RoutingBgpSessionLocalRole'', RoutingBgpSessionLocalRole_consts),
      (''RoutingBgpSessionNexthopChoice'', RoutingBgpSessionNexthopChoice_consts),
      (''RoutingBgpSessionOutputAddPath'', RoutingBgpSessionOutputAddPath_consts),
      (''RoutingBgpSessionOutputAffinity'', RoutingBgpSessionOutputAffinity_consts),
      (''RoutingBgpSessionOutputDefaultOriginate'', RoutingBgpSessionOutputDefaultOriginate_consts),
      (''RoutingBgpSessionRemoteAfi'', RoutingBgpSessionRemoteAfi_consts),
      (''RoutingBgpSessionRemoteCapabilities'', RoutingBgpSessionRemoteCapabilities_consts),
      (''RoutingBgpSessionRemoteEor'', RoutingBgpSessionRemoteEor_consts),
      (''RoutingBgpSessionRemoteGrAfi'', RoutingBgpSessionRemoteGrAfi_consts),
      (''RoutingBgpSessionRemoteGrAfiFwp'', RoutingBgpSessionRemoteGrAfiFwp_consts),
      (''RoutingBgpSessionRemoteRole'', RoutingBgpSessionRemoteRole_consts)]"

lemmas RoutingBgpSession_enum_defs = RoutingBgpSession_enums_def RoutingBgpSessionCiscoVplsNlriLenFmt_consts_def RoutingBgpSessionInputAddPath_consts_def
  RoutingBgpSessionInputAffinity_consts_def RoutingBgpSessionLocalAfi_consts_def RoutingBgpSessionLocalCapabilities_consts_def
  RoutingBgpSessionLocalEor_consts_def RoutingBgpSessionLocalRole_consts_def RoutingBgpSessionNexthopChoice_consts_def
  RoutingBgpSessionOutputAddPath_consts_def RoutingBgpSessionOutputAffinity_consts_def
  RoutingBgpSessionOutputDefaultOriginate_consts_def RoutingBgpSessionRemoteAfi_consts_def
  RoutingBgpSessionRemoteCapabilities_consts_def RoutingBgpSessionRemoteEor_consts_def RoutingBgpSessionRemoteGrAfi_consts_def
  RoutingBgpSessionRemoteGrAfiFwp_consts_def RoutingBgpSessionRemoteRole_consts_def

section \<open>What the generator declares\<close>

text \<open>The vocabularies of a menu, as the generator names and numbers their constants.\<close>

definition vocabularies :: "ir_Menu \<Rightarrow> (string \<times> (string \<times> string) list) list" where
  "vocabularies m =
     map (\<lambda>f. (typeName (irPath m) @ goName (fName f), enumConsts (typeName (irPath m) @ goName (fName f)) (fValues f) fmempty))
       (filter hasVocabulary (irFields m))"

lemma emitEnums_vocabularies:
  "emitEnums (typeName (irPath m)) m =
     concat (map (\<lambda>(f, en, cs). ''// '' @ en @ '' is the vocabulary the router states for '' @ irPath m @ '' '' @ fName f @ ''.'' @ nl
        @ ''type '' @ en @ '' string'' @ nl @ nl @ ''const ('' @ nl
        @ concat (map (\<lambda>(cn, v). tab @ cn @ '' '' @ en @ '' = '' @ Quote v @ nl) cs) @ '')'' @ nl @ nl)
      (zip (filter hasVocabulary (irFields m)) (vocabularies m)))"
proof -
  have "concat (map (emitEnum (typeName (irPath m)) m) fs) =
     concat (map (\<lambda>(f, en, cs). ''// '' @ en @ '' is the vocabulary the router states for '' @ irPath m @ '' '' @ fName f @ ''.'' @ nl
        @ ''type '' @ en @ '' string'' @ nl @ nl @ ''const ('' @ nl
        @ concat (map (\<lambda>(cn, v). tab @ cn @ '' '' @ en @ '' = '' @ Quote v @ nl) cs) @ '')'' @ nl @ nl)
      (zip (filter hasVocabulary fs)
        (map (\<lambda>f. (typeName (irPath m) @ goName (fName f), enumConsts (typeName (irPath m) @ goName (fName f)) (fValues f) fmempty))
          (filter hasVocabulary fs))))" for fs
    by (induction fs) (simp_all add: emitEnum_def Let_def)
  then show ?thesis by (simp add: emitEnums_def vocabularies_def)
qed

lemma comma_eval: "\<not> isLetter (CHR '','')" "\<not> is_digit (CHR '','')" "show_nat (Suc (Suc 0)) = ''2''"
  by (simp add: isLetter_def isLower_def isUpper_def, simp add: is_digit_def, code_simp)

lemmas enum_eval = comma_eval vocabularies_def typeName_def hasVocabulary_def irMenu_def irField_def KindEnum_def lookup_default_def Let_def
  TrimPrefix_def HasPrefix_def

lemma IpAddress_vocabularies: "vocabularies pinnedIpAddress = []"
  by (simp add: enum_eval pinnedIpAddress_def  name_eval)

lemma InterfaceBridge_vocabularies: "vocabularies pinnedInterfaceBridge = InterfaceBridge_enums"
  by (simp add: enum_eval pinnedInterfaceBridge_def InterfaceBridge_enum_defs name_eval)

lemma IpFirewallFilter_vocabularies: "vocabularies pinnedIpFirewallFilter = IpFirewallFilter_enums"
  by (simp add: enum_eval pinnedIpFirewallFilter_def IpFirewallFilter_enum_defs name_eval)

lemma SystemResource_vocabularies: "vocabularies pinnedSystemResource = []"
  by (simp add: enum_eval pinnedSystemResource_def  name_eval)

lemma Interface_vocabularies: "vocabularies pinnedInterface = Interface_enums"
  by (simp add: enum_eval pinnedInterface_def Interface_enum_defs name_eval)

lemma RoutingBgpSession_vocabularies: "vocabularies pinnedRoutingBgpSession = RoutingBgpSession_enums"
  by (simp add: enum_eval pinnedRoutingBgpSession_def RoutingBgpSession_enum_defs name_eval)

lemma SystemHealth_vocabularies: "vocabularies pinnedSystemHealth = []"
  by (simp add: enum_eval pinnedSystemHealth_def  name_eval)

section \<open>Properties\<close>

lemma names_apart: "list_all (list_all (\<lambda>(en, cs). distinct (map fst cs) \<and> distinct (map snd cs)))
    [InterfaceBridge_enums, IpFirewallFilter_enums, Interface_enums, RoutingBgpSession_enums]"
  by code_simp


end
