(* ===== verification/Size_Probe.thy ===== *)
theory Size_Probe
  imports Go_Gen Rest_Record
begin

text \<open>
  src/hack/sizeprobe: the measurement of how large a menu object may grow on a Kubernetes API server.
  For two shapes of rows a ladder of sizes is applied and read back; when one is refused the exact
  ceiling is found by bisection, and every object is deleted again.

  The API server is a parameter: four operations on a state, an error is the text of the refusal.
  Starting and stopping it, the definition of the resource type it is given and the log are left out.
\<close>

section \<open>JSON text\<close>

text \<open>
  \<^verbatim>\<open>json.Marshal\<close> of the values the probe sends and reads: keys of a map in order, the characters
  HTML and JavaScript give a meaning escaped. Text is UTF-8.
\<close>

definition hex4 :: "nat \<Rightarrow> string" where
  "hex4 n = (let h = show_base 16 n in replicate (4 - length h) (CHR ''0'') @ h)"

fun jsonEscape :: "string \<Rightarrow> string" where
  "jsonEscape [] = []"
| "jsonEscape (c # cs) =
     (let n = (of_char c :: nat)
      in if n = 226 \<and> take 2 cs \<in> {[char_of (128 :: nat), char_of (168 :: nat)], [char_of (128 :: nat), char_of (169 :: nat)]}
         then (CHR 0x5C # ''u202'' @ [if (of_char (cs ! 1) :: nat) = 168 then CHR ''8'' else CHR ''9'']) @ jsonEscape (drop 2 cs)
         else (if n = 34 \<or> n = 92 then [CHR 0x5C, c]
               else if n = 8 then [CHR 0x5C, CHR ''b''] else if n = 9 then [CHR 0x5C, CHR ''t'']
               else if n = 10 then [CHR 0x5C, CHR ''n''] else if n = 12 then [CHR 0x5C, CHR ''f'']
               else if n = 13 then [CHR 0x5C, CHR ''r'']
               else if n < 32 \<or> n = 38 \<or> n = 60 \<or> n = 62 then CHR 0x5C # CHR ''u'' # hex4 n
               else [c]) @ jsonEscape cs)"

definition jsonString :: "string \<Rightarrow> string" where
  "jsonString s = CHR 0x22 # jsonEscape s @ [CHR 0x22]"

fun jsonText :: "json \<Rightarrow> string" where
  "jsonText JNull = ''null''"
| "jsonText (JBool b) = (if b then ''true'' else ''false'')"
| "jsonText (JInt n) = FormatInt n"
| "jsonText (JNumber s) = s"
| "jsonText (JStr s) = jsonString s"
| "jsonText (JArr js) = ''['' @ Join (map jsonText js) '','' @ '']''"
| "jsonText (JObj kvs) =
     ''{'' @ Join (map (\<lambda>(k, t). jsonString k @ '':'' @ t) (sort_key fst (map (\<lambda>(k, j). (k, jsonText j)) kvs))) '','' @ ''}''"

definition jsonLen :: "json option \<Rightarrow> nat" where
  "jsonLen v = (case v of None \<Rightarrow> 0 | Some JNull \<Rightarrow> 0 | Some j \<Rightarrow> length (jsonText j))"

section \<open>Rows\<close>

definition sp_synthesize :: "ir_Field \<Rightarrow> nat \<Rightarrow> string" where
  "sp_synthesize f i =
     (if fBool f then ''false''
      else if fKind f = KindEnum \<and> fValues f \<noteq> [] then fValues f ! (i mod length (fValues f))
      else if fType f = ''string'' then ''synthetic-'' @ fName f @ ''-'' @ show_nat i
      else if fType f = ''integer number'' then ''1234567''
      else if fType f = ''time interval'' then ''1d2h3m4s''
      else if fType f = ''IP address range'' then ''10.'' @ show_nat (i div 250 mod 250) @ ''.'' @ show_nat (i mod 250) @ ''.0/24''
      else if fType f = ''MAC address'' then ''AA:BB:CC:DD:EE:0F''
      else if fType f = ''max 15 times'' then ''80,443,8080-8090''
      else if fType f = ''integer number|time interval'' then ''100/1m''
      else if fValues f \<noteq> [] then fValues f ! (i mod length (fValues f))
      else ''value-'' @ show_nat i)"

text \<open>One cycle of the archetypes.\<close>

definition typicalBlock :: "nat \<Rightarrow> string go_map list" where
  "typicalBlock i =
     [fmap_of_list [(''chain'', ''input''), (''action'', ''accept''), (''connection-state'', ''established,related,untracked''),
        (''comment'', ''accept established,related,untracked (block '' @ show_nat i @ '')'')],
      fmap_of_list [(''chain'', ''input''), (''action'', ''drop''), (''connection-state'', ''invalid''),
        (''comment'', ''drop invalid (block '' @ show_nat i @ '')'')],
      fmap_of_list [(''chain'', ''input''), (''action'', ''accept''), (''protocol'', ''icmp''),
        (''comment'', ''accept ICMP (block '' @ show_nat i @ '')'')],
      fmap_of_list [(''chain'', ''input''), (''action'', ''accept''), (''protocol'', ''tcp''),
        (''dst-port'', ''22,443,'' @ show_nat (8000 + i mod 1000)), (''src-address-list'', ''mgmt-hosts''),
        (''in-interface-list'', ''LAN''), (''comment'', ''allow management from LAN segment '' @ show_nat i)],
      fmap_of_list [(''chain'', ''forward''), (''action'', ''drop''), (''src-address-list'', ''blacklist-feed-'' @ show_nat (i mod 16)),
        (''log'', ''true''), (''log-prefix'', ''bl-drop-'' @ show_nat (i mod 16)),
        (''comment'', ''drop blacklisted sources, feed '' @ show_nat (i mod 16))],
      fmap_of_list [(''chain'', ''forward''), (''action'', ''accept''), (''protocol'', ''tcp''),
        (''dst-address'', ''10.0.'' @ show_nat (i div 250 mod 250) @ ''.'' @ show_nat (10 + i mod 250)),
        (''dst-port'', show_nat (1024 + i mod 40000)), (''connection-nat-state'', ''dstnat''), (''in-interface'', ''ether1''),
        (''comment'', ''dstnat follow-up for svc-'' @ show_nat i)],
      fmap_of_list [(''chain'', ''forward''), (''action'', ''jump''), (''jump-target'', ''tenant-'' @ show_nat (i mod 8)),
        (''comment'', ''hand off to tenant chain '' @ show_nat (i mod 8))]]"

text \<open>The inner loop breaks as soon as there are enough rows.\<close>

fun addRows :: "nat \<Rightarrow> 'a list \<Rightarrow> 'a list \<Rightarrow> 'a list" where
  "addRows n rows [] = rows"
| "addRows n rows (r # rs) = (if length rows = n then rows else addRows n (rows @ [r]) rs)"

lemma addRows_take: "length rows \<le> n \<Longrightarrow> addRows n rows rs = rows @ take (n - length rows) rs"
proof (induction n rows rs rule: addRows.induct)
  case (2 n rows r rs)
  then show ?case by (cases "length rows = n") (auto simp: take_Cons' Suc_diff_Suc)
qed simp

function typicalLoop :: "nat \<Rightarrow> nat \<Rightarrow> string go_map list \<Rightarrow> string go_map list" where
  "typicalLoop n i rows = (if length rows < n then typicalLoop n (Suc i) (addRows n rows (typicalBlock i)) else rows)"
  by pat_completeness auto
termination
  by (relation "measure (\<lambda>(n, i, rows). n - length rows)") (auto simp: addRows_take typicalBlock_def)

declare typicalLoop.simps [simp del]

definition typicalRows :: "nat \<Rightarrow> string go_map list" where
  "typicalRows n = typicalLoop n 0 []"

definition denseRow :: "ir_Menu \<Rightarrow> nat \<Rightarrow> string go_map" where
  "denseRow m i =
     fmupd ''comment'' (''dense synthetic rule '' @ show_nat i @ '', every field set'')
       (fold (\<lambda>f row. if fAccess f \<noteq> Writable \<or> fName f = ''copy-from'' \<or> fName f = ''place-before'' then row
                       else fmupd (fName f) (sp_synthesize f i) row) (irFields m) fmempty)"

definition denseRows :: "ir_Menu \<Rightarrow> nat \<Rightarrow> string go_map list" where
  "denseRows m n = map (denseRow m) [0 ..< n]"

definition readOnlyFields :: "ir_Menu \<Rightarrow> string go_map" where
  "readOnlyFields m = fold (\<lambda>f out. if fAccess f \<noteq> ReadOnly then out else fmupd (fName f) (sp_synthesize f 0) out) (irFields m) fmempty"

section \<open>Objects\<close>

definition gvr_apiVersion :: string where
  "gvr_apiVersion = ''probe.routeros/v1alpha1''"

definition objectName :: "string \<Rightarrow> nat \<Rightarrow> string" where
  "objectName shape n = ''ip-firewall-filter-'' @ shape @ ''-'' @ show_nat n"

definition menuObject :: "string \<Rightarrow> string go_map list \<Rightarrow> json" where
  "menuObject name rows =
     JObj [(''apiVersion'', JStr gvr_apiVersion), (''kind'', JStr ''Menu''), (''metadata'', JObj [(''name'', JStr name)]),
       (''spec'', JObj [(''path'', JStr ''/ip/firewall/filter''), (''ordered'', JBool True), (''unlisted'', JStr ''tolerate''),
          (''rows'', JArr (map json_of_record rows))])]"

definition rowId :: "nat \<Rightarrow> string" where
  "rowId i = ''*'' @ map toUpper (show_base 16 (i + 1))"

definition observedRow :: "ir_Menu \<Rightarrow> nat \<Rightarrow> string go_map \<Rightarrow> string go_map" where
  "observedRow m i r = fmadd (fmupd ''.id'' (rowId i) r) (readOnlyFields m)"

definition rowStatus :: "nat \<Rightarrow> json" where
  "rowStatus i = JObj [(''index'', JInt (int i)), (''id'', JStr (rowId i)), (''ready'', JBool True)]"

definition statusObject :: "string \<Rightarrow> ir_Menu \<Rightarrow> string go_map list \<Rightarrow> json" where
  "statusObject name m desired =
     JObj [(''apiVersion'', JStr gvr_apiVersion), (''kind'', JStr ''Menu''), (''metadata'', JObj [(''name'', JStr name)]),
       (''status'', JObj
          [(''atProvider'', JObj [(''rows'', JArr (map (\<lambda>(i, r). json_of_record (observedRow m i r)) (enumerate 0 desired)))]),
           (''rowStatus'', JArr (map rowStatus [0 ..< length desired]))])]"

section \<open>The API server\<close>

record 's kube_api =
  apiApply :: "string \<Rightarrow> json \<Rightarrow> 's \<Rightarrow> string option \<times> 's"
  apiApplyStatus :: "string \<Rightarrow> json \<Rightarrow> 's \<Rightarrow> string option \<times> 's"
  apiGet :: "string \<Rightarrow> 's \<Rightarrow> (string + json) \<times> 's"
  apiDelete :: "string \<Rightarrow> 's \<Rightarrow> string option \<times> 's"

record Measurement =
  msShape :: string
  msRows :: nat
  ApplyRequestBytes :: nat
  StoredBytes :: nat
  SpecBytes :: nat
  StatusBytes :: nat
  ManagedFieldsBytes :: nat
  OneRowChangeRequestBytes :: nat

definition zeroMeasurement :: Measurement where
  "zeroMeasurement = \<lparr>msShape = [], msRows = 0, ApplyRequestBytes = 0, StoredBytes = 0, SpecBytes = 0, StatusBytes = 0,
     ManagedFieldsBytes = 0, OneRowChangeRequestBytes = 0\<rparr>"

fun jsonField :: "json \<Rightarrow> string \<Rightarrow> json option" where
  "jsonField (JObj kvs) k = map_of kvs k"
| "jsonField j k = None"

definition deleteQuietly :: "'s kube_api \<Rightarrow> string \<Rightarrow> 's \<Rightarrow> 's" where
  "deleteQuietly A name s = snd (apiDelete A name s)"

definition editComment :: "nat \<Rightarrow> string" where
  "editComment n = ''edited by sizeprobe to measure a one-row change at '' @ show_nat n @ '' rows''"

definition editRows :: "nat \<Rightarrow> string go_map list \<Rightarrow> string go_map list" where
  "editRows n rows = rows[n div 2 := fmupd ''comment'' (editComment n) (rows ! (n div 2))]"

definition readBack :: "json \<Rightarrow> Measurement \<Rightarrow> Measurement" where
  "readBack stored meas =
     meas\<lparr>StoredBytes := jsonLen (Some stored), SpecBytes := jsonLen (jsonField stored ''spec''),
       StatusBytes := jsonLen (jsonField stored ''status''),
       ManagedFieldsBytes := (case jsonField stored ''metadata'' of Some (JObj md) \<Rightarrow> jsonLen (map_of md ''managedFields'') | _ \<Rightarrow> 0)\<rparr>"

text \<open>
  \<^verbatim>\<open>measure\<close> up to its deferred deletion: the measurement, and the stage and text of a refusal, both empty
  when there is none.
\<close>

definition measureBody ::
  "'s kube_api \<Rightarrow> ir_Menu \<Rightarrow> string \<Rightarrow> string go_map list \<Rightarrow> nat \<Rightarrow> 's \<Rightarrow> (Measurement \<times> string \<times> string) \<times> 's" where
  "measureBody A m shape rows n s =
     (let name = objectName shape n;
          obj = menuObject name rows;
          meas1 = zeroMeasurement\<lparr>msShape := shape, msRows := n, ApplyRequestBytes := length (jsonText obj)\<rparr>
      in case apiApply A name obj s of
           (Some e, s1) \<Rightarrow> ((meas1, ''spec-apply'', e), s1)
         | (None, s1) \<Rightarrow>
             (case apiApplyStatus A name (statusObject name m rows) s1 of
                (Some e, s2) \<Rightarrow> ((meas1, ''status-apply'', e), s2)
              | (None, s2) \<Rightarrow>
                  (case apiGet A name s2 of
                     (Inl e, s3) \<Rightarrow> ((meas1, ''get'', e), s3)
                   | (Inr stored, s3) \<Rightarrow>
                       (let changed = menuObject name (editRows n rows);
                            meas3 = (readBack stored meas1)\<lparr>OneRowChangeRequestBytes := length (jsonText changed)\<rparr>
                        in case apiApply A name changed s3 of
                             (Some e, s4) \<Rightarrow> ((meas3, ''one-row-apply'', e), s4)
                           | (None, s4) \<Rightarrow> ((meas3, [], []), s4)))))"

definition sp_measure ::
  "'s kube_api \<Rightarrow> ir_Menu \<Rightarrow> string \<Rightarrow> string go_map list \<Rightarrow> nat \<Rightarrow> 's \<Rightarrow> (Measurement \<times> string \<times> string) \<times> 's" where
  "sp_measure A m shape rows n s =
     (case measureBody A m shape rows n s of (r, s') \<Rightarrow> (r, deleteQuietly A (objectName shape n) s'))"

definition attemptBody ::
  "'s kube_api \<Rightarrow> ir_Menu \<Rightarrow> string \<Rightarrow> string go_map list \<Rightarrow> nat \<Rightarrow> 's \<Rightarrow> (string \<times> string) \<times> 's" where
  "attemptBody A m shape rows n s =
     (let name = objectName shape n
      in case apiApply A name (menuObject name rows) s of
           (Some e, s1) \<Rightarrow> ((''spec-apply'', e), s1)
         | (None, s1) \<Rightarrow>
             (case apiApplyStatus A name (statusObject name m rows) s1 of
                (Some e, s2) \<Rightarrow> ((''status-apply'', e), s2)
              | (None, s2) \<Rightarrow> (([], []), s2)))"

definition attempt ::
  "'s kube_api \<Rightarrow> ir_Menu \<Rightarrow> string \<Rightarrow> string go_map list \<Rightarrow> nat \<Rightarrow> 's \<Rightarrow> (string \<times> string) \<times> 's" where
  "attempt A m shape rows n s =
     (case attemptBody A m shape rows n s of (r, s') \<Rightarrow> (r, deleteQuietly A (objectName shape n) s'))"

section \<open>The run\<close>

record RowShape =
  Description :: string
  FieldsPerRowAvg :: nat
  RowJSONBytesAvg :: nat

record Ceiling =
  ceShape :: string
  MaxRowsOK :: nat
  FirstFailureRows :: nat
  FailedAt :: string
  Refusal :: string

definition ladderSizes :: "nat list" where
  "ladderSizes = [100, 250, 500, 1000, 2000, 4000, 8000]"

text \<open>The ladder: the measurements taken, the last size that was stored, and the first that was refused, zero when none was.\<close>

fun ladder ::
  "'s kube_api \<Rightarrow> ir_Menu \<Rightarrow> string \<Rightarrow> (nat \<Rightarrow> string go_map list) \<Rightarrow> nat list \<Rightarrow> Measurement list \<Rightarrow> nat \<Rightarrow> 's
   \<Rightarrow> (Measurement list \<times> nat \<times> nat \<times> string \<times> string) \<times> 's" where
  "ladder A m shape rowsOf [] meass lastOK s = ((meass, lastOK, 0, [], []), s)"
| "ladder A m shape rowsOf (n # ns) meass lastOK s =
     (case sp_measure A m shape (rowsOf n) n s of
        ((meas, failStage, failMsg), s') \<Rightarrow>
          if failStage \<noteq> [] then ((meass, lastOK, n, failStage, failMsg), s')
          else ladder A m shape rowsOf ns (meass @ [meas]) n s')"

function bisect ::
  "'s kube_api \<Rightarrow> ir_Menu \<Rightarrow> string \<Rightarrow> (nat \<Rightarrow> string go_map list) \<Rightarrow> nat \<Rightarrow> nat \<Rightarrow> string \<Rightarrow> string \<Rightarrow> 's
   \<Rightarrow> (nat \<times> nat \<times> string \<times> string) \<times> 's" where
  "bisect A m shape rowsOf lo hi failedAt refusal s =
     (if 1 < hi - lo then
        (let mid = (lo + hi) div 2
         in case attempt A m shape (rowsOf mid) mid s of
              ((failStage, failMsg), s') \<Rightarrow>
                if failStage = [] then bisect A m shape rowsOf mid hi failedAt refusal s'
                else bisect A m shape rowsOf lo mid failStage failMsg s')
      else ((lo, hi, failedAt, refusal), s))"
  by pat_completeness auto
termination
  by (relation "measure (\<lambda>(A, m, shape, rowsOf, lo, hi, failedAt, refusal, s). hi - lo)") auto

declare bisect.simps [simp del]

definition shapeOf :: "string \<Rightarrow> (nat \<Rightarrow> string go_map list) \<Rightarrow> RowShape" where
  "shapeOf description rowsOf =
     (let sample = rowsOf 7
      in \<lparr>Description = description, FieldsPerRowAvg = (\<Sum>r\<leftarrow>sample. length (sorted_keys r)) div length sample,
          RowJSONBytesAvg = (\<Sum>r\<leftarrow>sample. jsonLen (Some (json_of_record r))) div length sample\<rparr>)"

definition ceilingOf ::
  "'s kube_api \<Rightarrow> ir_Menu \<Rightarrow> string \<Rightarrow> (nat \<Rightarrow> string go_map list) \<Rightarrow> 's \<Rightarrow> (Measurement list \<times> Ceiling) \<times> 's" where
  "ceilingOf A m shape rowsOf s =
     (case ladder A m shape rowsOf ladderSizes [] 0 s of
        ((meass, lastOK, firstFail, failedAt, refusal), s1) \<Rightarrow>
          if 0 < firstFail then
            (case bisect A m shape rowsOf lastOK firstFail failedAt refusal s1 of
               ((lo, hi, failedAt', refusal'), s2) \<Rightarrow>
                 ((meass, \<lparr>ceShape = shape, MaxRowsOK = lo, FirstFailureRows = hi, FailedAt = failedAt', Refusal = refusal'\<rparr>), s2))
          else ((meass, \<lparr>ceShape = shape, MaxRowsOK = lastOK, FirstFailureRows = 0, FailedAt = [], Refusal = []\<rparr>), s1))"

record SizeReport =
  repMenu :: string
  repVersion :: string
  repShapes :: "RowShape go_map"
  Measurements :: "Measurement list"
  Ceilings :: "Ceiling list"

definition shapesOf :: "ir_Menu \<Rightarrow> (string \<times> string \<times> (nat \<Rightarrow> string go_map list)) list" where
  "shapesOf m =
     [(''typical'', ''archetypes of real firewall policy, ~5 fields a rule'', typicalRows),
      (''dense'', ''every writable field the menu has set on every row'', denseRows m)]"

fun runShapes :: "'s kube_api \<Rightarrow> ir_Menu \<Rightarrow> (string \<times> string \<times> (nat \<Rightarrow> string go_map list)) list \<Rightarrow> SizeReport \<Rightarrow> 's \<Rightarrow> SizeReport \<times> 's" where
  "runShapes A m [] rep s = (rep, s)"
| "runShapes A m ((name, descr, rowsOf) # shapes) rep s =
     (case ceilingOf A m name rowsOf s of
        ((meass, c), s') \<Rightarrow>
          runShapes A m shapes
            (rep\<lparr>repShapes := fmupd name (shapeOf descr rowsOf) (repShapes rep), Measurements := Measurements rep @ meass,
                 Ceilings := Ceilings rep @ [c]\<rparr>) s')"

text \<open>\<^verbatim>\<open>main\<close>, from the IR on: a menu the IR does not have ends the run.\<close>

definition sizeprobe :: "'s kube_api \<Rightarrow> IR \<Rightarrow> string \<Rightarrow> 's \<Rightarrow> (SizeReport \<times> 's) option" where
  "sizeprobe A ir path s =
     (case IR_Menu ir path of
        None \<Rightarrow> None
      | Some m \<Rightarrow> Some (runShapes A m (shapesOf m)
          \<lparr>repMenu = path, repVersion = RouterOSVersion ir, repShapes = fmempty, Measurements = [], Ceilings = []\<rparr> s))"

end
