(* ===== verification/Size_Probe_Exact.thy ===== *)
theory Size_Probe_Exact
  imports Size_Probe "HOL-Library.Multiset"
begin

text \<open>
  What the size probe reports: closed forms of its rows and of the sizes of its objects, and the ceiling
  it finds on any server and on one that limits the size of an object.
\<close>

section \<open>The rows\<close>

definition typicalRow :: "nat \<Rightarrow> string go_map" where
  "typicalRow j = typicalBlock (j div 7) ! (j mod 7)"

lemma typicalBlock_length [simp]: "length (typicalBlock i) = 7"
  by (simp add: typicalBlock_def)

lemma typicalBlock_rows: "typicalBlock i = map typicalRow [7 * i ..< 7 * i + 7]"
proof (rule nth_equalityI)
  fix j assume "j < length (typicalBlock i)"
  then have "j < 7" by simp
  then have "(7 * i + j) div 7 = i" "(7 * i + j) mod 7 = j" by simp_all
  then show "typicalBlock i ! j = map typicalRow [7 * i ..< 7 * i + 7] ! j" using \<open>j < 7\<close> by (simp add: typicalRow_def)
qed simp

lemma typicalLoop_rows:
  assumes "7 * i \<le> n"
  shows "typicalLoop n i (map typicalRow [0 ..< 7 * i]) = map typicalRow [0 ..< n]"
  using assms
proof (induction "n - 7 * i" arbitrary: i rule: less_induct)
  case less
  show ?case
  proof (cases "7 * i < n")
    case False
    then show ?thesis using less.prems by (simp add: typicalLoop.simps [of n i])
  next
    case lt: True
    let ?e = "min n (7 * i + 7)"
    have "take (n - 7 * i) (typicalBlock i) = map typicalRow [7 * i ..< ?e]"
      using lt by (simp add: typicalBlock_rows take_map min_def)
    moreover have "[0 ..< 7 * i] @ [7 * i ..< ?e] = [0 ..< ?e]" using lt upt_add_eq_append [of 0 "7 * i" "?e - 7 * i"] by simp
    ultimately have add: "addRows n (map typicalRow [0 ..< 7 * i]) (typicalBlock i) = map typicalRow [0 ..< ?e]"
      using less.prems by (simp add: addRows_take) (metis map_append)
    show ?thesis
    proof (cases "7 * i + 7 \<le> n")
      case True
      then have "typicalLoop n (Suc i) (map typicalRow [0 ..< 7 * Suc i]) = map typicalRow [0 ..< n]"
        by (intro less.hyps) auto
      moreover have "addRows n (map typicalRow [0 ..< 7 * i]) (typicalBlock i) = map typicalRow [0 ..< 7 * Suc i]"
        unfolding add using True by (simp add: min_absorb2 add.commute)
      ultimately show ?thesis using lt by (simp add: typicalLoop.simps [of n i])
    next
      case False
      then show ?thesis using lt add by (simp add: typicalLoop.simps [of n i] typicalLoop.simps [of n "Suc i"] min_def)
    qed
  qed
qed

lemma typicalRows_closed: "typicalRows n = map typicalRow [0 ..< n]"
  using typicalLoop_rows [of 0 n] by (simp add: typicalRows_def)

text \<open>
  A rule set that is meant to hold no row twice does: the rows that hand off to a tenant chain
  repeat with the number of the tenant, comment included.
\<close>

theorem typicalRows_repeat:
  "63 \<le> n \<Longrightarrow> typicalRows n ! 6 = typicalRows n ! 62"
  by (simp add: typicalRows_closed typicalRow_def typicalBlock_def)

text \<open>Both shapes list the rows of one sequence.\<close>

lemma shapes_closed: "(shape, descr, rowsOf) \<in> set (shapesOf m) \<Longrightarrow> \<exists>f. \<forall>n. rowsOf n = map f [0 ..< n]"
  by (auto simp: shapesOf_def typicalRows_closed denseRows_def)

section \<open>Sizes\<close>

lemma Join_length: "length (Join xs [c]) = (\<Sum>x\<leftarrow>xs. length x) + (length xs - 1)"
  by (induction xs "[c]" rule: Join.induct) auto

lemma sum_sort_key: "(\<Sum>x\<leftarrow>sort_key k xs. f x) = (\<Sum>x\<leftarrow>xs. f x :: nat)"
  by (metis mset_map mset_sort sum_mset_sum_list)

lemma jsonText_JObj_length:
  "length (jsonText (JObj kvs)) = 2 + (\<Sum>(k, j)\<leftarrow>kvs. length (jsonString k) + 1 + length (jsonText j)) + (length kvs - 1)"
  by (simp add: Join_length comp_def sum_sort_key) (auto intro!: arg_cong [where f = sum_list] map_cong)

lemma jsonText_JArr_length:
  "length (jsonText (JArr js)) = 2 + (\<Sum>j\<leftarrow>js. length (jsonText j)) + (length js - 1)"
  by (simp add: Join_length comp_def)

lemma JArr_mono: "length (jsonText (JArr xs)) \<le> length (jsonText (JArr (xs @ ys)))"
  by (simp add: jsonText_JArr_length del: jsonText.simps)

lemma show_nat_mono: "m \<le> n \<Longrightarrow> length (show_nat m) \<le> length (show_nat n)"
proof (induction n arbitrary: m rule: less_induct)
  case (less n)
  show ?case
  proof (cases "m < 10")
    case True
    then show ?thesis by (simp add: show_base.simps [of 10 m] show_base.simps [of 10 n])
  next
    case False
    then have "length (show_nat (m div 10)) \<le> length (show_nat (n div 10))"
      using less.prems by (intro less.IH) (auto intro: div_le_mono)
    then show ?thesis using False less.prems by (simp add: show_base.simps [of 10 m] show_base.simps [of 10 n])
  qed
qed

text \<open>Text the encoder leaves as it is.\<close>

definition plainChar :: "char \<Rightarrow> bool" where
  "plainChar c \<longleftrightarrow> (let n = (of_char c :: nat) in 32 \<le> n \<and> n \<notin> {34, 38, 60, 62, 92, 226})"

lemma jsonEscape_plain: "list_all plainChar s \<Longrightarrow> jsonEscape s = s"
  by (induction s rule: jsonEscape.induct) (auto simp: plainChar_def Let_def)

lemma digit_plain: "d < 10 \<Longrightarrow> plainChar (digit_char d)"
  by (simp add: plainChar_def digit_char_def of_char_of Let_def)

lemma show_nat_plain: "list_all plainChar (show_nat n)"
proof (induction n rule: less_induct)
  case (less n)
  then show ?case by (simp add: show_base.simps [of 10 n] digit_plain)
qed

lemma objectName_plain:
  assumes "list_all plainChar shape"
  shows "length (jsonString (objectName shape n)) = 22 + length shape + length (show_nat n)"
proof -
  have "list_all plainChar ''ip-firewall-filter-''" "plainChar (CHR ''-'')" by (simp_all add: plainChar_def)
  then have "list_all plainChar (objectName shape n)" using assms show_nat_plain by (simp add: objectName_def)
  then show ?thesis by (simp add: jsonString_def jsonEscape_plain) (simp add: objectName_def)
qed

text \<open>The bytes of a menu of \<^verbatim>\<open>n\<close> rows: what is applied, and what its status adds.\<close>

definition menuBytes :: "ir_Menu \<Rightarrow> string \<Rightarrow> (nat \<Rightarrow> string go_map list) \<Rightarrow> nat \<Rightarrow> nat" where
  "menuBytes m shape rowsOf n =
     length (jsonText (menuObject (objectName shape n) (rowsOf n)))
     + length (jsonText (statusObject (objectName shape n) m (rowsOf n)))"

lemma menuObject_length:
  "length (jsonText (menuObject name rows)) = length (jsonText (menuObject [] [])) + length (jsonEscape name)
     + length (jsonText (JArr (map json_of_record rows))) - 2"
  by (simp add: menuObject_def jsonText_JObj_length jsonString_def del: jsonText.simps(7))

lemma statusObject_length:
  "length (jsonText (statusObject name m rows)) + 4 = length (jsonText (statusObject [] m [])) + length (jsonEscape name)
     + length (jsonText (JArr (map (\<lambda>(i, r). json_of_record (observedRow m i r)) (enumerate 0 rows))))
     + length (jsonText (JArr (map rowStatus [0 ..< length rows])))"
  by (simp add: statusObject_def jsonText_JObj_length jsonString_def del: jsonText.simps(7))

lemma enumerate_closed: "enumerate 0 (map f [0 ..< n]) = map (\<lambda>i. (i, f i)) [0 ..< n]"
  by (simp add: enumerate_eq_zip zip_map2 map2_map_map [symmetric] comp_def zip_same_conv_map)

lemma upt_split: "k \<le> n \<Longrightarrow> [0 ..< n] = [0 ..< k] @ [k ..< n]"
  using upt_add_eq_append [of 0 k "n - k"] by simp

lemma JArr_upt_mono: "k \<le> n \<Longrightarrow> length (jsonText (JArr (map g [0 ..< k]))) \<le> length (jsonText (JArr (map g [0 ..< n])))"
  using JArr_mono [of "map g [0 ..< k]" "map g [k ..< n]"] by (simp only: upt_split [of k n] map_append)

text \<open>A larger menu is never a smaller object.\<close>

lemma menuBytes_mono:
  assumes "list_all plainChar shape" and "\<And>n. rowsOf n = map f [0 ..< n]" and "k \<le> n"
  shows "menuBytes m shape rowsOf k \<le> menuBytes m shape rowsOf n"
proof -
  have name: "length (jsonEscape (objectName shape k)) \<le> length (jsonEscape (objectName shape n))"
    using objectName_plain [OF assms(1), of k] objectName_plain [OF assms(1), of n] show_nat_mono [OF assms(3)]
    by (simp add: jsonString_def)
  have "length (jsonText (menuObject (objectName shape k) (rowsOf k))) \<le> length (jsonText (menuObject (objectName shape n) (rowsOf n)))"
    using name JArr_upt_mono [OF assms(3), of "json_of_record \<circ> f"]
    unfolding menuObject_length [of "objectName shape _"] assms(2) by (simp only: map_map)
  moreover have "length (jsonText (statusObject (objectName shape k) m (rowsOf k))) \<le> length (jsonText (statusObject (objectName shape n) m (rowsOf n)))"
    using name statusObject_length [of "objectName shape k" m "rowsOf k"] statusObject_length [of "objectName shape n" m "rowsOf n"]
      JArr_upt_mono [OF assms(3), of "\<lambda>i. json_of_record (observedRow m i (f i))"] JArr_upt_mono [OF assms(3), of rowStatus]
    unfolding assms(2) enumerate_closed by (simp add: comp_def del: jsonText.simps)
  ultimately show ?thesis by (simp add: menuBytes_def)
qed

section \<open>Any server\<close>

text \<open>A size for which the server stored a menu, and one whose menu it refused with a message.\<close>

definition storedAt :: "'s kube_api \<Rightarrow> ir_Menu \<Rightarrow> string \<Rightarrow> (nat \<Rightarrow> string go_map list) \<Rightarrow> nat \<Rightarrow> bool" where
  "storedAt A m shape rowsOf n \<longleftrightarrow>
     (\<exists>s. fst (fst (attempt A m shape (rowsOf n) n s)) = []) \<or> (\<exists>s. fst (snd (fst (sp_measure A m shape (rowsOf n) n s))) = [])"

definition refusedAt :: "'s kube_api \<Rightarrow> ir_Menu \<Rightarrow> string \<Rightarrow> (nat \<Rightarrow> string go_map list) \<Rightarrow> nat \<Rightarrow> string \<Rightarrow> string \<Rightarrow> bool" where
  "refusedAt A m shape rowsOf n stage msg \<longleftrightarrow>
     stage \<noteq> []
   \<and> ((\<exists>s. fst (attempt A m shape (rowsOf n) n s) = (stage, msg)) \<or> (\<exists>s. snd (fst (sp_measure A m shape (rowsOf n) n s)) = (stage, msg)))"

lemma bisect_evidence:
  assumes "bisect A m shape rowsOf lo hi failedAt refusal s = ((lo', hi', failedAt', refusal'), s')" and "lo < hi"
    and "lo = 0 \<or> storedAt A m shape rowsOf lo" and "refusedAt A m shape rowsOf hi failedAt refusal"
  shows "hi' = lo' + 1 \<and> lo \<le> lo' \<and> hi' \<le> hi \<and> (lo' = 0 \<or> storedAt A m shape rowsOf lo') \<and> refusedAt A m shape rowsOf hi' failedAt' refusal'"
  using assms
proof (induction A m shape rowsOf lo hi failedAt refusal s rule: bisect.induct)
  case (1 A m shape rowsOf lo hi failedAt refusal s)
  show ?case
  proof (cases "1 < hi - lo")
    case False
    then show ?thesis using 1(3,4,5,6) by (auto simp: bisect.simps [of A m shape rowsOf lo hi])
  next
    case True
    let ?mid = "(lo + hi) div 2"
    obtain stage msg s1 where at: "attempt A m shape (rowsOf ?mid) ?mid s = ((stage, msg), s1)"
      by (cases "attempt A m shape (rowsOf ?mid) ?mid s") auto
    show ?thesis
    proof (cases "stage = []")
      case ok: True
      have "storedAt A m shape rowsOf ?mid" unfolding storedAt_def using at ok by (metis fst_conv)
      moreover have "bisect A m shape rowsOf ?mid hi failedAt refusal s1 = ((lo', hi', failedAt', refusal'), s')"
        using 1(3) True at ok by (simp add: bisect.simps [of A m shape rowsOf lo hi])
      ultimately have "hi' = lo' + 1 \<and> ?mid \<le> lo' \<and> hi' \<le> hi \<and> (lo' = 0 \<or> storedAt A m shape rowsOf lo') \<and> refusedAt A m shape rowsOf hi' failedAt' refusal'"
        using True 1(6) by (intro 1(1) [OF True refl at [symmetric] refl ok]) auto
      then show ?thesis using True by auto
    next
      case bad: False
      have "refusedAt A m shape rowsOf ?mid stage msg" unfolding refusedAt_def using at bad by (metis fst_conv)
      moreover have "bisect A m shape rowsOf lo ?mid stage msg s1 = ((lo', hi', failedAt', refusal'), s')"
        using 1(3) True at bad by (simp add: bisect.simps [of A m shape rowsOf lo hi])
      ultimately have "hi' = lo' + 1 \<and> lo \<le> lo' \<and> hi' \<le> ?mid \<and> (lo' = 0 \<or> storedAt A m shape rowsOf lo') \<and> refusedAt A m shape rowsOf hi' failedAt' refusal'"
        using True 1(5) by (intro 1(2) [OF True refl at [symmetric] refl bad]) auto
      then show ?thesis using True by auto
    qed
  qed
qed

lemma ladder_evidence:
  assumes "ladder A m shape rowsOf ns meass lastOK s = ((meass', lastOK', firstFail, failedAt, refusal), s')"
    and "sorted_wrt (<) (lastOK # ns)" and "lastOK = 0 \<or> storedAt A m shape rowsOf lastOK"
  shows "(lastOK' = 0 \<or> storedAt A m shape rowsOf lastOK')
    \<and> (if firstFail = 0 then lastOK' = last (lastOK # ns) else lastOK' < firstFail \<and> refusedAt A m shape rowsOf firstFail failedAt refusal)"
  using assms
proof (induction ns arbitrary: meass lastOK s)
  case (Cons n ns)
  obtain meas stage msg s1 where me: "sp_measure A m shape (rowsOf n) n s = ((meas, stage, msg), s1)"
    by (cases "sp_measure A m shape (rowsOf n) n s") auto
  show ?case
  proof (cases "stage = []")
    case True
    then have "storedAt A m shape rowsOf n" unfolding storedAt_def using me by (metis fst_conv snd_conv)
    then show ?thesis using Cons.IH [of "meass @ [meas]" n s1] Cons.prems True me by simp
  next
    case False
    then have "refusedAt A m shape rowsOf n stage msg" unfolding refusedAt_def using me by (metis fst_conv snd_conv)
    then show ?thesis using Cons.prems False me by auto
  qed
qed simp

text \<open>
  The ceiling the probe reports is what the server answered, whatever the server does. Either
  no rung of the ladder was refused, and the largest of them was stored; or the two sizes it reports are
  neighbours, the server stored a menu of the first, and it refused one of the second at the stage and in
  the words that are reported.
\<close>

theorem ceiling_evidence:
  assumes "ceilingOf A m shape rowsOf s = ((meass, c), s')"
  shows "(MaxRowsOK c = 0 \<or> storedAt A m shape rowsOf (MaxRowsOK c))
    \<and> (if FirstFailureRows c = 0 then MaxRowsOK c = 8000
       else FirstFailureRows c = MaxRowsOK c + 1 \<and> refusedAt A m shape rowsOf (FirstFailureRows c) (FailedAt c) (Refusal c))"
proof -
  obtain ms lastOK firstFail failedAt refusal s1
    where l: "ladder A m shape rowsOf ladderSizes [] 0 s = ((ms, lastOK, firstFail, failedAt, refusal), s1)"
    by (cases "ladder A m shape rowsOf ladderSizes [] 0 s") auto
  have e: "(lastOK = 0 \<or> storedAt A m shape rowsOf lastOK)
    \<and> (if firstFail = 0 then lastOK = 8000 else lastOK < firstFail \<and> refusedAt A m shape rowsOf firstFail failedAt refusal)"
    using ladder_evidence [OF l] by (simp add: ladderSizes_def)
  show ?thesis
  proof (cases "firstFail = 0")
    case True
    then show ?thesis using assms l e by (auto simp: ceilingOf_def)
  next
    case False
    obtain lo hi f r s2 where b: "bisect A m shape rowsOf lastOK firstFail failedAt refusal s1 = ((lo, hi, f, r), s2)"
      by (cases "bisect A m shape rowsOf lastOK firstFail failedAt refusal s1") auto
    from bisect_evidence [OF b] show ?thesis using assms l e False b by (auto simp: ceilingOf_def)
  qed
qed

section \<open>A server with a limit\<close>

text \<open>
  A server that stores a spec and a status under a name, and refuses a write exactly when the two would
  exceed a number of bytes. \<^verbatim>\<open>view\<close> reads what is stored out of its state.
\<close>

definition objectBytes :: "json \<Rightarrow> json option \<Rightarrow> nat" where
  "objectBytes obj st = length (jsonText obj) + (case st of None \<Rightarrow> 0 | Some j \<Rightarrow> length (jsonText j))"

definition statusIn :: "(string \<rightharpoonup> json \<times> json option) \<Rightarrow> string \<Rightarrow> json option" where
  "statusIn v name = (case v name of None \<Rightarrow> None | Some p \<Rightarrow> snd p)"

definition limited :: "'s kube_api \<Rightarrow> ('s \<Rightarrow> string \<rightharpoonup> json \<times> json option) \<Rightarrow> nat \<Rightarrow> bool" where
  "limited A view L \<longleftrightarrow>
     (\<forall>name obj s. if objectBytes obj (statusIn (view s) name) \<le> L
        then fst (apiApply A name obj s) = None \<and> view (snd (apiApply A name obj s)) = (view s)(name \<mapsto> (obj, statusIn (view s) name))
        else fst (apiApply A name obj s) \<noteq> None \<and> view (snd (apiApply A name obj s)) = view s)
   \<and> (\<forall>name st s obj old. view s name = Some (obj, old) \<longrightarrow>
        (if objectBytes obj (Some st) \<le> L
         then fst (apiApplyStatus A name st s) = None \<and> view (snd (apiApplyStatus A name st s)) = (view s)(name \<mapsto> (obj, Some st))
         else fst (apiApplyStatus A name st s) \<noteq> None \<and> view (snd (apiApplyStatus A name st s)) = view s))
   \<and> (\<forall>name s. view s name \<noteq> None \<longrightarrow> (\<exists>j. fst (apiGet A name s) = Inr j) \<and> view (snd (apiGet A name s)) = view s)
   \<and> (\<forall>name s. view (snd (apiDelete A name s)) = (view s)(name := None))"

lemma limitedD:
  assumes "limited A view L"
  shows "objectBytes obj (statusIn (view s) name) \<le> L \<Longrightarrow>
      \<exists>s'. apiApply A name obj s = (None, s') \<and> view s' = (view s)(name \<mapsto> (obj, statusIn (view s) name))"
    and "\<not> objectBytes obj (statusIn (view s) name) \<le> L \<Longrightarrow> \<exists>e s'. apiApply A name obj s = (Some e, s') \<and> view s' = view s"
    and "view s name = Some (obj, old) \<Longrightarrow> objectBytes obj (Some st) \<le> L \<Longrightarrow>
      \<exists>s'. apiApplyStatus A name st s = (None, s') \<and> view s' = (view s)(name \<mapsto> (obj, Some st))"
    and "view s name = Some (obj, old) \<Longrightarrow> \<not> objectBytes obj (Some st) \<le> L \<Longrightarrow>
      \<exists>e s'. apiApplyStatus A name st s = (Some e, s') \<and> view s' = view s"
    and "view s name \<noteq> None \<Longrightarrow> \<exists>j s'. apiGet A name s = (Inr j, s') \<and> view s' = view s"
    and "view (deleteQuietly A name s) = (view s)(name := None)"
proof -
  note l = assms [unfolded limited_def]
  show "objectBytes obj (statusIn (view s) name) \<le> L \<Longrightarrow>
      \<exists>s'. apiApply A name obj s = (None, s') \<and> view s' = (view s)(name \<mapsto> (obj, statusIn (view s) name))"
    using l [THEN conjunct1, rule_format, of obj s name] by (metis prod.collapse)
  show "\<not> objectBytes obj (statusIn (view s) name) \<le> L \<Longrightarrow> \<exists>e s'. apiApply A name obj s = (Some e, s') \<and> view s' = view s"
    using l [THEN conjunct1, rule_format, of obj s name] by (metis prod.collapse not_None_eq)
  show "view s name = Some (obj, old) \<Longrightarrow> objectBytes obj (Some st) \<le> L \<Longrightarrow>
      \<exists>s'. apiApplyStatus A name st s = (None, s') \<and> view s' = (view s)(name \<mapsto> (obj, Some st))"
    using l [THEN conjunct2, THEN conjunct1, rule_format, of s name obj old st] by (metis prod.collapse)
  show "view s name = Some (obj, old) \<Longrightarrow> \<not> objectBytes obj (Some st) \<le> L \<Longrightarrow>
      \<exists>e s'. apiApplyStatus A name st s = (Some e, s') \<and> view s' = view s"
    using l [THEN conjunct2, THEN conjunct1, rule_format, of s name obj old st] by (metis prod.collapse not_None_eq)
  show "view s name \<noteq> None \<Longrightarrow> \<exists>j s'. apiGet A name s = (Inr j, s') \<and> view s' = view s"
    using l [THEN conjunct2, THEN conjunct2, THEN conjunct1, rule_format, of s name] by (metis prod.collapse)
  show "view (deleteQuietly A name s) = (view s)(name := None)"
    using l by (simp add: deleteQuietly_def)
qed

text \<open>The two writes both \<^verbatim>\<open>measure\<close> and \<^verbatim>\<open>attempt\<close> begin with: they go through exactly when the menu fits.\<close>

lemma attemptBody_limited:
  assumes "limited A view L" and "view s (objectName shape n) = None"
  obtains stage msg s2 where "attemptBody A m shape (rowsOf n) n s = ((stage, msg), s2)"
    and "(view s2)(objectName shape n := None) = view s"
    and "stage = [] \<longleftrightarrow> menuBytes m shape rowsOf n \<le> L" and "stage \<noteq> ''one-row-apply''"
    and "stage = [] \<longrightarrow> view s2 (objectName shape n) \<noteq> None"
proof -
  let ?name = "objectName shape n" and ?obj = "menuObject (objectName shape n) (rowsOf n)"
  let ?st = "statusObject (objectName shape n) m (rowsOf n)"
  have none: "statusIn (view s) ?name = None" using assms(2) by (simp add: statusIn_def)
  have undo: "(view s)(?name := None) = view s" using assms(2) by (simp add: fun_upd_idem)
  note defs = attemptBody_def Let_def menuBytes_def objectBytes_def
  show ?thesis
  proof (cases "objectBytes ?obj None \<le> L")
    case False
    then obtain e s1 where "apiApply A ?name ?obj s = (Some e, s1)" "view s1 = view s" using limitedD(2) [OF assms(1)] none by metis
    then show ?thesis using that [of "''spec-apply''" e s1] False undo by (simp add: defs)
  next
    case True
    then obtain s1 where 1: "apiApply A ?name ?obj s = (None, s1)" "view s1 = (view s)(?name \<mapsto> (?obj, None))"
      using limitedD(1) [OF assms(1)] none by metis
    then have at: "view s1 ?name = Some (?obj, None)" by simp
    show ?thesis
    proof (cases "objectBytes ?obj (Some ?st) \<le> L")
      case ok: True
      then obtain s2 where "apiApplyStatus A ?name ?st s1 = (None, s2)" "view s2 = (view s1)(?name \<mapsto> (?obj, Some ?st))"
        using limitedD(3) [OF assms(1) at] by metis
      then show ?thesis using that [of "[]" "[]" s2] 1 ok undo by (simp add: defs)
    next
      case bad: False
      then obtain e s2 where "apiApplyStatus A ?name ?st s1 = (Some e, s2)" "view s2 = view s1"
        using limitedD(4) [OF assms(1) at] by metis
      then show ?thesis using that [of "''status-apply''" e s2] 1 bad undo by (simp add: defs)
    qed
  qed
qed

lemma attempt_limited:
  assumes "limited A view L" and "view s (objectName shape n) = None"
  obtains stage msg s' where "attempt A m shape (rowsOf n) n s = ((stage, msg), s')" and "view s' = view s"
    and "stage = [] \<longleftrightarrow> menuBytes m shape rowsOf n \<le> L" and "stage \<noteq> ''one-row-apply''"
proof -
  obtain stage msg s2 where b: "attemptBody A m shape (rowsOf n) n s = ((stage, msg), s2)" "(view s2)(objectName shape n := None) = view s"
    "stage = [] \<longleftrightarrow> menuBytes m shape rowsOf n \<le> L" "stage \<noteq> ''one-row-apply''"
    by (rule attemptBody_limited [OF assms, where m = m and rowsOf = rowsOf])
  show ?thesis by (rule that [of stage msg "deleteQuietly A (objectName shape n) s2"])
      (use b in \<open>simp_all add: attempt_def limitedD(6) [OF assms(1)]\<close>)
qed

lemma measureBody_refused:
  "attemptBody A m shape rows n s = ((stage, msg), s2) \<Longrightarrow> stage \<noteq> [] \<Longrightarrow> \<exists>meas. measureBody A m shape rows n s = ((meas, stage, msg), s2)"
  by (auto simp: attemptBody_def measureBody_def Let_def split: prod.splits option.splits)

lemma measureBody_continues:
  assumes "attemptBody A m shape rows n s = (([], msg), s2)"
  obtains meas where "measureBody A m shape rows n s =
    (case apiGet A (objectName shape n) s2 of
       (Inl e, s3) \<Rightarrow> ((meas, ''get'', e), s3)
     | (Inr stored, s3) \<Rightarrow>
         (let changed = menuObject (objectName shape n) (editRows n rows);
              meas3 = (readBack stored meas)\<lparr>OneRowChangeRequestBytes := length (jsonText changed)\<rparr>
          in case apiApply A (objectName shape n) changed s3 of
               (Some e, s4) \<Rightarrow> ((meas3, ''one-row-apply'', e), s4)
             | (None, s4) \<Rightarrow> ((meas3, [], []), s4)))"
  using assms that by (auto simp: attemptBody_def measureBody_def Let_def split: prod.splits option.splits)

lemma measure_limited:
  assumes "limited A view L" and "view s (objectName shape n) = None"
  obtains meas stage msg s' where "sp_measure A m shape (rowsOf n) n s = ((meas, stage, msg), s')" and "view s' = view s"
    and "stage = [] \<longrightarrow> menuBytes m shape rowsOf n \<le> L"
    and "stage \<noteq> [] \<longrightarrow> stage \<noteq> ''one-row-apply'' \<longrightarrow> \<not> menuBytes m shape rowsOf n \<le> L"
proof -
  let ?name = "objectName shape n"
  obtain stage msg s2 where b: "attemptBody A m shape (rowsOf n) n s = ((stage, msg), s2)" "(view s2)(?name := None) = view s"
    "stage = [] \<longleftrightarrow> menuBytes m shape rowsOf n \<le> L" "stage \<noteq> ''one-row-apply''" "stage = [] \<longrightarrow> view s2 ?name \<noteq> None"
    by (rule attemptBody_limited [OF assms, where m = m and rowsOf = rowsOf])
  note del = limitedD(6) [OF assms(1)]
  show ?thesis
  proof (cases "stage = []")
    case False
    then obtain meas where "measureBody A m shape (rowsOf n) n s = ((meas, stage, msg), s2)" using measureBody_refused [OF b(1)] by blast
    then show ?thesis using that [of meas stage msg "deleteQuietly A ?name s2"] b False by (simp add: sp_measure_def del)
  next
    case True
    obtain stored s3 where g: "apiGet A ?name s2 = (Inr stored, s3)" "view s3 = view s2" using limitedD(5) [OF assms(1)] b(5) True by metis
    let ?changed = "menuObject ?name (editRows n (rowsOf n))"
    obtain meas where me: "measureBody A m shape (rowsOf n) n s =
        (let meas3 = (readBack stored meas)\<lparr>OneRowChangeRequestBytes := length (jsonText ?changed)\<rparr>
         in case apiApply A ?name ?changed s3 of (Some e, s4) \<Rightarrow> ((meas3, ''one-row-apply'', e), s4) | (None, s4) \<Rightarrow> ((meas3, [], []), s4))"
      using measureBody_continues [of A m shape "rowsOf n" n s msg s2] b(1) True g(1) by (auto simp: Let_def)
    obtain r s4 where a: "apiApply A ?name ?changed s3 = (r, s4)" "(view s4)(?name := None) = (view s3)(?name := None)"
      using limitedD(1,2) [OF assms(1), where obj = ?changed and s = s3 and name = ?name] by (metis fun_upd_upd)
    show ?thesis
      using that [of _ _ _ "deleteQuietly A ?name s4"] a g(2) b True me
      by (cases r) (auto simp: sp_measure_def del Let_def)
  qed
qed

text \<open>On such a server the probe changes nothing, and the rungs below the reported sizes fit or do not fit as reported.\<close>

lemma ladder_limited:
  assumes "limited A view L" and "\<And>n. view s (objectName shape n) = None"
    and "ladder A m shape rowsOf ns meass lastOK s = ((meass', lastOK', firstFail, failedAt, refusal), s')"
    and "lastOK = 0 \<or> menuBytes m shape rowsOf lastOK \<le> L" and "0 \<notin> set ns"
  shows "view s' = view s \<and> (lastOK' = 0 \<or> menuBytes m shape rowsOf lastOK' \<le> L)
    \<and> (firstFail \<noteq> 0 \<longrightarrow> failedAt \<noteq> ''one-row-apply'' \<longrightarrow> \<not> menuBytes m shape rowsOf firstFail \<le> L)"
  using assms(2-5)
proof (induction ns arbitrary: meass lastOK s)
  case (Cons n ns)
  obtain meas stage msg s1 where me: "sp_measure A m shape (rowsOf n) n s = ((meas, stage, msg), s1)" "view s1 = view s"
    "stage = [] \<longrightarrow> menuBytes m shape rowsOf n \<le> L"
    "stage \<noteq> [] \<longrightarrow> stage \<noteq> ''one-row-apply'' \<longrightarrow> \<not> menuBytes m shape rowsOf n \<le> L"
    by (rule measure_limited [OF assms(1) Cons.prems(1) [of n], where m = m and rowsOf = rowsOf])
  show ?case
  proof (cases "stage = []")
    case True
    then show ?thesis using Cons.IH [of s1 "meass @ [meas]" n] Cons.prems me by auto
  next
    case False
    then show ?thesis using Cons.prems me by auto
  qed
qed simp

lemma bisect_limited:
  assumes "limited A view L" and "\<And>n. view s (objectName shape n) = None"
    and "bisect A m shape rowsOf lo hi failedAt refusal s = ((lo', hi', failedAt', refusal'), s')"
    and "lo = 0 \<or> menuBytes m shape rowsOf lo \<le> L" and "failedAt \<noteq> ''one-row-apply'' \<Longrightarrow> \<not> menuBytes m shape rowsOf hi \<le> L"
  shows "view s' = view s \<and> (lo' = 0 \<or> menuBytes m shape rowsOf lo' \<le> L)
    \<and> (failedAt' \<noteq> ''one-row-apply'' \<longrightarrow> \<not> menuBytes m shape rowsOf hi' \<le> L)"
  using assms
proof (induction A m shape rowsOf lo hi failedAt refusal s rule: bisect.induct)
  case (1 A m shape rowsOf lo hi failedAt refusal s)
  show ?case
  proof (cases "1 < hi - lo")
    case False
    then show ?thesis using 1(5,6,7) by (auto simp: bisect.simps [of A m shape rowsOf lo hi])
  next
    case True
    let ?mid = "(lo + hi) div 2"
    obtain stage msg s1 where at: "attempt A m shape (rowsOf ?mid) ?mid s = ((stage, msg), s1)" "view s1 = view s"
      "stage = [] \<longleftrightarrow> menuBytes m shape rowsOf ?mid \<le> L" "stage \<noteq> ''one-row-apply''"
      by (rule attempt_limited [OF 1(3) 1(4) [of ?mid], where m = m and rowsOf = rowsOf])
    have free: "view s1 (objectName shape n) = None" for n using 1(4) at(2) by simp
    have step: "bisect A m shape rowsOf lo hi failedAt refusal s =
      (if stage = [] then bisect A m shape rowsOf ?mid hi failedAt refusal s1 else bisect A m shape rowsOf lo ?mid stage msg s1)"
      using True at(1) by (simp add: bisect.simps [of A m shape rowsOf lo hi])
    show ?thesis
    proof (cases "stage = []")
      case ok: True
      then show ?thesis
        using 1(1) [OF True refl at(1) [symmetric] refl ok 1(3) free _ _ 1(7)] 1(5) step at(2,3) by simp
    next
      case bad: False
      then show ?thesis
        using 1(2) [OF True refl at(1) [symmetric] refl bad 1(3) free _ 1(6)] 1(5) step at(2,3) by simp
    qed
  qed
qed


text \<open>A server that stores objects of up to a number of bytes.\<close>

definition exServer :: "nat \<Rightarrow> (string \<rightharpoonup> json \<times> json option) kube_api" where
  "exServer L =
     \<lparr>apiApply = (\<lambda>name obj s. if objectBytes obj (statusIn s name) \<le> L then (None, s(name \<mapsto> (obj, statusIn s name)))
                               else (Some ''request is too large'', s)),
      apiApplyStatus = (\<lambda>name st s. case s name of None \<Rightarrow> (Some ''not found'', s)
        | Some (obj, old) \<Rightarrow> if objectBytes obj (Some st) \<le> L then (None, s(name \<mapsto> (obj, Some st))) else (Some ''request is too large'', s)),
      apiGet = (\<lambda>name s. (case s name of None \<Rightarrow> Inl ''not found'' | Some (obj, st) \<Rightarrow> Inr obj, s)),
      apiDelete = (\<lambda>name s. (None, s(name := None)))\<rparr>"

lemma exServer_limited: "limited (exServer L) (\<lambda>s. s) L"
  by (auto simp: limited_def exServer_def split: option.splits)

definition exCeiling :: "ir_Menu \<Rightarrow> (Measurement list \<times> Ceiling) \<times> (string \<rightharpoonup> json \<times> json option)" where
  "exCeiling m = ceilingOf (exServer 0) m ''typical'' typicalRows Map.empty"


end
