(* ===== verification/Uniq_Probe.thy ===== *)
theory Uniq_Probe
  imports Rest_Record
begin

text \<open>
  src/hack/uniqprobe: the older probe for uniqueness, which takes its menus from the resources of the
  upstream Terraform provider. Per resource it creates a row with a throwaway name, tries to create a
  second one, and reads a verdict from the reply; what it created is deleted when it is done.

  The upstream resources are an argument, with the two keys their schemas keep their path and kind of
  identity under. A request answers with a status, a text and the JSON that text decodes to, or it
  fails. Text is taken to be ASCII where it is trimmed and lowered.
\<close>

section \<open>Resources\<close>

datatype uq_type = TypeString | TypeInt | TypeBool | TypeList | TypeSet | TypeOther

datatype uq_default = DefaultString string | DefaultInt int | NoDefault

record uq_Schema =
  uqType :: uq_type
  uqRequired :: bool
  uqDefault :: uq_default

type_synonym uq_Resource = "uq_Schema go_map"

record upstream =
  MetaResourcePath :: string
  MetaId :: string
  IdKind :: int
  ResourcesMap :: "uq_Resource go_map"

section \<open>Requests\<close>

datatype uq_reply = RequestFailed string | Answer int string "json option"

type_synonym 'd uq_rest = "string \<Rightarrow> string \<Rightarrow> json option \<Rightarrow> 'd \<Rightarrow> uq_reply \<times> 'd"

definition isSpace :: "char \<Rightarrow> bool" where
  "isSpace c \<longleftrightarrow> of_char c \<in> {9, 10, 11, 12, 13, 32 :: nat}"

definition toLowerChar :: "char \<Rightarrow> char" where
  "toLowerChar c = (let n = (of_char c :: nat) in if 65 \<le> n \<and> n \<le> 90 then char_of (n + 32) else c)"

definition uq_trim :: "string \<Rightarrow> string" where
  "uq_trim s = take 160 (rev (dropWhile isSpace (rev (dropWhile isSpace s))))"

definition itemID :: "json option \<Rightarrow> string" where
  "itemID data = (case data of Some (JObj kvs) \<Rightarrow> (case map_of (rev kvs) ''.id'' of Some (JStr i) \<Rightarrow> i | _ \<Rightarrow> []) | _ \<Rightarrow> [])"

definition kebab :: "string \<Rightarrow> string" where
  "kebab s = map (\<lambda>c. if c = CHR ''_'' then CHR ''-'' else c) s"

section \<open>Bodies\<close>

definition uq_synthesize :: "string \<Rightarrow> uq_Schema \<Rightarrow> bool \<Rightarrow> string option" where
  "uq_synthesize field s second =
     (if field \<in> set [''interface'', ''master_interface'', ''interfaces''] then Some ''ether2''
      else if field \<in> set [''vlan_id'', ''vlan_ids''] then Some (if second then ''43'' else ''42'')
      else if field \<in> set [''address'', ''local_address''] then Some (if second then ''192.0.2.9/30'' else ''192.0.2.1/30'')
      else if field = ''remote_address'' then Some (if second then ''192.0.2.10'' else ''192.0.2.2'')
      else if field = ''ranges'' then Some (if second then ''198.51.100.65-198.51.100.94'' else ''198.51.100.1-198.51.100.30'')
      else if field = ''connect_to'' then Some ''192.0.2.100''
      else if field \<in> set [''user'', ''password''] then Some (if second then ''uqpcred2'' else ''uqpcred'')
      else if field = ''code'' then Some (if second then ''201'' else ''200'')
      else if field = ''type'' then Some ''A''
      else if field = ''public_key''
      then Some (if second then ''l3TFRRilOUdSDVcCTVCSj+d7SZ64pnkwJQliMWWi9Wc='' else ''iAey5+1xVYYQMbXzHkqIhK1w6xOl40dqZI95BAgFXQE='')
      else if field = ''source'' \<or> field = ''on_event'' then Some '':put 1''
      else (case uqType s of
              TypeString \<Rightarrow> Some ''uqpval''
            | TypeInt \<Rightarrow> Some (if second then ''8082'' else ''8081'')
            | TypeBool \<Rightarrow> Some ''yes''
            | TypeList \<Rightarrow> Some ''uqpval''
            | TypeSet \<Rightarrow> Some ''uqpval''
            | TypeOther \<Rightarrow> None))"

definition injectedName :: "string list" where
  "injectedName = [''routeros_dhcp_client'', ''routeros_ip_dhcp_client'']"

definition uq_overrides :: "(string \<times> (string \<times> string \<times> string) list) list" where
  "uq_overrides =
     [(''routeros_system_user'', [(''group'', ''read'', ''read''), (''password'', ''uqp-pw-1'', ''uqp-pw-2'')]),
      (''routeros_wireguard_peer'', [(''interface'', ''uqp-fix-wg'', ''uqp-fix-wg''), (''allowed_address'', ''192.0.2.0/30'', ''192.0.2.4/30'')]),
      (''routeros_interface_wireguard_peer'', [(''interface'', ''uqp-fix-wg'', ''uqp-fix-wg''), (''allowed_address'', ''192.0.2.0/30'', ''192.0.2.4/30'')]),
      (''routeros_interface_vxlan'', [(''vni'', ''1001'', ''1002''), (''group'', ''239.1.1.1'', ''239.1.1.2''), (''interface'', ''ether2'', ''ether2''), (''mtu'', ''1450'', ''1450'')]),
      (''routeros_interface_bonding'', [(''slaves'', ''ether2'', ''ether3'')]),
      (''routeros_ipv6_pool'', [(''prefix'', ''2001:db8:1::/48'', ''2001:db8:2::/48''), (''prefix_length'', ''64'', ''64'')]),
      (''routeros_queue_simple'', [(''target'', ''192.0.2.0/30'', ''192.0.2.4/30'')]),
      (''routeros_queue_tree'', [(''parent'', ''global'', ''global'')]),
      (''routeros_queue_type'', [(''kind'', ''pfifo'', ''pfifo'')]),
      (''routeros_tool_netwatch'', [(''host'', ''192.0.2.1'', ''192.0.2.2'')]),
      (''routeros_dns_record'', [(''address'', ''192.0.2.1'', ''192.0.2.2'')]),
      (''routeros_ip_dns_record'', [(''address'', ''192.0.2.1'', ''192.0.2.2'')]),
      (''routeros_ip_dhcp_relay'', [(''interface'', ''ether2'', ''ether3''), (''dhcp_server'', ''192.0.2.5'', ''192.0.2.6'')]),
      (''routeros_interface_eoip'', [(''interface'', '''', ''''), (''tunnel_id'', ''33'', ''34'')]),
      (''routeros_routing_bgp_connection'', [(''as'', ''65001'', ''65002''), (''instance'', ''uqp-fix-bgpi'', ''uqp-fix-bgpi''), (''local.role'', ''ibgp'', ''ibgp''), (''listen'', ''yes'', ''yes'')]),
      (''routeros_routing_bgp_template'', [(''as'', ''65001'', ''65002'')]),
      (''routeros_routing_bgp_evpn'', [(''instance'', ''uqp-fix-bgpi'', ''uqp-fix-bgpi'')]),
      (''routeros_dhcp_client'', [(''interface'', ''ether2'', ''ether3'')]),
      (''routeros_ip_dhcp_client'', [(''interface'', ''ether2'', ''ether3'')]),
      (''routeros_interface_pppoe_server'', [(''service'', ''uqp-fix-pppoe'', ''uqp-fix-pppoe''), (''interface'', '''', '''')]),
      (''routeros_ip_dhcp_server_option'', [(''value'', ''0x01'', ''0x02'')]),
      (''routeros_ip_dhcp_server_option_matcher'', [(''server'', ''all'', ''all''), (''code'', ''200'', ''201''), (''value'', ''abc'', ''abd''), (''matching_type'', ''exact'', ''exact'')]),
      (''routeros_ip_dhcp_server_option_set'', [(''options'', ''uqp-fix-opt'', ''uqp-fix-opt'')]),
      (''routeros_ip_dhcp_server_option_sets'', [(''options'', ''uqp-fix-opt'', ''uqp-fix-opt'')]),
      (''routeros_ipv6_dhcp_server_option_sets'', [(''options'', ''uqp-fix-v6opt'', ''uqp-fix-v6opt'')]),
      (''routeros_ip_dns_forwarders'', [(''dns_servers'', ''192.0.2.53'', ''192.0.2.54'')]),
      (''routeros_routing_bgp_vpn'', [(''vrf'', ''uqp-fix-vrf'', ''uqp-fix-vrf''), (''instance'', ''uqp-fix-bgpi'', ''uqp-fix-bgpi''), (''route_distinguisher'', ''65000:1'', ''65000:2''), (''label_allocation_policy'', ''per-vrf'', ''per-vrf'')]),
      (''routeros_routing_ospf_area'', [(''instance'', ''uqp-fix-ospfi'', ''uqp-fix-ospfi''), (''area_id'', ''0.0.0.1'', ''0.0.0.2'')]),
      (''routeros_system_logging_action'', [(''name'', ''uqpprobe'', ''uqpprobe''), (''target'', ''memory'', ''memory'')])]"

definition alwaysSend :: "string list" where
  "alwaysSend = [''remote_address'', ''connect_to'', ''apn'', ''user'', ''interface'', ''vlan_id'', ''code'']"

definition bodyField :: "bool \<Rightarrow> uq_Resource \<Rightarrow> string \<Rightarrow> string go_map \<Rightarrow> string go_map" where
  "bodyField second r f body =
     (case fmlookup r f of
        None \<Rightarrow> body
      | Some s \<Rightarrow>
          if f = ''name'' \<or> (\<not> uqRequired s \<and> f \<notin> set alwaysSend) then body
          else (case uq_synthesize f s second of None \<Rightarrow> body | Some v \<Rightarrow> fmupd (kebab f) v body))"

definition overrideField :: "bool \<Rightarrow> string \<times> string \<times> string \<Rightarrow> string go_map \<Rightarrow> string go_map" where
  "overrideField second p body =
     (case p of (f, v1, v2) \<Rightarrow>
        let v = (if second then v2 else v1) in if v = [] then fmdrop (kebab f) body else fmupd (kebab f) v body)"

definition mkBody :: "string \<Rightarrow> uq_Resource \<Rightarrow> bool \<Rightarrow> string go_map" where
  "mkBody name r second =
     fold (overrideField second) (case map_of uq_overrides name of None \<Rightarrow> [] | Some ps \<Rightarrow> ps)
       (fold (bodyField second r) (sorted_keys r) (fmupd ''name'' ''uqp-probe'' fmempty))"

section \<open>The probe\<close>

record uq_verdict =
  uvResource :: string
  uvPath :: string
  uvVerdict :: string
  uvDetail :: string

definition mkVerdict :: "string \<Rightarrow> string \<Rightarrow> string \<Rightarrow> string \<Rightarrow> uq_verdict" where
  "mkVerdict name path v detail = \<lparr>uvResource = name, uvPath = path, uvVerdict = v, uvDetail = detail\<rparr>"

text \<open>The resources that are not tested, with the reason; the path of the others.\<close>

definition eligible :: "upstream \<Rightarrow> string \<Rightarrow> uq_Resource \<Rightarrow> uq_verdict + string" where
  "eligible U name r =
     (case fmlookup r (MetaResourcePath U) of
        None \<Rightarrow> Inl (mkVerdict name [] ''UNTESTED'' ''no ___path___ meta'')
      | Some pathS \<Rightarrow>
          (let path = (case uqDefault pathS of DefaultString p \<Rightarrow> p | _ \<Rightarrow> [])
           in case fmlookup r (MetaId U) of
                None \<Rightarrow> Inl (mkVerdict name path ''UNTESTED'' ''no ___id___ meta'')
              | Some idS \<Rightarrow>
                  if (case uqDefault idS of DefaultInt k \<Rightarrow> k | _ \<Rightarrow> 0) \<noteq> IdKind U
                  then Inl (mkVerdict name path ''SKIP'' ''already Name-identified upstream'')
                  else if fmlookup r ''name'' = None \<and> name \<notin> set injectedName
                  then Inl (mkVerdict name path ''SKIP'' ''no name field'')
                  else Inr path))"

definition refusalVerdict :: "string \<Rightarrow> string \<Rightarrow> int \<Rightarrow> string \<Rightarrow> uq_verdict" where
  "refusalVerdict name path code text =
     (let msg = map toLowerChar (uq_trim text)
      in if Contains msg ''name'' \<or> Contains msg ''already'' \<or> Contains msg ''exists'' \<or> Contains msg ''unique''
         then mkVerdict name path ''UNIQUE'' (uq_trim text)
         else mkVerdict name path ''AMBIGUOUS'' (FormatInt code @ '' '' @ uq_trim text))"

text \<open>The two creates: the verdict, and the ids of what was created.\<close>

definition idsOf :: "json option \<Rightarrow> string list" where
  "idsOf data = (if itemID data \<noteq> [] then [itemID data] else [])"

definition twoCreates :: "'d uq_rest \<Rightarrow> string \<Rightarrow> uq_Resource \<Rightarrow> string \<Rightarrow> 'd \<Rightarrow> (uq_verdict \<times> string list) \<times> 'd" where
  "twoCreates rest name r path d =
     (case rest ''PUT'' path (Some (json_of_record (mkBody name r False))) d of
        (RequestFailed e, d1) \<Rightarrow> ((mkVerdict name path ''UNTESTED'' e, []), d1)
      | (Answer code1 text1 data1, d1) \<Rightarrow>
          if 300 \<le> code1
          then ((mkVerdict name path ''UNTESTED'' (''first create: '' @ FormatInt code1 @ '' '' @ uq_trim text1), []), d1)
          else
            (let created = idsOf data1
             in case rest ''PUT'' path (Some (json_of_record (mkBody name r True))) d1 of
                  (RequestFailed e, d2) \<Rightarrow> ((mkVerdict name path ''AMBIGUOUS'' e, created), d2)
                | (Answer code2 text2 data2, d2) \<Rightarrow>
                    if code2 < 300 then ((mkVerdict name path ''DUPLICATE'' [], created @ idsOf data2), d2)
                    else ((refusalVerdict name path code2 text2, created), d2)))"

fun deleteAll :: "'d uq_rest \<Rightarrow> string \<Rightarrow> string list \<Rightarrow> 'd \<Rightarrow> 'd" where
  "deleteAll rest path [] d = d"
| "deleteAll rest path (i # ids) d = deleteAll rest path ids (snd (rest ''DELETE'' (path @ ''/'' @ i) None d))"

definition uq_probe :: "'d uq_rest \<Rightarrow> upstream \<Rightarrow> string \<Rightarrow> uq_Resource \<Rightarrow> 'd \<Rightarrow> uq_verdict \<times> 'd" where
  "uq_probe rest U name r d =
     (case eligible U name r of
        Inl v \<Rightarrow> (v, d)
      | Inr path \<Rightarrow> (case twoCreates rest name r path d of ((v, created), d') \<Rightarrow> (v, deleteAll rest path created d')))"

section \<open>The run\<close>

record fixture =
  fxPath :: string
  fxField :: string
  fxName :: string
  fxBody :: "(string \<times> string) list"

definition fixtures :: "fixture list" where
  "fixtures =
     [\<lparr>fxPath = ''/interface/bridge'', fxField = ''name'', fxName = ''uqp-fix-bridge'', fxBody = [(''name'', ''uqp-fix-bridge'')]\<rparr>,
      \<lparr>fxPath = ''/interface/wireguard'', fxField = ''name'', fxName = ''uqp-fix-wg'', fxBody = [(''name'', ''uqp-fix-wg'')]\<rparr>,
      \<lparr>fxPath = ''/routing/bgp/instance'', fxField = ''name'', fxName = ''uqp-fix-bgpi'', fxBody = [(''name'', ''uqp-fix-bgpi''), (''as'', ''65000'')]\<rparr>,
      \<lparr>fxPath = ''/routing/ospf/instance'', fxField = ''name'', fxName = ''uqp-fix-ospfi'', fxBody = [(''name'', ''uqp-fix-ospfi'')]\<rparr>,
      \<lparr>fxPath = ''/ip/vrf'', fxField = ''name'', fxName = ''uqp-fix-vrf'', fxBody = [(''name'', ''uqp-fix-vrf''), (''interfaces'', ''ether3'')]\<rparr>,
      \<lparr>fxPath = ''/ip/dhcp-server/option'', fxField = ''name'', fxName = ''uqp-fix-opt'',
       fxBody = [(''name'', ''uqp-fix-opt''), (''code'', ''200''), (''value'', ''0x01'')]\<rparr>,
      \<lparr>fxPath = ''/ipv6/dhcp-server/option'', fxField = ''name'', fxName = ''uqp-fix-v6opt'',
       fxBody = [(''name'', ''uqp-fix-v6opt''), (''code'', ''200''), (''value'', ''0x01'')]\<rparr>,
      \<lparr>fxPath = ''/interface/pppoe-server/server'', fxField = ''service-name'', fxName = ''uqp-fix-pppoe'',
       fxBody = [(''service-name'', ''uqp-fix-pppoe''), (''interface'', ''ether2''), (''disabled'', ''yes'')]\<rparr>]"

fun createFixtures :: "'d uq_rest \<Rightarrow> fixture list \<Rightarrow> 'd \<Rightarrow> 'd" where
  "createFixtures rest [] d = d"
| "createFixtures rest (x # xs) d =
     createFixtures rest xs (snd (rest ''PUT'' (fxPath x) (Some (json_of_record (fmap_of_list (fxBody x)))) d))"

text \<open>The items a list decodes to, and the id of each that has one; a list with anything but objects does not decode.\<close>

fun itemIds :: "json option \<Rightarrow> string list" where
  "itemIds (Some (JArr js)) =
     (if list_all (\<lambda>j. case j of JObj _ \<Rightarrow> True | JNull \<Rightarrow> True | _ \<Rightarrow> False) js
      then List.map_filter (\<lambda>j. case j of JObj kvs \<Rightarrow> (case map_of (rev kvs) ''.id'' of Some (JStr i) \<Rightarrow> Some i | _ \<Rightarrow> None) | _ \<Rightarrow> None) js
      else [])"
| "itemIds _ = []"

definition cleanupFixtureBy :: "'d uq_rest \<Rightarrow> fixture \<Rightarrow> 'd \<Rightarrow> 'd" where
  "cleanupFixtureBy rest x d =
     (case rest ''GET'' (fxPath x @ ''?'' @ fxField x @ ''='' @ fxName x) None d of
        (RequestFailed e, d') \<Rightarrow> d'
      | (Answer code text data, d') \<Rightarrow> deleteAll rest (fxPath x) (itemIds data) d')"

fun probeAllResources :: "'d uq_rest \<Rightarrow> upstream \<Rightarrow> string list \<Rightarrow> 'd \<Rightarrow> uq_verdict list \<times> 'd" where
  "probeAllResources rest U [] d = ([], d)"
| "probeAllResources rest U (n # ns) d =
     (case uq_probe rest U n (case fmlookup (ResourcesMap U) n of None \<Rightarrow> fmempty | Some r \<Rightarrow> r) d of
        (v, d1) \<Rightarrow>
          (case probeAllResources rest U ns d1 of
             (vs, d2) \<Rightarrow> (if uvVerdict v = ''SKIP'' then vs else v # vs, d2)))"

text \<open>\<^verbatim>\<open>main\<close>: the deferred cleanups run in the reverse order.\<close>

definition uniqprobe :: "'d uq_rest \<Rightarrow> upstream \<Rightarrow> 'd \<Rightarrow> uq_verdict list \<times> 'd" where
  "uniqprobe rest U d =
     (case probeAllResources rest U (sorted_keys (ResourcesMap U)) (createFixtures rest fixtures d) of
        (vs, d') \<Rightarrow> (vs, fold (cleanupFixtureBy rest) (rev fixtures) d'))"

section \<open>What is deleted\<close>

text \<open>A transport that keeps the requests it was given, with their replies.\<close>

type_synonym uq_log = "(string \<times> string \<times> uq_reply) list"

definition recorded :: "'d uq_rest \<Rightarrow> ('d \<times> uq_log) uq_rest" where
  "recorded rest meth path body s =
     (case rest meth path body (fst s) of (r, d') \<Rightarrow> (r, (d', snd s @ [(meth, path, r)])))"

text \<open>The ids a reply to a create names, and those a reply to the query for a fixture lists.\<close>

definition createdIds :: "uq_reply \<Rightarrow> string list" where
  "createdIds r = (case r of Answer code text data \<Rightarrow> if code < 300 then idsOf data else [] | RequestFailed e \<Rightarrow> [])"

definition listedIds :: "uq_reply \<Rightarrow> string list" where
  "listedIds r = (case r of Answer code text data \<Rightarrow> itemIds data | RequestFailed e \<Rightarrow> [])"

definition fixtureQuery :: "fixture \<Rightarrow> string" where
  "fixtureQuery x = fxPath x @ ''?'' @ fxField x @ ''='' @ fxName x"

definition vouched :: "uq_log \<Rightarrow> string \<Rightarrow> bool" where
  "vouched log p \<longleftrightarrow>
     (\<exists>path i r. p = path @ ''/'' @ i \<and> (''PUT'', path, r) \<in> set log \<and> i \<in> set (createdIds r))
   \<or> (\<exists>x i r. x \<in> set fixtures \<and> p = fxPath x @ ''/'' @ i \<and> (''GET'', fixtureQuery x, r) \<in> set log \<and> i \<in> set (listedIds r))"

text \<open>A log in which every deletion was vouched for by a reply before it.\<close>

inductive justified :: "uq_log \<Rightarrow> bool" where
  justified_Nil: "justified []"
| justified_other: "justified log \<Longrightarrow> meth \<noteq> ''DELETE'' \<Longrightarrow> justified (log @ [(meth, p, r)])"
| justified_delete: "justified log \<Longrightarrow> vouched log p \<Longrightarrow> justified (log @ [(''DELETE'', p, r)])"

lemma vouched_mono: "vouched log p \<Longrightarrow> set log \<subseteq> set log' \<Longrightarrow> vouched log' p"
  unfolding vouched_def by blast

lemma deleteAll_log:
  assumes "justified (snd s)" and "\<And>i. i \<in> set ids \<Longrightarrow> vouched (snd s) (path @ ''/'' @ i)"
  shows "justified (snd (deleteAll (recorded rest) path ids s)) \<and> set (snd s) \<subseteq> set (snd (deleteAll (recorded rest) path ids s))"
  using assms
proof (induction ids arbitrary: s)
  case (Cons i ids)
  let ?s = "snd (recorded rest ''DELETE'' (path @ ''/'' @ i) None s)"
  obtain r d' where r: "rest ''DELETE'' (path @ ''/'' @ i) None (fst s) = (r, d')" by (rule prod.exhaust)
  then have log: "snd ?s = snd s @ [(''DELETE'', path @ ''/'' @ i, r)]" by (simp add: recorded_def)
  have "justified (snd ?s)" unfolding log by (rule justified_delete) (use Cons.prems in auto)
  moreover have "vouched (snd ?s) (path @ ''/'' @ j)" if "j \<in> set ids" for j
    using vouched_mono [of "snd s" _ "snd ?s"] Cons.prems(2) [of j] that log by auto
  ultimately show ?case using Cons.IH [of ?s] log by auto
qed simp

lemma request_log:
  assumes "justified (snd s)" and "meth \<noteq> ''DELETE''" and "recorded rest meth path body s = (r, s')"
  shows "justified (snd s')" and "set (snd s) \<subseteq> set (snd s')" and "(meth, path, r) \<in> set (snd s')"
  using assms by (auto simp: recorded_def intro: justified_other split: prod.splits)

lemma twoCreates_log:
  assumes "justified (snd s)" and "twoCreates (recorded rest) name r path s = ((v, created), s')"
  shows "justified (snd s') \<and> (\<forall>i \<in> set created. vouched (snd s') (path @ ''/'' @ i))"
proof -
  obtain r1 s1 where 1: "recorded rest ''PUT'' path (Some (json_of_record (mkBody name r False))) s = (r1, s1)" by (rule prod.exhaust)
  obtain r2 s2 where 2: "recorded rest ''PUT'' path (Some (json_of_record (mkBody name r True))) s1 = (r2, s2)" by (rule prod.exhaust)
  note l1 = request_log [OF assms(1) _ 1, simplified]
  note l2 = request_log [OF l1(1) _ 2, simplified]
  have v1: "vouched (snd s2) (path @ ''/'' @ i)" if "i \<in> set (createdIds r1)" for i using l1(3) l2(2) that by (auto simp: vouched_def)
  have v2: "vouched (snd s2) (path @ ''/'' @ i)" if "i \<in> set (createdIds r2)" for i using l2(3) that by (auto simp: vouched_def)
  have "s' = s1 \<and> created = [] \<or> s' = s2 \<and> set created \<subseteq> set (createdIds r1) \<union> set (createdIds r2)"
    using assms(2) 1 2 by (auto simp: twoCreates_def createdIds_def Let_def split: uq_reply.splits if_splits)
  then show ?thesis using l1(1) l2(1) v1 v2 by auto
qed

lemma uq_probe_log:
  assumes "justified (snd s)"
  shows "justified (snd (snd (uq_probe (recorded rest) U name r s)))"
proof (cases "eligible U name r")
  case (Inr path)
  obtain v created s' where t: "twoCreates (recorded rest) name r path s = ((v, created), s')"
    by (cases "twoCreates (recorded rest) name r path s") auto
  then show ?thesis using Inr twoCreates_log [OF assms t] deleteAll_log [of s' created path rest] by (simp add: uq_probe_def)
qed (simp add: uq_probe_def assms)

lemma probeAllResources_log:
  "justified (snd s) \<Longrightarrow> justified (snd (snd (probeAllResources (recorded rest) U ns s)))"
proof (induction ns arbitrary: s)
  case (Cons n ns)
  let ?r = "case fmlookup (ResourcesMap U) n of None \<Rightarrow> fmempty | Some r \<Rightarrow> r"
  obtain v s1 where p: "uq_probe (recorded rest) U n ?r s = (v, s1)" by (rule prod.exhaust)
  have "justified (snd s1)" using uq_probe_log [OF Cons.prems, of rest U n ?r] p by simp
  from Cons.IH [OF this] show ?case using p by (auto split: prod.splits)
qed simp

lemma createFixtures_log: "justified (snd s) \<Longrightarrow> justified (snd (createFixtures (recorded rest) xs s))"
proof (induction xs arbitrary: s)
  case (Cons x xs)
  then show ?case
    using request_log(1) [OF Cons.prems, of "''PUT''" rest "fxPath x" "Some (json_of_record (fmap_of_list (fxBody x)))"]
    by (simp add: prod_eq_iff)
qed simp

lemma cleanup_log:
  assumes "justified (snd s)" and "x \<in> set fixtures"
  shows "justified (snd (cleanupFixtureBy (recorded rest) x s))"
proof -
  obtain r s1 where g: "recorded rest ''GET'' (fixtureQuery x) None s = (r, s1)" by (rule prod.exhaust)
  note l = request_log [OF assms(1) _ g, simplified]
  have "vouched (snd s1) (fxPath x @ ''/'' @ i)" if "i \<in> set (listedIds r)" for i
    using l(3) that assms(2) unfolding vouched_def by blast
  then show ?thesis using g l(1) deleteAll_log [of s1 "listedIds r" "fxPath x" rest]
    by (auto simp: cleanupFixtureBy_def fixtureQuery_def listedIds_def split: uq_reply.splits)
qed

lemma cleanups_log:
  "justified (snd s) \<Longrightarrow> set xs \<subseteq> set fixtures \<Longrightarrow> justified (snd (fold (cleanupFixtureBy (recorded rest)) xs s))"
proof (induction xs arbitrary: s)
  case (Cons x xs)
  then show ?case using cleanup_log [OF Cons.prems(1), of x rest] by simp
qed simp

text \<open>
  C39: whatever the router answers, the probe deletes nothing but its own. Every deletion of a
  complete run goes to an item that a create of the run was answered with, in the menu it was created in,
  or that the router listed when it was asked for a fixture by its name.
\<close>

theorem uniqprobe_deletes_own:
  "justified (snd (snd (uniqprobe (recorded rest) U (d, []))))"
proof -
  have "justified (snd (createFixtures (recorded rest) fixtures (d, [])))" by (rule createFixtures_log) (simp add: justified_Nil)
  from probeAllResources_log [OF this, of rest U "sorted_keys (ResourcesMap U)"] show ?thesis
    by (auto simp: uniqprobe_def split: prod.splits intro!: cleanups_log)
qed

text \<open>The items the deletions of a log go to, and the items its creates were answered with.\<close>

definition deletedItems :: "uq_log \<Rightarrow> string list" where
  "deletedItems log = map (\<lambda>e. fst (snd e)) (filter (\<lambda>e. fst e = ''DELETE'') log)"

definition createdItems :: "uq_log \<Rightarrow> string list" where
  "createdItems log = concat (map (\<lambda>(meth, p, r). if meth = ''PUT'' then map (\<lambda>i. p @ ''/'' @ i) (createdIds r) else []) log)"

lemma items_append [simp]:
  "deletedItems (xs @ ys) = deletedItems xs @ deletedItems ys" "createdItems (xs @ ys) = createdItems xs @ createdItems ys"
  by (simp_all add: deletedItems_def createdItems_def)

lemma deleteAll_items:
  "deletedItems (snd (deleteAll (recorded rest) path ids s)) = deletedItems (snd s) @ map (\<lambda>i. path @ ''/'' @ i) ids"
  "createdItems (snd (deleteAll (recorded rest) path ids s)) = createdItems (snd s)"
  by (induction ids arbitrary: s) (simp_all add: recorded_def deletedItems_def createdItems_def split: prod.splits)

lemma twoCreates_items:
  assumes "twoCreates (recorded rest) name r path (d, []) = ((v, created), s')"
  shows "deletedItems (snd s') = []" and "createdItems (snd s') = map (\<lambda>i. path @ ''/'' @ i) created"
  using assms
  by (auto simp: twoCreates_def recorded_def deletedItems_def createdItems_def createdIds_def Let_def
      split: prod.splits uq_reply.splits if_splits)

text \<open>
  And it deletes all of it: the items the probe of a resource deletes are exactly those its creates
  were answered with, in that order.
\<close>

theorem probe_deletes_created:
  "deletedItems (snd (snd (uq_probe (recorded rest) U name r (d, []))))
   = createdItems (snd (snd (uq_probe (recorded rest) U name r (d, []))))"
proof (cases "eligible U name r")
  case (Inr path)
  obtain v created s' where t: "twoCreates (recorded rest) name r path (d, []) = ((v, created), s')"
    by (cases "twoCreates (recorded rest) name r path (d, [])") auto
  then show ?thesis using Inr twoCreates_items [OF t] by (simp add: uq_probe_def deleteAll_items)
qed (simp add: uq_probe_def deletedItems_def createdItems_def)

section \<open>Where the verdict goes beyond its evidence\<close>

text \<open>
  A refusal that says nothing about the name is read as uniqueness of the name: a tunnel that
  exists with the same endpoints.
\<close>

theorem unrelated_refusal_unique:
  "uvVerdict (refusalVerdict ''routeros_interface_eoip'' ''/interface/eoip'' 400 ''failure: already have such tunnel'') = ''UNIQUE''"
  by code_simp

text \<open>A router that makes the row and loses the reply to the create; its state is the number of rows.\<close>

definition exLossy :: "nat uq_rest" where
  "exLossy meth path body d =
     (if meth = ''PUT'' then (RequestFailed ''EOF'', Suc d) else if meth = ''DELETE'' then (Answer 204 [] None, d - 1)
      else (Answer 200 ''[]'' (Some (JArr [])), d))"

definition exUpstream :: upstream where
  "exUpstream = \<lparr>MetaResourcePath = ''___path___'', MetaId = ''___id___'', IdKind = 0, ResourcesMap = fmempty\<rparr>"

definition exNamed :: uq_Resource where
  "exNamed = fmap_of_list
     [(''___path___'', \<lparr>uqType = TypeString, uqRequired = False, uqDefault = DefaultString ''/queue/type''\<rparr>),
      (''___id___'', \<lparr>uqType = TypeInt, uqRequired = False, uqDefault = DefaultInt 0\<rparr>),
      (''name'', \<lparr>uqType = TypeString, uqRequired = True, uqDefault = NoDefault\<rparr>)]"

text \<open>A create whose reply was lost leaves its row behind.\<close>

theorem lost_create_left_behind:
  "uvVerdict (fst (uq_probe exLossy exUpstream ''routeros_queue_type'' exNamed 0)) = ''UNTESTED''
   \<and> snd (uq_probe exLossy exUpstream ''routeros_queue_type'' exNamed 0) = 1"
  by (simp add: uq_probe_def eligible_def exUpstream_def exNamed_def fmlookup_of_list twoCreates_def exLossy_def mkVerdict_def)

end
