(* ===== verification/Deep_Copy.thy ===== *)
theory Deep_Copy
  imports Prelude "HOL-Library.Sublist"
begin

text \<open>
  Deep copies in memory. The memory of a Go program is a list of cells and an address is a position
  in it: a pointer is an optional address, \<^verbatim>\<open>new\<close> and \<^verbatim>\<open>make\<close> append a cell, a store updates one. A slice
  points into an array, at an offset, so that two slices can share it.

  The locale \<^verbatim>\<open>copier\<close> is what a \<^verbatim>\<open>DeepCopyInto\<close> promises: what is read back from the copy is what the
  original says, no cell that existed before is changed, and every cell the copy reaches is new. The
  shapes the generated copies are put together from, a plain assignment, a pointer, a slice, a struct
  of several such fields, keep the promise when their parts do.
\<close>

type_synonym addr = nat

record slice =
  sliceArray :: addr
  sliceOffset :: nat
  sliceLen :: nat

definition agree :: "'c list \<Rightarrow> 'c list \<Rightarrow> addr set \<Rightarrow> bool" where
  "agree h h' A \<longleftrightarrow> (\<forall>a\<in>A. a < length h' \<and> h' ! a = h ! a)"

text \<open>What a program does to the memory afterwards: stores and further allocations, in some order.\<close>

datatype 'c mutation = Store addr 'c | New 'c

primrec evolve1 :: "'c mutation \<Rightarrow> 'c list \<Rightarrow> 'c list" where
  "evolve1 (Store a c) h = h[a := c]"
| "evolve1 (New c) h = h @ [c]"

definition evolve :: "'c mutation list \<Rightarrow> 'c list \<Rightarrow> 'c list" where
  "evolve ws h = fold evolve1 ws h"

section \<open>The shapes of a copy\<close>

text \<open>\<^verbatim>\<open>*out = *in\<close>, for a value without pointers.\<close>

definition copyValue :: "'c list \<Rightarrow> 'a \<Rightarrow> 'c list \<times> 'a" where
  "copyValue h x = (h, x)"

text \<open>
  A pointer field: \<^verbatim>\<open>nil\<close> stays, otherwise \<^verbatim>\<open>*out = new(T)\<close> and the pointed-to value is copied into the new
  cell. \<open>cellOf\<close> and \<open>valueOf\<close> put a value of the type into a cell and take it out.
\<close>

definition copyPointer ::
  "'a \<Rightarrow> ('a \<Rightarrow> 'c) \<Rightarrow> ('c \<Rightarrow> 'a) \<Rightarrow> ('c list \<Rightarrow> 'a \<Rightarrow> 'c list \<times> 'a) \<Rightarrow> 'c list \<Rightarrow> addr option \<Rightarrow> 'c list \<times> addr option" where
  "copyPointer zero cellOf valueOf copyInto h p =
     (case p of
        None \<Rightarrow> (h, None)
      | Some a \<Rightarrow>
          let out = length h;
              h1 = h @ [cellOf zero];
              (h2, y) = copyInto h1 (valueOf (h1 ! a))
          in (h2[out := cellOf y], Some out))"

text \<open>\<^verbatim>\<open>for i := range *in { (*in)[i].DeepCopyInto(&(*out)[i]) }\<close>, for the indices of the list.\<close>

primrec copyElements ::
  "('a list \<Rightarrow> 'c) \<Rightarrow> ('c \<Rightarrow> 'a list) \<Rightarrow> ('c list \<Rightarrow> 'a \<Rightarrow> 'c list \<times> 'a) \<Rightarrow> slice \<Rightarrow> addr \<Rightarrow> nat list \<Rightarrow> 'c list \<Rightarrow> 'c list" where
  "copyElements cellOf valueOf copyInto s out [] h = h"
| "copyElements cellOf valueOf copyInto s out (i # is) h =
     (let (h1, y) = copyInto h (valueOf (h ! sliceArray s) ! (sliceOffset s + i))
      in copyElements cellOf valueOf copyInto s out is (h1[out := cellOf ((valueOf (h1 ! out))[i := y])]))"

text \<open>A slice field: \<^verbatim>\<open>nil\<close> stays, otherwise \<^verbatim>\<open>make\<close> of the same length and the elements one by one.\<close>

definition copySlice ::
  "'a \<Rightarrow> ('a list \<Rightarrow> 'c) \<Rightarrow> ('c \<Rightarrow> 'a list) \<Rightarrow> ('c list \<Rightarrow> 'a \<Rightarrow> 'c list \<times> 'a) \<Rightarrow> 'c list \<Rightarrow> slice option \<Rightarrow> 'c list \<times> slice option" where
  "copySlice zero cellOf valueOf copyInto h s =
     (case s of
        None \<Rightarrow> (h, None)
      | Some s \<Rightarrow>
          let out = length h; n = sliceLen s;
              h1 = h @ [cellOf (replicate n zero)]
          in (copyElements cellOf valueOf copyInto s out [0..<n] h1,
              Some \<lparr>sliceArray = out, sliceOffset = 0, sliceLen = n\<rparr>))"

text \<open>The elements a slice shows.\<close>

definition elements :: "('c \<Rightarrow> 'a list) \<Rightarrow> 'c list \<Rightarrow> slice \<Rightarrow> 'a list" where
  "elements valueOf h s = take (sliceLen s) (drop (sliceOffset s) (valueOf (h ! sliceArray s)))"

text \<open>Two fields of a struct, or a struct as its fields and the rest.\<close>

definition copyBoth ::
  "('c list \<Rightarrow> 'a \<Rightarrow> 'c list \<times> 'a) \<Rightarrow> ('c list \<Rightarrow> 'b \<Rightarrow> 'c list \<times> 'b) \<Rightarrow> 'c list \<Rightarrow> 'a \<times> 'b \<Rightarrow> 'c list \<times> ('a \<times> 'b)" where
  "copyBoth copy1 copy2 h x =
     (let (h1, y1) = copy1 h (fst x); (h2, y2) = copy2 h1 (snd x) in (h2, y1, y2))"

primrec copyAll :: "('c list \<Rightarrow> 'a \<Rightarrow> 'c list \<times> 'a) \<Rightarrow> 'c list \<Rightarrow> 'a list \<Rightarrow> 'c list \<times> 'a list" where
  "copyAll copyInto h [] = (h, [])"
| "copyAll copyInto h (x # xs) =
     (let (h1, y) = copyInto h x; (h2, ys) = copyAll copyInto h1 xs in (h2, y # ys))"

section \<open>What a copy promises\<close>

lemma agree_upd: "b \<notin> A \<Longrightarrow> A \<subseteq> {..<length h} \<Longrightarrow> agree h (h[b := c]) A"
  unfolding agree_def by (metis length_list_update lessThan_iff nth_list_update_neq subsetD)

lemma agree_trans: "agree h h1 A \<Longrightarrow> agree h1 h2 A \<Longrightarrow> agree h h2 A"
  by (simp add: agree_def)

lemma agree_evolve1:
  "A \<subseteq> {..<length h} \<Longrightarrow> \<forall>a c. w = Store a c \<longrightarrow> a \<notin> A \<Longrightarrow> agree h (evolve1 w h) A"
  by (cases w) (auto simp: agree_upd, auto simp: agree_def nth_append)

lemma agree_evolve:
  "A \<subseteq> {..<length h} \<Longrightarrow> \<forall>a c. Store a c \<in> set ws \<longrightarrow> a \<notin> A \<Longrightarrow> agree h (evolve ws h) A"
proof (induction ws arbitrary: h)
  case (Cons w ws)
  have "length h \<le> length (evolve1 w h)" by (cases w) simp_all
  then have "agree (evolve1 w h) (evolve ws (evolve1 w h)) A" using Cons by (intro Cons.IH) auto
  moreover have "agree h (evolve1 w h) A" using Cons.prems by (intro agree_evolve1) auto
  ultimately show ?case using agree_trans by (fastforce simp: evolve_def)
qed (auto simp: agree_def evolve_def)

locale copier =
  fixes ok :: "'c list \<Rightarrow> 'a \<Rightarrow> bool"
    and read :: "'c list \<Rightarrow> 'a \<Rightarrow> 'v"
    and reach :: "'c list \<Rightarrow> 'a \<Rightarrow> addr set"
    and copyInto :: "'c list \<Rightarrow> 'a \<Rightarrow> 'c list \<times> 'a"
  assumes inside: "ok h x \<Longrightarrow> a \<in> reach h x \<Longrightarrow> a < length h"
    and frame: "ok h x \<Longrightarrow> agree h h' (reach h x) \<Longrightarrow> ok h' x \<and> read h' x = read h x \<and> reach h' x = reach h x"
    and copies: "ok h x \<Longrightarrow> copyInto h x = (h', y) \<Longrightarrow>
      prefix h h' \<and> ok h' y \<and> read h' y = read h x \<and> (\<forall>a\<in>reach h' y. length h \<le> a)"
begin

lemma agree_prefix: "ok h x \<Longrightarrow> prefix h h' \<Longrightarrow> agree h h' (reach h x)"
  by (auto simp: agree_def prefix_def nth_append dest: inside)

lemma frame_prefix:
  "ok h x \<Longrightarrow> prefix h h' \<Longrightarrow> ok h' x \<and> read h' x = read h x \<and> reach h' x = reach h x"
  by (rule frame) (simp_all add: agree_prefix)

text \<open>
  Afterwards, what is stored through the copy, or in memory allocated since, does not show in the
  original, nor what is stored through the original in the copy.
\<close>

lemma isolated:
  assumes "ok h x" "copyInto h x = (h', y)"
  shows "\<forall>a c. Store a c \<in> set ws \<longrightarrow> a \<in> reach h' y \<or> length h' \<le> a \<Longrightarrow> read (evolve ws h') x = read h x"
    and "\<forall>a c. Store a c \<in> set ws \<longrightarrow> a \<in> reach h' x \<or> length h' \<le> a \<Longrightarrow> read (evolve ws h') y = read h x"
    and "reach h' x \<inter> reach h' y = {}"
proof -
  have c: "prefix h h'" "ok h' y" "read h' y = read h x" "\<forall>a\<in>reach h' y. length h \<le> a"
    using copies [OF assms] by auto
  have f: "ok h' x" "read h' x = read h x" "reach h' x = reach h x"
    using frame_prefix [OF assms(1) c(1)] by auto
  have apart: "a \<in> reach h' x \<Longrightarrow> a \<in> reach h' y \<Longrightarrow> False" for a
    using inside [OF assms(1)] c(4) f(3) by (metis not_le)
  then show "reach h' x \<inter> reach h' y = {}" by blast
  have stay: "read (evolve ws h') z = read h' z"
    if "ok h' z" "\<forall>a c. Store a c \<in> set ws \<longrightarrow> a \<notin> reach h' z" for z
    using frame [OF that(1) agree_evolve, of ws] inside [OF that(1)] that(2) by blast
  show "read (evolve ws h') x = read h x" if "\<forall>a c. Store a c \<in> set ws \<longrightarrow> a \<in> reach h' y \<or> length h' \<le> a"
    using stay [OF f(1)] f(2) that apart inside [OF f(1)] by (metis not_le)
  show "read (evolve ws h') y = read h x" if "\<forall>a c. Store a c \<in> set ws \<longrightarrow> a \<in> reach h' x \<or> length h' \<le> a"
    using stay [OF c(2)] c(3) that apart inside [OF c(2)] by (metis not_le)
qed

end

section \<open>The shapes keep the promise\<close>

interpretation plain: copier "\<lambda>h x. True" "\<lambda>h x. x" "\<lambda>h x. {}" copyValue
  by unfold_locales (auto simp: copyValue_def)

text \<open>Pointers.\<close>

definition pointerOk :: "('c \<Rightarrow> bool) \<Rightarrow> ('c \<Rightarrow> 'a) \<Rightarrow> ('c list \<Rightarrow> 'a \<Rightarrow> bool) \<Rightarrow> 'c list \<Rightarrow> addr option \<Rightarrow> bool" where
  "pointerOk isCell valueOf ok h p =
     (case p of None \<Rightarrow> True | Some a \<Rightarrow> a < length h \<and> isCell (h ! a) \<and> ok h (valueOf (h ! a)))"

definition pointerRead :: "('c \<Rightarrow> 'a) \<Rightarrow> ('c list \<Rightarrow> 'a \<Rightarrow> 'v) \<Rightarrow> 'c list \<Rightarrow> addr option \<Rightarrow> 'v option" where
  "pointerRead valueOf read h p = map_option (\<lambda>a. read h (valueOf (h ! a))) p"

definition pointerReach :: "('c \<Rightarrow> 'a) \<Rightarrow> ('c list \<Rightarrow> 'a \<Rightarrow> addr set) \<Rightarrow> 'c list \<Rightarrow> addr option \<Rightarrow> addr set" where
  "pointerReach valueOf reach h p = (case p of None \<Rightarrow> {} | Some a \<Rightarrow> insert a (reach h (valueOf (h ! a))))"

lemmas pointer_defs = pointerOk_def pointerRead_def pointerReach_def copyPointer_def

text \<open>A write to the new cell, after the copy of its content, which lies above it.\<close>

lemma copied_upd:
  assumes "copier ok read reach copyInto" "ok h x" "copyInto h x = (h', y)" "n < length h"
  shows "ok (h'[n := c]) y" "read (h'[n := c]) y = read h x" "\<And>a. a \<in> reach (h'[n := c]) y \<Longrightarrow> n < a"
proof -
  note c = copier.copies [OF assms(1-3)]
  have "agree h' (h'[n := c]) (reach h' y)"
    using copier.inside [OF assms(1), of h' y] c assms(4) by (intro agree_upd) force+
  then have f: "ok (h'[n := c]) y \<and> read (h'[n := c]) y = read h' y \<and> reach (h'[n := c]) y = reach h' y"
    using copier.frame [OF assms(1)] c by blast
  then show "ok (h'[n := c]) y" "read (h'[n := c]) y = read h x" using c by auto
  show "n < a" if "a \<in> reach (h'[n := c]) y" for a using f c assms(4) that by force
qed

lemma copier_pointer:
  assumes c: "copier ok read reach copyInto"
    and cell: "\<And>y. isCell (cellOf y)" "\<And>y. valueOf (cellOf y) = y"
  shows "copier (pointerOk isCell valueOf ok) (pointerRead valueOf read) (pointerReach valueOf reach)
           (copyPointer zero cellOf valueOf copyInto)"
proof
  fix h p a
  assume "pointerOk isCell valueOf ok h p" "a \<in> pointerReach valueOf reach h p"
  then show "a < length h" by (auto simp: pointer_defs dest: copier.inside [OF c] split: option.splits)
next
  fix h h' p
  assume o: "pointerOk isCell valueOf ok h p" and a: "agree h h' (pointerReach valueOf reach h p)"
  show "pointerOk isCell valueOf ok h' p \<and> pointerRead valueOf read h' p = pointerRead valueOf read h p \<and>
        pointerReach valueOf reach h' p = pointerReach valueOf reach h p"
  proof (cases p)
    case (Some b)
    have "h' ! b = h ! b" "b < length h'" "agree h h' (reach h (valueOf (h ! b)))"
      using a Some by (auto simp: pointer_defs agree_def)
    then show ?thesis using o Some copier.frame [OF c, of h "valueOf (h ! b)" h'] by (simp add: pointer_defs)
  qed (simp add: pointer_defs)
next
  fix h p h' q
  assume o: "pointerOk isCell valueOf ok h p" and e: "copyPointer zero cellOf valueOf copyInto h p = (h', q)"
  show "prefix h h' \<and> pointerOk isCell valueOf ok h' q \<and>
        pointerRead valueOf read h' q = pointerRead valueOf read h p \<and> (\<forall>a\<in>pointerReach valueOf reach h' q. length h \<le> a)"
  proof (cases p)
    case (Some b)
    let ?h1 = "h @ [cellOf zero]" and ?x = "valueOf (h ! b)"
    have b: "b < length h" and ox: "ok h ?x" using o Some by (auto simp: pointer_defs)
    have o1: "ok ?h1 ?x" and r1: "read ?h1 ?x = read h ?x"
      using copier.frame_prefix [OF c ox, of ?h1] by simp_all
    obtain h2 y where cp: "copyInto ?h1 ?x = (h2, y)" by fastforce
    then have h': "h' = h2[length h := cellOf y]" and q: "q = Some (length h)"
      using e Some b by (simp_all add: pointer_defs nth_append Let_def)
    have p2: "prefix ?h1 h2" using copier.copies [OF c o1 cp] by simp
    then have len: "length h < length h2" by (auto simp: prefix_def)
    note u = copied_upd [OF c o1 cp, where n = "length h" and c = "cellOf y", folded h', unfolded r1]
    have at: "h' ! length h = cellOf y" using len h' by simp
    have "prefix h h'" using p2 h' by (auto simp: prefix_def list_update_append)
    then show ?thesis using u at len h' q Some cell by (force simp: pointer_defs)
  qed (use e in \<open>auto simp: pointer_defs\<close>)
qed

text \<open>Slices.\<close>

definition sliceOk :: "('c \<Rightarrow> bool) \<Rightarrow> ('c \<Rightarrow> 'a list) \<Rightarrow> ('c list \<Rightarrow> 'a \<Rightarrow> bool) \<Rightarrow> 'c list \<Rightarrow> slice option \<Rightarrow> bool" where
  "sliceOk isCell valueOf ok h p =
     (case p of
        None \<Rightarrow> True
      | Some s \<Rightarrow> sliceArray s < length h \<and> isCell (h ! sliceArray s) \<and>
          sliceOffset s + sliceLen s \<le> length (valueOf (h ! sliceArray s)) \<and> list_all (ok h) (elements valueOf h s))"

definition sliceRead :: "('c \<Rightarrow> 'a list) \<Rightarrow> ('c list \<Rightarrow> 'a \<Rightarrow> 'v) \<Rightarrow> 'c list \<Rightarrow> slice option \<Rightarrow> 'v list option" where
  "sliceRead valueOf read h p = map_option (\<lambda>s. map (read h) (elements valueOf h s)) p"

definition sliceReach :: "('c \<Rightarrow> 'a list) \<Rightarrow> ('c list \<Rightarrow> 'a \<Rightarrow> addr set) \<Rightarrow> 'c list \<Rightarrow> slice option \<Rightarrow> addr set" where
  "sliceReach valueOf reach h p =
     (case p of None \<Rightarrow> {} | Some s \<Rightarrow> insert (sliceArray s) (\<Union> (set (map (reach h) (elements valueOf h s)))))"

lemmas slice_defs = sliceOk_def sliceRead_def sliceReach_def

lemma nth_elements:
  "sliceOffset s + sliceLen s \<le> length (valueOf (h ! sliceArray s)) \<Longrightarrow> i < sliceLen s \<Longrightarrow>
   elements valueOf h s ! i = valueOf (h ! sliceArray s) ! (sliceOffset s + i)"
  by (simp add: elements_def)

lemma length_elements:
  "sliceOffset s + sliceLen s \<le> length (valueOf (h ! sliceArray s)) \<Longrightarrow> length (elements valueOf h s) = sliceLen s"
  by (simp add: elements_def)

text \<open>
  The loop with \<open>i\<close> elements done: the old memory as it was, the new array with the copies of those
  elements and zero values after them, and every copy above the new array.
\<close>

definition copied ::
  "('a list \<Rightarrow> 'c) \<Rightarrow> ('c list \<Rightarrow> 'a \<Rightarrow> bool) \<Rightarrow> ('c list \<Rightarrow> 'a \<Rightarrow> 'v) \<Rightarrow> ('c list \<Rightarrow> 'a \<Rightarrow> addr set) \<Rightarrow> 'c list \<Rightarrow> 'a list \<Rightarrow>
   'a \<Rightarrow> nat \<Rightarrow> 'c list \<Rightarrow> bool" where
  "copied cellOf ok read reach h xs zero i h' \<longleftrightarrow>
     (\<exists>ys. prefix h h' \<and> length h < length h' \<and> h' ! length h = cellOf (ys @ replicate (length xs - i) zero) \<and>
        length ys = i \<and> (\<forall>j<i. ok h' (ys ! j) \<and> read h' (ys ! j) = read h (xs ! j) \<and>
          (\<forall>a\<in>reach h' (ys ! j). length h < a)))"

lemma prefix_upd: "prefix h h' \<Longrightarrow> prefix h (h'[length h := c])"
  by (auto simp: prefix_def list_update_append)

lemma copied_step:
  assumes c: "copier ok read reach copyInto"
    and cell: "\<And>ys. valueOf (cellOf ys) = ys"
    and d: "copied cellOf ok read reach h xs zero i h1"
    and i: "i < length xs" and o: "ok h (xs ! i)"
    and e: "copyInto h1 (xs ! i) = (h2, y)"
  shows "copied cellOf ok read reach h xs zero (Suc i) (h2[length h := cellOf ((valueOf (h2 ! length h))[i := y])])"
proof -
  obtain ys where p1: "prefix h h1" and l1: "length h < length h1"
    and a1: "h1 ! length h = cellOf (ys @ replicate (length xs - i) zero)" and ly: "length ys = i"
    and ys: "\<And>j. j < i \<Longrightarrow> ok h1 (ys ! j) \<and> read h1 (ys ! j) = read h (xs ! j) \<and> (\<forall>a\<in>reach h1 (ys ! j). length h < a)"
    using d unfolding copied_def by blast
  have o1: "ok h1 (xs ! i)" and r1: "read h1 (xs ! i) = read h (xs ! i)"
    using copier.frame_prefix [OF c o p1] by auto
  have p2: "prefix h1 h2" using copier.copies [OF c o1 e] by simp
  have l2: "length h < length h2" and a2: "h2 ! length h = h1 ! length h"
    using p2 l1 by (auto simp: prefix_def nth_append)
  let ?h = "h2[length h := cellOf ((valueOf (h2 ! length h))[i := y])]"
  have arr: "(valueOf (h2 ! length h))[i := y] = (ys @ [y]) @ replicate (length xs - Suc i) zero"
  proof -
    have "length xs - i = Suc (length xs - Suc i)" using i by simp
    then show ?thesis using a1 a2 ly cell by (simp add: list_update_append)
  qed
  have old: "ok ?h (ys ! j) \<and> read ?h (ys ! j) = read h (xs ! j) \<and> (\<forall>a\<in>reach ?h (ys ! j). length h < a)" if "j < i" for j
  proof -
    have f: "ok h2 (ys ! j)" "read h2 (ys ! j) = read h (xs ! j)" "reach h2 (ys ! j) = reach h1 (ys ! j)"
      using copier.frame_prefix [OF c _ p2, of "ys ! j"] ys [OF that] by auto
    have "agree h2 ?h (reach h2 (ys ! j))"
      using ys [OF that] f(3) copier.inside [OF c f(1)] by (intro agree_upd) auto
    then show ?thesis using copier.frame [OF c f(1)] f ys [OF that] by simp
  qed
  note new = copied_upd [OF c o1 e l1]
  have "prefix h ?h" by (rule prefix_upd [OF prefix_order.trans [OF p1 p2]])
  moreover have "ok ?h ((ys @ [y]) ! j) \<and> read ?h ((ys @ [y]) ! j) = read h (xs ! j) \<and>
      (\<forall>a\<in>reach ?h ((ys @ [y]) ! j). length h < a)" if "j < Suc i" for j
  proof (cases "j < i")
    case True
    then show ?thesis using old [OF True] ly by (simp add: nth_append)
  next
    case False
    then have "(ys @ [y]) ! j = y" "j = i" using that ly by (auto simp: nth_append)
    then show ?thesis using new r1 by metis
  qed
  moreover have "?h ! length h = cellOf ((ys @ [y]) @ replicate (length xs - Suc i) zero)"
    using arr l2 by (simp only: nth_list_update_eq)
  moreover have "length h < length ?h" "length (ys @ [y]) = Suc i" using l2 ly by simp_all
  ultimately show ?thesis unfolding copied_def by blast
qed

lemma copied_all:
  assumes c: "copier ok read reach copyInto" and cell: "\<And>ys. valueOf (cellOf ys) = ys"
    and o: "list_all (ok h) (elements valueOf h s)" and arr: "sliceArray s < length h"
    and len: "sliceOffset s + sliceLen s \<le> length (valueOf (h ! sliceArray s))"
  shows "copied cellOf ok read reach h (elements valueOf h s) zero i h1 \<Longrightarrow> i + n = sliceLen s \<Longrightarrow>
    copied cellOf ok read reach h (elements valueOf h s) zero (sliceLen s)
      (copyElements cellOf valueOf copyInto s (length h) [i..<i + n] h1)"
proof (induction n arbitrary: i h1)
  case (Suc n)
  let ?xs = "elements valueOf h s"
  have i: "i < sliceLen s" using Suc.prems by simp
  have n: "length ?xs = sliceLen s" using length_elements [of s valueOf h] len by simp
  have "h1 ! sliceArray s = h ! sliceArray s"
    using Suc.prems(1) arr by (auto simp: copied_def prefix_def nth_append)
  then have x: "valueOf (h1 ! sliceArray s) ! (sliceOffset s + i) = ?xs ! i"
    using nth_elements [of s valueOf h i] len i by simp
  obtain h2 y where e: "copyInto h1 (?xs ! i) = (h2, y)" by fastforce
  have "ok h (?xs ! i)" using o i n by (simp add: list_all_length)
  then have "copied cellOf ok read reach h ?xs zero (Suc i) (h2[length h := cellOf ((valueOf (h2 ! length h))[i := y])])"
    using copied_step [OF c cell Suc.prems(1) _ _ e] i n by simp
  then have "copied cellOf ok read reach h ?xs zero (sliceLen s)
      (copyElements cellOf valueOf copyInto s (length h) [Suc i..<Suc i + n]
        (h2[length h := cellOf ((valueOf (h2 ! length h))[i := y])]))"
    using Suc.IH Suc.prems by simp
  moreover have "[i..<i + Suc n] = i # [Suc i..<Suc i + n]" by (subst upt_conv_Cons) simp_all
  ultimately show ?case using x e by (simp del: upt_Suc)
qed simp

lemma copier_slice:
  assumes c: "copier ok read reach copyInto"
    and cell: "\<And>ys. isCell (cellOf ys)" "\<And>ys. valueOf (cellOf ys) = ys"
  shows "copier (sliceOk isCell valueOf ok) (sliceRead valueOf read) (sliceReach valueOf reach)
           (copySlice zero cellOf valueOf copyInto)"
proof
  fix h p a
  assume "sliceOk isCell valueOf ok h p" "a \<in> sliceReach valueOf reach h p"
  then show "a < length h"
    by (auto simp: slice_defs list_all_iff dest: copier.inside [OF c] split: option.splits)
next
  fix h h' p
  assume o: "sliceOk isCell valueOf ok h p" and a: "agree h h' (sliceReach valueOf reach h p)"
  show "sliceOk isCell valueOf ok h' p \<and> sliceRead valueOf read h' p = sliceRead valueOf read h p \<and>
        sliceReach valueOf reach h' p = sliceReach valueOf reach h p"
  proof (cases p)
    case (Some s)
    have h': "h' ! sliceArray s = h ! sliceArray s" "sliceArray s < length h'"
      using a Some by (auto simp: slice_defs agree_def)
    then have el: "elements valueOf h' s = elements valueOf h s" by (simp add: elements_def)
    have "ok h' x \<and> read h' x = read h x \<and> reach h' x = reach h x" if "x \<in> set (elements valueOf h s)" for x
      using a o Some that by (intro copier.frame [OF c]) (auto simp: slice_defs agree_def list_all_iff)
    then show ?thesis using o Some h' el by (simp add: slice_defs list_all_iff)
  qed (simp add: slice_defs)
next
  fix h p h' q
  assume o: "sliceOk isCell valueOf ok h p" and e: "copySlice zero cellOf valueOf copyInto h p = (h', q)"
  show "prefix h h' \<and> sliceOk isCell valueOf ok h' q \<and>
        sliceRead valueOf read h' q = sliceRead valueOf read h p \<and> (\<forall>a\<in>sliceReach valueOf reach h' q. length h \<le> a)"
  proof (cases p)
    case (Some s)
    let ?xs = "elements valueOf h s" and ?h1 = "h @ [cellOf (replicate (sliceLen s) zero)]"
    have arr: "sliceArray s < length h" and len: "sliceOffset s + sliceLen s \<le> length (valueOf (h ! sliceArray s))"
      and all: "list_all (ok h) ?xs" using o Some by (auto simp: slice_defs)
    have n: "length ?xs = sliceLen s" using length_elements [of s valueOf h] len by simp
    have "copied cellOf ok read reach h ?xs zero 0 ?h1" using n by (simp add: copied_def)
    from copied_all [OF c cell(2) all arr len this, of "sliceLen s"]
    have "copied cellOf ok read reach h ?xs zero (sliceLen s) h'"
      using e Some by (auto simp: copySlice_def Let_def)
    then obtain ys where p': "prefix h h'" "length h < length h'" and a': "h' ! length h = cellOf ys" and ly: "length ys = sliceLen s"
      and ys: "\<forall>j<sliceLen s. ok h' (ys ! j) \<and> read h' (ys ! j) = read h (?xs ! j) \<and> (\<forall>a\<in>reach h' (ys ! j). length h < a)"
      using n by (auto simp: copied_def)
    let ?q = "\<lparr>sliceArray = length h, sliceOffset = 0, sliceLen = sliceLen s\<rparr>"
    have q: "q = Some ?q" using e Some by (simp add: copySlice_def Let_def)
    have el: "elements valueOf h' ?q = ys" using a' ly cell by (simp add: elements_def)
    have "map (read h') ys = map (read h) ?xs" using ys ly n by (intro nth_equalityI) simp_all
    moreover have "list_all (ok h') ys" using ys ly by (simp add: list_all_length)
    moreover have "\<forall>y\<in>set ys. \<forall>a\<in>reach h' y. length h < a" using ys ly by (metis in_set_conv_nth)
    ultimately show ?thesis using p' q el a' ly Some cell by (force simp: slice_defs)
  qed (use e in \<open>auto simp: slice_defs copySlice_def\<close>)
qed

text \<open>Several fields, one after the other.\<close>

lemma copier_both:
  assumes c1: "copier ok1 read1 reach1 copy1" and c2: "copier ok2 read2 reach2 copy2"
  shows "copier (\<lambda>h x. ok1 h (fst x) \<and> ok2 h (snd x)) (\<lambda>h x. (read1 h (fst x), read2 h (snd x)))
           (\<lambda>h x. reach1 h (fst x) \<union> reach2 h (snd x)) (copyBoth copy1 copy2)"
proof
  fix h x a
  assume "ok1 h (fst x) \<and> ok2 h (snd x)" "a \<in> reach1 h (fst x) \<union> reach2 h (snd x)"
  then show "a < length h" using copier.inside [OF c1] copier.inside [OF c2] by blast
next
  fix h h' x
  assume "ok1 h (fst x) \<and> ok2 h (snd x)" "agree h h' (reach1 h (fst x) \<union> reach2 h (snd x))"
  then show "(ok1 h' (fst x) \<and> ok2 h' (snd x)) \<and> (read1 h' (fst x), read2 h' (snd x)) = (read1 h (fst x), read2 h (snd x)) \<and>
    reach1 h' (fst x) \<union> reach2 h' (snd x) = reach1 h (fst x) \<union> reach2 h (snd x)"
    using copier.frame [OF c1, of h "fst x" h'] copier.frame [OF c2, of h "snd x" h'] by (simp add: agree_def)
next
  fix h x h' y
  assume o: "ok1 h (fst x) \<and> ok2 h (snd x)" and e: "copyBoth copy1 copy2 h x = (h', y)"
  obtain h1 y1 where e1: "copy1 h (fst x) = (h1, y1)" by fastforce
  obtain y2 where e2: "copy2 h1 (snd x) = (h', y2)" and y: "y = (y1, y2)"
    using e e1 by (auto simp: copyBoth_def Let_def split: prod.splits)
  note a1 = copier.copies [OF c1 _ e1]
  have o2: "ok2 h1 (snd x)" "read2 h1 (snd x) = read2 h (snd x)"
    using copier.frame_prefix [OF c2, of h "snd x" h1] a1 o by auto
  note a2 = copier.copies [OF c2 o2(1) e2]
  have f1: "ok1 h' y1 \<and> read1 h' y1 = read1 h1 y1 \<and> reach1 h' y1 = reach1 h1 y1"
    using copier.frame_prefix [OF c1, of h1 y1 h'] a1 a2 o by auto
  have "length h \<le> length h1" using a1 o prefix_length_le by blast
  then show "prefix h h' \<and> (ok1 h' (fst y) \<and> ok2 h' (snd y)) \<and>
      (read1 h' (fst y), read2 h' (snd y)) = (read1 h (fst x), read2 h (snd x)) \<and>
      (\<forall>a\<in>reach1 h' (fst y) \<union> reach2 h' (snd y). length h \<le> a)"
    using a1 a2 o2 f1 o y prefix_order.trans by (auto intro: order_trans)
qed

lemma copier_all:
  assumes c: "copier ok read reach copyInto"
  shows "copier (\<lambda>h xs. list_all (ok h) xs) (\<lambda>h xs. map (read h) xs) (\<lambda>h xs. \<Union> (set (map (reach h) xs))) (copyAll copyInto)"
proof
  fix h xs a
  assume "list_all (ok h) xs" "a \<in> \<Union> (set (map (reach h) xs))"
  then show "a < length h" using copier.inside [OF c] by (auto simp: list_all_iff)
next
  fix h h' xs
  assume "list_all (ok h) xs" "agree h h' (\<Union> (set (map (reach h) xs)))"
  then have "ok h' x \<and> read h' x = read h x \<and> reach h' x = reach h x" if "x \<in> set xs" for x
    using that by (intro copier.frame [OF c]) (auto simp: agree_def list_all_iff)
  then show "list_all (ok h') xs \<and> map (read h') xs = map (read h) xs \<and>
      \<Union> (set (map (reach h') xs)) = \<Union> (set (map (reach h) xs))"
    by (simp add: list_all_iff)
next
  fix h xs h' ys
  assume "list_all (ok h) xs" "copyAll copyInto h xs = (h', ys)"
  then show "prefix h h' \<and> list_all (ok h') ys \<and> map (read h') ys = map (read h) xs \<and>
      (\<forall>a\<in>\<Union> (set (map (reach h') ys)). length h \<le> a)"
  proof (induction xs arbitrary: h h' ys)
    case (Cons x xs)
    obtain h1 y where e1: "copyInto h x = (h1, y)" by fastforce
    obtain zs where e2: "copyAll copyInto h1 xs = (h', zs)" and ys: "ys = y # zs"
      using Cons.prems(2) e1 by (auto simp: Let_def split: prod.splits)
    have o: "ok h x" using Cons.prems by simp
    note a1 = copier.copies [OF c o e1]
    have same: "ok h1 z \<and> read h1 z = read h z" if "z \<in> set xs" for z
      using copier.frame_prefix [OF c, of h z h1] a1 Cons.prems(1) that by (auto simp: list_all_iff)
    then have "list_all (ok h1) xs" "map (read h1) xs = map (read h) xs" by (auto simp: list_all_iff)
    note a2 = Cons.IH [OF this(1) e2] this(2)
    have f1: "ok h' y \<and> read h' y = read h1 y \<and> reach h' y = reach h1 y"
      using copier.frame_prefix [OF c, of h1 y h'] a1 a2 by auto
    have "length h \<le> length h1" using a1 prefix_length_le by blast
    moreover have "prefix h h'" using a1 a2 prefix_order.trans by blast
    ultimately show ?case using a1 a2 f1 ys by (auto intro: order_trans)
  qed simp
qed

text \<open>
  A struct: the fields that hold pointers are copied, the others assigned. \<open>parts\<close> takes the former
  out, \<open>setFields\<close> puts the copies in, and \<open>view\<close> says what the struct means, given what they mean.
\<close>

definition copyStruct ::
  "('s \<Rightarrow> 'a) \<Rightarrow> ('s \<Rightarrow> 'a \<Rightarrow> 's) \<Rightarrow> ('c list \<Rightarrow> 'a \<Rightarrow> 'c list \<times> 'a) \<Rightarrow> 'c list \<Rightarrow> 's \<Rightarrow> 'c list \<times> 's" where
  "copyStruct parts setFields copyInto h s = (let (h', y) = copyInto h (parts s) in (h', setFields s y))"

lemma copier_struct:
  assumes c: "copier ok read reach copyInto"
    and lens: "\<And>h s h' y. ok h (parts s) \<Longrightarrow> copyInto h (parts s) = (h', y) \<Longrightarrow> parts (setFields s y) = y"
    and rest: "\<And>s y. view (setFields s y) = view s"
    and copy: "\<And>h s. copyS h s = copyStruct parts setFields copyInto h s"
  shows "copier (\<lambda>h s. ok h (parts s)) (\<lambda>h s. view s (read h (parts s))) (\<lambda>h s. reach h (parts s)) copyS"
proof
  fix h s a
  assume "ok h (parts s)" "a \<in> reach h (parts s)"
  then show "a < length h" by (rule copier.inside [OF c])
next
  fix h h' s
  assume "ok h (parts s)" "agree h h' (reach h (parts s))"
  then show "ok h' (parts s) \<and> view s (read h' (parts s)) = view s (read h (parts s)) \<and> reach h' (parts s) = reach h (parts s)"
    using copier.frame [OF c] by metis
next
  fix h s h' t
  assume o: "ok h (parts s)" and e: "copyS h s = (h', t)"
  then obtain y where cp: "copyInto h (parts s) = (h', y)" and t: "t = setFields s y"
    by (auto simp: copy copyStruct_def Let_def split: prod.splits)
  show "prefix h h' \<and> ok h' (parts t) \<and> view t (read h' (parts t)) = view s (read h (parts s)) \<and>
      (\<forall>a\<in>reach h' (parts t). length h \<le> a)"
    using copier.copies [OF c o cp] lens [OF o cp] rest t by simp
qed

text \<open>What is determined by what a copy reproduces is reproduced.\<close>

lemma copier_read:
  assumes c: "copier ok read reach copyInto"
    and det: "\<And>h x h' y. read h x = read h' y \<Longrightarrow> say h x = say h' y"
  shows "copier ok say reach copyInto"
proof
  fix h x a assume "ok h x" "a \<in> reach h x"
  then show "a < length h" by (rule copier.inside [OF c])
next
  fix h h' x assume "ok h x" "agree h h' (reach h x)"
  then show "ok h' x \<and> say h' x = say h x \<and> reach h' x = reach h x"
    using copier.frame [OF c, of h x h'] det [of h' x h x] by blast
next
  fix h x h' y assume "ok h x" "copyInto h x = (h', y)"
  then show "prefix h h' \<and> ok h' y \<and> say h' y = say h x \<and> (\<forall>a\<in>reach h' y. length h \<le> a)"
    using copier.copies [OF c, of h x h' y] det [of h' y h x] by blast
qed

end
