(* ===== verification/Api_Copies.thy ===== *)
theory Api_Copies
  imports Deep_Copy Firewall_Types
begin

text \<open>
  The deep copies of the native API types, src/native/api/v1alpha1/zz_generated.deepcopy.go and
  src/native/api/provider/v1alpha1/zz_generated.deepcopy.go. The structs are as Go lays them out: a
  pointer field is an optional address, a slice field an optional slice, an embedded struct is part of
  its owner. The structs of the Kubernetes and Crossplane libraries that the code copies by calling
  their own \<^verbatim>\<open>DeepCopyInto\<close> (object and list metadata, conditions, the common status of a provider
  configuration) are of a type \<^typ>\<open>'m\<close>, and a parameter says how they are copied.
\<close>

section \<open>Structs and memory\<close>

record TypeMeta =
  tmKind :: string
  tmAPIVersion :: string

record RuleStruct =
  p_Action :: "addr option"
  p_AddressList :: "addr option"
  p_AddressListTimeout :: "addr option"
  p_Chain :: "addr option"
  p_Comment :: "addr option"
  p_ConnectionBytes :: "addr option"
  p_ConnectionLimit :: "addr option"
  p_ConnectionMark :: "addr option"
  p_ConnectionNatState :: "addr option"
  p_ConnectionRate :: "addr option"
  p_ConnectionState :: "addr option"
  p_ConnectionType :: "addr option"
  p_Content :: "addr option"
  p_Disabled :: "addr option"
  p_Dscp :: "addr option"
  p_DstAddress :: "addr option"
  p_DstAddressList :: "addr option"
  p_DstAddressType :: "addr option"
  p_DstLimit :: "addr option"
  p_DstPort :: "addr option"
  p_Fragment :: "addr option"
  p_Hotspot :: "addr option"
  p_IcmpOptions :: "addr option"
  p_InBridgePort :: "addr option"
  p_InBridgePortList :: "addr option"
  p_InInterface :: "addr option"
  p_InInterfaceList :: "addr option"
  p_IngressPriority :: "addr option"
  p_IpsecPolicy :: "addr option"
  p_Ipv4Options :: "addr option"
  p_JumpTarget :: "addr option"
  p_Layer7Protocol :: "addr option"
  p_Limit :: "addr option"
  p_Log :: "addr option"
  p_LogPrefix :: "addr option"
  p_Nth :: "addr option"
  p_OutBridgePort :: "addr option"
  p_OutBridgePortList :: "addr option"
  p_OutInterface :: "addr option"
  p_OutInterfaceList :: "addr option"
  p_P2P :: "addr option"
  p_PacketMark :: "addr option"
  p_PacketSize :: "addr option"
  p_PerConnectionClassifier :: "addr option"
  p_Port :: "addr option"
  p_Priority :: "addr option"
  p_Protocol :: "addr option"
  p_PSD :: "addr option"
  p_Random :: "addr option"
  p_Realm :: "addr option"
  p_RejectWith :: "addr option"
  p_RoutingMark :: "addr option"
  p_SrcAddress :: "addr option"
  p_SrcAddressList :: "addr option"
  p_SrcAddressType :: "addr option"
  p_SrcMACAddress :: "addr option"
  p_SrcPort :: "addr option"
  p_TCPFlags :: "addr option"
  p_TCPMSS :: "addr option"
  p_Time :: "addr option"
  p_TLSHost :: "addr option"
  p_TOS :: "addr option"
  p_TTL :: "addr option"

record ReferenceStruct =
  rfName :: string

record SpecStruct =
  spProviderConfigRef :: ReferenceStruct
  spUnlisted :: string
  spDeletionPolicy :: string
  spRows :: "slice option"

record PlanStruct =
  plApprovalToken :: string
  plCreates :: int
  plUpdates :: int
  plDeletes :: int
  plMoves :: int
  plDeleteRows :: "slice option"
  plDeleteRowsTruncated :: bool

record StatusStruct =
  stObservedGeneration :: int
  stAdopted :: bool
  stAdoptedConnection :: string
  stPendingPlan :: "addr option"
  stRows :: "slice option"
  stConditions :: "slice option"

record 'm MenuStruct =
  muTypeMeta :: TypeMeta
  muObjectMeta :: 'm
  muSpec :: SpecStruct
  muStatus :: StatusStruct

record 'm ListStruct =
  liTypeMeta :: TypeMeta
  liListMeta :: 'm
  liItems :: "slice option"

record SecretRefStruct =
  srName :: string
  srUsernameKey :: string
  srPasswordKey :: string

record CredentialsStruct =
  crSecretRef :: SecretRefStruct

record SelectorStruct =
  slName :: string
  slKey :: string

record TLSStruct =
  tlInsecureSkipVerify :: bool
  tlCASecretRef :: "addr option"

record ConfigSpecStruct =
  csEndpoint :: string
  csCredentials :: CredentialsStruct
  csTLS :: "addr option"
  csRequestTimeout :: "addr option"

record 'm ConfigStatusStruct =
  ccStatus :: 'm

record 'm ConfigStruct =
  cfTypeMeta :: TypeMeta
  cfObjectMeta :: 'm
  cfSpec :: ConfigSpecStruct
  cfStatus :: "'m ConfigStatusStruct"

record TypedUsageStruct =
  tuConfigName :: string
  tuConfigKind :: string
  tuAPIVersion :: string
  tuKind :: string
  tuName :: string
  tuUID :: string

record 'm UsageStruct =
  ugTypeMeta :: TypeMeta
  ugObjectMeta :: 'm
  ugTyped :: TypedUsageStruct

text \<open>
  A cell holds one value of a type the code allocates: a scalar or a struct for \<^verbatim>\<open>new\<close>, an array for
  \<^verbatim>\<open>make\<close>. \<open>Foreign\<close> cells are the ones the libraries allocate.
\<close>

datatype 'm cell =
    is_String: StringCell (theString: string)
  | is_Bool: BoolCell (theBool: bool)
  | is_Duration: DurationCell (theDuration: int)
  | is_Rule: RuleCell (theRule: RuleStruct)
  | is_Rules: RuleArray (theRules: "RuleStruct list")
  | is_Reference: ReferenceCell (theReference: ReferenceStruct)
  | is_Spec: SpecCell (theSpec: SpecStruct)
  | is_Preview: PreviewCell (thePreview: FirewallFilterDeletePreview)
  | is_Previews: PreviewArray (thePreviews: "FirewallFilterDeletePreview list")
  | is_Plan: PlanCell (thePlan: PlanStruct)
  | is_Row: RowCell (theRow: FirewallFilterRowStatus)
  | is_Rows: RowArray (theRows: "FirewallFilterRowStatus list")
  | is_Conditions: ConditionArray (theConditions: "'m list")
  | is_Status: StatusCell (theStatus: StatusStruct)
  | is_Menu: MenuCell (theMenu: "'m MenuStruct")
  | is_Menus: MenuArray (theMenus: "'m MenuStruct list")
  | is_MenuList: MenuListCell (theMenuList: "'m ListStruct")
  | is_SecretRef: SecretRefCell (theSecretRef: SecretRefStruct)
  | is_Credentials: CredentialsCell (theCredentials: CredentialsStruct)
  | is_Selector: SelectorCell (theSelector: SelectorStruct)
  | is_TLS: TLSCell (theTLS: TLSStruct)
  | is_ConfigSpec: ConfigSpecCell (theConfigSpec: ConfigSpecStruct)
  | is_ConfigStatus: ConfigStatusCell (theConfigStatus: "'m ConfigStatusStruct")
  | is_Config: ConfigCell (theConfig: "'m ConfigStruct")
  | is_Configs: ConfigArray (theConfigs: "'m ConfigStruct list")
  | is_ConfigList: ConfigListCell (theConfigList: "'m ListStruct")
  | is_Usage: UsageCell (theUsage: "'m UsageStruct")
  | is_Usages: UsageArray (theUsages: "'m UsageStruct list")
  | is_UsageList: UsageListCell (theUsageList: "'m ListStruct")
  | is_Foreign: Foreign (theForeign: 'm)

type_synonym 'm heap = "'m cell list"

text \<open>The copies the libraries provide, and the zero value of their structs.\<close>

record 'm library =
  libZero :: 'm
  ObjectMeta_DeepCopyInto :: "'m heap \<Rightarrow> 'm \<Rightarrow> 'm heap \<times> 'm"
  ListMeta_DeepCopyInto :: "'m heap \<Rightarrow> 'm \<Rightarrow> 'm heap \<times> 'm"
  Condition_DeepCopyInto :: "'m heap \<Rightarrow> 'm \<Rightarrow> 'm heap \<times> 'm"
  CommonStatus_DeepCopyInto :: "'m heap \<Rightarrow> 'm \<Rightarrow> 'm heap \<times> 'm"

section \<open>Zero values\<close>

definition zeroTypeMeta :: TypeMeta where
  "zeroTypeMeta = \<lparr>tmKind = [], tmAPIVersion = []\<rparr>"

definition zeroRule :: RuleStruct where
  "zeroRule = \<lparr>
     p_Action = None, p_AddressList = None, p_AddressListTimeout = None, p_Chain = None,
     p_Comment = None, p_ConnectionBytes = None, p_ConnectionLimit = None, p_ConnectionMark = None,
     p_ConnectionNatState = None, p_ConnectionRate = None, p_ConnectionState = None,
     p_ConnectionType = None, p_Content = None, p_Disabled = None, p_Dscp = None,
     p_DstAddress = None, p_DstAddressList = None, p_DstAddressType = None, p_DstLimit = None,
     p_DstPort = None, p_Fragment = None, p_Hotspot = None, p_IcmpOptions = None,
     p_InBridgePort = None, p_InBridgePortList = None, p_InInterface = None,
     p_InInterfaceList = None, p_IngressPriority = None, p_IpsecPolicy = None,
     p_Ipv4Options = None, p_JumpTarget = None, p_Layer7Protocol = None, p_Limit = None,
     p_Log = None, p_LogPrefix = None, p_Nth = None, p_OutBridgePort = None,
     p_OutBridgePortList = None, p_OutInterface = None, p_OutInterfaceList = None, p_P2P = None,
     p_PacketMark = None, p_PacketSize = None, p_PerConnectionClassifier = None, p_Port = None,
     p_Priority = None, p_Protocol = None, p_PSD = None, p_Random = None, p_Realm = None,
     p_RejectWith = None, p_RoutingMark = None, p_SrcAddress = None, p_SrcAddressList = None,
     p_SrcAddressType = None, p_SrcMACAddress = None, p_SrcPort = None, p_TCPFlags = None,
     p_TCPMSS = None, p_Time = None, p_TLSHost = None, p_TOS = None, p_TTL = None\<rparr>"

definition zeroReference :: ReferenceStruct where
  "zeroReference = \<lparr>rfName = []\<rparr>"

definition zeroSpec :: SpecStruct where
  "zeroSpec = \<lparr>spProviderConfigRef = zeroReference, spUnlisted = [], spDeletionPolicy = [], spRows = None\<rparr>"

definition zeroPreview :: FirewallFilterDeletePreview where
  "zeroPreview = \<lparr>pvID = [], pvChain = [], pvAction = [], pvComment = []\<rparr>"

definition zeroRow :: FirewallFilterRowStatus where
  "zeroRow = \<lparr>rowIndex = 0, rowID = []\<rparr>"

definition zeroPlan :: PlanStruct where
  "zeroPlan = \<lparr>plApprovalToken = [], plCreates = 0, plUpdates = 0, plDeletes = 0, plMoves = 0,
     plDeleteRows = None, plDeleteRowsTruncated = False\<rparr>"

definition zeroStatus :: StatusStruct where
  "zeroStatus = \<lparr>stObservedGeneration = 0, stAdopted = False, stAdoptedConnection = [],
     stPendingPlan = None, stRows = None, stConditions = None\<rparr>"

definition zeroMenu :: "'m library \<Rightarrow> 'm MenuStruct" where
  "zeroMenu L = \<lparr>muTypeMeta = zeroTypeMeta, muObjectMeta = libZero L, muSpec = zeroSpec, muStatus = zeroStatus\<rparr>"

definition zeroList :: "'m library \<Rightarrow> 'm ListStruct" where
  "zeroList L = \<lparr>liTypeMeta = zeroTypeMeta, liListMeta = libZero L, liItems = None\<rparr>"

definition zeroSecretRef :: SecretRefStruct where
  "zeroSecretRef = \<lparr>srName = [], srUsernameKey = [], srPasswordKey = []\<rparr>"

definition zeroCredentials :: CredentialsStruct where
  "zeroCredentials = \<lparr>crSecretRef = zeroSecretRef\<rparr>"

definition zeroSelector :: SelectorStruct where
  "zeroSelector = \<lparr>slName = [], slKey = []\<rparr>"

definition zeroTLS :: TLSStruct where
  "zeroTLS = \<lparr>tlInsecureSkipVerify = False, tlCASecretRef = None\<rparr>"

definition zeroConfigSpec :: ConfigSpecStruct where
  "zeroConfigSpec = \<lparr>csEndpoint = [], csCredentials = zeroCredentials, csTLS = None, csRequestTimeout = None\<rparr>"

definition zeroConfigStatus :: "'m library \<Rightarrow> 'm ConfigStatusStruct" where
  "zeroConfigStatus L = \<lparr>ccStatus = libZero L\<rparr>"

definition zeroConfig :: "'m library \<Rightarrow> 'm ConfigStruct" where
  "zeroConfig L = \<lparr>cfTypeMeta = zeroTypeMeta, cfObjectMeta = libZero L, cfSpec = zeroConfigSpec,
     cfStatus = zeroConfigStatus L\<rparr>"

definition zeroUsage :: "'m library \<Rightarrow> 'm UsageStruct" where
  "zeroUsage L = \<lparr>ugTypeMeta = zeroTypeMeta, ugObjectMeta = libZero L,
     ugTyped = \<lparr>tuConfigName = [], tuConfigKind = [], tuAPIVersion = [], tuKind = [], tuName = [], tuUID = []\<rparr>\<rparr>"

section \<open>Copies of the firewall menu types\<close>

definition FirewallFilterDeletePreview_DeepCopyInto ::
  "'m heap \<Rightarrow> FirewallFilterDeletePreview \<Rightarrow> 'm heap \<times> FirewallFilterDeletePreview" where
  "FirewallFilterDeletePreview_DeepCopyInto = copyValue"

definition FirewallFilterRowStatus_DeepCopyInto ::
  "'m heap \<Rightarrow> FirewallFilterRowStatus \<Rightarrow> 'm heap \<times> FirewallFilterRowStatus" where
  "FirewallFilterRowStatus_DeepCopyInto = copyValue"

definition ProviderConfigReference_DeepCopyInto :: "'m heap \<Rightarrow> ReferenceStruct \<Rightarrow> 'm heap \<times> ReferenceStruct" where
  "ProviderConfigReference_DeepCopyInto = copyValue"

text \<open>One \<^verbatim>\<open>if in.F != nil\<close> block of the rule: the field, and whether it points to a string or a boolean.\<close>

datatype ruleField =
    StringField (getField: "RuleStruct \<Rightarrow> addr option") (setField: "(addr option \<Rightarrow> addr option) \<Rightarrow> RuleStruct \<Rightarrow> RuleStruct")
  | is_BoolField: BoolField (getField: "RuleStruct \<Rightarrow> addr option") (setField: "(addr option \<Rightarrow> addr option) \<Rightarrow> RuleStruct \<Rightarrow> RuleStruct")

definition copyString :: "'m heap \<Rightarrow> addr option \<Rightarrow> 'm heap \<times> addr option" where
  "copyString = copyPointer [] StringCell theString copyValue"

definition copyBool :: "'m heap \<Rightarrow> addr option \<Rightarrow> 'm heap \<times> addr option" where
  "copyBool = copyPointer False BoolCell theBool copyValue"

definition copyField :: "RuleStruct \<Rightarrow> ruleField \<Rightarrow> 'm heap \<times> RuleStruct \<Rightarrow> 'm heap \<times> RuleStruct" where
  "copyField r f = (\<lambda>(h, out).
     let (h', p) = (if is_BoolField f then copyBool else copyString) h (getField f r)
     in (h', setField f (\<lambda>_. p) out))"

definition ruleFields :: "ruleField list" where
  "ruleFields = [
     StringField p_Action p_Action_update, StringField p_AddressList p_AddressList_update,
     StringField p_AddressListTimeout p_AddressListTimeout_update,
     StringField p_Chain p_Chain_update, StringField p_Comment p_Comment_update,
     StringField p_ConnectionBytes p_ConnectionBytes_update,
     StringField p_ConnectionLimit p_ConnectionLimit_update,
     StringField p_ConnectionMark p_ConnectionMark_update,
     StringField p_ConnectionNatState p_ConnectionNatState_update,
     StringField p_ConnectionRate p_ConnectionRate_update,
     StringField p_ConnectionState p_ConnectionState_update,
     StringField p_ConnectionType p_ConnectionType_update, StringField p_Content p_Content_update,
     BoolField p_Disabled p_Disabled_update, StringField p_Dscp p_Dscp_update,
     StringField p_DstAddress p_DstAddress_update,
     StringField p_DstAddressList p_DstAddressList_update,
     StringField p_DstAddressType p_DstAddressType_update,
     StringField p_DstLimit p_DstLimit_update, StringField p_DstPort p_DstPort_update,
     BoolField p_Fragment p_Fragment_update, StringField p_Hotspot p_Hotspot_update,
     StringField p_IcmpOptions p_IcmpOptions_update,
     StringField p_InBridgePort p_InBridgePort_update,
     StringField p_InBridgePortList p_InBridgePortList_update,
     StringField p_InInterface p_InInterface_update,
     StringField p_InInterfaceList p_InInterfaceList_update,
     StringField p_IngressPriority p_IngressPriority_update,
     StringField p_IpsecPolicy p_IpsecPolicy_update,
     StringField p_Ipv4Options p_Ipv4Options_update, StringField p_JumpTarget p_JumpTarget_update,
     StringField p_Layer7Protocol p_Layer7Protocol_update, StringField p_Limit p_Limit_update,
     BoolField p_Log p_Log_update, StringField p_LogPrefix p_LogPrefix_update,
     StringField p_Nth p_Nth_update, StringField p_OutBridgePort p_OutBridgePort_update,
     StringField p_OutBridgePortList p_OutBridgePortList_update,
     StringField p_OutInterface p_OutInterface_update,
     StringField p_OutInterfaceList p_OutInterfaceList_update, StringField p_P2P p_P2P_update,
     StringField p_PacketMark p_PacketMark_update, StringField p_PacketSize p_PacketSize_update,
     StringField p_PerConnectionClassifier p_PerConnectionClassifier_update,
     StringField p_Port p_Port_update, StringField p_Priority p_Priority_update,
     StringField p_Protocol p_Protocol_update, StringField p_PSD p_PSD_update,
     StringField p_Random p_Random_update, StringField p_Realm p_Realm_update,
     StringField p_RejectWith p_RejectWith_update, StringField p_RoutingMark p_RoutingMark_update,
     StringField p_SrcAddress p_SrcAddress_update,
     StringField p_SrcAddressList p_SrcAddressList_update,
     StringField p_SrcAddressType p_SrcAddressType_update,
     StringField p_SrcMACAddress p_SrcMACAddress_update, StringField p_SrcPort p_SrcPort_update,
     StringField p_TCPFlags p_TCPFlags_update, StringField p_TCPMSS p_TCPMSS_update,
     StringField p_Time p_Time_update, StringField p_TLSHost p_TLSHost_update,
     StringField p_TOS p_TOS_update, StringField p_TTL p_TTL_update]"

definition FirewallFilterRule_DeepCopyInto :: "'m heap \<Rightarrow> RuleStruct \<Rightarrow> 'm heap \<times> RuleStruct" where
  "FirewallFilterRule_DeepCopyInto h r = fold (copyField r) ruleFields (h, r)"

definition FirewallFilterMenuSpec_DeepCopyInto :: "'m heap \<Rightarrow> SpecStruct \<Rightarrow> 'm heap \<times> SpecStruct" where
  "FirewallFilterMenuSpec_DeepCopyInto h s =
     (let out = s\<lparr>spProviderConfigRef := spProviderConfigRef s\<rparr>;
          (h, rows) = copySlice zeroRule RuleArray theRules FirewallFilterRule_DeepCopyInto h (spRows s)
      in (h, out\<lparr>spRows := rows\<rparr>))"

definition FirewallFilterPlanStatus_DeepCopyInto :: "'m heap \<Rightarrow> PlanStruct \<Rightarrow> 'm heap \<times> PlanStruct" where
  "FirewallFilterPlanStatus_DeepCopyInto h s =
     (let (h, rows) = copySlice zeroPreview PreviewArray thePreviews copyValue h (plDeleteRows s)
      in (h, s\<lparr>plDeleteRows := rows\<rparr>))"

definition FirewallFilterMenuStatus_DeepCopyInto :: "'m library \<Rightarrow> 'm heap \<Rightarrow> StatusStruct \<Rightarrow> 'm heap \<times> StatusStruct" where
  "FirewallFilterMenuStatus_DeepCopyInto L h s =
     (let (h, plan) = copyPointer zeroPlan PlanCell thePlan FirewallFilterPlanStatus_DeepCopyInto h (stPendingPlan s);
          out = s\<lparr>stPendingPlan := plan\<rparr>;
          (h, rows) = copySlice zeroRow RowArray theRows copyValue h (stRows s);
          out = out\<lparr>stRows := rows\<rparr>;
          (h, conds) = copySlice (libZero L) ConditionArray theConditions (Condition_DeepCopyInto L) h (stConditions s)
      in (h, out\<lparr>stConditions := conds\<rparr>))"

definition FirewallFilterMenu_DeepCopyInto :: "'m library \<Rightarrow> 'm heap \<Rightarrow> 'm MenuStruct \<Rightarrow> 'm heap \<times> 'm MenuStruct" where
  "FirewallFilterMenu_DeepCopyInto L h s =
     (let out = s\<lparr>muTypeMeta := muTypeMeta s\<rparr>;
          (h, meta) = ObjectMeta_DeepCopyInto L h (muObjectMeta s);
          out = out\<lparr>muObjectMeta := meta\<rparr>;
          (h, spec) = FirewallFilterMenuSpec_DeepCopyInto h (muSpec s);
          out = out\<lparr>muSpec := spec\<rparr>;
          (h, status) = FirewallFilterMenuStatus_DeepCopyInto L h (muStatus s)
      in (h, out\<lparr>muStatus := status\<rparr>))"

definition FirewallFilterMenuList_DeepCopyInto :: "'m library \<Rightarrow> 'm heap \<Rightarrow> 'm ListStruct \<Rightarrow> 'm heap \<times> 'm ListStruct" where
  "FirewallFilterMenuList_DeepCopyInto L h s =
     (let out = s\<lparr>liTypeMeta := liTypeMeta s\<rparr>;
          (h, meta) = ListMeta_DeepCopyInto L h (liListMeta s);
          out = out\<lparr>liListMeta := meta\<rparr>;
          (h, items) = copySlice (zeroMenu L) MenuArray theMenus (FirewallFilterMenu_DeepCopyInto L) h (liItems s)
      in (h, out\<lparr>liItems := items\<rparr>))"

text \<open>
  \<^verbatim>\<open>DeepCopy\<close> of every type: \<^verbatim>\<open>nil\<close> for \<^verbatim>\<open>nil\<close>, otherwise a new value that \<^verbatim>\<open>DeepCopyInto\<close> fills.
\<close>

definition FirewallFilterDeletePreview_DeepCopy :: "'m heap \<Rightarrow> addr option \<Rightarrow> 'm heap \<times> addr option" where
  "FirewallFilterDeletePreview_DeepCopy =
     copyPointer zeroPreview PreviewCell thePreview FirewallFilterDeletePreview_DeepCopyInto"

definition FirewallFilterRowStatus_DeepCopy :: "'m heap \<Rightarrow> addr option \<Rightarrow> 'm heap \<times> addr option" where
  "FirewallFilterRowStatus_DeepCopy = copyPointer zeroRow RowCell theRow FirewallFilterRowStatus_DeepCopyInto"

definition ProviderConfigReference_DeepCopy :: "'m heap \<Rightarrow> addr option \<Rightarrow> 'm heap \<times> addr option" where
  "ProviderConfigReference_DeepCopy =
     copyPointer zeroReference ReferenceCell theReference ProviderConfigReference_DeepCopyInto"

definition FirewallFilterRule_DeepCopy :: "'m heap \<Rightarrow> addr option \<Rightarrow> 'm heap \<times> addr option" where
  "FirewallFilterRule_DeepCopy = copyPointer zeroRule RuleCell theRule FirewallFilterRule_DeepCopyInto"

definition FirewallFilterMenuSpec_DeepCopy :: "'m heap \<Rightarrow> addr option \<Rightarrow> 'm heap \<times> addr option" where
  "FirewallFilterMenuSpec_DeepCopy = copyPointer zeroSpec SpecCell theSpec FirewallFilterMenuSpec_DeepCopyInto"

definition FirewallFilterPlanStatus_DeepCopy :: "'m heap \<Rightarrow> addr option \<Rightarrow> 'm heap \<times> addr option" where
  "FirewallFilterPlanStatus_DeepCopy = copyPointer zeroPlan PlanCell thePlan FirewallFilterPlanStatus_DeepCopyInto"

definition FirewallFilterMenuStatus_DeepCopy :: "'m library \<Rightarrow> 'm heap \<Rightarrow> addr option \<Rightarrow> 'm heap \<times> addr option" where
  "FirewallFilterMenuStatus_DeepCopy L =
     copyPointer zeroStatus StatusCell theStatus (FirewallFilterMenuStatus_DeepCopyInto L)"

definition FirewallFilterMenu_DeepCopy :: "'m library \<Rightarrow> 'm heap \<Rightarrow> addr option \<Rightarrow> 'm heap \<times> addr option" where
  "FirewallFilterMenu_DeepCopy L = copyPointer (zeroMenu L) MenuCell theMenu (FirewallFilterMenu_DeepCopyInto L)"

definition FirewallFilterMenuList_DeepCopy :: "'m library \<Rightarrow> 'm heap \<Rightarrow> addr option \<Rightarrow> 'm heap \<times> addr option" where
  "FirewallFilterMenuList_DeepCopy L =
     copyPointer (zeroList L) MenuListCell theMenuList (FirewallFilterMenuList_DeepCopyInto L)"

text \<open>
  \<^verbatim>\<open>runtime.Object\<close> is an interface: its \<^verbatim>\<open>nil\<close> is not an object of some kind with a \<^verbatim>\<open>nil\<close> pointer, which is
  why \<^verbatim>\<open>DeepCopyObject\<close> tests the pointer first.
\<close>

datatype Object =
    MenuObject "addr option"
  | MenuListObject "addr option"
  | ConfigObject "addr option"
  | ConfigListObject "addr option"
  | UsageObject "addr option"
  | UsageListObject "addr option"

definition objectOf :: "(addr option \<Rightarrow> Object) \<Rightarrow> 'm heap \<times> addr option \<Rightarrow> 'm heap \<times> Object option" where
  "objectOf kind = (\<lambda>(h, c). if c \<noteq> None then (h, Some (kind c)) else (h, None))"

definition FirewallFilterMenu_DeepCopyObject :: "'m library \<Rightarrow> 'm heap \<Rightarrow> addr option \<Rightarrow> 'm heap \<times> Object option" where
  "FirewallFilterMenu_DeepCopyObject L h p = objectOf MenuObject (FirewallFilterMenu_DeepCopy L h p)"

definition FirewallFilterMenuList_DeepCopyObject :: "'m library \<Rightarrow> 'm heap \<Rightarrow> addr option \<Rightarrow> 'm heap \<times> Object option" where
  "FirewallFilterMenuList_DeepCopyObject L h p = objectOf MenuListObject (FirewallFilterMenuList_DeepCopy L h p)"

section \<open>Copies of the provider configuration types\<close>

definition ProviderCredentialSecretReference_DeepCopyInto :: "'m heap \<Rightarrow> SecretRefStruct \<Rightarrow> 'm heap \<times> SecretRefStruct" where
  "ProviderCredentialSecretReference_DeepCopyInto = copyValue"

definition ProviderCredentials_DeepCopyInto :: "'m heap \<Rightarrow> CredentialsStruct \<Rightarrow> 'm heap \<times> CredentialsStruct" where
  "ProviderCredentials_DeepCopyInto h s = (h, s\<lparr>crSecretRef := crSecretRef s\<rparr>)"

definition ProviderTLSConfig_DeepCopyInto :: "'m heap \<Rightarrow> TLSStruct \<Rightarrow> 'm heap \<times> TLSStruct" where
  "ProviderTLSConfig_DeepCopyInto h s =
     (let (h, sel) = copyPointer zeroSelector SelectorCell theSelector copyValue h (tlCASecretRef s)
      in (h, s\<lparr>tlCASecretRef := sel\<rparr>))"

definition ProviderConfigSpec_DeepCopyInto :: "'m heap \<Rightarrow> ConfigSpecStruct \<Rightarrow> 'm heap \<times> ConfigSpecStruct" where
  "ProviderConfigSpec_DeepCopyInto h s =
     (let out = s\<lparr>csCredentials := csCredentials s\<rparr>;
          (h, tls) = copyPointer zeroTLS TLSCell theTLS ProviderTLSConfig_DeepCopyInto h (csTLS s);
          out = out\<lparr>csTLS := tls\<rparr>;
          (h, timeout) = copyPointer 0 DurationCell theDuration copyValue h (csRequestTimeout s)
      in (h, out\<lparr>csRequestTimeout := timeout\<rparr>))"

definition ProviderConfigStatus_DeepCopyInto ::
  "'m library \<Rightarrow> 'm heap \<Rightarrow> 'm ConfigStatusStruct \<Rightarrow> 'm heap \<times> 'm ConfigStatusStruct" where
  "ProviderConfigStatus_DeepCopyInto L h s =
     (let (h, status) = CommonStatus_DeepCopyInto L h (ccStatus s) in (h, s\<lparr>ccStatus := status\<rparr>))"

definition ProviderConfig_DeepCopyInto :: "'m library \<Rightarrow> 'm heap \<Rightarrow> 'm ConfigStruct \<Rightarrow> 'm heap \<times> 'm ConfigStruct" where
  "ProviderConfig_DeepCopyInto L h s =
     (let out = s\<lparr>cfTypeMeta := cfTypeMeta s\<rparr>;
          (h, meta) = ObjectMeta_DeepCopyInto L h (cfObjectMeta s);
          out = out\<lparr>cfObjectMeta := meta\<rparr>;
          (h, spec) = ProviderConfigSpec_DeepCopyInto h (cfSpec s);
          out = out\<lparr>cfSpec := spec\<rparr>;
          (h, status) = ProviderConfigStatus_DeepCopyInto L h (cfStatus s)
      in (h, out\<lparr>cfStatus := status\<rparr>))"

definition ProviderConfigList_DeepCopyInto :: "'m library \<Rightarrow> 'm heap \<Rightarrow> 'm ListStruct \<Rightarrow> 'm heap \<times> 'm ListStruct" where
  "ProviderConfigList_DeepCopyInto L h s =
     (let out = s\<lparr>liTypeMeta := liTypeMeta s\<rparr>;
          (h, meta) = ListMeta_DeepCopyInto L h (liListMeta s);
          out = out\<lparr>liListMeta := meta\<rparr>;
          (h, items) = copySlice (zeroConfig L) ConfigArray theConfigs (ProviderConfig_DeepCopyInto L) h (liItems s)
      in (h, out\<lparr>liItems := items\<rparr>))"

definition ProviderConfigUsage_DeepCopyInto :: "'m library \<Rightarrow> 'm heap \<Rightarrow> 'm UsageStruct \<Rightarrow> 'm heap \<times> 'm UsageStruct" where
  "ProviderConfigUsage_DeepCopyInto L h s =
     (let out = s\<lparr>ugTypeMeta := ugTypeMeta s\<rparr>;
          (h, meta) = ObjectMeta_DeepCopyInto L h (ugObjectMeta s);
          out = out\<lparr>ugObjectMeta := meta\<rparr>
      in (h, out\<lparr>ugTyped := ugTyped s\<rparr>))"

definition ProviderConfigUsageList_DeepCopyInto :: "'m library \<Rightarrow> 'm heap \<Rightarrow> 'm ListStruct \<Rightarrow> 'm heap \<times> 'm ListStruct" where
  "ProviderConfigUsageList_DeepCopyInto L h s =
     (let out = s\<lparr>liTypeMeta := liTypeMeta s\<rparr>;
          (h, meta) = ListMeta_DeepCopyInto L h (liListMeta s);
          out = out\<lparr>liListMeta := meta\<rparr>;
          (h, items) = copySlice (zeroUsage L) UsageArray theUsages (ProviderConfigUsage_DeepCopyInto L) h (liItems s)
      in (h, out\<lparr>liItems := items\<rparr>))"

definition ProviderCredentialSecretReference_DeepCopy :: "'m heap \<Rightarrow> addr option \<Rightarrow> 'm heap \<times> addr option" where
  "ProviderCredentialSecretReference_DeepCopy =
     copyPointer zeroSecretRef SecretRefCell theSecretRef ProviderCredentialSecretReference_DeepCopyInto"

definition ProviderCredentials_DeepCopy :: "'m heap \<Rightarrow> addr option \<Rightarrow> 'm heap \<times> addr option" where
  "ProviderCredentials_DeepCopy =
     copyPointer zeroCredentials CredentialsCell theCredentials ProviderCredentials_DeepCopyInto"

definition ProviderTLSConfig_DeepCopy :: "'m heap \<Rightarrow> addr option \<Rightarrow> 'm heap \<times> addr option" where
  "ProviderTLSConfig_DeepCopy = copyPointer zeroTLS TLSCell theTLS ProviderTLSConfig_DeepCopyInto"

definition ProviderConfigSpec_DeepCopy :: "'m heap \<Rightarrow> addr option \<Rightarrow> 'm heap \<times> addr option" where
  "ProviderConfigSpec_DeepCopy =
     copyPointer zeroConfigSpec ConfigSpecCell theConfigSpec ProviderConfigSpec_DeepCopyInto"

definition ProviderConfigStatus_DeepCopy :: "'m library \<Rightarrow> 'm heap \<Rightarrow> addr option \<Rightarrow> 'm heap \<times> addr option" where
  "ProviderConfigStatus_DeepCopy L =
     copyPointer (zeroConfigStatus L) ConfigStatusCell theConfigStatus (ProviderConfigStatus_DeepCopyInto L)"

definition ProviderConfig_DeepCopy :: "'m library \<Rightarrow> 'm heap \<Rightarrow> addr option \<Rightarrow> 'm heap \<times> addr option" where
  "ProviderConfig_DeepCopy L = copyPointer (zeroConfig L) ConfigCell theConfig (ProviderConfig_DeepCopyInto L)"

definition ProviderConfigList_DeepCopy :: "'m library \<Rightarrow> 'm heap \<Rightarrow> addr option \<Rightarrow> 'm heap \<times> addr option" where
  "ProviderConfigList_DeepCopy L =
     copyPointer (zeroList L) ConfigListCell theConfigList (ProviderConfigList_DeepCopyInto L)"

definition ProviderConfigUsage_DeepCopy :: "'m library \<Rightarrow> 'm heap \<Rightarrow> addr option \<Rightarrow> 'm heap \<times> addr option" where
  "ProviderConfigUsage_DeepCopy L = copyPointer (zeroUsage L) UsageCell theUsage (ProviderConfigUsage_DeepCopyInto L)"

definition ProviderConfigUsageList_DeepCopy :: "'m library \<Rightarrow> 'm heap \<Rightarrow> addr option \<Rightarrow> 'm heap \<times> addr option" where
  "ProviderConfigUsageList_DeepCopy L =
     copyPointer (zeroList L) UsageListCell theUsageList (ProviderConfigUsageList_DeepCopyInto L)"

definition ProviderConfig_DeepCopyObject :: "'m library \<Rightarrow> 'm heap \<Rightarrow> addr option \<Rightarrow> 'm heap \<times> Object option" where
  "ProviderConfig_DeepCopyObject L h p = objectOf ConfigObject (ProviderConfig_DeepCopy L h p)"

definition ProviderConfigList_DeepCopyObject :: "'m library \<Rightarrow> 'm heap \<Rightarrow> addr option \<Rightarrow> 'm heap \<times> Object option" where
  "ProviderConfigList_DeepCopyObject L h p = objectOf ConfigListObject (ProviderConfigList_DeepCopy L h p)"

definition ProviderConfigUsage_DeepCopyObject :: "'m library \<Rightarrow> 'm heap \<Rightarrow> addr option \<Rightarrow> 'm heap \<times> Object option" where
  "ProviderConfigUsage_DeepCopyObject L h p = objectOf UsageObject (ProviderConfigUsage_DeepCopy L h p)"

definition ProviderConfigUsageList_DeepCopyObject :: "'m library \<Rightarrow> 'm heap \<Rightarrow> addr option \<Rightarrow> 'm heap \<times> Object option" where
  "ProviderConfigUsageList_DeepCopyObject L h p = objectOf UsageListObject (ProviderConfigUsageList_DeepCopy L h p)"

end
