(* ===== verification/Api_Isolation.thy ===== *)
theory Api_Isolation
  imports Api_Copies
begin

text \<open>
  The deep copies of the native API types are copies: every \<^verbatim>\<open>DeepCopyInto\<close> satisfies the contract of
  \<^verbatim>\<open>copier\<close>, provided those of the library structs do. What a struct says is read from memory by the
  functions below; for a rule it is the record whose \<^verbatim>\<open>Fields\<close> the planner compares.
\<close>

section \<open>Rules\<close>

definition stringAt :: "'m heap \<Rightarrow> addr option \<Rightarrow> string option" where
  "stringAt = pointerRead theString (\<lambda>h x. x)"

definition boolAt :: "'m heap \<Rightarrow> addr option \<Rightarrow> bool option" where
  "boolAt = pointerRead theBool (\<lambda>h x. x)"

definition ruleRead :: "'m heap \<Rightarrow> RuleStruct \<Rightarrow> FirewallFilterRule" where
  "ruleRead h r = \<lparr>
     Action = stringAt h (p_Action r), AddressList = stringAt h (p_AddressList r),
     AddressListTimeout = stringAt h (p_AddressListTimeout r), Chain = stringAt h (p_Chain r),
     Comment = stringAt h (p_Comment r), ConnectionBytes = stringAt h (p_ConnectionBytes r),
     ConnectionLimit = stringAt h (p_ConnectionLimit r),
     ConnectionMark = stringAt h (p_ConnectionMark r),
     ConnectionNatState = stringAt h (p_ConnectionNatState r),
     ConnectionRate = stringAt h (p_ConnectionRate r),
     ConnectionState = stringAt h (p_ConnectionState r),
     ConnectionType = stringAt h (p_ConnectionType r), Content = stringAt h (p_Content r),
     Disabled = boolAt h (p_Disabled r), Dscp = stringAt h (p_Dscp r),
     DstAddress = stringAt h (p_DstAddress r), DstAddressList = stringAt h (p_DstAddressList r),
     DstAddressType = stringAt h (p_DstAddressType r), DstLimit = stringAt h (p_DstLimit r),
     DstPort = stringAt h (p_DstPort r), Fragment = boolAt h (p_Fragment r),
     Hotspot = stringAt h (p_Hotspot r), IcmpOptions = stringAt h (p_IcmpOptions r),
     InBridgePort = stringAt h (p_InBridgePort r),
     InBridgePortList = stringAt h (p_InBridgePortList r),
     InInterface = stringAt h (p_InInterface r),
     InInterfaceList = stringAt h (p_InInterfaceList r),
     IngressPriority = stringAt h (p_IngressPriority r),
     IpsecPolicy = stringAt h (p_IpsecPolicy r), Ipv4Options = stringAt h (p_Ipv4Options r),
     JumpTarget = stringAt h (p_JumpTarget r), Layer7Protocol = stringAt h (p_Layer7Protocol r),
     Limit = stringAt h (p_Limit r), Log = boolAt h (p_Log r),
     LogPrefix = stringAt h (p_LogPrefix r), Nth = stringAt h (p_Nth r),
     OutBridgePort = stringAt h (p_OutBridgePort r),
     OutBridgePortList = stringAt h (p_OutBridgePortList r),
     OutInterface = stringAt h (p_OutInterface r),
     OutInterfaceList = stringAt h (p_OutInterfaceList r), P2P = stringAt h (p_P2P r),
     PacketMark = stringAt h (p_PacketMark r), PacketSize = stringAt h (p_PacketSize r),
     PerConnectionClassifier = stringAt h (p_PerConnectionClassifier r),
     Port = stringAt h (p_Port r), Priority = stringAt h (p_Priority r),
     Protocol = stringAt h (p_Protocol r), PSD = stringAt h (p_PSD r),
     Random = stringAt h (p_Random r), Realm = stringAt h (p_Realm r),
     RejectWith = stringAt h (p_RejectWith r), RoutingMark = stringAt h (p_RoutingMark r),
     SrcAddress = stringAt h (p_SrcAddress r), SrcAddressList = stringAt h (p_SrcAddressList r),
     SrcAddressType = stringAt h (p_SrcAddressType r),
     SrcMACAddress = stringAt h (p_SrcMACAddress r), SrcPort = stringAt h (p_SrcPort r),
     TCPFlags = stringAt h (p_TCPFlags r), TCPMSS = stringAt h (p_TCPMSS r),
     Time = stringAt h (p_Time r), TLSHost = stringAt h (p_TLSHost r), TOS = stringAt h (p_TOS r),
     TTL = stringAt h (p_TTL r)\<rparr>"

text \<open>The pointers of a rule, each with whether it points to a boolean.\<close>

definition scalarOk :: "'m heap \<Rightarrow> bool \<times> addr option \<Rightarrow> bool" where
  "scalarOk h x = (if fst x then pointerOk is_Bool theBool (\<lambda>h x. True) h (snd x)
                   else pointerOk is_String theString (\<lambda>h x. True) h (snd x))"

definition scalarRead :: "'m heap \<Rightarrow> bool \<times> addr option \<Rightarrow> bool \<times> string option \<times> bool option" where
  "scalarRead h x = (if fst x then (True, None, boolAt h (snd x)) else (False, stringAt h (snd x), None))"

definition scalarReach :: "'m heap \<Rightarrow> bool \<times> addr option \<Rightarrow> addr set" where
  "scalarReach h x = set_option (snd x)"

definition copyScalar :: "'m heap \<Rightarrow> bool \<times> addr option \<Rightarrow> 'm heap \<times> (bool \<times> addr option)" where
  "copyScalar h x = (let (h', p) = (if fst x then copyBool else copyString) h (snd x) in (h', fst x, p))"

definition pointers :: "ruleField list \<Rightarrow> RuleStruct \<Rightarrow> (bool \<times> addr option) list" where
  "pointers fs r = map (\<lambda>f. (is_BoolField f, getField f r)) fs"

definition setPointers :: "ruleField list \<Rightarrow> RuleStruct \<Rightarrow> (bool \<times> addr option) list \<Rightarrow> RuleStruct" where
  "setPointers fs r ps = fold (\<lambda>(f, p). setField f (\<lambda>_. snd p)) (zip fs ps) r"

interpretation str: copier "pointerOk is_String theString (\<lambda>h x. True)" stringAt "pointerReach theString (\<lambda>h x. {})" copyString
  unfolding stringAt_def copyString_def by (rule copier_pointer [OF plain.copier_axioms]) simp_all

interpretation flag: copier "pointerOk is_Bool theBool (\<lambda>h x. True)" boolAt "pointerReach theBool (\<lambda>h x. {})" copyBool
  unfolding boolAt_def copyBool_def by (rule copier_pointer [OF plain.copier_axioms]) simp_all

lemma pointerReach_scalar [simp]: "pointerReach valueOf (\<lambda>h x. {}) h p = set_option p"
  by (cases p) (simp_all add: pointerReach_def)

interpretation scalar: copier scalarOk scalarRead scalarReach copyScalar
proof
  fix h x a
  assume "scalarOk h x" "a \<in> scalarReach h x"
  then show "a < length h"
    using str.inside [of h "snd x" a] flag.inside [of h "snd x" a]
    by (auto simp: scalarOk_def scalarReach_def split: if_splits)
next
  fix h h' x
  assume "scalarOk h x" "agree h h' (scalarReach h x)"
  then show "scalarOk h' x \<and> scalarRead h' x = scalarRead h x \<and> scalarReach h' x = scalarReach h x"
    using str.frame [of h "snd x" h'] flag.frame [of h "snd x" h']
    by (simp add: scalarOk_def scalarReach_def scalarRead_def split: if_splits)
next
  fix h x h' y
  assume "scalarOk h x" "copyScalar h x = (h', y)"
  then show "prefix h h' \<and> scalarOk h' y \<and> scalarRead h' y = scalarRead h x \<and> (\<forall>a\<in>scalarReach h' y. length h \<le> a)"
    using str.copies [of h "snd x"] flag.copies [of h "snd x"]
    by (cases "fst x") (auto simp: scalarOk_def scalarReach_def scalarRead_def copyScalar_def Let_def split: prod.splits)
qed

text \<open>The blocks of the code, one after the other, are the copies of the pointers put back in place.\<close>

lemma fold_copyField:
  "fold (copyField r) fs (h, out) = (let (h', ps) = copyAll copyScalar h (pointers fs r) in (h', setPointers fs out ps))"
  by (induction fs arbitrary: h out)
     (auto simp: pointers_def setPointers_def copyField_def copyScalar_def Let_def split: prod.splits)

text \<open>Different fields of a struct do not interfere.\<close>

primrec lenses :: "ruleField list \<Rightarrow> bool" where
  "lenses [] \<longleftrightarrow> True"
| "lenses (f # fs) \<longleftrightarrow> (\<forall>p r. getField f (setField f (\<lambda>_. p) r) = p) \<and>
     list_all (\<lambda>g. \<forall>p r. getField f (setField g (\<lambda>_. p) r) = getField f r) fs \<and> lenses fs"

lemma getField_others:
  "list_all (\<lambda>g. \<forall>p r. getField f (setField g (\<lambda>_. p) r) = getField f r) fs \<Longrightarrow>
   getField f (setPointers fs r ps) = getField f r"
  by (induction fs arbitrary: r ps)
     (auto simp: setPointers_def zip_Cons1 split: list.splits)

lemma pointers_setPointers:
  "lenses fs \<Longrightarrow> map fst ps = map is_BoolField fs \<Longrightarrow> pointers fs (setPointers fs r ps) = ps"
proof (induction fs arbitrary: r ps)
  case (Cons f fs)
  obtain k p qs where ps: "ps = (k, p) # qs" using Cons.prems(2) by (cases ps) auto
  have s: "setPointers (f # fs) r ps = setPointers fs (setField f (\<lambda>_. p) r) qs" by (simp add: setPointers_def ps)
  have "getField f (setPointers (f # fs) r ps) = p"
    using getField_others [of f fs] Cons.prems(1) s by simp
  moreover have "pointers fs (setPointers (f # fs) r ps) = qs" using Cons ps s by simp
  ultimately show ?case using Cons.prems(2) ps by (simp add: pointers_def)
qed (simp add: pointers_def)

lemma lenses_ruleFields: "lenses ruleFields"
  by (simp add: ruleFields_def)

lemma fst_copyAll_scalar: "copyAll copyScalar h xs = (h', ys) \<Longrightarrow> map fst ys = map fst xs"
  by (induction xs arbitrary: h h' ys) (auto simp: copyScalar_def Let_def split: prod.splits)

definition ruleOk :: "'m heap \<Rightarrow> RuleStruct \<Rightarrow> bool" where
  "ruleOk h r = list_all (scalarOk h) (pointers ruleFields r)"

definition ruleReach :: "'m heap \<Rightarrow> RuleStruct \<Rightarrow> addr set" where
  "ruleReach h r = \<Union> (set (map (scalarReach h) (pointers ruleFields r)))"

lemma ruleRead_pointers:
  "map (scalarRead h) (pointers ruleFields r) = map (scalarRead h') (pointers ruleFields r') \<Longrightarrow> ruleRead h r = ruleRead h' r'"
  by (simp add: ruleFields_def pointers_def scalarRead_def ruleRead_def)

interpretation rule: copier ruleOk ruleRead ruleReach FirewallFilterRule_DeepCopyInto
proof (rule copier_read)
  show "copier ruleOk (\<lambda>h r. map (scalarRead h) (pointers ruleFields r)) ruleReach FirewallFilterRule_DeepCopyInto"
    unfolding ruleOk_def [abs_def] ruleReach_def [abs_def]
  proof (rule copier_struct [OF copier_all [OF scalar.copier_axioms], where setFields = "setPointers ruleFields" and view = "\<lambda>s v. v"])
    fix h s h' y
    assume "copyAll copyScalar h (pointers ruleFields s) = (h', y)"
    then have "map fst y = map is_BoolField ruleFields"
      using fst_copyAll_scalar by (fastforce simp: pointers_def)
    then show "pointers ruleFields (setPointers ruleFields s y) = y"
      by (rule pointers_setPointers [OF lenses_ruleFields])
  next
    show "FirewallFilterRule_DeepCopyInto h s = copyStruct (pointers ruleFields) (setPointers ruleFields) (copyAll copyScalar) h s" for h s
      by (simp add: FirewallFilterRule_DeepCopyInto_def copyStruct_def fold_copyField)
  qed simp
qed (rule ruleRead_pointers)

section \<open>Specifications and plans\<close>

definition specOk :: "'m heap \<Rightarrow> SpecStruct \<Rightarrow> bool" where
  "specOk h s = sliceOk is_Rules theRules ruleOk h (spRows s)"

definition specRead :: "'m heap \<Rightarrow> SpecStruct \<Rightarrow> SpecStruct \<times> FirewallFilterRule list option" where
  "specRead h s = (s\<lparr>spRows := None\<rparr>, sliceRead theRules ruleRead h (spRows s))"

definition specReach :: "'m heap \<Rightarrow> SpecStruct \<Rightarrow> addr set" where
  "specReach h s = sliceReach theRules ruleReach h (spRows s)"

interpretation spec: copier specOk specRead specReach FirewallFilterMenuSpec_DeepCopyInto
  unfolding specOk_def [abs_def] specRead_def [abs_def] specReach_def [abs_def]
  by (rule copier_struct [OF copier_slice [OF rule.copier_axioms, where cellOf = RuleArray and zero = zeroRule],
        where setFields = "\<lambda>s y. s\<lparr>spRows := y\<rparr>" and view = "\<lambda>s v. (s\<lparr>spRows := None\<rparr>, v)"])
     (simp_all add: FirewallFilterMenuSpec_DeepCopyInto_def copyStruct_def)

definition planOk :: "'m heap \<Rightarrow> PlanStruct \<Rightarrow> bool" where
  "planOk h s = sliceOk is_Previews thePreviews (\<lambda>h x. True) h (plDeleteRows s)"

definition planRead :: "'m heap \<Rightarrow> PlanStruct \<Rightarrow> PlanStruct \<times> FirewallFilterDeletePreview list option" where
  "planRead h s = (s\<lparr>plDeleteRows := None\<rparr>, sliceRead thePreviews (\<lambda>h x. x) h (plDeleteRows s))"

definition planReach :: "'m heap \<Rightarrow> PlanStruct \<Rightarrow> addr set" where
  "planReach h s = sliceReach thePreviews (\<lambda>h x. {}) h (plDeleteRows s)"

interpretation plan: copier planOk planRead planReach FirewallFilterPlanStatus_DeepCopyInto
  unfolding planOk_def [abs_def] planRead_def [abs_def] planReach_def [abs_def]
  by (rule copier_struct [OF copier_slice [OF plain.copier_axioms, where cellOf = PreviewArray and zero = zeroPreview],
        where setFields = "\<lambda>s y. s\<lparr>plDeleteRows := y\<rparr>" and view = "\<lambda>s v. (s\<lparr>plDeleteRows := None\<rparr>, v)"])
     (simp_all add: FirewallFilterPlanStatus_DeepCopyInto_def copyStruct_def)

section \<open>Menus\<close>

definition statusOk :: "('m heap \<Rightarrow> 'm \<Rightarrow> bool) \<Rightarrow> 'm heap \<Rightarrow> StatusStruct \<Rightarrow> bool" where
  "statusOk lok h s \<longleftrightarrow> pointerOk is_Plan thePlan planOk h (stPendingPlan s) \<and>
     sliceOk is_Rows theRows (\<lambda>h x. True) h (stRows s) \<and> sliceOk is_Conditions theConditions lok h (stConditions s)"

definition statusRead :: "('m heap \<Rightarrow> 'm \<Rightarrow> 'v) \<Rightarrow> 'm heap \<Rightarrow> StatusStruct \<Rightarrow>
  StatusStruct \<times> (PlanStruct \<times> FirewallFilterDeletePreview list option) option \<times>
  FirewallFilterRowStatus list option \<times> 'v list option" where
  "statusRead lread h s = (s\<lparr>stPendingPlan := None, stRows := None, stConditions := None\<rparr>,
     pointerRead thePlan planRead h (stPendingPlan s), sliceRead theRows (\<lambda>h x. x) h (stRows s),
     sliceRead theConditions lread h (stConditions s))"

definition statusReach :: "('m heap \<Rightarrow> 'm \<Rightarrow> addr set) \<Rightarrow> 'm heap \<Rightarrow> StatusStruct \<Rightarrow> addr set" where
  "statusReach lreach h s = pointerReach thePlan planReach h (stPendingPlan s) \<union>
     (sliceReach theRows (\<lambda>h x. {}) h (stRows s) \<union> sliceReach theConditions lreach h (stConditions s))"

lemma copier_status:
  assumes "copier lok lread lreach (Condition_DeepCopyInto L)"
  shows "copier (statusOk lok) (statusRead lread) (statusReach lreach) (FirewallFilterMenuStatus_DeepCopyInto L)"
  unfolding statusOk_def [abs_def] statusRead_def [abs_def] statusReach_def [abs_def]
  using copier_struct [OF copier_both [OF
      copier_pointer [OF plan.copier_axioms, where isCell = is_Plan and cellOf = PlanCell and valueOf = thePlan and zero = zeroPlan]
      copier_both [OF
        copier_slice [OF plain.copier_axioms, where isCell = is_Rows and cellOf = RowArray and valueOf = theRows and zero = zeroRow]
        copier_slice [OF assms, where isCell = is_Conditions and cellOf = ConditionArray and valueOf = theConditions and zero = "libZero L"]]],
      where parts = "\<lambda>s. (stPendingPlan s, stRows s, stConditions s)"
        and setFields = "\<lambda>s y. s\<lparr>stPendingPlan := fst y, stRows := fst (snd y), stConditions := snd (snd y)\<rparr>"
        and view = "\<lambda>s v. (s\<lparr>stPendingPlan := None, stRows := None, stConditions := None\<rparr>, v)"
        and copyS = "FirewallFilterMenuStatus_DeepCopyInto L"]
  by (simp add: FirewallFilterMenuStatus_DeepCopyInto_def copyStruct_def copyBoth_def case_prod_beta Let_def)

definition menuOk :: "('m heap \<Rightarrow> 'm \<Rightarrow> bool) \<Rightarrow> 'm heap \<Rightarrow> 'm MenuStruct \<Rightarrow> bool" where
  "menuOk lok h m \<longleftrightarrow> lok h (muObjectMeta m) \<and> specOk h (muSpec m) \<and> statusOk lok h (muStatus m)"

definition menuRead where
  "menuRead lread h m = (muTypeMeta m, lread h (muObjectMeta m), specRead h (muSpec m), statusRead lread h (muStatus m))"

definition menuReach :: "('m heap \<Rightarrow> 'm \<Rightarrow> addr set) \<Rightarrow> 'm heap \<Rightarrow> 'm MenuStruct \<Rightarrow> addr set" where
  "menuReach lreach h m = lreach h (muObjectMeta m) \<union> (specReach h (muSpec m) \<union> statusReach lreach h (muStatus m))"

lemma copier_menu:
  assumes "copier lok lread lreach (ObjectMeta_DeepCopyInto L)" "copier lok lread lreach (Condition_DeepCopyInto L)"
  shows "copier (menuOk lok) (menuRead lread) (menuReach lreach) (FirewallFilterMenu_DeepCopyInto L)"
  unfolding menuOk_def [abs_def] menuRead_def [abs_def] menuReach_def [abs_def]
  using copier_struct [OF copier_both [OF assms(1) copier_both [OF spec.copier_axioms copier_status [OF assms(2)]]],
      where parts = "\<lambda>s. (muObjectMeta s, muSpec s, muStatus s)"
        and setFields = "\<lambda>s y. s\<lparr>muObjectMeta := fst y, muSpec := fst (snd y), muStatus := snd (snd y)\<rparr>"
        and view = "\<lambda>s v. (muTypeMeta s, v)" and copyS = "FirewallFilterMenu_DeepCopyInto L"]
  by (simp add: FirewallFilterMenu_DeepCopyInto_def copyStruct_def copyBoth_def case_prod_beta Let_def)

text \<open>The list types: metadata and a slice of items.\<close>

definition listOk :: "('m cell \<Rightarrow> bool) \<Rightarrow> ('m cell \<Rightarrow> 'a list) \<Rightarrow> ('m heap \<Rightarrow> 'm \<Rightarrow> bool) \<Rightarrow> ('m heap \<Rightarrow> 'a \<Rightarrow> bool) \<Rightarrow>
  'm heap \<Rightarrow> 'm ListStruct \<Rightarrow> bool" where
  "listOk isCell valueOf lok ok h s \<longleftrightarrow> lok h (liListMeta s) \<and> sliceOk isCell valueOf ok h (liItems s)"

definition listRead :: "('m cell \<Rightarrow> 'a list) \<Rightarrow> ('m heap \<Rightarrow> 'm \<Rightarrow> 'v) \<Rightarrow> ('m heap \<Rightarrow> 'a \<Rightarrow> 'w) \<Rightarrow>
  'm heap \<Rightarrow> 'm ListStruct \<Rightarrow> TypeMeta \<times> 'v \<times> 'w list option" where
  "listRead valueOf lread read h s = (liTypeMeta s, lread h (liListMeta s), sliceRead valueOf read h (liItems s))"

definition listReach :: "('m cell \<Rightarrow> 'a list) \<Rightarrow> ('m heap \<Rightarrow> 'm \<Rightarrow> addr set) \<Rightarrow> ('m heap \<Rightarrow> 'a \<Rightarrow> addr set) \<Rightarrow>
  'm heap \<Rightarrow> 'm ListStruct \<Rightarrow> addr set" where
  "listReach valueOf lreach reach h s = lreach h (liListMeta s) \<union> sliceReach valueOf reach h (liItems s)"

lemma copier_list:
  assumes "copier lok lread lreach (ListMeta_DeepCopyInto L)" "copier ok read reach copyInto"
    and "\<And>ys. isCell (cellOf ys)" "\<And>ys. valueOf (cellOf ys) = ys"
    and "\<And>h s. copyS h s = (let (h, meta) = ListMeta_DeepCopyInto L h (liListMeta s);
                                (h, items) = copySlice zero cellOf valueOf copyInto h (liItems s)
                            in (h, s\<lparr>liListMeta := meta, liItems := items\<rparr>))"
  shows "copier (listOk isCell valueOf lok ok) (listRead valueOf lread read) (listReach valueOf lreach reach) copyS"
  unfolding listOk_def [abs_def] listRead_def [abs_def] listReach_def [abs_def]
  using copier_struct [OF copier_both [OF assms(1)
        copier_slice [OF assms(2), where isCell = isCell and cellOf = cellOf and valueOf = valueOf and zero = zero]],
      where parts = "\<lambda>s. (liListMeta s, liItems s)" and setFields = "\<lambda>s y. s\<lparr>liListMeta := fst y, liItems := snd y\<rparr>"
        and view = "\<lambda>s v. (liTypeMeta s, v)" and copyS = copyS]
  by (simp add: assms(3-5) copyStruct_def copyBoth_def case_prod_beta Let_def)

lemma copier_menuList:
  assumes "copier lok lread lreach (ObjectMeta_DeepCopyInto L)" "copier lok lread lreach (Condition_DeepCopyInto L)"
    "copier lok lread lreach (ListMeta_DeepCopyInto L)"
  shows "copier (listOk is_Menus theMenus lok (menuOk lok)) (listRead theMenus lread (menuRead lread))
    (listReach theMenus lreach (menuReach lreach)) (FirewallFilterMenuList_DeepCopyInto L)"
  by (rule copier_list [OF assms(3) copier_menu [OF assms(1,2)]])
     (simp_all add: FirewallFilterMenuList_DeepCopyInto_def)

section \<open>Provider configurations\<close>

definition tlsOk :: "'m heap \<Rightarrow> TLSStruct \<Rightarrow> bool" where
  "tlsOk h s = pointerOk is_Selector theSelector (\<lambda>h x. True) h (tlCASecretRef s)"

definition tlsRead :: "'m heap \<Rightarrow> TLSStruct \<Rightarrow> bool \<times> SelectorStruct option" where
  "tlsRead h s = (tlInsecureSkipVerify s, pointerRead theSelector (\<lambda>h x. x) h (tlCASecretRef s))"

definition tlsReach :: "'m heap \<Rightarrow> TLSStruct \<Rightarrow> addr set" where
  "tlsReach h s = pointerReach theSelector (\<lambda>h x. {}) h (tlCASecretRef s)"

interpretation tls: copier tlsOk tlsRead tlsReach ProviderTLSConfig_DeepCopyInto
  unfolding tlsOk_def [abs_def] tlsRead_def [abs_def] tlsReach_def [abs_def]
  by (rule copier_struct [OF copier_pointer [OF plain.copier_axioms, where cellOf = SelectorCell and zero = zeroSelector],
        where setFields = "\<lambda>s y. s\<lparr>tlCASecretRef := y\<rparr>" and view = "\<lambda>s v. (tlInsecureSkipVerify s, v)"])
     (simp_all add: ProviderTLSConfig_DeepCopyInto_def copyStruct_def)

definition configSpecOk :: "'m heap \<Rightarrow> ConfigSpecStruct \<Rightarrow> bool" where
  "configSpecOk h s \<longleftrightarrow> pointerOk is_TLS theTLS tlsOk h (csTLS s) \<and>
     pointerOk is_Duration theDuration (\<lambda>h x. True) h (csRequestTimeout s)"

definition configSpecRead where
  "configSpecRead h s = ((csEndpoint s, csCredentials s), pointerRead theTLS tlsRead h (csTLS s),
     pointerRead theDuration (\<lambda>h x. x) h (csRequestTimeout s))"

definition configSpecReach :: "'m heap \<Rightarrow> ConfigSpecStruct \<Rightarrow> addr set" where
  "configSpecReach h s = pointerReach theTLS tlsReach h (csTLS s) \<union>
     pointerReach theDuration (\<lambda>h x. {}) h (csRequestTimeout s)"

interpretation configSpec: copier configSpecOk configSpecRead configSpecReach ProviderConfigSpec_DeepCopyInto
  unfolding configSpecOk_def [abs_def] configSpecRead_def [abs_def] configSpecReach_def [abs_def]
  using copier_struct [OF copier_both [OF
        copier_pointer [OF tls.copier_axioms, where isCell = is_TLS and cellOf = TLSCell and valueOf = theTLS and zero = zeroTLS]
        copier_pointer [OF plain.copier_axioms, where isCell = is_Duration and cellOf = DurationCell and valueOf = theDuration and zero = 0]],
      where parts = "\<lambda>s. (csTLS s, csRequestTimeout s)" and setFields = "\<lambda>s y. s\<lparr>csTLS := fst y, csRequestTimeout := snd y\<rparr>"
        and view = "\<lambda>s v. ((csEndpoint s, csCredentials s), v)" and copyS = ProviderConfigSpec_DeepCopyInto]
  by (simp add: ProviderConfigSpec_DeepCopyInto_def copyStruct_def copyBoth_def case_prod_beta Let_def)

definition configOk :: "('m heap \<Rightarrow> 'm \<Rightarrow> bool) \<Rightarrow> 'm heap \<Rightarrow> 'm ConfigStruct \<Rightarrow> bool" where
  "configOk lok h s \<longleftrightarrow> lok h (cfObjectMeta s) \<and> configSpecOk h (cfSpec s) \<and> lok h (ccStatus (cfStatus s))"

definition configRead where
  "configRead lread h s = (cfTypeMeta s, lread h (cfObjectMeta s), configSpecRead h (cfSpec s), lread h (ccStatus (cfStatus s)))"

definition configReach :: "('m heap \<Rightarrow> 'm \<Rightarrow> addr set) \<Rightarrow> 'm heap \<Rightarrow> 'm ConfigStruct \<Rightarrow> addr set" where
  "configReach lreach h s = lreach h (cfObjectMeta s) \<union> (configSpecReach h (cfSpec s) \<union> lreach h (ccStatus (cfStatus s)))"

lemma copier_config:
  assumes "copier lok lread lreach (ObjectMeta_DeepCopyInto L)" "copier lok lread lreach (CommonStatus_DeepCopyInto L)"
  shows "copier (configOk lok) (configRead lread) (configReach lreach) (ProviderConfig_DeepCopyInto L)"
  unfolding configOk_def [abs_def] configRead_def [abs_def] configReach_def [abs_def]
  using copier_struct [OF copier_both [OF assms(1) copier_both [OF configSpec.copier_axioms assms(2)]],
      where parts = "\<lambda>s. (cfObjectMeta s, cfSpec s, ccStatus (cfStatus s))"
        and setFields = "\<lambda>s y. s\<lparr>cfObjectMeta := fst y, cfSpec := fst (snd y), cfStatus := (cfStatus s)\<lparr>ccStatus := snd (snd y)\<rparr>\<rparr>"
        and view = "\<lambda>s v. (cfTypeMeta s, v)" and copyS = "ProviderConfig_DeepCopyInto L"]
  by (simp add: ProviderConfig_DeepCopyInto_def ProviderConfigStatus_DeepCopyInto_def copyStruct_def copyBoth_def
      case_prod_beta Let_def)

definition usageOk :: "('m heap \<Rightarrow> 'm \<Rightarrow> bool) \<Rightarrow> 'm heap \<Rightarrow> 'm UsageStruct \<Rightarrow> bool" where
  "usageOk lok h s = lok h (ugObjectMeta s)"

definition usageRead where
  "usageRead lread h s = ((ugTypeMeta s, ugTyped s), lread h (ugObjectMeta s))"

definition usageReach :: "('m heap \<Rightarrow> 'm \<Rightarrow> addr set) \<Rightarrow> 'm heap \<Rightarrow> 'm UsageStruct \<Rightarrow> addr set" where
  "usageReach lreach h s = lreach h (ugObjectMeta s)"

lemma copier_usage:
  assumes "copier lok lread lreach (ObjectMeta_DeepCopyInto L)"
  shows "copier (usageOk lok) (usageRead lread) (usageReach lreach) (ProviderConfigUsage_DeepCopyInto L)"
  unfolding usageOk_def [abs_def] usageRead_def [abs_def] usageReach_def [abs_def]
  by (rule copier_struct [OF assms, where setFields = "\<lambda>s y. s\<lparr>ugObjectMeta := y\<rparr>"
        and view = "\<lambda>s v. ((ugTypeMeta s, ugTyped s), v)"])
     (simp_all add: ProviderConfigUsage_DeepCopyInto_def copyStruct_def case_prod_beta Let_def)

lemma copier_configList:
  assumes "copier lok lread lreach (ObjectMeta_DeepCopyInto L)" "copier lok lread lreach (CommonStatus_DeepCopyInto L)"
    "copier lok lread lreach (ListMeta_DeepCopyInto L)"
  shows "copier (listOk is_Configs theConfigs lok (configOk lok)) (listRead theConfigs lread (configRead lread))
    (listReach theConfigs lreach (configReach lreach)) (ProviderConfigList_DeepCopyInto L)"
  by (rule copier_list [OF assms(3) copier_config [OF assms(1,2)]])
     (simp_all add: ProviderConfigList_DeepCopyInto_def)

lemma copier_usageList:
  assumes "copier lok lread lreach (ObjectMeta_DeepCopyInto L)" "copier lok lread lreach (ListMeta_DeepCopyInto L)"
  shows "copier (listOk is_Usages theUsages lok (usageOk lok)) (listRead theUsages lread (usageRead lread))
    (listReach theUsages lreach (usageReach lreach)) (ProviderConfigUsageList_DeepCopyInto L)"
  by (rule copier_list [OF assms(2) copier_usage [OF assms(1)]])
     (simp_all add: ProviderConfigUsageList_DeepCopyInto_def)

section \<open>Copies of objects\<close>

text \<open>
  A pointer and its copy: both \<^verbatim>\<open>nil\<close> or neither, the memory there was is unchanged, both say the same,
  they share no cell, and whatever is stored later through one of them, or in memory allocated since,
  the other one says what it said.
\<close>

definition isolatedCopy ::
  "('c list \<Rightarrow> addr option \<Rightarrow> 'v) \<Rightarrow> ('c list \<Rightarrow> addr option \<Rightarrow> addr set) \<Rightarrow> 'c list \<Rightarrow> addr option \<Rightarrow> 'c list \<times> addr option \<Rightarrow> bool" where
  "isolatedCopy read reach h p res \<longleftrightarrow> (case res of (h', q) \<Rightarrow>
     (q = None \<longleftrightarrow> p = None) \<and> prefix h h' \<and> read h' q = read h p \<and> reach h' p \<inter> reach h' q = {} \<and>
     (\<forall>ws. (\<forall>a c. Store a c \<in> set ws \<longrightarrow> a \<in> reach h' q \<or> length h' \<le> a) \<longrightarrow> read (evolve ws h') p = read h p) \<and>
     (\<forall>ws. (\<forall>a c. Store a c \<in> set ws \<longrightarrow> a \<in> reach h' p \<or> length h' \<le> a) \<longrightarrow> read (evolve ws h') q = read h p))"

lemma pointer_isolated:
  assumes c: "copier ok read reach copyInto" and cell: "\<And>y. isCell (cellOf y)" "\<And>y. valueOf (cellOf y) = y"
    and o: "pointerOk isCell valueOf ok h p"
  shows "isolatedCopy (pointerRead valueOf read) (pointerReach valueOf reach) h p (copyPointer zero cellOf valueOf copyInto h p)"
proof -
  note cp = copier_pointer [of ok read reach copyInto isCell cellOf valueOf zero, OF c cell]
  obtain h' q where e: "copyPointer zero cellOf valueOf copyInto h p = (h', q)" by fastforce
  have "q = None \<longleftrightarrow> p = None" using e by (auto simp: copyPointer_def Let_def split: option.splits prod.splits)
  then show ?thesis
    using e copier.copies [OF cp o e] copier.isolated [OF cp o e] by (simp add: isolatedCopy_def)
qed

text \<open>
  C40: The reconciler compares and patches an object against the deep copy it took before changing it, so
  the copy must not change with it. For each of the six kinds of object of the native API, a menu, a
  provider configuration, a usage and the lists of these, \<^verbatim>\<open>DeepCopy\<close> of a well formed object gives an
  isolated copy: it says the same, down to every field of every rule, plan and condition, and nothing
  stored afterwards through one of the two shows in the other. The copies of the library structs inside
  (metadata, conditions, common status) are assumed to be deep copies themselves.
\<close>

theorem objects_copied:
  assumes "copier lok lread lreach (ObjectMeta_DeepCopyInto L)" "copier lok lread lreach (ListMeta_DeepCopyInto L)"
    "copier lok lread lreach (Condition_DeepCopyInto L)" "copier lok lread lreach (CommonStatus_DeepCopyInto L)"
  shows
    "(pointerOk is_Menu theMenu (menuOk lok) h p \<longrightarrow>
        isolatedCopy (pointerRead theMenu (menuRead lread)) (pointerReach theMenu (menuReach lreach)) h p
          (FirewallFilterMenu_DeepCopy L h p)) \<and>
     (pointerOk is_MenuList theMenuList (listOk is_Menus theMenus lok (menuOk lok)) h p \<longrightarrow>
        isolatedCopy (pointerRead theMenuList (listRead theMenus lread (menuRead lread)))
          (pointerReach theMenuList (listReach theMenus lreach (menuReach lreach))) h p
          (FirewallFilterMenuList_DeepCopy L h p)) \<and>
     (pointerOk is_Config theConfig (configOk lok) h p \<longrightarrow>
        isolatedCopy (pointerRead theConfig (configRead lread)) (pointerReach theConfig (configReach lreach)) h p
          (ProviderConfig_DeepCopy L h p)) \<and>
     (pointerOk is_ConfigList theConfigList (listOk is_Configs theConfigs lok (configOk lok)) h p \<longrightarrow>
        isolatedCopy (pointerRead theConfigList (listRead theConfigs lread (configRead lread)))
          (pointerReach theConfigList (listReach theConfigs lreach (configReach lreach))) h p
          (ProviderConfigList_DeepCopy L h p)) \<and>
     (pointerOk is_Usage theUsage (usageOk lok) h p \<longrightarrow>
        isolatedCopy (pointerRead theUsage (usageRead lread)) (pointerReach theUsage (usageReach lreach)) h p
          (ProviderConfigUsage_DeepCopy L h p)) \<and>
     (pointerOk is_UsageList theUsageList (listOk is_Usages theUsages lok (usageOk lok)) h p \<longrightarrow>
        isolatedCopy (pointerRead theUsageList (listRead theUsages lread (usageRead lread)))
          (pointerReach theUsageList (listReach theUsages lreach (usageReach lreach))) h p
          (ProviderConfigUsageList_DeepCopy L h p))"
  unfolding FirewallFilterMenu_DeepCopy_def FirewallFilterMenuList_DeepCopy_def ProviderConfig_DeepCopy_def
    ProviderConfigList_DeepCopy_def ProviderConfigUsage_DeepCopy_def ProviderConfigUsageList_DeepCopy_def
  using assms
  by (intro conjI impI pointer_isolated)
     (simp_all add: copier_menu copier_menuList copier_config copier_configList copier_usage copier_usageList)

text \<open>\<^verbatim>\<open>DeepCopyObject\<close> gives the interface's \<^verbatim>\<open>nil\<close> for \<^verbatim>\<open>nil\<close> and never an object with a \<^verbatim>\<open>nil\<close> pointer.\<close>

lemma DeepCopyObject_pointer:
  "objectOf kind (copyPointer zero cellOf valueOf copyInto h p) =
     (fst (copyPointer zero cellOf valueOf copyInto h p), map_option (\<lambda>_. kind (Some (length h))) p)"
  by (cases p) (simp_all add: objectOf_def copyPointer_def case_prod_beta Let_def)

text \<open>
  The object of the code's own test: a menu whose pending plan previews one row, with one rule. The
  metadata is a struct with one pointer, which its copy follows.
\<close>

definition exMeta_DeepCopyInto :: "addr option heap \<Rightarrow> addr option \<Rightarrow> addr option heap \<times> addr option" where
  "exMeta_DeepCopyInto = copyPointer None Foreign theForeign copyValue"

definition exLibrary :: "addr option library" where
  "exLibrary = \<lparr>libZero = None, ObjectMeta_DeepCopyInto = exMeta_DeepCopyInto, ListMeta_DeepCopyInto = exMeta_DeepCopyInto,
     Condition_DeepCopyInto = exMeta_DeepCopyInto, CommonStatus_DeepCopyInto = exMeta_DeepCopyInto\<rparr>"

definition exHeap :: "addr option heap" where
  "exHeap = [
     MenuCell \<lparr>muTypeMeta = zeroTypeMeta, muObjectMeta = Some 1,
       muSpec = zeroSpec\<lparr>spRows := Some \<lparr>sliceArray = 4, sliceOffset = 0, sliceLen = 1\<rparr>\<rparr>,
       muStatus = zeroStatus\<lparr>stPendingPlan := Some 2\<rparr>\<rparr>,
     Foreign (Some 7),
     PlanCell (zeroPlan\<lparr>plApprovalToken := ''token'',
       plDeleteRows := Some \<lparr>sliceArray = 3, sliceOffset = 0, sliceLen = 1\<rparr>\<rparr>),
     PreviewArray [zeroPreview\<lparr>pvID := ''*1'', pvComment := ''existing''\<rparr>],
     RuleArray [zeroRule\<lparr>p_Chain := Some 5\<rparr>],
     StringCell ''forward'']"

definition exCopy :: "addr option heap \<times> addr option" where
  "exCopy = FirewallFilterMenu_DeepCopy exLibrary exHeap (Some 0)"

interpretation exMeta: copier "pointerOk is_Foreign theForeign (\<lambda>h x. True)" "pointerRead theForeign (\<lambda>h x. x)"
    "pointerReach theForeign (\<lambda>h x. {})" exMeta_DeepCopyInto
  unfolding exMeta_DeepCopyInto_def by (rule copier_pointer [OF plain.copier_axioms]) simp_all

lemma exHeap_ok: "pointerOk is_Menu theMenu (menuOk (pointerOk is_Foreign theForeign (\<lambda>h x. True))) exHeap (Some 0)"
  by (simp add: exHeap_def pointerOk_def menuOk_def specOk_def statusOk_def sliceOk_def planOk_def elements_def ruleOk_def
      pointers_def ruleFields_def scalarOk_def zeroRule_def zeroSpec_def zeroStatus_def zeroPlan_def)

lemma exCopy_at: "snd exCopy = Some 6"
  by (simp add: exCopy_def FirewallFilterMenu_DeepCopy_def copyPointer_def exHeap_def case_prod_beta Let_def)

abbreviation exRead :: "addr option heap \<Rightarrow> addr option \<Rightarrow> _" where
  "exRead \<equiv> pointerRead theMenu (menuRead (pointerRead theForeign (\<lambda>h x. x)))"

theorem objects_copied_witness:
  "snd exCopy = Some 6 \<and> exRead (fst exCopy) (Some 6) = exRead exHeap (Some 0) \<and>
   exRead (evolve [Store 6 (MenuCell (zeroMenu exLibrary))] (fst exCopy)) (Some 0) = exRead exHeap (Some 0)"
proof -
  have iso: "isolatedCopy exRead (pointerReach theMenu (menuReach (pointerReach theForeign (\<lambda>h x. {})))) exHeap (Some 0) exCopy"
    unfolding exCopy_def
    using objects_copied [of "pointerOk is_Foreign theForeign (\<lambda>h x. True)" "pointerRead theForeign (\<lambda>h x. x)"
        "pointerReach theForeign (\<lambda>h x. {})" exLibrary exHeap "Some 0"] exHeap_ok exMeta.copier_axioms
    by (simp add: exLibrary_def)
  obtain h' where e: "exCopy = (h', Some 6)" using exCopy_at by (metis prod.collapse)
  have "exRead h' (Some 6) = exRead exHeap (Some 0)" using iso [unfolded e] by (simp add: isolatedCopy_def)
  moreover have "(\<forall>a c. Store a c \<in> set ws \<longrightarrow> a = 6) \<longrightarrow> exRead (evolve ws h') (Some 0) = exRead exHeap (Some 0)" for ws
    using iso [unfolded e] by (simp add: isolatedCopy_def pointerReach_def)
  ultimately show ?thesis unfolding e by simp
qed

end
